(* ===== verification/Prelude.thy ===== *)
theory Prelude
  imports Main "HOL-Library.Sublist" "HOL-Library.Char_ord" "HOL-Library.List_Lexorder"
begin

section \<open>Shared types, string operations and automation\<close>

text \<open>
  What every component theory uses: the type names of the model, the string operations of
  Python that the sources call (as functions on \<open>string\<close>, one \<open>char\<close> per code point below
  256), list and option lemmas, the \<open>named_theorems\<close> collections, and the generic locale
  \<open>invariant_system\<close> that turns "every operation keeps the invariant" into "every reachable
  state satisfies it".
\<close>

type_synonym path = string
type_synonym digest = string

named_theorems store_simps \<open>unfolding rules of the persistent stores\<close>
named_theorems text_simps \<open>unfolding rules of the string operations\<close>

subsection \<open>Reachability and invariants, once for all components\<close>

text \<open>
  A component is an initial state, a predicate \<open>ok\<close> on operations (what the environment is
  allowed to ask for) and a transition function. Reachable states are those after any finite
  sequence of allowed operations.
\<close>

fun permitted :: "('s \<Rightarrow> 'o \<Rightarrow> bool) \<Rightarrow> ('s \<Rightarrow> 'o \<Rightarrow> 's) \<Rightarrow> 's \<Rightarrow> 'o list \<Rightarrow> bool" where
  "permitted ok exec s [] = True"
| "permitted ok exec s (x # xs) = (ok s x \<and> permitted ok exec (exec s x) xs)"

lemma permitted_append:
  "permitted ok exec s (xs @ ys) \<longleftrightarrow> permitted ok exec s xs \<and> permitted ok exec (foldl exec s xs) ys"
  by (induction xs arbitrary: s) auto

lemma permitted_always: "(\<And>s x. ok s x) \<Longrightarrow> permitted ok exec s xs"
  by (induction xs arbitrary: s) auto

locale invariant_system =
  fixes init :: "'s"
    and ok :: "'s \<Rightarrow> 'o \<Rightarrow> bool"
    and exec :: "'s \<Rightarrow> 'o \<Rightarrow> 's"
    and inv :: "'s \<Rightarrow> bool"
  assumes inv_init: "inv init"
    and inv_exec: "inv s \<Longrightarrow> ok s x \<Longrightarrow> inv (exec s x)"
begin

lemma inv_foldl: "inv s \<Longrightarrow> permitted ok exec s xs \<Longrightarrow> inv (foldl exec s xs)"
  by (induction xs arbitrary: s) (auto intro: inv_exec)

lemma inv_reachable: "permitted ok exec init xs \<Longrightarrow> inv (foldl exec init xs)"
  by (rule inv_foldl) (rule inv_init)

end

subsection \<open>Python string operations\<close>

text \<open>\<open>s.startswith(p)\<close> and \<open>s.endswith(p)\<close>, also over a tuple of alternatives.\<close>

definition starts_with :: "string \<Rightarrow> string \<Rightarrow> bool" where
  "starts_with s p = (take (length p) s = p)"

definition ends_with :: "string \<Rightarrow> string \<Rightarrow> bool" where
  "ends_with s p = (length p \<le> length s \<and> drop (length s - length p) s = p)"

definition starts_with_any :: "string \<Rightarrow> string list \<Rightarrow> bool" where
  "starts_with_any s ps = list_ex (starts_with s) ps"

definition ends_with_any :: "string \<Rightarrow> string list \<Rightarrow> bool" where
  "ends_with_any s ps = list_ex (ends_with s) ps"

text \<open>\<open>p in s\<close> for strings.\<close>

fun contains :: "string \<Rightarrow> string \<Rightarrow> bool" where
  "contains [] p = (p = [])"
| "contains (c # s) p = (starts_with (c # s) p \<or> contains s p)"

text \<open>\<open>s.split(sep)\<close> for a one-character separator: never the empty list.\<close>

fun split_on :: "char \<Rightarrow> string \<Rightarrow> string list" where
  "split_on d [] = [[]]"
| "split_on d (c # s) =
     (if c = d then [] # split_on d s
      else (case split_on d s of [] \<Rightarrow> [[c]] | w # ws \<Rightarrow> (c # w) # ws))"

text \<open>\<open>sep.join(parts)\<close> for a one-character separator.\<close>

fun join_with :: "char \<Rightarrow> string list \<Rightarrow> string" where
  "join_with d [] = []"
| "join_with d [w] = w"
| "join_with d (w # v # ws) = w @ d # join_with d (v # ws)"

text \<open>\<open>s.replace(a, b)\<close> for single characters, and \<open>s.lower()\<close> on ASCII letters.\<close>

definition replace_char :: "char \<Rightarrow> char \<Rightarrow> string \<Rightarrow> string" where
  "replace_char a b s = map (\<lambda>c. if c = a then b else c) s"

definition lower_char :: "char \<Rightarrow> char" where
  "lower_char c = (if of_char c \<ge> (65::nat) \<and> of_char c \<le> (90::nat)
                   then char_of (of_char c + (32::nat)) else c)"

definition lower :: "string \<Rightarrow> string" where
  "lower s = map lower_char s"

definition backslash :: char where
  "backslash = char_of (92::nat)"

definition newline :: char where
  "newline = char_of (10::nat)"

definition is_space_char :: "char \<Rightarrow> bool" where
  "is_space_char c = (let n = (of_char c :: nat) in n = 32 \<or> (9 \<le> n \<and> n \<le> 13) \<or> (28 \<le> n \<and> n \<le> 31)
     \<or> n = 133 \<or> n = 160)"

text \<open>The trimming of a text field by pydantic, of code points with the property White_Space below 256.\<close>

definition is_trimmed_char :: "char \<Rightarrow> bool" where
  "is_trimmed_char c = ((of_char c :: nat) \<in> set [9, 10, 11, 12, 13, 32, 133, 160])"

definition trim :: "string \<Rightarrow> string" where
  "trim s = rev (dropWhile is_trimmed_char (rev (dropWhile is_trimmed_char s)))"

text \<open>Removing leading \<open>./\<close> as long as there is one.\<close>

fun drop_dot_slash :: "string \<Rightarrow> string" where
  "drop_dot_slash (c # d # s) = (if c = CHR ''.'' \<and> d = CHR ''/'' then drop_dot_slash s else c # d # s)"
| "drop_dot_slash s = s"

text \<open>\<open>s.strip()\<close>, \<open>s.lstrip()\<close> and \<open>s.rstrip()\<close> with no argument.\<close>

definition lstrip :: "string \<Rightarrow> string" where
  "lstrip s = dropWhile is_space_char s"

definition rstrip :: "string \<Rightarrow> string" where
  "rstrip s = rev (dropWhile is_space_char (rev s))"

definition strip :: "string \<Rightarrow> string" where
  "strip s = rstrip (lstrip s)"

text \<open>
  \<open>s.splitlines()\<close>: every Python line boundary below code point 256 ends a line, with
  carriage return plus line feed as one boundary; \<open>splitlines_keep\<close> is
  \<open>splitlines(keepends=True)\<close>.
\<close>

definition is_line_end :: "char \<Rightarrow> bool" where
  "is_line_end c = ((of_char c :: nat) \<in> set [10, 11, 12, 13, 28, 29, 30, 133])"

definition carriage :: char where
  "carriage = char_of (13::nat)"

fun splitlines_acc :: "string \<Rightarrow> string \<Rightarrow> string list" where
  "splitlines_acc acc [] = (if acc = [] then [] else [rev acc])"
| "splitlines_acc acc [c] = [rev (c # acc)]"
| "splitlines_acc acc (c # d # s) =
     (if c = carriage \<and> d = newline then rev (d # c # acc) # splitlines_acc [] s
      else if is_line_end c then rev (c # acc) # splitlines_acc [] (d # s)
      else splitlines_acc (c # acc) (d # s))"

definition splitlines_keep :: "string \<Rightarrow> string list" where
  "splitlines_keep s = splitlines_acc [] s"

definition drop_line_end :: "string \<Rightarrow> string" where
  "drop_line_end l = rev (dropWhile is_line_end (rev l))"

definition splitlines :: "string \<Rightarrow> string list" where
  "splitlines s = map drop_line_end (splitlines_keep s)"

lemmas affix_defs [text_simps] = starts_with_def ends_with_def starts_with_any_def ends_with_any_def

lemma starts_with_iff: "starts_with s p \<longleftrightarrow> prefix p s"
  by (auto simp: starts_with_def prefix_def dest: sym) (metis append_take_drop_id)

lemma starts_with_self_append [simp]: "starts_with (p @ s) p"
  by (simp add: starts_with_def)

lemma starts_with_Nil [simp]: "starts_with s []"
  by (simp add: starts_with_def)

lemma contains_iff: "contains s p \<longleftrightarrow> (\<exists>u v. s = u @ p @ v)"
proof (induction s)
  case Nil
  then show ?case by simp
next
  case (Cons c s)
  have "(\<exists>u v. c # s = u @ p @ v) \<longleftrightarrow> prefix p (c # s) \<or> (\<exists>u v. s = u @ p @ v)"
    by (auto simp: Cons_eq_append_conv prefix_def)
  then show ?case by (simp add: Cons.IH starts_with_iff)
qed

lemma trim_trim [simp]: "trim (trim s) = trim s"
proof -
  let ?u = "dropWhile is_trimmed_char s"
  have r: "rev (trim s) = dropWhile is_trimmed_char (rev ?u)" by (simp add: trim_def)
  have "prefix (trim s) ?u"
    using suffix_dropWhile [of is_trimmed_char "rev ?u"] by (simp add: r [symmetric] suffix_to_prefix)
  then have "dropWhile is_trimmed_char (trim s) = trim s"
  proof (cases "trim s")
    case (Cons c t)
    with \<open>prefix (trim s) ?u\<close> obtain v where "?u = c # v" by (auto simp: prefix_def)
    then have "\<not> is_trimmed_char c" by (metis dropWhile_eq_Cons_conv)
    with Cons show ?thesis by simp
  qed simp
  then have "trim (trim s) = rev (dropWhile is_trimmed_char (rev (trim s)))" by (simp add: trim_def)
  also have "\<dots> = rev (dropWhile is_trimmed_char (rev ?u))" unfolding r by simp
  finally show ?thesis by (simp add: trim_def)
qed

lemma split_on_nonempty [simp]: "split_on d s \<noteq> []"
  by (induction s) (auto split: list.splits)

lemma join_split [simp]: "join_with d (split_on d s) = s"
proof (induction s)
  case Nil
  then show ?case by simp
next
  case (Cons c s)
  obtain w ws where w: "split_on d s = w # ws"
    by (cases "split_on d s") auto
  with Cons show ?case by (cases ws) auto
qed

lemma split_on_no_sep: "w \<in> set (split_on d s) \<Longrightarrow> d \<notin> set w"
proof (induction s arbitrary: w)
  case Nil
  then show ?case by simp
next
  case (Cons c s)
  then show ?case
    by (cases "split_on d s") (auto split: if_splits)
qed

lemma split_on_plain: "d \<notin> set w \<Longrightarrow> split_on d w = [w]"
  by (induction w) auto

lemma split_on_append_sep: "d \<notin> set w \<Longrightarrow> split_on d (w @ d # s) = w # split_on d s"
  by (induction w) auto

lemma last_split_after: "last (split_on d (u @ d # w)) = last (split_on d w)"
proof (induction u)
  case (Cons c u)
  obtain x xs where "split_on d (u @ d # w) = x # xs" by (cases "split_on d (u @ d # w)") auto
  moreover have "length (split_on d (u @ d # w)) > 1"
    by (induction u) (auto split: list.splits)
  ultimately show ?case using Cons by (cases xs) auto
qed (auto split: list.splits)

lemma starts_with_prefix: "starts_with s p \<longleftrightarrow> prefix p s"
  by (metis append_eq_conv_conj append_take_drop_id prefix_def starts_with_def)

lemma ends_with_suffix: "ends_with s p \<longleftrightarrow> suffix p s"
proof
  assume "ends_with s p"
  then show "suffix p s" by (metis ends_with_def suffix_drop)
next
  assume "suffix p s"
  then show "ends_with s p" by (auto simp: ends_with_def suffix_def)
qed

lemma split_join:
  "ws \<noteq> [] \<Longrightarrow> \<forall>w \<in> set ws. d \<notin> set w \<Longrightarrow> split_on d (join_with d ws) = ws"
  by (induction d ws rule: join_with.induct) (auto simp: split_on_plain split_on_append_sep)

subsection \<open>Lists\<close>

text \<open>Order-preserving removal of duplicates under a key, keeping the first occurrence.\<close>

fun dedup_by :: "('a \<Rightarrow> 'k) \<Rightarrow> 'k list \<Rightarrow> 'a list \<Rightarrow> 'a list" where
  "dedup_by f seen [] = []"
| "dedup_by f seen (x # xs) =
     (if f x \<in> set seen then dedup_by f seen xs else x # dedup_by f (f x # seen) xs)"

lemma set_dedup_by_subset: "set (dedup_by f seen xs) \<subseteq> set xs"
  by (induction xs arbitrary: seen) auto

lemma keys_dedup_by: "f ` set (dedup_by f seen xs) = f ` set xs - set seen"
  by (induction xs arbitrary: seen) auto

lemma distinct_dedup_by: "distinct (map f (dedup_by f seen xs))"
proof (induction xs arbitrary: seen)
  case Nil
  then show ?case by simp
next
  case (Cons x xs)
  have "f x \<notin> set (map f (dedup_by f (f x # seen) xs))"
    using keys_dedup_by [of f "f x # seen" xs] by simp
  with Cons show ?case by simp
qed

lemma dedup_by_empty_iff: "dedup_by f [] xs = [] \<longleftrightarrow> xs = []"
  using keys_dedup_by [of f "[]" xs] by (metis diff_zero empty_set image_is_empty set_empty Diff_empty)

lemma map_option_bind_Some: "Option.bind x f = Some y \<longleftrightarrow> (\<exists>z. x = Some z \<and> f z = Some y)"
  by (cases x) auto

lemma find_Some_in: "find P xs = Some x \<Longrightarrow> x \<in> set xs \<and> P x"
  by (induction xs) (auto split: if_splits)

lemma find_append:
  "find P (xs @ ys) = (case find P xs of None \<Rightarrow> find P ys | Some x \<Rightarrow> Some x)"
  by (induction xs) auto

lemma find_None_iff_none: "find P xs = None \<longleftrightarrow> (\<forall>x \<in> set xs. \<not> P x)"
  by (induction xs) auto

end
