(* ===== verification/Witness.thy ===== *)
theory Witness
  imports Prelude
begin

section \<open>Structured witnesses (workcell/witness.py)\<close>

text \<open>
  The record of what a command observed, the validation that returns every reason a witness may
  not be used, and the split of a list of witnesses into usable ones and rejections. Times,
  durations and free texts are left out; a rejection keeps its problem and the witness.
\<close>

datatype witness_kind = TEST_SUITE | LAUNCH_HTTP | BEHAVIOURAL | STATIC

datatype evidence_class = INDEPENDENT | MODEL_AUTHORED | INHERITED

record http_exchange =
  hx_method :: string
  hx_route :: string
  hx_status :: int
  hx_assertions :: "string list"
  hx_mutating :: bool

record process_observation =
  po_command :: "string list"
  po_readiness :: string
  po_address :: string
  po_exit :: "int option"
  po_cleaned_up :: bool

record coverage_observation =
  co_executed_paths :: "path list"
  co_executed_lines :: "(path \<times> int list) list"
  co_imported :: "string list"
  co_symbols :: "string list"
  co_method :: "string option"
  co_source :: "digest option"

record structured_witness =
  sw_schema :: string
  sw_id :: string
  sw_kind :: witness_kind
  sw_class :: evidence_class
  sw_command :: string
  sw_commit :: "string option"
  sw_fingerprint :: digest
  sw_passed :: bool
  sw_process :: "process_observation option"
  sw_exchanges :: "http_exchange list"
  sw_coverage :: "coverage_observation option"
  sw_criteria :: "string list"
  sw_artifacts :: "(string \<times> digest) list"

definition witness_schema_version :: string where
  "witness_schema_version = ''1.0''"

subsection \<open>What a witness reached\<close>

definition covers :: "coverage_observation \<Rightarrow> path \<Rightarrow> int \<Rightarrow> int \<Rightarrow> bool" where
  "covers c p start_line end_line =
     (let executed = (case map_of (co_executed_lines c) p of None \<Rightarrow> [] | Some ls \<Rightarrow> ls) in
      if executed \<noteq> [] then list_ex (\<lambda>l. start_line \<le> l \<and> l \<le> end_line) executed
      else p \<in> set (co_executed_paths c))"

text \<open>The model validator: what pydantic refuses to build.\<close>

definition witness_shape :: "structured_witness \<Rightarrow> bool" where
  "witness_shape w = (sw_kind w = LAUNCH_HTTP \<longrightarrow> sw_process w \<noteq> None \<and> sw_exchanges w \<noteq> [])"

definition exercised_paths :: "structured_witness \<Rightarrow> path list" where
  "exercised_paths w = (case sw_coverage w of None \<Rightarrow> [] | Some c \<Rightarrow> co_executed_paths c)"

definition exercised_symbols :: "structured_witness \<Rightarrow> string list" where
  "exercised_symbols w = (case sw_coverage w of None \<Rightarrow> [] | Some c \<Rightarrow> co_symbols c @ co_imported c)"

definition exercised_routes :: "structured_witness \<Rightarrow> string list" where
  "exercised_routes w = map hx_route (sw_exchanges w)"

definition mutations :: "structured_witness \<Rightarrow> http_exchange list" where
  "mutations w = filter hx_mutating (sw_exchanges w)"

subsection \<open>Validation\<close>

datatype witness_problem =
    SCHEMA_VERSION_UNKNOWN | STALE_FINGERPRINT | COMMAND_NAME_ONLY | NO_COVERAGE_METHOD
  | LAUNCH_WITHOUT_READINESS | LAUNCH_NOT_CLEANED_UP | MUTATION_NEVER_RE_READ
  | CLAIMS_WITHOUT_EVIDENCE | FAILED_WITNESS_CLAIMS_PROOF

record witness_rejection =
  wr_problem :: witness_problem
  wr_witness :: string

definition has_substance :: "structured_witness \<Rightarrow> bool" where
  "has_substance w =
     (sw_exchanges w \<noteq> [] \<or> (case sw_coverage w of None \<Rightarrow> False | Some c \<Rightarrow> co_executed_paths c \<noteq> [])
      \<or> sw_process w \<noteq> None \<or> sw_artifacts w \<noteq> [])"

definition re_read :: "structured_witness \<Rightarrow> http_exchange \<Rightarrow> bool" where
  "re_read w m = list_ex (\<lambda>x. hx_route x = hx_route m \<and> \<not> hx_mutating x) (sw_exchanges w)"

definition process_problems :: "process_observation option \<Rightarrow> witness_problem list" where
  "process_problems p =
     (case p of None \<Rightarrow> []
      | Some q \<Rightarrow> (if strip (po_readiness q) = [] then [LAUNCH_WITHOUT_READINESS] else [])
          @ (if po_cleaned_up q then [] else [LAUNCH_NOT_CLEANED_UP]))"

definition witness_problems :: "structured_witness \<Rightarrow> digest option \<Rightarrow> witness_problem list" where
  "witness_problems w current =
     (if sw_schema w \<noteq> witness_schema_version then [SCHEMA_VERSION_UNKNOWN] else [])
     @ (case current of None \<Rightarrow> []
        | Some f \<Rightarrow> if sw_fingerprint w \<noteq> f then [STALE_FINGERPRINT] else [])
     @ (if \<not> sw_passed w \<and> sw_criteria w \<noteq> [] then [FAILED_WITNESS_CLAIMS_PROOF] else [])
     @ (if \<not> has_substance w \<and> sw_kind w \<noteq> STATIC then [COMMAND_NAME_ONLY] else [])
     @ (case sw_coverage w of None \<Rightarrow> []
        | Some c \<Rightarrow> if co_method c = None \<or> co_method c = Some [] then [NO_COVERAGE_METHOD] else [])
     @ process_problems (sw_process w)
     @ map (\<lambda>_. MUTATION_NEVER_RE_READ) (filter (\<lambda>m. \<not> re_read w m) (mutations w))
     @ (if sw_criteria w \<noteq> [] \<and> \<not> has_substance w then [CLAIMS_WITHOUT_EVIDENCE] else [])"

definition validate_witness :: "structured_witness \<Rightarrow> digest option \<Rightarrow> witness_rejection list" where
  "validate_witness w current =
     map (\<lambda>p. \<lparr>wr_problem = p, wr_witness = sw_id w\<rparr>) (witness_problems w current)"

text \<open>\<open>require_witness\<close>: \<open>None\<close> for \<open>WitnessRefused\<close>.\<close>

definition require_witness :: "structured_witness \<Rightarrow> digest option \<Rightarrow> structured_witness option" where
  "require_witness w current = (if validate_witness w current \<noteq> [] then None else Some w)"

fun usable_witnesses ::
  "structured_witness list \<Rightarrow> digest option \<Rightarrow> structured_witness list \<times> witness_rejection list" where
  "usable_witnesses [] current = ([], [])"
| "usable_witnesses (w # ws) current =
     (let problems = validate_witness w current; (usable, rejected) = usable_witnesses ws current in
      if problems \<noteq> [] then (usable, problems @ rejected) else (w # usable, rejected))"

lemma usable_filter:
  "fst (usable_witnesses ws current) = filter (\<lambda>w. witness_problems w current = []) ws"
  by (induction ws) (auto simp: validate_witness_def Let_def split_beta)

lemma rejected_concat:
  "snd (usable_witnesses ws current) = concat (map (\<lambda>w. validate_witness w current) ws)"
  by (induction ws) (auto simp: Let_def split_beta)

lemma usable_fresh:
  "w \<in> set (fst (usable_witnesses ws (Some f))) \<Longrightarrow> sw_fingerprint w = f \<and> w \<in> set ws"
  by (auto simp: usable_filter witness_problems_def split: if_splits)

lemma witness_problems_empty:
  "witness_problems w current = [] \<longleftrightarrow>
     sw_schema w = witness_schema_version
     \<and> (\<forall>f. current = Some f \<longrightarrow> sw_fingerprint w = f)
     \<and> (sw_criteria w \<noteq> [] \<longrightarrow> sw_passed w \<and> has_substance w)
     \<and> (has_substance w \<or> sw_kind w = STATIC)
     \<and> (\<forall>c. sw_coverage w = Some c \<longrightarrow> (\<exists>m. co_method c = Some m \<and> m \<noteq> []))
     \<and> (\<forall>p. sw_process w = Some p \<longrightarrow> strip (po_readiness p) \<noteq> [] \<and> po_cleaned_up p)
     \<and> (\<forall>m \<in> set (sw_exchanges w). hx_mutating m \<longrightarrow>
          (\<exists>x \<in> set (sw_exchanges w). hx_route x = hx_route m \<and> \<not> hx_mutating x))"
  by (auto simp: witness_problems_def process_problems_def mutations_def re_read_def list_ex_iff
      filter_empty_conv split: option.splits)

text \<open>
  Validation is exact and order-preserving. The usable witnesses are, in their order, those
  that name the current worktree, carry substance unless static, measured rather than asserted
  coverage, ran a process that was ready and cleaned up, read back every mutated route and claim
  criteria only when they passed; every other witness is named by a rejection.
\<close>

theorem usable_witnesses_exact:
  "fst (usable_witnesses ws current) = filter (\<lambda>w.
     sw_schema w = witness_schema_version
     \<and> (\<forall>f. current = Some f \<longrightarrow> sw_fingerprint w = f)
     \<and> (sw_criteria w \<noteq> [] \<longrightarrow> sw_passed w \<and> has_substance w)
     \<and> (has_substance w \<or> sw_kind w = STATIC)
     \<and> (\<forall>c. sw_coverage w = Some c \<longrightarrow> (\<exists>m. co_method c = Some m \<and> m \<noteq> []))
     \<and> (\<forall>p. sw_process w = Some p \<longrightarrow> strip (po_readiness p) \<noteq> [] \<and> po_cleaned_up p)
     \<and> (\<forall>m \<in> set (sw_exchanges w). hx_mutating m \<longrightarrow>
          (\<exists>x \<in> set (sw_exchanges w). hx_route x = hx_route m \<and> \<not> hx_mutating x))) ws
   \<and> wr_witness ` set (snd (usable_witnesses ws current))
       = sw_id ` {w \<in> set ws. w \<notin> set (fst (usable_witnesses ws current))}"
proof (intro conjI)
  show "wr_witness ` set (snd (usable_witnesses ws current))
       = sw_id ` {w \<in> set ws. w \<notin> set (fst (usable_witnesses ws current))}"
  proof -
    have "wr_witness ` set (validate_witness w current) = (if witness_problems w current = [] then {} else {sw_id w})" for w
      by (auto simp: validate_witness_def image_image image_constant_conv)
    then show ?thesis
      unfolding rejected_concat usable_filter by (auto simp: image_UN split: if_splits)
  qed
qed (simp only: usable_filter witness_problems_empty)

definition launch_witness :: structured_witness where
  "launch_witness = \<lparr>sw_schema = ''1.0'', sw_id = ''w'', sw_kind = LAUNCH_HTTP, sw_class = INDEPENDENT,
     sw_command = ''serve'', sw_commit = None, sw_fingerprint = ''f'', sw_passed = True,
     sw_process = Some \<lparr>po_command = [''serve''], po_readiness = ''port open'', po_address = '':80'',
       po_exit = Some 0, po_cleaned_up = True\<rparr>,
     sw_exchanges = [\<lparr>hx_method = ''POST'', hx_route = ''/a'', hx_status = 201, hx_assertions = [],
         hx_mutating = True\<rparr>,
       \<lparr>hx_method = ''GET'', hx_route = ''/a'', hx_status = 200, hx_assertions = [], hx_mutating = False\<rparr>],
     sw_coverage = None, sw_criteria = [''C''], sw_artifacts = []\<rparr>"

theorem usable_witnesses_exact_witness:
  "fst (usable_witnesses [launch_witness, launch_witness\<lparr>sw_fingerprint := ''g''\<rparr>] (Some ''f'')) = [launch_witness]"
proof -
  have "strip ''port open'' \<noteq> []" by code_simp
  then show ?thesis
    using conjunct1 [OF usable_witnesses_exact [of "[launch_witness, launch_witness\<lparr>sw_fingerprint := ''g''\<rparr>]" "Some ''f''"]]
    by (simp add: launch_witness_def has_substance_def witness_schema_version_def)
qed

end
