(* ===== verification/Delta.thy ===== *)
theory Delta
  imports Prelude
begin

section \<open>The candidate delta (workcell/delta.py)\<close>

text \<open>
  Two directory trees are walked and compared file by file. A tree is the list of its named
  entries; an entry is a regular file with its bytes, a directory, a symbolic link to a file or
  to a directory (with what it points to), or another special file. SHA-256 is the argument
  \<open>H\<close> of the definitions that hash. The walk visits a directory's entries in listing order;
  the code sorts names first, which no result depends on, because files go into a dictionary and
  the other two lists are sorted sets.
\<close>

subsection \<open>Classification of paths\<close>

datatype change_kind = ADDED | MODIFIED | DELETED

datatype path_class = PRODUCTION | TEST | DEPENDENCY | GENERATED | DOCUMENTATION | FORBIDDEN

definition excluded_metadata_names :: "string list" where
  "excluded_metadata_names = [''.git'', ''__pycache__'', ''.pytest_cache'', ''node_modules'']"

definition test_markers :: "string list" where
  "test_markers = [''tests/'', ''test/'', ''spec/'']"

definition test_filename_markers :: "string list" where
  "test_filename_markers = [''test_'', ''_test.'', ''.test.'', ''.spec.'']"

definition dependency_filenames :: "string list" where
  "dependency_filenames =
     [''requirements.txt'', ''requirements-dev.txt'', ''pyproject.toml'', ''setup.py'',
      ''setup.cfg'', ''poetry.lock'', ''package.json'', ''package-lock.json'',
      ''yarn.lock'', ''pnpm-lock.yaml'', ''Pipfile'', ''Pipfile.lock'', ''go.mod'',
      ''go.sum'', ''Cargo.toml'', ''Cargo.lock'', ''Gemfile'', ''Gemfile.lock'']"

definition generated_markers :: "string list" where
  "generated_markers =
     [''dist/'', ''build/'', ''.venv/'', ''venv/'', ''coverage/'', ''.mypy_cache/'',
      ''site-packages/'', ''.tox/'']"

definition generated_suffixes :: "string list" where
  "generated_suffixes =
     [''.pyc'', ''.pyo'', ''.so'', ''.o'', ''.class'', ''.log'', ''.sqlite'', ''.db'']"

definition documentation_suffixes :: "string list" where
  "documentation_suffixes = [''.md'', ''.rst'', ''.txt'', ''.adoc'']"

definition forbidden_markers :: "string list" where
  "forbidden_markers = [''.git/'', ''.apoapsis/'', ''.sol/'', ''.ssh/'', ''.aws/'', ''task/'']"

definition forbidden_filenames :: "string list" where
  "forbidden_filenames = [''.env'', ''.netrc'', ''.npmrc'', ''id_rsa'', ''id_ed25519'', ''credentials'']"

definition forbidden_suffixes :: "string list" where
  "forbidden_suffixes = [''.pem'', ''.key'', ''.p12'', ''.pfx'']"

definition remove_prefix :: "string \<Rightarrow> string \<Rightarrow> string" where
  "remove_prefix p s = (if starts_with s p then drop (length p) s else s)"

definition base_name :: "path \<Rightarrow> string" where
  "base_name p = last (split_on (CHR ''/'') p)"

definition classify_path :: "path \<Rightarrow> path_class" where
  "classify_path relative_path =
     (let p = remove_prefix ''./'' (replace_char backslash (CHR ''/'') relative_path);
          lowered = lower p;
          name = base_name p in
      if list_ex (contains (lowered @ ''/'')) forbidden_markers
         \<or> name \<in> set forbidden_filenames
         \<or> starts_with lowered ''.env'' \<or> contains lowered ''/.env''
         \<or> ends_with_any lowered forbidden_suffixes then FORBIDDEN
      else if list_ex (contains (lowered @ ''/'')) generated_markers
         \<or> ends_with_any lowered generated_suffixes then GENERATED
      else if name \<in> set dependency_filenames then DEPENDENCY
      else if list_ex (contains (lowered @ ''/'')) test_markers
         \<or> list_ex (contains (lower name)) test_filename_markers then TEST
      else if ends_with_any lowered documentation_suffixes then DOCUMENTATION
      else PRODUCTION)"

subsection \<open>Trees and the walk\<close>

datatype node =
    Reg string
  | Dir "(string \<times> node) list"
  | LinkFile string
  | LinkDir "(string \<times> node) list"
  | Special

type_synonym tree = "(string \<times> node) list"
type_synonym files = "(path \<times> string) list"

record walk_result =
  w_files :: files
  w_skipped :: "path list"
  w_excluded :: "path list"

definition no_walk :: walk_result where
  "no_walk = \<lparr>w_files = [], w_skipped = [], w_excluded = []\<rparr>"

definition join_walk :: "walk_result \<Rightarrow> walk_result \<Rightarrow> walk_result" where
  "join_walk a b = \<lparr>w_files = w_files a @ w_files b, w_skipped = w_skipped a @ w_skipped b,
                    w_excluded = w_excluded a @ w_excluded b\<rparr>"

text \<open>
  \<open>os.walk\<close> without following links lists a link to a directory among the directories and does
  not enter it; a link to a file, a dangling link and a special file are among the names.
\<close>

fun walk_tree :: "path \<Rightarrow> tree \<Rightarrow> walk_result" and walk_node :: "path \<Rightarrow> string \<Rightarrow> node \<Rightarrow> walk_result" where
  "walk_tree pre [] = no_walk"
| "walk_tree pre ((n, x) # rest) = join_walk (walk_node pre n x) (walk_tree pre rest)"
| "walk_node pre n (Reg c) =
     (if n \<in> set excluded_metadata_names then no_walk\<lparr>w_excluded := [pre @ n]\<rparr>
      else no_walk\<lparr>w_files := [(pre @ n, c)]\<rparr>)"
| "walk_node pre n (Dir es) =
     (if n \<in> set excluded_metadata_names then no_walk\<lparr>w_excluded := [pre @ n]\<rparr>
      else walk_tree (pre @ n @ ''/'') es)"
| "walk_node pre n (LinkDir es) =
     (if n \<in> set excluded_metadata_names then no_walk\<lparr>w_excluded := [pre @ n]\<rparr> else no_walk)"
| "walk_node pre n (LinkFile c) =
     (if n \<in> set excluded_metadata_names then no_walk\<lparr>w_excluded := [pre @ n]\<rparr>
      else no_walk\<lparr>w_skipped := [pre @ n]\<rparr>)"
| "walk_node pre n Special =
     (if n \<in> set excluded_metadata_names then no_walk\<lparr>w_excluded := [pre @ n]\<rparr>
      else no_walk\<lparr>w_skipped := [pre @ n]\<rparr>)"

definition walk :: "tree \<Rightarrow> walk_result" where
  "walk t = walk_tree [] t"

definition sorted_set :: "string list \<Rightarrow> string list" where
  "sorted_set xs = sort (remdups xs)"

subsection \<open>Digests and line counts\<close>

definition is_binary :: "string \<Rightarrow> bool" where
  "is_binary payload = (char_of (0::nat) \<in> set (take 8192 payload))"

text \<open>The same scan with a binary counter, for evaluation.\<close>

fun nul_within :: "int \<Rightarrow> string \<Rightarrow> bool" where
  "nul_within n [] = False"
| "nul_within n (c # s) = (n > 0 \<and> (c = char_of (0::nat) \<or> nul_within (n - 1) s))"

lemma nul_within_take: "nul_within (int n) s \<longleftrightarrow> char_of (0::nat) \<in> set (take n s)"
proof (induction s arbitrary: n)
  case Nil
  then show ?case by simp
next
  case (Cons c s)
  then show ?case by (cases n) auto
qed

lemma is_binary_code [code]: "is_binary payload = nul_within 8192 payload"
  using nul_within_take [of 8192 payload] by (simp add: is_binary_def)

definition counter_minus :: "string list \<Rightarrow> string list \<Rightarrow> nat" where
  "counter_minus xs ys = sum_list (map (\<lambda>l. count_list xs l - count_list ys l) (remdups xs))"

definition line_delta :: "string option \<Rightarrow> string option \<Rightarrow> nat \<times> nat" where
  "line_delta base candidate =
     (let before = (case base of None \<Rightarrow> [] | Some c \<Rightarrow> splitlines c);
          after = (case candidate of None \<Rightarrow> [] | Some c \<Rightarrow> splitlines c)
      in (counter_minus after before, counter_minus before after))"

definition fingerprint_text :: "(string \<Rightarrow> digest) \<Rightarrow> files \<Rightarrow> string" where
  "fingerprint_text H fs =
     concat (map (\<lambda>p. p @ [char_of (0::nat)] @ (case map_of fs p of None \<Rightarrow> [] | Some c \<Rightarrow> H c) @ [newline])
       (sorted_set (map fst fs)))"

definition tree_fingerprint :: "(string \<Rightarrow> digest) \<Rightarrow> tree \<Rightarrow> digest" where
  "tree_fingerprint H t = H (fingerprint_text H (w_files (walk t)))"

subsection \<open>The delta\<close>

record delta_entry =
  de_path :: path
  de_kind :: change_kind
  de_class :: path_class
  de_base :: "digest option"
  de_candidate :: "digest option"
  de_added :: nat
  de_removed :: nat
  de_binary :: bool
  de_size :: nat

record candidate_delta =
  cd_base_commit :: "string option"
  cd_fingerprint :: digest
  cd_entries :: "delta_entry list"
  cd_skipped :: "path list"
  cd_excluded :: "path list"

definition entry_changed_lines :: "delta_entry \<Rightarrow> nat" where
  "entry_changed_lines e = de_added e + de_removed e"

definition delta_changed_lines :: "candidate_delta \<Rightarrow> nat" where
  "delta_changed_lines d = sum_list (map entry_changed_lines (cd_entries d))"

definition delta_paths :: "candidate_delta \<Rightarrow> path list" where
  "delta_paths d = map de_path (cd_entries d)"

definition delta_is_empty :: "candidate_delta \<Rightarrow> bool" where
  "delta_is_empty d = (cd_entries d = [])"

definition delta_entry_for ::
  "(string \<Rightarrow> digest) \<Rightarrow> (path \<rightharpoonup> string) \<Rightarrow> (path \<rightharpoonup> string) \<Rightarrow> path \<Rightarrow> delta_entry option" where
  "delta_entry_for H bf cf p =
     (let b = bf p; c = cf p in
      if b \<noteq> None \<and> c \<noteq> None \<and> map_option H b = map_option H c then None
      else
        (let kind = (if b = None then ADDED else if c = None then DELETED else MODIFIED);
             payload = (\<lambda>x. case x of None \<Rightarrow> [] | Some s \<Rightarrow> s);
             binary = (is_binary (payload b) \<or> is_binary (payload c));
             lines = (if binary then (0, 0) else line_delta b c)
         in Some \<lparr>de_path = p, de_kind = kind, de_class = classify_path p,
              de_base = map_option H b, de_candidate = map_option H c,
              de_added = fst lines, de_removed = snd lines, de_binary = binary,
              de_size = length (payload c)\<rparr>))"

definition compute_delta ::
  "(string \<Rightarrow> digest) \<Rightarrow> string option \<Rightarrow> tree \<Rightarrow> tree \<Rightarrow> candidate_delta" where
  "compute_delta H commit base candidate =
     (let b = walk base; c = walk candidate;
          bf = map_of (w_files b); cf = map_of (w_files c)
      in \<lparr>cd_base_commit = commit,
          cd_fingerprint = tree_fingerprint H candidate,
          cd_entries = List.map_filter (delta_entry_for H bf cf)
            (sorted_set (map fst (w_files b) @ map fst (w_files c))),
          cd_skipped = sorted_set (w_skipped b @ w_skipped c),
          cd_excluded = sorted_set (w_excluded b @ w_excluded c)\<rparr>)"

end
