(* ===== verification/Behaviour.thy ===== *)
theory Behaviour
  imports Delta "HOL-Library.AList"
begin

section \<open>Changed behaviour (workcell/behaviour.py)\<close>

text \<open>
  The additions of a candidate that some evidence must reach: new production files, new
  top-level symbols and methods of modified Python files, and new route literals. Python's
  \<open>ast.parse\<close> is the argument \<open>parse\<close>: it yields the top-level statements as far as the code
  looks at them, or \<open>None\<close> for a syntax error. The two regular expressions of the route
  heuristic are written out as scanners.
\<close>

datatype behaviour_kind = NEW_FILE | NEW_SYMBOL | NEW_ROUTE

record behaviour_unit =
  bu_kind :: behaviour_kind
  bu_path :: path
  bu_name :: string
  bu_start :: int
  bu_end :: int
  bu_heuristic :: bool

definition unit_id :: "behaviour_unit \<Rightarrow> string" where
  "unit_id u = bu_path u @ ''::'' @ bu_name u"

subsection \<open>Symbols\<close>

text \<open>
  A statement at the top level of a module or in a class body: a function (plain or
  asynchronous), a class with its body, a string-constant expression, or anything else.
\<close>

datatype py_stmt =
    PyFunction string int int
  | PyClass string int int "py_stmt list"
  | PyString
  | PyOther

type_synonym py_parser = "string \<Rightarrow> py_stmt list option"
type_synonym symbols = "(string \<times> (int \<times> int)) list"

definition add_member :: "string \<Rightarrow> py_stmt \<Rightarrow> symbols \<Rightarrow> symbols" where
  "add_member cls child syms =
     (case child of PyFunction n a b \<Rightarrow> AList.update (cls @ ''.'' @ n) (a, b) syms | _ \<Rightarrow> syms)"

definition add_statement :: "py_stmt \<Rightarrow> symbols \<Rightarrow> symbols" where
  "add_statement s syms =
     (case s of
        PyFunction n a b \<Rightarrow> AList.update n (a, b) syms
      | PyClass n a b body \<Rightarrow> fold (add_member n) body (AList.update n (a, b) syms)
      | _ \<Rightarrow> syms)"

definition python_symbols :: "py_parser \<Rightarrow> string \<Rightarrow> symbols" where
  "python_symbols parse source =
     (case parse source of None \<Rightarrow> [] | Some body \<Rightarrow> fold add_statement body [])"

definition has_executable_python :: "py_parser \<Rightarrow> string \<Rightarrow> bool" where
  "has_executable_python parse source =
     (case parse source of
        None \<Rightarrow> True
      | Some body \<Rightarrow> (case body of PyString # rest \<Rightarrow> rest | _ \<Rightarrow> body) \<noteq> [])"

subsection \<open>Routes\<close>

definition is_word_char :: "char \<Rightarrow> bool" where
  "is_word_char c = (let n = (of_char c :: nat) in
     (48 \<le> n \<and> n \<le> 57) \<or> (65 \<le> n \<and> n \<le> 90) \<or> n = 95 \<or> (97 \<le> n \<and> n \<le> 122)
     \<or> n \<in> set [170, 178, 179, 181, 185, 186, 188, 189, 190]
     \<or> (192 \<le> n \<and> n \<le> 255 \<and> n \<noteq> 215 \<and> n \<noteq> 247))"

definition route_keywords :: "string list" where
  "route_keywords = [''route'', ''get'', ''post'', ''put'', ''patch'', ''delete'', ''add_url_rule'',
     ''path'', ''endpoint'', ''urlpatterns'']"

definition keyword_here :: "string \<Rightarrow> string \<Rightarrow> bool" where
  "keyword_here s k = (starts_with s k \<and>
     (case drop (length k) s of [] \<Rightarrow> True | c # _ \<Rightarrow> \<not> is_word_char c))"

text \<open>\<open>_ROUTE_CONTEXT.search\<close>: a keyword between word boundaries, in any case of letters.\<close>

fun context_from :: "bool \<Rightarrow> string \<Rightarrow> bool" where
  "context_from after_word [] = False"
| "context_from after_word (c # s) =
     ((\<not> after_word \<and> list_ex (keyword_here (c # s)) route_keywords) \<or> context_from (is_word_char c) s)"

definition route_context :: "string \<Rightarrow> bool" where
  "route_context line = context_from False (lower line)"

definition is_quote :: "char \<Rightarrow> bool" where
  "is_quote c = (of_char c = (34::nat) \<or> of_char c = (39::nat))"

definition is_route_char :: "char \<Rightarrow> bool" where
  "is_route_char c = (let n = (of_char c :: nat) in
     (48 \<le> n \<and> n \<le> 57) \<or> (65 \<le> n \<and> n \<le> 90) \<or> (97 \<le> n \<and> n \<le> 122) \<or> c \<in> set ''_-./{}<>:'')"

text \<open>
  \<open>_ROUTE_PATTERN\<close> at the front of a text: the group and the text after the closing quote. The
  class excludes both quotes, so its greedy run is the only one that can match.
\<close>

definition route_here :: "string \<Rightarrow> (string \<times> string) option" where
  "route_here s =
     (case s of
        q # sl # rest \<Rightarrow>
          if is_quote q \<and> sl = CHR ''/'' then
            (case dropWhile is_route_char rest of
               [] \<Rightarrow> None
             | e # rest' \<Rightarrow> if is_quote e then Some (sl # takeWhile is_route_char rest, rest') else None)
          else None
      | _ \<Rightarrow> None)"

lemma route_here_shorter: "route_here s = Some (g, r) \<Longrightarrow> length r < length s"
proof -
  assume "route_here s = Some (g, r)"
  then obtain q sl rest e where s: "s = q # sl # rest" "dropWhile is_route_char rest = e # r"
    by (auto simp: route_here_def split: list.splits if_splits)
  then have "length (e # r) \<le> length rest" by (metis length_dropWhile_le)
  with s show ?thesis by simp
qed

text \<open>\<open>finditer\<close>: leftmost, non-overlapping matches.\<close>

function find_routes :: "string \<Rightarrow> string list" where
  "find_routes s =
     (case route_here s of
        Some (g, rest) \<Rightarrow> g # find_routes rest
      | None \<Rightarrow> (case s of [] \<Rightarrow> [] | _ # s' \<Rightarrow> find_routes s'))"
  by pat_completeness auto
termination
  by (relation "measure length") (auto dest: route_here_shorter)

declare find_routes.simps [simp del]

definition set_default :: "'v \<Rightarrow> string \<Rightarrow> (string \<times> 'v) list \<Rightarrow> (string \<times> 'v) list" where
  "set_default v k kvs = (if map_of kvs k = None then kvs @ [(k, v)] else kvs)"

fun routes_from :: "int \<Rightarrow> string list \<Rightarrow> (string \<times> int) list \<Rightarrow> (string \<times> int) list" where
  "routes_from number [] found = found"
| "routes_from number (line # rest) found =
     routes_from (number + 1) rest
       (if route_context line then fold (set_default number) (find_routes line) found else found)"

definition routes :: "string \<Rightarrow> (string \<times> int) list" where
  "routes source = routes_from 1 (splitlines source) []"

subsection \<open>The units of a delta\<close>

definition new_file_unit :: "path \<Rightarrow> string \<Rightarrow> behaviour_unit" where
  "new_file_unit p source = \<lparr>bu_kind = NEW_FILE, bu_path = p, bu_name = p, bu_start = 1,
     bu_end = max 1 (int (length (splitlines source))), bu_heuristic = False\<rparr>"

definition symbol_units :: "py_parser \<Rightarrow> path \<Rightarrow> string \<Rightarrow> string \<Rightarrow> behaviour_unit list" where
  "symbol_units parse p base candidate =
     (if ends_with p ''.py'' then
        map (\<lambda>(n, (a, b)). \<lparr>bu_kind = NEW_SYMBOL, bu_path = p, bu_name = n, bu_start = a, bu_end = b,
                            bu_heuristic = False\<rparr>)
          (filter (\<lambda>(n, _). map_of (python_symbols parse base) n = None)
            (sort_key fst (python_symbols parse candidate)))
      else [])"

definition route_units :: "path \<Rightarrow> string \<Rightarrow> string \<Rightarrow> behaviour_unit list" where
  "route_units p base candidate =
     map (\<lambda>(r, l). \<lparr>bu_kind = NEW_ROUTE, bu_path = p, bu_name = r, bu_start = l, bu_end = l,
                    bu_heuristic = True\<rparr>)
       (filter (\<lambda>(r, _). map_of (routes base) r = None) (sort_key fst (routes candidate)))"

definition entry_units ::
  "py_parser \<Rightarrow> (path \<Rightarrow> string option) \<Rightarrow> (path \<Rightarrow> string option) \<Rightarrow> delta_entry \<Rightarrow> behaviour_unit list" where
  "entry_units parse read_base read_candidate e =
     (if de_class e \<noteq> PRODUCTION \<or> de_binary e then []
      else if de_kind e = DELETED then []
      else (case read_candidate (de_path e) of
          None \<Rightarrow> []
        | Some source \<Rightarrow>
            if de_kind e = ADDED then
              (if ends_with (de_path e) ''.py'' \<and> \<not> has_executable_python parse source then []
               else [new_file_unit (de_path e) source])
            else
              (let base = (case read_base (de_path e) of None \<Rightarrow> [] | Some b \<Rightarrow> b) in
               symbol_units parse (de_path e) base source @ route_units (de_path e) base source)))"

definition changed_behaviour ::
  "py_parser \<Rightarrow> candidate_delta \<Rightarrow> (path \<Rightarrow> string option) \<Rightarrow> (path \<Rightarrow> string option) \<Rightarrow> behaviour_unit list" where
  "changed_behaviour parse d read_base read_candidate =
     concat (map (entry_units parse read_base read_candidate) (cd_entries d))"

subsection \<open>Facts\<close>

lemma map_of_set_default:
  "map_of (set_default v k kvs) j = (if map_of kvs k = None \<and> j = k then Some v else map_of kvs j)"
  by (auto simp: set_default_def map_add_def split: option.split)

lemma map_of_fold_default:
  "map_of (fold (set_default v) ks kvs) j =
     (case map_of kvs j of Some x \<Rightarrow> Some x | None \<Rightarrow> if j \<in> set ks then Some v else None)"
  by (induction ks arbitrary: kvs) (auto simp: map_of_set_default split: option.splits)

definition line_routes :: "string \<Rightarrow> string list" where
  "line_routes line = (if route_context line then find_routes line else [])"

lemma routes_from_map:
  "map_of (routes_from n ls found) j =
     (case map_of found j of Some x \<Rightarrow> Some x
      | None \<Rightarrow> map_option (\<lambda>i. n + int i) (find (\<lambda>i. j \<in> set (line_routes (ls ! i))) [0..<length ls]))"
proof (induction n ls found rule: routes_from.induct)
  case (1 n found)
  then show ?case by (simp split: option.split)
next
  case (2 n l ls found)
  have shift: "find P [0..<length (l # ls)] =
      (if P 0 then Some 0 else map_option Suc (find (\<lambda>i. P (Suc i)) [0..<length ls]))" for P
  proof -
    have "find P (map Suc xs) = map_option Suc (find (\<lambda>i. P (Suc i)) xs)" for xs
      by (induction xs) auto
    then show ?thesis by (simp add: upt_conv_Cons map_Suc_upt [symmetric] del: upt_Suc)
  qed
  show ?case
    unfolding routes_from.simps 2 shift
    by (cases "map_of found j") (auto simp: map_of_fold_default line_routes_def option.map_comp
        comp_def add.assoc split: option.split)
qed

lemma distinct_routes_keys: "distinct (map fst kvs) \<Longrightarrow> distinct (map fst (fold (set_default v) ks kvs))"
proof (induction ks arbitrary: kvs)
  case Nil
  then show ?case by simp
next
  case (Cons k ks)
  have "distinct (map fst (set_default v k kvs))"
    using Cons.prems by (auto simp: set_default_def map_of_eq_None_iff)
  then show ?case by (simp add: Cons.IH)
qed

lemma find_upt_SomeD: "find P [0..<n] = Some i \<Longrightarrow> i < n \<and> P i \<and> (\<forall>j < i. \<not> P j)"
  by (fastforce simp: find_Some_iff)

lemma routes_first:
  "map_of (routes source) r = Some l \<longleftrightarrow>
     (\<exists>i. l = int i + 1 \<and> find (\<lambda>i. r \<in> set (line_routes (splitlines source ! i)))
           [0..<length (splitlines source)] = Some i)"
  by (auto simp: routes_def routes_from_map)

lemma routes_absent:
  "map_of (routes source) r = None \<longleftrightarrow> (\<forall>line \<in> set (splitlines source). r \<notin> set (line_routes line))"
proof -
  have "map_of (routes source) r = None \<longleftrightarrow>
      (\<forall>i < length (splitlines source). r \<notin> set (line_routes (splitlines source ! i)))"
    by (auto simp: routes_def routes_from_map find_None_iff_none)
  then show ?thesis by (simp only: all_set_conv_all_nth)
qed

text \<open>
  No addition to a modified production file goes unlisted. Every symbol of the candidate
  file that its base version lacks is a unit with the symbol's lines, and every route literal
  that no line of the base version holds is a unit at the first line that holds it.
\<close>

theorem every_addition_is_a_unit:
  assumes e: "e \<in> set (cd_entries d)" "de_class e = PRODUCTION" "\<not> de_binary e" "de_kind e = MODIFIED"
    and src: "read_candidate (de_path e) = Some source" and base: "read_base (de_path e) = Some old"
  shows "(\<forall>n a b. ends_with (de_path e) ''.py'' \<and> map_of (python_symbols parse source) n = Some (a, b)
             \<and> map_of (python_symbols parse old) n = None \<longrightarrow>
           \<lparr>bu_kind = NEW_SYMBOL, bu_path = de_path e, bu_name = n, bu_start = a, bu_end = b,
            bu_heuristic = False\<rparr> \<in> set (changed_behaviour parse d read_base read_candidate))
     \<and> (\<forall>line \<in> set (splitlines source). \<forall>r \<in> set (line_routes line).
           (\<forall>line' \<in> set (splitlines old). r \<notin> set (line_routes line')) \<longrightarrow>
           (\<exists>i < length (splitlines source). r \<in> set (line_routes (splitlines source ! i))
              \<and> (\<forall>j < i. r \<notin> set (line_routes (splitlines source ! j)))
              \<and> \<lparr>bu_kind = NEW_ROUTE, bu_path = de_path e, bu_name = r, bu_start = int i + 1,
                  bu_end = int i + 1, bu_heuristic = True\<rparr>
                \<in> set (changed_behaviour parse d read_base read_candidate)))"
proof (intro conjI allI ballI impI)
  let ?p = "de_path e"
  have units: "set (symbol_units parse ?p old source) \<union> set (route_units ?p old source)
      \<subseteq> set (changed_behaviour parse d read_base read_candidate)"
  proof -
    have "entry_units parse read_base read_candidate e = symbol_units parse ?p old source @ route_units ?p old source"
      using e src base by (simp add: entry_units_def)
    with e(1) show ?thesis by (force simp: changed_behaviour_def)
  qed
  {
    fix n a b
    assume n: "ends_with ?p ''.py'' \<and> map_of (python_symbols parse source) n = Some (a, b)
             \<and> map_of (python_symbols parse old) n = None"
    then have "(n, (a, b)) \<in> set (filter (\<lambda>(n, _). map_of (python_symbols parse old) n = None)
            (sort_key fst (python_symbols parse source)))"
      by (auto dest: map_of_SomeD)
    then have "\<lparr>bu_kind = NEW_SYMBOL, bu_path = ?p, bu_name = n, bu_start = a, bu_end = b,
            bu_heuristic = False\<rparr> \<in> set (symbol_units parse ?p old source)"
      using n by (force simp: symbol_units_def)
    with units show "\<lparr>bu_kind = NEW_SYMBOL, bu_path = ?p, bu_name = n, bu_start = a, bu_end = b,
            bu_heuristic = False\<rparr> \<in> set (changed_behaviour parse d read_base read_candidate)"
      by blast
  }
  fix line r
  assume r: "line \<in> set (splitlines source)" "r \<in> set (line_routes line)"
    and new: "\<forall>line' \<in> set (splitlines old). r \<notin> set (line_routes line')"
  from r routes_absent [of source r] obtain l where l: "map_of (routes source) r = Some l"
    by (cases "map_of (routes source) r") auto
  then obtain i where i: "l = int i + 1" "i < length (splitlines source)"
    "r \<in> set (line_routes (splitlines source ! i))" "\<forall>j < i. r \<notin> set (line_routes (splitlines source ! j))"
    unfolding routes_first by (blast dest: find_upt_SomeD)
  have "(r, l) \<in> set (filter (\<lambda>(r, _). map_of (routes old) r = None) (sort_key fst (routes source)))"
    using l new by (auto simp: routes_absent dest: map_of_SomeD)
  then have "\<lparr>bu_kind = NEW_ROUTE, bu_path = ?p, bu_name = r, bu_start = l, bu_end = l, bu_heuristic = True\<rparr>
      \<in> set (route_units ?p old source)"
    by (force simp: route_units_def)
  with units i show "\<exists>i < length (splitlines source). r \<in> set (line_routes (splitlines source ! i))
              \<and> (\<forall>j < i. r \<notin> set (line_routes (splitlines source ! j)))
              \<and> \<lparr>bu_kind = NEW_ROUTE, bu_path = ?p, bu_name = r, bu_start = int i + 1,
                  bu_end = int i + 1, bu_heuristic = True\<rparr>
                \<in> set (changed_behaviour parse d read_base read_candidate)"
    by blast
qed

definition sample_source :: string where
  "sample_source = ''r.get('' @ [CHR 0x22] @ ''/go'' @ [CHR 0x22] @ '')''"

definition sample_parser :: py_parser where
  "sample_parser s = Some (if s = sample_source then [PyFunction ''go'' 1 1] else [PyOther])"

definition sample_entry :: delta_entry where
  "sample_entry = \<lparr>de_path = ''a.py'', de_kind = MODIFIED, de_class = PRODUCTION, de_base = Some ''0'',
     de_candidate = Some ''1'', de_added = 1, de_removed = 1, de_binary = False, de_size = 12\<rparr>"

definition sample_unit_delta :: candidate_delta where
  "sample_unit_delta = \<lparr>cd_base_commit = None, cd_fingerprint = ''f'', cd_entries = [sample_entry],
     cd_skipped = [], cd_excluded = []\<rparr>"

theorem every_addition_is_a_unit_witness:
  "\<lparr>bu_kind = NEW_SYMBOL, bu_path = ''a.py'', bu_name = ''go'', bu_start = 1, bu_end = 1,
     bu_heuristic = False\<rparr>
     \<in> set (changed_behaviour sample_parser sample_unit_delta (\<lambda>p. Some ''x'') (\<lambda>p. Some sample_source))
   \<and> (\<exists>u \<in> set (changed_behaviour sample_parser sample_unit_delta (\<lambda>p. Some ''x'') (\<lambda>p. Some sample_source)).
        bu_kind u = NEW_ROUTE \<and> bu_name u = ''/go'')"
proof -
  have e: "sample_entry \<in> set (cd_entries sample_unit_delta)" "de_class sample_entry = PRODUCTION"
    "\<not> de_binary sample_entry" "de_kind sample_entry = MODIFIED" "de_path sample_entry = ''a.py''"
    by (simp_all add: sample_unit_delta_def sample_entry_def)
  have sym: "ends_with ''a.py'' ''.py''"
    "map_of (python_symbols sample_parser sample_source) ''go'' = Some (1, 1)"
    "map_of (python_symbols sample_parser ''x'') ''go'' = None"
    by code_simp+
  have route: "sample_source \<in> set (splitlines sample_source)" "''/go'' \<in> set (line_routes sample_source)"
    "\<forall>line' \<in> set (splitlines ''x''). ''/go'' \<notin> set (line_routes line')"
    by code_simp+
  note * = every_addition_is_a_unit [OF e(1-4), of "\<lambda>p. Some sample_source" _ "\<lambda>p. Some ''x''",
      OF refl refl, of sample_parser, unfolded e(5)]
  let ?us = "set (changed_behaviour sample_parser sample_unit_delta (\<lambda>p. Some ''x'') (\<lambda>p. Some sample_source))"
  have "\<lparr>bu_kind = NEW_SYMBOL, bu_path = ''a.py'', bu_name = ''go'', bu_start = 1, bu_end = 1,
     bu_heuristic = False\<rparr> \<in> ?us"
    using conjunct1 [OF *] sym by blast
  moreover obtain i where "\<lparr>bu_kind = NEW_ROUTE, bu_path = ''a.py'', bu_name = ''/go'', bu_start = int i + 1,
     bu_end = int i + 1, bu_heuristic = True\<rparr> \<in> ?us"
    using bspec [OF bspec [OF conjunct2 [OF *] route(1)] route(2)] route(3) by blast
  ultimately show ?thesis by (metis behaviour_unit.select_convs(1,3))
qed

end
