(* ===== verification/Readiness.thy ===== *)
theory Readiness
  imports Witness Behaviour
begin

section \<open>Slice readiness and the checkpoint verdict (workcell/acceptance.py)\<close>

text \<open>
  \<open>evaluate_slice_readiness\<close> decides from the contract, the delta and the witnesses whether a
  slice is done; \<open>evaluate_checkpoint\<close> turns admission and readiness into an outcome. Sets are
  lists used for membership only. Texts are left out: a finding keeps its block, path and
  obligation.
\<close>

datatype obligation_kind =
    PRODUCTION_ARTIFACT | INTERFACE | TEST_OR_WITNESS | INTEGRATION_EDGE | DOCUMENTATION_OBLIGATION
  | OPERABILITY | NEGATIVE_CONTROL

datatype obligation_status = PROVED | UNPROVED | INTENTIONALLY_UNMEASURED_STATUS

record acceptance_obligation =
  ao_id :: string
  ao_kind :: obligation_kind
  ao_required_paths :: "path list"
  ao_must_be_exercised :: "path list"
  ao_criteria :: "string list"
  ao_required_symbols :: "string list"
  ao_required_routes :: "string list"
  ao_independent :: bool
  ao_unmeasured_reason :: string

definition obligation_dischargeable :: "acceptance_obligation \<Rightarrow> bool" where
  "obligation_dischargeable ob =
     (ao_unmeasured_reason ob \<noteq> [] \<or> ao_required_paths ob \<noteq> [] \<or> ao_must_be_exercised ob \<noteq> []
      \<or> ao_criteria ob \<noteq> [] \<or> ao_required_symbols ob \<noteq> [] \<or> ao_required_routes ob \<noteq> [])"

record acceptance_contract =
  ac_slice :: string
  ac_plan :: "string option"
  ac_criteria :: "string list"
  ac_obligations :: "acceptance_obligation list"
  ac_commands :: "string list"

definition criteria_covered :: "acceptance_contract \<Rightarrow> bool" where
  "criteria_covered c =
     (set (ac_criteria c) \<subseteq> set (concat (map ao_criteria (ac_obligations c))))"

text \<open>What pydantic lets be built: non-empty lists and the two validators.\<close>

definition contract_valid :: "acceptance_contract \<Rightarrow> bool" where
  "contract_valid c =
     (ac_criteria c \<noteq> [] \<and> ac_obligations c \<noteq> [] \<and> list_all obligation_dischargeable (ac_obligations c)
      \<and> criteria_covered c)"

record obligation_result =
  or_id :: string
  or_kind :: obligation_kind
  or_status :: obligation_status
  or_supporting :: "string list"

datatype readiness_block =
    OBLIGATION_UNPROVED | INTENTIONALLY_UNMEASURED | CHANGED_BEHAVIOUR_UNEXERCISED
  | MISSING_REQUIRED_ARTIFACT | REQUIRED_COMMAND_NOT_PASSED | NO_USABLE_WITNESS

record readiness_finding =
  rf_block :: readiness_block
  rf_path :: "path option"
  rf_obligation :: "string option"

record readiness_report =
  rr_slice :: string
  rr_ready :: bool
  rr_obligations :: "obligation_result list"
  rr_findings :: "readiness_finding list"
  rr_rejected :: "witness_rejection list"
  rr_units :: "behaviour_unit list"
  rr_unexercised :: "string list"

subsection \<open>What the usable witnesses reached\<close>

definition new_production_components :: "candidate_delta \<Rightarrow> path list" where
  "new_production_components d =
     sort (map de_path (filter (\<lambda>e. de_kind e = ADDED \<and> de_class e = PRODUCTION) (cd_entries d)))"

definition exercised_by :: "structured_witness list \<Rightarrow> path list" where
  "exercised_by ws = concat (map exercised_paths (filter sw_passed ws))"

definition reaches :: "structured_witness list \<Rightarrow> behaviour_unit \<Rightarrow> bool" where
  "reaches ws u = list_ex (\<lambda>w. sw_passed w \<and>
     ((bu_kind u = NEW_ROUTE \<and> list_ex (\<lambda>x. hx_route x = bu_name u) (sw_exchanges w))
      \<or> (case sw_coverage w of None \<Rightarrow> False | Some c \<Rightarrow> covers c (bu_path u) (bu_start u) (bu_end u)))) ws"

definition observed_symbols :: "structured_witness list \<Rightarrow> string list" where
  "observed_symbols ws = concat (map exercised_symbols (filter sw_passed ws))"

definition observed_routes :: "structured_witness list \<Rightarrow> string list" where
  "observed_routes ws = concat (map exercised_routes (filter sw_passed ws))"

definition passed_commands :: "structured_witness list \<Rightarrow> string list" where
  "passed_commands ws = map sw_command (filter sw_passed ws)"

subsection \<open>One obligation\<close>

definition shares :: "'a list \<Rightarrow> 'a list \<Rightarrow> bool" where
  "shares xs ys = list_ex (\<lambda>x. x \<in> set ys) xs"

definition lacking :: "'a list \<Rightarrow> 'a list \<Rightarrow> 'a list" where
  "lacking xs have_them = filter (\<lambda>x. x \<notin> set have_them) xs"

definition class_ok :: "acceptance_obligation \<Rightarrow> structured_witness \<Rightarrow> bool" where
  "class_ok ob w = (\<not> ao_independent ob \<or> sw_class w = INDEPENDENT)"

definition supporting :: "structured_witness list \<Rightarrow> acceptance_obligation \<Rightarrow> string list" where
  "supporting usable ob = map sw_id (filter (\<lambda>w. sw_passed w
     \<and> (shares (ao_criteria ob) (sw_criteria w)
        \<or> shares (ao_must_be_exercised ob) (exercised_paths w)
        \<or> shares (ao_required_symbols ob) (exercised_symbols w)
        \<or> shares (ao_required_routes ob) (exercised_routes w))
     \<and> class_ok ob w) usable)"

definition unproved_criteria :: "structured_witness list \<Rightarrow> acceptance_obligation \<Rightarrow> string list" where
  "unproved_criteria usable ob = filter (\<lambda>c.
     \<not> list_ex (\<lambda>w. sw_passed w \<and> class_ok ob w \<and> c \<in> set (sw_criteria w)) usable) (ao_criteria ob)"

definition finding :: "readiness_block \<Rightarrow> path option \<Rightarrow> string option \<Rightarrow> readiness_finding" where
  "finding b p ob = \<lparr>rf_block = b, rf_path = p, rf_obligation = ob\<rparr>"

definition obligation_problem ::
  "path list \<Rightarrow> structured_witness list \<Rightarrow> acceptance_obligation \<Rightarrow> bool" where
  "obligation_problem present usable ob =
     (lacking (ao_required_paths ob) present \<noteq> []
      \<or> lacking (ao_must_be_exercised ob) (exercised_by usable) \<noteq> []
      \<or> lacking (ao_required_symbols ob) (observed_symbols usable) \<noteq> []
      \<or> lacking (ao_required_routes ob) (observed_routes usable) \<noteq> []
      \<or> unproved_criteria usable ob \<noteq> [])"

definition judge_obligation ::
  "path list \<Rightarrow> structured_witness list \<Rightarrow> acceptance_obligation \<Rightarrow> obligation_result \<times> readiness_finding list" where
  "judge_obligation present usable ob =
     (if ao_unmeasured_reason ob \<noteq> [] then
        (\<lparr>or_id = ao_id ob, or_kind = ao_kind ob, or_status = INTENTIONALLY_UNMEASURED_STATUS,
          or_supporting = []\<rparr>,
         [finding INTENTIONALLY_UNMEASURED None (Some (ao_id ob))])
      else
        (let missing = map (\<lambda>p. finding MISSING_REQUIRED_ARTIFACT (Some p) (Some (ao_id ob)))
               (lacking (ao_required_paths ob) present) in
         if obligation_problem present usable ob then
           (\<lparr>or_id = ao_id ob, or_kind = ao_kind ob, or_status = UNPROVED,
             or_supporting = supporting usable ob\<rparr>,
            missing @ [finding OBLIGATION_UNPROVED None (Some (ao_id ob))])
         else
           (\<lparr>or_id = ao_id ob, or_kind = ao_kind ob, or_status = PROVED,
             or_supporting = supporting usable ob\<rparr>, missing)))"

subsection \<open>The slice\<close>

definition component_unit :: "path \<Rightarrow> behaviour_unit" where
  "component_unit p = \<lparr>bu_kind = NEW_FILE, bu_path = p, bu_name = p, bu_start = 1, bu_end = 1,
                       bu_heuristic = False\<rparr>"

definition evaluate_slice_readiness ::
  "acceptance_contract \<Rightarrow> candidate_delta \<Rightarrow> structured_witness list \<Rightarrow> path list option
    \<Rightarrow> behaviour_unit list option \<Rightarrow> readiness_report" where
  "evaluate_slice_readiness contract delta witnesses candidate_paths behaviour_units =
     (let (usable, rejected) = usable_witnesses witnesses (Some (cd_fingerprint delta));
          present = (case candidate_paths of None \<Rightarrow> delta_paths delta | Some ps \<Rightarrow> ps);
          judged = map (judge_obligation present usable) (ac_obligations contract);
          units = (case behaviour_units of None \<Rightarrow> map component_unit (new_production_components delta)
                   | Some us \<Rightarrow> us);
          unexercised = filter (\<lambda>u. \<not> reaches usable u) units;
          findings = concat (map snd judged)
            @ map (\<lambda>u. finding CHANGED_BEHAVIOUR_UNEXERCISED (Some (bu_path u)) None) unexercised
            @ map (\<lambda>_. finding REQUIRED_COMMAND_NOT_PASSED None None)
                (lacking (ac_commands contract) (passed_commands usable))
            @ (if ac_obligations contract \<noteq> [] \<and> usable = [] then [finding NO_USABLE_WITNESS None None] else [])
      in \<lparr>rr_slice = ac_slice contract, rr_ready = (findings = []), rr_obligations = map fst judged,
          rr_findings = findings, rr_rejected = rejected, rr_units = units,
          rr_unexercised = map unit_id unexercised\<rparr>)"

definition require_ready :: "readiness_report \<Rightarrow> readiness_report option" where
  "require_ready r = (if rr_ready r then Some r else None)"

subsection \<open>The verdict\<close>

datatype checkpoint_outcome = COMPLETE_OUTCOME | CONTINUE_OUTCOME | CANDIDATE_REFUSED | HUMAN_REVIEW_OUTCOME

record checkpoint_decision =
  cp_outcome :: checkpoint_outcome
  cp_admitted :: bool
  cp_ready :: bool

definition evaluate_checkpoint :: "bool \<Rightarrow> readiness_report \<Rightarrow> checkpoint_decision" where
  "evaluate_checkpoint admitted readiness =
     (if \<not> admitted then
        \<lparr>cp_outcome = CANDIDATE_REFUSED, cp_admitted = False, cp_ready = False\<rparr>
      else if rr_ready readiness then
        \<lparr>cp_outcome = COMPLETE_OUTCOME, cp_admitted = True, cp_ready = True\<rparr>
      else if list_ex (\<lambda>f. rf_block f = INTENTIONALLY_UNMEASURED) (rr_findings readiness) then
        \<lparr>cp_outcome = HUMAN_REVIEW_OUTCOME, cp_admitted = True, cp_ready = False\<rparr>
      else \<lparr>cp_outcome = CONTINUE_OUTCOME, cp_admitted = True, cp_ready = False\<rparr>)"

subsection \<open>Facts\<close>

definition obligation_met :: "path list \<Rightarrow> structured_witness list \<Rightarrow> acceptance_obligation \<Rightarrow> bool" where
  "obligation_met present ws ob =
     (ao_unmeasured_reason ob = []
      \<and> set (ao_required_paths ob) \<subseteq> set present
      \<and> (\<forall>p \<in> set (ao_must_be_exercised ob). \<exists>w \<in> set ws. sw_passed w \<and> p \<in> set (exercised_paths w))
      \<and> (\<forall>s \<in> set (ao_required_symbols ob). \<exists>w \<in> set ws. sw_passed w \<and> s \<in> set (exercised_symbols w))
      \<and> (\<forall>r \<in> set (ao_required_routes ob). \<exists>w \<in> set ws. sw_passed w \<and> r \<in> set (exercised_routes w))
      \<and> (\<forall>c \<in> set (ao_criteria ob). \<exists>w \<in> set ws. sw_passed w \<and> c \<in> set (sw_criteria w)
            \<and> (ao_independent ob \<longrightarrow> sw_class w = INDEPENDENT)))"

definition slice_done ::
  "acceptance_contract \<Rightarrow> path list \<Rightarrow> behaviour_unit list \<Rightarrow> structured_witness list \<Rightarrow> bool" where
  "slice_done contract present units ws =
     ((\<forall>ob \<in> set (ac_obligations contract). obligation_met present ws ob)
      \<and> (\<forall>u \<in> set units. reaches ws u)
      \<and> (\<forall>c \<in> set (ac_commands contract). \<exists>w \<in> set ws. sw_passed w \<and> sw_command w = c)
      \<and> (ac_obligations contract \<noteq> [] \<longrightarrow> ws \<noteq> []))"

lemma lacking_empty: "lacking xs ys = [] \<longleftrightarrow> set xs \<subseteq> set ys"
  by (auto simp: lacking_def filter_empty_conv)

lemma judge_findings:
  "snd (judge_obligation present ws ob) = [] \<longleftrightarrow> obligation_met present ws ob"
  by (auto simp: judge_obligation_def obligation_met_def obligation_problem_def lacking_empty Let_def
      finding_def exercised_by_def observed_symbols_def observed_routes_def unproved_criteria_def
      class_ok_def filter_empty_conv list_ex_iff subset_iff)

lemma judge_status:
  "or_status (fst (judge_obligation present ws ob)) = PROVED \<longleftrightarrow> obligation_met present ws ob"
  unfolding judge_findings [symmetric]
  by (auto simp: judge_obligation_def obligation_problem_def lacking_empty Let_def)

lemma ready_iff_done:
  "rr_ready (evaluate_slice_readiness contract d ws ps us) \<longleftrightarrow>
     slice_done contract (case ps of None \<Rightarrow> delta_paths d | Some q \<Rightarrow> q)
       (case us of None \<Rightarrow> map component_unit (new_production_components d) | Some v \<Rightarrow> v)
       (fst (usable_witnesses ws (Some (cd_fingerprint d))))"
  by (auto simp: evaluate_slice_readiness_def slice_done_def Let_def split_beta judge_findings
      lacking_empty passed_commands_def filter_empty_conv)

lemma obligation_met_mono:
  "set ws \<subseteq> set ws' \<Longrightarrow> obligation_met present ws ob \<Longrightarrow> obligation_met present ws' ob"
  unfolding obligation_met_def by (meson subsetD)

lemma reaches_mono: "set ws \<subseteq> set ws' \<Longrightarrow> reaches ws u \<Longrightarrow> reaches ws' u"
  by (auto simp: reaches_def list_ex_iff)

lemma slice_done_mono:
  assumes sub: "set ws \<subseteq> set ws'" and dn: "slice_done contract present units ws"
  shows "slice_done contract present units ws'"
proof -
  have "ws \<noteq> [] \<Longrightarrow> ws' \<noteq> []" using sub by auto
  with dn obligation_met_mono [OF sub] reaches_mono [OF sub] sub show ?thesis
    unfolding slice_done_def by (meson subsetD)
qed

lemma usable_filter_fresh:
  "fst (usable_witnesses (filter (\<lambda>w. sw_fingerprint w = f) ws) (Some f)) = fst (usable_witnesses ws (Some f))"
  unfolding usable_filter filter_filter
  by (rule filter_cong) (auto simp: witness_problems_def split: if_splits)

subsection \<open>What evidence is, said without the code's functions\<close>

definition carries_substance :: "structured_witness \<Rightarrow> bool" where
  "carries_substance w =
     (sw_exchanges w \<noteq> [] \<or> (\<exists>c. sw_coverage w = Some c \<and> co_executed_paths c \<noteq> [])
      \<or> (\<exists>q. sw_process w = Some q) \<or> sw_artifacts w \<noteq> [])"

definition sound_evidence :: "digest \<Rightarrow> structured_witness \<Rightarrow> bool" where
  "sound_evidence f w =
     (sw_schema w = ''1.0'' \<and> sw_fingerprint w = f
      \<and> (carries_substance w \<or> sw_kind w = STATIC)
      \<and> (sw_criteria w \<noteq> [] \<longrightarrow> sw_passed w \<and> carries_substance w)
      \<and> (\<forall>c. sw_coverage w = Some c \<longrightarrow> (\<exists>m. co_method c = Some m \<and> m \<noteq> []))
      \<and> (\<forall>q. sw_process w = Some q \<longrightarrow> (\<exists>x \<in> set (po_readiness q). \<not> is_space_char x) \<and> po_cleaned_up q)
      \<and> (\<forall>m \<in> set (sw_exchanges w). hx_mutating m \<longrightarrow>
           (\<exists>x \<in> set (sw_exchanges w). hx_route x = hx_route m \<and> \<not> hx_mutating x)))"

definition ran_path :: "structured_witness \<Rightarrow> path \<Rightarrow> bool" where
  "ran_path w p = (\<exists>c. sw_coverage w = Some c \<and> p \<in> set (co_executed_paths c))"

definition saw_symbol :: "structured_witness \<Rightarrow> string \<Rightarrow> bool" where
  "saw_symbol w s = (\<exists>c. sw_coverage w = Some c \<and> (s \<in> set (co_symbols c) \<or> s \<in> set (co_imported c)))"

definition called_route :: "structured_witness \<Rightarrow> string \<Rightarrow> bool" where
  "called_route w r = (\<exists>x \<in> set (sw_exchanges w). hx_route x = r)"

text \<open>A line of the range was recorded, or the file ran and no lines were recorded for it.\<close>

definition ran_lines :: "structured_witness \<Rightarrow> path \<Rightarrow> int \<Rightarrow> int \<Rightarrow> bool" where
  "ran_lines w p first final =
     (\<exists>c. sw_coverage w = Some c \<and>
        ((\<exists>ls. map_of (co_executed_lines c) p = Some ls \<and> (\<exists>l \<in> set ls. first \<le> l \<and> l \<le> final))
         \<or> (map_of (co_executed_lines c) p \<in> {None, Some []} \<and> p \<in> set (co_executed_paths c))))"

definition unit_reached :: "structured_witness set \<Rightarrow> behaviour_unit \<Rightarrow> bool" where
  "unit_reached S u = (\<exists>w \<in> S. sw_passed w \<and>
     ((bu_kind u = NEW_ROUTE \<and> called_route w (bu_name u))
      \<or> ran_lines w (bu_path u) (bu_start u) (bu_end u)))"

definition obligation_discharged ::
  "path set \<Rightarrow> structured_witness set \<Rightarrow> acceptance_obligation \<Rightarrow> bool" where
  "obligation_discharged present S ob =
     (ao_unmeasured_reason ob = []
      \<and> set (ao_required_paths ob) \<subseteq> present
      \<and> (\<forall>p \<in> set (ao_must_be_exercised ob). \<exists>w \<in> S. sw_passed w \<and> ran_path w p)
      \<and> (\<forall>s \<in> set (ao_required_symbols ob). \<exists>w \<in> S. sw_passed w \<and> saw_symbol w s)
      \<and> (\<forall>r \<in> set (ao_required_routes ob). \<exists>w \<in> S. sw_passed w \<and> called_route w r)
      \<and> (\<forall>c \<in> set (ao_criteria ob). \<exists>w \<in> S. sw_passed w \<and> c \<in> set (sw_criteria w)
            \<and> (ao_independent ob \<longrightarrow> sw_class w = INDEPENDENT)))"

lemma strip_empty: "strip s = [] \<longleftrightarrow> (\<forall>x \<in> set s. is_space_char x)"
proof -
  have "rstrip t = [] \<longleftrightarrow> (\<forall>x \<in> set t. is_space_char x)" for t
    by (simp add: rstrip_def dropWhile_eq_Nil_conv)
  moreover have "(\<forall>x \<in> set (lstrip s). is_space_char x) \<longleftrightarrow> (\<forall>x \<in> set s. is_space_char x)"
    using set_takeWhileD [of _ is_space_char s]
    by (metis Un_iff lstrip_def set_append takeWhile_dropWhile_id)
  ultimately show ?thesis by (simp add: strip_def)
qed

lemma substance_iff: "has_substance w \<longleftrightarrow> carries_substance w"
  by (auto simp: has_substance_def carries_substance_def split: option.splits)

lemma sound_iff: "witness_problems w (Some f) = [] \<longleftrightarrow> sound_evidence f w"
  unfolding witness_problems_empty sound_evidence_def substance_iff strip_empty witness_schema_version_def
    option.inject by blast

lemma usable_sound:
  "set (fst (usable_witnesses ws (Some f))) = {w \<in> set ws. sound_evidence f w}"
  unfolding usable_filter sound_iff by simp

lemma covers_iff: "covers c p i j \<longleftrightarrow>
    (\<exists>ls. map_of (co_executed_lines c) p = Some ls \<and> (\<exists>l \<in> set ls. i \<le> l \<and> l \<le> j))
    \<or> (map_of (co_executed_lines c) p \<in> {None, Some []} \<and> p \<in> set (co_executed_paths c))"
  by (cases "map_of (co_executed_lines c) p") (auto simp: covers_def list_ex_iff)

lemma ran_lines_iff:
  "ran_lines w p i j \<longleftrightarrow> (case sw_coverage w of None \<Rightarrow> False | Some c \<Rightarrow> covers c p i j)"
  by (cases "sw_coverage w") (simp_all add: ran_lines_def covers_iff)

lemma reaches_iff: "reaches ws u \<longleftrightarrow> unit_reached (set ws) u"
  by (simp add: reaches_def unit_reached_def list_ex_iff called_route_def ran_lines_iff)

lemma exercised_iff:
  "p \<in> set (exercised_paths w) \<longleftrightarrow> ran_path w p"
  "n \<in> set (exercised_symbols w) \<longleftrightarrow> saw_symbol w n"
  "r \<in> set (exercised_routes w) \<longleftrightarrow> called_route w r"
  by (cases "sw_coverage w"; auto simp: ran_path_def saw_symbol_def called_route_def exercised_paths_def
      exercised_symbols_def exercised_routes_def)+

lemma met_iff: "obligation_met present ws ob \<longleftrightarrow> obligation_discharged (set present) (set ws) ob"
  by (simp add: obligation_met_def obligation_discharged_def exercised_iff)

lemma done_iff: "slice_done contract present units ws \<longleftrightarrow>
     (\<forall>ob \<in> set (ac_obligations contract). obligation_discharged (set present) (set ws) ob)
      \<and> (\<forall>u \<in> set units. unit_reached (set ws) u)
      \<and> (\<forall>c \<in> set (ac_commands contract). \<exists>w \<in> set ws. sw_passed w \<and> sw_command w = c)
      \<and> (ac_obligations contract = [] \<or> set ws \<noteq> {})"
  by (auto simp: slice_done_def met_iff reaches_iff)

subsection \<open>Properties\<close>


text \<open>
  Evidence about another worktree never counts. Dropping every witness whose fingerprint is
  not the candidate's changes neither readiness nor the obligations nor the findings nor the
  unexercised units.
\<close>

theorem stale_evidence_never_counts:
  "let fresh = filter (\<lambda>w. sw_fingerprint w = cd_fingerprint d) ws;
       a = evaluate_slice_readiness contract d ws ps us;
       b = evaluate_slice_readiness contract d fresh ps us
   in rr_ready a = rr_ready b \<and> rr_obligations a = rr_obligations b \<and> rr_findings a = rr_findings b
      \<and> rr_unexercised a = rr_unexercised b"
  by (simp add: evaluate_slice_readiness_def Let_def split_beta usable_filter_fresh)

text \<open>
  More evidence never takes readiness away: a slice that is ready stays ready when further
  witnesses of any kind, valid or not, are added in any order.
\<close>

theorem readiness_monotone:
  assumes "set ws \<subseteq> set ws'" and "rr_ready (evaluate_slice_readiness contract d ws ps us)"
  shows "rr_ready (evaluate_slice_readiness contract d ws' ps us)"
proof -
  have "set (fst (usable_witnesses ws (Some (cd_fingerprint d))))
      \<subseteq> set (fst (usable_witnesses ws' (Some (cd_fingerprint d))))"
    using assms(1) by (auto simp: usable_filter)
  from slice_done_mono [OF this] assms(2) show ?thesis by (simp add: ready_iff_done)
qed

definition homework_contract :: acceptance_contract where
  "homework_contract = \<lparr>ac_slice = ''S'', ac_plan = None, ac_criteria = [''C''], ac_obligations =
     [\<lparr>ao_id = ''O'', ao_kind = PRODUCTION_ARTIFACT, ao_required_paths = [''a.py''],
       ao_must_be_exercised = [''a.py''], ao_criteria = [], ao_required_symbols = [''a.f''],
       ao_required_routes = [], ao_independent = True, ao_unmeasured_reason = []\<rparr>,
      \<lparr>ao_id = ''T'', ao_kind = TEST_OR_WITNESS, ao_required_paths = [],
       ao_must_be_exercised = [], ao_criteria = [''C''], ao_required_symbols = [],
       ao_required_routes = [], ao_independent = False, ao_unmeasured_reason = []\<rparr>],
     ac_commands = []\<rparr>"

definition homework_witness :: structured_witness where
  "homework_witness = \<lparr>sw_schema = ''1.0'', sw_id = ''w'', sw_kind = TEST_SUITE, sw_class = MODEL_AUTHORED,
     sw_command = ''tests'', sw_commit = None, sw_fingerprint = ''f'', sw_passed = True, sw_process = None,
     sw_exchanges = [], sw_coverage = Some \<lparr>co_executed_paths = [''a.py''],
       co_executed_lines = [(''a.py'', [1])], co_imported = [], co_symbols = [''a.f''],
       co_method = Some ''trace'', co_source = None\<rparr>, sw_criteria = [''C''], sw_artifacts = []\<rparr>"

definition homework_delta :: candidate_delta where
  "homework_delta = \<lparr>cd_base_commit = None, cd_fingerprint = ''f'', cd_entries =
     [\<lparr>de_path = ''a.py'', de_kind = ADDED, de_class = PRODUCTION, de_base = None,
       de_candidate = Some ''1'', de_added = 1, de_removed = 0, de_binary = False, de_size = 3\<rparr>],
     cd_skipped = [], cd_excluded = []\<rparr>"

text \<open>
  Independence binds the criteria only. The first obligation of a valid contract requires
  independent evidence and names a path and a symbol to be exercised, but no criteria; it is
  reported as proved, and the slice as ready, on a model-authored witness alone, with no
  supporting witness listed for it.
\<close>

theorem model_authored_evidence_discharges_independent_obligation:
  "let report = evaluate_slice_readiness homework_contract homework_delta [homework_witness] None None
   in contract_valid homework_contract \<and> ao_independent (hd (ac_obligations homework_contract))
      \<and> sw_class homework_witness = MODEL_AUTHORED
      \<and> rr_ready report \<and> map or_status (rr_obligations report) = [PROVED, PROVED]
      \<and> map or_supporting (rr_obligations report) = [[], [''w'']]"
  unfolding Let_def by (intro conjI; code_simp)

theorem readiness_monotone_witness:
  "rr_ready (evaluate_slice_readiness homework_contract homework_delta
      [homework_witness\<lparr>sw_fingerprint := ''old''\<rparr>, homework_witness] None None)"
proof (rule readiness_monotone [of "[homework_witness]"])
  show "rr_ready (evaluate_slice_readiness homework_contract homework_delta [homework_witness] None None)"
    by code_simp
qed simp


end
