(* ===== verification/Gate.thy ===== *)
theory Gate
  imports Prelude
begin

section \<open>The Slice 3 gate (workcell/gate.py)\<close>

text \<open>
  \<open>evaluate_slice3_gate\<close> recomputes the blockers from the evidence inside a capability spike
  report (workcell/spike.py) instead of trusting its verdict. Of the report the gate reads the
  fields below; each blocker is one constructor, the texts are left out.
\<close>

datatype spike_verdict = CAPABILITY_PRESERVED | CAPABILITY_REGRESSED | NOT_MEASURABLE

datatype baseline_capability =
    PERSISTENT_SHELL | REPOSITORY_WIDE_INSPECTION | ORDINARY_FILE_EDITING
  | ARBITRARY_SANDBOX_COMMANDS | SELF_DIRECTED_TEST_DEBUG_LOOP
  | MULTI_FILE_CHANGE_WITHOUT_JSON_SERIALIZATION | PERSISTENT_WORKING_DIRECTORY
  | CONTEXT_CONTINUATION_OR_COMPACTION

record spike_report =
  sr_manifest_digest :: digest
  sr_contained :: bool
  sr_conformant :: bool
  sr_agent_profile_ok :: "bool option"
  sr_capability_ready :: "bool option"
  sr_lost :: "baseline_capability list"
  sr_verdict :: spike_verdict
  sr_repair_performed :: bool

datatype gate_blocker =
    NO_REPORT | NOT_CONTAINED | NOT_CONFORMANT | PROFILE_NOT_OK | READINESS_NOT_OK
  | CAPABILITIES_LOST "baseline_capability list" | VERDICT_NOT_PRESERVED spike_verdict
  | VERDICT_CONTRADICTED | REPAIR_PERFORMED

record gate_decision =
  gd_allowed :: bool
  gd_verdict :: "spike_verdict option"
  gd_contained :: bool
  gd_conformant :: bool
  gd_profile_ok :: bool
  gd_ready :: bool
  gd_manifest :: "digest option"
  gd_blockers :: "gate_blocker list"

definition opt_ok :: "bool option \<Rightarrow> bool" where
  "opt_ok x = (x = Some True)"

definition evidence_blockers :: "spike_report \<Rightarrow> gate_blocker list" where
  "evidence_blockers r =
     (if sr_contained r then [] else [NOT_CONTAINED])
     @ (if sr_conformant r then [] else [NOT_CONFORMANT])
     @ (if opt_ok (sr_agent_profile_ok r) then [] else [PROFILE_NOT_OK])
     @ (if opt_ok (sr_capability_ready r) then [] else [READINESS_NOT_OK])
     @ (if sr_lost r = [] then [] else [CAPABILITIES_LOST (sr_lost r)])"

definition gate_blockers :: "spike_report \<Rightarrow> gate_blocker list" where
  "gate_blockers r =
     (let bs = evidence_blockers r in
      bs
      @ (if sr_verdict r \<noteq> CAPABILITY_PRESERVED then [VERDICT_NOT_PRESERVED (sr_verdict r)]
         else if bs \<noteq> [] then [VERDICT_CONTRADICTED] else [])
      @ (if sr_repair_performed r then [REPAIR_PERFORMED] else []))"

definition evaluate_slice3_gate :: "spike_report option \<Rightarrow> gate_decision" where
  "evaluate_slice3_gate report =
     (case report of
        None \<Rightarrow> \<lparr>gd_allowed = False, gd_verdict = None, gd_contained = False, gd_conformant = False,
                 gd_profile_ok = False, gd_ready = False, gd_manifest = None,
                 gd_blockers = [NO_REPORT]\<rparr>
      | Some r \<Rightarrow>
          (let blockers = gate_blockers r in
           if blockers \<noteq> [] then
             \<lparr>gd_allowed = False, gd_verdict = Some (sr_verdict r), gd_contained = sr_contained r,
              gd_conformant = sr_conformant r, gd_profile_ok = opt_ok (sr_agent_profile_ok r),
              gd_ready = opt_ok (sr_capability_ready r), gd_manifest = Some (sr_manifest_digest r),
              gd_blockers = blockers\<rparr>
           else
             \<lparr>gd_allowed = True, gd_verdict = Some (sr_verdict r), gd_contained = True,
              gd_conformant = True, gd_profile_ok = True, gd_ready = True,
              gd_manifest = Some (sr_manifest_digest r), gd_blockers = []\<rparr>))"

text \<open>\<open>require_slice3_unblocked\<close>: the raising form, \<open>None\<close> for \<open>Slice3Blocked\<close>.\<close>

definition require_slice3_unblocked :: "spike_report option \<Rightarrow> gate_decision option" where
  "require_slice3_unblocked report =
     (let d = evaluate_slice3_gate report in if gd_allowed d then Some d else None)"

lemma gate_blockers_empty:
  "gate_blockers r = [] \<longleftrightarrow>
     sr_contained r \<and> sr_conformant r \<and> sr_agent_profile_ok r = Some True
     \<and> sr_capability_ready r = Some True \<and> sr_lost r = [] \<and> sr_verdict r = CAPABILITY_PRESERVED
     \<and> \<not> sr_repair_performed r"
  by (auto simp: gate_blockers_def evidence_blockers_def opt_ok_def Let_def)

lemma require_Some: "require_slice3_unblocked (Some r) = Some d \<Longrightarrow> gate_blockers r = []"
  by (auto simp: require_slice3_unblocked_def evaluate_slice3_gate_def Let_def split: if_splits)

text \<open>
  The gate fails closed. It opens exactly for a report whose own evidence (containment,
  conformance, agent profile, readiness, no lost capability, no repair) supports the verdict it
  claims; a missing report or missing evidence blocks, and a blocked decision names a blocker.
\<close>

theorem gate_opens_iff_evidence:
  "(require_slice3_unblocked report \<noteq> None \<longleftrightarrow>
     (\<exists>r. report = Some r \<and> sr_contained r \<and> sr_conformant r \<and> sr_agent_profile_ok r = Some True
        \<and> sr_capability_ready r = Some True \<and> sr_lost r = []
        \<and> sr_verdict r = CAPABILITY_PRESERVED \<and> \<not> sr_repair_performed r))
   \<and> (gd_allowed (evaluate_slice3_gate report) \<longleftrightarrow> gd_blockers (evaluate_slice3_gate report) = [])"
proof (cases report)
  case None
  then show ?thesis by (simp add: require_slice3_unblocked_def evaluate_slice3_gate_def)
next
  case (Some r)
  have "require_slice3_unblocked (Some r) \<noteq> None \<longleftrightarrow> gate_blockers r = []"
    by (simp add: require_slice3_unblocked_def evaluate_slice3_gate_def Let_def)
  with Some show ?thesis
    by (simp add: gate_blockers_empty evaluate_slice3_gate_def Let_def)
qed

end
