(* ===== verification/Admission.thy ===== *)
theory Admission
  imports Delta Gate
begin

section \<open>Admission of the candidate (workcell/admission.py)\<close>

text \<open>
  \<open>evaluate_admission\<close> judges a whole delta and returns every violation; \<open>admit_candidate\<close>
  rebuilds a snapshot from the base and the delta and checks its fingerprint. The snapshot is a
  flat file system: the directories that exist and the files with their bytes. Where the file
  operations of the code raise, the model returns \<open>Inl\<close>.
\<close>

datatype admission_finding =
    FORBIDDEN_PATH | UNSAFE_PATH | NON_REGULAR_FILE | TOO_MANY_FILES | TOO_MANY_CHANGED_LINES
  | FILE_TOO_LARGE | TEST_CHANGE_NOT_PERMITTED | DEPENDENCY_CHANGE_NOT_PERMITTED
  | GENERATED_ARTIFACT_PRESENT | DELETION_NOT_PERMITTED | EMPTY_DELTA | FINGERPRINT_MISMATCH

record admission_violation =
  av_finding :: admission_finding
  av_path :: "path option"

record admission_policy =
  ap_max_files :: nat
  ap_max_changed_lines :: nat
  ap_max_file_bytes :: nat
  ap_tests :: bool
  ap_dependencies :: bool
  ap_deletions :: bool
  ap_generated :: bool

definition default_policy :: admission_policy where
  "default_policy = \<lparr>ap_max_files = 100, ap_max_changed_lines = 10000, ap_max_file_bytes = 2097152,
     ap_tests = True, ap_dependencies = True, ap_deletions = True, ap_generated = False\<rparr>"

record admission_decision =
  ad_admitted :: bool
  ad_violations :: "admission_violation list"
  ad_file_count :: nat
  ad_changed_lines :: nat
  ad_by_class :: "(path_class \<times> nat) list"
  ad_by_kind :: "(change_kind \<times> nat) list"
  ad_fingerprint :: "digest option"
  ad_snapshot :: "path option"

subsection \<open>Path safety\<close>

fun depth_ok :: "int \<Rightarrow> string list \<Rightarrow> bool" where
  "depth_ok depth [] = True"
| "depth_ok depth (part # parts) =
     (if part = ''..'' then (if depth - 1 < 0 then False else depth_ok (depth - 1) parts)
      else if part \<noteq> ''.'' then depth_ok (depth + 1) parts
      else depth_ok depth parts)"

definition is_safe_relative :: "path \<Rightarrow> bool" where
  "is_safe_relative p =
     (let normalised = replace_char backslash (CHR ''/'') p in
      if starts_with normalised ''/'' \<or> CHR '':'' \<in> set (hd (split_on (CHR ''/'') normalised)) then False
      else depth_ok 0 (filter (\<lambda>w. w \<noteq> []) (split_on (CHR ''/'') normalised)))"

subsection \<open>Evaluation\<close>

definition violation :: "admission_finding \<Rightarrow> path \<Rightarrow> admission_violation" where
  "violation f p = \<lparr>av_finding = f, av_path = Some p\<rparr>"

definition whole_violation :: "admission_finding \<Rightarrow> admission_violation" where
  "whole_violation f = \<lparr>av_finding = f, av_path = None\<rparr>"

definition entry_violations :: "admission_policy \<Rightarrow> delta_entry \<Rightarrow> admission_violation list" where
  "entry_violations policy e =
     (if \<not> is_safe_relative (de_path e) then [violation UNSAFE_PATH (de_path e)] else [])
     @ (if de_class e = FORBIDDEN then [violation FORBIDDEN_PATH (de_path e)] else [])
     @ (if de_size e > ap_max_file_bytes policy then [violation FILE_TOO_LARGE (de_path e)] else [])
     @ (if de_class e = TEST \<and> \<not> ap_tests policy
        then [violation TEST_CHANGE_NOT_PERMITTED (de_path e)] else [])
     @ (if de_class e = DEPENDENCY \<and> \<not> ap_dependencies policy
        then [violation DEPENDENCY_CHANGE_NOT_PERMITTED (de_path e)] else [])
     @ (if de_class e = GENERATED \<and> \<not> ap_generated policy
        then [violation GENERATED_ARTIFACT_PRESENT (de_path e)] else [])
     @ (if de_kind e = DELETED \<and> \<not> ap_deletions policy
        then [violation DELETION_NOT_PERMITTED (de_path e)] else [])"

definition admission_violations ::
  "candidate_delta \<Rightarrow> admission_policy \<Rightarrow> digest option \<Rightarrow> admission_violation list" where
  "admission_violations delta policy expected =
     (case expected of None \<Rightarrow> []
      | Some f \<Rightarrow> if cd_fingerprint delta \<noteq> f then [whole_violation FINGERPRINT_MISMATCH] else [])
     @ map (violation NON_REGULAR_FILE) (cd_skipped delta)
     @ concat (map (entry_violations policy) (cd_entries delta))
     @ (if length (cd_entries delta) > ap_max_files policy then [whole_violation TOO_MANY_FILES] else [])
     @ (if delta_changed_lines delta > ap_max_changed_lines policy
        then [whole_violation TOO_MANY_CHANGED_LINES] else [])
     @ (if delta_is_empty delta then [whole_violation EMPTY_DELTA] else [])"

fun bump :: "'k \<Rightarrow> ('k \<times> nat) list \<Rightarrow> ('k \<times> nat) list" where
  "bump k [] = [(k, 1)]"
| "bump k ((l, n) # rest) = (if l = k then (l, n + 1) # rest else (l, n) # bump k rest)"

definition counts_of :: "('a \<Rightarrow> 'k) \<Rightarrow> 'a list \<Rightarrow> ('k \<times> nat) list" where
  "counts_of f xs = fold (\<lambda>x. bump (f x)) xs []"

definition evaluate_admission ::
  "candidate_delta \<Rightarrow> admission_policy option \<Rightarrow> digest option \<Rightarrow> admission_decision" where
  "evaluate_admission delta policy expected =
     (let vs = admission_violations delta (case policy of None \<Rightarrow> default_policy | Some p \<Rightarrow> p) expected
      in \<lparr>ad_admitted = (vs = []), ad_violations = vs, ad_file_count = length (cd_entries delta),
          ad_changed_lines = delta_changed_lines delta,
          ad_by_class = counts_of de_class (cd_entries delta),
          ad_by_kind = counts_of de_kind (cd_entries delta),
          ad_fingerprint = Some (cd_fingerprint delta), ad_snapshot = None\<rparr>)"

subsection \<open>The snapshot file system\<close>

record snapshot =
  sn_dirs :: "path list"
  sn_files :: files

definition empty_snapshot :: snapshot where
  "empty_snapshot = \<lparr>sn_dirs = [], sn_files = []\<rparr>"

definition join_snapshot :: "snapshot \<Rightarrow> snapshot \<Rightarrow> snapshot" where
  "join_snapshot a b = \<lparr>sn_dirs = sn_dirs a @ sn_dirs b, sn_files = sn_files a @ sn_files b\<rparr>"

definition copy_ignored_names :: "string list" where
  "copy_ignored_names =
     [''.git'', ''.apoapsis'', ''.sol'', ''__pycache__'', ''.pytest_cache'', ''node_modules'']"

text \<open>
  \<open>shutil.copytree(base, target, symlinks=False, ignore=...)\<close>: links are followed; a special
  file or a dangling link makes it raise, here \<open>None\<close>.
\<close>

fun copy_tree :: "path \<Rightarrow> tree \<Rightarrow> snapshot option" and copy_node :: "path \<Rightarrow> string \<Rightarrow> node \<Rightarrow> snapshot option" where
  "copy_tree pre [] = Some empty_snapshot"
| "copy_tree pre ((n, x) # rest) =
     (case copy_node pre n x of None \<Rightarrow> None
      | Some a \<Rightarrow> (case copy_tree pre rest of None \<Rightarrow> None | Some b \<Rightarrow> Some (join_snapshot a b)))"
| "copy_node pre n (Reg c) =
     Some (if n \<in> set copy_ignored_names then empty_snapshot else empty_snapshot\<lparr>sn_files := [(pre @ n, c)]\<rparr>)"
| "copy_node pre n (LinkFile c) =
     Some (if n \<in> set copy_ignored_names then empty_snapshot else empty_snapshot\<lparr>sn_files := [(pre @ n, c)]\<rparr>)"
| "copy_node pre n (Dir es) =
     (if n \<in> set copy_ignored_names then Some empty_snapshot
      else map_option (join_snapshot (empty_snapshot\<lparr>sn_dirs := [pre @ n]\<rparr>)) (copy_tree (pre @ n @ ''/'') es))"
| "copy_node pre n (LinkDir es) =
     (if n \<in> set copy_ignored_names then Some empty_snapshot
      else map_option (join_snapshot (empty_snapshot\<lparr>sn_dirs := [pre @ n]\<rparr>)) (copy_tree (pre @ n @ ''/'') es))"
| "copy_node pre n Special = (if n \<in> set copy_ignored_names then Some empty_snapshot else None)"

text \<open>The proper ancestor directories of a relative path, nearest last.\<close>

fun ancestors_from :: "path \<Rightarrow> string list \<Rightarrow> path list" where
  "ancestors_from pre [] = []"
| "ancestors_from pre [w] = []"
| "ancestors_from pre (w # v # ws) = (pre @ w) # ancestors_from (pre @ w @ ''/'') (v # ws)"

definition ancestors :: "path \<Rightarrow> path list" where
  "ancestors p = ancestors_from [] (split_on (CHR ''/'') p)"

definition remove_file :: "path \<Rightarrow> files \<Rightarrow> files" where
  "remove_file p fs = filter (\<lambda>kv. fst kv \<noteq> p) fs"

text \<open>
  \<open>unlink(missing_ok=True)\<close> raises on a directory; \<open>parent.mkdir(parents=True, exist_ok=True)\<close>
  raises when an ancestor is a file; \<open>copyfile\<close> raises when its target is a directory or its
  source is missing.
\<close>

definition apply_entry :: "(path \<rightharpoonup> string) \<Rightarrow> delta_entry \<Rightarrow> snapshot \<Rightarrow> snapshot option" where
  "apply_entry source e s =
     (if de_kind e = DELETED then
        (if de_path e \<in> set (sn_dirs s) then None
         else Some (s\<lparr>sn_files := remove_file (de_path e) (sn_files s)\<rparr>))
      else if list_ex (\<lambda>a. a \<in> fst ` set (sn_files s)) (ancestors (de_path e)) then None
      else if de_path e \<in> set (sn_dirs s) then None
      else (case source (de_path e) of None \<Rightarrow> None
        | Some c \<Rightarrow> Some \<lparr>sn_dirs = sn_dirs s @ ancestors (de_path e),
                       sn_files = remove_file (de_path e) (sn_files s) @ [(de_path e, c)]\<rparr>))"

fun apply_entries :: "(path \<rightharpoonup> string) \<Rightarrow> delta_entry list \<Rightarrow> snapshot \<Rightarrow> snapshot option" where
  "apply_entries source [] s = Some s"
| "apply_entries source (e # es) s =
     (case apply_entry source e s of None \<Rightarrow> None | Some s' \<Rightarrow> apply_entries source es s')"

definition visible_files :: "snapshot \<Rightarrow> files" where
  "visible_files s =
     filter (\<lambda>kv. list_all (\<lambda>w. w \<notin> set excluded_metadata_names) (split_on (CHR ''/'') (fst kv))) (sn_files s)"

definition snapshot_fingerprint :: "(string \<Rightarrow> digest) \<Rightarrow> snapshot \<Rightarrow> digest" where
  "snapshot_fingerprint H s = H (fingerprint_text H (visible_files s))"

text \<open>
  What \<open>copyfile(candidate_root / path)\<close> reads: the walked files, and beside them what lies behind links,
  which \<open>copyfile\<close> follows, or in a directory the walk leaves out.
\<close>

fun linked_tree :: "path \<Rightarrow> tree \<Rightarrow> files" and linked_node :: "path \<Rightarrow> string \<Rightarrow> node \<Rightarrow> files" where
  "linked_tree pre [] = []"
| "linked_tree pre ((n, x) # rest) = linked_node pre n x @ linked_tree pre rest"
| "linked_node pre n (Reg c) = [(pre @ n, c)]"
| "linked_node pre n (LinkFile c) = [(pre @ n, c)]"
| "linked_node pre n (Dir es) = linked_tree (pre @ n @ ''/'') es"
| "linked_node pre n (LinkDir es) = linked_tree (pre @ n @ ''/'') es"
| "linked_node pre n Special = []"

definition readable_at :: "tree \<Rightarrow> path \<rightharpoonup> string" where
  "readable_at t = map_of (linked_tree [] t) ++ map_of (w_files (walk t))"

definition reconstruct_candidate :: "tree \<Rightarrow> tree \<Rightarrow> candidate_delta \<Rightarrow> snapshot option" where
  "reconstruct_candidate base candidate delta =
     (case copy_tree [] base of None \<Rightarrow> None
      | Some s \<Rightarrow> apply_entries (readable_at candidate) (cd_entries delta) s)"

subsection \<open>Admission\<close>

datatype admission_error = SLICE3_BLOCKED | OS_ERROR

definition reconstruction_mismatch :: "admission_decision \<Rightarrow> candidate_delta \<Rightarrow> admission_decision" where
  "reconstruction_mismatch d delta =
     d\<lparr>ad_admitted := False, ad_violations := [whole_violation FINGERPRINT_MISMATCH],
       ad_fingerprint := Some (cd_fingerprint delta), ad_snapshot := None\<rparr>"

text \<open>
  The decision together with what is at \<open>snapshot_root\<close> when the call returns: \<open>None\<close> when
  nothing was written there or it was removed again.
\<close>

definition admit_candidate ::
  "(string \<Rightarrow> digest) \<Rightarrow> tree \<Rightarrow> tree \<Rightarrow> candidate_delta \<Rightarrow> path \<Rightarrow> admission_policy option
    \<Rightarrow> digest option \<Rightarrow> spike_report option \<Rightarrow> admission_error + (admission_decision \<times> snapshot option)" where
  "admit_candidate H base candidate delta snapshot_root policy expected spike =
     (if spike \<noteq> None \<and> require_slice3_unblocked spike = None then Inl SLICE3_BLOCKED
      else
        (let decision = evaluate_admission delta policy expected in
         if \<not> ad_admitted decision then Inr (decision, None)
         else (case reconstruct_candidate base candidate delta of None \<Rightarrow> Inl OS_ERROR
           | Some s \<Rightarrow>
               if snapshot_fingerprint H s \<noteq> cd_fingerprint delta
               then Inr (reconstruction_mismatch decision delta, None)
               else Inr (decision\<lparr>ad_snapshot := Some snapshot_root\<rparr>, Some s))))"

definition require_admitted :: "admission_decision \<Rightarrow> admission_decision option" where
  "require_admitted d = (if ad_admitted d then Some d else None)"

end
