(* ===== verification/Delta_Facts.thy ===== *)
theory Delta_Facts
  imports Delta "HOL-Library.Multiset"
begin

section \<open>What the delta says about the two trees\<close>

text \<open>
  The delta lists exactly the paths whose walked contents differ, each once, in order; the
  fingerprint text determines the walked files up to the digests. \<open>H\<close> stands for SHA-256: a
  hypothesis "no collision among these texts" is stated where a lemma needs it.
\<close>

subsection \<open>Sorted sets and association lists\<close>

lemma set_sorted_set [simp]: "set (sorted_set xs) = set xs"
  by (simp add: sorted_set_def)

lemma distinct_sorted_set [simp]: "distinct (sorted_set xs)"
  by (simp add: sorted_set_def)

lemma sorted_set_cong: "set xs = set ys \<Longrightarrow> sorted_set xs = sorted_set ys"
  by (metis sorted_set_def distinct_remdups set_remdups sorted_list_of_set_sort_remdups)

lemma dom_keys: "p \<in> fst ` set fs \<longleftrightarrow> map_of fs p \<noteq> None"
  by (simp add: map_of_eq_None_iff)

lemma map_of_filter_key: "map_of (filter (\<lambda>kv. P (fst kv)) fs) p = (if P p then map_of fs p else None)"
  by (induction fs) auto

lemma map_of_remove_file: "map_of (filter (\<lambda>kv. fst kv \<noteq> q) fs) p = (if p = q then None else map_of fs p)"
  by (induction fs) auto

subsection \<open>The entries\<close>

lemma delta_entry_for_path: "delta_entry_for H bf cf p = Some e \<Longrightarrow> de_path e = p"
  by (auto simp: delta_entry_for_def Let_def split: if_splits)

lemma delta_entry_for_kind:
  "delta_entry_for H bf cf p = Some e \<Longrightarrow>
     de_kind e = (if bf p = None then ADDED else if cf p = None then DELETED else MODIFIED)"
  by (auto simp: delta_entry_for_def Let_def split: if_splits)

lemma delta_entry_for_digests:
  "delta_entry_for H bf cf p = Some e \<Longrightarrow>
     de_base e = map_option H (bf p) \<and> de_candidate e = map_option H (cf p)"
  by (auto simp: delta_entry_for_def Let_def split: if_splits)

lemma delta_entry_for_None:
  "delta_entry_for H bf cf p = None \<longleftrightarrow> (\<exists>b c. bf p = Some b \<and> cf p = Some c \<and> H b = H c)"
  by (auto simp: delta_entry_for_def Let_def)

lemma find_map_filter:
  assumes "\<And>x y. f x = Some y \<Longrightarrow> k y = x" and "distinct xs"
  shows "find (\<lambda>y. k y = x) (List.map_filter f xs) = (if x \<in> set xs then f x else None)"
  using assms(2)
proof (induction xs)
  case Nil
  then show ?case by (simp add: List.map_filter_def)
next
  case (Cons z zs)
  show ?case
  proof (cases "f z")
    case None
    with Cons show ?thesis by (auto simp: List.map_filter_simps)
  next
    case (Some y)
    with assms(1) have "k y = z" by simp
    with Cons Some show ?thesis by (auto simp: List.map_filter_simps)
  qed
qed

lemma map_filter_keys:
  assumes "\<And>x y. f x = Some y \<Longrightarrow> k y = x"
  shows "map k (List.map_filter f xs) = filter (\<lambda>x. f x \<noteq> None) xs"
  using assms by (induction xs) (auto simp: List.map_filter_simps split: option.split)

definition entry_at :: "delta_entry list \<Rightarrow> path \<Rightarrow> delta_entry option" where
  "entry_at es p = find (\<lambda>e. de_path e = p) es"

definition walked :: "tree \<Rightarrow> path \<Rightarrow> string option" where
  "walked t = map_of (w_files (walk t))"

lemma walked_keys: "p \<in> fst ` set (w_files (walk t)) \<longleftrightarrow> walked t p \<noteq> None"
  by (simp add: walked_def dom_keys)

lemma delta_entries:
  "cd_entries (compute_delta H c base candidate) =
     List.map_filter (delta_entry_for H (walked base) (walked candidate))
       (sorted_set (map fst (w_files (walk base)) @ map fst (w_files (walk candidate))))"
  by (simp add: compute_delta_def walked_def Let_def)

lemma delta_entry_at:
  "entry_at (cd_entries (compute_delta H c base candidate)) p =
     (if walked base p = None \<and> walked candidate p = None then None
      else delta_entry_for H (walked base) (walked candidate) p)"
proof -
  have "entry_at (cd_entries (compute_delta H c base candidate)) p =
      (if p \<in> set (sorted_set (map fst (w_files (walk base)) @ map fst (w_files (walk candidate))))
       then delta_entry_for H (walked base) (walked candidate) p else None)"
    unfolding delta_entries entry_at_def
    by (rule find_map_filter) (simp_all add: delta_entry_for_path)
  then show ?thesis by (simp add: walked_keys)
qed

lemma delta_paths_sorted:
  "sorted_wrt (<) (delta_paths (compute_delta H c base candidate))"
proof -
  let ?ps = "sorted_set (map fst (w_files (walk base)) @ map fst (w_files (walk candidate)))"
  have "delta_paths (compute_delta H c base candidate)
      = filter (\<lambda>x. delta_entry_for H (walked base) (walked candidate) x \<noteq> None) ?ps"
    unfolding delta_paths_def delta_entries
    by (rule map_filter_keys) (rule delta_entry_for_path)
  moreover have "sorted_wrt (<) ?ps"
    by (simp add: sorted_set_def strict_sorted_iff)
  ultimately show ?thesis by (simp add: sorted_wrt_filter)
qed

lemma delta_paths_distinct: "distinct (map de_path (cd_entries (compute_delta H c base candidate)))"
  using delta_paths_sorted [of H c base candidate] unfolding delta_paths_def
  by (simp add: strict_sorted_iff)

subsection \<open>The fingerprint\<close>

definition fingerprint_line :: "(string \<Rightarrow> digest) \<Rightarrow> (path \<Rightarrow> string option) \<Rightarrow> path \<Rightarrow> string" where
  "fingerprint_line H m p =
     p @ [char_of (0::nat)] @ (case m p of None \<Rightarrow> [] | Some c \<Rightarrow> H c) @ [newline]"

lemma fingerprint_line_Some:
  "m p = Some c \<Longrightarrow> fingerprint_line H m p = p @ char_of (0::nat) # H c @ [newline]"
  by (simp add: fingerprint_line_def)

lemma fingerprint_text_lines:
  "fingerprint_text H fs = concat (map (fingerprint_line H (map_of fs)) (sorted_set (map fst fs)))"
  by (simp add: fingerprint_text_def fingerprint_line_def [abs_def])

lemma fingerprint_text_cong:
  assumes "map_of fs = map_of gs"
  shows "fingerprint_text H fs = fingerprint_text H gs"
proof -
  have "set (map fst fs) = set (map fst gs)"
    using assms by (metis dom_map_of_conv_image_fst list.set_map)
  then have "sorted_set (map fst fs) = sorted_set (map fst gs)" by (rule sorted_set_cong)
  with assms show ?thesis by (simp add: fingerprint_text_lines)
qed

lemma append_at_mark:
  assumes "u @ z # v = u' @ z # v'" and "z \<notin> set u" and "z \<notin> set u'"
  shows "u = u' \<and> v = v'"
  using assms
proof (induction u arbitrary: u')
  case Nil
  then show ?case by (cases u') auto
next
  case (Cons c u)
  then show ?case by (cases u') auto
qed

text \<open>Paths free of NUL and digests of one length make the text of the lines readable back.\<close>

lemma fingerprint_lines_inject:
  assumes nul: "\<forall>p \<in> set ps \<union> set qs. char_of (0::nat) \<notin> set p"
    and len: "\<And>s. length (H s) = n"
    and dom: "\<forall>p \<in> set ps. m p \<noteq> None" "\<forall>p \<in> set qs. k p \<noteq> None"
    and eq: "concat (map (fingerprint_line H m) ps) = concat (map (fingerprint_line H k) qs)"
  shows "ps = qs \<and> (\<forall>p \<in> set ps. map_option H (m p) = map_option H (k p))"
  using nul dom eq
proof (induction ps arbitrary: qs)
  case Nil
  then show ?case by (cases qs) (auto simp: fingerprint_line_def)
next
  case (Cons p ps)
  obtain q qs' where qs: "qs = q # qs'"
    using Cons.prems(4) by (cases qs) (auto simp: fingerprint_line_def)
  obtain c where c: "m p = Some c" using Cons.prems(2) by auto
  obtain d where d: "k q = Some d" using Cons.prems(3) qs by auto
  have "p @ char_of (0::nat) # (H c @ newline # concat (map (fingerprint_line H m) ps))
      = q @ char_of (0::nat) # (H d @ newline # concat (map (fingerprint_line H k) qs'))"
    using Cons.prems(4) fingerprint_line_Some [of m p c H, OF c] fingerprint_line_Some [of k q d H, OF d]
    by (simp add: qs)
  from append_at_mark [OF this] Cons.prems(1) qs
  have pq: "p = q" and rest: "H c @ newline # concat (map (fingerprint_line H m) ps)
      = H d @ newline # concat (map (fingerprint_line H k) qs')" by auto
  from rest have "H c = H d"
    and tl: "concat (map (fingerprint_line H m) ps) = concat (map (fingerprint_line H k) qs')"
    by (auto simp: append_eq_append_conv len)
  moreover have "ps = qs' \<and> (\<forall>p \<in> set ps. map_option H (m p) = map_option H (k p))"
    using Cons.prems qs tl by (intro Cons.IH) auto
  ultimately show ?case using qs pq c d by auto
qed

lemma fingerprint_text_inject:
  assumes nul: "\<forall>p \<in> fst ` set fs \<union> fst ` set gs. char_of (0::nat) \<notin> set p"
    and len: "\<And>s. length (H s) = n"
    and coll: "inj_on H (snd ` set fs \<union> snd ` set gs)"
    and eq: "fingerprint_text H fs = fingerprint_text H gs"
  shows "map_of fs = map_of gs"
proof -
  have d: "\<forall>p \<in> set (sorted_set (map fst fs)). map_of fs p \<noteq> None"
    "\<forall>p \<in> set (sorted_set (map fst gs)). map_of gs p \<noteq> None"
    by (simp_all only: dom_keys [symmetric] set_sorted_set list.set_map) blast+
  have *: "sorted_set (map fst fs) = sorted_set (map fst gs)
      \<and> (\<forall>p \<in> set (sorted_set (map fst fs)). map_option H (map_of fs p) = map_option H (map_of gs p))"
    using nul d eq unfolding fingerprint_text_lines
    by (intro fingerprint_lines_inject [OF _ len]) simp_all
  then have keys: "fst ` set fs = fst ` set gs"
    by (metis list.set_map set_sorted_set)
  have dig: "map_option H (map_of fs p) = map_option H (map_of gs p)" if "p \<in> fst ` set fs" for p
    using * that by (simp only: set_sorted_set list.set_map)
  show ?thesis
  proof
    fix p
    show "map_of fs p = map_of gs p"
    proof (cases "p \<in> fst ` set fs")
      case False
      with keys show ?thesis by (simp add: map_of_eq_None_iff [THEN iffD2])
    next
      case True
      with keys obtain c d where cd: "map_of fs p = Some c" "map_of gs p = Some d"
        by (metis dom_keys not_None_eq)
      then have "c \<in> snd ` set fs \<union> snd ` set gs" "d \<in> snd ` set fs \<union> snd ` set gs"
        by (auto dest!: map_of_SomeD intro: rev_image_eqI)
      with cd dig [OF True] coll show ?thesis by (auto dest: inj_onD)
    qed
  qed
qed

subsection \<open>Line counts\<close>

definition content_lines :: "string option \<Rightarrow> string list" where
  "content_lines c = (case c of None \<Rightarrow> [] | Some s \<Rightarrow> splitlines s)"

lemma counter_minus_mset: "counter_minus xs ys = size (mset xs - mset ys)"
proof -
  have "size (mset xs - mset ys) = (\<Sum>x \<in> set_mset (mset xs - mset ys). count (mset xs - mset ys) x)"
    by (simp add: size_multiset_overloaded_eq)
  also have "\<dots> = (\<Sum>x \<in> set xs. count (mset xs - mset ys) x)"
    by (rule sum.mono_neutral_left) (auto simp: in_diff_count count_eq_zero_iff not_in_iff [symmetric] dest: in_diffD)
  also have "\<dots> = counter_minus xs ys"
    by (simp add: counter_minus_def sum.distinct_set_conv_list [symmetric] count_mset)
  finally show ?thesis by simp
qed

lemma line_delta_mset:
  "line_delta b c = (size (mset (content_lines c) - mset (content_lines b)),
                     size (mset (content_lines b) - mset (content_lines c)))"
  by (cases b; cases c) (simp_all add: line_delta_def content_lines_def counter_minus_mset Let_def)

lemma mset_diff_balance:
  "int (size (A - B)) - int (size (B - A)) = int (size A) - int (size (B :: 'a multiset))"
proof -
  have "A = (A - B) + (A \<inter># B)" "B = (B - A) + (A \<inter># B)"
    by (auto intro!: multiset_eqI)
  then have "size A = size (A - B) + size (A \<inter># B)" "size B = size (B - A) + size (A \<inter># B)"
    by (metis size_union)+
  then show ?thesis by simp
qed

subsection \<open>Protected path components\<close>

lemma component_contains:
  assumes "w \<in> set (split_on d s)"
  shows "contains (s @ [d]) (w @ [d])"
proof -
  from assms obtain xs ys where "split_on d s = xs @ w # ys" by (auto dest: split_list)
  then have s: "s = join_with d (xs @ w # ys)" by (metis join_split)
  have "\<exists>u v. join_with d (xs @ w # ys) @ [d] = u @ (w @ [d]) @ v" for xs
  proof (induction xs)
    case Nil
    then show ?case by (cases ys) (auto intro: exI [of _ "[]"])
  next
    case (Cons x xs)
    then obtain u v where "join_with d (xs @ w # ys) @ [d] = u @ (w @ [d]) @ v" by blast
    moreover have "join_with d ((x # xs) @ w # ys) = x @ d # join_with d (xs @ w # ys)"
      by (cases xs) auto
    ultimately show ?case by (intro exI [of _ "x @ d # u"] exI [of _ v]) simp
  qed
  then show ?thesis by (simp add: s contains_iff)
qed

lemma contains_drop: "contains (drop n s) q \<Longrightarrow> contains s q"
  by (metis contains_iff append_assoc append_take_drop_id)

lemma lower_drop: "lower (drop n s) = drop n (lower s)"
  by (simp add: lower_def drop_map)

lemma split_dot_slash:
  assumes "starts_with s ''./''" and "w \<in> set (split_on (CHR ''/'') s)" and "w \<noteq> ''.''"
  shows "w \<in> set (split_on (CHR ''/'') (drop 2 s))"
proof -
  from assms(1) obtain v where s: "s = ''./'' @ v"
    by (auto simp: starts_with_iff prefix_def)
  from assms(2,3) show ?thesis unfolding s by auto
qed

lemma classify_forbidden_component:
  assumes w: "w \<in> set (split_on (CHR ''/'') (lower (replace_char backslash (CHR ''/'') p)))"
    and m: "w @ ''/'' \<in> set forbidden_markers"
  shows "classify_path p = FORBIDDEN"
proof -
  let ?q = "replace_char backslash (CHR ''/'') p"
  let ?r = "lower (remove_prefix ''./'' ?q)"
  have dot: "w \<noteq> ''.''" using m by (auto simp: forbidden_markers_def)
  have r: "?r = (if starts_with ?q ''./'' then drop 2 (lower ?q) else lower ?q)"
    by (simp add: remove_prefix_def lower_drop numeral_2_eq_2)
  have "w \<in> set (split_on (CHR ''/'') ?r)"
  proof (cases "starts_with ?q ''./''")
    case True
    then have "starts_with (lower ?q) ''./''"
      by (auto simp: starts_with_iff prefix_def lower_def lower_char_def)
    from split_dot_slash [OF this w dot] show ?thesis by (simp add: r True)
  next
    case False
    with w r show ?thesis by simp
  qed
  from component_contains [OF this] have "contains (?r @ ''/'') (w @ ''/'')" .
  with m have "list_ex (contains (?r @ ''/'')) forbidden_markers"
    by (auto simp: list_ex_iff)
  then show ?thesis by (simp add: classify_path_def Let_def)
qed

subsection \<open>Properties\<close>


text \<open>
  The line counts of an entry are the multiset differences of the two line lists, so they
  balance: added minus removed is the change of the number of lines, and both are zero exactly
  when the two contents have the same lines in some order.
\<close>

theorem line_delta_balances:
  "int (fst (line_delta b c)) - int (snd (line_delta b c))
     = int (length (content_lines c)) - int (length (content_lines b))
   \<and> (line_delta b c = (0, 0) \<longleftrightarrow> mset (content_lines b) = mset (content_lines c))"
proof -
  let ?b = "mset (content_lines b)" and ?c = "mset (content_lines c)"
  have "?c - ?b = {#} \<and> ?b - ?c = {#} \<longleftrightarrow> ?b = ?c"
    by (metis Diff_eq_empty_iff_mset subset_mset.antisym subset_mset.order_refl)
  then show ?thesis
    using mset_diff_balance [of ?c ?b] by (simp add: line_delta_mset)
qed

text \<open>
  No spelling of a path hides a protected directory: whatever the case of its letters,
  whichever slash separates its parts and whether or not it starts with a dot part, a path with
  a component \<open>.git\<close>, \<open>.apoapsis\<close>, \<open>.sol\<close>, \<open>.ssh\<close>, \<open>.aws\<close> or \<open>task\<close> is classified
  \<open>FORBIDDEN\<close>.
\<close>

theorem protected_component_forbidden:
  assumes "w \<in> set (split_on (CHR ''/'') (lower (replace_char backslash (CHR ''/'') p)))"
    and "w \<in> {''.git'', ''.apoapsis'', ''.sol'', ''.ssh'', ''.aws'', ''task''}"
  shows "classify_path p = FORBIDDEN"
  using assms by (intro classify_forbidden_component) (auto simp: forbidden_markers_def)

theorem protected_component_forbidden_witness:
  "classify_path (''./Src'' @ [backslash] @ ''.GIT/hooks'') = FORBIDDEN"
proof (rule protected_component_forbidden [of "''.git''"])
  show "''.git'' \<in> set (split_on (CHR ''/'')
      (lower (replace_char backslash (CHR ''/'') (''./Src'' @ [backslash] @ ''.GIT/hooks''))))"
    by code_simp
qed simp

definition sample_base :: tree where
  "sample_base = [(''a.py'', Reg ''x''), (''b'', Dir [(''c.py'', Reg ''y'')])]"

definition sample_candidate :: tree where
  "sample_candidate = [(''a.py'', Reg ''z''), (''d.md'', Reg ''y'')]"


end
