(* ===== verification/Admission_Facts.thy ===== *)
theory Admission_Facts
  imports Admission Delta_Facts
begin

section \<open>What admission guarantees\<close>

text \<open>
  Path safety against a resolver with an explicit stack, the violations against a declarative
  reading of the policy, and the snapshot against the candidate: base plus delta gives the
  candidate's files back, and an admitted snapshot has exactly the files whose fingerprint the
  delta carries.
\<close>

subsection \<open>Path safety\<close>

text \<open>Resolving a relative path: the stack holds the directories entered, innermost first.\<close>

fun resolve :: "string list \<Rightarrow> string list \<Rightarrow> string list option" where
  "resolve stack [] = Some stack"
| "resolve stack (part # parts) =
     (if part = ''..'' then (case stack of [] \<Rightarrow> None | _ # up \<Rightarrow> resolve up parts)
      else if part = ''.'' then resolve stack parts
      else resolve (part # stack) parts)"

definition path_parts :: "path \<Rightarrow> string list" where
  "path_parts p = filter (\<lambda>w. w \<noteq> []) (split_on (CHR ''/'') (replace_char backslash (CHR ''/'') p))"

lemma depth_ok_resolve: "depth_ok (int (length stack)) parts \<longleftrightarrow> resolve stack parts \<noteq> None"
proof (induction stack parts rule: resolve.induct)
  case (1 stack)
  then show ?case by simp
next
  case (2 stack part parts)
  have "depth_ok (1 + int (length stack)) parts \<longleftrightarrow> resolve (part # stack) parts \<noteq> None"
    if "part \<noteq> ''..''" "part \<noteq> ''.''"
    using 2(3) [OF that] by (simp add: add.commute)
  with 2(1,2) show ?case by (auto simp: add.commute split: list.split)
qed

lemma resolve_append:
  "resolve stack (xs @ ys) = (case resolve stack xs of None \<Rightarrow> None | Some st \<Rightarrow> resolve st ys)"
  by (induction stack xs rule: resolve.induct) (auto split: list.split)

lemma is_safe_relative_resolve:
  "is_safe_relative p \<longleftrightarrow>
     \<not> starts_with (replace_char backslash (CHR ''/'') p) ''/''
     \<and> CHR '':'' \<notin> set (hd (split_on (CHR ''/'') (replace_char backslash (CHR ''/'') p)))
     \<and> resolve [] (path_parts p) \<noteq> None"
  using depth_ok_resolve [of "[]" "path_parts p"]
  by (auto simp: is_safe_relative_def Let_def path_parts_def)

subsection \<open>Violations\<close>

text \<open>What the policy says of one entry and of the delta as a whole, one clause per finding.\<close>

fun entry_breaks :: "admission_policy \<Rightarrow> delta_entry \<Rightarrow> admission_finding \<Rightarrow> bool" where
  "entry_breaks policy e UNSAFE_PATH =
     (starts_with (replace_char backslash (CHR ''/'') (de_path e)) ''/''
      \<or> CHR '':'' \<in> set (hd (split_on (CHR ''/'') (replace_char backslash (CHR ''/'') (de_path e))))
      \<or> resolve [] (path_parts (de_path e)) = None)"
| "entry_breaks policy e FORBIDDEN_PATH = (de_class e = FORBIDDEN)"
| "entry_breaks policy e FILE_TOO_LARGE = (de_size e > ap_max_file_bytes policy)"
| "entry_breaks policy e TEST_CHANGE_NOT_PERMITTED = (de_class e = TEST \<and> \<not> ap_tests policy)"
| "entry_breaks policy e DEPENDENCY_CHANGE_NOT_PERMITTED =
     (de_class e = DEPENDENCY \<and> \<not> ap_dependencies policy)"
| "entry_breaks policy e GENERATED_ARTIFACT_PRESENT = (de_class e = GENERATED \<and> \<not> ap_generated policy)"
| "entry_breaks policy e DELETION_NOT_PERMITTED = (de_kind e = DELETED \<and> \<not> ap_deletions policy)"
| "entry_breaks policy e _ = False"

fun delta_breaks :: "admission_policy \<Rightarrow> digest option \<Rightarrow> candidate_delta \<Rightarrow> admission_finding \<Rightarrow> bool" where
  "delta_breaks policy expected d FINGERPRINT_MISMATCH = (\<exists>f. expected = Some f \<and> cd_fingerprint d \<noteq> f)"
| "delta_breaks policy expected d TOO_MANY_FILES = (length (cd_entries d) > ap_max_files policy)"
| "delta_breaks policy expected d TOO_MANY_CHANGED_LINES = ((\<Sum>e\<leftarrow>cd_entries d. de_added e + de_removed e) > ap_max_changed_lines policy)"
| "delta_breaks policy expected d EMPTY_DELTA = (cd_entries d = [])"
| "delta_breaks policy expected d _ = False"

lemma entry_violations_iff:
  "v \<in> set (entry_violations policy e) \<longleftrightarrow>
     av_path v = Some (de_path e) \<and> entry_breaks policy e (av_finding v)"
  by (cases v; cases "av_finding v")
    (auto simp: entry_violations_def violation_def is_safe_relative_resolve)

lemma admission_violations_iff:
  "v \<in> set (admission_violations d policy expected) \<longleftrightarrow>
     (case av_path v of
        None \<Rightarrow> delta_breaks policy expected d (av_finding v)
      | Some p \<Rightarrow> (av_finding v = NON_REGULAR_FILE \<and> p \<in> set (cd_skipped d))
          \<or> (\<exists>e \<in> set (cd_entries d). de_path e = p \<and> entry_breaks policy e (av_finding v)))"
proof (cases "av_path v")
  case None
  then show ?thesis
    by (cases v; cases "av_finding v")
      (auto simp: admission_violations_def entry_violations_iff whole_violation_def violation_def
        delta_is_empty_def delta_changed_lines_def entry_changed_lines_def [abs_def] split: option.splits)
next
  case (Some p)
  then show ?thesis
    by (cases v) (auto simp: admission_violations_def entry_violations_iff whole_violation_def
        violation_def split: option.splits)
qed

lemma bump_count: "map_of (bump k xs) j = (if j = k then Some (case map_of xs k of None \<Rightarrow> 1 | Some n \<Rightarrow> n + 1) else map_of xs j)"
  by (induction xs) auto

lemma bump_total: "sum_list (map snd (bump k xs)) = Suc (sum_list (map snd xs))"
  by (induction xs) auto

lemma counts_of_total: "sum_list (map snd (counts_of f xs)) = length xs"
proof -
  have "sum_list (map snd (fold (\<lambda>x. bump (f x)) xs acc)) = length xs + sum_list (map snd acc)" for acc
    by (induction xs arbitrary: acc) (simp_all add: bump_total)
  then show ?thesis by (simp add: counts_of_def)
qed

lemma counts_of_count:
  "map_of (counts_of f xs) k = (let n = length (filter (\<lambda>x. f x = k) xs) in if n = 0 then None else Some n)"
proof -
  have "map_of (fold (\<lambda>x. bump (f x)) xs acc) k =
      (let n = length (filter (\<lambda>x. f x = k) xs) in
       if n = 0 then map_of acc k else Some (n + (case map_of acc k of None \<Rightarrow> 0 | Some m \<Rightarrow> m)))" for acc
    by (induction xs arbitrary: acc) (auto simp: bump_count Let_def split: option.splits)
  then show ?thesis by (simp add: counts_of_def Let_def)
qed

subsection \<open>The snapshot\<close>

text \<open>
  A base tree that the copy and the walk see alike: no links (the copy follows them, the walk
  does not) and no \<open>.apoapsis\<close> or \<open>.sol\<close> (ignored by the copy alone).
\<close>

fun plain_tree :: "tree \<Rightarrow> bool" and plain_node :: "string \<Rightarrow> node \<Rightarrow> bool" where
  "plain_tree [] = True"
| "plain_tree ((n, x) # rest) = (plain_node n x \<and> plain_tree rest)"
| "plain_node n (Dir es) = (n \<noteq> ''.apoapsis'' \<and> n \<noteq> ''.sol'' \<and> plain_tree es)"
| "plain_node n (Reg c) = (n \<noteq> ''.apoapsis'' \<and> n \<noteq> ''.sol'')"
| "plain_node n (LinkFile c) = False"
| "plain_node n (LinkDir es) = False"
| "plain_node n Special = True"

lemma copy_ignored:
  "n \<noteq> ''.apoapsis'' \<Longrightarrow> n \<noteq> ''.sol'' \<Longrightarrow> n \<in> set copy_ignored_names \<longleftrightarrow> n \<in> set excluded_metadata_names"
  by (auto simp: copy_ignored_names_def excluded_metadata_names_def)

lemma walk_fields [simp]:
  "w_files no_walk = []" "w_files (join_walk a b) = w_files a @ w_files b"
  "sn_files empty_snapshot = []" "sn_files (join_snapshot c d) = sn_files c @ sn_files d"
  by (simp_all add: no_walk_def join_walk_def empty_snapshot_def join_snapshot_def)

lemma copy_files_walk:
  "\<forall>s. copy_tree pre t = Some s \<longrightarrow> plain_tree t \<longrightarrow> sn_files s = w_files (walk_tree pre t)"
  "\<forall>s. copy_node pre' n x = Some s \<longrightarrow> plain_node n x \<longrightarrow> sn_files s = w_files (walk_node pre' n x)"
proof (induction pre t and pre' n x rule: copy_tree_copy_node.induct)
  case (2 pre n x rest)
  show ?case
  proof (intro allI impI)
    fix s assume c: "copy_tree pre ((n, x) # rest) = Some s" and pl: "plain_tree ((n, x) # rest)"
    then obtain a b where ab: "copy_node pre n x = Some a" "copy_tree pre rest = Some b"
      and s: "s = join_snapshot a b"
      by (auto split: option.splits)
    have "sn_files a = w_files (walk_node pre n x)" using 2(1) ab(1) pl by simp
    moreover have "sn_files b = w_files (walk_tree pre rest)" using 2(2) ab pl by simp
    ultimately show "sn_files s = w_files (walk_tree pre ((n, x) # rest))" by (simp add: s)
  qed
next
  case (5 pre n es)
  then show ?case
    by (cases "n \<in> set excluded_metadata_names") (auto simp: copy_ignored)
next
  case (7 pre n)
  then show ?case
    by (cases "n \<in> set copy_ignored_names") simp_all
qed (simp_all add: copy_ignored)

lemma apply_entry_files:
  "apply_entry source e s = Some s' \<Longrightarrow>
     map_of (sn_files s') p =
       (if p = de_path e then (if de_kind e = DELETED then None else source p)
        else map_of (sn_files s) p)"
  by (auto simp: apply_entry_def remove_file_def map_of_remove_file map_add_def
      split: if_splits option.splits)

lemma apply_entries_files:
  "apply_entries source es s = Some s' \<Longrightarrow> distinct (map de_path es) \<Longrightarrow>
     map_of (sn_files s') p =
       (case entry_at es p of None \<Rightarrow> map_of (sn_files s) p
        | Some e \<Rightarrow> if de_kind e = DELETED then None else source p)"
proof (induction es arbitrary: s)
  case Nil
  then show ?case by (simp add: entry_at_def)
next
  case (Cons e es)
  then obtain s1 where s1: "apply_entry source e s = Some s1" "apply_entries source es s1 = Some s'"
    by (auto split: option.splits)
  have new: "entry_at es (de_path e) = None"
    using Cons.prems(2) by (simp add: entry_at_def find_None_iff_none) (metis imageI)
  show ?case
    using Cons.IH [OF s1(2)] Cons.prems(2) new apply_entry_files [OF s1(1)]
    by (auto simp: entry_at_def split: option.splits)
qed

lemma visible_files_lookup:
  "map_of (visible_files s) p =
     (if list_all (\<lambda>w. w \<notin> set excluded_metadata_names) (split_on (CHR ''/'') p) then map_of (sn_files s) p else None)"
  unfolding visible_files_def
  by (rule map_of_filter_key [where P = "\<lambda>p. list_all (\<lambda>w. w \<notin> set excluded_metadata_names) (split_on (CHR ''/'') p)"])

text \<open>File names as the operating system guarantees them: no separator and no NUL.\<close>

definition posix_name :: "string \<Rightarrow> bool" where
  "posix_name n = (CHR ''/'' \<notin> set n \<and> char_of (0::nat) \<notin> set n)"

fun posix_tree :: "tree \<Rightarrow> bool" and posix_node :: "node \<Rightarrow> bool" where
  "posix_tree [] = True"
| "posix_tree ((n, x) # rest) = (posix_name n \<and> posix_node x \<and> posix_tree rest)"
| "posix_node (Dir es) = posix_tree es"
| "posix_node _ = True"

lemma nul_not_slash: "char_of (0::nat) \<noteq> CHR ''/''"
  by code_simp

definition visible_path :: "path \<Rightarrow> bool" where
  "visible_path p = list_all (\<lambda>w. w \<notin> set excluded_metadata_names) (split_on (CHR ''/'') p)"

lemma visible_path_plain: "posix_name n \<Longrightarrow> n \<notin> set excluded_metadata_names \<Longrightarrow> visible_path n"
  by (simp add: visible_path_def posix_name_def split_on_plain)

lemma visible_path_below:
  "posix_name n \<Longrightarrow> n \<notin> set excluded_metadata_names \<Longrightarrow> visible_path (n @ CHR ''/'' # q) \<longleftrightarrow> visible_path q"
  by (simp add: visible_path_def posix_name_def split_on_append_sep)

lemma walk_paths_below:
  "posix_tree t \<Longrightarrow> p \<in> fst ` set (w_files (walk_tree pre t)) \<Longrightarrow>
     \<exists>q. p = pre @ q \<and> visible_path q \<and> char_of (0::nat) \<notin> set q"
  "posix_name n \<and> posix_node x \<Longrightarrow> p \<in> fst ` set (w_files (walk_node pre' n x)) \<Longrightarrow>
     \<exists>q. p = pre' @ q \<and> visible_path q \<and> char_of (0::nat) \<notin> set q"
proof (induction pre t and pre' n x rule: walk_tree_walk_node.induct)
  case (2 pre n x rest)
  then show ?case by (auto simp: image_Un)
next
  case (3 pre n c)
  then show ?case by (auto simp: visible_path_plain posix_name_def split: if_splits)
next
  case (4 pre n es)
  then have ex: "n \<notin> set excluded_metadata_names"
    and p: "p \<in> fst ` set (w_files (walk_tree (pre @ n @ ''/'') es))"
    by (auto split: if_splits)
  from 4(1) [OF ex _ p] 4(2) obtain q where
    "p = (pre @ n @ ''/'') @ q" "visible_path q" "char_of (0::nat) \<notin> set q" by auto
  with 4(2) ex show ?case
    by (intro exI [of _ "n @ CHR ''/'' # q"]) (auto simp: visible_path_below posix_name_def nul_not_slash)
qed (auto split: if_splits)

lemma walked_path:
  "posix_tree t \<Longrightarrow> walked t p \<noteq> None \<Longrightarrow> visible_path p \<and> char_of (0::nat) \<notin> set p"
  unfolding walked_keys [symmetric] walk_def by (auto dest: walk_paths_below(1))

lemma delta_fingerprint [simp]:
  "cd_fingerprint (compute_delta H commit base candidate) = tree_fingerprint H candidate"
  by (simp add: compute_delta_def Let_def)

lemma readable_walked: "walked t p = Some c \<Longrightarrow> readable_at t p = Some c"
  by (simp add: readable_at_def walked_def)

text \<open>Base plus delta is the candidate.\<close>

lemma reconstruct_files:
  assumes plain: "plain_tree base" and coll: "inj_on H (ran (walked base) \<union> ran (walked candidate))"
    and s: "reconstruct_candidate base candidate (compute_delta H commit base candidate) = Some s"
  shows "map_of (sn_files s) = walked candidate"
proof
  fix p
  let ?d = "compute_delta H commit base candidate"
  from s obtain s0 where s0: "copy_tree [] base = Some s0"
    and ap: "apply_entries (readable_at candidate) (cd_entries ?d) s0 = Some s"
    by (auto simp: reconstruct_candidate_def split: option.splits)
  have base: "map_of (sn_files s0) = walked base"
    using copy_files_walk(1) [of "[]" base] s0 plain by (simp add: walked_def walk_def)
  have "map_of (sn_files s) p =
       (case entry_at (cd_entries ?d) p of None \<Rightarrow> walked base p
        | Some e \<Rightarrow> if de_kind e = DELETED then None else readable_at candidate p)"
    using apply_entries_files [OF ap delta_paths_distinct, of p] unfolding base .
  also have "\<dots> = walked candidate p"
  proof (cases "entry_at (cd_entries ?d) p")
    case None
    then have "walked base p = None \<and> walked candidate p = None
        \<or> delta_entry_for H (walked base) (walked candidate) p = None"
      by (auto simp: delta_entry_at split: if_splits)
    moreover have "walked base p = walked candidate p"
      if "delta_entry_for H (walked base) (walked candidate) p = None"
      using that coll by (auto simp: delta_entry_for_None ran_def dest: inj_onD)
    ultimately show ?thesis using None by auto
  next
    case (Some e)
    then have "delta_entry_for H (walked base) (walked candidate) p = Some e"
      and "walked base p \<noteq> None \<or> walked candidate p \<noteq> None"
      by (auto simp: delta_entry_at split: if_splits)
    from delta_entry_for_kind [OF this(1)] this(2) Some readable_walked [of candidate p] show ?thesis by auto
  qed
  finally show "map_of (sn_files s) p = walked candidate p" .
qed

lemma visible_files_all:
  assumes "\<And>p. map_of (sn_files s) p \<noteq> None \<Longrightarrow> visible_path p"
  shows "map_of (visible_files s) = map_of (sn_files s)"
proof
  fix p
  show "map_of (visible_files s) p = map_of (sn_files s) p"
    using assms [of p] by (cases "map_of (sn_files s) p") (simp_all add: visible_files_lookup visible_path_def)
qed

text \<open>What a returned decision can be: a refusal by the policy, by the rebuilt fingerprint, or an admission.\<close>

lemma admit_candidate_result:
  assumes "admit_candidate H base candidate delta root pol expected spike = Inr (d, disk)"
  shows "(spike = None \<or> require_slice3_unblocked spike \<noteq> None)
     \<and> (let dec = evaluate_admission delta pol expected in
          (\<not> ad_admitted dec \<and> d = dec \<and> disk = None)
          \<or> (ad_admitted dec \<and> d = reconstruction_mismatch dec delta \<and> disk = None)
          \<or> (ad_admitted dec \<and> d = dec\<lparr>ad_snapshot := Some root\<rparr>
             \<and> (\<exists>s. disk = Some s \<and> reconstruct_candidate base candidate delta = Some s
                  \<and> snapshot_fingerprint H s = cd_fingerprint delta)))"
proof (cases "spike \<noteq> None \<and> require_slice3_unblocked spike = None")
  case True
  with assms show ?thesis by (simp add: admit_candidate_def)
next
  case False
  with assms show ?thesis
    by (cases "ad_admitted (evaluate_admission delta pol expected)";
        cases "reconstruct_candidate base candidate delta")
      (auto simp: admit_candidate_def Let_def split: if_splits)
qed

lemma evaluate_admission_fields:
  "ad_admitted (evaluate_admission delta pol expected) \<longleftrightarrow> ad_violations (evaluate_admission delta pol expected) = []"
  "ad_violations (evaluate_admission delta pol expected) =
     admission_violations delta (case pol of None \<Rightarrow> default_policy | Some p \<Rightarrow> p) expected"
  "ad_snapshot (evaluate_admission delta pol expected) = None"
  by (simp_all add: evaluate_admission_def Let_def)

subsection \<open>Properties\<close>

text \<open>
  The lexical check of a path is exact. A path passes exactly when it is neither absolute
  nor drive-qualified and no prefix of its parts, resolved from the root of the tree, leaves it.
\<close>

theorem safe_path_never_escapes:
  "is_safe_relative p \<longleftrightarrow>
     \<not> starts_with (replace_char backslash (CHR ''/'') p) ''/''
     \<and> CHR '':'' \<notin> set (hd (split_on (CHR ''/'') (replace_char backslash (CHR ''/'') p)))
     \<and> (\<forall>k. resolve [] (take k (path_parts p)) \<noteq> None)"
proof -
  have "resolve [] (path_parts p) \<noteq> None \<longleftrightarrow> (\<forall>k. resolve [] (take k (path_parts p)) \<noteq> None)"
  proof
    assume r: "resolve [] (path_parts p) \<noteq> None"
    show "\<forall>k. resolve [] (take k (path_parts p)) \<noteq> None"
    proof
      fix k
      show "resolve [] (take k (path_parts p)) \<noteq> None"
        using r resolve_append [of "[]" "take k (path_parts p)" "drop k (path_parts p)"] by (auto split: option.splits)
    qed
  next
    assume "\<forall>k. resolve [] (take k (path_parts p)) \<noteq> None"
    then have "resolve [] (take (length (path_parts p)) (path_parts p)) \<noteq> None" by blast
    then show "resolve [] (path_parts p) \<noteq> None" by simp
  qed
  then show ?thesis by (simp add: is_safe_relative_resolve)
qed

text \<open>
  C25: admission judges the whole delta in one pass. Its violations are exactly the findings the
  policy has against an entry (with its path), against a skipped file (with its path) or against the
  delta as a whole (without a path), each under its own code; it admits when there is none. It counts
  the entries and, for every class and every kind, the entries of that class and of that kind.
\<close>

theorem admission_reports_every_violation:
  "let policy = (case pol of None \<Rightarrow> default_policy | Some p \<Rightarrow> p);
       dec = evaluate_admission d pol expected in
     (ad_admitted dec \<longleftrightarrow> (\<forall>f. \<not> delta_breaks policy expected d f) \<and> cd_skipped d = []
        \<and> (\<forall>e \<in> set (cd_entries d). \<forall>f. \<not> entry_breaks policy e f))
     \<and> {(f, p). \<lparr>av_finding = f, av_path = Some p\<rparr> \<in> set (ad_violations dec)}
        = {(NON_REGULAR_FILE, p) |p. p \<in> set (cd_skipped d)}
          \<union> {(f, de_path e) |f e. e \<in> set (cd_entries d) \<and> entry_breaks policy e f}
     \<and> {f. \<lparr>av_finding = f, av_path = None\<rparr> \<in> set (ad_violations dec)} = {f. delta_breaks policy expected d f}
     \<and> ad_file_count dec = length (cd_entries d)
     \<and> (\<forall>c. (case map_of (ad_by_class dec) c of None \<Rightarrow> 0 | Some n \<Rightarrow> n)
            = length (filter (\<lambda>e. de_class e = c) (cd_entries d)))
     \<and> (\<forall>k. (case map_of (ad_by_kind dec) k of None \<Rightarrow> 0 | Some n \<Rightarrow> n)
            = length (filter (\<lambda>e. de_kind e = k) (cd_entries d)))"
proof -
  let ?p = "case pol of None \<Rightarrow> default_policy | Some p \<Rightarrow> p"
  let ?vs = "admission_violations d ?p expected"
  have empty: "?vs = [] \<longleftrightarrow> (\<forall>v. v \<notin> set ?vs)" by auto
  have none: "?vs = [] \<longleftrightarrow> (\<forall>f. \<not> delta_breaks ?p expected d f) \<and> cd_skipped d = []
        \<and> (\<forall>e \<in> set (cd_entries d). \<forall>f. \<not> entry_breaks ?p e f)"
  proof (intro iffI conjI allI ballI)
    fix f assume "?vs = []"
    then show "\<not> delta_breaks ?p expected d f"
      using admission_violations_iff [of "whole_violation f" d ?p expected]
      by (simp add: whole_violation_def)
  next
    assume "?vs = []"
    then show "cd_skipped d = []" by (simp add: admission_violations_def)
  next
    fix e f assume "?vs = []" "e \<in> set (cd_entries d)"
    then show "\<not> entry_breaks ?p e f"
      using admission_violations_iff [of "violation f (de_path e)" d ?p expected]
      by (auto simp: violation_def)
  next
    assume "(\<forall>f. \<not> delta_breaks ?p expected d f) \<and> cd_skipped d = []
        \<and> (\<forall>e \<in> set (cd_entries d). \<forall>f. \<not> entry_breaks ?p e f)"
    then show "?vs = []"
      unfolding empty admission_violations_iff by (auto split: option.split)
  qed
  have counted: "(case map_of (counts_of f xs) k of None \<Rightarrow> 0 | Some n \<Rightarrow> n) = length (filter (\<lambda>x. f x = k) xs)"
    for f :: "delta_entry \<Rightarrow> 'k" and xs k
    by (simp add: counts_of_count Let_def)
  have fields: "ad_admitted (evaluate_admission d pol expected) \<longleftrightarrow> ?vs = []"
    "ad_violations (evaluate_admission d pol expected) = ?vs"
    "ad_file_count (evaluate_admission d pol expected) = length (cd_entries d)"
    "ad_by_class (evaluate_admission d pol expected) = counts_of de_class (cd_entries d)"
    "ad_by_kind (evaluate_admission d pol expected) = counts_of de_kind (cd_entries d)"
    by (simp_all add: evaluate_admission_def Let_def)
  have listed: "{(f, p). \<lparr>av_finding = f, av_path = Some p\<rparr> \<in> set ?vs} = {(NON_REGULAR_FILE, p) |p. p \<in> set (cd_skipped d)}
      \<union> {(f, de_path e) |f e. e \<in> set (cd_entries d) \<and> entry_breaks ?p e f}"
    "{f. \<lparr>av_finding = f, av_path = None\<rparr> \<in> set ?vs} = {f. delta_breaks ?p expected d f}"
    by (auto simp: admission_violations_iff)
  show ?thesis
    unfolding Let_def fields listed none counted by blast
qed

text \<open>
  A refusal leaves nothing behind. Whatever the trees hold, the call either stops because
  the gate is closed or the file system raised, or it returns a decision in which admission, the
  absence of violations, the recorded snapshot root and the snapshot on disk go together; and an
  admitted candidate passed the gate when a report was given, and the whole policy.
\<close>

theorem refusal_leaves_no_snapshot:
  assumes "admit_candidate H base candidate delta root pol expected spike = Inr (d, disk)"
  shows "(ad_admitted d \<longleftrightarrow> disk \<noteq> None) \<and> (ad_admitted d \<longleftrightarrow> ad_violations d = [])
     \<and> ad_snapshot d = (if ad_admitted d then Some root else None)
     \<and> (ad_admitted d \<longrightarrow> ad_admitted (evaluate_admission delta pol expected))
     \<and> (spike \<noteq> None \<longrightarrow> require_slice3_unblocked spike \<noteq> None)"
  using admit_candidate_result [OF assms] evaluate_admission_fields [of delta pol expected]
  by (auto simp: Let_def reconstruction_mismatch_def)

text \<open>
  An acceptable candidate is admitted as it is. For a base without links or ignored names
  and operating-system file names, when the policy admits the delta of the two trees and the
  file operations succeed, the snapshot holds exactly the candidate's walked files, its
  fingerprint is the candidate's, and the decision admits it.
\<close>

theorem admissible_candidate_is_admitted:
  assumes plain: "plain_tree base" and names: "posix_tree candidate"
    and coll: "inj_on H (ran (walked base) \<union> ran (walked candidate))"
    and ok: "ad_admitted (evaluate_admission (compute_delta H commit base candidate) pol expected)"
    and s: "reconstruct_candidate base candidate (compute_delta H commit base candidate) = Some s"
  shows "admit_candidate H base candidate (compute_delta H commit base candidate) root pol expected None
       = Inr ((evaluate_admission (compute_delta H commit base candidate) pol expected)
                \<lparr>ad_snapshot := Some root\<rparr>, Some s)
     \<and> map_of (sn_files s) = walked candidate
     \<and> snapshot_fingerprint H s = tree_fingerprint H candidate"
proof -
  from reconstruct_files [OF plain coll s] have files: "map_of (sn_files s) = walked candidate" .
  have "map_of (visible_files s) = map_of (w_files (walk candidate))"
    using visible_files_all [of s] walked_path [OF names] by (simp add: files walked_def)
  from fingerprint_text_cong [OF this]
  have "snapshot_fingerprint H s = tree_fingerprint H candidate"
    by (simp add: snapshot_fingerprint_def tree_fingerprint_def)
  with files ok s show ?thesis
    by (simp add: admit_candidate_def Let_def delta_fingerprint)
qed

text \<open>
  C24: an admitted snapshot is the frozen candidate. The delta carries the fingerprint of the
  tree it was computed from; whatever the base and the candidate directory hold when admission
  runs, later writes by the agent included, an admitted snapshot has exactly the files of that
  tree. Digests have one length, and the texts hashed here do not collide.
\<close>

theorem admitted_snapshot_is_frozen_candidate:
  assumes adm: "admit_candidate H base candidate delta root pol expected spike = Inr (d, Some s)"
    and frozen: "cd_fingerprint delta = tree_fingerprint H tree" and names: "posix_tree tree"
    and paths: "\<forall>p \<in> fst ` set (sn_files s). char_of (0::nat) \<notin> set p"
    and len: "\<forall>t. length (H t) = n"
    and coll: "inj_on H ({fingerprint_text H (visible_files s), fingerprint_text H (w_files (walk tree))}
                 \<union> snd ` set (visible_files s) \<union> snd ` set (w_files (walk tree)))"
  shows "map_of (visible_files s) = walked tree"
proof -
  have "snapshot_fingerprint H s = cd_fingerprint delta"
    using adm by (auto simp: admit_candidate_def Let_def split: if_splits option.splits)
  then have "H (fingerprint_text H (visible_files s)) = H (fingerprint_text H (w_files (walk tree)))"
    by (simp add: frozen snapshot_fingerprint_def tree_fingerprint_def)
  with coll have eq: "fingerprint_text H (visible_files s) = fingerprint_text H (w_files (walk tree))"
    by (auto dest: inj_onD)
  have nul: "\<forall>p \<in> fst ` set (visible_files s) \<union> fst ` set (w_files (walk tree)). char_of (0::nat) \<notin> set p"
  proof
    fix p assume "p \<in> fst ` set (visible_files s) \<union> fst ` set (w_files (walk tree))"
    then show "char_of (0::nat) \<notin> set p"
      using paths walked_path [OF names, of p] by (auto simp only: Un_iff walked_keys) (auto simp: visible_files_def)
  qed
  have inj: "inj_on H (snd ` set (visible_files s) \<union> snd ` set (w_files (walk tree)))"
    using coll by (rule inj_on_subset) auto
  show ?thesis
    unfolding walked_def using fingerprint_text_inject [OF nul _ inj eq] len by blast
qed

definition sample_snapshot :: snapshot where
  "sample_snapshot = \<lparr>sn_dirs = [''b''], sn_files = [(''a.py'', ''z''), (''d.md'', ''y'')]\<rparr>"

definition sample_policy :: admission_policy where
  "sample_policy = \<lparr>ap_max_files = 5, ap_max_changed_lines = 9, ap_max_file_bytes = 9,
     ap_tests = True, ap_dependencies = False, ap_deletions = True, ap_generated = False\<rparr>"

definition sample_delta :: candidate_delta where
  "sample_delta = \<lparr>cd_base_commit = None,
     cd_fingerprint = ''a.py'' @ [char_of (0::nat)] @ ''z'' @ [newline] @ ''d.md'' @ [char_of (0::nat)] @ ''y'' @ [newline],
     cd_entries =
       [\<lparr>de_path = ''a.py'', de_kind = MODIFIED, de_class = PRODUCTION, de_base = Some ''x'',
         de_candidate = Some ''z'', de_added = 1, de_removed = 1, de_binary = False, de_size = 1\<rparr>,
        \<lparr>de_path = ''b/c.py'', de_kind = DELETED, de_class = PRODUCTION, de_base = Some ''y'',
         de_candidate = None, de_added = 0, de_removed = 1, de_binary = False, de_size = 0\<rparr>,
        \<lparr>de_path = ''d.md'', de_kind = ADDED, de_class = DOCUMENTATION, de_base = None,
         de_candidate = Some ''y'', de_added = 1, de_removed = 0, de_binary = False, de_size = 1\<rparr>],
     cd_skipped = [], cd_excluded = []\<rparr>"

lemma sample_delta_computed: "compute_delta (\<lambda>s. s) None sample_base sample_candidate = sample_delta"
  by code_simp

lemma sample_reconstruct:
  "reconstruct_candidate sample_base sample_candidate
     (compute_delta (\<lambda>s. s) None sample_base sample_candidate) = Some sample_snapshot"
  unfolding sample_delta_computed by code_simp

lemma sample_admitted: "ad_admitted (evaluate_admission sample_delta (Some sample_policy) None)"
  by code_simp

theorem admissible_candidate_is_admitted_witness:
  "ad_admitted (evaluate_admission (compute_delta (\<lambda>s. s) None sample_base sample_candidate) (Some sample_policy) None)
   \<and> map_of (sn_files sample_snapshot) = walked sample_candidate"
proof -
  have "plain_tree sample_base" by (simp add: sample_base_def)
  moreover have "posix_tree sample_candidate" by code_simp
  moreover have "ad_admitted (evaluate_admission (compute_delta (\<lambda>s. s) None sample_base sample_candidate) (Some sample_policy) None)"
    unfolding sample_delta_computed by (rule sample_admitted)
  ultimately show ?thesis
    using admissible_candidate_is_admitted [OF _ _ _ _ sample_reconstruct, of "Some sample_policy" None]
    by simp
qed

text \<open>A toy hash of fixed length, distinct on the few texts of the example.\<close>

definition toy_hash :: "string \<Rightarrow> digest" where
  "toy_hash s = take 60 (s @ replicate 60 (CHR ''.''))"

lemma toy_hash_length: "length (toy_hash s) = 60"
  by (simp add: toy_hash_def)

definition tiny_base :: tree where
  "tiny_base = []"

definition tiny_candidate :: tree where
  "tiny_candidate = [(''a'', Reg ''x'')]"

definition tiny_snapshot :: snapshot where
  "tiny_snapshot = \<lparr>sn_dirs = [], sn_files = [(''a'', ''x'')]\<rparr>"

theorem admitted_snapshot_is_frozen_candidate_witness:
  "admit_candidate toy_hash tiny_base tiny_candidate (compute_delta toy_hash None tiny_base tiny_candidate)
      ''/snap'' (Some sample_policy) None None
    = Inr ((evaluate_admission (compute_delta toy_hash None tiny_base tiny_candidate) (Some sample_policy) None)
             \<lparr>ad_snapshot := Some ''/snap''\<rparr>, Some tiny_snapshot)
   \<and> map_of (visible_files tiny_snapshot) = walked tiny_candidate"
proof -
  let ?d = "compute_delta toy_hash None tiny_base tiny_candidate"
  have rec: "reconstruct_candidate tiny_base tiny_candidate ?d = Some tiny_snapshot" by code_simp
  have ok: "ad_admitted (evaluate_admission ?d (Some sample_policy) None)" by code_simp
  have names: "posix_tree tiny_candidate" by code_simp
  have "plain_tree tiny_base" by (simp add: tiny_base_def)
  moreover have "inj_on toy_hash (ran (walked tiny_base) \<union> ran (walked tiny_candidate))"
    by (simp add: walked_def walk_def tiny_base_def tiny_candidate_def excluded_metadata_names_def ran_def)
  ultimately have adm: "admit_candidate toy_hash tiny_base tiny_candidate ?d ''/snap'' (Some sample_policy) None None
    = Inr ((evaluate_admission ?d (Some sample_policy) None)\<lparr>ad_snapshot := Some ''/snap''\<rparr>, Some tiny_snapshot)"
    using ok rec names
    by (simp add: admit_candidate_def snapshot_fingerprint_def tree_fingerprint_def visible_files_def
        tiny_snapshot_def tiny_candidate_def walk_def excluded_metadata_names_def Let_def)
  have files: "visible_files tiny_snapshot = [(''a'', ''x'')]" "w_files (walk tiny_candidate) = [(''a'', ''x'')]"
    by (simp_all add: visible_files_def tiny_snapshot_def tiny_candidate_def walk_def excluded_metadata_names_def no_walk_def)
  have nul: "\<forall>p \<in> fst ` set (sn_files tiny_snapshot). char_of (0::nat) \<notin> set p" by code_simp
  have coll: "inj_on toy_hash ({fingerprint_text toy_hash (visible_files tiny_snapshot),
      fingerprint_text toy_hash (w_files (walk tiny_candidate))}
      \<union> snd ` set (visible_files tiny_snapshot) \<union> snd ` set (w_files (walk tiny_candidate)))"
    unfolding files by code_simp
  show ?thesis
    using admitted_snapshot_is_frozen_candidate [OF adm _ names nul _ coll] adm
    by (simp add: toy_hash_length)
qed

theorem refusal_leaves_no_snapshot_witness:
  "\<exists>d. admit_candidate toy_hash tiny_base tiny_base (compute_delta toy_hash None tiny_base tiny_base)
      ''/snap'' (Some sample_policy) None None = Inr (d, None) \<and> \<not> ad_admitted d \<and> ad_violations d \<noteq> []"
proof -
  let ?d = "compute_delta toy_hash None tiny_base tiny_base"
  have "\<not> ad_admitted (evaluate_admission ?d (Some sample_policy) None)" by code_simp
  then have r: "admit_candidate toy_hash tiny_base tiny_base ?d ''/snap'' (Some sample_policy) None None
      = Inr (evaluate_admission ?d (Some sample_policy) None, None)"
    by (simp add: admit_candidate_def)
  from refusal_leaves_no_snapshot [OF r] r show ?thesis by blast
qed

theorem admission_reports_every_violation_witness:
  "cd_skipped sample_delta = [] \<and> \<not> entry_breaks sample_policy (hd (cd_entries sample_delta)) FORBIDDEN_PATH
   \<and> (case map_of (ad_by_kind (evaluate_admission sample_delta (Some sample_policy) None)) DELETED of
        None \<Rightarrow> 0 | Some n \<Rightarrow> n) = (1::nat)"
proof -
  have ne: "cd_entries sample_delta \<noteq> []" by (simp add: sample_delta_def)
  note * = admission_reports_every_violation [of "Some sample_policy" sample_delta None, unfolded Let_def option.case(2)]
  from conjunct1 [OF *] sample_admitted have "cd_skipped sample_delta = []"
    and "\<forall>e \<in> set (cd_entries sample_delta). \<forall>f. \<not> entry_breaks sample_policy e f" by blast+
  moreover have "length (filter (\<lambda>e. de_kind e = DELETED) (cd_entries sample_delta)) = 1"
    by (simp add: sample_delta_def)
  moreover have "(case map_of (ad_by_kind (evaluate_admission sample_delta (Some sample_policy) None)) DELETED of
        None \<Rightarrow> 0 | Some n \<Rightarrow> n) = length (filter (\<lambda>e. de_kind e = DELETED) (cd_entries sample_delta))"
    using * by blast
  ultimately show ?thesis using hd_in_set [OF ne] by metis
qed

end
