(* ===== verification/Checkpoint.thy ===== *)
theory Checkpoint
  imports Readiness Admission_Facts
begin

section \<open>One checkpoint end to end (workcell/checkpoint.py)\<close>

text \<open>
  \<open>run_checkpoint\<close> computes the delta, admits it, lets an emitter produce witnesses over the
  admitted snapshot, evaluates readiness and decides; diagnostics are collected afterwards. The
  emitter and the diagnostics collector are callbacks that run commands in the snapshot
  directory: each is a function of the snapshot and the fingerprint that returns the snapshot it
  leaves and a result, an \<open>Inl\<close> for an exception.
\<close>

type_synonym emitter = "snapshot \<Rightarrow> digest \<Rightarrow> snapshot \<times> (string + structured_witness list)"
type_synonym 'r collector = "snapshot \<Rightarrow> digest \<Rightarrow> snapshot \<times> (string + 'r)"

text \<open>A diagnostics report, or the "not checked" report that records a failed collection.\<close>

datatype 'r diagnostic_outcome = Collected 'r | Not_Checked string

record 'r checkpoint_record =
  cr_slice :: string
  cr_fingerprint :: digest
  cr_admission :: admission_decision
  cr_readiness :: "readiness_report option"
  cr_decision :: checkpoint_decision
  cr_units :: "behaviour_unit list"
  cr_witness_ids :: "string list"
  cr_emitter_error :: "string option"
  cr_diagnostics :: "'r diagnostic_outcome option"

definition paths_in :: "snapshot \<Rightarrow> path list" where
  "paths_in s = map fst (visible_files s)"

definition empty_report :: "acceptance_contract \<Rightarrow> readiness_report" where
  "empty_report contract = \<lparr>rr_slice = ac_slice contract, rr_ready = False, rr_obligations = [],
     rr_findings = [], rr_rejected = [], rr_units = [], rr_unexercised = []\<rparr>"

definition collect_step ::
  "'r collector option \<Rightarrow> snapshot \<Rightarrow> digest \<Rightarrow> 'r diagnostic_outcome option" where
  "collect_step collect s f =
     (case collect of None \<Rightarrow> None
      | Some run \<Rightarrow> (case snd (run s f) of
            Inl e \<Rightarrow> Some (Not_Checked e) | Inr r \<Rightarrow> Some (Collected r)))"

text \<open>From the admitted snapshot to the record.\<close>

definition after_admission ::
  "py_parser \<Rightarrow> acceptance_contract \<Rightarrow> tree \<Rightarrow> candidate_delta \<Rightarrow> admission_decision \<Rightarrow> snapshot
    \<Rightarrow> emitter \<Rightarrow> 'r collector option \<Rightarrow> 'r checkpoint_record" where
  "after_admission parse contract base delta admission s emit collect =
     (let behaviour = changed_behaviour parse delta (walked base) (map_of (sn_files s));
          (s', emitted) = emit s (cd_fingerprint delta);
          witnesses = (case emitted of Inl _ \<Rightarrow> [] | Inr ws \<Rightarrow> ws);
          emitter_error = (case emitted of Inl e \<Rightarrow> Some e | Inr _ \<Rightarrow> None);
          readiness = evaluate_slice_readiness contract delta witnesses (Some (paths_in s')) (Some behaviour);
          first = evaluate_checkpoint True readiness;
          decision = (if emitter_error \<noteq> None \<and> cp_outcome first = COMPLETE_OUTCOME
                      then evaluate_checkpoint True (readiness\<lparr>rr_ready := False\<rparr>) else first)
      in \<lparr>cr_slice = ac_slice contract, cr_fingerprint = cd_fingerprint delta, cr_admission = admission,
          cr_readiness = Some readiness, cr_decision = decision, cr_units = behaviour,
          cr_witness_ids = map sw_id witnesses, cr_emitter_error = emitter_error,
          cr_diagnostics = collect_step collect s' (cd_fingerprint delta)\<rparr>)"

definition run_checkpoint ::
  "(string \<Rightarrow> digest) \<Rightarrow> py_parser \<Rightarrow> acceptance_contract \<Rightarrow> tree \<Rightarrow> tree \<Rightarrow> path \<Rightarrow> emitter
    \<Rightarrow> string option \<Rightarrow> admission_policy option \<Rightarrow> spike_report option \<Rightarrow> 'r collector option
    \<Rightarrow> admission_error + 'r checkpoint_record" where
  "run_checkpoint H parse contract base candidate snapshot_root emit commit policy spike collect =
     (let delta = compute_delta H commit base candidate in
      case admit_candidate H base candidate delta snapshot_root policy None spike of
        Inl e \<Rightarrow> Inl e
      | Inr (admission, disk) \<Rightarrow>
          if \<not> ad_admitted admission then
            Inr \<lparr>cr_slice = ac_slice contract, cr_fingerprint = cd_fingerprint delta,
                 cr_admission = admission, cr_readiness = None,
                 cr_decision = evaluate_checkpoint False (empty_report contract), cr_units = [],
                 cr_witness_ids = [], cr_emitter_error = None, cr_diagnostics = None\<rparr>
          else
            Inr (after_admission parse contract base delta admission
                   (case disk of None \<Rightarrow> empty_snapshot | Some s \<Rightarrow> s) emit collect))"

subsection \<open>Facts\<close>

lemma complete_iff:
  "cp_outcome (evaluate_checkpoint adm r) = COMPLETE_OUTCOME \<longleftrightarrow> adm \<and> rr_ready r"
  by (auto simp: evaluate_checkpoint_def)

lemma after_admission_complete:
  "cp_outcome (cr_decision (after_admission parse contract base delta admission s emit collect))
       = COMPLETE_OUTCOME \<longleftrightarrow>
     (\<exists>s' ws. emit s (cd_fingerprint delta) = (s', Inr ws)
        \<and> rr_ready (evaluate_slice_readiness contract delta ws (Some (paths_in s'))
             (Some (changed_behaviour parse delta (walked base) (map_of (sn_files s))))))"
  by (cases "emit s (cd_fingerprint delta)"; cases "snd (emit s (cd_fingerprint delta))")
    (auto simp: after_admission_def Let_def complete_iff)

lemma admit_snapshot:
  assumes "admit_candidate H base candidate delta root pol expected spike = Inr (d, disk)" and "ad_admitted d"
  shows "\<exists>s. disk = Some s \<and> snapshot_fingerprint H s = cd_fingerprint delta
     \<and> admission_violations delta (case pol of None \<Rightarrow> default_policy | Some p \<Rightarrow> p) expected = []"
  using admit_candidate_result [OF assms(1)] assms(2) evaluate_admission_fields [of delta pol expected]
  by (auto simp: Let_def reconstruction_mismatch_def)

lemma run_checkpoint_cases:
  assumes "run_checkpoint H parse contract base candidate root emit commit policy spike collect = Inr rec"
  obtains (refused) "\<not> ad_admitted (cr_admission rec)" "cr_readiness rec = None" "cr_emitter_error rec = None"
      "cr_decision rec = evaluate_checkpoint False (empty_report contract)"
  | (admitted) adm s where
      "admit_candidate H base candidate (compute_delta H commit base candidate) root policy None spike
         = Inr (adm, Some s)" "ad_admitted adm"
      "rec = after_admission parse contract base (compute_delta H commit base candidate) adm s emit collect"
proof (cases "admit_candidate H base candidate (compute_delta H commit base candidate) root policy None spike")
  case (Inl e)
  with assms show ?thesis by (simp add: run_checkpoint_def Let_def)
next
  case (Inr res)
  obtain adm disk where res: "res = (adm, disk)" by fastforce
  show ?thesis
  proof (cases "ad_admitted adm")
    case True
    with admit_snapshot Inr res obtain s where "disk = Some s" by blast
    with assms Inr res True show ?thesis by (intro admitted) (auto simp: run_checkpoint_def Let_def)
  next
    case False
    with assms Inr res show ?thesis by (intro refused) (auto simp: run_checkpoint_def Let_def)
  qed
qed

lemma after_admission_fields [simp]:
  "cr_admission (after_admission parse contract base delta adm s emit collect) = adm"
  "cr_fingerprint (after_admission parse contract base delta adm s emit collect) = cd_fingerprint delta"
  by (simp_all add: after_admission_def Let_def split_beta)

lemma after_admission_emitted:
  assumes "emit s (cd_fingerprint delta) = (s', Inr ws)"
  shows "cr_readiness (after_admission parse contract base delta adm s emit collect) =
       Some (evaluate_slice_readiness contract delta ws (Some (paths_in s'))
         (Some (changed_behaviour parse delta (walked base) (map_of (sn_files s)))))"
    and "cr_emitter_error (after_admission parse contract base delta adm s emit collect) = None"
  using assms by (simp_all add: after_admission_def Let_def)

subsection \<open>Properties\<close>

text \<open>
  C17: completion is earned. A checkpoint ends \<open>COMPLETE\<close> only when the candidate was admitted
  with no policy violation, the snapshot handed to the commands has the candidate's fingerprint,
  the emitter did not fail, and its sound evidence about this very worktree discharges every
  obligation of the contract, reaches every behaviour unit and passed every required command.
  Two comments of acceptance.py say more than this. Required paths are counted in the snapshot as
  the commands leave it, not in the candidate (line 97); and evidence has to be independent, where
  an obligation requires it, for criteria only, not for paths, symbols and routes (line 109).
\<close>

theorem complete_means_proved:
  assumes run: "run_checkpoint H parse contract base candidate root emit commit policy spike collect = Inr rec"
    and fin: "cp_outcome (cr_decision rec) = COMPLETE_OUTCOME"
  shows "ad_admitted (cr_admission rec) \<and> cr_emitter_error rec = None
     \<and> admission_violations (compute_delta H commit base candidate)
          (case policy of None \<Rightarrow> default_policy | Some p \<Rightarrow> p) None = []
     \<and> (\<exists>s s' ws r. snapshot_fingerprint H s = tree_fingerprint H candidate
          \<and> emit s (tree_fingerprint H candidate) = (s', Inr ws)
          \<and> cr_readiness rec = Some r \<and> rr_ready r
          \<and> (let evidence = {w \<in> set ws. sound_evidence (tree_fingerprint H candidate) w} in
              (\<forall>ob \<in> set (ac_obligations contract). obligation_discharged (set (paths_in s')) evidence ob)
              \<and> (\<forall>u \<in> set (changed_behaviour parse (compute_delta H commit base candidate) (walked base)
                    (map_of (sn_files s))). unit_reached evidence u)
              \<and> (\<forall>c \<in> set (ac_commands contract). \<exists>w \<in> evidence. sw_passed w \<and> sw_command w = c)))"
  using run
proof (cases rule: run_checkpoint_cases)
  case refused
  with fin show ?thesis by (simp add: complete_iff)
next
  case (admitted adm s)
  let ?d = "compute_delta H commit base candidate"
  let ?us = "changed_behaviour parse ?d (walked base) (map_of (sn_files s))"
  from fin obtain s' ws where emit: "emit s (tree_fingerprint H candidate) = (s', Inr ws)"
    and ready: "rr_ready (evaluate_slice_readiness contract ?d ws (Some (paths_in s')) (Some ?us))"
    unfolding admitted(3) after_admission_complete delta_fingerprint by blast
  note met = ready [unfolded ready_iff_done option.case done_iff usable_sound delta_fingerprint]
  note em = after_admission_emitted [of emit s ?d, unfolded delta_fingerprint, OF emit]
  from admit_snapshot [OF admitted(1,2)] have snap: "snapshot_fingerprint H s = tree_fingerprint H candidate"
    "admission_violations ?d (case policy of None \<Rightarrow> default_policy | Some p \<Rightarrow> p) None = []"
    by auto
  show ?thesis
    unfolding admitted(3) after_admission_fields Let_def
  proof (intro conjI exI)
    show "snapshot_fingerprint H s = tree_fingerprint H candidate" by (rule snap)
    show "emit s (tree_fingerprint H candidate) = (s', Inr ws)" by (rule emit)
  qed (use snap em admitted(2) ready met in blast)+
qed

text \<open>
  Diagnostics are advisory. Whatever the collector returns, raises or does to the snapshot,
  and whether or not one is given, the checkpoint reports the same admission, readiness and
  decision.
\<close>

theorem diagnostics_never_influence_the_verdict:
  "map_sum (\<lambda>e. e) (\<lambda>rec. rec\<lparr>cr_diagnostics := None\<rparr>)
     (run_checkpoint H parse contract base candidate root emit commit policy spike collect)
   = map_sum (\<lambda>e. e) (\<lambda>rec. rec\<lparr>cr_diagnostics := None\<rparr>)
     (run_checkpoint H parse contract base candidate root emit commit policy spike collect')"
  by (simp add: run_checkpoint_def after_admission_def Let_def split_beta split: sum.split)

definition ghost_contract :: acceptance_contract where
  "ghost_contract = \<lparr>ac_slice = ''S'', ac_plan = None, ac_criteria = [''C''], ac_obligations =
     [\<lparr>ao_id = ''O'', ao_kind = PRODUCTION_ARTIFACT, ao_required_paths = [''svc.py''],
       ao_must_be_exercised = [], ao_criteria = [''C''], ao_required_symbols = [],
       ao_required_routes = [], ao_independent = False, ao_unmeasured_reason = []\<rparr>],
     ac_commands = [''unit'']\<rparr>"

definition ghost_base :: tree where
  "ghost_base = [(''a.md'', Reg ''x'')]"

definition ghost_candidate :: tree where
  "ghost_candidate = [(''a.md'', Reg ''y'')]"

definition ghost_witness :: "digest \<Rightarrow> structured_witness" where
  "ghost_witness f = \<lparr>sw_schema = ''1.0'', sw_id = ''w'', sw_kind = TEST_SUITE, sw_class = INDEPENDENT,
     sw_command = ''unit'', sw_commit = None, sw_fingerprint = f, sw_passed = True, sw_process = None,
     sw_exchanges = [], sw_coverage = None, sw_criteria = [''C''], sw_artifacts = [(''log'', ''0'')]\<rparr>"

text \<open>A command that writes \<open>svc.py\<close> into the directory it runs in, and one that does not.\<close>

definition ghost_emit :: "files \<Rightarrow> emitter" where
  "ghost_emit written s f = (s\<lparr>sn_files := sn_files s @ written\<rparr>, Inr [ghost_witness f])"

definition ghost_run :: "files \<Rightarrow> admission_error + unit checkpoint_record" where
  "ghost_run written = run_checkpoint (\<lambda>s. s) (\<lambda>_. None) ghost_contract ghost_base ghost_candidate ''/snap''
     (ghost_emit written) None (Some sample_policy) None None"

definition outcome_of :: "admission_error + unit checkpoint_record \<Rightarrow> checkpoint_outcome option" where
  "outcome_of r = (case r of Inl _ \<Rightarrow> None | Inr rec \<Rightarrow> Some (cp_outcome (cr_decision rec)))"

text \<open>
  The presence of required paths is read after the commands ran, in the directory they ran
  in. A verification command that writes the required file into the snapshot makes a candidate
  that does not contain it \<open>COMPLETE\<close>; the same candidate with a command that writes nothing is
  sent back to the agent.
\<close>

theorem command_output_satisfies_required_artifact:
  "walked ghost_candidate ''svc.py'' = None \<and> contract_valid ghost_contract
   \<and> outcome_of (ghost_run [(''svc.py'', ''z'')]) = Some COMPLETE_OUTCOME
   \<and> outcome_of (ghost_run []) = Some CONTINUE_OUTCOME"
  by (intro conjI; code_simp)

text \<open>A run that earns its completion: the candidate itself adds the required file.\<close>

definition honest_candidate :: tree where
  "honest_candidate = [(''a.md'', Reg ''x''), (''svc.py'', Reg ''z'')]"

definition honest_witness :: "digest \<Rightarrow> structured_witness" where
  "honest_witness f = (ghost_witness f)\<lparr>sw_coverage := Some \<lparr>co_executed_paths = [''svc.py''],
     co_executed_lines = [(''svc.py'', [1])], co_imported = [], co_symbols = [],
     co_method = Some ''trace'', co_source = None\<rparr>\<rparr>"

definition honest_run :: "admission_error + unit checkpoint_record" where
  "honest_run = run_checkpoint (\<lambda>s. s) (\<lambda>_. None) ghost_contract ghost_base honest_candidate ''/snap''
     (\<lambda>s f. (s, Inr [honest_witness f])) None (Some sample_policy) None None"

theorem complete_means_proved_witness:
  "walked honest_candidate ''svc.py'' \<noteq> None
   \<and> (\<exists>rec s r ws. honest_run = Inr rec \<and> ad_admitted (cr_admission rec) \<and> cr_readiness rec = Some r
        \<and> rr_ready r \<and> snapshot_fingerprint (\<lambda>s. s) s = tree_fingerprint (\<lambda>s. s) honest_candidate
        \<and> (\<forall>ob \<in> set (ac_obligations ghost_contract). obligation_discharged (set (paths_in s)) ws ob))"
proof
  show "walked honest_candidate ''svc.py'' \<noteq> None" by code_simp
  have o: "outcome_of honest_run = Some COMPLETE_OUTCOME" by code_simp
  then obtain rec where rec: "honest_run = Inr rec" "cp_outcome (cr_decision rec) = COMPLETE_OUTCOME"
    by (auto simp: outcome_of_def split: sum.splits)
  from complete_means_proved [OF rec(1) [unfolded honest_run_def] rec(2)] rec(1)
  show "\<exists>rec s r ws. honest_run = Inr rec \<and> ad_admitted (cr_admission rec) \<and> cr_readiness rec = Some r
        \<and> rr_ready r \<and> snapshot_fingerprint (\<lambda>s. s) s = tree_fingerprint (\<lambda>s. s) honest_candidate
        \<and> (\<forall>ob \<in> set (ac_obligations ghost_contract). obligation_discharged (set (paths_in s)) ws ob)"
    unfolding Let_def prod.inject by blast
qed

end
