(* ===== verification/Lease.thy ===== *)
theory Lease
  imports Prelude
begin

section \<open>Owner-scoped leases (operations/lease.py)\<close>

text \<open>
  The four guarded updates that every operation ledger shares, over a table of rows with the
  lease columns, and the ledger methods built on them. The three stores of the program
  (execution, review, intake) have the same methods over different status types and columns; the
  methods are written once over a status type, with the three statuses they mention in a record,
  and instantiated in \<open>Operation_Stores\<close>. Times are integers (ISO texts of one zone compare as
  their times do); an owner is the text of a fresh identifier.
\<close>

record ('st, 'd) lease_row =
  lr_id :: string
  lr_task :: string
  lr_status :: 'st
  lr_created :: int
  lr_updated :: int
  lr_result :: "string option"
  lr_error :: "string option"
  lr_owner :: "string option"
  lr_expires :: "int option"
  lr_data :: 'd

type_synonym ('st, 'd) ledger = "('st, 'd) lease_row list"

subsection \<open>The guarded updates\<close>

text \<open>\<open>UPDATE table SET ... WHERE ...\<close> with its row count; the rows become the last argument's image.\<close>

definition update_rows ::
  "(('st, 'd) lease_row \<Rightarrow> bool) \<Rightarrow> (('st, 'd) lease_row \<Rightarrow> ('st, 'd) lease_row) \<Rightarrow> ('st, 'd) ledger
    \<Rightarrow> nat \<times> ('st, 'd) ledger" where
  "update_rows guard f t =
     (length (filter guard t), map (\<lambda>r. if guard r then f r else r) t)"

definition claim_lease ::
  "string \<Rightarrow> string \<Rightarrow> int \<Rightarrow> int \<Rightarrow> 'st \<Rightarrow> 'st \<Rightarrow> ('st, 'd) ledger \<Rightarrow> bool \<times> ('st, 'd) ledger" where
  "claim_lease i owner duration now from_status to_status t =
     (let (n, t') = update_rows (\<lambda>r. lr_id r = i \<and> lr_status r = from_status)
            (\<lambda>r. r\<lparr>lr_status := to_status, lr_updated := now, lr_owner := Some owner,
                   lr_expires := Some (now + duration)\<rparr>) t
      in (n = 1, t'))"

definition renew_lease ::
  "string \<Rightarrow> string \<Rightarrow> int \<Rightarrow> int \<Rightarrow> 'st \<Rightarrow> ('st, 'd) ledger \<Rightarrow> bool \<times> ('st, 'd) ledger" where
  "renew_lease i owner duration now running_status t =
     (let (n, t') = update_rows
            (\<lambda>r. lr_id r = i \<and> lr_status r = running_status \<and> lr_owner r = Some owner)
            (\<lambda>r. r\<lparr>lr_expires := Some (now + duration)\<rparr>) t
      in (n = 1, t'))"

definition release_lease ::
  "string \<Rightarrow> string \<Rightarrow> 'st \<Rightarrow> 'st \<Rightarrow> int \<Rightarrow> (('st, 'd) lease_row \<Rightarrow> ('st, 'd) lease_row) \<Rightarrow> ('st, 'd) ledger
    \<Rightarrow> bool \<times> ('st, 'd) ledger" where
  "release_lease i owner running_status to_status now extra t =
     (let (n, t') = update_rows
            (\<lambda>r. lr_id r = i \<and> lr_status r = running_status \<and> lr_owner r = Some owner)
            (\<lambda>r. (extra r)\<lparr>lr_status := to_status, lr_updated := now\<rparr>) t
      in (n = 1, t'))"

definition lease_expired :: "int \<Rightarrow> int option \<Rightarrow> bool" where
  "lease_expired now e = (case e of None \<Rightarrow> True | Some d \<Rightarrow> d < now)"

definition expire_lease_to_ambiguous ::
  "string \<Rightarrow> 'st \<Rightarrow> 'st \<Rightarrow> int \<Rightarrow> string \<Rightarrow> ('st, 'd) ledger \<Rightarrow> bool \<times> ('st, 'd) ledger" where
  "expire_lease_to_ambiguous i running_status ambiguous_status now note t =
     (let (n, t') = update_rows
            (\<lambda>r. lr_id r = i \<and> lr_status r = running_status \<and> lease_expired now (lr_expires r))
            (\<lambda>r. r\<lparr>lr_status := ambiguous_status, lr_updated := now,
                   lr_error := (case lr_error r of None \<Rightarrow> Some note | Some e \<Rightarrow> Some e)\<rparr>) t
      in (n = 1, t'))"

text \<open>
  \<open>LeaseHeartbeat._run\<close>: the ticks until the stop event, each with what the renewal returned
  (\<open>None\<close> when it raised); the result is the \<open>lease_lost\<close> flag.
\<close>

fun heartbeat_run :: "bool option list \<Rightarrow> bool" where
  "heartbeat_run [] = False"
| "heartbeat_run (renewed # ticks) = (if renewed = Some True then heartbeat_run ticks else True)"

subsection \<open>The ledger methods\<close>

datatype ledger_error =
    ActiveOperationExists | DuplicateOperation | OperationAlreadyRunning | OperationNotFound
  | OperationError | LeaseLost

record 'st ledger_statuses =
  ls_recorded :: 'st
  ls_running :: 'st
  ls_ambiguous :: 'st

definition ledger_active :: "'st ledger_statuses \<Rightarrow> ('st, 'd) lease_row \<Rightarrow> bool" where
  "ledger_active ss r = (lr_status r = ls_recorded ss \<or> lr_status r = ls_running ss)"

definition find_operation :: "string \<Rightarrow> ('st, 'd) ledger \<Rightarrow> ('st, 'd) lease_row option" where
  "find_operation i t = find (\<lambda>r. lr_id r = i) t"

definition ledger_get :: "('st, 'd) ledger \<Rightarrow> string \<Rightarrow> ledger_error + ('st, 'd) lease_row" where
  "ledger_get t i = (case find_operation i t of None \<Rightarrow> Inl OperationNotFound | Some r \<Rightarrow> Inr r)"

definition ledger_commit ::
  "ledger_error + ('st, 'd) ledger \<Rightarrow> string \<Rightarrow> ('st, 'd) ledger
    \<Rightarrow> ('st, 'd) ledger \<times> (ledger_error + ('st, 'd) lease_row)" where
  "ledger_commit body i t = (case body of Inl e \<Rightarrow> (t, Inl e) | Inr t' \<Rightarrow> (t', ledger_get t' i))"

definition create_operation ::
  "'st ledger_statuses \<Rightarrow> string \<Rightarrow> string \<Rightarrow> 'd \<Rightarrow> int \<Rightarrow> ('st, 'd) ledger
    \<Rightarrow> ('st, 'd) ledger \<times> (ledger_error + ('st, 'd) lease_row)" where
  "create_operation ss i task d now t =
     ledger_commit
       (if list_ex (\<lambda>r. lr_task r = task \<and> ledger_active ss r) t then Inl ActiveOperationExists
        else if list_ex (\<lambda>r. lr_id r = i) t then Inl DuplicateOperation
        else Inr (t @ [\<lparr>lr_id = i, lr_task = task, lr_status = ls_recorded ss, lr_created = now,
            lr_updated = now, lr_result = None, lr_error = None, lr_owner = None,
            lr_expires = None, lr_data = d\<rparr>])) i t"

definition find_active_for_task :: "'st ledger_statuses \<Rightarrow> string \<Rightarrow> ('st, 'd) ledger \<Rightarrow> ('st, 'd) lease_row option" where
  "find_active_for_task ss task t =
     find (\<lambda>_. True) (sort_key (\<lambda>r. - lr_created r) (filter (\<lambda>r. lr_task r = task \<and> ledger_active ss r) t))"

definition list_active :: "'st ledger_statuses \<Rightarrow> ('st, 'd) ledger \<Rightarrow> ('st, 'd) ledger" where
  "list_active ss t = sort_key lr_created (filter (ledger_active ss) t)"

definition failed_claim :: "'st ledger_statuses \<Rightarrow> string \<Rightarrow> ('st, 'd) ledger \<Rightarrow> ledger_error" where
  "failed_claim ss i t =
     (case find_operation i t of None \<Rightarrow> OperationNotFound
      | Some r \<Rightarrow> if lr_status r = ls_running ss then OperationAlreadyRunning else OperationError)"

definition mark_running ::
  "'st ledger_statuses \<Rightarrow> string \<Rightarrow> string \<Rightarrow> int \<Rightarrow> int \<Rightarrow> ('st, 'd) ledger
    \<Rightarrow> ('st, 'd) ledger \<times> (ledger_error + ('st, 'd) lease_row)" where
  "mark_running ss i owner duration now t =
     ledger_commit
       (case claim_lease i owner duration now (ls_recorded ss) (ls_running ss) t of
          (claimed, t') \<Rightarrow> if claimed then Inr t' else Inl (failed_claim ss i t')) i t"

definition renew_operation ::
  "'st ledger_statuses \<Rightarrow> string \<Rightarrow> string \<Rightarrow> int \<Rightarrow> int \<Rightarrow> ('st, 'd) ledger \<Rightarrow> ('st, 'd) ledger \<times> bool" where
  "renew_operation ss i owner duration now t =
     (case renew_lease i owner duration now (ls_running ss) t of (renewed, t') \<Rightarrow> (t', renewed))"

definition failed_release :: "'st ledger_statuses \<Rightarrow> string \<Rightarrow> ('st, 'd) ledger \<Rightarrow> ledger_error" where
  "failed_release ss i t =
     (case find_operation i t of None \<Rightarrow> OperationNotFound
      | Some r \<Rightarrow> if lr_status r = ls_recorded ss then OperationError else LeaseLost)"

definition release_operation ::
  "'st ledger_statuses \<Rightarrow> string \<Rightarrow> string \<Rightarrow> 'st \<Rightarrow> (('st, 'd) lease_row \<Rightarrow> ('st, 'd) lease_row) \<Rightarrow> int
    \<Rightarrow> ('st, 'd) ledger \<Rightarrow> ('st, 'd) ledger \<times> (ledger_error + ('st, 'd) lease_row)" where
  "release_operation ss i owner to_status extra now t =
     ledger_commit
       (case release_lease i owner (ls_running ss) to_status now extra t of
          (released, t') \<Rightarrow> if released then Inr t' else Inl (failed_release ss i t')) i t"

definition mark_ambiguous ::
  "'st ledger_statuses \<Rightarrow> string \<Rightarrow> string \<Rightarrow> int \<Rightarrow> ('st, 'd) ledger
    \<Rightarrow> ('st, 'd) ledger \<times> (ledger_error + ('st, 'd) lease_row)" where
  "mark_ambiguous ss i note now t =
     ledger_commit
       (case expire_lease_to_ambiguous i (ls_running ss) (ls_ambiguous ss) now note t of
          (expired, t') \<Rightarrow> if expired then Inr t'
            else Inl (case find_operation i t' of None \<Rightarrow> OperationNotFound | Some _ \<Rightarrow> OperationError)) i t"

end
