(* ===== verification/Ledger.thy ===== *)
theory Ledger
  imports Lease
begin

section \<open>What every operation ledger guarantees\<close>

text \<open>
  A ledger is a table of rows, each of them a small automaton: recorded, running, finished. The
  locale \<open>lease_ledger\<close> states what the three stores have in common (the three statuses their
  methods mention differ) and proves, for every sequence of method calls: identifiers are unique,
  a task has at most one active operation, an operation is claimed at most once and ends at most
  once, and only the owner that claimed it can record its outcome.
\<close>

subsection \<open>Calls\<close>

datatype ('st, 'd) ledger_call =
    Create_Op string string 'd int
  | Claim_Op string string int int
  | Renew_Op string string int int
  | Release_Op string string 'st "('st, 'd) lease_row \<Rightarrow> ('st, 'd) lease_row" int
  | Expire_Op string string int

fun ledger_step :: "'st ledger_statuses \<Rightarrow> ('st, 'd) ledger_call \<Rightarrow> ('st, 'd) ledger \<Rightarrow> ('st, 'd) ledger \<times> bool" where
  "ledger_step ss (Create_Op i task d now) t =
     (case create_operation ss i task d now t of (t', r) \<Rightarrow> (t', isl r = False))"
| "ledger_step ss (Claim_Op i owner duration now) t =
     (case mark_running ss i owner duration now t of (t', r) \<Rightarrow> (t', isl r = False))"
| "ledger_step ss (Renew_Op i owner duration now) t = renew_operation ss i owner duration now t"
| "ledger_step ss (Release_Op i owner to_status extra now) t =
     (case release_operation ss i owner to_status extra now t of (t', r) \<Rightarrow> (t', isl r = False))"
| "ledger_step ss (Expire_Op i note now) t =
     (case mark_ambiguous ss i note now t of (t', r) \<Rightarrow> (t', isl r = False))"

fun call_target :: "('st, 'd) ledger_call \<Rightarrow> string" where
  "call_target (Create_Op i _ _ _) = i"
| "call_target (Claim_Op i _ _ _) = i"
| "call_target (Renew_Op i _ _ _) = i"
| "call_target (Release_Op i _ _ _ _) = i"
| "call_target (Expire_Op i _ _) = i"

definition ledger_exec :: "'st ledger_statuses \<Rightarrow> ('st, 'd) ledger \<Rightarrow> ('st, 'd) ledger_call \<Rightarrow> ('st, 'd) ledger" where
  "ledger_exec ss t x = fst (ledger_step ss x t)"

fun ledger_trace ::
  "'st ledger_statuses \<Rightarrow> ('st, 'd) ledger \<Rightarrow> ('st, 'd) ledger_call list \<Rightarrow> (('st, 'd) ledger_call \<times> bool) list" where
  "ledger_trace ss t [] = []"
| "ledger_trace ss t (x # xs) = (x, snd (ledger_step ss x t)) # ledger_trace ss (ledger_exec ss t x) xs"

lemma ledger_trace_append:
  "ledger_trace ss t (xs @ ys) = ledger_trace ss t xs @ ledger_trace ss (foldl (ledger_exec ss) t xs) ys"
  by (induction xs arbitrary: t) auto

subsection \<open>Rows as automata\<close>

fun row_enabled :: "'st ledger_statuses \<Rightarrow> ('st, 'd) ledger_call \<Rightarrow> ('st, 'd) lease_row \<Rightarrow> bool" where
  "row_enabled ss (Create_Op _ _ _ _) r = False"
| "row_enabled ss (Claim_Op _ _ _ _) r = (lr_status r = ls_recorded ss)"
| "row_enabled ss (Renew_Op _ owner _ _) r = (lr_status r = ls_running ss \<and> lr_owner r = Some owner)"
| "row_enabled ss (Release_Op _ owner _ _ _) r = (lr_status r = ls_running ss \<and> lr_owner r = Some owner)"
| "row_enabled ss (Expire_Op _ _ now) r = (lr_status r = ls_running ss \<and> lease_expired now (lr_expires r))"

fun row_effect :: "'st ledger_statuses \<Rightarrow> ('st, 'd) ledger_call \<Rightarrow> ('st, 'd) lease_row \<Rightarrow> ('st, 'd) lease_row" where
  "row_effect ss (Create_Op _ _ _ _) r = r"
| "row_effect ss (Claim_Op _ owner duration now) r =
     r\<lparr>lr_status := ls_running ss, lr_updated := now, lr_owner := Some owner, lr_expires := Some (now + duration)\<rparr>"
| "row_effect ss (Renew_Op _ _ duration now) r = r\<lparr>lr_expires := Some (now + duration)\<rparr>"
| "row_effect ss (Release_Op _ _ to_status extra now) r = (extra r)\<lparr>lr_status := to_status, lr_updated := now\<rparr>"
| "row_effect ss (Expire_Op _ note now) r =
     r\<lparr>lr_status := ls_ambiguous ss, lr_updated := now,
       lr_error := (case lr_error r of None \<Rightarrow> Some note | Some e \<Rightarrow> Some e)\<rparr>"

lemma row_effect_fun:
  "row_effect ss (Claim_Op i owner duration now) = (\<lambda>r. r\<lparr>lr_status := ls_running ss, lr_updated := now,
     lr_owner := Some owner, lr_expires := Some (now + duration)\<rparr>)"
  "row_effect ss (Renew_Op i owner duration now) = (\<lambda>r. r\<lparr>lr_expires := Some (now + duration)\<rparr>)"
  "row_effect ss (Release_Op i owner to_status extra now) =
     (\<lambda>r. (extra r)\<lparr>lr_status := to_status, lr_updated := now\<rparr>)"
  "row_effect ss (Expire_Op i note now) = (\<lambda>r. r\<lparr>lr_status := ls_ambiguous ss, lr_updated := now,
     lr_error := (case lr_error r of None \<Rightarrow> Some note | Some e \<Rightarrow> Some e)\<rparr>)"
  by (rule ext, simp)+

fun creates :: "('st, 'd) ledger_call \<Rightarrow> bool" where
  "creates (Create_Op _ _ _ _) = True"
| "creates _ = False"

lemma find_operation_SomeD: "find_operation i t = Some r \<Longrightarrow> r \<in> set t \<and> lr_id r = i"
  by (auto simp: find_operation_def dest: find_Some_in)

lemma find_operation_None: "find_operation i t = None \<longleftrightarrow> i \<notin> lr_id ` set t"
  by (auto simp: find_operation_def find_None_iff_none)

lemma find_operation_in:
  "distinct (map lr_id t) \<Longrightarrow> r \<in> set t \<Longrightarrow> find_operation (lr_id r) t = Some r"
  by (cases "find_operation (lr_id r) t")
    (auto simp: find_operation_None distinct_map inj_on_def dest!: find_operation_SomeD)

definition replace_row ::
  "string \<Rightarrow> (('st, 'd) lease_row \<Rightarrow> ('st, 'd) lease_row) \<Rightarrow> ('st, 'd) ledger \<Rightarrow> ('st, 'd) ledger" where
  "replace_row i f t = map (\<lambda>r. if lr_id r = i then f r else r) t"

lemma update_rows_one:
  assumes "distinct (map lr_id t)"
  shows "update_rows (\<lambda>r. lr_id r = i \<and> g r) f t =
     (case find_operation i t of None \<Rightarrow> (0, t)
      | Some r \<Rightarrow> if g r then (1, replace_row i f t) else (0, t))"
  using assms
proof (induction t)
  case Nil
  then show ?case by (simp add: update_rows_def find_operation_def)
next
  case (Cons r t)
  have rest: "map (\<lambda>x. if lr_id x = i \<and> h x then f x else x) t = t"
    "filter (\<lambda>x. lr_id x = i \<and> g x) t = []" "replace_row i f t = t" if "lr_id r = i" for h
  proof -
    have "lr_id x \<noteq> i" if "x \<in> set t" for x
      using that \<open>lr_id r = i\<close> Cons.prems by (metis distinct.simps(2) imageI list.set_map list.simps(9))
    then show "map (\<lambda>x. if lr_id x = i \<and> h x then f x else x) t = t"
      "filter (\<lambda>x. lr_id x = i \<and> g x) t = []" "replace_row i f t = t"
      by (auto simp: replace_row_def filter_empty_conv intro!: map_idI)
  qed
  show ?case
  proof (cases "lr_id r = i")
    case True
    with rest(1) [OF True, of g] rest(1) [OF True, of "\<lambda>_. True"] rest(2,3) [OF True] show ?thesis
      by (auto simp: update_rows_def find_operation_def replace_row_def)
  next
    case False
    with Cons show ?thesis
      by (auto simp: update_rows_def find_operation_def replace_row_def split: option.splits if_splits)
  qed
qed

lemma find_replace_row:
  assumes "\<And>r. lr_id (f r) = lr_id r"
  shows "find_operation j (replace_row i f t) =
     (if j = i then map_option f (find_operation i t) else find_operation j t)"
  using assms by (induction t) (auto simp: find_operation_def replace_row_def)

lemma ids_replace_row: "(\<And>r. lr_id (f r) = lr_id r) \<Longrightarrow> map lr_id (replace_row i f t) = map lr_id t"
  by (simp add: replace_row_def)

lemma set_replace_row:
  assumes "distinct (map lr_id t)" and "find_operation i t = Some r"
  shows "set (replace_row i f t) = insert (f r) (set t - {r})"
proof -
  have r: "r \<in> set t" "lr_id r = i" using assms(2) by (auto dest: find_operation_SomeD)
  have u: "x = r" if "x \<in> set t" "lr_id x = i" for x
    using that r assms(1) by (auto simp: distinct_map inj_on_def)
  have "set (replace_row i f t) = (\<lambda>x. if x = r then f r else x) ` set t"
    unfolding replace_row_def list.set_map by (rule image_cong [OF refl]) (metis r(2) u)
  then show ?thesis using r(1) by auto
qed

subsection \<open>The contract\<close>

text \<open>
  A call is proper when it releases into a status that is neither recorded nor running and its
  extra assignments leave the identity and the lease columns alone; the stores make no other.
\<close>

fun proper_call :: "'st ledger_statuses \<Rightarrow> ('st, 'd) ledger_call \<Rightarrow> bool" where
  "proper_call ss (Release_Op _ _ to_status extra _) =
     (to_status \<noteq> ls_recorded ss \<and> to_status \<noteq> ls_running ss
      \<and> (\<forall>r. lr_id (extra r) = lr_id r \<and> lr_task (extra r) = lr_task r \<and> lr_owner (extra r) = lr_owner r))"
| "proper_call ss _ = True"

definition ledger_wf :: "'st ledger_statuses \<Rightarrow> ('st, 'd) ledger \<Rightarrow> bool" where
  "ledger_wf ss t =
     (distinct (map lr_id t)
      \<and> (\<forall>r \<in> set t. \<forall>q \<in> set t. lr_task r = lr_task q \<longrightarrow> ledger_active ss r \<longrightarrow> ledger_active ss q \<longrightarrow> r = q)
      \<and> (\<forall>r \<in> set t. (lr_owner r = None) = (lr_status r = ls_recorded ss))
      \<and> (\<forall>r \<in> set t. lr_status r = ls_running ss \<longrightarrow> lr_expires r \<noteq> None))"

definition row_rank :: "'st ledger_statuses \<Rightarrow> ('st, 'd) lease_row \<Rightarrow> nat" where
  "row_rank ss r = (if lr_status r = ls_recorded ss then 0 else if lr_status r = ls_running ss then 1 else 2)"

fun is_claim_of :: "string \<Rightarrow> ('st, 'd) ledger_call \<times> bool \<Rightarrow> bool" where
  "is_claim_of i (Claim_Op j _ _ _, ok) = (j = i \<and> ok)"
| "is_claim_of i _ = False"

fun is_end_of :: "string \<Rightarrow> ('st, 'd) ledger_call \<times> bool \<Rightarrow> bool" where
  "is_end_of i (Release_Op j _ _ _ _, ok) = (j = i \<and> ok)"
| "is_end_of i (Expire_Op j _ _, ok) = (j = i \<and> ok)"
| "is_end_of i _ = False"

fun claim_by :: "string \<Rightarrow> string \<Rightarrow> ('st, 'd) ledger_call \<times> bool \<Rightarrow> bool" where
  "claim_by i owner (Claim_Op j owner' _ _, ok) = (j = i \<and> owner' = owner \<and> ok)"
| "claim_by i owner _ = False"

locale lease_ledger =
  fixes ss :: "'st ledger_statuses"
  assumes statuses: "ls_recorded ss \<noteq> ls_running ss" "ls_ambiguous ss \<noteq> ls_recorded ss"
    "ls_ambiguous ss \<noteq> ls_running ss"
begin

lemma row_effect_keeps:
  "proper_call ss x \<Longrightarrow> lr_id (row_effect ss x r) = lr_id r \<and> lr_task (row_effect ss x r) = lr_task r"
  by (cases x) auto

lemma step_row:
  assumes d: "distinct (map lr_id t)" and p: "proper_call ss x" and n: "\<not> creates x"
  shows "ledger_step ss x t =
     (case find_operation (call_target x) t of None \<Rightarrow> (t, False)
      | Some r \<Rightarrow> if row_enabled ss x r then (replace_row (call_target x) (row_effect ss x) t, True)
                  else (t, False))"
proof -
  have found: "find_operation i (replace_row i f t) = Some (f r)"
    if "find_operation i t = Some r" "\<And>r. lr_id (f r) = lr_id r" for i r f
    using that by (simp add: find_replace_row)
  show ?thesis
  proof (cases x)
    case (Create_Op i task d now)
    with n show ?thesis by simp
  next
    case (Claim_Op i owner duration now)
    then show ?thesis
      by (cases "find_operation i t")
        (auto simp: mark_running_def claim_lease_def update_rows_one [OF d] ledger_commit_def ledger_get_def
          found find_replace_row row_effect_fun)
  next
    case (Renew_Op i owner duration now)
    then show ?thesis
      by (cases "find_operation i t")
        (auto simp: renew_operation_def renew_lease_def update_rows_one [OF d] row_effect_fun)
  next
    case (Release_Op i owner to_status extra now)
    with p show ?thesis
      by (cases "find_operation i t")
        (auto simp: release_operation_def release_lease_def update_rows_one [OF d] ledger_commit_def
          ledger_get_def found find_replace_row row_effect_fun)
  next
    case (Expire_Op i msg now)
    then show ?thesis
      by (cases "find_operation i t")
        (auto simp: mark_ambiguous_def expire_lease_to_ambiguous_def update_rows_one [OF d] ledger_commit_def
          ledger_get_def found find_replace_row row_effect_fun)
  qed
qed

lemma step_create:
  assumes "distinct (map lr_id t)"
  shows "ledger_step ss (Create_Op i task d now) t =
     (if (\<exists>r \<in> set t. lr_task r = task \<and> ledger_active ss r) \<or> find_operation i t \<noteq> None then (t, False)
      else (t @ [\<lparr>lr_id = i, lr_task = task, lr_status = ls_recorded ss, lr_created = now, lr_updated = now,
        lr_result = None, lr_error = None, lr_owner = None, lr_expires = None, lr_data = d\<rparr>], True))"
  by (auto simp: create_operation_def ledger_commit_def ledger_get_def list_ex_iff find_operation_None
      find_operation_def find_append find_None_iff_none split: option.split dest: find_Some_in)

lemma rank_effect:
  "proper_call ss x \<Longrightarrow> row_enabled ss x r \<Longrightarrow>
     row_rank ss (row_effect ss x r) = (case x of Claim_Op _ _ _ _ \<Rightarrow> 1 | Renew_Op _ _ _ _ \<Rightarrow> 1 | _ \<Rightarrow> 2)
     \<and> row_rank ss r = (case x of Claim_Op _ _ _ _ \<Rightarrow> 0 | _ \<Rightarrow> 1)"
  using statuses by (cases x) (auto simp: row_rank_def)

lemma active_rank: "ledger_active ss r \<longleftrightarrow> row_rank ss r < 2"
  by (simp add: ledger_active_def row_rank_def)

end

context lease_ledger
begin

lemma step_failed: "distinct (map lr_id t) \<Longrightarrow> proper_call ss x \<Longrightarrow> \<not> snd (ledger_step ss x t) \<Longrightarrow> ledger_exec ss t x = t"
proof (cases "creates x")
  case True
  then obtain i task d now where x: "x = Create_Op i task d now" by (cases x) auto
  assume "distinct (map lr_id t)" "\<not> snd (ledger_step ss x t)"
  then show ?thesis by (auto simp: ledger_exec_def x step_create simp del: ledger_step.simps split: if_splits)
next
  case False
  assume "distinct (map lr_id t)" "proper_call ss x" "\<not> snd (ledger_step ss x t)"
  with False show ?thesis
    by (auto simp: ledger_exec_def step_row simp del: ledger_step.simps split: option.splits if_splits)
qed

lemma step_ok:
  assumes d: "distinct (map lr_id t)" and p: "proper_call ss x" and n: "\<not> creates x"
    and ok: "snd (ledger_step ss x t)"
  obtains r where "find_operation (call_target x) t = Some r" "row_enabled ss x r"
    "ledger_exec ss t x = replace_row (call_target x) (row_effect ss x) t"
  using ok step_row [OF d p n] by (auto simp: ledger_exec_def split: option.splits if_splits)

lemma create_ok:
  assumes d: "distinct (map lr_id t)" and ok: "snd (ledger_step ss (Create_Op i task dat now) t)"
  obtains r where "find_operation i t = None" "\<forall>q \<in> set t. lr_task q = task \<longrightarrow> \<not> ledger_active ss q"
    "ledger_exec ss t (Create_Op i task dat now) = t @ [r]" "lr_id r = i" "lr_task r = task"
    "lr_status r = ls_recorded ss" "lr_owner r = None"
  using ok step_create [OF d, of i task dat now] that
  by (auto simp: ledger_exec_def simp del: ledger_step.simps split: if_splits)

lemma find_after:
  assumes d: "distinct (map lr_id t)" and p: "proper_call ss x" and n: "\<not> creates x"
    and ok: "snd (ledger_step ss x t)"
  shows "find_operation j (ledger_exec ss t x) =
     (if j = call_target x then map_option (row_effect ss x) (find_operation j t) else find_operation j t)"
proof -
  from step_ok [OF d p n ok] have "ledger_exec ss t x = replace_row (call_target x) (row_effect ss x) t"
    by blast
  then show ?thesis by (simp add: find_replace_row row_effect_keeps [OF p])
qed

lemma find_after_create:
  assumes d: "distinct (map lr_id t)" and ok: "snd (ledger_step ss (Create_Op i task dat now) t)"
  obtains r where "find_operation i t = None" "row_rank ss r = 0" "lr_owner r = None"
    "\<And>j. find_operation j (ledger_exec ss t (Create_Op i task dat now)) =
       (if j = i then Some r else find_operation j t)"
proof -
  from create_ok [OF d ok] obtain r where r: "find_operation i t = None"
    "ledger_exec ss t (Create_Op i task dat now) = t @ [r]" "lr_id r = i"
    "lr_status r = ls_recorded ss" "lr_owner r = None" by metis
  show ?thesis
  proof (rule that [of r])
    show "find_operation j (ledger_exec ss t (Create_Op i task dat now)) =
       (if j = i then Some r else find_operation j t)" for j
      using r by (auto simp: find_operation_def find_append split: option.split)
  qed (use r in \<open>simp_all add: row_rank_def\<close>)
qed

lemma wf_replace:
  assumes wf: "ledger_wf ss t" and f: "find_operation i t = Some r" and p: "proper_call ss x"
    and en: "row_enabled ss x r" and i: "call_target x = i"
  shows "ledger_wf ss (replace_row i (row_effect ss x) t)"
proof -
  let ?f = "row_effect ss x"
  have d: "distinct (map lr_id t)" using wf by (simp add: ledger_wf_def)
  have r: "r \<in> set t" using f by (simp add: find_operation_SomeD)
  note st = set_replace_row [OF d f, of ?f]
  have act: "ledger_active ss (?f r) \<Longrightarrow> ledger_active ss r"
    using rank_effect [OF p en] by (auto simp: active_rank split: ledger_call.splits)
  have task: "lr_task (?f r) = lr_task r" using row_effect_keeps [OF p] by blast
  have one: "a = b" if "a \<in> set t" "b \<in> set t" "lr_task a = lr_task b" "ledger_active ss a" "ledger_active ss b" for a b
    using wf that unfolding ledger_wf_def by blast
  have uniq: "a = b" if "a \<in> insert (?f r) (set t - {r})" "b \<in> insert (?f r) (set t - {r})"
    "lr_task a = lr_task b" "ledger_active ss a" "ledger_active ss b" for a b
    using that one [OF r] one [OF _ r] one act task by (metis Diff_iff insertE singletonI)
  have own: "(lr_owner (?f r) = None) = (lr_status (?f r) = ls_recorded ss)"
    "lr_status (?f r) = ls_running ss \<longrightarrow> lr_expires (?f r) \<noteq> None"
    using wf r p en statuses by (cases x; auto simp: ledger_wf_def)+
  show ?thesis
    unfolding ledger_wf_def st
  proof (intro conjI)
    show "distinct (map lr_id (replace_row i ?f t))"
      using d by (simp add: ids_replace_row row_effect_keeps [OF p])
    show "\<forall>a \<in> insert (?f r) (set t - {r}). \<forall>b \<in> insert (?f r) (set t - {r}). lr_task a = lr_task b
        \<longrightarrow> ledger_active ss a \<longrightarrow> ledger_active ss b \<longrightarrow> a = b"
      using uniq by blast
    show "\<forall>a \<in> insert (?f r) (set t - {r}). (lr_owner a = None) = (lr_status a = ls_recorded ss)"
      using wf own(1) by (simp add: ledger_wf_def)
    show "\<forall>a \<in> insert (?f r) (set t - {r}). lr_status a = ls_running ss \<longrightarrow> lr_expires a \<noteq> None"
      using wf own(2) by (simp add: ledger_wf_def)
  qed
qed

lemma wf_step:
  assumes wf: "ledger_wf ss t" and p: "proper_call ss x"
  shows "ledger_wf ss (ledger_exec ss t x)"
proof -
  have d: "distinct (map lr_id t)" using wf by (simp add: ledger_wf_def)
  show ?thesis
  proof (cases "snd (ledger_step ss x t)")
    case False
    with step_failed [OF d p] wf show ?thesis by simp
  next
    case True
    show ?thesis
    proof (cases "creates x")
      case True
      then obtain i task dat now where x: "x = Create_Op i task dat now" by (cases x) auto
      from create_ok [OF d, of i task dat now] \<open>snd (ledger_step ss x t)\<close> x obtain r where
        r: "i \<notin> lr_id ` set t" "\<forall>q \<in> set t. lr_task q = task \<longrightarrow> \<not> ledger_active ss q"
        "ledger_exec ss t x = t @ [r]" "lr_id r = i" "lr_task r = task" "lr_status r = ls_recorded ss"
        "lr_owner r = None" unfolding find_operation_None by metis
      show ?thesis
        using wf r statuses unfolding ledger_wf_def r(3) by auto
    next
      case False
      from step_ok [OF d p False True] obtain r where "find_operation (call_target x) t = Some r"
        "row_enabled ss x r" "ledger_exec ss t x = replace_row (call_target x) (row_effect ss x) t" by blast
      with wf_replace [OF wf _ p] show ?thesis by metis
    qed
  qed
qed

lemma wf_empty: "ledger_wf ss []"
  by (simp add: ledger_wf_def)

end

sublocale lease_ledger \<subseteq> runs: invariant_system "[]" "\<lambda>t x. proper_call ss x" "ledger_exec ss" "ledger_wf ss"
  by unfold_locales (auto intro: wf_empty wf_step)

subsection \<open>Runs\<close>

definition claims_of :: "string \<Rightarrow> (('st, 'd) ledger_call \<times> bool) list \<Rightarrow> nat" where
  "claims_of i tr = length (filter (is_claim_of i) tr)"

definition ends_of :: "string \<Rightarrow> (('st, 'd) ledger_call \<times> bool) list \<Rightarrow> nat" where
  "ends_of i tr = length (filter (is_end_of i) tr)"

context lease_ledger
begin

text \<open>How many claims and ends an operation can still have: none once its row is past them.\<close>

definition claims_left :: "string \<Rightarrow> ('st, 'd) ledger \<Rightarrow> nat" where
  "claims_left i t = (case find_operation i t of None \<Rightarrow> 1 | Some r \<Rightarrow> if row_rank ss r = 0 then 1 else 0)"

definition ends_left :: "string \<Rightarrow> ('st, 'd) ledger \<Rightarrow> nat" where
  "ends_left i t = (case find_operation i t of None \<Rightarrow> 1 | Some r \<Rightarrow> if row_rank ss r < 2 then 1 else 0)"

lemma claim_step:
  assumes d: "distinct (map lr_id t)" and p: "proper_call ss x"
  shows "(if is_claim_of i (x, snd (ledger_step ss x t)) then 1 else 0) + claims_left i (ledger_exec ss t x)
       \<le> claims_left i t"
    and "(if is_end_of i (x, snd (ledger_step ss x t)) then 1 else 0) + ends_left i (ledger_exec ss t x)
       \<le> ends_left i t"
proof -
  have both: "(if is_claim_of i (x, snd (ledger_step ss x t)) then 1 else 0) + claims_left i (ledger_exec ss t x)
       \<le> claims_left i t
     \<and> (if is_end_of i (x, snd (ledger_step ss x t)) then 1 else 0) + ends_left i (ledger_exec ss t x)
       \<le> ends_left i t"
  proof (cases "snd (ledger_step ss x t)")
    case False
    then have "\<not> is_claim_of i (x, snd (ledger_step ss x t))" "\<not> is_end_of i (x, snd (ledger_step ss x t))"
      by (cases x; simp)+
    with step_failed [OF d p False] show ?thesis by simp
  next
    case True
    show ?thesis
    proof (cases "creates x")
      case cr: True
      then obtain j task dat now where x: "x = Create_Op j task dat now" by (cases x) auto
      with True have ok: "snd (ledger_step ss (Create_Op j task dat now) t)" by simp
      from find_after_create [OF d ok] obtain r where "find_operation j t = None" "row_rank ss r = 0"
        "\<And>k. find_operation k (ledger_exec ss t x) = (if k = j then Some r else find_operation k t)"
        unfolding x by metis
      then show ?thesis by (auto simp: x claims_left_def ends_left_def)
    next
      case False
      from step_ok [OF d p False True] obtain r where r: "find_operation (call_target x) t = Some r"
        "row_enabled ss x r" by blast
      have rk: "row_rank ss (row_effect ss x r) = (case x of Claim_Op _ _ _ _ \<Rightarrow> 1 | Renew_Op _ _ _ _ \<Rightarrow> 1 | _ \<Rightarrow> 2)"
        "row_rank ss r = (case x of Claim_Op _ _ _ _ \<Rightarrow> 0 | _ \<Rightarrow> 1)"
        using rank_effect [OF p r(2)] by auto
      show ?thesis
        using r(1) rk False unfolding claims_left_def ends_left_def find_after [OF d p False True]
        by (cases x) auto
    qed
  qed
  then show "(if is_claim_of i (x, snd (ledger_step ss x t)) then 1 else 0) + claims_left i (ledger_exec ss t x)
       \<le> claims_left i t"
    and "(if is_end_of i (x, snd (ledger_step ss x t)) then 1 else 0) + ends_left i (ledger_exec ss t x)
       \<le> ends_left i t" by simp_all
qed

lemma run_counts:
  assumes "ledger_wf ss t" and "list_all (proper_call ss) xs"
  shows "claims_of i (ledger_trace ss t xs) \<le> claims_left i t \<and> ends_of i (ledger_trace ss t xs) \<le> ends_left i t"
  using assms
proof (induction xs arbitrary: t)
  case Nil
  then show ?case by (simp add: claims_of_def ends_of_def)
next
  case (Cons x xs)
  then have p: "proper_call ss x" and d: "distinct (map lr_id t)" by (auto simp: ledger_wf_def)
  have IH: "claims_of i (ledger_trace ss (ledger_exec ss t x) xs) \<le> claims_left i (ledger_exec ss t x)
      \<and> ends_of i (ledger_trace ss (ledger_exec ss t x) xs) \<le> ends_left i (ledger_exec ss t x)"
    using Cons.prems by (intro Cons.IH wf_step) auto
  show ?case
    using IH claim_step [OF d p, of i] unfolding claims_of_def ends_of_def by auto
qed

lemma permitted_proper: "list_all (proper_call ss) xs \<Longrightarrow> permitted (\<lambda>t x. proper_call ss x) (ledger_exec ss) t xs"
  by (induction xs arbitrary: t) auto

lemma run_once:
  assumes "list_all (proper_call ss) xs"
  shows "claims_of i (ledger_trace ss [] xs) \<le> 1 \<and> ends_of i (ledger_trace ss [] xs) \<le> 1"
  using run_counts [OF wf_empty assms, of i] by (simp add: claims_left_def ends_left_def find_operation_def)

lemma run_wf: "list_all (proper_call ss) xs \<Longrightarrow> ledger_wf ss (foldl (ledger_exec ss) [] xs)"
  by (rule runs.inv_reachable) (rule permitted_proper)

lemma owner_effect:
  "proper_call ss x \<Longrightarrow> row_enabled ss x r \<Longrightarrow>
     lr_owner (row_effect ss x r) = (case x of Claim_Op _ owner _ _ \<Rightarrow> Some owner | _ \<Rightarrow> lr_owner r)"
  by (cases x) auto

lemma owner_claimed:
  assumes "list_all (proper_call ss) xs"
    and "find_operation i (foldl (ledger_exec ss) [] xs) = Some r" and "lr_owner r = Some owner"
  shows "\<exists>e \<in> set (ledger_trace ss [] xs). claim_by i owner e"
  using assms
proof (induction xs arbitrary: r rule: rev_induct)
  case Nil
  then show ?case by (simp add: find_operation_def)
next
  case (snoc x xs)
  let ?t = "foldl (ledger_exec ss) [] xs"
  from snoc.prems(1) have p: "proper_call ss x" and ps: "list_all (proper_call ss) xs" by auto
  have d: "distinct (map lr_id ?t)" using run_wf [OF ps] by (simp add: ledger_wf_def)
  have tr: "ledger_trace ss [] (xs @ [x]) = ledger_trace ss [] xs @ [(x, snd (ledger_step ss x ?t))]"
    by (simp add: ledger_trace_append)
  have old: "?case" if "find_operation i ?t = Some q" "lr_owner q = Some owner" for q
    using snoc.IH [OF ps that] by (auto simp: tr)
  show ?case
  proof (cases "snd (ledger_step ss x ?t)")
    case False
    with step_failed [OF d p False] snoc.prems old show ?thesis by simp
  next
    case True
    show ?thesis
    proof (cases "creates x")
      case cr: True
      then obtain j task dat now where x: "x = Create_Op j task dat now" by (cases x) auto
      with True have ok: "snd (ledger_step ss (Create_Op j task dat now) ?t)" by simp
      from find_after_create [OF d ok] obtain q where "lr_owner q = None"
        "\<And>k. find_operation k (ledger_exec ss ?t x) = (if k = j then Some q else find_operation k ?t)"
        unfolding x by metis
      with snoc.prems old show ?thesis by (auto split: if_splits)
    next
      case False
      from step_ok [OF d p False True] obtain q where q: "find_operation (call_target x) ?t = Some q"
        "row_enabled ss x q" by blast
      have fa: "find_operation i (ledger_exec ss ?t x) =
          (if i = call_target x then Some (row_effect ss x q) else find_operation i ?t)"
        using find_after [OF d p False True, of i] q(1) by simp
      show ?thesis
      proof (cases "i = call_target x")
        case False
        with fa snoc.prems old show ?thesis by simp
      next
        case i: True
        with fa snoc.prems have "lr_owner (row_effect ss x q) = Some owner" by simp
        then have "(\<exists>j d n. x = Claim_Op j owner d n) \<or> lr_owner q = Some owner"
          unfolding owner_effect [OF p q(2)] by (cases x) simp_all
        then consider "\<exists>j d n. x = Claim_Op j owner d n" | "lr_owner q = Some owner" by blast
        then show ?thesis
        proof cases
          case 1
          with i True show ?thesis by (auto simp: tr)
        next
          case 2
          with old q(1) i show ?thesis by simp
        qed
      qed
    qed
  qed
qed

lemma release_needs_claim:
  assumes ps: "list_all (proper_call ss) xs" and p: "proper_call ss (Release_Op i owner to_status extra now)"
    and ok: "snd (ledger_step ss (Release_Op i owner to_status extra now) (foldl (ledger_exec ss) [] xs))"
  shows "(\<exists>e \<in> set (ledger_trace ss [] xs). claim_by i owner e) \<and> ends_of i (ledger_trace ss [] xs) = 0"
proof -
  let ?t = "foldl (ledger_exec ss) [] xs" and ?x = "Release_Op i owner to_status extra now"
  have d: "distinct (map lr_id ?t)" using run_wf [OF ps] by (simp add: ledger_wf_def)
  from step_ok [OF d p _ ok] obtain r where "find_operation i ?t = Some r" "row_enabled ss ?x r" by auto
  then have "\<exists>e \<in> set (ledger_trace ss [] xs). claim_by i owner e"
    using owner_claimed [OF ps] by auto
  moreover have "ends_of i (ledger_trace ss [] (xs @ [?x])) \<le> 1"
    using run_once [of "xs @ [?x]" i] ps p by simp
  ultimately show ?thesis using ok by (simp add: ends_of_def ledger_trace_append)
qed

lemma live_lease_survives:
  assumes d: "distinct (map lr_id t)" and f: "find_operation i t = Some r"
    and e: "lr_expires r = Some until" "now \<le> until"
  shows "ledger_step ss (Expire_Op i msg now) t = (t, False)"
proof -
  have "\<not> row_enabled ss (Expire_Op i msg now) r" using e by (simp add: lease_expired_def)
  then show ?thesis using step_row [OF d, of "Expire_Op i msg now"] f by (simp del: ledger_step.simps row_enabled.simps)
qed

lemma lost_lease_records_nothing:
  assumes d: "distinct (map lr_id t)" and f: "find_operation i t = Some r"
    and lost: "lr_status r \<noteq> ls_running ss \<or> lr_owner r \<noteq> Some owner"
    and p: "proper_call ss (Release_Op i owner to_status extra now)"
  shows "ledger_step ss (Release_Op i owner to_status extra now) t = (t, False)"
proof -
  have "\<not> row_enabled ss (Release_Op i owner to_status extra now) r" using lost by auto
  then show ?thesis using step_row [OF d p] f by (simp del: ledger_step.simps row_enabled.simps)
qed

end

end
