(* ===== verification/Operation_Stores.thy ===== *)
theory Operation_Stores
  imports Ledger
begin

section \<open>The execution, review and intake ledgers\<close>

text \<open>
  \<open>ExecutionOperationStore\<close> (execution/operation_store.py), \<open>ReviewOperationStore\<close>
  (review/store.py) and \<open>IntakeOperationStore\<close> (intake/store.py): the ledger methods at the
  statuses and columns of each store. JSON columns are lists or values; the columns a store only
  carries are its data record. A run of a store is a list of method calls by any clients; its
  trace pairs each call with whether it succeeded.
\<close>

subsection \<open>Execution\<close>

datatype execution_status =
  Exec_Recorded | Exec_Running | Exec_Succeeded | Exec_Failed | Exec_Ambiguous

record execution_data =
  xd_version :: int
  xd_head :: string
  xd_authorization :: "digest option"
  xd_report :: "path option"

type_synonym execution_ledger = "(execution_status, execution_data) ledger"

definition execution_statuses :: "execution_status ledger_statuses" where
  "execution_statuses = \<lparr>ls_recorded = Exec_Recorded, ls_running = Exec_Running, ls_ambiguous = Exec_Ambiguous\<rparr>"

definition execution_create ::
  "string \<Rightarrow> string \<Rightarrow> int \<Rightarrow> string \<Rightarrow> digest option \<Rightarrow> int \<Rightarrow> execution_ledger
    \<Rightarrow> execution_ledger \<times> (ledger_error + (execution_status, execution_data) lease_row)" where
  "execution_create i task version head authorization now t =
     create_operation execution_statuses i task
       \<lparr>xd_version = version, xd_head = head, xd_authorization = authorization, xd_report = None\<rparr> now t"

definition execution_mark_running ::
  "string \<Rightarrow> string \<Rightarrow> int \<Rightarrow> int \<Rightarrow> execution_ledger \<Rightarrow> execution_ledger \<times> (ledger_error + (execution_status, execution_data) lease_row)" where
  "execution_mark_running i owner duration now t = mark_running execution_statuses i owner duration now t"

definition execution_renew_lease ::
  "string \<Rightarrow> string \<Rightarrow> int \<Rightarrow> int \<Rightarrow> execution_ledger \<Rightarrow> execution_ledger \<times> bool" where
  "execution_renew_lease i owner duration now t = renew_operation execution_statuses i owner duration now t"

definition execution_release ::
  "string \<Rightarrow> string \<Rightarrow> execution_status \<Rightarrow> ((execution_status, execution_data) lease_row \<Rightarrow> (execution_status, execution_data) lease_row) \<Rightarrow> int
    \<Rightarrow> execution_ledger \<Rightarrow> execution_ledger \<times> (ledger_error + (execution_status, execution_data) lease_row)" where
  "execution_release i owner to_status extra now t = release_operation execution_statuses i owner to_status extra now t"

definition execution_mark_ambiguous ::
  "string \<Rightarrow> string \<Rightarrow> int \<Rightarrow> execution_ledger \<Rightarrow> execution_ledger \<times> (ledger_error + (execution_status, execution_data) lease_row)" where
  "execution_mark_ambiguous i msg now t = mark_ambiguous execution_statuses i msg now t"

definition execution_succeeded ::
  "string \<Rightarrow> string \<Rightarrow> string \<Rightarrow> path option \<Rightarrow> int \<Rightarrow> execution_ledger
    \<Rightarrow> execution_ledger \<times> (ledger_error + (execution_status, execution_data) lease_row)" where
  "execution_succeeded i owner summary report now t =
     execution_release i owner Exec_Succeeded
       (\<lambda>r. r\<lparr>lr_result := Some summary,
              lr_data := (case report of None \<Rightarrow> lr_data r | Some p \<Rightarrow> (lr_data r)\<lparr>xd_report := Some p\<rparr>)\<rparr>) now t"

definition execution_failed ::
  "string \<Rightarrow> string \<Rightarrow> string \<Rightarrow> int \<Rightarrow> execution_ledger
    \<Rightarrow> execution_ledger \<times> (ledger_error + (execution_status, execution_data) lease_row)" where
  "execution_failed i owner err now t =
     execution_release i owner Exec_Failed (\<lambda>r. r\<lparr>lr_error := Some err\<rparr>) now t"

datatype execution_call =
    ExecCreate string string int string "digest option" int
  | ExecRun string string int int
  | ExecRenew string string int int
  | ExecSucceed string string string "path option" int
  | ExecFail string string string int
  | ExecAmbiguous string string int

fun execution_step :: "execution_ledger \<Rightarrow> execution_call \<Rightarrow> execution_ledger \<times> bool" where
  "execution_step t (ExecCreate i task version head auth now) =
     (case execution_create i task version head auth now t of (t', r) \<Rightarrow> (t', isl r = False))"
| "execution_step t (ExecRun i owner duration now) =
     (case execution_mark_running i owner duration now t of (t', r) \<Rightarrow> (t', isl r = False))"
| "execution_step t (ExecRenew i owner duration now) = execution_renew_lease i owner duration now t"
| "execution_step t (ExecSucceed i owner summary report now) =
     (case execution_succeeded i owner summary report now t of (t', r) \<Rightarrow> (t', isl r = False))"
| "execution_step t (ExecFail i owner err now) =
     (case execution_failed i owner err now t of (t', r) \<Rightarrow> (t', isl r = False))"
| "execution_step t (ExecAmbiguous i msg now) =
     (case execution_mark_ambiguous i msg now t of (t', r) \<Rightarrow> (t', isl r = False))"

fun execution_claims :: "string \<Rightarrow> execution_call \<Rightarrow> bool" where
  "execution_claims i (ExecRun j _ _ _) = (j = i)"
| "execution_claims i _ = False"

fun execution_ends :: "string \<Rightarrow> execution_call \<Rightarrow> bool" where
  "execution_ends i (ExecSucceed j _ _ _ _) = (j = i)"
| "execution_ends i (ExecFail j _ _ _) = (j = i)"
| "execution_ends i (ExecAmbiguous j _ _) = (j = i)"
| "execution_ends i _ = False"

subsection \<open>Review\<close>

datatype review_status =
  Review_Recorded | Review_Running | Review_Succeeded | Review_Failed | Review_Ambiguous

datatype review_action =
    INSPECT_ONLY | ABANDON | VERIFICATION_ONLY_RETRY | LOCAL_CONTINUATION | FRONTIER_CONTINUATION
  | AUTHORIZE_LOCAL_STAGE | AUTHORIZE_FRONTIER_RUN | AUTHORIZE_FRONTIER_STAGE | MANUAL_FRONTIER_HANDOFF

record 'b review_data =
  rd_action :: review_action
  rd_version :: int
  rd_worktree :: "digest option"
  rd_budget :: "'b option"
  rd_frontier :: "string option"

definition review_statuses :: "review_status ledger_statuses" where
  "review_statuses = \<lparr>ls_recorded = Review_Recorded, ls_running = Review_Running, ls_ambiguous = Review_Ambiguous\<rparr>"

type_synonym 'b review_ledger = "(review_status, 'b review_data) ledger"

definition review_create ::
  "string \<Rightarrow> string \<Rightarrow> 'b review_data \<Rightarrow> int \<Rightarrow> 'b review_ledger
    \<Rightarrow> 'b review_ledger \<times> (ledger_error + (review_status, 'b review_data) lease_row)" where
  "review_create i task d now t = create_operation review_statuses i task d now t"

definition review_mark_running ::
  "string \<Rightarrow> string \<Rightarrow> int \<Rightarrow> int \<Rightarrow> 'b review_ledger \<Rightarrow> 'b review_ledger \<times> (ledger_error + (review_status, 'b review_data) lease_row)" where
  "review_mark_running i owner duration now t = mark_running review_statuses i owner duration now t"

definition review_renew_lease ::
  "string \<Rightarrow> string \<Rightarrow> int \<Rightarrow> int \<Rightarrow> 'b review_ledger \<Rightarrow> 'b review_ledger \<times> bool" where
  "review_renew_lease i owner duration now t = renew_operation review_statuses i owner duration now t"

definition review_release ::
  "string \<Rightarrow> string \<Rightarrow> review_status \<Rightarrow> ((review_status, 'b review_data) lease_row \<Rightarrow> (review_status, 'b review_data) lease_row) \<Rightarrow> int
    \<Rightarrow> 'b review_ledger \<Rightarrow> 'b review_ledger \<times> (ledger_error + (review_status, 'b review_data) lease_row)" where
  "review_release i owner to_status extra now t = release_operation review_statuses i owner to_status extra now t"

definition review_mark_ambiguous ::
  "string \<Rightarrow> string \<Rightarrow> int \<Rightarrow> 'b review_ledger \<Rightarrow> 'b review_ledger \<times> (ledger_error + (review_status, 'b review_data) lease_row)" where
  "review_mark_ambiguous i msg now t = mark_ambiguous review_statuses i msg now t"

definition review_succeeded ::
  "string \<Rightarrow> string \<Rightarrow> string \<Rightarrow> int \<Rightarrow> 'b review_ledger
    \<Rightarrow> 'b review_ledger \<times> (ledger_error + (review_status, 'b review_data) lease_row)" where
  "review_succeeded i owner summary now t =
     review_release i owner Review_Succeeded (\<lambda>r. r\<lparr>lr_result := Some summary\<rparr>) now t"

definition review_failed ::
  "string \<Rightarrow> string \<Rightarrow> string \<Rightarrow> int \<Rightarrow> 'b review_ledger
    \<Rightarrow> 'b review_ledger \<times> (ledger_error + (review_status, 'b review_data) lease_row)" where
  "review_failed i owner err now t =
     review_release i owner Review_Failed (\<lambda>r. r\<lparr>lr_error := Some err\<rparr>) now t"

datatype 'b review_call =
    ReviewCreate string string "'b review_data" int
  | ReviewRun string string int int
  | ReviewRenew string string int int
  | ReviewSucceed string string string int
  | ReviewFail string string string int
  | ReviewAmbiguous string string int

fun review_step :: "'b review_ledger \<Rightarrow> 'b review_call \<Rightarrow> 'b review_ledger \<times> bool" where
  "review_step t (ReviewCreate i task d now) =
     (case review_create i task d now t of (t', r) \<Rightarrow> (t', isl r = False))"
| "review_step t (ReviewRun i owner duration now) =
     (case review_mark_running i owner duration now t of (t', r) \<Rightarrow> (t', isl r = False))"
| "review_step t (ReviewRenew i owner duration now) = review_renew_lease i owner duration now t"
| "review_step t (ReviewSucceed i owner summary now) =
     (case review_succeeded i owner summary now t of (t', r) \<Rightarrow> (t', isl r = False))"
| "review_step t (ReviewFail i owner err now) =
     (case review_failed i owner err now t of (t', r) \<Rightarrow> (t', isl r = False))"
| "review_step t (ReviewAmbiguous i msg now) =
     (case review_mark_ambiguous i msg now t of (t', r) \<Rightarrow> (t', isl r = False))"

fun review_claims :: "string \<Rightarrow> 'b review_call \<Rightarrow> bool" where
  "review_claims i (ReviewRun j _ _ _) = (j = i)"
| "review_claims i _ = False"

fun review_ends :: "string \<Rightarrow> 'b review_call \<Rightarrow> bool" where
  "review_ends i (ReviewSucceed j _ _ _) = (j = i)"
| "review_ends i (ReviewFail j _ _ _) = (j = i)"
| "review_ends i (ReviewAmbiguous j _ _) = (j = i)"
| "review_ends i _ = False"

subsection \<open>Intake\<close>

datatype intake_status =
  Intake_Recorded | Intake_Running | Intake_Pending_Approval | Intake_Failed | Intake_Ambiguous

record intake_data =
  nd_request :: string
  nd_request_sha :: digest
  nd_version :: int
  nd_role :: string
  nd_artifacts :: "path list"

type_synonym intake_ledger = "(intake_status, intake_data) ledger"

definition intake_statuses :: "intake_status ledger_statuses" where
  "intake_statuses = \<lparr>ls_recorded = Intake_Recorded, ls_running = Intake_Running, ls_ambiguous = Intake_Ambiguous\<rparr>"

definition intake_create ::
  "string \<Rightarrow> string \<Rightarrow> string \<Rightarrow> digest \<Rightarrow> int \<Rightarrow> string \<Rightarrow> int \<Rightarrow> intake_ledger
    \<Rightarrow> intake_ledger \<times> (ledger_error + (intake_status, intake_data) lease_row)" where
  "intake_create i task request sha version role now t =
     create_operation intake_statuses i task
       \<lparr>nd_request = request, nd_request_sha = sha, nd_version = version, nd_role = role, nd_artifacts = []\<rparr> now t"

definition intake_mark_running ::
  "string \<Rightarrow> string \<Rightarrow> int \<Rightarrow> int \<Rightarrow> intake_ledger \<Rightarrow> intake_ledger \<times> (ledger_error + (intake_status, intake_data) lease_row)" where
  "intake_mark_running i owner duration now t = mark_running intake_statuses i owner duration now t"

definition intake_renew_lease ::
  "string \<Rightarrow> string \<Rightarrow> int \<Rightarrow> int \<Rightarrow> intake_ledger \<Rightarrow> intake_ledger \<times> bool" where
  "intake_renew_lease i owner duration now t = renew_operation intake_statuses i owner duration now t"

definition intake_release ::
  "string \<Rightarrow> string \<Rightarrow> intake_status \<Rightarrow> ((intake_status, intake_data) lease_row \<Rightarrow> (intake_status, intake_data) lease_row) \<Rightarrow> int
    \<Rightarrow> intake_ledger \<Rightarrow> intake_ledger \<times> (ledger_error + (intake_status, intake_data) lease_row)" where
  "intake_release i owner to_status extra now t = release_operation intake_statuses i owner to_status extra now t"

definition intake_mark_ambiguous ::
  "string \<Rightarrow> string \<Rightarrow> int \<Rightarrow> intake_ledger \<Rightarrow> intake_ledger \<times> (ledger_error + (intake_status, intake_data) lease_row)" where
  "intake_mark_ambiguous i msg now t = mark_ambiguous intake_statuses i msg now t"

definition intake_pending_approval ::
  "string \<Rightarrow> string \<Rightarrow> string \<Rightarrow> path list \<Rightarrow> int \<Rightarrow> intake_ledger
    \<Rightarrow> intake_ledger \<times> (ledger_error + (intake_status, intake_data) lease_row)" where
  "intake_pending_approval i owner summary artifacts now t =
     intake_release i owner Intake_Pending_Approval
       (\<lambda>r. r\<lparr>lr_result := Some summary, lr_data := (lr_data r)\<lparr>nd_artifacts := artifacts\<rparr>\<rparr>) now t"

definition intake_failed ::
  "string \<Rightarrow> string \<Rightarrow> string \<Rightarrow> path list option \<Rightarrow> int \<Rightarrow> intake_ledger
    \<Rightarrow> intake_ledger \<times> (ledger_error + (intake_status, intake_data) lease_row)" where
  "intake_failed i owner err artifacts now t =
     intake_release i owner Intake_Failed
       (\<lambda>r. r\<lparr>lr_error := Some err,
              lr_data := (case artifacts of None \<Rightarrow> lr_data r | Some a \<Rightarrow> (lr_data r)\<lparr>nd_artifacts := a\<rparr>)\<rparr>) now t"

datatype intake_call =
    IntakeCreate string string string digest int string int
  | IntakeRun string string int int
  | IntakeRenew string string int int
  | IntakePending string string string "path list" int
  | IntakeFail string string string "path list option" int
  | IntakeAmbiguous string string int

fun intake_step :: "intake_ledger \<Rightarrow> intake_call \<Rightarrow> intake_ledger \<times> bool" where
  "intake_step t (IntakeCreate i task request sha version role now) =
     (case intake_create i task request sha version role now t of (t', r) \<Rightarrow> (t', isl r = False))"
| "intake_step t (IntakeRun i owner duration now) =
     (case intake_mark_running i owner duration now t of (t', r) \<Rightarrow> (t', isl r = False))"
| "intake_step t (IntakeRenew i owner duration now) = intake_renew_lease i owner duration now t"
| "intake_step t (IntakePending i owner summary artifacts now) =
     (case intake_pending_approval i owner summary artifacts now t of (t', r) \<Rightarrow> (t', isl r = False))"
| "intake_step t (IntakeFail i owner err artifacts now) =
     (case intake_failed i owner err artifacts now t of (t', r) \<Rightarrow> (t', isl r = False))"
| "intake_step t (IntakeAmbiguous i msg now) =
     (case intake_mark_ambiguous i msg now t of (t', r) \<Rightarrow> (t', isl r = False))"

fun intake_claims :: "string \<Rightarrow> intake_call \<Rightarrow> bool" where
  "intake_claims i (IntakeRun j _ _ _) = (j = i)"
| "intake_claims i _ = False"

fun intake_ends :: "string \<Rightarrow> intake_call \<Rightarrow> bool" where
  "intake_ends i (IntakePending j _ _ _ _) = (j = i)"
| "intake_ends i (IntakeFail j _ _ _ _) = (j = i)"
| "intake_ends i (IntakeAmbiguous j _ _) = (j = i)"
| "intake_ends i _ = False"

lemmas execution_methods = execution_mark_running_def execution_renew_lease_def execution_release_def execution_mark_ambiguous_def

lemmas review_methods = review_mark_running_def review_renew_lease_def review_release_def review_mark_ambiguous_def

lemmas intake_methods = intake_mark_running_def intake_renew_lease_def intake_release_def intake_mark_ambiguous_def

subsection \<open>Runs of a store\<close>

definition run_state :: "('t \<Rightarrow> 'o \<Rightarrow> 't \<times> bool) \<Rightarrow> 't \<Rightarrow> 'o list \<Rightarrow> 't" where
  "run_state step t xs = foldl (\<lambda>t x. fst (step t x)) t xs"

fun run_trace :: "('t \<Rightarrow> 'o \<Rightarrow> 't \<times> bool) \<Rightarrow> 't \<Rightarrow> 'o list \<Rightarrow> ('o \<times> bool) list" where
  "run_trace step t [] = []"
| "run_trace step t (x # xs) = (x, snd (step t x)) # run_trace step (fst (step t x)) xs"

definition successes :: "('o \<Rightarrow> bool) \<Rightarrow> ('o \<times> bool) list \<Rightarrow> nat" where
  "successes P tr = length (filter (\<lambda>(x, ok). ok \<and> P x) tr)"

lemma length_le_one:
  assumes "distinct xs" and "\<forall>x \<in> set xs. \<forall>y \<in> set xs. x = y"
  shows "length xs \<le> 1"
proof (cases xs)
  case (Cons a as)
  have "set as \<subseteq> {a}"
    using bspec [OF bspec [OF assms(2)], of _ a] by (auto simp: Cons)
  moreover have "a \<notin> set as" using assms(1) by (simp add: Cons)
  ultimately have "set as = {}" by (cases as) auto
  then show ?thesis by (simp add: Cons)
qed simp

text \<open>
  A store is a ledger whose methods are ledger calls; the contract names the call of each method
  and which methods claim and which end an operation.
\<close>

locale lease_store = lease_ledger ss for ss :: "'st ledger_statuses" +
  fixes step :: "('st, 'd) ledger \<Rightarrow> 'o \<Rightarrow> ('st, 'd) ledger \<times> bool"
    and as_call :: "'o \<Rightarrow> ('st, 'd) ledger_call"
    and claims :: "string \<Rightarrow> 'o \<Rightarrow> bool"
    and ends :: "string \<Rightarrow> 'o \<Rightarrow> bool"
  assumes step_call: "step t x = ledger_step ss (as_call x) t"
    and proper: "proper_call ss (as_call x)"
    and claims_call: "is_claim_of i (as_call x, ok) = (ok \<and> claims i x)"
    and ends_call: "is_end_of i (as_call x, ok) = (ok \<and> ends i x)"
begin

lemma proper_run: "list_all (proper_call ss) (map as_call xs)"
  by (simp add: list_all_iff proper)

lemma state_run: "run_state step t xs = foldl (ledger_exec ss) t (map as_call xs)"
  unfolding run_state_def by (induction xs arbitrary: t) (simp_all add: step_call ledger_exec_def)

lemma trace_run: "ledger_trace ss t (map as_call xs) = map (\<lambda>(x, ok). (as_call x, ok)) (run_trace step t xs)"
  by (induction xs arbitrary: t) (simp_all add: step_call ledger_exec_def)

lemma filter_length_map:
  "(\<And>x ok. Q (as_call x, ok) = (ok \<and> P x)) \<Longrightarrow>
     length (filter Q (map (\<lambda>(x, ok). (as_call x, ok)) tr)) = successes P tr"
  unfolding successes_def by (induction tr) auto

lemma claims_run: "claims_of i (ledger_trace ss t (map as_call xs)) = successes (claims i) (run_trace step t xs)"
  unfolding claims_of_def trace_run by (rule filter_length_map) (rule claims_call)

lemma ends_run: "ends_of i (ledger_trace ss t (map as_call xs)) = successes (ends i) (run_trace step t xs)"
  unfolding ends_of_def trace_run by (rule filter_length_map) (rule ends_call)

lemma store_once:
  "successes (claims i) (run_trace step [] xs) \<le> 1 \<and> successes (ends i) (run_trace step [] xs) \<le> 1"
  using run_once [OF proper_run, of i xs] unfolding claims_run ends_run .

lemma store_wf: "ledger_wf ss (run_state step [] xs)"
  unfolding state_run by (rule run_wf) (rule proper_run)

lemma store_one_active:
  "length (filter (\<lambda>r. lr_task r = task \<and> ledger_active ss r) (run_state step [] xs)) \<le> 1"
proof -
  let ?t = "run_state step [] xs"
  let ?f = "filter (\<lambda>r. lr_task r = task \<and> ledger_active ss r) ?t"
  have "distinct ?f"
    using store_wf [of xs] by (auto simp: ledger_wf_def distinct_map)
  moreover have "\<forall>r \<in> set ?f. \<forall>q \<in> set ?f. r = q"
    using store_wf [of xs] unfolding ledger_wf_def by simp
  ultimately show ?thesis by (rule length_le_one)
qed

lemma store_release:
  assumes x: "as_call x = Release_Op i owner to_status extra now" and ok: "snd (step (run_state step [] xs) x)"
  shows "(\<exists>y. (y, True) \<in> set (run_trace step [] xs) \<and> (\<exists>d n. as_call y = Claim_Op i owner d n))
     \<and> successes (ends i) (run_trace step [] xs) = 0"
proof -
  from release_needs_claim [OF proper_run, of i owner to_status extra now xs] proper [of x] ok
  have e: "\<exists>e \<in> set (ledger_trace ss [] (map as_call xs)). claim_by i owner e"
    and z: "ends_of i (ledger_trace ss [] (map as_call xs)) = 0"
    by (simp_all add: x step_call state_run)
  from e obtain y ok' where y: "(y, ok') \<in> set (run_trace step [] xs)" "claim_by i owner (as_call y, ok')"
    unfolding trace_run by auto
  then have "ok'" "\<exists>d n. as_call y = Claim_Op i owner d n"
    by (cases "as_call y"; simp)+
  with y(1) z show ?thesis unfolding ends_run by auto
qed

end

subsection \<open>The three stores meet the contract\<close>

fun execution_as_call :: "execution_call \<Rightarrow> (execution_status, execution_data) ledger_call" where
  "execution_as_call (ExecCreate i task version head authorization now) = Create_Op i task
     \<lparr>xd_version = version, xd_head = head, xd_authorization = authorization, xd_report = None\<rparr> now"
| "execution_as_call (ExecRun i owner duration now) = Claim_Op i owner duration now"
| "execution_as_call (ExecRenew i owner duration now) = Renew_Op i owner duration now"
| "execution_as_call (ExecSucceed i owner summary report now) = Release_Op i owner Exec_Succeeded
     (\<lambda>r. r\<lparr>lr_result := Some summary,
       lr_data := (case report of None \<Rightarrow> lr_data r | Some p \<Rightarrow> (lr_data r)\<lparr>xd_report := Some p\<rparr>)\<rparr>) now"
| "execution_as_call (ExecFail i owner err now) = Release_Op i owner Exec_Failed (\<lambda>r. r\<lparr>lr_error := Some err\<rparr>) now"
| "execution_as_call (ExecAmbiguous i msg now) = Expire_Op i msg now"

fun review_as_call :: "'b review_call \<Rightarrow> (review_status, 'b review_data) ledger_call" where
  "review_as_call (ReviewCreate i task d now) = Create_Op i task d now"
| "review_as_call (ReviewRun i owner duration now) = Claim_Op i owner duration now"
| "review_as_call (ReviewRenew i owner duration now) = Renew_Op i owner duration now"
| "review_as_call (ReviewSucceed i owner summary now) =
     Release_Op i owner Review_Succeeded (\<lambda>r. r\<lparr>lr_result := Some summary\<rparr>) now"
| "review_as_call (ReviewFail i owner err now) =
     Release_Op i owner Review_Failed (\<lambda>r. r\<lparr>lr_error := Some err\<rparr>) now"
| "review_as_call (ReviewAmbiguous i msg now) = Expire_Op i msg now"

fun intake_as_call :: "intake_call \<Rightarrow> (intake_status, intake_data) ledger_call" where
  "intake_as_call (IntakeCreate i task request sha version role now) = Create_Op i task
     \<lparr>nd_request = request, nd_request_sha = sha, nd_version = version, nd_role = role, nd_artifacts = []\<rparr> now"
| "intake_as_call (IntakeRun i owner duration now) = Claim_Op i owner duration now"
| "intake_as_call (IntakeRenew i owner duration now) = Renew_Op i owner duration now"
| "intake_as_call (IntakePending i owner summary artifacts now) = Release_Op i owner Intake_Pending_Approval
     (\<lambda>r. r\<lparr>lr_result := Some summary, lr_data := (lr_data r)\<lparr>nd_artifacts := artifacts\<rparr>\<rparr>) now"
| "intake_as_call (IntakeFail i owner err artifacts now) = Release_Op i owner Intake_Failed
     (\<lambda>r. r\<lparr>lr_error := Some err,
       lr_data := (case artifacts of None \<Rightarrow> lr_data r | Some a \<Rightarrow> (lr_data r)\<lparr>nd_artifacts := a\<rparr>)\<rparr>) now"
| "intake_as_call (IntakeAmbiguous i msg now) = Expire_Op i msg now"

interpretation executions: lease_store execution_statuses execution_step execution_as_call execution_claims execution_ends
proof unfold_locales
  show "execution_step t x = ledger_step execution_statuses (execution_as_call x) t" for t x
    by (cases x) (simp_all add: execution_create_def execution_succeeded_def execution_failed_def execution_methods)
  show "proper_call execution_statuses (execution_as_call x)" for x
    by (cases x) (simp_all add: execution_statuses_def)
  show "is_claim_of i (execution_as_call x, ok) = (ok \<and> execution_claims i x)" for i x ok by (cases x) auto
  show "is_end_of i (execution_as_call x, ok) = (ok \<and> execution_ends i x)" for i x ok by (cases x) auto
qed (simp_all add: execution_statuses_def)

interpretation reviews: lease_store review_statuses review_step review_as_call review_claims review_ends
proof unfold_locales
  show "review_step t x = ledger_step review_statuses (review_as_call x) t" for t and x :: "'b review_call"
    by (cases x) (simp_all add: review_create_def review_succeeded_def review_failed_def review_methods)
  show "proper_call review_statuses (review_as_call x)" for x :: "'b review_call"
    by (cases x) (simp_all add: review_statuses_def)
  show "is_claim_of i (review_as_call x, ok) = (ok \<and> review_claims i x)" for i ok and x :: "'b review_call"
    by (cases x) auto
  show "is_end_of i (review_as_call x, ok) = (ok \<and> review_ends i x)" for i ok and x :: "'b review_call"
    by (cases x) auto
qed (simp_all add: review_statuses_def)

interpretation intakes: lease_store intake_statuses intake_step intake_as_call intake_claims intake_ends
proof unfold_locales
  show "intake_step t x = ledger_step intake_statuses (intake_as_call x) t" for t x
    by (cases x) (simp_all add: intake_create_def intake_pending_approval_def intake_failed_def intake_methods)
  show "proper_call intake_statuses (intake_as_call x)" for x
    by (cases x) (simp_all add: intake_statuses_def)
  show "is_claim_of i (intake_as_call x, ok) = (ok \<and> intake_claims i x)" for i x ok by (cases x) auto
  show "is_end_of i (intake_as_call x, ok) = (ok \<and> intake_ends i x)" for i x ok by (cases x) auto
qed (simp_all add: intake_statuses_def)

subsection \<open>Properties\<close>

text \<open>
  C19: no operation runs twice. Whatever sequence of calls any clients make on the execution, the
  review or the intake ledger, from an empty database: an operation is claimed at most once, its
  end is recorded at most once, and a task has at most one active operation at any time.
\<close>

theorem operations_run_and_end_once:
  "(successes (execution_claims i) (run_trace execution_step [] xs) \<le> 1
     \<and> successes (execution_ends i) (run_trace execution_step [] xs) \<le> 1
     \<and> length (filter (\<lambda>r. lr_task r = task \<and> ledger_active execution_statuses r)
          (run_state execution_step [] xs)) \<le> 1)
   \<and> (successes (review_claims i) (run_trace review_step [] ys) \<le> 1
     \<and> successes (review_ends i) (run_trace review_step [] ys) \<le> 1
     \<and> length (filter (\<lambda>r. lr_task r = task \<and> ledger_active review_statuses r)
          (run_state review_step [] ys)) \<le> 1)
   \<and> (successes (intake_claims i) (run_trace intake_step [] zs) \<le> 1
     \<and> successes (intake_ends i) (run_trace intake_step [] zs) \<le> 1
     \<and> length (filter (\<lambda>r. lr_task r = task \<and> ledger_active intake_statuses r)
          (run_state intake_step [] zs)) \<le> 1)"
  using executions.store_once executions.store_one_active reviews.store_once reviews.store_one_active
    intakes.store_once intakes.store_one_active by blast

text \<open>
  C20: only the claimant records an outcome. When a worker's report of success is accepted by
  the execution ledger, that worker's own claim of the operation succeeded earlier in the run,
  and no outcome had been recorded before.
\<close>

theorem only_the_claimant_records_success:
  assumes "snd (execution_step (run_state execution_step [] xs) (ExecSucceed i owner summary report now))"
  shows "(\<exists>duration at. (ExecRun i owner duration at, True) \<in> set (run_trace execution_step [] xs))
     \<and> successes (execution_ends i) (run_trace execution_step [] xs) = 0"
proof -
  from executions.store_release [of "ExecSucceed i owner summary report now" i owner, OF _ assms]
  obtain y d n where y: "(y, True) \<in> set (run_trace execution_step [] xs)"
    "execution_as_call y = Claim_Op i owner d n"
    and z: "successes (execution_ends i) (run_trace execution_step [] xs) = 0" by auto
  then have "y = ExecRun i owner d n" by (cases y) auto
  with y z show ?thesis by blast
qed

lemma release_refused:
  assumes d: "distinct (map lr_id t)" and row: "find_operation i t = Some r"
    and "lr_status r \<noteq> ls_recorded ss" "lr_status r \<noteq> ls_running ss"
  shows "release_operation ss i owner st extra now t = (t, Inl LeaseLost)"
  using assms(3,4) unfolding release_operation_def release_lease_def update_rows_one [OF d]
  by (simp add: row ledger_commit_def failed_release_def)

lemma expire_step:
  assumes d: "distinct (map lr_id t)" and row: "find_operation i t = Some r"
    and running: "lr_status r = Exec_Running" and deadline: "lr_expires r = Some d"
  shows "execution_step t (ExecAmbiguous i msg now) =
      (if d < now then (replace_row i (row_effect execution_statuses (Expire_Op i msg now)) t, True) else (t, False))"
proof -
  have "row_enabled execution_statuses (Expire_Op i msg now :: (execution_status, execution_data) ledger_call) r
      \<longleftrightarrow> d < now"
    using running deadline by (simp add: execution_statuses_def lease_expired_def)
  then show ?thesis
    unfolding executions.step_call execution_as_call.simps
    using executions.step_row [OF d, of "Expire_Op i msg now"] row
    by (simp del: ledger_step.simps row_effect.simps row_enabled.simps)
qed

text \<open>
  C21: recovery and the owner exclude each other. In every reachable execution ledger, recovery
  of a running operation succeeds exactly when its lease deadline has passed; after it succeeded,
  a late report of success or failure by the owner is refused as a lost lease and changes
  nothing.
\<close>

theorem recovery_fences_the_owner:
  assumes row: "find_operation i (run_state execution_step [] xs) = Some r"
    and running: "lr_status r = Exec_Running" and deadline: "lr_expires r = Some d"
  shows "(let (t', ok) = execution_step (run_state execution_step [] xs) (ExecAmbiguous i msg now) in
     (ok \<longleftrightarrow> d < now)
     \<and> (ok \<longrightarrow> execution_succeeded i owner summary report at t' = (t', Inl LeaseLost)
              \<and> execution_failed i owner err at t' = (t', Inl LeaseLost))
     \<and> (\<not> ok \<longrightarrow> t' = run_state execution_step [] xs))"
proof -
  let ?t = "run_state execution_step [] xs"
  let ?x = "Expire_Op i msg now :: (execution_status, execution_data) ledger_call"
  have d: "distinct (map lr_id ?t)" using executions.store_wf [of xs] by (simp add: ledger_wf_def)
  have step: "execution_step ?t (ExecAmbiguous i msg now) =
      (if d < now then (replace_row i (row_effect execution_statuses ?x) ?t, True) else (?t, False))"
    by (rule expire_step [OF d row running deadline])
  let ?t' = "replace_row i (row_effect execution_statuses ?x) ?t"
  have d': "distinct (map lr_id ?t')" using d by (simp add: ids_replace_row)
  have row': "find_operation i ?t' = Some (row_effect execution_statuses ?x r)"
    by (simp add: find_replace_row row)
  have lost: "release_operation execution_statuses i owner st extra at ?t' = (?t', Inl LeaseLost)" for st extra
    by (rule release_refused [OF d' row']) (simp_all add: execution_statuses_def)
  show ?thesis
    unfolding step by (simp add: execution_succeeded_def execution_failed_def execution_release_def lost)
qed

definition sample_run :: "execution_call list" where
  "sample_run = [ExecCreate ''EXOP-1'' ''TASK-1'' 1 ''head'' None 0, ExecRun ''EXOP-1'' ''LEASE-1'' 300 10]"

lemma sample_run_state:
  "run_state execution_step [] sample_run =
     [\<lparr>lr_id = ''EXOP-1'', lr_task = ''TASK-1'', lr_status = Exec_Running, lr_created = 0, lr_updated = 10,
       lr_result = None, lr_error = None, lr_owner = Some ''LEASE-1'', lr_expires = Some 310,
       lr_data = \<lparr>xd_version = 1, xd_head = ''head'', xd_authorization = None, xd_report = None\<rparr>\<rparr>]"
  by code_simp

theorem only_the_claimant_records_success_witness:
  "snd (execution_step (run_state execution_step [] sample_run) (ExecSucceed ''EXOP-1'' ''LEASE-1'' ''ok'' None 20))
   \<and> successes (execution_ends ''EXOP-1'') (run_trace execution_step [] sample_run) = 0"
proof -
  have ok: "snd (execution_step (run_state execution_step [] sample_run) (ExecSucceed ''EXOP-1'' ''LEASE-1'' ''ok'' None 20))"
    by code_simp
  with only_the_claimant_records_success [OF this] show ?thesis by blast
qed

theorem recovery_fences_the_owner_witness:
  "snd (execution_step (run_state execution_step [] sample_run) (ExecAmbiguous ''EXOP-1'' ''stale'' 400))
   \<and> execution_failed ''EXOP-1'' ''LEASE-1'' ''late'' 500
        (fst (execution_step (run_state execution_step [] sample_run) (ExecAmbiguous ''EXOP-1'' ''stale'' 400)))
      = (fst (execution_step (run_state execution_step [] sample_run) (ExecAmbiguous ''EXOP-1'' ''stale'' 400)),
         Inl LeaseLost)"
proof -
  obtain r where r: "find_operation ''EXOP-1'' (run_state execution_step [] sample_run) = Some r"
    "lr_status r = Exec_Running" "lr_expires r = Some 310"
    unfolding sample_run_state by (simp add: find_operation_def)
  show ?thesis
    using recovery_fences_the_owner [OF r, of "''stale''" 400 "''LEASE-1''" "''s''" None 500 "''late''"]
    unfolding Let_def split_beta by simp
qed

end
