(* ===== verification/Budgets.thy ===== *)
theory Budgets
  imports Prelude Complex_Main
begin

section \<open>Session budgets and progress (workcell/budgets.py)\<close>

text \<open>
  The ceilings of a session, their evaluation, and the tracker that decides from controller-owned
  observations whether a turn advanced anything. Seconds and pressure are rational numbers where
  the code has floating-point numbers; the sets of the tracker are lists used for membership. A
  breach keeps its kind and whether it carries guidance for the agent.
\<close>

datatype budget_kind =
    WALL_CLOCK | PROCESS_TIME | INPUT_TOKENS | OUTPUT_TOKENS | NO_PROGRESS | CALL_CEILING
  | DESTRUCTIVE_ACTIONS

record session_budget =
  sb_wall_clock :: rat
  sb_process :: rat
  sb_input_tokens :: int
  sb_output_tokens :: int
  sb_no_progress_turns :: int
  sb_identical_actions :: int
  sb_call_ceiling :: int
  sb_destructive :: int

text \<open>The field bounds and the model validator.\<close>

definition budget_valid :: "session_budget \<Rightarrow> bool" where
  "budget_valid b =
     (0 < sb_wall_clock b \<and> sb_wall_clock b \<le> 86400 \<and> 0 < sb_process b \<and> sb_process b \<le> 86400
      \<and> 1000 \<le> sb_input_tokens b \<and> 1000 \<le> sb_output_tokens b
      \<and> 1 \<le> sb_no_progress_turns b \<and> sb_no_progress_turns b \<le> 20
      \<and> 1 \<le> sb_identical_actions b \<and> sb_identical_actions b \<le> 20
      \<and> 10 \<le> sb_call_ceiling b \<and> sb_call_ceiling b \<le> 10000
      \<and> 0 \<le> sb_destructive b \<and> sb_destructive b \<le> 1000
      \<and> 50 \<le> sb_call_ceiling b)"

record token_ledger =
  tl_reported :: bool
  tl_input :: int
  tl_output :: int
  tl_cached :: int
  tl_estimated_input :: int
  tl_estimated_output :: int

definition ledger_from_trace :: "int \<Rightarrow> int \<Rightarrow> int \<Rightarrow> int \<Rightarrow> int \<Rightarrow> token_ledger" where
  "ledger_from_trace input output cached est_in est_out =
     \<lparr>tl_reported = (input \<noteq> 0 \<or> output \<noteq> 0 \<or> cached \<noteq> 0), tl_input = input, tl_output = output,
      tl_cached = cached, tl_estimated_input = est_in, tl_estimated_output = est_out\<rparr>"

definition estimate_error :: "token_ledger \<Rightarrow> int option" where
  "estimate_error l =
     (if \<not> tl_reported l \<or> tl_estimated_input l = 0 then None
      else Some (tl_estimated_input l - tl_input l))"

record budget_usage =
  us_wall_clock :: rat
  us_process :: rat
  us_tokens :: token_ledger
  us_calls :: int
  us_destructive :: int
  us_no_progress :: int
  us_identical :: int

record budget_breach =
  bb_kind :: budget_kind
  bb_guidance :: bool

record budget_verdict =
  bv_within :: bool
  bv_breaches :: "budget_breach list"
  bv_unenforced :: "budget_kind list"
  bv_pressure :: rat

subsection \<open>Evaluation\<close>

definition used_ratio :: "rat \<Rightarrow> rat \<Rightarrow> rat" where
  "used_ratio used limit = (if limit \<noteq> 0 then used / limit else 0)"

definition check_limit :: "budget_kind \<Rightarrow> rat \<Rightarrow> rat \<Rightarrow> bool \<Rightarrow> budget_breach list \<times> rat" where
  "check_limit kind used limit guidance =
     ((if used \<ge> limit then [\<lparr>bb_kind = kind, bb_guidance = guidance\<rparr>] else []), used_ratio used limit)"

definition budget_checks :: "session_budget \<Rightarrow> budget_usage \<Rightarrow> (budget_breach list \<times> rat) list" where
  "budget_checks b u =
     [check_limit WALL_CLOCK (us_wall_clock u) (sb_wall_clock b) False,
      check_limit PROCESS_TIME (us_process u) (sb_process b) False]
     @ (if tl_reported (us_tokens u) then
          [check_limit INPUT_TOKENS (of_int (tl_input (us_tokens u))) (of_int (sb_input_tokens b)) False,
           check_limit OUTPUT_TOKENS (of_int (tl_output (us_tokens u))) (of_int (sb_output_tokens b)) False]
        else [])
     @ [check_limit NO_PROGRESS (of_int (us_no_progress u)) (of_int (sb_no_progress_turns b)) True,
        check_limit CALL_CEILING (of_int (us_calls u)) (of_int (sb_call_ceiling b)) False,
        check_limit DESTRUCTIVE_ACTIONS (of_int (us_destructive u)) (of_int (sb_destructive b)) False]"

definition evaluate_budget :: "session_budget \<Rightarrow> budget_usage \<Rightarrow> budget_verdict" where
  "evaluate_budget b u =
     (let checks = budget_checks b u;
          breaches = concat (map fst checks)
            @ (if us_identical u \<ge> sb_identical_actions b
               then [\<lparr>bb_kind = NO_PROGRESS, bb_guidance = True\<rparr>] else []);
          unenforced = (if tl_reported (us_tokens u) then [] else [INPUT_TOKENS, OUTPUT_TOKENS])
      in \<lparr>bv_within = (breaches = []), bv_breaches = breaches, bv_unenforced = unenforced,
          bv_pressure = fold max (map snd (tl checks)) (snd (hd checks))\<rparr>)"

subsection \<open>Progress\<close>

datatype progress_kind = WORKTREE_PROGRESS | OBLIGATION_PROGRESS | EVIDENCE_PROGRESS | NONE_PROGRESS

record turn_observation =
  to_action :: string
  to_fingerprint :: "digest option"
  to_obligations :: "string list"
  to_evidence :: "string list"

record progress_tracker =
  pt_fingerprint :: "digest option"
  pt_no_progress :: nat
  pt_last_action :: "string option"
  pt_identical_run :: nat
  pt_max_identical :: nat
  pt_idle_actions :: "string list"
  pt_obligations :: "string list"
  pt_artifacts :: "string list"

definition new_tracker :: progress_tracker where
  "new_tracker = \<lparr>pt_fingerprint = None, pt_no_progress = 0, pt_last_action = None, pt_identical_run = 0,
     pt_max_identical = 0, pt_idle_actions = [], pt_obligations = [], pt_artifacts = []\<rparr>"

definition fresh_items :: "string list \<Rightarrow> string list \<Rightarrow> string list" where
  "fresh_items xs seen = filter (\<lambda>x. x \<notin> set seen) (remdups xs)"

definition record_action :: "string \<Rightarrow> progress_tracker \<Rightarrow> progress_tracker" where
  "record_action action t =
     (let run = (if pt_last_action t = Some action then pt_identical_run t + 1 else 1)
      in t\<lparr>pt_identical_run := run, pt_last_action := Some action,
           pt_max_identical := max (pt_max_identical t) run\<rparr>)"

definition turn_kinds :: "progress_tracker \<Rightarrow> turn_observation \<Rightarrow> progress_kind list" where
  "turn_kinds t ob =
     (if to_fingerprint ob \<noteq> None \<and> to_fingerprint ob \<noteq> pt_fingerprint t then [WORKTREE_PROGRESS] else [])
     @ (if fresh_items (to_obligations ob) (pt_obligations t) \<noteq> [] then [OBLIGATION_PROGRESS] else [])
     @ (if fresh_items (to_evidence ob) (pt_artifacts t) \<noteq> [] then [EVIDENCE_PROGRESS] else [])"

definition record_turn :: "progress_tracker \<Rightarrow> turn_observation \<Rightarrow> progress_tracker \<times> progress_kind list" where
  "record_turn t ob =
     (let t1 = record_action (to_action ob) t;
          kinds = turn_kinds t1 ob;
          t2 = t1\<lparr>pt_fingerprint := (if to_fingerprint ob \<noteq> None then to_fingerprint ob else pt_fingerprint t1),
                  pt_obligations := pt_obligations t1 @ fresh_items (to_obligations ob) (pt_obligations t1),
                  pt_artifacts := pt_artifacts t1 @ fresh_items (to_evidence ob) (pt_artifacts t1)\<rparr>
      in if kinds \<noteq> [] then (t2\<lparr>pt_no_progress := 0\<rparr>, kinds)
         else (t2\<lparr>pt_no_progress := pt_no_progress t2 + 1,
                  pt_idle_actions := (if to_action ob \<in> set (pt_idle_actions t2) then pt_idle_actions t2
                                      else pt_idle_actions t2 @ [to_action ob])\<rparr>,
               [NONE_PROGRESS]))"

definition tracker_after :: "turn_observation list \<Rightarrow> progress_tracker" where
  "tracker_after obs = foldl (\<lambda>t ob. fst (record_turn t ob)) new_tracker obs"

text \<open>
  The usage of a session: the clock's two numbers, overridden by what the controller counted.
\<close>

record session_clock =
  sc_started :: rat
  sc_process :: rat

definition add_process_time :: "rat \<Rightarrow> session_clock \<Rightarrow> session_clock" where
  "add_process_time seconds c = c\<lparr>sc_process := sc_process c + max 0 seconds\<rparr>"

definition clock_usage :: "session_clock \<Rightarrow> rat \<Rightarrow> token_ledger \<Rightarrow> int \<Rightarrow> int \<Rightarrow> progress_tracker \<Rightarrow> budget_usage" where
  "clock_usage c now tokens calls destructive t =
     \<lparr>us_wall_clock = now - sc_started c, us_process = sc_process c, us_tokens = tokens, us_calls = calls,
      us_destructive = destructive, us_no_progress = int (pt_no_progress t),
      us_identical = int (pt_max_identical t)\<rparr>"

subsection \<open>Facts\<close>

lemma fresh_items_empty: "fresh_items xs seen = [] \<longleftrightarrow> set xs \<subseteq> set seen"
  by (auto simp: fresh_items_def filter_empty_conv)

lemma set_fresh_items: "set (fresh_items xs seen) = set xs - set seen"
  by (auto simp: fresh_items_def)

lemma tracker_after_snoc: "tracker_after (obs @ [ob]) = fst (record_turn (tracker_after obs) ob)"
  by (simp add: tracker_after_def)

lemma record_action_frame [simp]:
  "pt_fingerprint (record_action a t) = pt_fingerprint t" "pt_no_progress (record_action a t) = pt_no_progress t"
  "pt_obligations (record_action a t) = pt_obligations t" "pt_artifacts (record_action a t) = pt_artifacts t"
  "pt_idle_actions (record_action a t) = pt_idle_actions t"
  by (simp_all add: record_action_def Let_def)

definition last_fingerprint :: "turn_observation list \<Rightarrow> digest option" where
  "last_fingerprint obs = fold (\<lambda>ob f. if to_fingerprint ob \<noteq> None then to_fingerprint ob else f) obs None"

text \<open>A turn advances when it shows something no earlier turn of the session showed.\<close>

definition advances :: "turn_observation list \<Rightarrow> turn_observation \<Rightarrow> bool" where
  "advances before ob =
     ((to_fingerprint ob \<noteq> None \<and> to_fingerprint ob \<noteq> last_fingerprint before)
      \<or> \<not> set (to_obligations ob) \<subseteq> (\<Union>x \<in> set before. set (to_obligations x))
      \<or> \<not> set (to_evidence ob) \<subseteq> (\<Union>x \<in> set before. set (to_evidence x)))"

lemma tracker_seen:
  "pt_fingerprint (tracker_after obs) = last_fingerprint obs
   \<and> set (pt_obligations (tracker_after obs)) = (\<Union>x \<in> set obs. set (to_obligations x))
   \<and> set (pt_artifacts (tracker_after obs)) = (\<Union>x \<in> set obs. set (to_evidence x))"
proof (induction obs rule: rev_induct)
  case Nil
  then show ?case by (simp add: tracker_after_def new_tracker_def last_fingerprint_def)
next
  case (snoc ob obs)
  then show ?case
    unfolding tracker_after_snoc
    by (auto simp: record_turn_def Let_def last_fingerprint_def set_fresh_items)
qed

lemma turn_kinds_advances: "turn_kinds (record_action a (tracker_after obs)) ob \<noteq> [] \<longleftrightarrow> advances obs ob"
  using tracker_seen [of obs] by (auto simp: turn_kinds_def advances_def fresh_items_empty)

lemma no_progress_snoc:
  "pt_no_progress (tracker_after (obs @ [ob])) =
     (if advances obs ob then 0 else Suc (pt_no_progress (tracker_after obs)))"
  unfolding tracker_after_snoc using turn_kinds_advances [of "to_action ob" obs ob]
  by (simp add: record_turn_def Let_def)

lemma identical_snoc:
  "pt_identical_run (tracker_after (obs @ [ob])) =
     (if pt_last_action (tracker_after obs) = Some (to_action ob) then Suc (pt_identical_run (tracker_after obs)) else 1)"
  "pt_last_action (tracker_after (obs @ [ob])) = Some (to_action ob)"
  "pt_max_identical (tracker_after (obs @ [ob])) =
     max (pt_max_identical (tracker_after obs)) (pt_identical_run (tracker_after (obs @ [ob])))"
  unfolding tracker_after_snoc by (simp_all add: record_turn_def record_action_def Let_def)

definition idle_tail :: "turn_observation list \<Rightarrow> nat \<Rightarrow> bool" where
  "idle_tail obs n = (n \<le> length obs
     \<and> (\<forall>k. length obs - n \<le> k \<and> k < length obs \<longrightarrow> \<not> advances (take k obs) (obs ! k)))"

lemma no_progress_tail: "n \<le> pt_no_progress (tracker_after obs) \<longleftrightarrow> idle_tail obs n"
proof (induction obs arbitrary: n rule: rev_induct)
  case Nil
  then show ?case by (simp add: tracker_after_def new_tracker_def idle_tail_def)
next
  case (snoc ob obs)
  show ?case
  proof (cases n)
    case 0
    then show ?thesis by (auto simp: idle_tail_def)
  next
    case (Suc m)
    have old: "advances (take k (obs @ [ob])) ((obs @ [ob]) ! k) \<longleftrightarrow> advances (take k obs) (obs ! k)"
      if "k < length obs" for k using that by (simp add: nth_append)
    have "idle_tail (obs @ [ob]) (Suc m) \<longleftrightarrow> \<not> advances obs ob \<and> idle_tail obs m"
      unfolding idle_tail_def using old
      by (auto simp: less_Suc_eq nth_append)
    with snoc [of m] show ?thesis by (simp add: no_progress_snoc Suc)
  qed
qed

lemma replicate_snoc: "xs @ replicate (Suc n) a = (xs @ replicate n a) @ [a]"
  by (simp add: replicate_append_same)

lemma identical_trail:
  "0 < n \<Longrightarrow> n \<le> pt_identical_run (tracker_after obs) \<longleftrightarrow> (\<exists>xs a. map to_action obs = xs @ replicate n a)"
proof (induction obs arbitrary: n rule: rev_induct)
  case Nil
  then show ?case by (auto simp: tracker_after_def new_tracker_def)
next
  case (snoc ob obs)
  have last: "pt_last_action (tracker_after obs) = (if obs = [] then None else Some (to_action (last obs)))"
  proof (cases obs rule: rev_cases)
    case Nil
    then show ?thesis by (simp add: tracker_after_def new_tracker_def)
  next
    case (snoc ys y)
    then show ?thesis by (simp add: identical_snoc(2))
  qed
  show ?case
  proof (cases "n = 1")
    case True
    then show ?thesis by (auto simp: identical_snoc(1))
  next
    case False
    with snoc.prems obtain m where n: "n = Suc m" "0 < m" by (cases n) auto
    have r: "(\<exists>xs a. map to_action (obs @ [ob]) = xs @ replicate n a)
        \<longleftrightarrow> (\<exists>xs. map to_action obs = xs @ replicate m (to_action ob))"
      unfolding n replicate_snoc by auto
    have l: "last (xs @ replicate m a) = a" for xs and a :: string using n(2) by simp
    show ?thesis
    proof (cases "pt_last_action (tracker_after obs) = Some (to_action ob)")
      case True
      then have la: "obs \<noteq> []" "to_action (last obs) = to_action ob" by (auto simp: last split: if_splits)
      have "(\<exists>xs a. map to_action obs = xs @ replicate m a) \<longleftrightarrow> (\<exists>xs. map to_action obs = xs @ replicate m (to_action ob))"
        using la l by (metis last_map)
      with snoc.IH [OF n(2)] True r show ?thesis by (simp add: identical_snoc(1) n)
    next
      case False
      have "\<not> (\<exists>xs. map to_action obs = xs @ replicate m (to_action ob))"
      proof
        assume "\<exists>xs. map to_action obs = xs @ replicate m (to_action ob)"
        then obtain xs where x: "map to_action obs = xs @ replicate m (to_action ob)" by blast
        then have "obs \<noteq> []" using n(2) by auto
        with x l have "to_action (last obs) = to_action ob" by (metis last_map)
        with False \<open>obs \<noteq> []\<close> show False by (simp add: last)
      qed
      with False r n show ?thesis by (simp add: identical_snoc(1))
    qed
  qed
qed

lemma identical_max:
  "0 < n \<Longrightarrow> n \<le> pt_max_identical (tracker_after obs) \<longleftrightarrow>
     (\<exists>xs a ys. map to_action obs = xs @ replicate n a @ ys)"
proof (induction obs rule: rev_induct)
  case Nil
  then show ?case by (auto simp: tracker_after_def new_tracker_def)
next
  case (snoc ob obs)
  have "(\<exists>xs a ys. map to_action (obs @ [ob]) = xs @ replicate n a @ ys) \<longleftrightarrow>
      (\<exists>xs a ys. map to_action obs = xs @ replicate n a @ ys)
      \<or> (\<exists>xs a. map to_action (obs @ [ob]) = xs @ replicate n a)"
  proof
    assume "\<exists>xs a ys. map to_action (obs @ [ob]) = xs @ replicate n a @ ys"
    then obtain xs a ys where e: "map to_action (obs @ [ob]) = xs @ replicate n a @ ys" by blast
    show "(\<exists>xs a ys. map to_action obs = xs @ replicate n a @ ys)
      \<or> (\<exists>xs a. map to_action (obs @ [ob]) = xs @ replicate n a)"
    proof (cases ys rule: rev_cases)
      case Nil
      with e show ?thesis by auto
    next
      case (snoc zs z)
      with e have "map to_action obs = xs @ replicate n a @ zs" by simp
      then show ?thesis by blast
    qed
  next
    assume "(\<exists>xs a ys. map to_action obs = xs @ replicate n a @ ys)
      \<or> (\<exists>xs a. map to_action (obs @ [ob]) = xs @ replicate n a)"
    then show "\<exists>xs a ys. map to_action (obs @ [ob]) = xs @ replicate n a @ ys"
    proof
      assume "\<exists>xs a ys. map to_action obs = xs @ replicate n a @ ys"
      then obtain xs a ys where "map to_action obs = xs @ replicate n a @ ys" by blast
      then have "map to_action (obs @ [ob]) = xs @ replicate n a @ (ys @ [to_action ob])" by simp
      then show ?thesis by blast
    next
      assume "\<exists>xs a. map to_action (obs @ [ob]) = xs @ replicate n a"
      then show ?thesis by (metis append_Nil2)
    qed
  qed
  with snoc identical_trail [OF snoc.prems, of "obs @ [ob]"] show ?case
    by (simp add: identical_snoc(3) le_max_iff_disj)
qed

lemma check_limit_empty [simp]: "fst (check_limit k used limit g) = [] \<longleftrightarrow> used < limit"
  by (simp add: check_limit_def not_le)

lemma check_limit_kinds [simp]: "bb_kind ` set (fst (check_limit k used limit g)) = (if limit \<le> used then {k} else {})"
  by (simp add: check_limit_def)

lemma evaluate_budget_fields:
  "bv_breaches (evaluate_budget b u) = concat (map fst (budget_checks b u))
     @ (if us_identical u \<ge> sb_identical_actions b then [\<lparr>bb_kind = NO_PROGRESS, bb_guidance = True\<rparr>] else [])"
  "bv_within (evaluate_budget b u) \<longleftrightarrow> bv_breaches (evaluate_budget b u) = []"
  "bv_unenforced (evaluate_budget b u) = (if tl_reported (us_tokens u) then [] else [INPUT_TOKENS, OUTPUT_TOKENS])"
  by (simp_all only: evaluate_budget_def Let_def budget_verdict.select_convs)

lemma budget_checks_within:
  "concat (map fst (budget_checks b u)) = [] \<longleftrightarrow>
      us_wall_clock u < sb_wall_clock b \<and> us_process u < sb_process b
      \<and> (tl_reported (us_tokens u) \<longrightarrow> tl_input (us_tokens u) < sb_input_tokens b
            \<and> tl_output (us_tokens u) < sb_output_tokens b)
      \<and> us_no_progress u < sb_no_progress_turns b \<and> us_calls u < sb_call_ceiling b
      \<and> us_destructive u < sb_destructive b"
  by (cases "tl_reported (us_tokens u)") (simp_all add: budget_checks_def)

lemma budget_checks_kinds:
  "NO_PROGRESS \<in> bb_kind ` set (concat (map fst (budget_checks b u))) \<longleftrightarrow> sb_no_progress_turns b \<le> us_no_progress u"
  by (cases "tl_reported (us_tokens u)") (simp_all add: budget_checks_def image_Un)

lemma budget_checks_estimates:
  "budget_checks b (u\<lparr>us_tokens := (us_tokens u)\<lparr>tl_estimated_input := x, tl_estimated_output := y\<rparr>\<rparr>)
     = budget_checks b u"
  by (simp add: budget_checks_def)

subsection \<open>Properties\<close>

text \<open>
  Every ceiling is judged, and only on measured numbers. A session is within budget exactly
  when each measured quantity is below its ceiling; token ceilings bind only when the provider
  reported usage and are listed as unenforced otherwise; and the local token estimates never
  influence the verdict.
\<close>

theorem budget_judges_measured_numbers:
  "(bv_within (evaluate_budget b u) \<longleftrightarrow>
      us_wall_clock u < sb_wall_clock b \<and> us_process u < sb_process b
      \<and> (tl_reported (us_tokens u) \<longrightarrow> tl_input (us_tokens u) < sb_input_tokens b
            \<and> tl_output (us_tokens u) < sb_output_tokens b)
      \<and> us_no_progress u < sb_no_progress_turns b \<and> us_calls u < sb_call_ceiling b
      \<and> us_destructive u < sb_destructive b \<and> us_identical u < sb_identical_actions b)
   \<and> bv_unenforced (evaluate_budget b u) = (if tl_reported (us_tokens u) then [] else [INPUT_TOKENS, OUTPUT_TOKENS])
   \<and> evaluate_budget b (u\<lparr>us_tokens := (us_tokens u)\<lparr>tl_estimated_input := x, tl_estimated_output := y\<rparr>\<rparr>)
       = evaluate_budget b u"
proof (intro conjI)
  show "evaluate_budget b (u\<lparr>us_tokens := (us_tokens u)\<lparr>tl_estimated_input := x, tl_estimated_output := y\<rparr>\<rparr>)
       = evaluate_budget b u"
    unfolding evaluate_budget_def budget_checks_estimates by simp
qed (simp_all only: evaluate_budget_fields append_is_Nil_conv budget_checks_within, auto simp: not_le)

text \<open>
  A session that stopped moving is stopped. For a valid budget, the verdict over the
  tracker's counts holds a no-progress breach exactly when none of the last so many turns showed
  a new worktree, a newly discharged obligation or a new evidence artifact, or when one action
  was repeated so many times in a row at any point; the agent's own account plays no part.
\<close>

theorem stalled_session_is_stopped:
  assumes valid: "budget_valid b"
  shows "NO_PROGRESS \<in> bb_kind ` set (bv_breaches (evaluate_budget b
             (clock_usage c now tokens calls destructive (tracker_after obs))))
     \<longleftrightarrow> idle_tail obs (nat (sb_no_progress_turns b))
        \<or> (\<exists>xs a ys. map to_action obs = xs @ replicate (nat (sb_identical_actions b)) a @ ys)"
proof -
  from valid have pos: "0 < nat (sb_no_progress_turns b)" "0 < nat (sb_identical_actions b)"
    by (auto simp: budget_valid_def)
  have "NO_PROGRESS \<in> bb_kind ` set (bv_breaches (evaluate_budget b
             (clock_usage c now tokens calls destructive (tracker_after obs))))
     \<longleftrightarrow> sb_no_progress_turns b \<le> int (pt_no_progress (tracker_after obs))
        \<or> sb_identical_actions b \<le> int (pt_max_identical (tracker_after obs))"
    unfolding evaluate_budget_fields set_append image_Un Un_iff budget_checks_kinds
    by (auto simp: clock_usage_def)
  also have "\<dots> \<longleftrightarrow> nat (sb_no_progress_turns b) \<le> pt_no_progress (tracker_after obs)
        \<or> nat (sb_identical_actions b) \<le> pt_max_identical (tracker_after obs)"
    by (simp add: nat_le_iff)
  also have "\<dots> \<longleftrightarrow> idle_tail obs (nat (sb_no_progress_turns b))
        \<or> (\<exists>xs a ys. map to_action obs = xs @ replicate (nat (sb_identical_actions b)) a @ ys)"
    unfolding no_progress_tail identical_max [OF pos(2)] ..
  finally show ?thesis .
qed

definition sample_budget :: session_budget where
  "sample_budget = \<lparr>sb_wall_clock = 1800, sb_process = 1200, sb_input_tokens = 1000000,
     sb_output_tokens = 200000, sb_no_progress_turns = 3, sb_identical_actions = 3,
     sb_call_ceiling = 400, sb_destructive = 0\<rparr>"

definition sample_usage :: budget_usage where
  "sample_usage = \<lparr>us_wall_clock = 1, us_process = 0, us_tokens = ledger_from_trace 0 0 0 0 0, us_calls = 0,
     us_destructive = 0, us_no_progress = 0, us_identical = 0\<rparr>"

theorem budget_judges_measured_numbers_witness:
  "\<not> bv_within (evaluate_budget sample_budget sample_usage)
   \<and> bv_within (evaluate_budget (sample_budget\<lparr>sb_destructive := 1\<rparr>) sample_usage)"
  using budget_judges_measured_numbers [of sample_budget sample_usage 0 0]
    budget_judges_measured_numbers [of "sample_budget\<lparr>sb_destructive := 1\<rparr>" sample_usage 0 0]
  by (simp add: sample_budget_def sample_usage_def ledger_from_trace_def)

definition idle_turn :: turn_observation where
  "idle_turn = \<lparr>to_action = ''ls'', to_fingerprint = None, to_obligations = [], to_evidence = []\<rparr>"

theorem stalled_session_is_stopped_witness:
  "NO_PROGRESS \<in> bb_kind ` set (bv_breaches (evaluate_budget sample_budget
     (clock_usage \<lparr>sc_started = 0, sc_process = 0\<rparr> 1 (ledger_from_trace 0 0 0 0 0) 3 0
        (tracker_after [idle_turn, idle_turn, idle_turn]))))"
proof -
  have valid: "budget_valid sample_budget" by (simp add: budget_valid_def sample_budget_def)
  have "map to_action [idle_turn, idle_turn, idle_turn]
      = [] @ replicate (nat (sb_identical_actions sample_budget)) ''ls'' @ []"
    by (simp add: idle_turn_def sample_budget_def numeral_3_eq_3)
  then show ?thesis unfolding stalled_session_is_stopped [OF valid] by blast
qed

end
