(* ===== verification/Spending.thy ===== *)
theory Spending
  imports Prelude Complex_Main
begin

section \<open>Hosted spend and its ceiling\<close>

text \<open>
  The price of one call as the telemetry computes it (models/telemetry.py), the pessimistic
  estimates, the ledger and the provider wrapper that enforces a ceiling on every call
  (evaluation/spend_ceiling.py). Dollars are rational numbers where the code has floating-point
  numbers. The provider is not under the model: each call comes with what it answered, the usage
  of a completed call or an error.
\<close>

record pricing =
  pr_input :: rat
  pr_output :: rat
  pr_cached :: rat

definition pricing_valid :: "pricing \<Rightarrow> bool" where
  "pricing_valid p = (0 \<le> pr_input p \<and> 0 \<le> pr_output p \<and> 0 \<le> pr_cached p)"

record token_usage =
  tu_input :: nat
  tu_output :: nat
  tu_cached :: nat

definition call_cost :: "pricing \<Rightarrow> token_usage \<Rightarrow> rat" where
  "call_cost p u =
     (let cached = min (tu_cached u) (tu_input u); uncached = tu_input u - cached
      in (of_nat uncached * pr_input p + of_nat cached * pr_cached p + of_nat (tu_output u) * pr_output p)
          / 1000000)"

subsection \<open>Estimates\<close>

definition estimated_tokens :: "int \<Rightarrow> int" where
  "estimated_tokens chars = - ((- chars) div 4)"

definition estimate_worst_case_call_cost :: "int \<Rightarrow> int \<Rightarrow> pricing \<Rightarrow> rat" where
  "estimate_worst_case_call_cost chars max_output p =
     (of_int (estimated_tokens chars) * pr_input p + of_int max_output * pr_output p) / 1000000"

datatype eval_lane = LOCAL_LANE | HYBRID | FORCED_ESCALATION | FRONTIER | ONE_SHOT | LOCAL_STRICT

definition requires_frontier_coder :: "eval_lane \<Rightarrow> bool" where
  "requires_frontier_coder lane = (lane \<in> set [HYBRID, FORCED_ESCALATION, FRONTIER])"

record run_limits =
  rl_max_chars :: int
  rl_max_turns :: int
  rl_coder :: "(int \<times> pricing) option"

definition estimate_worst_case_run_cost :: "run_limits \<Rightarrow> eval_lane list \<Rightarrow> rat" where
  "estimate_worst_case_run_cost c lanes =
     (case rl_coder c of None \<Rightarrow> 0
      | Some (max_output, p) \<Rightarrow>
          (let n = length (filter requires_frontier_coder lanes) in
           if n = 0 then 0
           else estimate_worst_case_call_cost (rl_max_chars c) max_output p * of_int (rl_max_turns c) * of_nat n))"

subsection \<open>The ledger\<close>

datatype spend_error = CeilingRefused | CeilingOverrun | ProviderFailed

record spend_ledger =
  sl_ceiling :: rat
  sl_spent :: rat
  sl_recorded :: nat
  sl_refused :: nat
  sl_exceeded :: bool

definition new_ledger :: "rat \<Rightarrow> spend_ledger option" where
  "new_ledger limit =
     (if limit < 0 then None
      else Some \<lparr>sl_ceiling = limit, sl_spent = 0, sl_recorded = 0, sl_refused = 0, sl_exceeded = False\<rparr>)"

definition remaining :: "spend_ledger \<Rightarrow> rat" where
  "remaining l = max 0 (sl_ceiling l - sl_spent l)"

definition refuse_if_worst_case_exceeds :: "rat \<Rightarrow> spend_ledger \<Rightarrow> spend_ledger \<times> bool" where
  "refuse_if_worst_case_exceeds worst l =
     (if sl_spent l + worst > sl_ceiling l
      then (l\<lparr>sl_refused := sl_refused l + 1, sl_exceeded := True\<rparr>, True) else (l, False))"

definition record_actual :: "rat \<Rightarrow> spend_ledger \<Rightarrow> spend_ledger \<times> bool" where
  "record_actual actual l =
     (let l1 = l\<lparr>sl_spent := sl_spent l + actual, sl_recorded := sl_recorded l + 1\<rparr>
      in if sl_spent l1 > sl_ceiling l1 then (l1\<lparr>sl_exceeded := True\<rparr>, True) else (l1, False))"

subsection \<open>A call through the wrapper\<close>

record hosted_call =
  hc_chars :: nat
  hc_max_output :: "nat option"
  hc_response :: "token_usage option"

definition effective_max_output :: "nat \<Rightarrow> hosted_call \<Rightarrow> nat" where
  "effective_max_output cap c =
     (case hc_max_output c of None \<Rightarrow> cap | Some n \<Rightarrow> if n = 0 then cap else n)"

definition worst_case :: "pricing \<Rightarrow> nat \<Rightarrow> hosted_call \<Rightarrow> rat" where
  "worst_case p cap c =
     estimate_worst_case_call_cost (int (hc_chars c)) (int (effective_max_output cap c)) p"

definition complete_call ::
  "pricing \<Rightarrow> nat \<Rightarrow> hosted_call \<Rightarrow> spend_ledger \<Rightarrow> spend_ledger \<times> (spend_error + token_usage)" where
  "complete_call p cap c l =
     (case refuse_if_worst_case_exceeds (worst_case p cap c) l of
        (l1, True) \<Rightarrow> (l1, Inl CeilingRefused)
      | (l1, False) \<Rightarrow>
          (case hc_response c of
             None \<Rightarrow> (l1, Inl ProviderFailed)
           | Some u \<Rightarrow>
               (case record_actual (call_cost p u) l1 of
                  (l2, True) \<Rightarrow> (l2, Inl CeilingOverrun)
                | (l2, False) \<Rightarrow> (l2, Inr u))))"

fun complete_calls ::
  "pricing \<Rightarrow> nat \<Rightarrow> hosted_call list \<Rightarrow> spend_ledger \<Rightarrow> spend_ledger \<times> (spend_error + token_usage) list" where
  "complete_calls p cap [] l = (l, [])"
| "complete_calls p cap (c # cs) l =
     (case complete_call p cap c l of (l1, r) \<Rightarrow>
        (case complete_calls p cap cs l1 of (l2, rs) \<Rightarrow> (l2, r # rs)))"

text \<open>The calls that reached the provider and were billed, in order.\<close>

definition billed :: "hosted_call list \<Rightarrow> (spend_error + token_usage) list \<Rightarrow> token_usage list" where
  "billed cs rs = List.map_filter (\<lambda>(c, r). if r = Inl CeilingRefused then None else hc_response c) (zip cs rs)"

subsection \<open>Facts\<close>

lemma estimated_tokens_bounds: "chars \<le> 4 * estimated_tokens chars" "4 * estimated_tokens chars < chars + 4"
  unfolding estimated_tokens_def by presburger+

lemma estimated_tokens_mono: "a \<le> b \<Longrightarrow> estimated_tokens a \<le> estimated_tokens b"
  unfolding estimated_tokens_def by presburger

lemma call_cost_nonneg: "pricing_valid p \<Longrightarrow> 0 \<le> call_cost p u"
  by (simp add: call_cost_def Let_def pricing_valid_def)

lemma worst_case_nonneg: "pricing_valid p \<Longrightarrow> 0 \<le> worst_case p cap c"
  using estimated_tokens_bounds(1) [of "int (hc_chars c)"]
  by (simp add: worst_case_def estimate_worst_case_call_cost_def pricing_valid_def)

text \<open>The estimate covers a call whose tokens it covers, if cached input is not dearer than input.\<close>

definition within_estimate :: "nat \<Rightarrow> hosted_call \<Rightarrow> bool" where
  "within_estimate cap c =
     (case hc_response c of None \<Rightarrow> True
      | Some u \<Rightarrow> int (tu_input u) \<le> estimated_tokens (int (hc_chars c)) \<and> tu_output u \<le> effective_max_output cap c)"

lemma cost_le_worst_case:
  assumes p: "pricing_valid p" "pr_cached p \<le> pr_input p"
    and w: "within_estimate cap c" "hc_response c = Some u"
  shows "call_cost p u \<le> worst_case p cap c"
proof -
  let ?c = "min (tu_cached u) (tu_input u)"
  let ?e = "estimated_tokens (int (hc_chars c))"
  have split: "(of_nat (tu_input u) :: rat) = of_nat (tu_input u - ?c) + of_nat ?c"
    by (simp flip: of_nat_add)
  have "of_nat ?c * pr_cached p \<le> of_nat ?c * pr_input p"
    using p by (intro mult_left_mono) auto
  then have i: "of_nat (tu_input u - ?c) * pr_input p + of_nat ?c * pr_cached p \<le> of_nat (tu_input u) * pr_input p"
    unfolding split distrib_right by simp
  have "(of_nat (tu_input u) :: rat) = of_int (int (tu_input u))" by simp
  also have "\<dots> \<le> of_int ?e" using w by (simp only: of_int_le_iff) (simp add: within_estimate_def)
  finally have "of_nat (tu_input u) * pr_input p \<le> of_int ?e * pr_input p"
    using p by (intro mult_right_mono) (auto simp: pricing_valid_def)
  moreover have "of_nat (tu_output u) * pr_output p \<le> of_nat (effective_max_output cap c) * pr_output p"
    using p w by (intro mult_right_mono) (auto simp: pricing_valid_def within_estimate_def)
  ultimately show ?thesis
    using i by (simp add: call_cost_def worst_case_def estimate_worst_case_call_cost_def Let_def divide_right_mono)
qed

lemma complete_call_cases:
  "complete_call p cap c l =
     (if sl_spent l + worst_case p cap c > sl_ceiling l
      then (l\<lparr>sl_refused := sl_refused l + 1, sl_exceeded := True\<rparr>, Inl CeilingRefused)
      else (case hc_response c of None \<Rightarrow> (l, Inl ProviderFailed)
        | Some u \<Rightarrow>
            (if sl_spent l + call_cost p u > sl_ceiling l
             then (l\<lparr>sl_spent := sl_spent l + call_cost p u, sl_recorded := sl_recorded l + 1, sl_exceeded := True\<rparr>,
                   Inl CeilingOverrun)
             else (l\<lparr>sl_spent := sl_spent l + call_cost p u, sl_recorded := sl_recorded l + 1\<rparr>, Inr u))))"
  by (simp add: complete_call_def refuse_if_worst_case_exceeds_def record_actual_def Let_def split: option.split)

lemma complete_calls_length: "length (snd (complete_calls p cap cs l)) = length cs"
  by (induction cs arbitrary: l) (auto split: prod.split, metis snd_conv)

lemma billed_Nil [simp]: "billed [] rs = []"
  by (simp add: billed_def map_filter_simps)

lemma billed_Cons [simp]:
  "billed (c # cs) (r # rs) =
     (if r = Inl CeilingRefused then [] else case hc_response c of None \<Rightarrow> [] | Some u \<Rightarrow> [u]) @ billed cs rs"
  by (simp add: billed_def map_filter_simps split: option.split)

lemma complete_calls_Cons [simp]:
  "fst (complete_calls p cap (c # cs) l) = fst (complete_calls p cap cs (fst (complete_call p cap c l)))"
  "snd (complete_calls p cap (c # cs) l) =
     snd (complete_call p cap c l) # snd (complete_calls p cap cs (fst (complete_call p cap c l)))"
  by (simp_all add: split_beta)

declare complete_calls.simps(2) [simp del]

lemma complete_call_ceiling [simp]: "sl_ceiling (fst (complete_call p cap c l)) = sl_ceiling l"
  by (simp add: complete_call_cases split: option.split)

lemma complete_call_spent:
  "sl_spent (fst (complete_call p cap c l)) = sl_spent l
     + sum_list (map (call_cost p) (billed [c] [snd (complete_call p cap c l)]))"
  by (simp add: complete_call_cases split: option.split)

lemma complete_calls_spent:
  "sl_spent (fst (complete_calls p cap cs l)) = sl_spent l
     + sum_list (map (call_cost p) (billed cs (snd (complete_calls p cap cs l))))"
  by (induction cs arbitrary: l) (simp_all add: complete_call_spent)

lemma complete_calls_ceiling [simp]: "sl_ceiling (fst (complete_calls p cap cs l)) = sl_ceiling l"
  by (induction cs arbitrary: l) simp_all

lemma complete_call_exceeded:
  "sl_exceeded (fst (complete_call p cap c l)) \<longleftrightarrow>
     sl_exceeded l \<or> snd (complete_call p cap c l) \<in> {Inl CeilingRefused, Inl CeilingOverrun}"
  by (simp add: complete_call_cases split: option.split)

lemma complete_calls_exceeded:
  "sl_exceeded (fst (complete_calls p cap cs l)) \<longleftrightarrow>
     sl_exceeded l \<or> set (snd (complete_calls p cap cs l)) \<inter> {Inl CeilingRefused, Inl CeilingOverrun} \<noteq> {}"
  by (induction cs arbitrary: l) (auto simp: complete_call_exceeded)

lemma overspent_call:
  assumes "pricing_valid p" "sl_ceiling l < sl_spent l"
  shows "snd (complete_call p cap c l) = Inl CeilingRefused"
    "sl_spent (fst (complete_call p cap c l)) = sl_spent l"
  using assms worst_case_nonneg [of p cap c] by (simp_all add: complete_call_cases)

lemma overspent_calls:
  "pricing_valid p \<Longrightarrow> sl_ceiling l < sl_spent l \<Longrightarrow>
     snd (complete_calls p cap cs l) = replicate (length cs) (Inl CeilingRefused)"
  by (induction cs arbitrary: l) (simp_all add: overspent_call)

lemma billed_refused [simp]: "billed cs (replicate (length cs) (Inl CeilingRefused)) = []"
  by (induction cs) simp_all

lemma overrun_spends:
  "snd (complete_call p cap c l) = Inl CeilingOverrun \<longleftrightarrow>
     sl_spent l + worst_case p cap c \<le> sl_ceiling l \<and> sl_ceiling l < sl_spent (fst (complete_call p cap c l))"
  if "pricing_valid p"
  using worst_case_nonneg [OF that, of cap c] by (simp add: complete_call_cases split: option.split)

lemma complete_calls_stops:
  assumes "pricing_valid p" "sl_spent l \<le> sl_ceiling l"
  shows "sl_spent (fst (complete_calls p cap cs l)) \<le> sl_ceiling l
     \<or> (\<exists>us u. billed cs (snd (complete_calls p cap cs l)) = us @ [u]
          \<and> sl_spent l + sum_list (map (call_cost p) us) \<le> sl_ceiling l)"
  using assms(2)
proof (induction cs arbitrary: l)
  case Nil
  then show ?case by simp
next
  case (Cons c cs)
  let ?l1 = "fst (complete_call p cap c l)" and ?r = "snd (complete_call p cap c l)"
  show ?case
  proof (cases "sl_spent ?l1 \<le> sl_ceiling l")
    case True
    from Cons.IH [of ?l1] True consider
      "sl_spent (fst (complete_calls p cap cs ?l1)) \<le> sl_ceiling l"
      | us u where "billed cs (snd (complete_calls p cap cs ?l1)) = us @ [u]"
        "sl_spent ?l1 + sum_list (map (call_cost p) us) \<le> sl_ceiling l" by auto
    then show ?thesis
    proof cases
      case 2
      then have "billed (c # cs) (snd (complete_calls p cap (c # cs) l)) = (billed [c] [?r] @ us) @ [u]"
        "sl_spent l + sum_list (map (call_cost p) (billed [c] [?r] @ us)) \<le> sl_ceiling l"
        by (simp_all add: complete_call_spent [of p cap c l] add.assoc)
      then show ?thesis by blast
    qed simp
  next
    case False
    then have over: "snd (complete_calls p cap cs ?l1) = replicate (length cs) (Inl CeilingRefused)"
      using assms(1) by (intro overspent_calls) auto
    from False Cons.prems have "billed [c] [?r] \<noteq> []" using complete_call_spent [of p cap c l] by auto
    then obtain u where "billed [c] [?r] = [u]" by (auto split: if_splits option.splits)
    with over Cons.prems show ?thesis by (simp add: exI [of _ "[]"])
  qed
qed

lemma refused_after_overrun:
  assumes "pricing_valid p"
  shows "i < j \<Longrightarrow> j < length cs \<Longrightarrow> snd (complete_calls p cap cs l) ! i = Inl CeilingOverrun
     \<Longrightarrow> snd (complete_calls p cap cs l) ! j = Inl CeilingRefused"
proof (induction cs arbitrary: l i j)
  case Nil
  then show ?case by simp
next
  case (Cons c cs)
  then obtain j' where j: "j = Suc j'" by (cases j) auto
  show ?case
  proof (cases i)
    case 0
    with Cons.prems have "sl_ceiling l < sl_spent (fst (complete_call p cap c l))"
      using overrun_spends [OF assms, of cap c l] by simp
    with Cons.prems j assms show ?thesis by (simp add: overspent_calls)
  next
    case (Suc i')
    with Cons j show ?thesis by simp
  qed
qed

lemma covered_call:
  assumes "pricing_valid p" "pr_cached p \<le> pr_input p" "within_estimate cap c" "sl_spent l \<le> sl_ceiling l"
  shows "sl_spent (fst (complete_call p cap c l)) \<le> sl_ceiling l"
    "snd (complete_call p cap c l) \<noteq> Inl CeilingOverrun"
proof -
  show spent: "sl_spent (fst (complete_call p cap c l)) \<le> sl_ceiling l"
    using assms(4) cost_le_worst_case [OF assms(1-3)]
    by (force simp: complete_call_cases split: option.split)
  show "snd (complete_call p cap c l) \<noteq> Inl CeilingOverrun"
    using spent unfolding overrun_spends [OF assms(1)] by simp
qed

lemma covered_calls:
  assumes "pricing_valid p" "pr_cached p \<le> pr_input p"
  shows "list_all (within_estimate cap) cs \<Longrightarrow> sl_spent l \<le> sl_ceiling l \<Longrightarrow>
     sl_spent (fst (complete_calls p cap cs l)) \<le> sl_ceiling l
     \<and> Inl CeilingOverrun \<notin> set (snd (complete_calls p cap cs l))"
proof (induction cs arbitrary: l)
  case Nil
  then show ?case by simp
next
  case (Cons c cs)
  with covered_call [OF assms, of cap c l] Cons.IH [of "fst (complete_call p cap c l)"] show ?case
    by (auto simp: eq_commute)
qed

text \<open>A run of the hosted lanes that keeps to its limits.\<close>

definition within_limits :: "run_limits \<Rightarrow> nat \<Rightarrow> hosted_call \<Rightarrow> bool" where
  "within_limits c cap k = (int (hc_chars k) \<le> rl_max_chars c \<and> effective_max_output cap k \<le> cap)"

lemma within_limits_worst_case:
  assumes "pricing_valid p" "within_limits c cap k"
  shows "worst_case p cap k \<le> estimate_worst_case_call_cost (rl_max_chars c) (int cap) p"
proof -
  have "(of_int (estimated_tokens (int (hc_chars k))) :: rat) \<le> of_int (estimated_tokens (rl_max_chars c))"
    using estimated_tokens_mono assms(2) by (simp add: within_limits_def)
  then have "of_int (estimated_tokens (int (hc_chars k))) * pr_input p \<le> of_int (estimated_tokens (rl_max_chars c)) * pr_input p"
    using assms(1) by (intro mult_right_mono) (auto simp: pricing_valid_def)
  moreover have "of_nat (effective_max_output cap k) * pr_output p \<le> of_nat cap * pr_output p"
    using assms by (intro mult_right_mono) (auto simp: pricing_valid_def within_limits_def)
  ultimately show ?thesis
    by (simp add: worst_case_def estimate_worst_case_call_cost_def divide_right_mono)
qed

lemma affordable_calls:
  assumes p: "pricing_valid p" "pr_cached p \<le> pr_input p" and m: "0 \<le> m"
  shows "list_all (within_estimate cap) cs \<Longrightarrow> \<forall>k \<in> set cs. worst_case p cap k \<le> m \<Longrightarrow>
     sl_spent l + of_nat (length cs) * m \<le> sl_ceiling l \<Longrightarrow>
     set (snd (complete_calls p cap cs l)) \<inter> {Inl CeilingRefused, Inl CeilingOverrun} = {}"
proof (induction cs arbitrary: l)
  case Nil
  then show ?case by simp
next
  case (Cons k cs)
  let ?l1 = "fst (complete_call p cap k l)"
  have room: "sl_spent l + m + of_nat (length cs) * m \<le> sl_ceiling l"
    using Cons.prems(3) by (simp add: distrib_right)
  have tail: "0 \<le> of_nat (length cs) * m" using m by simp
  have w: "worst_case p cap k \<le> m" using Cons.prems(2) by simp
  from room tail w have fits: "sl_spent l + worst_case p cap k \<le> sl_ceiling l" by linarith
  with worst_case_nonneg [OF p(1), of cap k] have "sl_spent l \<le> sl_ceiling l" by linarith
  with covered_call [OF p, of cap k l] Cons.prems(1) have no: "snd (complete_call p cap k l) \<noteq> Inl CeilingOverrun" by simp
  have cost: "call_cost p u \<le> m" if "hc_response k = Some u" for u
    using cost_le_worst_case [OF p, of cap k u] that Cons.prems(1) w by (auto intro: order_trans)
  have "sl_spent ?l1 \<le> sl_spent l + m"
    using cost m fits by (auto simp: complete_call_cases split: option.split)
  with room have "sl_spent ?l1 + of_nat (length cs) * m \<le> sl_ceiling ?l1" by simp
  with Cons have "set (snd (complete_calls p cap cs ?l1)) \<inter> {Inl CeilingRefused, Inl CeilingOverrun} = {}" by simp
  moreover have "snd (complete_call p cap k l) \<noteq> Inl CeilingRefused"
    using fits by (auto simp: complete_call_cases split: option.split)
  ultimately show ?case using no by (auto simp: eq_commute)
qed

subsection \<open>Properties\<close>

text \<open>
  C35: the ceiling stops the spending. Whatever the provider answers, the ledger holds exactly
  the price of the billed calls; only the last billed call can push it past the ceiling, and after
  such an overrun every further call is refused before it reaches the provider; the ledger's flag
  says that some call was refused or overran. When no answer uses more tokens than its estimate
  and cached input is not dearer than input, the ceiling is never passed and no call overruns. The
  class comment (spend_ceiling.py:82) says that either failing check leaves the total exactly where it
  was; that holds of the check before a call only: the call that overruns is billed and its price
  stays in the total.
\<close>

theorem spending_stops_at_ceiling:
  assumes price: "pricing_valid p" and start: "new_ledger limit = Some l0"
    and run: "complete_calls p cap cs l0 = (l, rs)"
  shows "sl_spent l = sum_list (map (call_cost p) (billed cs rs))
     \<and> (sl_spent l \<le> limit \<or> (\<exists>us u. billed cs rs = us @ [u] \<and> sum_list (map (call_cost p) us) \<le> limit))
     \<and> (\<forall>i j. i < j \<and> j < length cs \<and> rs ! i = Inl CeilingOverrun \<longrightarrow> rs ! j = Inl CeilingRefused)
     \<and> (sl_exceeded l \<longleftrightarrow> Inl CeilingRefused \<in> set rs \<or> Inl CeilingOverrun \<in> set rs)
     \<and> (pr_cached p \<le> pr_input p \<and> list_all (within_estimate cap) cs \<longrightarrow>
          sl_spent l \<le> limit \<and> Inl CeilingOverrun \<notin> set rs)"
proof -
  from start have l0: "sl_spent l0 = 0" "sl_ceiling l0 = limit" "\<not> sl_exceeded l0" "0 \<le> limit"
    by (auto simp: new_ledger_def split: if_splits)
  have l: "l = fst (complete_calls p cap cs l0)" "rs = snd (complete_calls p cap cs l0)" using run by simp_all
  show ?thesis
    unfolding l
  proof (intro conjI impI allI)
    show "sl_spent (fst (complete_calls p cap cs l0)) \<le> limit
        \<or> (\<exists>us u. billed cs (snd (complete_calls p cap cs l0)) = us @ [u] \<and> sum_list (map (call_cost p) us) \<le> limit)"
      using complete_calls_stops [OF price, of l0 cap cs] l0 by simp
    show "snd (complete_calls p cap cs l0) ! j = Inl CeilingRefused"
      if "i < j \<and> j < length cs \<and> snd (complete_calls p cap cs l0) ! i = Inl CeilingOverrun" for i j
      using refused_after_overrun [OF price] that by blast
    show "sl_exceeded (fst (complete_calls p cap cs l0)) \<longleftrightarrow>
        Inl CeilingRefused \<in> set (snd (complete_calls p cap cs l0)) \<or> Inl CeilingOverrun \<in> set (snd (complete_calls p cap cs l0))"
      using l0 by (simp add: complete_calls_exceeded)
    assume c: "pr_cached p \<le> pr_input p \<and> list_all (within_estimate cap) cs"
    show "sl_spent (fst (complete_calls p cap cs l0)) \<le> limit"
      "Inl CeilingOverrun \<notin> set (snd (complete_calls p cap cs l0))"
      using covered_calls [OF price, of cap cs l0] c l0 by simp_all
  qed (simp add: complete_calls_spent l0)
qed

text \<open>
  A ceiling that covers the estimate of a run never interrupts it. If the ceiling is at least
  the worst-case cost computed from the configuration, and the run makes no more calls than turns
  in the hosted lanes, each within the configured prompt and output limits and each answered
  within its token estimate, then no call is refused and none overruns.
\<close>

theorem covered_run_is_never_interrupted:
  assumes price: "pricing_valid p" "pr_cached p \<le> pr_input p" and coder: "rl_coder c = Some (int cap, p)"
    and covered: "estimate_worst_case_run_cost c lanes \<le> limit" and start: "new_ledger limit = Some l0"
    and turns: "int (length cs) \<le> rl_max_turns c * int (length (filter requires_frontier_coder lanes))"
    and calls: "\<forall>k \<in> set cs. within_limits c cap k \<and> within_estimate cap k"
  shows "Inl CeilingRefused \<notin> set (snd (complete_calls p cap cs l0))
     \<and> Inl CeilingOverrun \<notin> set (snd (complete_calls p cap cs l0))
     \<and> \<not> sl_exceeded (fst (complete_calls p cap cs l0))"
proof -
  from start have l0: "sl_spent l0 = 0" "sl_ceiling l0 = limit" "\<not> sl_exceeded l0"
    by (auto simp: new_ledger_def split: if_splits)
  have "set (snd (complete_calls p cap cs l0)) \<inter> {Inl CeilingRefused, Inl CeilingOverrun} = {}"
  proof (cases "cs = []")
    case False
    let ?n = "length (filter requires_frontier_coder lanes)"
    let ?m = "estimate_worst_case_call_cost (rl_max_chars c) (int cap) p"
    from False have "0 < int (length cs)" by simp
    with turns have n: "?n \<noteq> 0" by (cases ?n) auto
    have w: "\<forall>k \<in> set cs. worst_case p cap k \<le> ?m" using calls within_limits_worst_case [OF price(1)] by blast
    with False worst_case_nonneg [OF price(1), of cap "hd cs"] have m: "0 \<le> ?m" by (meson hd_in_set order_trans)
    have "of_nat (length cs) * ?m \<le> of_int (rl_max_turns c * int ?n) * ?m"
    proof (rule mult_right_mono [OF _ m])
      have "(of_nat (length cs) :: rat) = of_int (int (length cs))" by simp
      also have "\<dots> \<le> of_int (rl_max_turns c * int ?n)" using turns by (simp only: of_int_le_iff)
      finally show "of_nat (length cs) \<le> (of_int (rl_max_turns c * int ?n) :: rat)" .
    qed
    also have "\<dots> = estimate_worst_case_run_cost c lanes"
      using n by (simp add: estimate_worst_case_run_cost_def coder Let_def mult.assoc mult.commute)
    finally have "of_nat (length cs) * ?m \<le> limit" using covered by (rule order_trans)
    with affordable_calls [OF price m _ w, of l0] calls l0 show ?thesis by (simp add: list_all_iff)
  qed simp
  with l0 show ?thesis by (auto simp: complete_calls_exceeded)
qed

definition sample_pricing :: pricing where
  "sample_pricing = \<lparr>pr_input = 5, pr_output = 20, pr_cached = 1\<rparr>"

definition sample_call :: hosted_call where
  "sample_call = \<lparr>hc_chars = 8, hc_max_output = None,
     hc_response = Some \<lparr>tu_input = 2, tu_output = 1, tu_cached = 0\<rparr>\<rparr>"

definition sample_limits :: run_limits where
  "sample_limits = \<lparr>rl_max_chars = 8, rl_max_turns = 2, rl_coder = Some (2, sample_pricing)\<rparr>"

theorem spending_stops_at_ceiling_witness:
  "sl_spent (fst (complete_calls sample_pricing 2 [sample_call] \<lparr>sl_ceiling = 1, sl_spent = 0, sl_recorded = 0,
     sl_refused = 0, sl_exceeded = False\<rparr>)) \<le> 1"
proof -
  have p: "pricing_valid sample_pricing" by (simp add: pricing_valid_def sample_pricing_def)
  have s: "new_ledger 1 = Some \<lparr>sl_ceiling = 1, sl_spent = 0, sl_recorded = 0, sl_refused = 0, sl_exceeded = False\<rparr>"
    by (simp add: new_ledger_def)
  have w: "within_estimate 2 sample_call"
    by (simp add: within_estimate_def sample_call_def estimated_tokens_def effective_max_output_def)
  from spending_stops_at_ceiling [OF p s surjective_pairing, of 2 "[sample_call]"] w show ?thesis
    by (simp add: sample_pricing_def)
qed

theorem covered_run_is_never_interrupted_witness:
  "\<not> sl_exceeded (fst (complete_calls sample_pricing 2 [sample_call, sample_call]
      \<lparr>sl_ceiling = 1, sl_spent = 0, sl_recorded = 0, sl_refused = 0, sl_exceeded = False\<rparr>))"
proof -
  have "pricing_valid sample_pricing" "pr_cached sample_pricing \<le> pr_input sample_pricing"
    by (simp_all add: pricing_valid_def sample_pricing_def)
  moreover have "rl_coder sample_limits = Some (int 2, sample_pricing)" by (simp add: sample_limits_def)
  moreover have "estimate_worst_case_run_cost sample_limits [HYBRID] \<le> 1"
    by (simp add: estimate_worst_case_run_cost_def sample_limits_def requires_frontier_coder_def
        estimate_worst_case_call_cost_def estimated_tokens_def sample_pricing_def)
  moreover have "new_ledger 1 = Some \<lparr>sl_ceiling = 1, sl_spent = 0, sl_recorded = 0, sl_refused = 0, sl_exceeded = False\<rparr>"
    by (simp add: new_ledger_def)
  moreover have "int (length [sample_call, sample_call])
      \<le> rl_max_turns sample_limits * int (length (filter requires_frontier_coder [HYBRID]))"
    by (simp add: sample_limits_def requires_frontier_coder_def)
  moreover have "\<forall>k \<in> set [sample_call, sample_call]. within_limits sample_limits 2 k \<and> within_estimate 2 k"
    by (simp add: within_limits_def within_estimate_def sample_call_def sample_limits_def estimated_tokens_def
        effective_max_output_def)
  ultimately show ?thesis using covered_run_is_never_interrupted by blast
qed

end
