(* ===== verification/Ceilings.thy ===== *)
theory Ceilings
  imports Prelude Complex_Main
begin

section \<open>Ceiling conditions of model calls (models/ceilings.py)\<close>

text \<open>
  The label of a call that ended at an infrastructure limit, and the split of failures that keeps
  such calls from being charged to the model. Fractions are rational numbers; the default
  threshold is 7/10.
\<close>

datatype ceiling_stop_reason =
    INPUT_CONTEXT_PRESSURE | INPUT_CONTEXT_EXHAUSTED | OUTPUT_CEILING_TRUNCATION
  | TOOL_OUTPUT_TRUNCATION | PROVIDER_ERROR_AFTER_ROLLOVER

definition truncating_finish_reasons :: "string list" where
  "truncating_finish_reasons = [''length'', ''max_tokens'', ''MAX_TOKENS'']"

definition default_pressure_threshold :: rat where
  "default_pressure_threshold = 7 / 10"

record call_observation =
  co_finish :: "string option"
  co_input :: "nat option"
  co_output :: "nat option"
  co_limit :: "int option"
  co_provider_error :: bool
  co_rolled_over :: bool
  co_tool_truncated :: bool

definition token_count :: "nat option \<Rightarrow> nat" where
  "token_count n = (case n of None \<Rightarrow> 0 | Some k \<Rightarrow> k)"

definition truncated :: "call_observation \<Rightarrow> bool" where
  "truncated c = (case co_finish c of None \<Rightarrow> False | Some r \<Rightarrow> r \<in> set truncating_finish_reasons)"

definition fills_window :: "call_observation \<Rightarrow> bool" where
  "fills_window c = (case co_limit c of None \<Rightarrow> False
     | Some n \<Rightarrow> n \<le> int (token_count (co_input c) + token_count (co_output c)))"

definition under_pressure :: "rat \<Rightarrow> call_observation \<Rightarrow> bool" where
  "under_pressure threshold c =
     (case co_limit c of None \<Rightarrow> False
      | Some n \<Rightarrow> (case co_input c of None \<Rightarrow> False
          | Some k \<Rightarrow> n > 0 \<and> threshold \<le> of_nat k / of_int n))"

definition classify_ceiling_stop_reason :: "rat \<Rightarrow> call_observation \<Rightarrow> ceiling_stop_reason option" where
  "classify_ceiling_stop_reason threshold c =
     (if co_provider_error c then (if co_rolled_over c then Some PROVIDER_ERROR_AFTER_ROLLOVER else None)
      else if co_tool_truncated c then Some TOOL_OUTPUT_TRUNCATION
      else if truncated c then (if fills_window c then Some INPUT_CONTEXT_EXHAUSTED else Some OUTPUT_CEILING_TRUNCATION)
      else if under_pressure threshold c then Some INPUT_CONTEXT_PRESSURE
      else None)"

definition is_ceiling_failure :: "ceiling_stop_reason option \<Rightarrow> bool" where
  "is_ceiling_failure r = (r \<noteq> None \<and> r \<noteq> Some INPUT_CONTEXT_PRESSURE)"

record failure_partition =
  fp_ceiling :: int
  fp_reasoning :: int
  fp_pressure :: int

definition partition_total :: "failure_partition \<Rightarrow> int" where
  "partition_total p = fp_ceiling p + fp_reasoning p"

definition partition_valid :: "failure_partition \<Rightarrow> bool" where
  "partition_valid p = (0 \<le> fp_ceiling p \<and> 0 \<le> fp_reasoning p \<and> 0 \<le> fp_pressure p \<and> 0 \<le> partition_total p)"

text \<open>\<open>None\<close> is the validation error of a partition that would be negative.\<close>

definition partition_failures :: "ceiling_stop_reason option list \<Rightarrow> failure_partition option" where
  "partition_failures reasons =
     (let ceiling = int (length (filter is_ceiling_failure reasons));
          pressure = int (length (filter (\<lambda>r. r = Some INPUT_CONTEXT_PRESSURE) reasons));
          p = \<lparr>fp_ceiling = ceiling, fp_reasoning = int (length reasons) - ceiling - pressure, fp_pressure = pressure\<rparr>
      in if partition_valid p then Some p else None)"

lemma three_classes:
  "length rs = length (filter is_ceiling_failure rs) + length (filter (\<lambda>r. r = Some INPUT_CONTEXT_PRESSURE) rs)
     + length (filter (\<lambda>r. r = None) rs)"
  by (induction rs) (auto simp: is_ceiling_failure_def)

lemma unlabelled:
  "classify_ceiling_stop_reason t c = None \<longleftrightarrow>
     (if co_provider_error c then \<not> co_rolled_over c
      else \<not> co_tool_truncated c \<and> \<not> truncated c \<and> \<not> under_pressure t c)"
  by (simp add: classify_ceiling_stop_reason_def)

text \<open>
  A limit of the infrastructure is never charged to the model. The split of any failures is
  valid and complete; the calls charged to the model's reasoning are exactly those that show no
  ceiling signal: after a provider error no rollover, otherwise no clipped tool output, no
  truncating finish reason and no pressure on the context window.
\<close>

theorem ceilings_are_not_charged_to_the_model:
  "\<exists>p. partition_failures (map (classify_ceiling_stop_reason t) calls) = Some p
     \<and> fp_reasoning p = int (length (filter (\<lambda>c.
           if co_provider_error c then \<not> co_rolled_over c
           else \<not> co_tool_truncated c \<and> \<not> truncated c \<and> \<not> under_pressure t c) calls))
     \<and> fp_ceiling p + fp_reasoning p + fp_pressure p = int (length calls)"
proof -
  let ?rs = "map (classify_ceiling_stop_reason t) calls"
  have n: "length (filter (\<lambda>c. if co_provider_error c then \<not> co_rolled_over c
           else \<not> co_tool_truncated c \<and> \<not> truncated c \<and> \<not> under_pressure t c) calls)
      = length (filter (\<lambda>r. r = None) ?rs)"
    by (simp add: filter_map o_def unlabelled)
  show ?thesis
    unfolding n using three_classes [of ?rs]
    by (simp add: partition_failures_def Let_def partition_valid_def partition_total_def)
qed

end
