(* ===== verification/Specification.thy ===== *)
theory Specification
  imports Prelude Complex_Main
begin

section \<open>Task specifications, coverage and routing\<close>

text \<open>
  The specification data and its validators (specification/schema.py), the harness-only coverage
  of acceptance criteria (workflow/acceptance.py) and the choice of an agent route
  (workflow/routing.py). Identifier patterns, non-emptiness of texts and free reasons are left
  out; a reason for a coverage entry is one constructor per branch.
\<close>

subsection \<open>Schema\<close>

datatype source_kind = USER_SOURCE | DERIVED_SOURCE | REPOSITORY_SOURCE | APPROVED_DECISION

datatype constraint_status = ACTIVE | SUPERSEDED | SATISFIED | BLOCKED

datatype constraint_scope = TASK_SCOPE | PROJECT_SCOPE

datatype risk_level = UNCLASSIFIED | LOW | MEDIUM | HIGH | CRITICAL

record statement =
  st_text :: string
  st_source :: source_kind
  st_reference :: string

record acceptance_criterion = statement +
  cn_id :: string
  cn_status :: constraint_status
  cn_method :: "string option"

record hard_constraint =
  hc_id :: string
  hc_text :: string
  hc_verbatim :: string
  hc_meaning :: string
  hc_source :: source_kind
  hc_scope :: constraint_scope
  hc_status :: constraint_status
  hc_method :: string
  hc_superseded_by :: "string option"

definition truthy :: "string option \<Rightarrow> bool" where
  "truthy s = (case s of None \<Rightarrow> False | Some t \<Rightarrow> t \<noteq> [])"

definition supersession_valid :: "hard_constraint \<Rightarrow> bool" where
  "supersession_valid c =
     ((hc_status c = SUPERSEDED \<longrightarrow> truthy (hc_superseded_by c)) \<and> hc_superseded_by c \<noteq> Some (hc_id c))"

record task_specification =
  ts_task :: string
  ts_objective :: statement
  ts_criteria :: "acceptance_criterion list"
  ts_constraints :: "hard_constraint list"
  ts_risk :: risk_level

definition identifiers_valid :: "task_specification \<Rightarrow> bool" where
  "identifiers_valid s =
     (distinct (map cn_id (ts_criteria s) @ map hc_id (ts_constraints s))
      \<and> list_all (\<lambda>c. truthy (hc_superseded_by c)
            \<longrightarrow> the (hc_superseded_by c) \<in> set (map hc_id (ts_constraints s))) (ts_constraints s))"

definition specification_valid :: "task_specification \<Rightarrow> bool" where
  "specification_valid s = (list_all supersession_valid (ts_constraints s) \<and> identifiers_valid s)"

definition active_hard_constraints :: "task_specification \<Rightarrow> hard_constraint list" where
  "active_hard_constraints s = filter (\<lambda>c. hc_status c = ACTIVE) (ts_constraints s)"

definition active_acceptance_criteria :: "task_specification \<Rightarrow> acceptance_criterion list" where
  "active_acceptance_criteria s = filter (\<lambda>c. cn_status c = ACTIVE) (ts_criteria s)"

subsection \<open>Coverage of the acceptance criteria\<close>

datatype verification_status = PASSED | FAILED_CHECK | TIMED_OUT | ERROR | SKIPPED

record verification_command =
  vc_name :: string
  vc_category :: string
  vc_argv :: "string list"
  vc_timeout :: rat
  vc_required :: bool
  vc_environment :: "(string \<times> string) list"
  vc_description :: string
  vc_acceptance :: bool
  vc_discovery_roots :: "string list"

datatype coverage_status = PROVEN | FAILED_COVERAGE | UNPROVEN

datatype coverage_source = CONFIGURED_VERIFICATION_COMMAND

datatype coverage_reason =
    NotMapped | NotConfigured | NotAcceptance | CommandPassed | CommandNotPassed verification_status
  | NotExecuted

record acceptance_coverage =
  cov_criterion :: string
  cov_status :: coverage_status
  cov_source :: "coverage_source option"
  cov_reference :: "string option"
  cov_reason :: coverage_reason

definition not_passed_statuses :: "verification_status list" where
  "not_passed_statuses = [FAILED_CHECK, TIMED_OUT, ERROR]"

definition criterion_coverage ::
  "verification_command list \<Rightarrow> (string \<rightharpoonup> verification_status) \<Rightarrow> acceptance_criterion \<Rightarrow> acceptance_coverage" where
  "criterion_coverage commands results c =
     (case cn_method c of
        None \<Rightarrow> \<lparr>cov_criterion = cn_id c, cov_status = UNPROVEN, cov_source = None,
                 cov_reference = None, cov_reason = NotMapped\<rparr>
      | Some m \<Rightarrow>
          if m \<notin> set (map vc_name commands) then
            \<lparr>cov_criterion = cn_id c, cov_status = UNPROVEN, cov_source = None,
             cov_reference = Some m, cov_reason = NotConfigured\<rparr>
          else if m \<notin> set (map vc_name (filter vc_acceptance commands)) then
            \<lparr>cov_criterion = cn_id c, cov_status = UNPROVEN, cov_source = None,
             cov_reference = Some m, cov_reason = NotAcceptance\<rparr>
          else
            (case results m of
               Some status \<Rightarrow>
                 if status = PASSED then
                   \<lparr>cov_criterion = cn_id c, cov_status = PROVEN,
                    cov_source = Some CONFIGURED_VERIFICATION_COMMAND, cov_reference = Some m,
                    cov_reason = CommandPassed\<rparr>
                 else if status \<in> set not_passed_statuses then
                   \<lparr>cov_criterion = cn_id c, cov_status = FAILED_COVERAGE,
                    cov_source = Some CONFIGURED_VERIFICATION_COMMAND, cov_reference = Some m,
                    cov_reason = CommandNotPassed status\<rparr>
                 else \<lparr>cov_criterion = cn_id c, cov_status = UNPROVEN, cov_source = None,
                       cov_reference = Some m, cov_reason = NotExecuted\<rparr>
             | None \<Rightarrow> \<lparr>cov_criterion = cn_id c, cov_status = UNPROVEN, cov_source = None,
                       cov_reference = Some m, cov_reason = NotExecuted\<rparr>))"

definition compute_acceptance_coverage ::
  "task_specification \<Rightarrow> verification_command list \<Rightarrow> (string \<rightharpoonup> verification_status) \<Rightarrow> acceptance_coverage list" where
  "compute_acceptance_coverage spec commands results =
     map (criterion_coverage commands results) (active_acceptance_criteria spec)"

definition acceptance_coverage_satisfied :: "acceptance_coverage list \<Rightarrow> bool" where
  "acceptance_coverage_satisfied cs = list_all (\<lambda>c. cov_status c = PROVEN) cs"

subsection \<open>Routing\<close>

datatype agent_route = AUTO | LOCAL_ONLY | LOCAL_THEN_FRONTIER | FRONTIER_ONLY | HUMAN_REVIEW_ROUTE

datatype route_reason =
    ExplicitRoute | NoFrontierProvider | CriticalRisk | HighRiskFrontier | HighRiskLocal
  | LocalFirst | NoEscalation

record routing_decision =
  ro_route :: agent_route
  ro_reason :: route_reason
  ro_requested :: agent_route
  ro_risk :: risk_level
  ro_frontier :: bool

definition route_choice :: "agent_route \<Rightarrow> risk_level \<Rightarrow> bool \<Rightarrow> agent_route \<times> route_reason" where
  "route_choice requested risk frontier =
     (if requested \<noteq> AUTO then
        (if requested \<in> set [FRONTIER_ONLY, LOCAL_THEN_FRONTIER] \<and> \<not> frontier
         then (HUMAN_REVIEW_ROUTE, NoFrontierProvider) else (requested, ExplicitRoute))
      else if risk = CRITICAL then (HUMAN_REVIEW_ROUTE, CriticalRisk)
      else if risk = HIGH then
        (if frontier then (LOCAL_THEN_FRONTIER, HighRiskFrontier) else (LOCAL_ONLY, HighRiskLocal))
      else if frontier then (LOCAL_THEN_FRONTIER, LocalFirst)
      else (LOCAL_ONLY, NoEscalation))"

definition select_agent_route :: "task_specification \<Rightarrow> agent_route \<Rightarrow> bool \<Rightarrow> routing_decision" where
  "select_agent_route spec requested frontier =
     (case route_choice requested (ts_risk spec) frontier of (route, reason) \<Rightarrow>
        \<lparr>ro_route = route, ro_reason = reason, ro_requested = requested, ro_risk = ts_risk spec,
         ro_frontier = frontier\<rparr>)"

subsection \<open>Properties\<close>

definition is_acceptance :: "verification_command list \<Rightarrow> string \<Rightarrow> bool" where
  "is_acceptance commands m = (\<exists>cmd \<in> set commands. vc_name cmd = m \<and> vc_acceptance cmd)"

lemma acceptance_names:
  "m \<in> set (map vc_name (filter vc_acceptance commands)) \<longleftrightarrow> is_acceptance commands m"
  "is_acceptance commands m \<Longrightarrow> m \<in> set (map vc_name commands)"
  by (auto simp: is_acceptance_def)

lemma criterion_status:
  "cov_status (criterion_coverage commands results c) =
     (case cn_method c of None \<Rightarrow> UNPROVEN
      | Some m \<Rightarrow> if \<not> is_acceptance commands m then UNPROVEN
          else (case results m of None \<Rightarrow> UNPROVEN | Some PASSED \<Rightarrow> PROVEN | Some SKIPPED \<Rightarrow> UNPROVEN
                | Some _ \<Rightarrow> FAILED_COVERAGE))"
  unfolding criterion_coverage_def acceptance_names(1) using acceptance_names(2)
  by (auto simp: not_passed_statuses_def split: option.split verification_status.split)

lemma coverage_proven:
  "cov_status (criterion_coverage commands results c) = PROVEN \<longleftrightarrow>
     (\<exists>m. cn_method c = Some m \<and> results m = Some PASSED
        \<and> (\<exists>cmd \<in> set commands. vc_name cmd = m \<and> vc_acceptance cmd))"
  unfolding criterion_status is_acceptance_def [symmetric]
  by (auto split: option.splits verification_status.splits if_splits)

lemma coverage_failed:
  "cov_status (criterion_coverage commands results c) = FAILED_COVERAGE \<longleftrightarrow>
     (\<exists>m s. cn_method c = Some m \<and> (\<exists>cmd \<in> set commands. vc_name cmd = m \<and> vc_acceptance cmd)
        \<and> results m = Some s \<and> s \<noteq> PASSED \<and> s \<noteq> SKIPPED)"
  unfolding criterion_status is_acceptance_def [symmetric]
  by (auto split: option.splits verification_status.splits if_splits)

text \<open>
  C31: strict completion means proof. The coverage has one entry per active criterion, in order;
  it satisfies the strict policy exactly when every active criterion names a configured command
  that is an approved acceptance check and that passed for the current worktree; and a criterion
  is reported failed exactly when such a command ran and did not pass.
\<close>

theorem strict_coverage_means_proof:
  "map cov_criterion (compute_acceptance_coverage spec commands results)
     = map cn_id (active_acceptance_criteria spec)
   \<and> (acceptance_coverage_satisfied (compute_acceptance_coverage spec commands results) \<longleftrightarrow>
        (\<forall>c \<in> set (ts_criteria spec). cn_status c = ACTIVE \<longrightarrow>
           (\<exists>m. cn_method c = Some m \<and> results m = Some PASSED
              \<and> (\<exists>cmd \<in> set commands. vc_name cmd = m \<and> vc_acceptance cmd))))
   \<and> {cov_criterion v |v. v \<in> set (compute_acceptance_coverage spec commands results)
         \<and> cov_status v = FAILED_COVERAGE}
      = {cn_id c |c. c \<in> set (active_acceptance_criteria spec) \<and>
           (\<exists>m s. cn_method c = Some m \<and> (\<exists>cmd \<in> set commands. vc_name cmd = m \<and> vc_acceptance cmd)
              \<and> results m = Some s \<and> s \<noteq> PASSED \<and> s \<noteq> SKIPPED)}"
proof (intro conjI)
  have id: "cov_criterion (criterion_coverage commands results c) = cn_id c" for c
    by (simp add: criterion_coverage_def split: option.split)
  show "map cov_criterion (compute_acceptance_coverage spec commands results)
     = map cn_id (active_acceptance_criteria spec)"
    by (simp add: compute_acceptance_coverage_def id)
  show "acceptance_coverage_satisfied (compute_acceptance_coverage spec commands results) \<longleftrightarrow>
        (\<forall>c \<in> set (ts_criteria spec). cn_status c = ACTIVE \<longrightarrow>
           (\<exists>m. cn_method c = Some m \<and> results m = Some PASSED
              \<and> (\<exists>cmd \<in> set commands. vc_name cmd = m \<and> vc_acceptance cmd)))"
    by (auto simp: acceptance_coverage_satisfied_def compute_acceptance_coverage_def list_all_iff
        active_acceptance_criteria_def coverage_proven)
  show "{cov_criterion v |v. v \<in> set (compute_acceptance_coverage spec commands results)
         \<and> cov_status v = FAILED_COVERAGE}
      = {cn_id c |c. c \<in> set (active_acceptance_criteria spec) \<and>
           (\<exists>m s. cn_method c = Some m \<and> (\<exists>cmd \<in> set commands. vc_name cmd = m \<and> vc_acceptance cmd)
              \<and> results m = Some s \<and> s \<noteq> PASSED \<and> s \<noteq> SKIPPED)}"
    unfolding coverage_failed [symmetric] by (force simp: compute_acceptance_coverage_def id)
qed

text \<open>
  A route is always decided and never needs a provider that is not there. The decision is
  never \<open>AUTO\<close>; a route that uses the frontier is chosen only when a frontier provider is
  available; automatic routing of a critical task goes to a human; and an explicit route is
  changed only for want of a frontier provider.
\<close>

theorem route_is_available:
  "ro_route (select_agent_route spec requested frontier) \<noteq> AUTO
   \<and> (ro_route (select_agent_route spec requested frontier) \<in> {FRONTIER_ONLY, LOCAL_THEN_FRONTIER} \<longrightarrow> frontier)
   \<and> (requested = AUTO \<and> ts_risk spec = CRITICAL \<longrightarrow>
        ro_route (select_agent_route spec requested frontier) = HUMAN_REVIEW_ROUTE)
   \<and> (requested \<noteq> AUTO \<and> (frontier \<or> requested \<notin> {FRONTIER_ONLY, LOCAL_THEN_FRONTIER}) \<longrightarrow>
        ro_route (select_agent_route spec requested frontier) = requested)"
  by (auto simp: select_agent_route_def route_choice_def)

definition sample_criterion :: acceptance_criterion where
  "sample_criterion = \<lparr>st_text = ''t'', st_source = USER_SOURCE, st_reference = ''r'', cn_id = ''AC-1'',
     cn_status = ACTIVE, cn_method = Some ''unit''\<rparr>"

definition sample_constraint :: "string \<Rightarrow> constraint_status \<Rightarrow> string option \<Rightarrow> hard_constraint" where
  "sample_constraint i s by_id = \<lparr>hc_id = i, hc_text = ''t'', hc_verbatim = ''t'', hc_meaning = ''t'',
     hc_source = USER_SOURCE, hc_scope = TASK_SCOPE, hc_status = s, hc_method = ''unit'',
     hc_superseded_by = by_id\<rparr>"

definition sample_specification :: "hard_constraint list \<Rightarrow> task_specification" where
  "sample_specification cs = \<lparr>ts_task = ''TASK-1'',
     ts_objective = \<lparr>st_text = ''t'', st_source = USER_SOURCE, st_reference = ''r''\<rparr>,
     ts_criteria = [sample_criterion], ts_constraints = cs, ts_risk = CRITICAL\<rparr>"

definition sample_command :: verification_command where
  "sample_command = \<lparr>vc_name = ''unit'', vc_category = ''test'', vc_argv = [''unit''], vc_timeout = 120,
     vc_required = True, vc_environment = [], vc_description = [], vc_acceptance = True, vc_discovery_roots = []\<rparr>"

theorem strict_coverage_means_proof_witness:
  "acceptance_coverage_satisfied
     (compute_acceptance_coverage (sample_specification []) [sample_command] [''unit'' \<mapsto> PASSED])"
  using strict_coverage_means_proof [of "sample_specification []" "[sample_command]" "[''unit'' \<mapsto> PASSED]"]
  by (simp add: sample_specification_def sample_criterion_def sample_command_def)

theorem route_is_available_witness:
  "ro_route (select_agent_route (sample_specification []) AUTO True) = HUMAN_REVIEW_ROUTE"
  using route_is_available [of "sample_specification []" AUTO True] by (simp add: sample_specification_def)

text \<open>
  Supersession may run in a circle. Two hard constraints that name each other as their
  replacement pass every validator of the schema, and then no hard constraint is active.
\<close>

theorem supersession_cycle_accepted:
  "let s = sample_specification [sample_constraint ''HC-1'' SUPERSEDED (Some ''HC-2''),
                                 sample_constraint ''HC-2'' SUPERSEDED (Some ''HC-1'')]
   in specification_valid s \<and> ts_constraints s \<noteq> [] \<and> active_hard_constraints s = []"
  by (simp add: specification_valid_def supersession_valid_def identifiers_valid_def truthy_def
      active_hard_constraints_def sample_specification_def sample_constraint_def sample_criterion_def)

end
