(* ===== verification/Diff_Parser.thy ===== *)
theory Diff_Parser
  imports Prelude
begin

section \<open>Unified diffs (patches/parser.py)\<close>

text \<open>
  The parser of a provider's patch: fence removal, the two canonicalisations of hunks, the split
  into file sections and the reading of one section. Regular expressions are written out as
  recursive functions, \<open>shlex.split\<close> is its state machine on POSIX input. A parse error is a
  constructor per \<open>raise\<close>.
\<close>

datatype diff_error =
    EmptyPatch | NotGitDiff | NoFileDiffs | InvalidHeader | ContentInsideHunk string | NoHunk | BadPrefix

record parsed_file =
  pf_old :: "path option"
  pf_new :: "path option"
  pf_added :: nat
  pf_deleted :: nat
  pf_is_new :: bool
  pf_is_deleted :: bool
  pf_binary :: bool
  pf_symlink :: bool

record parsed_diff =
  pd_raw :: string
  pd_files :: "parsed_file list"

definition effective_path :: "parsed_file \<Rightarrow> path" where
  "effective_path f =
     (case pf_new f of
        Some n \<Rightarrow> if n \<noteq> [] then n else (case pf_old f of None \<Rightarrow> [] | Some q \<Rightarrow> q)
      | None \<Rightarrow> (case pf_old f of None \<Rightarrow> [] | Some q \<Rightarrow> q))"

definition changed_lines :: "parsed_diff \<Rightarrow> nat" where
  "changed_lines d = sum_list (map (\<lambda>f. pf_added f + pf_deleted f) (pd_files d))"

definition diff_paths :: "parsed_diff \<Rightarrow> path list" where
  "diff_paths d = remdups (filter (\<lambda>p. p \<noteq> []) (map effective_path (pd_files d)))"

subsection \<open>Shell words\<close>

definition shlex_space :: "char \<Rightarrow> bool" where
  "shlex_space c = ((of_char c :: nat) \<in> set [32, 9, 13, 10])"

definition shlex_quote :: "char \<Rightarrow> bool" where
  "shlex_quote c = ((of_char c :: nat) \<in> set [34, 39])"

text \<open>
  The states of the tokenizer: between words, in a word, in a quoted part, after a backslash (with
  the state to return to). \<open>None\<close> is the \<open>ValueError\<close> of an unfinished quote or escape. The token is
  kept reversed; \<open>quoted\<close> says that it held a quoted part, so an empty token still counts.
\<close>

datatype shlex_state = Between | Word | Quote char | Escaped "char option"

fun shlex_run :: "shlex_state \<Rightarrow> bool \<Rightarrow> string \<Rightarrow> string \<Rightarrow> string list option" where
  "shlex_run Between quoted tok [] = Some []"
| "shlex_run Word quoted tok [] = Some (if tok = [] \<and> \<not> quoted then [] else [rev tok])"
| "shlex_run (Quote q) quoted tok [] = None"
| "shlex_run (Escaped r) quoted tok [] = None"
| "shlex_run Between quoted tok (c # s) =
     (if shlex_space c then shlex_run Between False [] s
      else if c = backslash then shlex_run (Escaped None) False [] s
      else if shlex_quote c then shlex_run (Quote c) True [] s
      else shlex_run Word False [c] s)"
| "shlex_run Word quoted tok (c # s) =
     (if shlex_space c then
        (if tok \<noteq> [] \<or> quoted then map_option (\<lambda>ws. rev tok # ws) (shlex_run Between False [] s)
         else shlex_run Between False [] s)
      else if shlex_quote c then shlex_run (Quote c) True tok s
      else if c = backslash then shlex_run (Escaped None) quoted tok s
      else shlex_run Word quoted (c # tok) s)"
| "shlex_run (Quote q) quoted tok (c # s) =
     (if c = q then shlex_run Word quoted tok s
      else if c = backslash \<and> q = CHR 0x22 then shlex_run (Escaped (Some q)) quoted tok s
      else shlex_run (Quote q) quoted (c # tok) s)"
| "shlex_run (Escaped r) quoted tok (c # s) =
     (case r of
        None \<Rightarrow> shlex_run Word quoted (c # tok) s
      | Some q \<Rightarrow>
          shlex_run (Quote q) quoted (if c \<noteq> backslash \<and> c \<noteq> q then c # backslash # tok else c # tok) s)"

definition shlex_split :: "string \<Rightarrow> string list option" where
  "shlex_split s = shlex_run Between False [] s"

subsection \<open>Normalisation\<close>

fun crlf_to_lf :: "string \<Rightarrow> string" where
  "crlf_to_lf [] = []"
| "crlf_to_lf [c] = [c]"
| "crlf_to_lf (c # d # s) =
     (if c = carriage \<and> d = newline then newline # crlf_to_lf s else c # crlf_to_lf (d # s))"

definition normalize_newlines :: "string \<Rightarrow> string" where
  "normalize_newlines s = replace_char carriage newline (crlf_to_lf s)"

definition fence :: string where
  "fence = replicate 3 (CHR 0x60)"

definition diff_git :: string where
  "diff_git = ''diff --git ''"

text \<open>The body of a fenced block, when the whole text is one.\<close>

definition fenced_body :: "string \<Rightarrow> string option" where
  "fenced_body s =
     (if \<not> starts_with s fence then None
      else
        (let r = drop 3 s;
             r1 = (if lower (take 4 r) = ''diff'' then drop 4 r
                   else if lower (take 5 r) = ''patch'' then drop 5 r else r)
         in case dropWhile (\<lambda>c. c = CHR '' '' \<or> c = CHR 0x09) r1 of
              [] \<Rightarrow> None
            | c # body \<Rightarrow> if c = newline \<and> ends_with body (newline # fence)
                then Some (take (length body - 4) body) else None))"

definition unfenced :: "string \<Rightarrow> string" where
  "unfenced s =
     (case fenced_body s of
        Some body \<Rightarrow> strip body
      | None \<Rightarrow> if starts_with s diff_git \<and> ends_with s (newline # fence)
                then rstrip (take (length s - 4) s) else s)"

text \<open>The sections that begin at the lines satisfying a test, each up to the next such line.\<close>

fun sections :: "('a \<Rightarrow> bool) \<Rightarrow> 'a list \<Rightarrow> 'a list list" where
  "sections P [] = []"
| "sections P (x # xs) =
     (if P x then (x # takeWhile (\<lambda>y. \<not> P y) xs) # sections P xs else sections P xs)"

definition hunk_line :: "string \<Rightarrow> bool" where
  "hunk_line l = starts_with l ''@@ ''"

definition is_digit :: "char \<Rightarrow> bool" where
  "is_digit c = (48 \<le> (of_char c :: nat) \<and> (of_char c :: nat) \<le> 57)"

fun decimal :: "nat \<Rightarrow> string" where
  "decimal n = (if n < 10 then [char_of (48 + n)] else decimal (n div 10) @ [char_of (48 + n mod 10)])"

declare decimal.simps [simp del]

text \<open>A run of at least one digit and what follows it.\<close>

definition after_digits :: "string \<Rightarrow> string option" where
  "after_digits s =
     (if s \<noteq> [] \<and> is_digit (hd s) then Some (dropWhile is_digit s) else None)"

definition after_prefix :: "string \<Rightarrow> string \<Rightarrow> string option" where
  "after_prefix p s = (if starts_with s p then Some (drop (length p) s) else None)"

definition after_optional_count :: "string \<Rightarrow> string option" where
  "after_optional_count s =
     (if starts_with s '','' then after_digits (drop 1 s) else Some s)"

text \<open>The suffix of a header \<open>@@ -0,0 +n,m @@suffix\<close>, the two counts being optional.\<close>

definition new_file_header_suffix :: "string \<Rightarrow> string option" where
  "new_file_header_suffix l =
     Option.bind (after_prefix ''@@ -0'' l) (\<lambda>r.
     Option.bind (after_prefix '' +'' (if starts_with r '',0'' then drop 2 r else r)) (\<lambda>r1.
     Option.bind (after_digits r1) (\<lambda>r2.
     Option.bind (after_optional_count r2) (after_prefix '' @@''))))"

definition is_text_new_file :: "string list \<Rightarrow> bool" where
  "is_text_new_file chunk =
     (list_ex (\<lambda>l. starts_with l ''new file mode '') chunk
      \<and> ''--- /dev/null'' \<in> set chunk
      \<and> \<not> list_ex (\<lambda>l. starts_with_any l [''GIT binary patch'', ''Binary files '']) chunk)"

definition no_newline_marker :: string where
  "no_newline_marker = backslash # '' No newline at end of file''"

definition mark_added :: "string \<Rightarrow> string" where
  "mark_added l = (if l = no_newline_marker \<or> starts_with l ''+'' then l else CHR ''+'' # l)"

definition canonical_chunk :: "string list \<Rightarrow> string list" where
  "canonical_chunk chunk =
     (if \<not> is_text_new_file chunk \<or> length (filter hunk_line chunk) \<noteq> 1 then chunk
      else
        (case dropWhile (\<lambda>l. \<not> hunk_line l) chunk of
           [] \<Rightarrow> chunk
         | h # body \<Rightarrow>
             (case new_file_header_suffix h of
                None \<Rightarrow> chunk
              | Some rest \<Rightarrow>
                  (let n = length (filter (\<lambda>l. l \<noteq> no_newline_marker) body);
                       header = (if n = 0 then ''@@ -0,0 +0,0 @@''
                                 else ''@@ -0,0 +1,'' @ decimal n @ '' @@'' @ rest)
                   in takeWhile (\<lambda>l. \<not> hunk_line l) chunk @ header # map mark_added body))))"

definition canonicalize_new_file_hunks :: "string \<Rightarrow> string" where
  "canonicalize_new_file_hunks content =
     (let chunks = sections (\<lambda>l. starts_with l diff_git) (split_on newline content)
      in if chunks = [] then content else join_with newline (concat (map canonical_chunk chunks)))"

fun blank_context :: "bool \<Rightarrow> string list \<Rightarrow> string list" where
  "blank_context in_hunk [] = []"
| "blank_context in_hunk (l # ls) =
     (let h = (if starts_with l diff_git then False else if hunk_line l then True else in_hunk)
      in (if h \<and> l = [] then '' '' else l) # blank_context h ls)"

definition canonicalize_blank_context_lines :: "string \<Rightarrow> string" where
  "canonicalize_blank_context_lines content = join_with newline (blank_context False (split_on newline content))"

subsection \<open>One section\<close>

definition strip_prefix :: "string \<Rightarrow> string \<Rightarrow> diff_error + path" where
  "strip_prefix p s = (case after_prefix p s of None \<Rightarrow> Inl BadPrefix | Some r \<Rightarrow> Inr r)"

definition hunk_marker :: "string \<Rightarrow> bool" where
  "hunk_marker l = starts_with_any l ['' '', ''+'', ''-'', [backslash]]"

text \<open>The first line inside a hunk that carries no marker.\<close>

fun unmarked_line :: "bool \<Rightarrow> string list \<Rightarrow> string option" where
  "unmarked_line in_hunk [] = None"
| "unmarked_line in_hunk (l # ls) =
     (if hunk_line l then unmarked_line True ls
      else if in_hunk \<and> \<not> hunk_marker l then Some l
      else unmarked_line in_hunk ls)"

definition null_line :: "string \<Rightarrow> string \<Rightarrow> bool" where
  "null_line p l = (starts_with l p \<and> strip (drop 4 l) = ''/dev/null'')"

definition added_line :: "string \<Rightarrow> bool" where
  "added_line l = (starts_with l ''+'' \<and> \<not> starts_with l ''+++'')"

definition deleted_line :: "string \<Rightarrow> bool" where
  "deleted_line l = (starts_with l ''-'' \<and> \<not> starts_with l ''---'')"

definition section_paths :: "string list \<Rightarrow> diff_error + path \<times> path" where
  "section_paths lines =
     (case shlex_split (strip (case lines of [] \<Rightarrow> [] | l # _ \<Rightarrow> l)) of
        Some [a, b, x, y] \<Rightarrow>
          if a = ''diff'' \<and> b = ''--git'' then
            (case strip_prefix ''a/'' x of Inl e \<Rightarrow> Inl e
             | Inr old \<Rightarrow> (case strip_prefix ''b/'' y of Inl e \<Rightarrow> Inl e | Inr new \<Rightarrow> Inr (old, new)))
          else Inl InvalidHeader
      | _ \<Rightarrow> Inl InvalidHeader)"

definition parse_file :: "string list \<Rightarrow> diff_error + parsed_file" where
  "parse_file lines =
     (case section_paths lines of
        Inl e \<Rightarrow> Inl e
      | Inr (old, new) \<Rightarrow>
          (case unmarked_line False lines of
             Some l \<Rightarrow> Inl (ContentInsideHunk (rstrip l))
           | None \<Rightarrow>
               (let no_old = list_ex (null_line ''--- '') lines;
                    no_new = list_ex (null_line ''+++ '') lines;
                    binary = list_ex (\<lambda>l. starts_with_any l [''GIT binary patch'', ''Binary files '']) lines
                in if \<not> binary \<and> \<not> list_ex hunk_line lines then Inl NoHunk
                   else Inr
                     \<lparr>pf_old = (if no_old then None else Some old), pf_new = (if no_new then None else Some new),
                      pf_added = length (filter added_line lines),
                      pf_deleted = length (filter deleted_line lines),
                      pf_is_new = (list_ex (\<lambda>l. starts_with l ''new file mode '') lines \<or> no_old),
                      pf_is_deleted = (list_ex (\<lambda>l. starts_with l ''deleted file mode '') lines \<or> no_new),
                      pf_binary = binary,
                      pf_symlink = list_ex (\<lambda>l. starts_with_any l [''new file mode 120000'', ''new mode 120000''])
                        lines\<rparr>)))"

fun parse_files :: "string list list \<Rightarrow> diff_error + parsed_file list" where
  "parse_files [] = Inr []"
| "parse_files (s # ss) =
     (case parse_file s of Inl e \<Rightarrow> Inl e
      | Inr f \<Rightarrow> (case parse_files ss of Inl e \<Rightarrow> Inl e | Inr fs \<Rightarrow> Inr (f # fs)))"

definition canonical_patch :: "string \<Rightarrow> string" where
  "canonical_patch s = canonicalize_blank_context_lines (canonicalize_new_file_hunks s) @ [newline]"

definition diff_sections :: "string \<Rightarrow> string list list" where
  "diff_sections raw = sections (\<lambda>l. starts_with l diff_git) (splitlines_keep raw)"

definition parse_diff :: "string \<Rightarrow> diff_error + parsed_diff" where
  "parse_diff content =
     (let text = strip (normalize_newlines content) in
      if text = [] then Inl EmptyPatch
      else
        (let text1 = unfenced text in
         if \<not> starts_with text1 diff_git then Inl NotGitDiff
         else
           (let raw = canonical_patch text1; ss = diff_sections raw in
            case parse_files ss of
              Inl e \<Rightarrow> Inl e
            | Inr fs \<Rightarrow> if fs = [] then Inl NoFileDiffs else Inr \<lparr>pd_raw = raw, pd_files = fs\<rparr>)))"

subsection \<open>What a parsed section promises\<close>

definition preamble :: "string list \<Rightarrow> string list" where
  "preamble lines = takeWhile (\<lambda>l. \<not> hunk_line l) lines"

definition hunk_body :: "string list \<Rightarrow> string list" where
  "hunk_body lines = filter (\<lambda>l. \<not> hunk_line l) (dropWhile (\<lambda>l. \<not> hunk_line l) lines)"

lemma starts_with_mono: "starts_with l (p @ q) \<Longrightarrow> starts_with l p"
  unfolding starts_with_iff by (meson prefix_def prefix_order.trans)

lemma hunk_line_plain: "hunk_line l \<Longrightarrow> \<not> starts_with l ''+'' \<and> \<not> starts_with l ''-''"
  by (cases l) (auto simp: hunk_line_def starts_with_def)

lemma unmarked_inside: "unmarked_line True ls = None \<longleftrightarrow> (\<forall>l \<in> set ls. hunk_line l \<or> hunk_marker l)"
  by (induction ls) auto

lemma unmarked_outside: "unmarked_line False ls = None \<longleftrightarrow> (\<forall>l \<in> set (hunk_body ls). hunk_marker l)"
  by (induction ls) (auto simp: hunk_body_def unmarked_inside)

lemma count_split:
  assumes "\<And>l. hunk_line l \<Longrightarrow> \<not> P l"
  shows "length (filter P ls) = length (filter P (preamble ls)) + length (filter P (hunk_body ls))"
proof -
  have "length (filter P (dropWhile (\<lambda>l. \<not> hunk_line l) ls)) = length (filter P (hunk_body ls))"
    unfolding hunk_body_def filter_filter by (rule arg_cong [of _ _ length], rule filter_cong) (auto dest: assms)
  then show ?thesis
    unfolding preamble_def by (metis (no_types) filter_append length_append takeWhile_dropWhile_id)
qed

lemma filter_minus:
  "(\<And>x. Q x \<Longrightarrow> P x) \<Longrightarrow> length (filter (\<lambda>x. P x \<and> \<not> Q x) xs) + length (filter Q xs) = length (filter P xs)"
  by (induction xs) auto

lemma added_split:
  "length (filter added_line xs) + length (filter (\<lambda>l. starts_with l ''+++'') xs) = length (filter (\<lambda>l. starts_with l ''+'') xs)"
  unfolding added_line_def using starts_with_mono [of _ "''+''" "''++''"] by (intro filter_minus) simp

lemma deleted_split:
  "length (filter deleted_line xs) + length (filter (\<lambda>l. starts_with l ''---'') xs) = length (filter (\<lambda>l. starts_with l ''-'') xs)"
  unfolding deleted_line_def using starts_with_mono [of _ "''-''" "''--''"] by (intro filter_minus) simp

lemma parse_file_fields:
  assumes "parse_file ls = Inr f"
  shows "unmarked_line False ls = None" "pf_added f = length (filter added_line ls)"
    "pf_deleted f = length (filter deleted_line ls)" "pf_binary f \<or> list_ex hunk_line ls"
    "\<exists>old new. section_paths ls = Inr (old, new) \<and> pf_old f \<in> {None, Some old} \<and> pf_new f \<in> {None, Some new}"
  using assms by (auto simp: parse_file_def Let_def split: sum.splits option.splits if_splits)

text \<open>
  What the size of a patch counts. In a section that parses, every line of a hunk carries a
  marker; the reported additions are the added lines of the hunks and any stray added line before
  the first hunk, less the added lines whose own text begins with \<open>++\<close>; likewise the deletions,
  less the deleted lines whose own text begins with \<open>--\<close>. The lines left out are why the size of
  a patch is a lower bound only.
\<close>

theorem size_counts_hunk_lines:
  assumes "parse_file ls = Inr f"
  shows "(\<forall>l \<in> set (hunk_body ls). hunk_marker l)
     \<and> pf_added f + length (filter (\<lambda>l. starts_with l ''+++'') (hunk_body ls))
        = length (filter (\<lambda>l. starts_with l ''+'') (hunk_body ls)) + length (filter added_line (preamble ls))
     \<and> pf_deleted f + length (filter (\<lambda>l. starts_with l ''---'') (hunk_body ls))
        = length (filter (\<lambda>l. starts_with l ''-'') (hunk_body ls)) + length (filter deleted_line (preamble ls))"
proof (intro conjI)
  note f = parse_file_fields [OF assms]
  show "\<forall>l \<in> set (hunk_body ls). hunk_marker l" using f(1) by (simp only: unmarked_outside)
  have "\<And>l. hunk_line l \<Longrightarrow> \<not> added_line l" "\<And>l. hunk_line l \<Longrightarrow> \<not> deleted_line l"
    using hunk_line_plain by (auto simp: added_line_def deleted_line_def)
  then have n: "pf_added f = length (filter added_line (preamble ls)) + length (filter added_line (hunk_body ls))"
    "pf_deleted f = length (filter deleted_line (preamble ls)) + length (filter deleted_line (hunk_body ls))"
    unfolding f(2,3) by (intro count_split; blast)+
  show "pf_added f + length (filter (\<lambda>l. starts_with l ''+++'') (hunk_body ls))
        = length (filter (\<lambda>l. starts_with l ''+'') (hunk_body ls)) + length (filter added_line (preamble ls))"
    using n(1) added_split [of "hunk_body ls"] by linarith
  show "pf_deleted f + length (filter (\<lambda>l. starts_with l ''---'') (hunk_body ls))
        = length (filter (\<lambda>l. starts_with l ''-'') (hunk_body ls)) + length (filter deleted_line (preamble ls))"
    using n(2) deleted_split [of "hunk_body ls"] by linarith
qed

definition sample_section :: "string list" where
  "sample_section = map (\<lambda>l. l @ [newline])
     [''diff --git a/f b/f'', ''--- a/f'', ''+++ b/f'', ''@@ -1,2 +1,2 @@'', ''--- x'', '' y'', ''+++z'', ''+w'']"

theorem size_counts_hunk_lines_witness:
  "\<exists>f. parse_file sample_section = Inr f \<and> pf_added f = 1 \<and> pf_deleted f = 0
     \<and> length (filter (\<lambda>l. starts_with l ''+'') (hunk_body sample_section)) = 2
     \<and> length (filter (\<lambda>l. starts_with l ''-'') (hunk_body sample_section)) = 1"
proof -
  have p: "parse_file sample_section = Inr \<lparr>pf_old = Some ''f'', pf_new = Some ''f'', pf_added = 1, pf_deleted = 0,
      pf_is_new = False, pf_is_deleted = False, pf_binary = False, pf_symlink = False\<rparr>"
    by code_simp
  have b: "length (filter (\<lambda>l. starts_with l ''+++'') (hunk_body sample_section)) = 1"
    "length (filter (\<lambda>l. starts_with l ''---'') (hunk_body sample_section)) = 1"
    "length (filter added_line (preamble sample_section)) = 0" "length (filter deleted_line (preamble sample_section)) = 0"
    by code_simp+
  from size_counts_hunk_lines [OF p] show ?thesis by (simp add: p b)
qed

end
