(* ===== verification/Verification_Run.thy ===== *)
theory Verification_Run
  imports Specification Diff_Parser
begin

section \<open>Deterministic verification (verification/runner.py, verification/results.py)\<close>

text \<open>
  One run of the configured commands against a worktree: the optional dependency installation,
  the commands in order with \<open>stop_on_failure\<close>, truncation of outputs and the aggregate status.
  The execution backend is a parameter over the type of worktrees; it may raise from every call.
  Clock readings, the displayed working directory and backend metadata are left out. The parse of
  \<open>pyproject.toml\<close>, the glob of requirement files, the hash of a file and the two host paths are fields of
  \<open>manifest_view\<close>.
\<close>

subsection \<open>Discovery roots\<close>

definition strip_of :: "char list \<Rightarrow> string \<Rightarrow> string" where
  "strip_of cs s = rev (dropWhile (\<lambda>c. c \<in> set cs) (rev (dropWhile (\<lambda>c. c \<in> set cs) s)))"

definition normalize_discovery_root :: "string \<Rightarrow> string" where
  "normalize_discovery_root raw =
     (let c = strip_of [CHR 0x22, CHR 0x27] (replace_char backslash (CHR ''/'') (strip raw))
      in if c = [] \<or> c = ''.'' \<or> c = ''./'' then []
         else (let d = rev (dropWhile (\<lambda>x. x = CHR ''/'') (rev (drop_dot_slash c)))
               in if d = [] \<or> starts_with d ''/'' \<or> starts_with d ''..'' then []
                  else if length d > 1 \<and> d ! 1 = CHR '':'' then [] else d))"

definition pytest_value_flags :: "string list" where
  "pytest_value_flags = [''-k'', ''-m'', ''-p'', ''-o'', ''-c'', ''-n'', ''--rootdir'', ''--junitxml'', ''--deselect'']"

definition start_directory_option :: string where
  "start_directory_option = ''--start-directory=''"

text \<open>The loop over the tokens of a \<open>unittest discover\<close>: whether a root is explicit, and the roots.\<close>

fun unittest_roots :: "string list \<Rightarrow> bool \<times> string list" where
  "unittest_roots [] = (False, [])"
| "unittest_roots (t # ts) =
     (case unittest_roots ts of (explicit, roots) \<Rightarrow>
        if t = ''-s'' \<or> t = ''--start-directory'' then
          (case ts of [] \<Rightarrow> (explicit, roots)
           | v # _ \<Rightarrow> (True, (if normalize_discovery_root v = [] then [] else [normalize_discovery_root v]) @ roots))
        else if starts_with t start_directory_option then
          (let r = normalize_discovery_root (drop (length start_directory_option) t)
           in (True, (if r = [] then [] else [r]) @ roots))
        else (explicit, roots))"

definition is_pytest :: "string \<Rightarrow> bool" where
  "is_pytest t = (t = ''pytest'' \<or> ends_with t ''/pytest'')"

fun before_colons :: "string \<Rightarrow> string" where
  "before_colons (c # d # s) = (if c = CHR '':'' \<and> d = CHR '':'' then [] else c # before_colons (d # s))"
| "before_colons s = s"

fun pytest_roots :: "bool \<Rightarrow> string list \<Rightarrow> string list" where
  "pytest_roots skip [] = []"
| "pytest_roots skip (t # ts) =
     (if skip then pytest_roots False ts
      else if starts_with t ''-'' then pytest_roots (t \<in> set pytest_value_flags) ts
      else (let r = normalize_discovery_root (before_colons t)
            in (if r = [] then [] else [r]) @ pytest_roots False ts))"

definition derive_discovery_roots :: "string list \<Rightarrow> string list" where
  "derive_discovery_roots argv =
     (if ''unittest'' \<in> set argv \<and> ''discover'' \<in> set argv then
        (case unittest_roots argv of (explicit, roots) \<Rightarrow> if explicit then dedup_by id [] roots else [])
      else if list_ex is_pytest argv then
        dedup_by id [] (pytest_roots False (tl (dropWhile (\<lambda>t. \<not> is_pytest t) argv)))
      else [])"

definition resolved_discovery_roots :: "verification_command \<Rightarrow> string list" where
  "resolved_discovery_roots c =
     (let explicit = filter (\<lambda>r. r \<noteq> []) (map normalize_discovery_root (vc_discovery_roots c))
      in if explicit \<noteq> [] then explicit else derive_discovery_roots (vc_argv c))"

subsection \<open>Results\<close>

record command_result =
  cr_name :: string
  cr_category :: string
  cr_argv :: "string list"
  cr_required :: bool
  cr_acceptance :: bool
  cr_status :: verification_status
  cr_exit :: "int option"
  cr_stdout :: string
  cr_stderr :: string
  cr_truncated :: bool

record verification_result =
  vr_task :: string
  vr_status :: verification_status
  vr_commands :: "command_result list"
  vr_violations :: "path list"

definition verification_result_valid :: "verification_result \<Rightarrow> bool" where
  "verification_result_valid r =
     (vr_status r = PASSED \<longrightarrow> list_all (\<lambda>c. cr_required c \<longrightarrow> cr_status c = PASSED) (vr_commands r))"

subsection \<open>Configuration and backend\<close>

record verification_config =
  vg_commands :: "verification_command list"
  vg_stop_on_failure :: bool
  vg_output_limit :: nat
  vg_environment_allowlist :: "string list"
  vg_auto_install :: bool
  vg_install_timeout :: rat

record command_outcome =
  co_status :: verification_status
  co_exit :: "int option"
  co_stdout :: string
  co_stderr :: string

type_synonym environment = "string \<rightharpoonup> string"

text \<open>
  \<open>prepare\<close>, \<open>run_command\<close> and \<open>finalize\<close> of an execution backend (execution/backend.py), each of
  which may raise; \<open>finalize\<close> gives the paths whose content the commands must not have changed and
  did.
\<close>

record 'w backend =
  bk_host :: bool
  bk_prepare :: "'w \<Rightarrow> string + 'w"
  bk_run :: "environment \<Rightarrow> verification_command \<Rightarrow> 'w \<Rightarrow> (string + command_outcome) \<times> 'w"
  bk_finalize :: "'w \<Rightarrow> (string + path list) \<times> 'w"

definition harness_environment :: environment where
  "harness_environment = [''PYTHONDONTWRITEBYTECODE'' \<mapsto> ''1'']"

definition base_environment :: "verification_config \<Rightarrow> environment \<Rightarrow> environment" where
  "base_environment g os = harness_environment ++ (os |` set (vg_environment_allowlist g))"

subsection \<open>Dependency installation\<close>

record manifest_view =
  mv_requirements :: "(string \<times> string) list"
  mv_pyproject :: "bool option"
  mv_digest :: "string \<Rightarrow> string"
  mv_host_target :: "string \<Rightarrow> string"
  mv_python :: string

definition names_requirement :: "string \<Rightarrow> bool" where
  "names_requirement content =
     list_ex (\<lambda>l. strip l \<noteq> [] \<and> \<not> starts_with (lstrip l) ''#'') (splitlines content)"

definition install_manifest :: "manifest_view \<Rightarrow> string option" where
  "install_manifest v =
     (case filter (\<lambda>p. names_requirement (snd p)) (sort_key fst (mv_requirements v)) of
        p # _ \<Rightarrow> Some (fst p)
      | [] \<Rightarrow> if mv_pyproject v = Some True then Some ''pyproject.toml'' else None)"

definition dependency_install ::
  "verification_config \<Rightarrow> bool \<Rightarrow> manifest_view \<Rightarrow> (verification_command \<times> environment) option" where
  "dependency_install g host v =
     (if \<not> vg_auto_install g then None
      else (case install_manifest v of None \<Rightarrow> None
       | Some m \<Rightarrow>
           (let d = take 16 (mv_digest v m);
                target = (if host then mv_host_target v d else ''.apoapsis-dependencies/'' @ d);
                argv = [if host then mv_python v else ''python'', ''-m'', ''pip'', ''install'', ''--upgrade'', ''--target'', target]
                   @ (if m = ''pyproject.toml'' then [''.''] else [''-r'', m])
            in Some (\<lparr>vc_name = ''dependency-install'', vc_category = ''dependencies'', vc_argv = argv,
                 vc_timeout = vg_install_timeout g, vc_required = True, vc_environment = [],
                 vc_description = ''Harness-selected installation of declared project dependencies.'',
                 vc_acceptance = False, vc_discovery_roots = []\<rparr>,
               [''PYTHONPATH'' \<mapsto> target]))))"

subsection \<open>The run\<close>

definition truncation_marker :: string where
  "truncation_marker = newline # ''... output truncated by Apoapsis ...'' @ [newline]"

definition truncate_output :: "nat \<Rightarrow> string \<Rightarrow> string \<times> bool" where
  "truncate_output limit s =
     (if length s \<le> limit then (s, False)
      else (let head = (limit - length truncation_marker) div 2;
                rest = limit - length truncation_marker - head
            in (take head s @ truncation_marker @ drop (length s - rest) s, True)))"

definition command_result_of :: "nat \<Rightarrow> verification_command \<Rightarrow> bool \<Rightarrow> bool \<Rightarrow> command_outcome \<Rightarrow> command_result" where
  "command_result_of limit c required acceptance o_c =
     (let (out, cut) = truncate_output limit (co_stdout o_c);
          (err, cut') = truncate_output limit (co_stderr o_c)
      in \<lparr>cr_name = vc_name c, cr_category = vc_category c, cr_argv = vc_argv c, cr_required = required,
          cr_acceptance = acceptance, cr_status = co_status o_c, cr_exit = co_exit o_c, cr_stdout = trim out,
          cr_stderr = trim err, cr_truncated = (cut \<or> cut')\<rparr>)"

definition skipped_result :: "verification_command \<Rightarrow> command_result" where
  "skipped_result c =
     \<lparr>cr_name = vc_name c, cr_category = vc_category c, cr_argv = vc_argv c, cr_required = vc_required c,
      cr_acceptance = vc_acceptance c, cr_status = SKIPPED, cr_exit = None, cr_stdout = [], cr_stderr = [],
      cr_truncated = False\<rparr>"

text \<open>The loop over the commands; an exception of the backend leaves it with the worktree reached.\<close>

fun run_commands ::
  "'w backend \<Rightarrow> verification_config \<Rightarrow> environment \<Rightarrow> bool \<Rightarrow> verification_command list \<Rightarrow> 'w
    \<Rightarrow> (string + command_result list) \<times> 'w" where
  "run_commands b g env stop [] w = (Inr [], w)"
| "run_commands b g env stop (c # cs) w =
     (if stop then
        (case run_commands b g env stop cs w of
           (Inl e, w') \<Rightarrow> (Inl e, w')
         | (Inr rs, w') \<Rightarrow> (Inr (skipped_result c # rs), w'))
      else
        (case bk_run b (env ++ map_of (rev (vc_environment c))) c w of
           (Inl e, w1) \<Rightarrow> (Inl e, w1)
         | (Inr o_c, w1) \<Rightarrow>
             (let r = command_result_of (vg_output_limit g) c (vc_required c) (vc_acceptance c) o_c;
                  stop' = (vg_stop_on_failure g \<and> vc_required c \<and> cr_status r \<noteq> PASSED)
              in case run_commands b g env stop' cs w1 of
                   (Inl e, w') \<Rightarrow> (Inl e, w')
                 | (Inr rs, w') \<Rightarrow> (Inr (r # rs), w'))))"

definition run_install ::
  "'w backend \<Rightarrow> verification_config \<Rightarrow> environment \<Rightarrow> verification_command option \<Rightarrow> 'w
    \<Rightarrow> (string + command_result list) \<times> 'w" where
  "run_install b g env dep w =
     (case dep of None \<Rightarrow> (Inr [], w)
      | Some c \<Rightarrow>
          (case bk_run b env c w of (Inl e, w1) \<Rightarrow> (Inl e, w1)
           | (Inr o_c, w1) \<Rightarrow> (Inr [command_result_of (vg_output_limit g) c True False o_c], w1)))"

definition required_failures :: "command_result list \<Rightarrow> command_result list" where
  "required_failures rs = filter (\<lambda>r. cr_required r \<and> cr_status r \<noteq> PASSED) rs"

definition run_body ::
  "'w backend \<Rightarrow> verification_config \<Rightarrow> environment \<Rightarrow> (string + manifest_view) \<Rightarrow> 'w
    \<Rightarrow> (string + command_result list) \<times> 'w" where
  "run_body b g os view w =
     (case view of Inl e \<Rightarrow> (Inl e, w)
      | Inr v \<Rightarrow>
          (let dep = dependency_install g (bk_host b) v;
               env = base_environment g os ++ (case dep of None \<Rightarrow> Map.empty | Some d \<Rightarrow> snd d)
           in case run_install b g env (map_option fst dep) w of
                (Inl e, w1) \<Rightarrow> (Inl e, w1)
              | (Inr first, w1) \<Rightarrow>
                  (case run_commands b g env (list_ex (\<lambda>r. cr_status r \<noteq> PASSED) first) (vg_commands g) w1 of
                     (Inl e, w2) \<Rightarrow> (Inl e, w2)
                   | (Inr rest, w2) \<Rightarrow> (Inr (first @ rest), w2))))"

definition run_verification ::
  "'w backend \<Rightarrow> verification_config \<Rightarrow> environment \<Rightarrow> ('w \<Rightarrow> string + manifest_view) \<Rightarrow> string \<Rightarrow> 'w
    \<Rightarrow> (string + verification_result) \<times> 'w" where
  "run_verification b g os view task w =
     (case bk_prepare b w of Inl e \<Rightarrow> (Inl e, w)
      | Inr w0 \<Rightarrow>
          (case run_body b g os (view w0) w0 of (answer, w1) \<Rightarrow>
             (case bk_finalize b w1 of
                (Inl e, w2) \<Rightarrow> (Inl e, w2)
              | (Inr violations, w2) \<Rightarrow>
                (case answer of Inl e \<Rightarrow> (Inl e, w2)
                 | Inr rs \<Rightarrow>
                     (Inr \<lparr>vr_task = task,
                           vr_status = (if required_failures rs \<noteq> [] \<or> violations \<noteq> [] then FAILED_CHECK else PASSED),
                           vr_commands = rs, vr_violations = violations\<rparr>, w2)))))"

subsection \<open>Facts\<close>

definition command_tag :: "verification_command \<Rightarrow> string \<times> bool \<times> bool" where
  "command_tag c = (vc_name c, vc_required c, vc_acceptance c)"

definition result_tag :: "command_result \<Rightarrow> string \<times> bool \<times> bool" where
  "result_tag r = (cr_name r, cr_required r, cr_acceptance r)"

lemma command_result_of_simps [simp]:
  "cr_name (command_result_of l c q a o_c) = vc_name c" "cr_required (command_result_of l c q a o_c) = q"
  "cr_acceptance (command_result_of l c q a o_c) = a" "cr_status (command_result_of l c q a o_c) = co_status o_c"
  by (simp_all add: command_result_of_def split: prod.split)

lemma result_tag_of [simp]:
  "result_tag (command_result_of l c (vc_required c) (vc_acceptance c) o_c) = command_tag c"
  by (simp add: result_tag_def command_tag_def)

lemma skipped_result_simps [simp]:
  "result_tag (skipped_result c) = command_tag c" "cr_status (skipped_result c) = SKIPPED"
  by (simp_all add: skipped_result_def result_tag_def command_tag_def)

lemma truncate_output_length:
  "length truncation_marker \<le> limit \<Longrightarrow> length (fst (truncate_output limit s)) \<le> limit"
  by (auto simp: truncate_output_def Let_def)

lemma trim_length: "length (trim s) \<le> length s"
  using length_dropWhile_le [of is_trimmed_char s] length_dropWhile_le [of is_trimmed_char "rev (dropWhile is_trimmed_char s)"]
  by (simp add: trim_def)

definition outputs_within :: "nat \<Rightarrow> command_result \<Rightarrow> bool" where
  "outputs_within limit r = (length (cr_stdout r) \<le> limit \<and> length (cr_stderr r) \<le> limit)"

lemma outputs_within_results:
  "length truncation_marker \<le> limit \<Longrightarrow> outputs_within limit (command_result_of limit c q a o_c)"
  "outputs_within limit (skipped_result c)"
proof -
  assume l: "length truncation_marker \<le> limit"
  have "length (trim (fst (truncate_output limit s))) \<le> limit" for s
    using trim_length truncate_output_length [OF l] order_trans by blast
  then show "outputs_within limit (command_result_of limit c q a o_c)"
    by (simp add: outputs_within_def command_result_of_def split_beta)
qed (simp add: outputs_within_def skipped_result_def)

lemma run_commands_stopped:
  "run_commands b g env True cs w = (Inr rs, w') \<Longrightarrow> rs = map skipped_result cs \<and> w' = w"
  by (induction cs arbitrary: rs) (auto split: prod.splits sum.splits)

fun stops_after :: "verification_config \<Rightarrow> command_result list \<Rightarrow> bool" where
  "stops_after g [] = True"
| "stops_after g (r # rs) =
     ((vg_stop_on_failure g \<and> cr_required r \<and> cr_status r \<noteq> PASSED \<longrightarrow> list_all (\<lambda>s. cr_status s = SKIPPED) rs)
      \<and> stops_after g rs)"

lemma stops_after_skipped: "stops_after g (map skipped_result cs)"
  by (induction cs) (auto simp: list_all_iff)

lemma run_commands_result:
  assumes "run_commands b g env stop cs w = (Inr rs, w')"
  shows "map result_tag rs = map command_tag cs" "stops_after g rs" "stop \<Longrightarrow> list_all (\<lambda>s. cr_status s = SKIPPED) rs"
    "length truncation_marker \<le> vg_output_limit g \<Longrightarrow> list_all (outputs_within (vg_output_limit g)) rs"
  using assms
proof (induction cs arbitrary: stop w rs)
  case (Cons c cs)
  {
    case 1 with Cons show ?case by (auto simp: Let_def split: if_splits prod.splits sum.splits)
  next
    case 2
    show ?case
    proof (cases stop)
      case True
      with 2 run_commands_stopped [of b g env "c # cs" w rs w'] show ?thesis
        using stops_after_skipped [of g "c # cs"] by simp
    next
      case False
      with 2 obtain o_c w1 rest where r: "rs = command_result_of (vg_output_limit g) c (vc_required c) (vc_acceptance c) o_c # rest"
        "run_commands b g env (vg_stop_on_failure g \<and> vc_required c \<and> co_status o_c \<noteq> PASSED) cs w1 = (Inr rest, w')"
        by (auto simp: Let_def split: prod.splits sum.splits)
      show ?thesis using Cons(2) [OF r(2)] Cons(3) [OF _ r(2)] r(1) by simp
    qed
  next
    case 3 with Cons show ?case by (auto dest!: run_commands_stopped simp: list_all_iff split: prod.splits sum.splits)
  next
    case 4
    note l = this(1) and run = this(2)
    show ?case
    proof (cases stop)
      case True
      with run run_commands_stopped [of b g env "c # cs" w rs w'] show ?thesis
        using outputs_within_results(2) by (auto simp: list_all_iff)
    next
      case False
      with run obtain o_c w1 rest where r: "rs = command_result_of (vg_output_limit g) c (vc_required c) (vc_acceptance c) o_c # rest"
        "run_commands b g env (vg_stop_on_failure g \<and> vc_required c \<and> co_status o_c \<noteq> PASSED) cs w1 = (Inr rest, w')"
        by (auto simp: Let_def split: prod.splits sum.splits)
      show ?thesis using Cons(4) [OF l r(2)] r(1) outputs_within_results(1) [OF l] by simp
    qed
  }
qed auto

lemma run_install_result:
  assumes "run_install b g env dep w = (Inr first, w')"
  shows "length first \<le> 1" "\<And>r. r \<in> set first \<Longrightarrow> cr_required r"
    "length truncation_marker \<le> vg_output_limit g \<Longrightarrow> list_all (outputs_within (vg_output_limit g)) first"
  using assms by (auto simp: run_install_def outputs_within_results split: option.splits prod.splits sum.splits)

lemma run_body_result:
  assumes "run_body b g os view w = (Inr rs, w')"
  shows "\<exists>first rest. rs = first @ rest \<and> length first \<le> 1 \<and> list_all cr_required first
           \<and> map result_tag rest = map command_tag (vg_commands g) \<and> stops_after g rest
           \<and> (required_failures first \<noteq> [] \<longrightarrow> list_all (\<lambda>s. cr_status s = SKIPPED) rest)
           \<and> (length truncation_marker \<le> vg_output_limit g \<longrightarrow> list_all (outputs_within (vg_output_limit g)) rs)"
proof -
  obtain v env dep first w1 rest w2 where f: "run_install b g env dep w = (Inr first, w1)"
    and r: "run_commands b g env (list_ex (\<lambda>r. cr_status r \<noteq> PASSED) first) (vg_commands g) w1 = (Inr rest, w2)"
    and rs: "rs = first @ rest"
    using assms by (auto simp: run_body_def Let_def split: sum.splits prod.splits)
  have "list_ex (\<lambda>r. cr_status r \<noteq> PASSED) first" if "required_failures first \<noteq> []"
    using that by (auto simp: required_failures_def list_ex_iff filter_empty_conv)
  with run_commands_result [OF r] run_install_result [OF f] rs
  have "rs = first @ rest \<and> length first \<le> 1 \<and> list_all cr_required first
           \<and> map result_tag rest = map command_tag (vg_commands g) \<and> stops_after g rest
           \<and> (required_failures first \<noteq> [] \<longrightarrow> list_all (\<lambda>s. cr_status s = SKIPPED) rest)
           \<and> (length truncation_marker \<le> vg_output_limit g \<longrightarrow> list_all (outputs_within (vg_output_limit g)) rs)"
    by (auto simp: list_all_iff)
  then show ?thesis by blast
qed

lemma run_verification_result:
  assumes "run_verification b g os view task w = (Inr r, w')"
  obtains w0 w1 rs violations where "run_body b g os (view w0) w0 = (Inr rs, w1)"
    "bk_finalize b w1 = (Inr violations, w')" "vr_commands r = rs" "vr_violations r = violations" "vr_task r = task"
    "vr_status r = (if required_failures rs \<noteq> [] \<or> violations \<noteq> [] then FAILED_CHECK else PASSED)"
  using assms by (auto simp: run_verification_def split: sum.splits prod.splits)

text \<open>What every command of a backend keeps, the part of a run between preparation and finalization keeps.\<close>

locale kept_by_commands =
  fixes b :: "'w backend"
    and I :: "'w \<Rightarrow> bool"
  assumes run_keeps: "I w \<Longrightarrow> bk_run b env c w = (x, w') \<Longrightarrow> I w'"
begin

lemma run_commands_keeps: "I w \<Longrightarrow> run_commands b g env stop cs w = (x, w') \<Longrightarrow> I w'"
proof (induction cs arbitrary: stop w x)
  case (Cons c cs)
  then show ?case
    by (cases stop) (auto simp: Let_def split: prod.splits sum.splits dest: run_keeps)
qed simp

lemma run_install_keeps: "I w \<Longrightarrow> run_install b g env dep w = (x, w') \<Longrightarrow> I w'"
  by (auto simp: run_install_def split: option.splits prod.splits sum.splits dest: run_keeps)

lemma run_body_keeps:
  assumes "I w" "run_body b g os view w = (x, w')"
  shows "I w'"
proof (cases view)
  case (Inl e)
  with assms show ?thesis by (simp add: run_body_def)
next
  case (Inr v)
  define env where "env = base_environment g os
    ++ (case dependency_install g (bk_host b) v of None \<Rightarrow> Map.empty | Some d \<Rightarrow> snd d)"
  obtain y w1 where i: "run_install b g env (map_option fst (dependency_install g (bk_host b) v)) w = (y, w1)"
    by fastforce
  have k: "I w1" by (rule run_install_keeps [OF assms(1) i])
  show ?thesis
  proof (cases y)
    case (Inl e)
    with Inr i k assms(2) show ?thesis by (simp add: run_body_def Let_def env_def)
  next
    case r: (Inr first)
    obtain z w2 where c: "run_commands b g env (list_ex (\<lambda>r. cr_status r \<noteq> PASSED) first) (vg_commands g) w1 = (z, w2)"
      by fastforce
    have "w' = w2" using Inr i r c assms(2) by (auto simp: run_body_def Let_def env_def split: sum.splits)
    with run_commands_keeps [OF k c] show ?thesis by simp
  qed
qed

end

text \<open>What preparation and finalization keep as well, a whole run keeps, however it ends.\<close>

locale kept_by_backend = kept_by_commands b I for b :: "'w backend" and I +
  assumes prepare_keeps: "I w \<Longrightarrow> bk_prepare b w = Inr w' \<Longrightarrow> I w'"
    and finalize_keeps: "I w \<Longrightarrow> bk_finalize b w = (y, w') \<Longrightarrow> I w'"
begin

lemma run_verification_keeps:
  assumes "I w" "run_verification b g os view task w = (x, w')"
  shows "I w'"
proof (cases "bk_prepare b w")
  case (Inl e)
  with assms show ?thesis by (simp add: run_verification_def)
next
  case (Inr w0)
  obtain y w1 where body: "run_body b g os (view w0) w0 = (y, w1)" by fastforce
  obtain z w2 where fin: "bk_finalize b w1 = (z, w2)" by fastforce
  have "w' = w2" using Inr body fin assms(2) by (auto simp: run_verification_def split: sum.splits)
  with finalize_keeps [OF run_body_keeps [OF prepare_keeps [OF assms(1) Inr] body] fin] show ?thesis by simp
qed

end

subsection \<open>Properties\<close>

text \<open>
  C22: what a verification result says. A run that returns has one result for each configured
  command, in order and with its required and acceptance flags, after at most one result of a
  dependency installation; it is PASSED exactly when every required command passed and nothing
  protected was changed, otherwise FAILED; a failed installation, and with \<open>stop_on_failure\<close> a failed
  required command, has every later command skipped; and every recorded output is within the limit.
\<close>

theorem verification_result_means:
  assumes "run_verification b g os view task w = (Inr r, w')"
  shows "verification_result_valid r \<and> vr_task r = task \<and> vr_status r \<in> {PASSED, FAILED_CHECK}
    \<and> (vr_status r = PASSED \<longleftrightarrow>
         (\<forall>c \<in> set (vr_commands r). cr_required c \<longrightarrow> cr_status c = PASSED) \<and> vr_violations r = [])
    \<and> (\<exists>first rest. vr_commands r = first @ rest \<and> length first \<le> 1
         \<and> map result_tag rest = map command_tag (vg_commands g) \<and> stops_after g rest
         \<and> (required_failures first \<noteq> [] \<longrightarrow> list_all (\<lambda>s. cr_status s = SKIPPED) rest))
    \<and> (length truncation_marker \<le> vg_output_limit g \<longrightarrow>
         list_all (outputs_within (vg_output_limit g)) (vr_commands r))"
proof -
  from assms obtain w0 w1 rs violations where body: "run_body b g os (view w0) w0 = (Inr rs, w1)"
    and r: "vr_commands r = rs" "vr_violations r = violations" "vr_task r = task"
    and st: "vr_status r = (if required_failures rs \<noteq> [] \<or> violations \<noteq> [] then FAILED_CHECK else PASSED)"
    by (rule run_verification_result)
  have fail: "required_failures rs = [] \<longleftrightarrow> (\<forall>c \<in> set rs. cr_required c \<longrightarrow> cr_status c = PASSED)"
    by (auto simp: required_failures_def filter_empty_conv)
  show ?thesis
    using run_body_result [OF body] st r fail
    by (simp add: verification_result_valid_def list_all_iff) blast
qed

definition sample_backend :: "unit backend" where
  "sample_backend = \<lparr>bk_host = False, bk_prepare = (\<lambda>w. Inr w),
     bk_run = (\<lambda>env c w. (Inr \<lparr>co_status = FAILED_CHECK, co_exit = Some 1, co_stdout = ''x'', co_stderr = []\<rparr>, w)),
     bk_finalize = (\<lambda>w. (Inr [], w))\<rparr>"

definition sample_verification_config :: verification_config where
  "sample_verification_config = \<lparr>vg_commands = [sample_command, sample_command], vg_stop_on_failure = True,
     vg_output_limit = 50, vg_environment_allowlist = [], vg_auto_install = False, vg_install_timeout = 600\<rparr>"

definition sample_manifest :: manifest_view where
  "sample_manifest = \<lparr>mv_requirements = [], mv_pyproject = None, mv_digest = (\<lambda>_. []), mv_host_target = id, mv_python = []\<rparr>"

theorem verification_result_means_witness:
  "\<exists>r. fst (run_verification sample_backend sample_verification_config Map.empty (\<lambda>_. Inr sample_manifest) ''TASK-1'' ())
       = Inr r \<and> vr_status r = FAILED_CHECK"
proof -
  let ?run = "run_verification sample_backend sample_verification_config Map.empty (\<lambda>_. Inr sample_manifest) ''TASK-1'' ()"
  obtain r where r: "?run = (Inr r, ())"
    by (simp add: run_verification_def sample_backend_def sample_verification_config_def sample_manifest_def
        run_body_def dependency_install_def run_install_def sample_command_def Let_def)
  from verification_result_means [OF r] have s: "vr_status r \<in> {PASSED, FAILED_CHECK}" and
    p: "vr_status r = PASSED \<longleftrightarrow>
         (\<forall>c \<in> set (vr_commands r). cr_required c \<longrightarrow> cr_status c = PASSED) \<and> vr_violations r = []" by blast+
  have "\<exists>c \<in> set (vr_commands r). cr_required c \<and> cr_status c \<noteq> PASSED"
    using r by (auto simp: run_verification_def sample_backend_def sample_verification_config_def sample_manifest_def
        run_body_def dependency_install_def run_install_def Let_def sample_command_def)
  with s p have "vr_status r = FAILED_CHECK" by blast
  with r show ?thesis by simp
qed

end
