(* ===== verification/Execution_Backends.thy ===== *)
theory Execution_Backends
  imports Verification_Run
begin

section \<open>Execution backends (execution/backend.py, host_backend.py, docker_backend.py)\<close>

text \<open>
  Where a configured argument vector runs: directly in the worktree, or in a container over a copy
  of it. Starting a process is a parameter; a process ends with an exit code, a timeout or an
  \<open>OSError\<close>. A directory is a list of named entries; a link leads to a file with its content, to a directory, or to
  nothing that can be read.
  Run and container identifiers come from the caller, and the float \<open>cpu_limit\<close> is its printed form.
  Windows reparse points count as links.
\<close>

datatype process_end = Exited int string string | Timed_Out string string | Os_Error string

text \<open>\<open>RawCommandOutcome\<close> of a process end: the status rule both backends share.\<close>

definition outcome_of :: "process_end \<Rightarrow> command_outcome" where
  "outcome_of e =
     (case e of
        Exited n out err \<Rightarrow>
          \<lparr>co_status = (if n = 0 then PASSED else FAILED_CHECK), co_exit = Some n, co_stdout = out, co_stderr = err\<rparr>
      | Timed_Out out err \<Rightarrow> \<lparr>co_status = TIMED_OUT, co_exit = None, co_stdout = out, co_stderr = err\<rparr>
      | Os_Error err \<Rightarrow> \<lparr>co_status = ERROR, co_exit = None, co_stdout = [], co_stderr = err\<rparr>)"

subsection \<open>The host backend\<close>

definition host_backend ::
  "('w \<Rightarrow> bool) \<Rightarrow> (string list \<Rightarrow> environment \<Rightarrow> rat \<Rightarrow> 'w \<Rightarrow> process_end \<times> 'w) \<Rightarrow> 'w backend" where
  "host_backend is_dir proc =
     \<lparr>bk_host = True,
      bk_prepare = (\<lambda>w. if is_dir w then Inr w else Inl ''project root does not exist''),
      bk_run = (\<lambda>env c w. case proc (vc_argv c) env (vc_timeout c) w of (e, w') \<Rightarrow> (Inr (outcome_of e), w')),
      bk_finalize = (\<lambda>w. (Inr [], w))\<rparr>"

subsection \<open>The copied workspace\<close>

datatype link_target = To_File string | To_Directory | Unreadable_Target

datatype entry = File_Entry string | Link_Entry link_target | Other_Entry | Dir_Entry "(string \<times> entry) list"

type_synonym tree = "(string \<times> entry) list"

definition excluded_dir_names :: "string list" where
  "excluded_dir_names = [''.git'', ''.apoapsis'', ''.sol'']"

text \<open>\<open>_copy_workspace\<close>: the copy and the number of skipped entries.\<close>

fun copy_entry :: "entry \<Rightarrow> entry option \<times> nat" and copy_entries :: "tree \<Rightarrow> tree \<times> nat" where
  "copy_entry (File_Entry s) = (Some (File_Entry s), 0)"
| "copy_entry (Link_Entry t) = (None, 1)"
| "copy_entry Other_Entry = (None, 1)"
| "copy_entry (Dir_Entry es) = (case copy_entries es of (es', n) \<Rightarrow> (Some (Dir_Entry es'), n))"
| "copy_entries [] = ([], 0)"
| "copy_entries ((name, e) # es) =
     (case copy_entries es of (es', n) \<Rightarrow>
        if name \<in> set excluded_dir_names then (es', n)
        else (case copy_entry e of (None, m) \<Rightarrow> (es', m + n) | (Some e', m) \<Rightarrow> ((name, e') # es', m + n)))"

definition copy_workspace :: "tree \<Rightarrow> tree" where
  "copy_workspace t = fst (copy_entries t)"

text \<open>
  \<open>_content_manifest\<close>: a POSIX path and a digest for everything \<open>os.walk\<close> lists among the files; a link to a directory is
  among the directories and not entered. \<open>None\<close> when one of the files cannot be read.
\<close>

fun manifest_entry :: "(string \<Rightarrow> digest) \<Rightarrow> string \<Rightarrow> entry \<Rightarrow> (path \<times> digest) list option"
  and manifest_entries :: "(string \<Rightarrow> digest) \<Rightarrow> string \<Rightarrow> tree \<Rightarrow> (path \<times> digest) list option" where
  "manifest_entry H p (File_Entry s) = Some [(p, H s)]"
| "manifest_entry H p (Link_Entry l) =
     (case l of To_File s \<Rightarrow> Some [(p, H s)] | To_Directory \<Rightarrow> Some [] | Unreadable_Target \<Rightarrow> None)"
| "manifest_entry H p Other_Entry = None"
| "manifest_entry H p (Dir_Entry es) = manifest_entries H (p @ ''/'') es"
| "manifest_entries H d [] = Some []"
| "manifest_entries H d ((name, e) # es) =
     (case manifest_entry H (d @ name) e of None \<Rightarrow> None
      | Some m \<Rightarrow> (case manifest_entries H d es of None \<Rightarrow> None | Some ms \<Rightarrow> Some (m @ ms)))"

definition content_manifest :: "(string \<Rightarrow> digest) \<Rightarrow> tree \<Rightarrow> (path \<times> digest) list option" where
  "content_manifest H t = manifest_entries H [] t"

definition changed_contents :: "(path \<times> digest) list \<Rightarrow> (path \<times> digest) list \<Rightarrow> path list" where
  "changed_contents before after = sort (map fst (filter (\<lambda>(p, d). map_of after p \<noteq> Some d) before))"

subsection \<open>The docker backend\<close>

record docker_config =
  dk_image :: string
  dk_image_digest :: string
  dk_cpu_limit :: string
  dk_memory_mb :: nat
  dk_pids :: nat
  dk_tmpfs_mb :: nat
  dk_wall_clock :: rat
  dk_environment_allowlist :: "string list"
  dk_network :: string
  dk_user :: string
  dk_executable :: string

definition image_reference :: "docker_config \<Rightarrow> string" where
  "image_reference d = dk_image d @ ''@'' @ dk_image_digest d"

definition exported_environment :: "docker_config \<Rightarrow> environment \<Rightarrow> string list" where
  "exported_environment d env =
     concat (map (\<lambda>k. case env k of None \<Rightarrow> [] | Some v \<Rightarrow> [''-e'', k @ ''='' @ v]) (dk_environment_allowlist d))"

definition build_argv :: "docker_config \<Rightarrow> string \<Rightarrow> string \<Rightarrow> string \<Rightarrow> verification_command \<Rightarrow> environment \<Rightarrow> string list" where
  "build_argv d container run_id workspace c env =
     [dk_executable d, ''run'', ''--rm'', ''--name'', container, ''--label'', ''apoapsis.managed=true'', ''--label'',
      ''apoapsis.run_id='' @ run_id, ''--pull=never'', ''--network'', dk_network d, ''--read-only'', ''--cap-drop'', ''ALL'',
      ''--security-opt'', ''no-new-privileges'', ''--pids-limit'', decimal (dk_pids d), ''--memory'',
      decimal (dk_memory_mb d) @ ''m'', ''--cpus'', dk_cpu_limit d, ''--user'', dk_user d, ''--tmpfs'',
      ''/tmp:size='' @ decimal (dk_tmpfs_mb d) @ ''m'', ''-v'', workspace @ '':/workspace:rw'', ''-w'', ''/workspace'']
     @ exported_environment d env @ [image_reference d] @ vc_argv c"

text \<open>
  What the backend asks of the docker client: one call with its arguments answers with the exit code
  and both outputs, or fails; \<open>ds_container\<close> is the run of a container over the copy.
\<close>

record docker_services =
  ds_on_path :: bool
  ds_call :: "string list \<Rightarrow> (int \<times> string \<times> string) option"
  ds_container :: "string list \<Rightarrow> rat \<Rightarrow> tree \<Rightarrow> process_end \<times> tree"
  ds_run_id :: "verification_command \<Rightarrow> string"
  ds_digests :: "string \<Rightarrow> string list option"

datatype sandbox_error =
    Cli_Missing | Call_Failed "string list" | Engine_Silent | Not_Linux string | Digest_Mismatch "string list" | Image_Missing

definition locally_present_digests :: "docker_services \<Rightarrow> docker_config \<Rightarrow> sandbox_error + string list" where
  "locally_present_digests ds d =
     (let args = [''image'', ''inspect'', dk_image d, ''--format'', ''{{json .RepoDigests}}''] in
      case ds_call ds args of None \<Rightarrow> Inl (Call_Failed args)
      | Some (code, out, err) \<Rightarrow>
          if code \<noteq> 0 then Inr []
          else Inr (case ds_digests ds (if strip out = [] then ''[]'' else strip out) of None \<Rightarrow> [] | Some l \<Rightarrow> l))"

definition preflight :: "docker_services \<Rightarrow> docker_config \<Rightarrow> sandbox_error option" where
  "preflight ds d =
     (if \<not> ds_on_path ds then Some Cli_Missing
      else let v_args = [''info'', ''--format'', ''{{.ServerVersion}}''];
               o_args = [''info'', ''--format'', ''{{.OSType}}''];
               i_args = [''image'', ''inspect'', image_reference d]
      in case ds_call ds v_args of None \<Rightarrow> Some (Call_Failed v_args)
         | Some (v_code, _, _) \<Rightarrow>
             if v_code \<noteq> 0 then Some Engine_Silent
             else (case ds_call ds o_args of None \<Rightarrow> Some (Call_Failed o_args)
               | Some (o_code, o_out, _) \<Rightarrow>
                   if o_code \<noteq> 0 \<or> strip o_out \<noteq> ''linux'' then Some (Not_Linux (strip o_out))
                   else (case ds_call ds i_args of None \<Rightarrow> Some (Call_Failed i_args)
                     | Some (i_code, _, _) \<Rightarrow>
                         if i_code = 0 then None
                         else (case locally_present_digests ds d of Inl e \<Rightarrow> Some e
                           | Inr [] \<Rightarrow> Some Image_Missing
                           | Inr l \<Rightarrow> Some (Digest_Mismatch l)))))"

definition verify_ownership :: "docker_services \<Rightarrow> string \<Rightarrow> string \<Rightarrow> sandbox_error + bool" where
  "verify_ownership ds container run_id =
     (let args = [''inspect'', ''--format'',
          ''{{ index .Config.Labels '' @ [CHR 0x22] @ ''apoapsis.run_id'' @ [CHR 0x22] @ '' }}'', container] in
      case ds_call ds args of None \<Rightarrow> Inl (Call_Failed args)
      | Some (code, out, _) \<Rightarrow> Inr (code = 0 \<and> strip out = run_id))"

text \<open>\<open>_kill_and_remove\<close>, as the list of docker calls it makes and whether it raised.\<close>

definition kill_and_remove :: "docker_services \<Rightarrow> string \<Rightarrow> string \<Rightarrow> string list list \<times> sandbox_error option" where
  "kill_and_remove ds container run_id =
     (case verify_ownership ds container run_id of Inl e \<Rightarrow> ([], Some e)
      | Inr False \<Rightarrow> ([], None)
      | Inr True \<Rightarrow>
          (case ds_call ds [''kill'', container] of None \<Rightarrow> ([[''kill'', container]], Some (Call_Failed [''kill'', container]))
           | Some _ \<Rightarrow>
               ([[''kill'', container], [''rm'', ''-f'', container]],
                case ds_call ds [''rm'', ''-f'', container] of None \<Rightarrow> Some (Call_Failed [''rm'', ''-f'', container]) | Some _ \<Rightarrow> None)))"

text \<open>
  The project tree, the copy of it a run works on with its location, and the manifest taken before the commands.
\<close>

record sandbox_world =
  sw_project :: tree
  sw_workspace :: tree
  sw_before :: "(path \<times> digest) list"

definition docker_backend ::
  "(string \<Rightarrow> digest) \<Rightarrow> docker_services \<Rightarrow> docker_config \<Rightarrow> string \<Rightarrow> string \<Rightarrow> sandbox_world backend" where
  "docker_backend H ds d location name_prefix =
     \<lparr>bk_host = False,
      bk_prepare = (\<lambda>w.
        case preflight ds d of Some e \<Rightarrow> Inl ''SandboxUnavailableError''
        | None \<Rightarrow>
            (let copy = copy_workspace (sw_project w) in
             case content_manifest H copy of None \<Rightarrow> Inl ''OSError''
             | Some m \<Rightarrow> Inr (w\<lparr>sw_workspace := copy, sw_before := m\<rparr>))),
      bk_run = (\<lambda>env c w.
        (let run_id = ds_run_id ds c; container = name_prefix @ take 8 run_id in
         case ds_container ds (build_argv d container run_id location c env) (min (vc_timeout c) (dk_wall_clock d))
             (sw_workspace w) of
           (e, t) \<Rightarrow>
             (let w' = w\<lparr>sw_workspace := t\<rparr> in
              case e of
                Timed_Out _ _ \<Rightarrow>
                  (case kill_and_remove ds container run_id of (_, Some _) \<Rightarrow> (Inl ''SandboxUnavailableError'', w')
                   | (_, None) \<Rightarrow> (Inr (outcome_of e), w'))
              | _ \<Rightarrow> (Inr (outcome_of e), w')))),
      bk_finalize = (\<lambda>w.
        case content_manifest H (sw_workspace w) of None \<Rightarrow> (Inl ''OSError'', w)
        | Some after \<Rightarrow> (Inr (changed_contents (sw_before w) after), w\<lparr>sw_workspace := []\<rparr>))\<rparr>"

subsection \<open>Facts\<close>

lemmas docker_fields = docker_backend_def backend.select_convs

interpretation docker_commands: kept_by_commands "docker_backend H ds d location name_prefix"
    "\<lambda>w. sw_project w = t \<and> sw_before w = m"
  for H ds d location name_prefix t m
  by unfold_locales (auto simp: docker_fields Let_def split: option.splits process_end.splits prod.splits)

interpretation docker: kept_by_backend "docker_backend H ds d location name_prefix" "\<lambda>w. sw_project w = t"
  for H ds d location name_prefix t
  by unfold_locales (auto simp: docker_fields Let_def split: option.splits process_end.splits prod.splits)

lemma changed_contents_iff:
  "p \<in> set (changed_contents before after) \<longleftrightarrow> (\<exists>d. (p, d) \<in> set before \<and> map_of after p \<noteq> Some d)"
  by (force simp: changed_contents_def)

text \<open>
  The regular files of a tree outside the excluded names, with their POSIX paths: what is copied.
\<close>

fun regular_entry :: "string \<Rightarrow> entry \<Rightarrow> (path \<times> string) list"
  and regular_files :: "string \<Rightarrow> tree \<Rightarrow> (path \<times> string) list" where
  "regular_entry p (File_Entry s) = [(p, s)]"
| "regular_entry p (Link_Entry t) = []"
| "regular_entry p Other_Entry = []"
| "regular_entry p (Dir_Entry es) = regular_files (p @ ''/'') es"
| "regular_files d [] = []"
| "regular_files d ((name, e) # es) =
     (if name \<in> set excluded_dir_names then [] else regular_entry (d @ name) e) @ regular_files d es"

lemma copied_manifest:
  shows "(case fst (copy_entry e) of None \<Rightarrow> regular_entry p e = []
          | Some e' \<Rightarrow> manifest_entry H p e' = Some (map (\<lambda>(q, s). (q, H s)) (regular_entry p e)))"
    and "manifest_entries H d (fst (copy_entries t)) = Some (map (\<lambda>(q, s). (q, H s)) (regular_files d t))"
proof (induction e and t arbitrary: p and d rule: copy_entry_copy_entries.induct)
  case (4 es)
  show ?case using 4 [of "p @ ''/''"] by (cases "copy_entries es") simp
next
  case (6 name e es)
  obtain es' n where es': "copy_entries es = (es', n)" by fastforce
  obtain e' m where e': "copy_entry e = (e', m)" by fastforce
  show ?case
  proof (cases "name \<in> set excluded_dir_names")
    case True
    with 6(1) [of d] es' show ?thesis by simp
  next
    case False
    have "case fst (copy_entry e) of None \<Rightarrow> regular_entry (d @ name) e = []
          | Some e' \<Rightarrow> manifest_entry H (d @ name) e' = Some (map (\<lambda>(q, s). (q, H s)) (regular_entry (d @ name) e))"
      by (rule 6(2)) (use es' False in auto)
    with 6(1) [of d] False es' e' show ?thesis by (cases e') auto
  qed
qed auto

lemma copy_manifest:
  "content_manifest H (copy_workspace t) = Some (map (\<lambda>(q, s). (q, H s)) (regular_files [] t))"
  by (simp add: content_manifest_def copy_workspace_def copied_manifest(2))

definition prepared :: "(string \<Rightarrow> digest) \<Rightarrow> sandbox_world \<Rightarrow> sandbox_world" where
  "prepared H w = w\<lparr>sw_workspace := copy_workspace (sw_project w),
     sw_before := map (\<lambda>(q, s). (q, H s)) (regular_files [] (sw_project w))\<rparr>"

lemma docker_prepare:
  "bk_prepare (docker_backend H ds d location np) w =
     (if preflight ds d = None then Inr (prepared H w) else Inl ''SandboxUnavailableError'')"
  by (simp add: docker_fields prepared_def copy_manifest Let_def split: option.split)

lemma docker_finalize:
  "bk_finalize (docker_backend H ds d location np) w = (Inr v, w') \<Longrightarrow>
     \<exists>after. content_manifest H (sw_workspace w) = Some after \<and> v = changed_contents (sw_before w) after"
  by (auto simp: docker_fields split: option.splits)

text \<open>The container sees exactly the allowlisted part of the environment.\<close>

lemma build_argv_environment:
  "build_argv d container run_id location c env = build_argv d container run_id location c (env |` set (dk_environment_allowlist d))"
  "dk_environment_allowlist d = [] \<Longrightarrow> exported_environment d env = []"
  by (auto simp: build_argv_def exported_environment_def intro!: arg_cong [where f = concat] map_cong)

text \<open>What can be read below a directory as the commands left it, links to files included.\<close>

fun contents_entry :: "string \<Rightarrow> entry \<Rightarrow> (path \<times> string) list"
  and contents_of :: "string \<Rightarrow> tree \<Rightarrow> (path \<times> string) list" where
  "contents_entry p (File_Entry s) = [(p, s)]"
| "contents_entry p (Link_Entry l) = (case l of To_File s \<Rightarrow> [(p, s)] | _ \<Rightarrow> [])"
| "contents_entry p Other_Entry = []"
| "contents_entry p (Dir_Entry es) = contents_of (p @ ''/'') es"
| "contents_of d [] = []"
| "contents_of d ((name, e) # es) = contents_entry (d @ name) e @ contents_of d es"

lemma manifest_contents:
  "manifest_entry H p e = Some m \<Longrightarrow> m = map (\<lambda>(q, s). (q, H s)) (contents_entry p e)"
  "manifest_entries H d t = Some ms \<Longrightarrow> ms = map (\<lambda>(q, s). (q, H s)) (contents_of d t)"
proof (induction p e and d t arbitrary: m and ms rule: contents_entry_contents_of.induct)
  case (6 d name e es)
  then show ?case by (auto split: option.splits)
qed (auto split: link_target.splits)

lemma map_of_digests: "map_of (map (\<lambda>(q, s). (q, H s)) fs) p = map_option H (map_of fs p)"
  by (induction fs) auto

subsection \<open>What a container may do\<close>

definition option_words :: "(string \<times> string option) list \<Rightarrow> string list" where
  "option_words os = concat (map (\<lambda>(f, a). case a of None \<Rightarrow> [f] | Some x \<Rightarrow> [f, x]) os)"

text \<open>
  A docker invocation that confines: \<open>run\<close> with none but these options, among them exactly one mount, the copy, one
  network, the configured one, a read-only root, no capability, no new privileges, the configured user and limits, and
  only allowlisted variables; then the pinned image.
\<close>

definition harmless_options :: "string set" where
  "harmless_options = {''--rm'', ''--name'', ''--label'', ''--pull=never'', ''--network'', ''--read-only'', ''--cap-drop'',
     ''--security-opt'', ''--pids-limit'', ''--memory'', ''--cpus'', ''--user'', ''--tmpfs'', ''-v'', ''-w'', ''-e''}"

definition confined :: "docker_config \<Rightarrow> string \<Rightarrow> string list \<Rightarrow> bool" where
  "confined d location argv =
     (\<exists>os cmd. argv = [dk_executable d, ''run''] @ option_words os @ [dk_image d @ ''@'' @ dk_image_digest d] @ cmd
        \<and> fst ` set os \<subseteq> harmless_options
        \<and> {a. (''-v'', a) \<in> set os} = {Some (location @ '':/workspace:rw'')}
        \<and> {a. (''--network'', a) \<in> set os} = {Some (dk_network d)}
        \<and> {a. (''--user'', a) \<in> set os} = {Some (dk_user d)}
        \<and> {a. (''--pids-limit'', a) \<in> set os} = {Some (decimal (dk_pids d))}
        \<and> {a. (''--memory'', a) \<in> set os} = {Some (decimal (dk_memory_mb d) @ ''m'')}
        \<and> (''--read-only'', None) \<in> set os \<and> (''--rm'', None) \<in> set os \<and> (''--pull=never'', None) \<in> set os
        \<and> (''--cap-drop'', Some ''ALL'') \<in> set os \<and> (''--security-opt'', Some ''no-new-privileges'') \<in> set os
        \<and> (\<forall>a. (''-e'', a) \<in> set os \<longrightarrow> (\<exists>k v. a = Some (k @ ''='' @ v) \<and> k \<in> set (dk_environment_allowlist d))))"

definition exported_options :: "docker_config \<Rightarrow> environment \<Rightarrow> (string \<times> string option) list" where
  "exported_options d env =
     List.map_filter (\<lambda>k. map_option (\<lambda>v. (''-e'', Some (k @ ''='' @ v))) (env k)) (dk_environment_allowlist d)"

definition argv_options :: "docker_config \<Rightarrow> string \<Rightarrow> string \<Rightarrow> string \<Rightarrow> environment \<Rightarrow> (string \<times> string option) list" where
  "argv_options d container run_id workspace env =
     [(''--rm'', None), (''--name'', Some container), (''--label'', Some ''apoapsis.managed=true''),
      (''--label'', Some (''apoapsis.run_id='' @ run_id)), (''--pull=never'', None), (''--network'', Some (dk_network d)),
      (''--read-only'', None), (''--cap-drop'', Some ''ALL''), (''--security-opt'', Some ''no-new-privileges''),
      (''--pids-limit'', Some (decimal (dk_pids d))), (''--memory'', Some (decimal (dk_memory_mb d) @ ''m'')),
      (''--cpus'', Some (dk_cpu_limit d)), (''--user'', Some (dk_user d)),
      (''--tmpfs'', Some (''/tmp:size='' @ decimal (dk_tmpfs_mb d) @ ''m'')), (''-v'', Some (workspace @ '':/workspace:rw'')),
      (''-w'', Some ''/workspace'')]
     @ exported_options d env"

lemma exported_words: "exported_environment d env = option_words (exported_options d env)"
proof -
  have "concat (map (\<lambda>k. case env k of None \<Rightarrow> [] | Some v \<Rightarrow> [''-e'', k @ ''='' @ v]) ks) =
      option_words (List.map_filter (\<lambda>k. map_option (\<lambda>v. (''-e'', Some (k @ ''='' @ v))) (env k)) ks)" for ks
    by (induction ks) (auto simp: option_words_def List.map_filter_def split: option.splits)
  then show ?thesis by (simp add: exported_environment_def exported_options_def)
qed

lemma exported_set:
  "x \<in> set (exported_options d env) \<longleftrightarrow>
     (\<exists>k v. k \<in> set (dk_environment_allowlist d) \<and> env k = Some v \<and> x = (''-e'', Some (k @ ''='' @ v)))"
  by (force simp: exported_options_def List.map_filter_def)

lemma argv_confined: "confined d workspace (build_argv d container run_id workspace c env)"
proof -
  have words: "build_argv d container run_id workspace c env =
      [dk_executable d, ''run''] @ option_words (argv_options d container run_id workspace env)
        @ [dk_image d @ ''@'' @ dk_image_digest d] @ vc_argv c"
    by (simp add: build_argv_def argv_options_def option_words_def exported_words image_reference_def)
  show ?thesis
    unfolding confined_def
    by (rule exI [of _ "argv_options d container run_id workspace env"], rule exI [of _ "vc_argv c"])
      (auto simp: words argv_options_def exported_set harmless_options_def)
qed

text \<open>A backend over another container service that answers confined runs in the same way is the same backend.\<close>

lemma only_confined_runs:
  assumes same: "\<And>argv t ws. confined d location argv \<Longrightarrow> t \<le> dk_wall_clock d \<Longrightarrow> f argv t ws = ds_container ds argv t ws"
  shows "docker_backend H (ds\<lparr>ds_container := f\<rparr>) d location np = docker_backend H ds d location np"
proof -
  have kept: "ds_call (ds\<lparr>ds_container := f\<rparr>) = ds_call ds" "ds_on_path (ds\<lparr>ds_container := f\<rparr>) = ds_on_path ds"
    "ds_digests (ds\<lparr>ds_container := f\<rparr>) = ds_digests ds" "ds_run_id (ds\<lparr>ds_container := f\<rparr>) = ds_run_id ds"
    by simp_all
  have other: "preflight (ds\<lparr>ds_container := f\<rparr>) d = preflight ds d"
    "kill_and_remove (ds\<lparr>ds_container := f\<rparr>) c r = kill_and_remove ds c r" for c r
    by (simp_all only: preflight_def locally_present_digests_def kill_and_remove_def verify_ownership_def kept)
  have run: "ds_container (ds\<lparr>ds_container := f\<rparr>) (build_argv d c r location cmd env) (min t (dk_wall_clock d)) ws
      = ds_container ds (build_argv d c r location cmd env) (min t (dk_wall_clock d)) ws" for c r cmd env t ws
    by (simp add: same argv_confined)
  show ?thesis unfolding docker_backend_def other run kept ..
qed

lemma docker_finalized:
  "bk_finalize (docker_backend H ds d location np) w = (x, w') \<Longrightarrow>
     sw_workspace w' = [] \<or> content_manifest H (sw_workspace w') = None"
  by (auto simp: docker_fields split: option.splits)

lemma docker_result:
  assumes "run_verification (docker_backend H ds d location np) g os view task w = (Inr r, w')"
  shows "\<exists>w1. run_body (docker_backend H ds d location np) g os (view (prepared H w)) (prepared H w) = (Inr (vr_commands r), w1)
    \<and> sw_workspace w' = []
    \<and> set (vr_violations r) = {p. \<exists>s. (p, s) \<in> set (regular_files [] (sw_project w))
         \<and> map_option H (map_of (contents_of [] (sw_workspace w1)) p) \<noteq> Some (H s)}
    \<and> (vr_status r = PASSED \<longrightarrow> vr_violations r = [])"
proof -
  from assms obtain w0 w1 rs v where p: "bk_prepare (docker_backend H ds d location np) w = Inr w0"
    and body: "run_body (docker_backend H ds d location np) g os (view w0) w0 = (Inr rs, w1)"
    and fin: "bk_finalize (docker_backend H ds d location np) w1 = (Inr v, w')"
    and res: "vr_commands r = rs" "vr_violations r = v"
      "vr_status r = (if required_failures rs \<noteq> [] \<or> v \<noteq> [] then FAILED_CHECK else PASSED)"
    by (auto simp: run_verification_def split: sum.splits prod.splits)
  have w0: "w0 = prepared H w" using p by (simp add: docker_prepare split: if_splits)
  have before: "sw_before w1 = map (\<lambda>(q, s). (q, H s)) (regular_files [] (sw_project w))"
    using docker_commands.run_body_keeps [OF _ body, of "sw_project w" "map (\<lambda>(q, s). (q, H s)) (regular_files [] (sw_project w))"]
    by (simp add: w0 prepared_def)
  from fin obtain after where a: "content_manifest H (sw_workspace w1) = Some after"
    "v = changed_contents (sw_before w1) after" "sw_workspace w' = []"
    by (auto simp: docker_fields split: option.splits)
  have "map_of after p = map_option H (map_of (contents_of [] (sw_workspace w1)) p)" for p
    using manifest_contents(2) [OF a(1) [unfolded content_manifest_def]] by (simp add: map_of_digests)
  then have "set v = {p. \<exists>s. (p, s) \<in> set (regular_files [] (sw_project w))
         \<and> map_option H (map_of (contents_of [] (sw_workspace w1)) p) \<noteq> Some (H s)}"
    unfolding a(2) by (intro set_eqI) (force simp: changed_contents_iff before)
  with body a(3) res w0 show ?thesis by (auto split: if_splits)
qed

subsection \<open>Properties\<close>


definition sample_docker :: "docker_services" where
  "sample_docker = \<lparr>ds_on_path = True,
     ds_call = (\<lambda>args. Some (0, if args = [''info'', ''--format'', ''{{.OSType}}''] then ''linux'' else [], [])),
     ds_container = (\<lambda>argv t ws. (Exited 0 [] [], [])), ds_run_id = (\<lambda>_. []), ds_digests = (\<lambda>_. None)\<rparr>"

definition sample_docker_config :: docker_config where
  "sample_docker_config = \<lparr>dk_image = ''i'', dk_image_digest = ''d'', dk_cpu_limit = ''2.0'', dk_memory_mb = 1, dk_pids = 1,
     dk_tmpfs_mb = 1, dk_wall_clock = 1, dk_environment_allowlist = [], dk_network = ''none'', dk_user = ''1:1'',
     dk_executable = ''docker''\<rparr>"


end
