(* ===== verification/Patch_Policy.thy ===== *)
theory Patch_Policy
  imports Diff_Parser "HOL-Library.Product_Lexorder"
begin

section \<open>The policy a patch must satisfy (patches/validator.py)\<close>

text \<open>
  The validator over a parsed patch. \<open>fnmatch\<close> is written out for POSIX paths. Whether a path,
  resolved through the worktree's symbolic links, stays inside it is a question to the file
  system: a parameter \<open>inside\<close>. Messages are left out, so two violations are the same when code
  and path are.
\<close>

subsection \<open>Shell patterns\<close>

text \<open>
  The characters of a bracket expression: single characters and ranges \<open>a-b\<close> (an empty range
  matches nothing).
\<close>

fun class_has :: "string \<Rightarrow> char \<Rightarrow> bool" where
  "class_has [] c = False"
| "class_has [a] c = (c = a)"
| "class_has [a, b] c = (c = a \<or> c = b)"
| "class_has (a # d # b # s) c =
     (if d = CHR ''-'' then (a \<le> c \<and> c \<le> b) \<or> class_has s c else c = a \<or> class_has (d # b # s) c)"

text \<open>
  The text of a bracket expression and what follows its closing bracket; \<open>None\<close> when it is not
  closed. A closing bracket right at the start (after an optional \<open>!\<close>) is an ordinary character.
\<close>

definition bracket_lead :: "string \<Rightarrow> string" where
  "bracket_lead p =
     (let a = (if starts_with p ''!'' then ''!'' else []) in
      if starts_with (drop (length a) p) '']'' then a @ '']'' else a)"

definition bracket :: "string \<Rightarrow> (string \<times> string) option" where
  "bracket p =
     (let lead = bracket_lead p; rest = drop (length lead) p in
      if CHR '']'' \<in> set rest
      then Some (lead @ takeWhile (\<lambda>c. c \<noteq> CHR '']'') rest, drop 1 (dropWhile (\<lambda>c. c \<noteq> CHR '']'') rest))
      else None)"

definition class_match :: "string \<Rightarrow> char \<Rightarrow> bool" where
  "class_match stuff c =
     (if starts_with stuff ''!'' then \<not> class_has (drop 1 stuff) c else class_has stuff c)"

lemma bracket_shorter: "bracket p = Some (stuff, rest) \<Longrightarrow> length rest < Suc (length p)"
proof -
  have "length (dropWhile (\<lambda>c. c \<noteq> CHR '']'') (drop n p)) \<le> length p" for n
    using length_dropWhile_le [of "\<lambda>c. c \<noteq> CHR '']''" "drop n p"] by simp
  then have "length (dropWhile (\<lambda>c. c \<noteq> CHR '']'') (drop n p)) - Suc 0 < Suc (length p)" for n
    by (meson diff_le_self le_imp_less_Suc le_trans)
  then show "bracket p = Some (stuff, rest) \<Longrightarrow> length rest < Suc (length p)"
    by (auto simp: bracket_def Let_def split: if_splits)
qed

function fnmatch :: "string \<Rightarrow> string \<Rightarrow> bool" where
  "fnmatch s [] = (s = [])"
| "fnmatch s (c # p) =
     (if c = CHR ''*'' then fnmatch s p \<or> (case s of [] \<Rightarrow> False | _ # t \<Rightarrow> fnmatch t (c # p))
      else
        (case s of
           [] \<Rightarrow> False
         | x # t \<Rightarrow>
             if c = CHR ''?'' then fnmatch t p
             else if c = CHR ''['' then
               (case bracket p of None \<Rightarrow> x = c \<and> fnmatch t p
                | Some (stuff, rest) \<Rightarrow> class_match stuff x \<and> fnmatch t rest)
             else x = c \<and> fnmatch t p))"
  by pat_completeness auto

termination
  by (relation "measure (\<lambda>(s, p). length s + length p)") (auto dest: bracket_shorter)

subsection \<open>Pure paths\<close>

definition pure_parts :: "path \<Rightarrow> string list" where
  "pure_parts p = filter (\<lambda>w. w \<noteq> [] \<and> w \<noteq> ''.'') (split_on (CHR ''/'') p)"

definition pure_name :: "path \<Rightarrow> string" where
  "pure_name p = (let ws = pure_parts p in if ws = [] then [] else last ws)"

definition pure_stem :: "path \<Rightarrow> string" where
  "pure_stem p =
     (let name = pure_name p; tail = takeWhile (\<lambda>c. c \<noteq> CHR ''.'') (rev name); i = length name - length tail - 1
      in if CHR ''.'' \<in> set name \<and> 0 < i \<and> i < length name - 1 then take i name else name)"

subsection \<open>The validator\<close>

record patch_policy =
  pp_max_lines :: nat
  pp_max_files :: nat
  pp_allow_dependencies :: bool
  pp_allow_tests :: bool
  pp_dependency_files :: "string list"
  pp_verification_files :: "string list"

definition default_patch_policy :: patch_policy where
  "default_patch_policy = \<lparr>pp_max_lines = 5000, pp_max_files = 20, pp_allow_dependencies = True,
     pp_allow_tests = True,
     pp_dependency_files = [''pyproject.toml'', ''requirements*.txt'', ''poetry.lock'', ''uv.lock'', ''package.json'',
        ''package-lock.json'', ''pnpm-lock.yaml'', ''yarn.lock''],
     pp_verification_files = [''.apoapsis/config.toml'', ''.sol/config.toml'', ''pytest.ini'', ''tox.ini'',
        ''mypy.ini'', ''ruff.toml'', ''.github/workflows/**'']\<rparr>"

datatype violation_code =
    Binary_Change | Deleted_Test | Excessive_Diff_Size | Excessive_File_Count | Path_Escape
  | Symlink_Change | Unexpected_Dependency_Change | Unexpected_Test_Change | Verification_Config_Change

type_synonym patch_violation = "violation_code \<times> path option"

definition drive_qualified :: "path \<Rightarrow> bool" where
  "drive_qualified p =
     (case p of c # d # _ \<Rightarrow> d = CHR '':'' \<and> (let n = (of_char c :: nat) in (65 \<le> n \<and> n \<le> 90) \<or> (97 \<le> n \<and> n \<le> 122))
      | _ \<Rightarrow> False)"

definition lexically_safe :: "path \<Rightarrow> bool" where
  "lexically_safe p =
     (p \<noteq> [] \<and> backslash \<notin> set p \<and> char_of (0::nat) \<notin> set p \<and> \<not> drive_qualified p \<and> \<not> starts_with p ''/''
      \<and> pure_parts p \<noteq> [] \<and> ''..'' \<notin> set (pure_parts p)
      \<and> hd (pure_parts p) \<notin> set [''.git'', ''.apoapsis'', ''.sol''])"

definition safe_patch_path :: "(string list \<Rightarrow> bool) \<Rightarrow> path \<Rightarrow> bool" where
  "safe_patch_path inside p = (lexically_safe p \<and> inside (pure_parts p))"

definition matches_patterns :: "path \<Rightarrow> string list \<Rightarrow> bool" where
  "matches_patterns p patterns =
     (let n = replace_char backslash (CHR ''/'') p in
      list_ex (\<lambda>q. fnmatch n q \<or> fnmatch (pure_name n) q) patterns)"

definition is_test_path :: "path \<Rightarrow> bool" where
  "is_test_path p =
     (''tests'' \<in> set (pure_parts p) \<or> starts_with (pure_name p) ''test_'' \<or> ends_with (pure_stem p) ''_test'')"

definition section_ends :: "parsed_file \<Rightarrow> path list" where
  "section_ends f = remdups (List.map_filter id [pf_old f, pf_new f])"

definition file_violations :: "patch_policy \<Rightarrow> (string list \<Rightarrow> bool) \<Rightarrow> parsed_file \<Rightarrow> patch_violation list" where
  "file_violations c inside f =
     (let p = effective_path f in
      (if pf_binary f then [(Binary_Change, Some p)] else [])
      @ (if pf_symlink f then [(Symlink_Change, Some p)] else [])
      @ map (\<lambda>q. (Path_Escape, Some q)) (filter (\<lambda>q. \<not> safe_patch_path inside q) (section_ends f))
      @ (if p = [] then []
         else
           (if \<not> pp_allow_dependencies c \<and> matches_patterns p (pp_dependency_files c)
            then [(Unexpected_Dependency_Change, Some p)] else [])
           @ (if is_test_path p
              then (if pf_is_deleted f then [(Deleted_Test, Some p)]
                    else if \<not> pp_allow_tests c then [(Unexpected_Test_Change, Some p)] else [])
              else [])
           @ (if matches_patterns p (pp_verification_files c) then [(Verification_Config_Change, Some p)] else [])))"

definition patch_violations :: "patch_policy \<Rightarrow> (string list \<Rightarrow> bool) \<Rightarrow> parsed_diff \<Rightarrow> patch_violation list" where
  "patch_violations c inside d =
     (if length (diff_paths d) > pp_max_files c then [(Excessive_File_Count, None)] else [])
     @ (if changed_lines d > pp_max_lines c then [(Excessive_Diff_Size, None)] else [])
     @ concat (map (file_violations c inside) (pd_files d))"

record patch_validation =
  pv_accepted :: bool
  pv_files :: "path list"
  pv_lines :: nat
  pv_violations :: "patch_violation list"

primrec code_rank :: "violation_code \<Rightarrow> nat" where
  "code_rank Binary_Change = 0"
| "code_rank Deleted_Test = 1"
| "code_rank Excessive_Diff_Size = 2"
| "code_rank Excessive_File_Count = 3"
| "code_rank Path_Escape = 4"
| "code_rank Symlink_Change = 5"
| "code_rank Unexpected_Dependency_Change = 6"
| "code_rank Unexpected_Test_Change = 7"
| "code_rank Verification_Config_Change = 8"

definition violation_key :: "patch_violation \<Rightarrow> nat \<times> path" where
  "violation_key v = (code_rank (fst v), case snd v of None \<Rightarrow> [] | Some p \<Rightarrow> p)"

definition validate_patch :: "patch_policy \<Rightarrow> (string list \<Rightarrow> bool) \<Rightarrow> parsed_diff \<Rightarrow> patch_validation" where
  "validate_patch c inside d =
     (let ordered = sort_key violation_key (dedup_by id [] (patch_violations c inside d))
      in \<lparr>pv_accepted = (ordered = []), pv_files = sort (diff_paths d), pv_lines = changed_lines d,
          pv_violations = ordered\<rparr>)"

subsection \<open>What acceptance promises\<close>

lemma accepted_iff: "pv_accepted (validate_patch c inside d) \<longleftrightarrow> patch_violations c inside d = []"
  by (simp add: validate_patch_def Let_def) (metis dedup_by_empty_iff length_0_conv length_sort)

lemma section_ends_set: "set (section_ends f) = {q. pf_old f = Some q \<or> pf_new f = Some q}"
  by (cases "pf_old f"; cases "pf_new f") (auto simp: section_ends_def map_filter_simps)

lemma file_violations_empty:
  "file_violations c inside f = [] \<longleftrightarrow>
     \<not> pf_binary f \<and> \<not> pf_symlink f
     \<and> (\<forall>q. pf_old f = Some q \<or> pf_new f = Some q \<longrightarrow> safe_patch_path inside q)
     \<and> (effective_path f \<noteq> [] \<longrightarrow>
          (pp_allow_dependencies c \<or> \<not> matches_patterns (effective_path f) (pp_dependency_files c))
          \<and> (is_test_path (effective_path f) \<longrightarrow> \<not> pf_is_deleted f \<and> pp_allow_tests c)
          \<and> \<not> matches_patterns (effective_path f) (pp_verification_files c))"
proof -
  have "filter (\<lambda>q. \<not> safe_patch_path inside q) (section_ends f) = [] \<longleftrightarrow>
      (\<forall>q. pf_old f = Some q \<or> pf_new f = Some q \<longrightarrow> safe_patch_path inside q)"
    using section_ends_set [of f] by (auto simp: filter_empty_conv)
  then show ?thesis by (simp add: file_violations_def Let_def del: filter_empty_conv)
qed

lemma violations_empty:
  "patch_violations c inside d = [] \<longleftrightarrow>
     length (diff_paths d) \<le> pp_max_files c \<and> changed_lines d \<le> pp_max_lines c
     \<and> (\<forall>f \<in> set (pd_files d). file_violations c inside f = [])"
  by (auto simp: patch_violations_def)

lemma diff_paths_set: "p \<in> set (diff_paths d) \<longleftrightarrow> p \<noteq> [] \<and> (\<exists>f \<in> set (pd_files d). effective_path f = p)"
  by (auto simp: diff_paths_def)

lemma effective_path_end:
  "effective_path f \<noteq> [] \<Longrightarrow> pf_old f = Some (effective_path f) \<or> pf_new f = Some (effective_path f)"
  by (auto simp: effective_path_def split: option.splits if_splits)

subsection \<open>The policy, said without the validator's functions\<close>

text \<open>
  A path that stays in the project, read on the characters and the components of \<open>PurePosixPath\<close>: relative,
  no drive letter, no backslash and no NUL, no parent component, and not below a metadata directory.
\<close>

definition stays_in_project :: "path \<Rightarrow> bool" where
  "stays_in_project p =
     (CHR 0x5C \<notin> set p \<and> CHR 0x00 \<notin> set p \<and> \<not> prefix ''/'' p
      \<and> (\<forall>drive rest. p = drive # CHR '':'' # rest \<longrightarrow>
           drive \<notin> {CHR ''A''..CHR ''Z''} \<and> drive \<notin> {CHR ''a''..CHR ''z''})
      \<and> ''..'' \<notin> set (pure_parts p)
      \<and> (\<exists>top below. pure_parts p = top # below \<and> top \<noteq> ''.git'' \<and> top \<noteq> ''.apoapsis'' \<and> top \<noteq> ''.sol''))"

definition final_component :: "path \<Rightarrow> string" where
  "final_component p = (if pure_parts p = [] then [] else last (pure_parts p))"

text \<open>
  A test lies below a directory \<open>tests\<close>, or its name begins with \<open>test_\<close>, or ends with \<open>_test\<close> when its extension,
  if it has one, is left out.
\<close>

definition has_extension :: "string \<Rightarrow> string \<Rightarrow> bool" where
  "has_extension stem name =
     (\<exists>e. name = stem @ CHR ''.'' # e \<and> CHR ''.'' \<notin> set e \<and> stem \<noteq> [] \<and> e \<noteq> [])"

definition is_a_test :: "path \<Rightarrow> bool" where
  "is_a_test p =
     (''tests'' \<in> set (pure_parts p) \<or> prefix ''test_'' (final_component p)
      \<or> (\<exists>stem. has_extension stem (final_component p) \<and> suffix ''_test'' stem)
      \<or> (\<not> (\<exists>stem. has_extension stem (final_component p)) \<and> suffix ''_test'' (final_component p)))"

definition hits :: "string list \<Rightarrow> path \<Rightarrow> bool" where
  "hits patterns p =
     (\<exists>g \<in> set patterns. fnmatch (replace_char backslash (CHR ''/'') p) g
        \<or> fnmatch (final_component (replace_char backslash (CHR ''/'') p)) g)"

definition end_of :: "parsed_file \<Rightarrow> path \<Rightarrow> bool" where
  "end_of f q = (pf_old f = Some q \<or> pf_new f = Some q)"

text \<open>Which code stands for which breach of the policy.\<close>

primrec breach ::
  "violation_code \<Rightarrow> patch_policy \<Rightarrow> (string list \<Rightarrow> bool) \<Rightarrow> parsed_diff \<Rightarrow> path option \<Rightarrow> bool" where
  "breach Excessive_File_Count c inside d q =
     (q = None \<and> card {effective_path f | f. f \<in> set (pd_files d) \<and> effective_path f \<noteq> []} > pp_max_files c)"
| "breach Excessive_Diff_Size c inside d q =
     (q = None \<and> (\<Sum>f\<leftarrow>pd_files d. pf_added f + pf_deleted f) > pp_max_lines c)"
| "breach Binary_Change c inside d q = (\<exists>f \<in> set (pd_files d). q = Some (effective_path f) \<and> pf_binary f)"
| "breach Symlink_Change c inside d q = (\<exists>f \<in> set (pd_files d). q = Some (effective_path f) \<and> pf_symlink f)"
| "breach Path_Escape c inside d q =
     (\<exists>f \<in> set (pd_files d). \<exists>p. q = Some p \<and> end_of f p \<and> \<not> (stays_in_project p \<and> inside (pure_parts p)))"
| "breach Unexpected_Dependency_Change c inside d q =
     (\<exists>f \<in> set (pd_files d). q = Some (effective_path f) \<and> effective_path f \<noteq> []
        \<and> \<not> pp_allow_dependencies c \<and> hits (pp_dependency_files c) (effective_path f))"
| "breach Deleted_Test c inside d q =
     (\<exists>f \<in> set (pd_files d). q = Some (effective_path f) \<and> is_a_test (effective_path f) \<and> pf_is_deleted f)"
| "breach Unexpected_Test_Change c inside d q =
     (\<exists>f \<in> set (pd_files d). q = Some (effective_path f) \<and> is_a_test (effective_path f) \<and> \<not> pf_is_deleted f
        \<and> \<not> pp_allow_tests c)"
| "breach Verification_Config_Change c inside d q =
     (\<exists>f \<in> set (pd_files d). q = Some (effective_path f) \<and> effective_path f \<noteq> []
        \<and> hits (pp_verification_files c) (effective_path f))"

text \<open>What the policy says of one changed path.\<close>

definition path_permitted :: "patch_policy \<Rightarrow> (string list \<Rightarrow> bool) \<Rightarrow> path \<Rightarrow> bool" where
  "path_permitted c inside p =
     (stays_in_project p \<and> inside (pure_parts p)
      \<and> (pp_allow_dependencies c \<or> \<not> hits (pp_dependency_files c) p)
      \<and> (is_a_test p \<longrightarrow> pp_allow_tests c)
      \<and> \<not> hits (pp_verification_files c) p)"

lemma drive_letter: "drive_qualified p \<longleftrightarrow>
    (\<exists>c rest. p = c # CHR '':'' # rest \<and> (c \<in> {CHR ''A''..CHR ''Z''} \<or> c \<in> {CHR ''a''..CHR ''z''}))"
  by (auto simp: drive_qualified_def less_eq_char_def Let_def split: list.splits)

lemma safe_iff_stays: "lexically_safe p \<longleftrightarrow> stays_in_project p"
proof -
  have chars: "backslash = CHR 0x5C" "char_of (0::nat) = CHR 0x00"
    by (simp_all add: backslash_def char_of_eq_iff)
  have parts: "p = [] \<Longrightarrow> pure_parts p = []" by (simp add: pure_parts_def)
  have top: "pure_parts p \<noteq> [] \<and> hd (pure_parts p) \<notin> set [''.git'', ''.apoapsis'', ''.sol''] \<longleftrightarrow>
      (\<exists>top below. pure_parts p = top # below \<and> top \<noteq> ''.git'' \<and> top \<noteq> ''.apoapsis'' \<and> top \<noteq> ''.sol'')"
    by (cases "pure_parts p") auto
  show ?thesis
    unfolding lexically_safe_def stays_in_project_def drive_letter chars starts_with_prefix
    using top parts by blast
qed

lemma pure_name_final: "pure_name p = final_component p"
  by (simp add: pure_name_def final_component_def Let_def)

text \<open>The stem that the code computes with indices is the part before the extension.\<close>

lemma last_dot:
  assumes "CHR ''.'' \<notin> set e"
  shows "takeWhile (\<lambda>c. c \<noteq> CHR ''.'') (rev (s @ CHR ''.'' # e)) = rev e"
proof -
  have "takeWhile (\<lambda>c. c \<noteq> CHR ''.'') (rev e @ CHR ''.'' # rev s) = rev e @ takeWhile (\<lambda>c. c \<noteq> CHR ''.'') (CHR ''.'' # rev s)"
    by (rule takeWhile_append2) (use assms in auto)
  then show ?thesis by simp
qed

lemma pure_stem_split:
  assumes "pure_name p = s @ CHR ''.'' # e" "CHR ''.'' \<notin> set e"
  shows "pure_stem p = (if s \<noteq> [] \<and> e \<noteq> [] then s else pure_name p)"
  using assms(1) last_dot [OF assms(2), of s] by (simp add: pure_stem_def Let_def)

lemma pure_stem_extension: "has_extension s (pure_name p) \<Longrightarrow> pure_stem p = s"
  using pure_stem_split [of p s] by (auto simp: has_extension_def)

lemma pure_stem_none:
  assumes "\<not> (\<exists>s. has_extension s (pure_name p))"
  shows "pure_stem p = pure_name p"
proof (cases "CHR ''.'' \<in> set (pure_name p)")
  case True
  then obtain s e where n: "pure_name p = s @ CHR ''.'' # e" "CHR ''.'' \<notin> set e" by (metis split_list_last)
  with assms have "\<not> (s \<noteq> [] \<and> e \<noteq> [])" by (auto simp: has_extension_def)
  with pure_stem_split [OF n] show ?thesis by simp
qed (simp add: pure_stem_def Let_def)

lemma test_iff: "is_test_path p \<longleftrightarrow> is_a_test p"
  using pure_stem_extension [of _ p] pure_stem_none [of p]
  unfolding is_test_path_def is_a_test_def starts_with_prefix ends_with_suffix pure_name_final by metis

lemma matches_iff: "matches_patterns p patterns \<longleftrightarrow> hits patterns p"
  by (simp add: matches_patterns_def hits_def list_ex_iff pure_name_final Let_def)

lemma not_a_test_empty: "\<not> is_a_test []"
  by (auto simp: is_a_test_def final_component_def pure_parts_def has_extension_def)

lemma accepted_paths_permitted:
  assumes "pv_accepted (validate_patch c inside d)" "p \<in> set (diff_paths d)"
  shows "path_permitted c inside p"
  using assms effective_path_end
  unfolding accepted_iff violations_empty path_permitted_def diff_paths_set file_violations_empty
    test_iff matches_iff safe_patch_path_def safe_iff_stays by metis

lemma changed_files_counted:
  "card {effective_path f | f. f \<in> set (pd_files d) \<and> effective_path f \<noteq> []} = length (diff_paths d)"
proof -
  have "{effective_path f | f. f \<in> set (pd_files d) \<and> effective_path f \<noteq> []} = set (diff_paths d)"
    by (auto simp: diff_paths_set)
  moreover have "distinct (diff_paths d)" by (simp add: diff_paths_def)
  ultimately show ?thesis by (simp only: distinct_card)
qed

lemma listed_violation: "v \<in> set (patch_violations c inside d) \<longleftrightarrow>
    (v = (Excessive_File_Count, None) \<and> length (diff_paths d) > pp_max_files c)
    \<or> (v = (Excessive_Diff_Size, None) \<and> changed_lines d > pp_max_lines c)
    \<or> (\<exists>f \<in> set (pd_files d). v \<in> set (file_violations c inside f))"
  by (auto simp: patch_violations_def)

lemma escapes_listed:
  "(code, q) \<in> set (map (\<lambda>q. (Path_Escape, Some q)) (filter (\<lambda>q. \<not> safe_patch_path inside q) (section_ends f))) \<longleftrightarrow>
     code = Path_Escape \<and> (\<exists>p. q = Some p \<and> end_of f p \<and> \<not> (stays_in_project p \<and> inside (pure_parts p)))"
  using section_ends_set [of f] by (auto simp: safe_patch_path_def safe_iff_stays end_of_def)

lemma file_violation_codes:
  "(code, q) \<in> set (file_violations c inside f) \<longleftrightarrow>
     (code = Binary_Change \<and> q = Some (effective_path f) \<and> pf_binary f)
      \<or> (code = Symlink_Change \<and> q = Some (effective_path f) \<and> pf_symlink f)
      \<or> (code = Path_Escape \<and> (\<exists>p. q = Some p \<and> end_of f p \<and> \<not> (stays_in_project p \<and> inside (pure_parts p))))
      \<or> (code = Unexpected_Dependency_Change \<and> q = Some (effective_path f) \<and> effective_path f \<noteq> []
           \<and> \<not> pp_allow_dependencies c \<and> hits (pp_dependency_files c) (effective_path f))
      \<or> (code = Deleted_Test \<and> q = Some (effective_path f) \<and> is_a_test (effective_path f) \<and> pf_is_deleted f)
      \<or> (code = Unexpected_Test_Change \<and> q = Some (effective_path f) \<and> is_a_test (effective_path f)
           \<and> \<not> pf_is_deleted f \<and> \<not> pp_allow_tests c)
      \<or> (code = Verification_Config_Change \<and> q = Some (effective_path f) \<and> effective_path f \<noteq> []
           \<and> hits (pp_verification_files c) (effective_path f))"
proof -
  have t: "is_a_test (effective_path f) \<Longrightarrow> effective_path f \<noteq> []" using not_a_test_empty by metis
  show ?thesis
    unfolding file_violations_def Let_def set_append Un_iff escapes_listed test_iff matches_iff
    using t by (cases code) (auto split: if_splits)
qed

lemma breach_listed: "(code, q) \<in> set (patch_violations c inside d) \<longleftrightarrow> breach code c inside d q"
  unfolding listed_violation file_violation_codes
  by (cases code; simp add: changed_files_counted changed_lines_def; blast)


text \<open>A small patch for the witnesses.\<close>

definition sample_diff :: parsed_diff where
  "sample_diff = \<lparr>pd_raw = [],
     pd_files = [\<lparr>pf_old = Some ''src/a.py'', pf_new = Some ''src/a.py'', pf_added = 1, pf_deleted = 0,
       pf_is_new = False, pf_is_deleted = False, pf_binary = False, pf_symlink = False\<rparr>]\<rparr>"

definition sample_patch_policy :: patch_policy where
  "sample_patch_policy = default_patch_policy\<lparr>pp_max_lines := 5\<rparr>"

lemma sample_accepted: "patch_violations sample_patch_policy (\<lambda>_. True) sample_diff = []"
  by code_simp


end
