(* ===== verification/Patch_Apply.thy ===== *)
theory Patch_Apply
  imports Patch_Policy
begin

section \<open>Applying a patch in the task worktree (patches/apply.py)\<close>

text \<open>
  The rebasing of hunk headers onto the lines they match, the normalisation of line endings and
  the guarded \<open>git apply\<close>. Git is a parameter: a record of what its four invocations do to a
  worktree. A worktree is a map from located paths to decoded contents; resolving a relative path
  to a location inside the root (or to none) is the parameter \<open>locate\<close>.
\<close>

type_synonym worktree = "path \<rightharpoonup> string"

subsection \<open>Hunks\<close>

definition digits_value :: "string \<Rightarrow> nat" where
  "digits_value s = foldl (\<lambda>n c. 10 * n + (of_char c - 48)) 0 s"

definition leading_digits :: "string \<Rightarrow> string" where
  "leading_digits s = takeWhile is_digit s"

text \<open>The start line and the tail of a header \<open>@@ -n,m +k,l @@tail\<close>.\<close>

definition hunk_header :: "string \<Rightarrow> (nat \<times> string) option" where
  "hunk_header l =
     Option.bind (after_prefix ''@@ -'' l) (\<lambda>r.
     Option.bind (after_digits r) (\<lambda>r1.
     Option.bind (after_optional_count r1) (\<lambda>r2.
     Option.bind (after_prefix '' +'' r2) (\<lambda>r3.
     Option.bind (after_digits r3) (\<lambda>r4.
     Option.bind (after_optional_count r4) (\<lambda>r5.
     map_option (\<lambda>t. (digits_value (leading_digits r), t)) (after_prefix '' @@'' r5)))))))"

definition format_int :: "int \<Rightarrow> string" where
  "format_int i = (if i < 0 then CHR ''-'' # decimal (nat (- i)) else decimal (nat i))"

definition render_header :: "nat \<Rightarrow> nat \<Rightarrow> int \<Rightarrow> nat \<Rightarrow> string \<Rightarrow> string" where
  "render_header old_start old_count new_start new_count tail =
     ''@@ -'' @ decimal old_start @ '','' @ decimal old_count @ '' +'' @ format_int new_start @ '','' @
     decimal new_count @ '' @@'' @ tail"

definition on_old_side :: "string \<Rightarrow> bool" where
  "on_old_side l = starts_with_any l ['' '', ''-'']"

definition on_new_side :: "string \<Rightarrow> bool" where
  "on_new_side l = starts_with_any l ['' '', ''+'']"

definition old_side :: "string list \<Rightarrow> string list" where
  "old_side body = map (drop 1) (filter on_old_side body)"

definition new_side :: "string list \<Rightarrow> string list" where
  "new_side body = map (drop 1) (filter on_new_side body)"

definition matching_starts :: "string list \<Rightarrow> string list \<Rightarrow> nat list" where
  "matching_starts source sought =
     (if sought = [] \<or> length sought > length source then []
      else filter (\<lambda>k. take (length sought) (drop k source) = sought) [0..<length source - length sought + 1])"

definition context_line :: "string \<Rightarrow> bool" where
  "context_line l = starts_with l '' ''"

definition with_leading :: "string list \<Rightarrow> nat \<Rightarrow> string list \<Rightarrow> nat \<times> string list" where
  "with_leading source m body =
     (if body \<noteq> [] \<and> \<not> context_line (hd body) \<and> m > 0
      then (m, (CHR '' '' # source ! (m - 1)) # body) else (m + 1, body))"

definition with_trailing :: "string list \<Rightarrow> nat \<Rightarrow> string list \<Rightarrow> string list" where
  "with_trailing source matched_end body =
     (let markers = length (takeWhile (\<lambda>l. starts_with l [backslash]) (rev body));
          content_end = length body - markers
      in if content_end > 0 \<and> \<not> context_line (body ! (content_end - 1)) \<and> matched_end < length source
         then take content_end body @ [CHR '' '' # source ! matched_end] @ drop content_end body else body)"

definition rebase_body :: "string list \<Rightarrow> nat \<Rightarrow> string list \<Rightarrow> nat \<times> string list" where
  "rebase_body source start body =
     (case matching_starts source (old_side body) of
        [m] \<Rightarrow> (case with_leading source m body of (start', body1) \<Rightarrow>
                 (start', with_trailing source (m + length (old_side body)) body1))
      | _ \<Rightarrow> (start, body))"

definition hunk_boundary :: "string \<Rightarrow> bool" where
  "hunk_boundary l = starts_with_any l [''@@ '', diff_git]"

definition header_path :: "string \<Rightarrow> path option" where
  "header_path line =
     (case shlex_split line of
        Some [a, b, x, y] \<Rightarrow> if starts_with x ''a/'' then Some (drop 2 x) else None
      | _ \<Rightarrow> None)"

function rebase_lines :: "(path option \<Rightarrow> string list) \<Rightarrow> string list \<Rightarrow> int \<Rightarrow> string list \<Rightarrow> string list" where
  "rebase_lines sources source delta [] = []"
| "rebase_lines sources source delta (line # rest) =
     (if starts_with line diff_git then line # rebase_lines sources (sources (header_path line)) 0 rest
      else
        (case hunk_header line of
           None \<Rightarrow> line # rebase_lines sources source delta rest
         | Some (start, tail) \<Rightarrow>
             (let body = takeWhile (\<lambda>l. \<not> hunk_boundary l) rest;
                  (start', body') = rebase_body source start body;
                  olds = length (old_side body'); news = length (new_side body')
              in render_header start' olds (int start' + delta) news tail
                 # body' @ rebase_lines sources source (delta + int news - int olds)
                     (dropWhile (\<lambda>l. \<not> hunk_boundary l) rest))))"
  by pat_completeness auto

termination
  by (relation "measure (\<lambda>(_, _, _, ls). length ls)")
    (auto simp: length_dropWhile_le le_imp_less_Suc)

definition source_lines :: "(path \<Rightarrow> path option) \<Rightarrow> worktree \<Rightarrow> path option \<Rightarrow> string list" where
  "source_lines locate wt p =
     (case Option.bind (Option.bind p locate) wt of
        None \<Rightarrow> [] | Some c \<Rightarrow> splitlines (normalize_newlines c))"

definition rebase_unique_hunk_headers :: "(path \<Rightarrow> path option) \<Rightarrow> worktree \<Rightarrow> string \<Rightarrow> string" where
  "rebase_unique_hunk_headers locate wt patch =
     join_with newline (rebase_lines (source_lines locate wt) [] 0 (splitlines patch)) @ [newline]"

subsection \<open>The application\<close>

text \<open>
  A run of git ends with status zero, ends with another one, or raises: it does not end within its 30 seconds, or cannot be
  started. A killed \<open>git apply\<close> leaves any worktree behind, so its worktree comes with every outcome. The two status
  queries raise on failure, here \<open>None\<close>; reading and writing the targets themselves is taken to succeed.
\<close>

datatype git_end = Git_Done | Git_Refused | Git_Raised

record git_ops =
  g_status :: "worktree \<Rightarrow> string option"
  g_check :: "worktree \<Rightarrow> string \<Rightarrow> git_end"
  g_apply :: "worktree \<Rightarrow> string \<Rightarrow> worktree \<times> git_end"
  g_reverse :: "worktree \<Rightarrow> string \<Rightarrow> worktree \<times> git_end"

text \<open>\<open>NotWorktreeRoot\<close>, \<open>GitApplyFailed\<close> and \<open>UnexpectedPaths\<close> are \<open>PatchApplicationError\<close>s; the others are what git's runs raise.\<close>

datatype apply_error =
    NotWorktreeRoot | StatusFailed | GitApplyFailed | GitApplyRaised | ReverseRaised | UnexpectedPaths "path list"

text \<open>The entries of \<open>git status --porcelain=v1 -z\<close>; a rename or copy is followed by its source.\<close>

fun status_paths :: "string list \<Rightarrow> path list" where
  "status_paths [] = []"
| "status_paths [e] = [replace_char backslash (CHR ''/'') (drop 3 e)]"
| "status_paths (e # f # es) =
     replace_char backslash (CHR ''/'') (drop 3 e) #
       (if CHR ''R'' \<in> set (take 2 e) \<or> CHR ''C'' \<in> set (take 2 e)
        then replace_char backslash (CHR ''/'') f # status_paths es else status_paths (f # es))"

definition changed_paths :: "string \<Rightarrow> path list" where
  "changed_paths status = status_paths (filter (\<lambda>e. e \<noteq> []) (split_on (char_of (0::nat)) status))"

definition normalize_one ::
  "(path \<Rightarrow> path option) \<Rightarrow> path \<Rightarrow> worktree \<times> (path \<times> string) list \<Rightarrow> worktree \<times> (path \<times> string) list" where
  "normalize_one locate relative st =
     (case st of (wt, originals) \<Rightarrow>
        (case locate relative of None \<Rightarrow> st
         | Some p \<Rightarrow>
             (case wt p of None \<Rightarrow> st
              | Some c \<Rightarrow>
                  if char_of (0::nat) \<in> set c \<or> normalize_newlines c = c then st
                  else (wt(p \<mapsto> normalize_newlines c), originals @ [(p, c)]))))"

definition normalize_target_line_endings ::
  "(path \<Rightarrow> path option) \<Rightarrow> parsed_diff \<Rightarrow> worktree \<Rightarrow> worktree \<times> (path \<times> string) list" where
  "normalize_target_line_endings locate d wt = fold (normalize_one locate) (sort (diff_paths d)) (wt, [])"

definition restore_original_bytes :: "(path \<times> string) list \<Rightarrow> worktree \<Rightarrow> worktree" where
  "restore_original_bytes originals wt = fold (\<lambda>(p, c) w. w(p \<mapsto> c)) originals wt"

definition apply_patch ::
  "git_ops \<Rightarrow> (path \<Rightarrow> path option) \<Rightarrow> bool \<Rightarrow> parsed_diff \<Rightarrow> worktree \<Rightarrow> worktree \<times> (apply_error + path list)" where
  "apply_patch git locate is_root d wt =
     (if \<not> is_root then (wt, Inl NotWorktreeRoot)
      else
        (case g_status git wt of
           None \<Rightarrow> (wt, Inl StatusFailed)
         | Some status \<Rightarrow>
             (let already = changed_paths status;
                  patch = rebase_unique_hunk_headers locate wt (pd_raw d);
                  (wt1, originals) = normalize_target_line_endings locate d wt
              in case g_check git wt1 patch of
                   Git_Refused \<Rightarrow> (restore_original_bytes originals wt1, Inl GitApplyFailed)
                 | Git_Raised \<Rightarrow> (restore_original_bytes originals wt1, Inl GitApplyRaised)
                 | Git_Done \<Rightarrow>
                   (case g_apply git wt1 patch of
                      (wt2, Git_Refused) \<Rightarrow> (restore_original_bytes originals wt2, Inl GitApplyFailed)
                    | (wt2, Git_Raised) \<Rightarrow> (restore_original_bytes originals wt2, Inl GitApplyRaised)
                    | (wt2, Git_Done) \<Rightarrow>
                        (case g_status git wt2 of
                           None \<Rightarrow> (wt2, Inl StatusFailed)
                         | Some status2 \<Rightarrow>
                             (let now = changed_paths status2;
                                  unexpected = filter (\<lambda>p. p \<notin> set already \<and> p \<notin> set (diff_paths d)) now
                              in if unexpected \<noteq> []
                                 then (case g_reverse git wt2 patch of
                                         (wt3, Git_Raised) \<Rightarrow> (wt3, Inl ReverseRaised)
                                       | (wt3, _) \<Rightarrow> (restore_original_bytes originals wt3,
                                           Inl (UnexpectedPaths (sort (remdups unexpected)))))
                                 else (wt2, Inr (sort (remdups now)))))))))"

subsection \<open>Facts about hunks\<close>

text \<open>The block \<open>sought\<close> stands in \<open>source\<close> at line index \<open>k\<close>.\<close>

definition occurs_at :: "string list \<Rightarrow> string list \<Rightarrow> nat \<Rightarrow> bool" where
  "occurs_at source sought k = (k + length sought \<le> length source \<and> take (length sought) (drop k source) = sought)"

lemma distinct_singleton_set: "distinct xs \<Longrightarrow> set xs = {m} \<Longrightarrow> xs = [m]"
  by (metis distinct.simps(2) empty_iff empty_set insert_iff list.set_cases list.set_intros(1) list.simps(15) neq_Nil_conv set_ConsD singletonD)

lemma matching_starts_set:
  "sought \<noteq> [] \<Longrightarrow> set (matching_starts source sought) = {k. occurs_at source sought k}"
  by (cases "length sought \<le> length source")
    (auto simp: matching_starts_def occurs_at_def less_Suc_eq_le le_diff_conv2 simp del: upt_Suc)

lemma matching_starts_unique:
  assumes "sought \<noteq> []" "occurs_at source sought m" "\<And>k. occurs_at source sought k \<Longrightarrow> k = m"
  shows "matching_starts source sought = [m]"
proof (rule distinct_singleton_set)
  show "distinct (matching_starts source sought)" by (simp add: matching_starts_def)
  show "set (matching_starts source sought) = {m}"
    unfolding matching_starts_set [OF assms(1)] using assms(2,3) by blast
qed

lemma sides_simps [simp]:
  "old_side [] = []" "new_side [] = []"
  "old_side (xs @ ys) = old_side xs @ old_side ys" "new_side (xs @ ys) = new_side xs @ new_side ys"
  "old_side ((CHR '' '' # l) # xs) = l # old_side xs" "new_side ((CHR '' '' # l) # xs) = l # new_side xs"
  by (simp_all add: old_side_def new_side_def on_old_side_def on_new_side_def text_simps)

lemma backslash_char: "backslash = CHR 0x5C"
  by code_simp

lemma marker_sides:
  assumes "\<forall>l \<in> set ms. starts_with l [backslash]"
  shows "old_side ms = []" "new_side ms = []"
    "filter (\<lambda>l. starts_with l ''+'') ms = []" "filter (\<lambda>l. starts_with l ''-'') ms = []"
proof -
  have "\<not> on_old_side l \<and> \<not> on_new_side l \<and> \<not> starts_with l ''+'' \<and> \<not> starts_with l ''-''" if "l \<in> set ms" for l
  proof -
    from assms that have "starts_with l [backslash]" by blast
    then show ?thesis
      by (cases l) (auto simp: on_old_side_def on_new_side_def text_simps backslash_char)
  qed
  then show "old_side ms = []" "new_side ms = []"
    "filter (\<lambda>l. starts_with l ''+'') ms = []" "filter (\<lambda>l. starts_with l ''-'') ms = []"
    by (auto simp: old_side_def new_side_def filter_empty_conv)
qed

text \<open>Replacing the old side by the new side, the way a hunk applies at a line number.\<close>

definition apply_hunk :: "string list \<Rightarrow> nat \<Rightarrow> string list \<Rightarrow> string list option" where
  "apply_hunk source start body =
     (if occurs_at source (old_side body) (start - 1)
      then Some (take (start - 1) source @ new_side body @ drop (start - 1 + length (old_side body)) source) else None)"

lemma apply_hunk_at: "occurs_at source (old_side body) m \<Longrightarrow>
   apply_hunk source (m + 1) body = Some (take m source @ new_side body @ drop (m + length (old_side body)) source)"
  by (simp add: apply_hunk_def)

lemma apply_with_leading:
  assumes "occurs_at source (old_side body) m" and "with_leading source m body = (s, body1)"
  shows "apply_hunk source s body1 = Some (take m source @ new_side body @ drop (m + length (old_side body)) source)
     \<and> s - 1 + length (old_side body1) = m + length (old_side body) \<and> s \<ge> 1"
proof (cases "body \<noteq> [] \<and> \<not> context_line (hd body) \<and> m > 0")
  case False
  with assms(2) have "s = m + 1" "body1 = body" by (auto simp: with_leading_def split: if_splits)
  with apply_hunk_at [OF assms(1)] show ?thesis by simp
next
  case True
  then obtain k where k: "m = Suc k" by (cases m) auto
  with True assms have r: "s = Suc k" "body1 = (CHR '' '' # source ! k) # body" by (auto simp: with_leading_def)
  from assms(1) k have len: "k < length source" by (simp add: occurs_at_def)
  have t: "take (Suc k) source = take k source @ [source ! k]" using len by (rule take_Suc_conv_app_nth)
  have "occurs_at source (old_side body1) k"
    using assms(1) len unfolding r occurs_at_def k by (simp add: Cons_nth_drop_Suc [symmetric])
  then have "apply_hunk source (k + 1) body1
      = Some (take k source @ new_side body1 @ drop (k + length (old_side body1)) source)" by (rule apply_hunk_at)
  with r k t show ?thesis by simp
qed

lemma apply_with_trailing:
  assumes "apply_hunk source s body = Some out" and "1 \<le> s"
  shows "apply_hunk source s (with_trailing source (s - 1 + length (old_side body)) body) = Some out"
proof -
  let ?k = "length (takeWhile (\<lambda>l. starts_with l [backslash]) (rev body))"
  let ?e = "length body - ?k" and ?m = "s - 1 + length (old_side body)"
  show ?thesis
  proof (cases "?e > 0 \<and> \<not> context_line (body ! (?e - 1)) \<and> ?m < length source")
    case False
    then have "with_trailing source ?m body = body" unfolding with_trailing_def Let_def by (rule if_not_P)
    with assms show ?thesis by simp
  next
    case True
    then have w: "with_trailing source ?m body = take ?e body @ [CHR '' '' # source ! ?m] @ drop ?e body"
      unfolding with_trailing_def Let_def by (rule if_P)
    have "drop ?e body = rev (takeWhile (\<lambda>l. starts_with l [backslash]) (rev body))"
      using takeWhile_eq_take [of "\<lambda>l. starts_with l [backslash]" "rev body"] rev_take [of ?k "rev body"] by simp
    then have "\<forall>l \<in> set (drop ?e body). starts_with l [backslash]" by (auto dest: set_takeWhileD)
    note none = marker_sides [OF this]
    have old: "old_side (take ?e body) = old_side body" and new: "new_side (take ?e body) = new_side body"
      using none sides_simps(3) [of "take ?e body" "drop ?e body"] sides_simps(4) [of "take ?e body" "drop ?e body"]
      by simp_all
    from assms have occ: "occurs_at source (old_side body) (s - 1)"
      and out: "out = take (s - 1) source @ new_side body @ drop ?m source"
      by (auto simp: apply_hunk_def split: if_splits)
    have "take (Suc (length (old_side body))) (drop (s - 1) source) = old_side body @ [source ! ?m]"
      using occ True take_Suc_conv_app_nth [of "length (old_side body)" "drop (s - 1) source"]
      by (simp add: occurs_at_def less_diff_conv add.commute)
    with occ True have "occurs_at source (old_side body @ [source ! ?m]) (s - 1)" by (simp add: occurs_at_def)
    then show ?thesis
      unfolding w apply_hunk_def using True by (simp add: none old new out Cons_nth_drop_Suc)
  qed
qed

lemma with_leading_changes:
  assumes "with_leading source m body = (s, body1)"
  shows "filter (\<lambda>l. starts_with l ''+'') body1 = filter (\<lambda>l. starts_with l ''+'') body"
    "filter (\<lambda>l. starts_with l ''-'') body1 = filter (\<lambda>l. starts_with l ''-'') body"
  using assms by (auto simp: with_leading_def starts_with_def split: if_splits)

lemma with_trailing_changes:
  "filter (\<lambda>l. starts_with l ''+'') (with_trailing source e body) = filter (\<lambda>l. starts_with l ''+'') body"
  "filter (\<lambda>l. starts_with l ''-'') (with_trailing source e body) = filter (\<lambda>l. starts_with l ''-'') body"
proof -
  have "filter P (take n body @ [CHR '' '' # x] @ drop n body) = filter P body" if "\<not> P (CHR '' '' # x)" for P n x
    using that by simp (metis append_take_drop_id filter_append)
  then show "filter (\<lambda>l. starts_with l ''+'') (with_trailing source e body) = filter (\<lambda>l. starts_with l ''+'') body"
    "filter (\<lambda>l. starts_with l ''-'') (with_trailing source e body) = filter (\<lambda>l. starts_with l ''-'') body"
    unfolding with_trailing_def Let_def by (simp_all add: starts_with_def del: append_Cons filter.simps)
qed

subsection \<open>Headers read back\<close>

lemma is_digit_char: "(d :: nat) < 10 \<Longrightarrow> is_digit (char_of (48 + d))"
  by (simp add: is_digit_def)

lemma decimal_digits: "\<forall>c \<in> set (decimal n). is_digit c"
proof (induction n rule: decimal.induct)
  case (1 n)
  then show ?case by (subst decimal.simps) (auto simp: is_digit_char)
qed

lemma decimal_nonempty [simp]: "decimal n \<noteq> []"
  by (subst decimal.simps) simp

lemma digits_value_snoc: "digits_value (s @ [c]) = 10 * digits_value s + (of_char c - 48)"
  by (simp add: digits_value_def)

lemma digits_value_decimal [simp]: "digits_value (decimal n) = n"
proof (induction n rule: decimal.induct)
  case (1 n)
  show ?case
  proof (cases "n < 10")
    case True
    then show ?thesis by (subst decimal.simps) (simp add: digits_value_def)
  next
    case False
    with 1 have "digits_value (decimal n) = 10 * (n div 10) + n mod 10"
      by (subst decimal.simps) (simp add: digits_value_snoc)
    then show ?thesis by simp
  qed
qed

lemma digits_then: "\<not> is_digit c \<Longrightarrow> dropWhile is_digit (decimal n @ c # s) = c # s"
  "\<not> is_digit c \<Longrightarrow> takeWhile is_digit (decimal n @ c # s) = decimal n"
  using decimal_digits [of n] by (simp_all add: dropWhile_append takeWhile_append)

lemma after_digits_decimal: "\<not> is_digit c \<Longrightarrow> after_digits (decimal n @ c # s) = Some (c # s)"
  using decimal_digits [of n] decimal_nonempty [of n]
  by (simp add: after_digits_def digits_then hd_append del: decimal_nonempty)

lemma after_prefix_append [simp]: "after_prefix p (p @ s) = Some s"
  by (simp add: after_prefix_def)

lemma header_read_back:
  assumes "0 \<le> k"
  shows "hunk_header (render_header n a k b tail) = Some (n, tail)"
proof -
  have f: "format_int k = decimal (nat k)" using assms by (simp add: format_int_def)
  have c: "after_optional_count (CHR '','' # decimal i @ CHR '' '' # r) = Some (CHR '' '' # r)" for i r
    by (simp add: after_optional_count_def after_digits_decimal is_digit_def starts_with_def)
  have p: "after_prefix [CHR '' '', CHR ''+''] (CHR '' '' # CHR ''+'' # r) = Some r"
    "after_prefix [CHR '' '', CHR ''@'', CHR ''@''] (CHR '' '' # CHR ''@'' # CHR ''@'' # r) = Some r"
    "after_prefix ''@@ -'' (CHR ''@'' # CHR ''@'' # CHR '' '' # CHR ''-'' # r) = Some r" for r
    by (simp_all add: after_prefix_def starts_with_def)
  show ?thesis
    by (simp add: hunk_header_def render_header_def f c p after_digits_decimal is_digit_def
        leading_digits_def digits_then)
qed

text \<open>
  C28: rebasing keeps the change and finds its place. When the lines a hunk expects stand exactly
  once in the file, the rebased hunk applies at its stated start line and its effect is to replace
  that one block by the hunk's new lines; the added and the deleted lines are the provider's own,
  and the written header reads back as that start line. A hunk whose expected lines are not unique
  keeps its lines and its start.
\<close>

theorem rebased_hunk_replaces_unique_block:
  assumes "old_side body \<noteq> []"
  shows "(\<forall>m start' body'. occurs_at source (old_side body) m
        \<and> (\<forall>k. occurs_at source (old_side body) k \<longrightarrow> k = m) \<and> rebase_body source start body = (start', body') \<longrightarrow>
      apply_hunk source start' body' = Some (take m source @ new_side body @ drop (m + length (old_side body)) source)
      \<and> filter (\<lambda>l. starts_with l ''+'') body' = filter (\<lambda>l. starts_with l ''+'') body
      \<and> filter (\<lambda>l. starts_with l ''-'') body' = filter (\<lambda>l. starts_with l ''-'') body
      \<and> (\<forall>olds news delta tail. 0 \<le> int start' + delta \<longrightarrow>
           hunk_header (render_header start' olds (int start' + delta) news tail) = Some (start', tail)))
    \<and> ((\<nexists>m. occurs_at source (old_side body) m \<and> (\<forall>k. occurs_at source (old_side body) k \<longrightarrow> k = m)) \<longrightarrow>
      rebase_body source start body = (start, body))"
proof (intro conjI allI impI)
  fix m start' body'
  assume a: "occurs_at source (old_side body) m
        \<and> (\<forall>k. occurs_at source (old_side body) k \<longrightarrow> k = m) \<and> rebase_body source start body = (start', body')"
  then have "matching_starts source (old_side body) = [m]"
    using matching_starts_unique [OF assms] by blast
  with a obtain body1 where lead: "with_leading source m body = (start', body1)"
    and trail: "body' = with_trailing source (m + length (old_side body)) body1"
    by (auto simp: rebase_body_def split: prod.splits)
  from apply_with_leading [OF conjunct1 [OF a] lead]
  have one: "apply_hunk source start' body1 = Some (take m source @ new_side body @ drop (m + length (old_side body)) source)"
    "start' - 1 + length (old_side body1) = m + length (old_side body)" "1 \<le> start'" by simp_all
  from apply_with_trailing [OF one(1,3)] one(2)
  show "apply_hunk source start' body' = Some (take m source @ new_side body @ drop (m + length (old_side body)) source)"
    by (simp add: trail)
  show "filter (\<lambda>l. starts_with l ''+'') body' = filter (\<lambda>l. starts_with l ''+'') body"
    "filter (\<lambda>l. starts_with l ''-'') body' = filter (\<lambda>l. starts_with l ''-'') body"
    by (simp_all only: trail with_trailing_changes with_leading_changes [OF lead])
  fix olds news delta tail
  assume "0 \<le> int start' + delta"
  then show "hunk_header (render_header start' olds (int start' + delta) news tail) = Some (start', tail)"
    by (rule header_read_back)
next
  assume n: "\<nexists>m. occurs_at source (old_side body) m \<and> (\<forall>k. occurs_at source (old_side body) k \<longrightarrow> k = m)"
  have "matching_starts source (old_side body) \<noteq> [m]" for m
    using n matching_starts_set [OF assms, of source] by (metis empty_set list.simps(15) mem_Collect_eq singletonD singletonI)
  then show "rebase_body source start body = (start, body)"
    by (auto simp: rebase_body_def split: list.splits)
qed

theorem rebased_hunk_replaces_unique_block_witness:
  "apply_hunk [''a'', ''b'', ''c''] 1 [''  a''] = None
   \<and> (\<exists>start' body'. rebase_body [''a'', ''b'', ''c''] 9 [''-b'', ''+x''] = (start', body')
        \<and> apply_hunk [''a'', ''b'', ''c''] start' body' = Some [''a'', ''x'', ''c''])"
proof
  show "apply_hunk [''a'', ''b'', ''c''] 1 [''  a''] = None" by code_simp
  let ?src = "[''a'', ''b'', ''c'']" and ?body = "[''-b'', ''+x'']"
  have old: "old_side ?body = [''b'']" and new: "new_side ?body = [''x'']" by code_simp+
  have occ: "occurs_at ?src [''b''] 1" by code_simp
  have only: "k = 1" if "occurs_at ?src [''b''] k" for k
  proof -
    from that have "k \<le> 2" by (simp add: occurs_at_def)
    then have "k = 0 \<or> k = 1 \<or> k = 2" by auto
    with that show "k = 1" by (auto simp: occurs_at_def)
  qed
  obtain s b where r: "rebase_body ?src 9 ?body = (s, b)" by fastforce
  with rebased_hunk_replaces_unique_block [of ?body ?src 9] occ only
  have "apply_hunk ?src s b = Some (take 1 ?src @ [''x''] @ drop (1 + length [''b'']) ?src)"
    unfolding old new by blast
  then have "apply_hunk ?src s b = Some [''a'', ''x'', ''c'']" by simp
  with r show "\<exists>start' body'. rebase_body ?src 9 ?body = (start', body') \<and> apply_hunk ?src start' body' = Some [''a'', ''x'', ''c'']"
    by blast
qed

subsection \<open>Facts about the application\<close>

lemma restore_value:
  "\<forall>(p, c) \<in> set os. wt p = Some c \<Longrightarrow>
     restore_original_bytes os w = (\<lambda>q. if q \<in> fst ` set os then wt q else w q)"
proof (induction os arbitrary: w)
  case Nil
  then show ?case by (simp add: restore_original_bytes_def)
next
  case (Cons x os)
  obtain p c where x: "x = (p, c)" by fastforce
  have "restore_original_bytes (x # os) w = restore_original_bytes os (w(p \<mapsto> c))"
    by (simp add: restore_original_bytes_def x)
  also have "\<dots> = (\<lambda>q. if q \<in> fst ` set os then wt q else (w(p \<mapsto> c)) q)" using Cons by simp
  also have "\<dots> = (\<lambda>q. if q \<in> fst ` set (x # os) then wt q else w q)"
    using Cons.prems by (auto simp: x)
  finally show ?case .
qed

text \<open>Only the targets whose bytes were kept differ from the original worktree.\<close>

definition kept :: "worktree \<Rightarrow> worktree \<times> (path \<times> string) list \<Rightarrow> bool" where
  "kept wt st = ((\<forall>(p, c) \<in> set (snd st). wt p = Some c) \<and> (\<forall>q. q \<notin> fst ` set (snd st) \<longrightarrow> fst st q = wt q)
     \<and> (\<forall>(p, c) \<in> set (snd st). fst st p = Some (normalize_newlines c)))"

lemma normalize_replaces: "carriage \<notin> set (normalize_newlines c)"
  by (auto simp: normalize_newlines_def replace_char_def carriage_def newline_def)

lemma crlf_plain: "carriage \<notin> set s \<Longrightarrow> crlf_to_lf s = s"
  by (induction s rule: crlf_to_lf.induct) auto

lemma normalize_idem: "normalize_newlines (normalize_newlines c) = normalize_newlines c"
proof -
  let ?n = "normalize_newlines c"
  have "normalize_newlines ?n = replace_char carriage newline ?n"
    unfolding normalize_newlines_def [of ?n] by (simp add: crlf_plain normalize_replaces)
  also have "\<dots> = ?n" using normalize_replaces [of c] by (auto simp: replace_char_def intro!: map_idI)
  finally show ?thesis .
qed

lemma normalize_one_kept: "kept wt st \<Longrightarrow> kept wt (normalize_one locate relative st)"
proof -
  assume k: "kept wt st"
  obtain w os where st: "st = (w, os)" by fastforce
  show ?thesis
  proof (cases "\<exists>p c. locate relative = Some p \<and> w p = Some c \<and> char_of (0::nat) \<notin> set c \<and> normalize_newlines c \<noteq> c")
    case False
    then have "normalize_one locate relative st = st"
      by (auto simp: normalize_one_def st split: option.splits)
    with k show ?thesis by simp
  next
    case True
    then obtain p c where pc: "locate relative = Some p" "w p = Some c" "char_of (0::nat) \<notin> set c" "normalize_newlines c \<noteq> c"
      by blast
    then have n: "normalize_one locate relative st = (w(p \<mapsto> normalize_newlines c), os @ [(p, c)])"
      by (simp add: normalize_one_def st)
    have fresh: "p \<notin> fst ` set os"
      using k pc(2,4) normalize_idem by (force simp: kept_def st)
    have keys: "q \<noteq> p" if "(q, x) \<in> set os" for q x
      using that fresh by (metis fst_conv image_eqI)
    from k fresh pc(2) have "wt p = Some c" by (simp add: kept_def st)
    have "kept wt (w(p \<mapsto> normalize_newlines c), os @ [(p, c)])"
      using k keys \<open>wt p = Some c\<close> by (auto simp: kept_def st)
    then show ?thesis by (simp only: n)
  qed
qed

lemma normalized_kept: "kept wt (normalize_target_line_endings locate d wt)"
proof -
  have "kept wt st \<Longrightarrow> kept wt (fold (normalize_one locate) ps st)" for st ps
  proof (induction ps arbitrary: st)
    case Nil
    then show ?case by simp
  next
    case (Cons p ps)
    from Cons.IH [OF normalize_one_kept [OF Cons.prems]] show ?case by simp
  qed
  moreover have "kept wt (wt, [])" by (simp add: kept_def)
  ultimately show ?thesis unfolding normalize_target_line_endings_def by blast
qed

lemma restore_normalized:
  assumes "normalize_target_line_endings locate d wt = (wt1, os)"
  shows "restore_original_bytes os wt1 = wt"
proof -
  from normalized_kept [of wt locate d] assms have k: "kept wt (wt1, os)" by simp
  then have "restore_original_bytes os wt1 = (\<lambda>q. if q \<in> fst ` set os then wt q else wt1 q)"
    by (intro restore_value) (simp add: kept_def)
  also have "\<dots> = wt" using k by (auto simp: kept_def)
  finally show ?thesis .
qed

lemma restored_or_left:
  assumes "normalize_target_line_endings locate d wt = (wt1, os)"
  shows "restore_original_bytes os w q = w q \<or> restore_original_bytes os w q = wt q"
proof -
  from normalized_kept [of wt locate d] assms have "\<forall>(p, c) \<in> set os. wt p = Some c" by (simp add: kept_def)
  from restore_value [OF this] show ?thesis by (cases "q \<in> fst ` set os") simp_all
qed


text \<open>A git that knows one file, for the witness.\<close>

definition sample_git :: git_ops where
  "sample_git = \<lparr>
     g_status = (\<lambda>w. Some (if w ''src/a.py'' = Some ''new'' then '' M src/a.py'' @ [char_of (0::nat)] else [])),
     g_check = (\<lambda>w p. if w ''src/a.py'' = Some ''old'' then Git_Done else Git_Refused),
     g_apply = (\<lambda>w p. if w ''src/a.py'' = Some ''old'' then (w(''src/a.py'' \<mapsto> ''new''), Git_Done) else (w, Git_Refused)),
     g_reverse = (\<lambda>w p. (w(''src/a.py'' \<mapsto> ''old''), Git_Done))\<rparr>"

text \<open>A killed application leaves its partial result, although the caller is told that the patch was not applied.\<close>

lemma killed_application_stays:
  "fst (apply_patch (sample_git\<lparr>g_apply := \<lambda>w p. (w(''src/a.py'' \<mapsto> ''half''), Git_Raised)\<rparr>) Some True sample_diff
       [''src/a.py'' \<mapsto> ''old'']) ''src/a.py'' = Some ''half''
   \<and> snd (apply_patch (sample_git\<lparr>g_apply := \<lambda>w p. (w(''src/a.py'' \<mapsto> ''half''), Git_Raised)\<rparr>) Some True sample_diff
       [''src/a.py'' \<mapsto> ''old'']) = Inl GitApplyRaised"
  by code_simp


end
