(* ===== verification/Changed_Paths.thy ===== *)
theory Changed_Paths
  imports Patch_Apply
begin

section \<open>Worktree fingerprints and changed paths (repository/fingerprint.py, repository/changed_paths.py)\<close>

text \<open>
  The lexical path rules of the repository layer, the fingerprint that stands for "the current
  code", and the split of changed paths into reviewable work, generated byproducts and refused
  paths. The outputs of git, SHA-256 and \<open>json.dumps\<close> are parameters.
\<close>

subsection \<open>Paths\<close>

definition forbidden_top_level :: "string list" where
  "forbidden_top_level = [''.git'', ''.apoapsis'', ''.sol'']"

definition normalize_relative_path :: "path \<Rightarrow> path" where
  "normalize_relative_path p = drop_dot_slash (replace_char backslash (CHR ''/'') p)"

definition is_safe_relative_path :: "path \<Rightarrow> bool" where
  "is_safe_relative_path p =
     (p \<noteq> [] \<and> char_of (0::nat) \<notin> set p \<and> \<not> starts_with p ''/'' \<and> \<not> drive_qualified p
      \<and> pure_parts p \<noteq> [] \<and> ''..'' \<notin> set (pure_parts p) \<and> hd (pure_parts p) \<notin> set forbidden_top_level)"

text \<open>The items of a NUL-separated listing.\<close>

definition listed :: "string \<Rightarrow> string list" where
  "listed raw = filter (\<lambda>e. e \<noteq> []) (split_on (char_of (0::nat)) raw)"

definition list_permitted_untracked_paths :: "string \<Rightarrow> path list" where
  "list_permitted_untracked_paths raw = sort (filter is_safe_relative_path (map normalize_relative_path (listed raw)))"

subsection \<open>The fingerprint\<close>

datatype untracked_kind = FILE_KIND | SYMLINK_KIND

record untracked_fingerprint =
  uf_path :: path
  uf_kind :: untracked_kind
  uf_mode :: string
  uf_digest :: digest

text \<open>What \<open>lstat\<close>, \<open>readlink\<close> and \<open>read_bytes\<close> say of a path.\<close>

datatype lstat_view = Vanished | Symlink_To string | Regular_File bool string | Special_File

definition untracked_fingerprint_of :: "(string \<Rightarrow> digest) \<Rightarrow> path \<Rightarrow> lstat_view \<Rightarrow> untracked_fingerprint option" where
  "untracked_fingerprint_of H p v =
     (case v of
        Vanished \<Rightarrow> None
      | Symlink_To target \<Rightarrow> Some \<lparr>uf_path = p, uf_kind = SYMLINK_KIND, uf_mode = ''120000'', uf_digest = H target\<rparr>
      | Regular_File exec content \<Rightarrow>
          Some \<lparr>uf_path = p, uf_kind = FILE_KIND, uf_mode = (if exec then ''100755'' else ''100644''), uf_digest = H content\<rparr>
      | Special_File \<Rightarrow> None)"

record worktree_fingerprint =
  wp_head :: string
  wp_diff_digest :: digest
  wp_untracked :: "untracked_fingerprint list"
  wp_digest :: digest

definition compute_worktree_fingerprint ::
  "(string \<Rightarrow> digest) \<Rightarrow> (string \<times> digest \<times> untracked_fingerprint list \<Rightarrow> string) \<Rightarrow> string \<Rightarrow> string \<Rightarrow> string
    \<Rightarrow> (path \<Rightarrow> lstat_view) \<Rightarrow> worktree_fingerprint" where
  "compute_worktree_fingerprint H dumps head diff untracked view =
     (let commit = strip head;
          us = sort_key uf_path (List.map_filter (\<lambda>p. untracked_fingerprint_of H p (view p)) (list_permitted_untracked_paths untracked))
      in \<lparr>wp_head = commit, wp_diff_digest = H diff, wp_untracked = us, wp_digest = H (dumps (commit, H diff, us))\<rparr>)"

subsection \<open>Classification of changed paths\<close>

definition generated_byproduct_patterns :: "string list" where
  "generated_byproduct_patterns =
     [''__pycache__/**'', ''**/__pycache__/**'', ''**/*.pyc'', ''**/*.pyo'', ''**/*.pyd'', ''.pytest_cache/**'',
      ''**/.pytest_cache/**'', ''.mypy_cache/**'', ''**/.mypy_cache/**'', ''.ruff_cache/**'', ''**/.ruff_cache/**'',
      ''.tox/**'', ''.nox/**'', ''htmlcov/**'', ''**/.coverage'', ''**/.coverage.*'', ''coverage.xml'', ''.hypothesis/**'',
      ''**/*.egg-info/**'', ''**/node_modules/**'', ''.gradle/**'', ''target/debug/**'', ''target/release/**'']"

definition is_generated_byproduct_path :: "path \<Rightarrow> bool" where
  "is_generated_byproduct_path p =
     (let n = normalize_relative_path p in
      n \<noteq> [] \<and> (''__pycache__'' \<in> set (pure_parts n) \<or> list_ex (fnmatch n) generated_byproduct_patterns))"

record changed_path_classification =
  cc_reviewable :: "path list"
  cc_generated :: "path list"
  cc_rejected :: "path list"

definition classify_changed_paths :: "path list \<Rightarrow> path list \<Rightarrow> changed_path_classification" where
  "classify_changed_paths paths tracked_paths =
     (let tracked = map normalize_relative_path tracked_paths;
          ns = map normalize_relative_path paths;
          generated = (\<lambda>n. n \<notin> set tracked \<and> is_generated_byproduct_path n)
      in \<lparr>cc_reviewable = sort (remdups (filter (\<lambda>n. is_safe_relative_path n \<and> \<not> generated n) ns)),
          cc_generated = sort (remdups (filter (\<lambda>n. is_safe_relative_path n \<and> generated n) ns)),
          cc_rejected = sort (remdups (filter (\<lambda>n. \<not> is_safe_relative_path n) ns))\<rparr>)"

subsection \<open>Facts\<close>

lemma nul_char_iff: "char_of (0::nat) = c \<longleftrightarrow> (of_char c :: nat) = 0" "c = char_of (0::nat) \<longleftrightarrow> (of_char c :: nat) = 0"
  by (auto simp: char_of_eq_iff) (metis char_of_eq_iff take_bit_of_0)

lemma safe_relative_iff_lexically_safe: "lexically_safe p \<longleftrightarrow> is_safe_relative_path p \<and> backslash \<notin> set p"
  by (auto simp: lexically_safe_def is_safe_relative_path_def forbidden_top_level_def)

lemma drop_dot_slash_subset: "set (drop_dot_slash s) \<subseteq> set s"
  by (induction s rule: drop_dot_slash.induct) auto

lemma normalized_has_no_backslash: "backslash \<notin> set (normalize_relative_path p)"
proof -
  have "backslash \<noteq> CHR ''/''" by (simp add: backslash_char)
  then have "backslash \<notin> set (replace_char backslash (CHR ''/'') p)" by (auto simp: replace_char_def)
  with drop_dot_slash_subset show ?thesis by (fastforce simp: normalize_relative_path_def)
qed

text \<open>The independently implemented rule of the patch validator agrees with this one on normalised paths.\<close>

lemma path_rules_agree: "is_safe_relative_path (normalize_relative_path p) = lexically_safe (normalize_relative_path p)"
  by (simp add: safe_relative_iff_lexically_safe normalized_has_no_backslash)

text \<open>
  The untracked entries that count, and the texts that are hashed: the tracked diff, the content or target
  of each counted entry, and the rendering of the whole.
\<close>

definition counted_untracked :: "string \<Rightarrow> (path \<Rightarrow> lstat_view) \<Rightarrow> path list" where
  "counted_untracked raw v =
     sort (filter (\<lambda>p. stays_in_project p \<and> v p \<noteq> Vanished \<and> v p \<noteq> Special_File) (map normalize_relative_path (listed raw)))"

fun view_text :: "lstat_view \<Rightarrow> string" where
  "view_text (Symlink_To target) = target"
| "view_text (Regular_File exec content) = content"
| "view_text v = []"

definition fingerprint_payload ::
  "(string \<Rightarrow> digest) \<Rightarrow> (string \<times> digest \<times> untracked_fingerprint list \<Rightarrow> string) \<Rightarrow> string \<Rightarrow> string \<Rightarrow> string
    \<Rightarrow> (path \<Rightarrow> lstat_view) \<Rightarrow> string" where
  "fingerprint_payload H dumps head diff raw v =
     dumps (strip head, H diff, map (\<lambda>p. the (untracked_fingerprint_of H p (v p))) (counted_untracked raw v))"

definition hashed_texts ::
  "(string \<Rightarrow> digest) \<Rightarrow> (string \<times> digest \<times> untracked_fingerprint list \<Rightarrow> string) \<Rightarrow> string \<Rightarrow> string \<Rightarrow> string
    \<Rightarrow> (path \<Rightarrow> lstat_view) \<Rightarrow> string set" where
  "hashed_texts H dumps head diff raw v =
     {diff, fingerprint_payload H dumps head diff raw v} \<union> (\<lambda>p. view_text (v p)) ` set (counted_untracked raw v)"

lemma fingerprinted_iff: "untracked_fingerprint_of H p v = None \<longleftrightarrow> v = Vanished \<or> v = Special_File"
  by (cases v) (simp_all add: untracked_fingerprint_of_def)

lemma map_filter_the:
  "List.map_filter f ps = map (\<lambda>p. the (f p)) (filter (\<lambda>p. f p \<noteq> None) ps)"
  by (induction ps) (auto simp: List.map_filter_def)

lemma filter_sort_id: "filter P (sort ps) = sort (filter P (ps :: string list))"
  by (simp add: filter_sort)

lemma counted_listing:
  "List.map_filter (\<lambda>p. untracked_fingerprint_of H p (v p)) (list_permitted_untracked_paths raw)
     = map (\<lambda>p. the (untracked_fingerprint_of H p (v p))) (counted_untracked raw v)"
proof -
  have safe: "p \<in> set (map normalize_relative_path (listed raw)) \<Longrightarrow> is_safe_relative_path p \<longleftrightarrow> stays_in_project p" for p
    using path_rules_agree safe_iff_stays by auto
  have "filter (\<lambda>p. untracked_fingerprint_of H p (v p) \<noteq> None) (list_permitted_untracked_paths raw) = counted_untracked raw v"
    unfolding list_permitted_untracked_paths_def counted_untracked_def filter_sort filter_filter
    by (rule arg_cong [where f = sort], rule filter_cong) (use safe in \<open>auto simp: fingerprinted_iff\<close>)
  then show ?thesis by (simp add: map_filter_the)
qed

lemma listing_sorted_by_path:
  "sorted ps \<Longrightarrow> sort_key uf_path (List.map_filter (\<lambda>p. untracked_fingerprint_of H p (v p)) ps)
     = List.map_filter (\<lambda>p. untracked_fingerprint_of H p (v p)) ps"
proof (rule sort_key_id_if_sorted)
  assume s: "sorted ps"
  have path: "uf_path u = p" if "untracked_fingerprint_of H p w = Some u" for p w u
    using that by (auto simp: untracked_fingerprint_of_def split: lstat_view.splits)
  from s show "sorted (map uf_path (List.map_filter (\<lambda>p. untracked_fingerprint_of H p (v p)) ps))"
    by (induction ps) (auto simp: List.map_filter_def path split: option.splits)
qed

lemma fingerprint_digest:
  "wp_digest (compute_worktree_fingerprint H dumps head diff raw v) = H (fingerprint_payload H dumps head diff raw v)"
proof -
  have srt: "sorted (list_permitted_untracked_paths raw)" by (simp add: list_permitted_untracked_paths_def)
  show ?thesis
    using listing_sorted_by_path [OF srt, of H v]
    unfolding compute_worktree_fingerprint_def Let_def counted_listing by (simp add: fingerprint_payload_def)
qed

lemma entry_determines_view:
  assumes "the (untracked_fingerprint_of H p v) = the (untracked_fingerprint_of H q w)"
    and "v \<notin> {Vanished, Special_File}" "w \<notin> {Vanished, Special_File}"
    and "H (view_text v) = H (view_text w) \<Longrightarrow> view_text v = view_text w"
  shows "p = q \<and> v = w"
proof -
  have "H (view_text v) = H (view_text w)"
    using assms(1-3) by (cases v; cases w) (auto simp: untracked_fingerprint_of_def)
  then have "view_text v = view_text w" by (rule assms(4))
  with assms(1-3) show ?thesis
    by (cases v; cases w) (auto simp: untracked_fingerprint_of_def split: if_splits)
qed

lemma entries_determine_views:
  assumes "map (\<lambda>p. the (untracked_fingerprint_of H p (v p))) ps = map (\<lambda>p. the (untracked_fingerprint_of H p (w p))) qs"
    and "\<forall>p \<in> set ps. v p \<notin> {Vanished, Special_File}" "\<forall>p \<in> set qs. w p \<notin> {Vanished, Special_File}"
    and "\<And>p q. p \<in> set ps \<Longrightarrow> q \<in> set qs \<Longrightarrow> H (view_text (v p)) = H (view_text (w q)) \<Longrightarrow> view_text (v p) = view_text (w q)"
  shows "ps = qs \<and> (\<forall>p \<in> set ps. v p = w p)"
  using assms
proof (induction ps arbitrary: qs)
  case (Cons p ps)
  from Cons.prems(1) obtain q rest where qs: "qs = q # rest" by (cases qs) simp_all
  have seen: "H (view_text (v p)) = H (view_text (w q)) \<Longrightarrow> view_text (v p) = view_text (w q)"
    by (rule Cons.prems(4)) (simp_all add: qs)
  have "p = q \<and> v p = w q"
    by (rule entry_determines_view [of H, OF _ _ _ seen]) (use Cons.prems(1-3) qs in simp_all)
  moreover have "ps = rest \<and> (\<forall>p \<in> set ps. v p = w p)"
  proof (rule Cons.IH)
    fix x y assume "x \<in> set ps" "y \<in> set rest" "H (view_text (v x)) = H (view_text (w y))"
    then show "view_text (v x) = view_text (w y)" by (intro Cons.prems(4)) (simp_all add: qs)
  qed (use Cons.prems(1-3) qs in simp_all)
  ultimately show ?case using qs by auto
qed simp

subsection \<open>Properties\<close>


text \<open>A rendering that is injective, for the instance: a self-delimiting code of strings.\<close>

definition self_delimiting :: "string \<Rightarrow> string" where
  "self_delimiting s = concat (map (\<lambda>c. [CHR ''1'', c]) s) @ [CHR ''0'']"

lemma self_delimiting_inject [simp]: "self_delimiting s @ r = self_delimiting t @ q \<longleftrightarrow> s = t \<and> r = q"
proof (induction s arbitrary: t)
  case Nil
  then show ?case by (cases t) (auto simp: self_delimiting_def)
next
  case (Cons c s)
  then show ?case by (cases t) (auto simp: self_delimiting_def)
qed

definition sample_render :: "string \<times> digest \<times> untracked_fingerprint list \<Rightarrow> string" where
  "sample_render x = (case x of (h, d, us) \<Rightarrow> self_delimiting h @ self_delimiting d
     @ concat (map (\<lambda>u. self_delimiting (uf_path u) @ self_delimiting (if uf_kind u = FILE_KIND then ''f'' else [])
         @ self_delimiting (uf_mode u) @ self_delimiting (uf_digest u)) us))"

lemma sample_render_inj: "inj sample_render"
proof (rule injI)
  have us: "concat (map (\<lambda>u. self_delimiting (uf_path u) @ self_delimiting (if uf_kind u = FILE_KIND then ''f'' else [])
         @ self_delimiting (uf_mode u) @ self_delimiting (uf_digest u)) us)
       = concat (map (\<lambda>u. self_delimiting (uf_path u) @ self_delimiting (if uf_kind u = FILE_KIND then ''f'' else [])
         @ self_delimiting (uf_mode u) @ self_delimiting (uf_digest u)) vs) \<Longrightarrow> us = vs" for us vs :: "untracked_fingerprint list"
  proof (induction us arbitrary: vs)
    case Nil
    then show ?case by (cases vs) (auto simp: self_delimiting_def)
  next
    case (Cons u us)
    then obtain w ws where vs: "vs = w # ws" by (cases vs) (auto simp: self_delimiting_def)
    have "uf_kind u = uf_kind w" if "(uf_kind u = FILE_KIND) = (uf_kind w = FILE_KIND)"
      using that by (cases "uf_kind u"; cases "uf_kind w") auto
    with Cons vs show ?case by (auto split: if_splits)
  qed
  fix x y assume e: "sample_render x = sample_render y"
  obtain h d us where x: "x = (h, d, us)" by (cases x)
  obtain h' d' us' where y: "y = (h', d', us')" by (cases y)
  from e x y have "h = h'" "d = d'" by (simp_all add: sample_render_def)
  moreover from e x y have "us = us'" by (intro us) (simp add: sample_render_def)
  ultimately show "x = y" using x y by simp
qed

lemma counted_a: "counted_untracked ''a'' (\<lambda>_. Regular_File False c) = [''a'']"
proof -
  have n: "normalize_relative_path ''a'' = ''a''" "char_of (0::nat) \<notin> set ''a''" "pure_parts ''a'' = [''a'']"
    by (simp_all add: normalize_relative_path_def replace_char_def backslash_char nul_char_iff pure_parts_def)
  have "stays_in_project ''a''" unfolding stays_in_project_def n(3) by simp
  moreover have "listed ''a'' = [''a'']" unfolding listed_def split_on_plain [OF n(2)] by simp
  ultimately show ?thesis using n(1) by (simp add: counted_untracked_def)
qed


text \<open>
  No change is hidden from review. Every changed path is in exactly one class under its
  normalised form; only a path outside the safe ones is refused, only an untracked path with the name
  of a byproduct is set apart, and a change of a tracked safe path is always reviewable. The three
  listings are sorted and without duplicates.
\<close>

theorem no_change_is_hidden:
  "let c = classify_changed_paths paths tracked; ns = normalize_relative_path ` set paths in
     set (cc_reviewable c) \<union> set (cc_generated c) \<union> set (cc_rejected c) = ns
     \<and> set (cc_reviewable c) \<inter> set (cc_generated c) = {}
     \<and> (set (cc_reviewable c) \<union> set (cc_generated c)) \<inter> set (cc_rejected c) = {}
     \<and> set (cc_rejected c) = {n \<in> ns. \<not> lexically_safe n}
     \<and> {n \<in> ns. lexically_safe n \<and> n \<in> normalize_relative_path ` set tracked} \<subseteq> set (cc_reviewable c)
     \<and> set (cc_generated c) \<subseteq> {n. is_generated_byproduct_path n}
     \<and> (\<forall>l \<in> set [cc_reviewable c, cc_generated c, cc_rejected c]. sorted l \<and> distinct l)"
  by (auto simp: classify_changed_paths_def Let_def path_rules_agree)

theorem no_change_is_hidden_witness:
  "''a.pyc'' \<in> set (cc_reviewable (classify_changed_paths [''a.pyc''] [''a.pyc'']))"
proof -
  have n: "normalize_relative_path ''a.pyc'' = ''a.pyc''" "char_of (0::nat) \<notin> set ''a.pyc''" "pure_parts ''a.pyc'' = [''a.pyc'']"
      "backslash \<notin> set ''a.pyc''" "\<not> drive_qualified ''a.pyc''" "\<not> starts_with ''a.pyc'' ''/''"
    by (simp_all add: normalize_relative_path_def replace_char_def backslash_char nul_char_iff pure_parts_def
        drive_qualified_def starts_with_def)
  then have "lexically_safe ''a.pyc''" unfolding lexically_safe_def by simp
  then have "''a.pyc'' \<in> {n \<in> normalize_relative_path ` set [''a.pyc'']. lexically_safe n
      \<and> n \<in> normalize_relative_path ` set [''a.pyc'']}" using n(1) by simp
  with no_change_is_hidden [of "[''a.pyc'']" "[''a.pyc'']"] show ?thesis unfolding Let_def by blast
qed

end
