(* ===== verification/Evidence.thy ===== *)
theory Evidence
  imports Prelude "HOL-Library.Product_Lexorder" "HOL-Library.Multiset"
begin

section \<open>Context evidence and the observation ledger\<close>

text \<open>
  The evidence item (context/provenance.py), the ranking of the reason it was included
  (context/compiler.py) and the bounded view of an append-only ledger of observations
  (agent/session.py). \<open>H\<close> is SHA-256 of a text; every item of the model carries the digest of its
  content, as the validator of the source derives it.
\<close>

datatype evidence_kind =
    FILE_EXCERPT | SYMBOL | TEST_EVIDENCE | DIFF | FAILURE | GIT_HISTORY | CONFIGURATION

datatype transmission_policy =
    LOCAL_ONLY_POLICY | CLOUD_ALLOWED | REDACT_BEFORE_CLOUD | APPROVED_PROVIDER_ONLY | HUMAN_APPROVAL_REQUIRED

record context_evidence =
  ev_id :: string
  ev_kind :: evidence_kind
  ev_path :: path
  ev_start :: "nat option"
  ev_end :: "nat option"
  ev_symbol :: "string option"
  ev_commit :: string
  ev_reason :: string
  ev_content :: string
  ev_digest :: digest
  ev_policy :: transmission_policy

definition evidence_valid :: "(string \<Rightarrow> digest) \<Rightarrow> context_evidence \<Rightarrow> bool" where
  "evidence_valid H e =
     ((ev_start e = None) = (ev_end e = None)
      \<and> (case (ev_start e, ev_end e) of (Some a, Some b) \<Rightarrow> 1 \<le> a \<and> a \<le> b | _ \<Rightarrow> True)
      \<and> ev_digest e = H (ev_content e))"

definition evidence_key :: "context_evidence \<Rightarrow> path \<times> nat option \<times> nat option \<times> digest" where
  "evidence_key e = (ev_path e, ev_start e, ev_end e, ev_digest e)"

subsection \<open>Reasons\<close>

definition reason_markers :: "string list" where
  "reason_markers = [''explicit path'', ''failure location'', ''preferred path'', ''current Git diff'',
     ''Python call reference'', ''symbol'', ''ripgrep'', ''imported'', ''test'']"

definition unranked_priority :: nat where
  "unranked_priority = 99"

fun priority_from :: "nat \<Rightarrow> string list \<Rightarrow> string \<Rightarrow> nat" where
  "priority_from i [] s = unranked_priority"
| "priority_from i (m # ms) s = (if contains s m then i else priority_from (Suc i) ms s)"

definition evidence_reason_priority :: "string \<Rightarrow> nat" where
  "evidence_reason_priority s = priority_from 0 reason_markers s"

subsection \<open>The bounded view of the ledger\<close>

definition truncate_evidence :: "(string \<Rightarrow> digest) \<Rightarrow> nat \<Rightarrow> context_evidence \<Rightarrow> context_evidence" where
  "truncate_evidence H n e =
     (let c = take n (ev_content e) in
      e\<lparr>ev_content := c, ev_digest := H c,
        ev_end := (case ev_start e of None \<Rightarrow> ev_end e | Some s \<Rightarrow> Some (s + count_list c newline))\<rparr>)"

type_synonym observation_slot = "evidence_kind \<times> path \<times> (nat option \<times> nat option) option"

definition observation_slot_of :: "context_evidence \<Rightarrow> observation_slot" where
  "observation_slot_of e =
     (if ev_kind e \<in> set [FAILURE, DIFF] then (ev_kind e, ev_path e, None)
      else (ev_kind e, ev_path e, Some (ev_start e, ev_end e)))"

definition observation_rank :: "context_evidence \<Rightarrow> nat" where
  "observation_rank e = (if ev_kind e = FAILURE then 0 else if ev_kind e = DIFF then 1 else 2)"

definition ranked_observations :: "context_evidence list \<Rightarrow> (nat \<times> context_evidence) list" where
  "ranked_observations obs =
     sort_key (\<lambda>p. (observation_rank (snd p), - int (fst p))) (enumerate 0 obs)"

fun select_observations ::
  "(string \<Rightarrow> digest) \<Rightarrow> nat \<Rightarrow> observation_slot list \<Rightarrow> (nat \<times> context_evidence) list
    \<Rightarrow> (nat \<times> context_evidence) list" where
  "select_observations H remaining seen [] = []"
| "select_observations H remaining seen (p # ps) =
     (if observation_slot_of (snd p) \<in> set seen then select_observations H remaining seen ps
      else if remaining = 0 then []
      else
        (let c = (if length (ev_content (snd p)) \<le> remaining then snd p
                  else truncate_evidence H remaining (snd p))
         in (fst p, c) # select_observations H (remaining - length (ev_content c))
              (observation_slot_of (snd p) # seen) ps))"

definition compact_observations ::
  "(string \<Rightarrow> digest) \<Rightarrow> context_evidence list \<Rightarrow> nat \<Rightarrow> context_evidence list" where
  "compact_observations H obs max_chars =
     (if max_chars = 0 then []
      else map snd (sort_key fst (select_observations H max_chars [] (ranked_observations obs))))"

subsection \<open>Appending to the ledger\<close>

text \<open>
  \<open>_add_evidence\<close>: what is already known is skipped, what no longer fits is cut to the remaining
  capacity, and nothing is appended once the capacity is used up.
\<close>

fun add_evidence ::
  "(string \<Rightarrow> digest) \<Rightarrow> int \<Rightarrow> (path \<times> nat option \<times> nat option \<times> digest) list \<Rightarrow> context_evidence list
    \<Rightarrow> int \<Rightarrow> context_evidence list" where
  "add_evidence H capacity known [] used = []"
| "add_evidence H capacity known (e # es) used =
     (if evidence_key e \<in> set known then add_evidence H capacity known es used
      else if capacity - used \<le> 0 then []
      else
        (let s = (if int (length (ev_content e)) > capacity - used
                  then truncate_evidence H (nat (capacity - used)) e else e)
         in s # add_evidence H capacity (evidence_key s # known) es (used + int (length (ev_content s)))))"

definition total_chars :: "context_evidence list \<Rightarrow> nat" where
  "total_chars es = sum_list (map (\<lambda>e. length (ev_content e)) es)"

subsection \<open>Facts\<close>

lemma truncate_evidence_simps [simp]:
  "ev_content (truncate_evidence H n e) = take n (ev_content e)"
  "ev_kind (truncate_evidence H n e) = ev_kind e" "ev_path (truncate_evidence H n e) = ev_path e"
  "ev_start (truncate_evidence H n e) = ev_start e" "ev_id (truncate_evidence H n e) = ev_id e"
  "ev_digest (truncate_evidence H n e) = H (take n (ev_content e))"
  by (simp_all add: truncate_evidence_def Let_def)

lemma truncate_evidence_valid: "evidence_valid H e \<Longrightarrow> evidence_valid H (truncate_evidence H n e)"
  by (auto simp: evidence_valid_def truncate_evidence_def Let_def split: option.splits)

lemma select_total:
  "sum_list (map (\<lambda>p. length (ev_content (snd p))) (select_observations H remaining seen ps)) \<le> remaining"
proof (induction ps arbitrary: remaining seen)
  case (Cons p ps)
  show ?case
  proof (cases "observation_slot_of (snd p) \<in> set seen \<or> remaining = 0")
    case True
    with Cons show ?thesis by auto
  next
    case False
    let ?c = "if length (ev_content (snd p)) \<le> remaining then snd p else truncate_evidence H remaining (snd p)"
    have "length (ev_content ?c) \<le> remaining" by simp
    with False Cons.IH [of "remaining - length (ev_content ?c)" "observation_slot_of (snd p) # seen"]
    show ?thesis by (simp add: Let_def del: truncate_evidence_simps)
  qed
qed simp

text \<open>A selected entry is a ledger entry, perhaps cut short.\<close>

definition cut_of :: "(string \<Rightarrow> digest) \<Rightarrow> context_evidence \<Rightarrow> context_evidence \<Rightarrow> bool" where
  "cut_of H e c = (c = e \<or> (\<exists>n. c = truncate_evidence H n e))"

lemma select_first:
  "(i, c) \<in> set (select_observations H remaining seen ps) \<Longrightarrow>
     \<exists>e us vs. ps = us @ (i, e) # vs \<and> cut_of H e c \<and> observation_slot_of e \<notin> set seen
       \<and> (\<forall>q \<in> set us. observation_slot_of (snd q) \<noteq> observation_slot_of e)"
proof (induction ps arbitrary: remaining seen)
  case (Cons p ps)
  have step: "\<exists>e us vs. p # ps = us @ (i, e) # vs \<and> cut_of H e c \<and> observation_slot_of e \<notin> set seen
       \<and> (\<forall>q \<in> set us. observation_slot_of (snd q) \<noteq> observation_slot_of e)"
    if m: "(i, c) \<in> set (select_observations H r s ps)" and s: "set seen \<subseteq> set s" "observation_slot_of (snd p) \<in> set s" for r s
  proof -
    from Cons.IH [OF m] obtain e us vs where
      "ps = us @ (i, e) # vs" "cut_of H e c" "observation_slot_of e \<notin> set s"
      "\<forall>q \<in> set us. observation_slot_of (snd q) \<noteq> observation_slot_of e" by blast
    with s show ?thesis by (intro exI [of _ e] exI [of _ "p # us"] exI [of _ vs]) auto
  qed
  consider (seen) "observation_slot_of (snd p) \<in> set seen" | (full) "observation_slot_of (snd p) \<notin> set seen" "remaining = 0"
    | (take) "observation_slot_of (snd p) \<notin> set seen" "remaining \<noteq> 0" by blast
  then show ?case
  proof cases
    case seen
    with Cons.prems step [of remaining seen] show ?thesis by simp
  next
    case full
    with Cons.prems show ?thesis by simp
  next
    case take
    let ?c = "if length (ev_content (snd p)) \<le> remaining then snd p else truncate_evidence H remaining (snd p)"
    from take Cons.prems consider "(i, c) = (fst p, ?c)"
      | "(i, c) \<in> set (select_observations H (remaining - length (ev_content ?c)) (observation_slot_of (snd p) # seen) ps)"
      by (auto simp: Let_def simp del: truncate_evidence_simps)
    then show ?thesis
    proof cases
      case 1
      then have "p # ps = [] @ (i, snd p) # ps" "cut_of H (snd p) c" by (auto simp: cut_of_def)
      with take(1) show ?thesis by (metis empty_iff empty_set)
    next
      case 2
      then show ?thesis by (rule step) auto
    qed
  qed
qed simp

lemma select_distinct:
  "distinct (map fst ps) \<Longrightarrow> distinct (map fst (select_observations H remaining seen ps))"
proof (induction ps arbitrary: remaining seen)
  case (Cons p ps)
  have "fst p \<notin> fst ` set (select_observations H r s ps)" for r s
  proof
    assume "fst p \<in> fst ` set (select_observations H r s ps)"
    then obtain c where "(fst p, c) \<in> set (select_observations H r s ps)" by force
    from select_first [OF this] Cons.prems show False by force
  qed
  with Cons show ?case by (simp add: Let_def)
qed simp

lemma ranked_mset: "mset (ranked_observations obs) = mset (enumerate 0 obs)"
  by (simp add: ranked_observations_def)

lemma ranked_set: "(i, e) \<in> set (ranked_observations obs) \<longleftrightarrow> i < length obs \<and> e = obs ! i"
  by (auto simp: ranked_observations_def in_set_enumerate_eq)

lemma ranked_distinct: "distinct (map fst (ranked_observations obs))"
proof -
  have "mset (map fst (ranked_observations obs)) = mset (map fst (enumerate 0 obs))"
    by (simp only: mset_map ranked_mset)
  also have "\<dots> = mset [0..<length obs]" by (simp only: map_fst_enumerate add_0)
  finally show ?thesis by (metis distinct_upt mset_eq_imp_distinct_iff)
qed

lemma sort_key_sum: "sum_list (map f (sort_key k xs)) = sum_list (map f xs)"
  for f :: "'a \<Rightarrow> nat"
  by (metis mset_map mset_sort sum_mset_sum_list)

lemma compact_total: "total_chars (compact_observations H obs max_chars) \<le> max_chars"
proof -
  have "total_chars (map snd (sort_key fst xs)) = sum_list (map (\<lambda>p. length (ev_content (snd p))) xs)" for xs :: "(nat \<times> context_evidence) list"
    unfolding total_chars_def using sort_key_sum [of "\<lambda>p. length (ev_content (snd p))" fst xs] by (simp add: o_def)
  then show ?thesis
    unfolding compact_observations_def using select_total [of H max_chars "[]"] by (simp add: total_chars_def)
qed

lemma ranked_sorted:
  "sorted (map (\<lambda>p. (observation_rank (snd p), - int (fst p))) (ranked_observations obs))"
  by (simp add: ranked_observations_def)

lemma slot_rank: "observation_slot_of a = observation_slot_of b \<Longrightarrow> observation_rank a = observation_rank b"
  by (auto simp: observation_slot_of_def observation_rank_def split: if_splits)

text \<open>An entry is selected only if no newer entry has its slot.\<close>

lemma selected_newest:
  assumes "(i, c) \<in> set (select_observations H remaining [] (ranked_observations obs))"
  shows "i < length obs \<and> cut_of H (obs ! i) c
     \<and> (\<forall>k. i < k \<and> k < length obs \<longrightarrow> observation_slot_of (obs ! k) \<noteq> observation_slot_of (obs ! i))"
proof -
  from select_first [OF assms] obtain e us vs where s: "ranked_observations obs = us @ (i, e) # vs"
    "cut_of H e c" "\<forall>q \<in> set us. observation_slot_of (snd q) \<noteq> observation_slot_of e" by blast
  then have e: "i < length obs" "e = obs ! i" using ranked_set [of i e obs] by simp_all
  have "observation_slot_of (obs ! k) \<noteq> observation_slot_of (obs ! i)" if k: "i < k" "k < length obs" for k
  proof
    assume same: "observation_slot_of (obs ! k) = observation_slot_of (obs ! i)"
    from k(2) have "(k, obs ! k) \<in> set (ranked_observations obs)" by (simp add: ranked_set)
    with s k(1) consider "(k, obs ! k) \<in> set us" | "(k, obs ! k) \<in> set vs" by auto
    then show False
    proof cases
      case 1
      with s(3) same e show False by force
    next
      case 2
      with ranked_sorted [of obs] s(1)
      have "(observation_rank e, - int i) \<le> (observation_rank (obs ! k), - int k)"
        by (force simp: sorted_append)
      with slot_rank [OF same] e k show False by simp
    qed
  qed
  with e s(2) show ?thesis by blast
qed

lemma newest_failure_selected:
  assumes "0 < remaining" and "\<exists>e \<in> set obs. ev_kind e = FAILURE"
  shows "\<exists>i. i \<in> fst ` set (select_observations H remaining [] (ranked_observations obs)) \<and> i < length obs
     \<and> ev_kind (obs ! i) = FAILURE \<and> (\<forall>k. i < k \<and> k < length obs \<longrightarrow> ev_kind (obs ! k) \<noteq> FAILURE)"
proof -
  from assms(2) obtain f where f: "f < length obs" "ev_kind (obs ! f) = FAILURE" by (metis in_set_conv_nth)
  then obtain i e ps where r: "ranked_observations obs = (i, e) # ps"
    using ranked_set [of f "obs ! f" obs] by (cases "ranked_observations obs") auto
  then have e: "i < length obs" "e = obs ! i" using ranked_set [of i e obs] by simp_all
  have le: "(observation_rank e, - int i) \<le> (observation_rank (obs ! k), - int k)" if "k < length obs" for k
  proof -
    from that have "(k, obs ! k) \<in> set ((i, e) # ps)" unfolding r [symmetric] by (simp add: ranked_set)
    with ranked_sorted [of obs] show ?thesis unfolding r by auto
  qed
  from le [OF f(1)] f(2) have fail: "ev_kind e = FAILURE" by (auto simp: observation_rank_def split: if_splits)
  have "ev_kind (obs ! k) \<noteq> FAILURE" if "i < k" "k < length obs" for k
    using le [OF that(2)] that fail by (auto simp: observation_rank_def)
  moreover have "i \<in> fst ` set (select_observations H remaining [] (ranked_observations obs))"
    using assms(1) by (simp add: r Let_def)
  ultimately show ?thesis using e fail by blast
qed

subsection \<open>Properties\<close>

text \<open>
  The view of the observations is bounded and shows the newest of everything. It holds at most
  the allowed number of characters; its entries are entries of the ledger, possibly cut, in
  chronological order; none of them is superseded by a newer entry of the same slot; and the newest
  failure is always shown.
\<close>

theorem observation_view_is_bounded_and_newest:
  "total_chars (compact_observations H obs max_chars) \<le> max_chars
   \<and> (\<exists>js. sorted_wrt (<) js \<and> length js = length (compact_observations H obs max_chars)
        \<and> (\<forall>k < length js. js ! k < length obs \<and> cut_of H (obs ! (js ! k)) (compact_observations H obs max_chars ! k)
             \<and> (\<forall>m. js ! k < m \<and> m < length obs \<longrightarrow>
                  observation_slot_of (obs ! m) \<noteq> observation_slot_of (obs ! (js ! k))))
        \<and> (0 < max_chars \<and> (\<exists>e \<in> set obs. ev_kind e = FAILURE) \<longrightarrow>
             (\<exists>j \<in> set js. ev_kind (obs ! j) = FAILURE
                \<and> (\<forall>m. j < m \<and> m < length obs \<longrightarrow> ev_kind (obs ! m) \<noteq> FAILURE))))"
proof (cases "max_chars = 0")
  case True
  then show ?thesis by (simp add: compact_observations_def total_chars_def)
next
  case False
  let ?sel = "select_observations H max_chars [] (ranked_observations obs)"
  let ?view = "sort_key fst ?sel"
  have view: "compact_observations H obs max_chars = map snd ?view" using False by (simp add: compact_observations_def)
  have d: "distinct (map fst ?view)"
  proof -
    have "mset (map fst ?view) = mset (map fst ?sel)" by (simp only: mset_map mset_sort)
    with select_distinct [OF ranked_distinct, of H max_chars "[]" obs] show ?thesis
      by (metis mset_eq_imp_distinct_iff)
  qed
  have s: "sorted_wrt (<) (map fst ?view)" using d sorted_sort_key [of fst ?sel] by (simp add: strict_sorted_iff)
  have each: "fst (?view ! k) < length obs \<and> cut_of H (obs ! fst (?view ! k)) (snd (?view ! k))
      \<and> (\<forall>m. fst (?view ! k) < m \<and> m < length obs \<longrightarrow>
           observation_slot_of (obs ! m) \<noteq> observation_slot_of (obs ! fst (?view ! k)))"
    if "k < length ?view" for k
  proof -
    from nth_mem [OF that] have "(fst (?view ! k), snd (?view ! k)) \<in> set ?sel" by simp
    then show ?thesis by (rule selected_newest)
  qed
  show ?thesis
  proof (intro conjI exI [of _ "map fst ?view"] impI)
    show "total_chars (compact_observations H obs max_chars) \<le> max_chars" by (rule compact_total)
    show "sorted_wrt (<) (map fst ?view)" by (rule s)
    show "length (map fst ?view) = length (compact_observations H obs max_chars)" by (simp add: view)
    show "\<forall>k < length (map fst ?view). map fst ?view ! k < length obs
        \<and> cut_of H (obs ! (map fst ?view ! k)) (compact_observations H obs max_chars ! k)
        \<and> (\<forall>m. map fst ?view ! k < m \<and> m < length obs \<longrightarrow>
             observation_slot_of (obs ! m) \<noteq> observation_slot_of (obs ! (map fst ?view ! k)))"
      using each by (simp add: view)
    assume "0 < max_chars \<and> (\<exists>e \<in> set obs. ev_kind e = FAILURE)"
    then show "\<exists>j \<in> set (map fst ?view). ev_kind (obs ! j) = FAILURE
        \<and> (\<forall>m. j < m \<and> m < length obs \<longrightarrow> ev_kind (obs ! m) \<noteq> FAILURE)"
      using newest_failure_selected [of max_chars obs H] by auto
  qed
qed

definition sample_observation :: "evidence_kind \<Rightarrow> string \<Rightarrow> context_evidence" where
  "sample_observation k c = \<lparr>ev_id = ''EV-1'', ev_kind = k, ev_path = ''a.py'', ev_start = None, ev_end = None,
     ev_symbol = None, ev_commit = ''c'', ev_reason = ''agent'', ev_content = c, ev_digest = c, ev_policy = CLOUD_ALLOWED\<rparr>"

theorem observation_view_is_bounded_and_newest_witness:
  "total_chars (compact_observations id [sample_observation FAILURE ''abcdef'', sample_observation DIFF ''xy''] 4) \<le> 4
   \<and> (\<exists>c \<in> set (compact_observations id [sample_observation FAILURE ''abcdef'', sample_observation DIFF ''xy''] 4).
        ev_kind c = FAILURE)"
proof -
  let ?obs = "[sample_observation FAILURE ''abcdef'', sample_observation DIFF ''xy'']"
  from observation_view_is_bounded_and_newest [of id ?obs 4] obtain js where
    "total_chars (compact_observations id ?obs 4) \<le> 4" and len: "length js = length (compact_observations id ?obs 4)"
    and cut: "\<forall>k < length js. cut_of id (?obs ! (js ! k)) (compact_observations id ?obs 4 ! k)"
    and "0 < (4::nat) \<and> (\<exists>e \<in> set ?obs. ev_kind e = FAILURE) \<longrightarrow> (\<exists>j \<in> set js. ev_kind (?obs ! j) = FAILURE)"
    by blast
  moreover have "\<exists>e \<in> set ?obs. ev_kind e = FAILURE" by (simp add: sample_observation_def)
  ultimately obtain k where k: "k < length js" "ev_kind (?obs ! (js ! k)) = FAILURE" "total_chars (compact_observations id ?obs 4) \<le> 4"
    by (metis in_set_conv_nth zero_less_numeral)
  with cut have "ev_kind (compact_observations id ?obs 4 ! k) = FAILURE" by (auto simp: cut_of_def)
  with k len show ?thesis by (metis nth_mem)
qed

end
