(* ===== verification/Inspection.thy ===== *)
theory Inspection
  imports Changed_Paths Evidence
begin

section \<open>Repository inspection (agent/inspection.py)\<close>

text \<open>
  The bounded reads and searches and the two patch builders the coding agent is served with. What
  git, ripgrep and the file system say is a \<open>repo_view\<close>; a file's text is its lossy UTF-8 decoding,
  with a flag whether a strict decoding succeeds. An \<open>AgentInspectionError\<close> is \<open>INSPECTION\<close> with
  its message, any other exception is \<open>ESCAPED\<close> with its type: it is not handled by the session.
  \<open>difflib.unified_diff\<close> is written out for an empty old side and a parameter otherwise. A repr of
  a string is rendered as the string between single quotes.
\<close>

datatype raised = INSPECTION string | ESCAPED string

record file_text =
  fl_text :: string
  fl_utf8 :: bool

datatype ripgrep = Rg_Unavailable | Rg_Failed string | Rg_Matches "(path \<times> nat \<times> string) list"

record repo_view =
  rv_head :: string
  rv_status :: string
  rv_files :: string
  rv_cached :: string
  rv_others :: string
  rv_diff :: string
  rv_read :: "path \<Rightarrow> file_text option"
  rv_symlink :: "path \<Rightarrow> bool"
  rv_exists :: "path \<Rightarrow> bool"
  rv_inside :: "path \<Rightarrow> bool"
  rv_ripgrep :: "string \<Rightarrow> string option \<Rightarrow> ripgrep"

record inspection_limits =
  il_search_results :: nat
  il_read_lines :: nat
  il_chars :: nat

definition quoted :: "string \<Rightarrow> string" where
  "quoted s = [CHR 0x27] @ s @ [CHR 0x27]"

definition pad3 :: "nat \<Rightarrow> string" where
  "pad3 n = replicate (3 - length (decimal n)) (CHR ''0'') @ decimal n"

subsection \<open>End of file\<close>

definition is_blank_end :: "char \<Rightarrow> bool" where
  "is_blank_end c = (c \<in> set [CHR '' '', CHR 0x09, carriage, newline])"

definition canonical_eof :: "string \<Rightarrow> string" where
  "canonical_eof text =
     (let trimmed = rev (dropWhile is_blank_end (rev text)) in
      if trimmed = [] then text
      else if ends_with text [newline] then trimmed @ [newline] else trimmed)"

definition normalized_eof :: "string \<Rightarrow> string \<Rightarrow> string" where
  "normalized_eof current updated =
     (if canonical_eof current \<noteq> current then updated else canonical_eof updated)"

subsection \<open>Paths\<close>

definition validate_path :: "repo_view \<Rightarrow> path \<Rightarrow> raised + path" where
  "validate_path v p =
     (let n = normalize_relative_path p in
      if \<not> is_safe_relative_path n then Inl (INSPECTION (''unsafe repository path: '' @ p))
      else if \<not> rv_inside v n then Inl (INSPECTION (''repository path escape: '' @ p)) else Inr n)"

definition validate_glob :: "string \<Rightarrow> raised option" where
  "validate_glob g =
     (if \<not> is_safe_relative_path g \<or> starts_with g ''!'' \<or> backslash \<in> set g
      then Some (INSPECTION (''unsafe path_glob: '' @ g)) else None)"

definition kind_of_path :: "path \<Rightarrow> evidence_kind" where
  "kind_of_path p = (if is_test_path p then TEST_EVIDENCE else FILE_EXCERPT)"

definition repository_files :: "repo_view \<Rightarrow> path list" where
  "repository_files v = filter is_safe_relative_path (map normalize_relative_path (listed (rv_files v)))"

definition tracked_files :: "repo_view \<Rightarrow> path list" where
  "tracked_files v = map normalize_relative_path (listed (rv_cached v))"

definition inspected_changed_paths :: "repo_view \<Rightarrow> path list" where
  "inspected_changed_paths v =
     map (\<lambda>e. normalize_relative_path (drop 3 e))
       (filter (\<lambda>e. 3 < length e) (split_on (char_of (0::nat)) (rv_status v)))"

definition has_changes :: "repo_view \<Rightarrow> bool" where
  "has_changes v = (inspected_changed_paths v \<noteq> [])"

definition classified_changed_paths :: "repo_view \<Rightarrow> changed_path_classification" where
  "classified_changed_paths v = classify_changed_paths (inspected_changed_paths v) (tracked_files v)"

definition commit_of :: "repo_view \<Rightarrow> path \<Rightarrow> string" where
  "commit_of v p =
     (if p \<in> set (inspected_changed_paths v) then strip (rv_head v) @ ''+working-tree'' else strip (rv_head v))"

subsection \<open>Search\<close>

definition excerpt :: "(string \<Rightarrow> digest) \<Rightarrow> string \<Rightarrow> evidence_kind \<Rightarrow> path \<Rightarrow> (nat \<times> nat) option \<Rightarrow> string \<Rightarrow> string
    \<Rightarrow> string \<Rightarrow> context_evidence" where
  "excerpt H i kind p span commit reason content =
     \<lparr>ev_id = i, ev_kind = kind, ev_path = p, ev_start = map_option fst span, ev_end = map_option snd span,
      ev_symbol = None, ev_commit = commit, ev_reason = reason, ev_content = content, ev_digest = H content,
      ev_policy = CLOUD_ALLOWED\<rparr>"

definition strip_line_ends :: "string \<Rightarrow> string" where
  "strip_line_ends s = rev (dropWhile (\<lambda>c. c = carriage \<or> c = newline) (rev s))"

type_synonym search_match = "(path \<times> nat) \<times> string"

definition ripgrep_matches :: "repo_view \<Rightarrow> (path \<times> nat \<times> string) list \<Rightarrow> search_match list" where
  "ripgrep_matches v ms =
     List.map_filter (\<lambda>(p, n, content).
       (let q = normalize_relative_path p in
        if q \<in> set (repository_files v) \<and> 0 < n then Some ((q, n), strip_line_ends content) else None)) ms"

fun line_matches :: "nat \<Rightarrow> nat \<Rightarrow> string \<Rightarrow> path \<Rightarrow> string list \<Rightarrow> search_match list" where
  "line_matches room n query p [] = []"
| "line_matches room n query p (l # ls) =
     (if contains l query then
        ((p, n), strip_line_ends l) # (if room = 1 then [] else line_matches (room - 1) (Suc n) query p ls)
      else line_matches room (Suc n) query p ls)"

fun lexical_search_matches ::
  "repo_view \<Rightarrow> string option \<Rightarrow> string \<Rightarrow> nat \<Rightarrow> path list \<Rightarrow> search_match list" where
  "lexical_search_matches v path_glob query room [] = []"
| "lexical_search_matches v path_glob query room (p # ps) =
     (if room = 0 then []
      else if (case path_glob of None \<Rightarrow> False | Some g \<Rightarrow> \<not> fnmatch p g)
        then lexical_search_matches v path_glob query room ps
      else (case rv_read v p of None \<Rightarrow> lexical_search_matches v path_glob query room ps
        | Some f \<Rightarrow>
            if char_of (0::nat) \<in> set (fl_text f) then lexical_search_matches v path_glob query room ps
            else (let ms = line_matches room 1 query p (splitlines (fl_text f))
                  in ms @ lexical_search_matches v path_glob query (room - length ms) ps)))"

fun search_evidence ::
  "(string \<Rightarrow> digest) \<Rightarrow> repo_view \<Rightarrow> inspection_limits \<Rightarrow> string \<Rightarrow> nat \<Rightarrow> nat \<Rightarrow> search_match list
    \<Rightarrow> context_evidence list" where
  "search_evidence H v l reason found used [] = []"
| "search_evidence H v l reason found used (((p, n), content) # ms) =
     (if il_search_results l \<le> found \<or> il_chars l \<le> used then []
      else (let c = take (il_chars l - used) content in
            excerpt H (''EV-AGENT-SEARCH-'' @ pad3 (Suc found)) (kind_of_path p) p (Some (n, n)) (commit_of v p) reason c
              # search_evidence H v l reason (Suc found) (used + length c) ms))"

definition search_repository ::
  "(string \<Rightarrow> digest) \<Rightarrow> repo_view \<Rightarrow> inspection_limits \<Rightarrow> string \<Rightarrow> string option \<Rightarrow> raised + context_evidence list" where
  "search_repository H v l query path_glob =
     (let q = strip query in
      if q = [] then Inl (INSPECTION ''search query must not be empty'')
      else (case Option.bind path_glob validate_glob of Some e \<Rightarrow> Inl e
        | None \<Rightarrow>
            (let reason = ''agent literal search for '' @ quoted q;
                 answer = (\<lambda>why ms. Inr (search_evidence H v l why 0 0 (sort_key fst (dedup_by fst [] (rev ms)))))
             in case rv_ripgrep v q path_glob of
                  Rg_Failed err \<Rightarrow> Inl (INSPECTION (''repository search failed: '' @ strip err))
                | Rg_Matches ms \<Rightarrow> answer reason (ripgrep_matches v ms)
                | Rg_Unavailable \<Rightarrow>
                    answer (reason @ '' (lexical fallback: ripgrep unavailable)'')
                      (lexical_search_matches v path_glob q (il_search_results l) (sort (remdups (repository_files v)))))))"

subsection \<open>Reading\<close>

definition line_count_error :: "nat \<Rightarrow> nat \<Rightarrow> path \<Rightarrow> string" where
  "line_count_error start n p =
     ''start_line '' @ decimal start @ '' exceeds '' @ decimal n @ '' lines in '' @ p"

definition read_repository_file ::
  "(string \<Rightarrow> digest) \<Rightarrow> repo_view \<Rightarrow> inspection_limits \<Rightarrow> path \<Rightarrow> nat \<Rightarrow> nat option \<Rightarrow> raised + context_evidence" where
  "read_repository_file H v l path start end_line =
     (case validate_path v path of Inl e \<Rightarrow> Inl e
      | Inr p \<Rightarrow>
          if p \<notin> set (repository_files v) then Inl (INSPECTION (''path is not a repository file: '' @ p))
          else (case rv_read v p of None \<Rightarrow> Inl (ESCAPED ''OSError'')
            | Some f \<Rightarrow>
                if char_of (0::nat) \<in> set (fl_text f) then Inl (INSPECTION (''binary files cannot be read: '' @ p))
                else (let lines = splitlines (normalize_newlines (fl_text f)) in
                  if length lines < start then Inl (INSPECTION (line_count_error start (length lines) p))
                  else (let last_line = start + il_read_lines l - 1;
                            requested = (case end_line of None \<Rightarrow> last_line | Some e \<Rightarrow> e) in
                    if requested < start then Inl (INSPECTION ''end_line must not precede start_line'')
                    else (let actual = min (min requested last_line) (length lines);
                              text = take (il_chars l) (join_with newline (drop (start - 1) (take actual lines)))
                      in Inr (excerpt H ''EV-AGENT-READ-001'' (kind_of_path p) p
                           (Some (start, start + count_list text newline)) (commit_of v p) ''explicit agent file read'' text))))))"

definition untracked_diff_of :: "repo_view \<Rightarrow> path \<Rightarrow> string" where
  "untracked_diff_of v p =
     (let head = ''diff --git a/'' @ p @ '' b/'' @ p @ [newline] in
      if rv_symlink v p then
        head @ ''new file mode 120000'' @ [newline] @ ''Symlink /dev/null and b/'' @ p @ '' differ (symlink target withheld)'' @ [newline]
      else (case rv_read v p of None \<Rightarrow> []
        | Some f \<Rightarrow>
            if char_of (0::nat) \<in> set (fl_text f) then
              head @ ''new file mode 100644'' @ [newline] @ ''Binary files /dev/null and b/'' @ p @ '' differ'' @ [newline]
            else (let lines = splitlines (normalize_newlines (fl_text f)) in
              if lines = [] then []
              else head @ ''new file mode 100644'' @ [newline] @ ''--- /dev/null'' @ [newline] @ ''+++ b/'' @ p @ [newline]
                @ ''@@ -0,0 +1,'' @ decimal (length lines) @ '' @@'' @ [newline]
                @ concat (map (\<lambda>x. CHR ''+'' # x @ [newline]) lines))))"

definition inspect_diff ::
  "(string \<Rightarrow> digest) \<Rightarrow> repo_view \<Rightarrow> inspection_limits \<Rightarrow> context_evidence option" where
  "inspect_diff H v l =
     (let content = rv_diff v @ concat (map (untracked_diff_of v) (list_permitted_untracked_paths (rv_others v))) in
      if content = [] then None
      else Some (excerpt H ''EV-AGENT-DIFF-001'' DIFF ''<working-tree-diff>'' None (strip (rv_head v) @ ''+working-tree'')
        ''agent requested the exact current Git diff'' (take (il_chars l) content)))"

subsection \<open>The two patch builders\<close>

text \<open>\<open>s.count(p)\<close> and \<open>s.replace(p, q, 1)\<close> for a non-empty \<open>p\<close>.\<close>

function occurrences :: "string \<Rightarrow> string \<Rightarrow> nat" where
  "occurrences p [] = 0"
| "occurrences p (c # s) =
     (if p \<noteq> [] \<and> starts_with (c # s) p then Suc (occurrences p (drop (length p) (c # s))) else occurrences p s)"
  by pat_completeness auto

termination
  by (relation "measure (\<lambda>(_, s). length s)") auto

fun replace_first :: "string \<Rightarrow> string \<Rightarrow> string \<Rightarrow> string" where
  "replace_first p q [] = []"
| "replace_first p q (c # s) =
     (if starts_with (c # s) p then q @ drop (length p) (c # s) else c # replace_first p q s)"

definition blank_lines_emptied :: "string \<Rightarrow> string" where
  "blank_lines_emptied s = join_with newline (map (\<lambda>l. if strip l = [] then [] else l) (split_on newline s))"

text \<open>\<open>unified_diff([], lines, ...)\<close>: no output for no lines, else one hunk.\<close>

definition unified_diff_of_new :: "string list \<Rightarrow> string \<Rightarrow> string \<Rightarrow> string" where
  "unified_diff_of_new lines from_file to_file =
     (if lines = [] then []
      else ''--- '' @ from_file @ [newline] @ ''+++ '' @ to_file @ [newline]
        @ ''@@ -0,0 +1'' @ (if length lines = 1 then [] else CHR '','' # decimal (length lines)) @ '' @@'' @ [newline]
        @ concat (map (\<lambda>x. CHR ''+'' # x) lines))"

definition replacement_patch ::
  "(string list \<Rightarrow> string list \<Rightarrow> string \<Rightarrow> string \<Rightarrow> string) \<Rightarrow> repo_view \<Rightarrow> path \<Rightarrow> string \<Rightarrow> string \<Rightarrow> raised + string" where
  "replacement_patch udiff v path old_text new_text =
     (if old_text = new_text then
        Inl (INSPECTION (''replace_text old_text and new_text are identical; no edit was requested. Change the failing ''
          @ ''implementation or test described by the freshest verification evidence.''))
      else (case validate_path v path of Inl e \<Rightarrow> Inl e
        | Inr p \<Rightarrow>
            if p \<notin> set (repository_files v) then Inl (INSPECTION (''path is not a repository file: '' @ p))
            else (case rv_read v p of None \<Rightarrow> Inl (ESCAPED ''OSError'')
              | Some f \<Rightarrow>
                  if char_of (0::nat) \<in> set (fl_text f) then Inl (INSPECTION (''binary files cannot be edited: '' @ p))
                  else if \<not> fl_utf8 f then Inl (ESCAPED ''UnicodeDecodeError'')
                  else (let current = normalize_newlines (fl_text f); n = occurrences old_text current in
                    if n \<noteq> 1 then
                      Inl (INSPECTION (''replace_text old_text must occur exactly once in '' @ p @ ''; found '' @ decimal n @ '' matches''))
                    else (let updated = normalized_eof current (replace_first old_text (blank_lines_emptied new_text) current) in
                      if updated = current then
                        Inl (INSPECTION (''replace_text produced no change after end-of-file normalization in '' @ p
                          @ ''; the requested edit only added blank content at end of file, which Git''
                          @ [CHR 0x27] @ ''s whitespace policy rejects. Submit an edit that changes real content.''))
                      else (let body = udiff (splitlines_keep current) (splitlines_keep updated) (''a/'' @ p) (''b/'' @ p) in
                        if body = [] then Inl (INSPECTION ''replace_text did not change the file'')
                        else Inr (''diff --git a/'' @ p @ '' b/'' @ p @ [newline] @ body)))))))"

definition new_file_patch :: "repo_view \<Rightarrow> path \<Rightarrow> string \<Rightarrow> raised + string" where
  "new_file_patch v path content =
     (case validate_path v path of Inl e \<Rightarrow> Inl e
      | Inr p \<Rightarrow>
          if rv_exists v p then
            Inl (INSPECTION (''create_file target already exists: '' @ p
              @ ''; use replace_text to edit an existing file, or propose_patch for a multi-file change''))
          else if char_of (0::nat) \<in> set content then Inl (INSPECTION ''create_file content must not contain NUL bytes'')
          else (let normalized = canonical_eof (normalize_newlines content) in
            if normalized = [] then Inl (INSPECTION ''create_file content must not be empty'')
            else (let body = unified_diff_of_new (splitlines_keep normalized) ''/dev/null'' (''b/'' @ p) in
              if body = [] then Inl (INSPECTION ''create_file did not produce any content'')
              else Inr (''diff --git a/'' @ p @ '' b/'' @ p @ [newline] @ ''new file mode 100644'' @ [newline] @ body))))"

end
