(* ===== verification/Inspection_Facts.thy ===== *)
theory Inspection_Facts
  imports Inspection
begin

section \<open>What inspection and the patch builders promise\<close>

text \<open>
  Lines: \<open>splitlines\<close> undoes the joining of lines free of line boundaries. Then the bounds of a
  read, and the round trip of \<open>create_file\<close>: the patch built from a content is parsed back as one
  new file with exactly the lines of the content.
\<close>

subsection \<open>Lines\<close>

definition plain :: "string \<Rightarrow> bool" where
  "plain l = (\<forall>c \<in> set l. \<not> is_line_end c)"

lemma plain_simps [simp]:
  "plain []" "plain (c # l) \<longleftrightarrow> \<not> is_line_end c \<and> plain l" "plain (l @ m) \<longleftrightarrow> plain l \<and> plain m"
  by (auto simp: plain_def)

lemma line_ends [simp]: "is_line_end newline" "is_line_end carriage"
  by (simp_all add: is_line_end_def newline_def carriage_def)

lemma plain_no_newline: "plain l \<Longrightarrow> newline \<notin> set l" "plain l \<Longrightarrow> carriage \<notin> set l"
  by (auto simp: plain_def)

lemma splitlines_acc_plain: "plain l \<Longrightarrow> splitlines_acc acc l = (if acc = [] \<and> l = [] then [] else [rev acc @ l])"
proof (induction acc l rule: splitlines_acc.induct)
  case (3 acc c d s)
  then have "c \<noteq> carriage" by auto
  with 3 show ?case by auto
qed auto

lemma splitlines_acc_line:
  "plain l \<Longrightarrow> splitlines_acc acc (l @ newline # s) = (rev acc @ l @ [newline]) # splitlines_acc [] s"
proof (induction l arbitrary: acc)
  case Nil
  have "newline \<noteq> carriage" by (simp add: newline_def carriage_def)
  then show ?case by (cases s) auto
next
  case (Cons c l)
  then have c: "\<not> is_line_end c" "c \<noteq> carriage" by auto
  obtain d r where "l @ newline # s = d # r" by (cases l) auto
  with Cons c show ?case by auto
qed

definition lines_text :: "string list \<Rightarrow> string" where
  "lines_text ls = concat (map (\<lambda>l. l @ [newline]) ls)"

lemma lines_text_simps [simp]:
  "lines_text [] = []" "lines_text (l # ls) = l @ newline # lines_text ls"
  "lines_text (ls @ ms) = lines_text ls @ lines_text ms"
  by (simp_all add: lines_text_def)

lemma splitlines_keep_text: "list_all plain ls \<Longrightarrow> splitlines_keep (lines_text ls) = map (\<lambda>l. l @ [newline]) ls"
  by (induction ls) (auto simp: splitlines_keep_def splitlines_acc_line)

lemma splitlines_keep_text_last:
  "list_all plain ls \<Longrightarrow> plain m \<Longrightarrow> m \<noteq> [] \<Longrightarrow>
     splitlines_keep (lines_text ls @ m) = map (\<lambda>l. l @ [newline]) ls @ [m]"
  by (induction ls) (auto simp: splitlines_keep_def splitlines_acc_line splitlines_acc_plain)

lemma lines_text_join: "ls \<noteq> [] \<Longrightarrow> lines_text ls = join_with newline ls @ [newline]"
proof (induction ls)
  case (Cons l ls)
  then show ?case by (cases ls) auto
qed simp

lemma splitlines_acc_shape:
  "plain acc \<Longrightarrow> l \<in> set (splitlines_acc acc s) \<Longrightarrow> \<exists>body e. l = body @ e \<and> plain body \<and> (\<forall>c \<in> set e. is_line_end c)"
proof (induction acc s rule: splitlines_acc.induct)
  case (1 acc)
  then have "l = rev acc @ []" by (simp split: if_splits)
  with 1 show ?case by (metis empty_iff empty_set plain_def set_rev)
next
  case (2 acc c)
  then have "l = rev acc @ [c]" by simp
  moreover have "plain (rev acc)" using 2 by (simp add: plain_def)
  ultimately show ?case
    by (cases "is_line_end c")
      (force, rule exI [of _ l], auto)
next
  case (3 acc c d s)
  have r: "plain (rev acc)" using 3 by (simp add: plain_def)
  consider "l = rev acc @ [c, d]" "is_line_end c" "is_line_end d" | "c = carriage \<and> d = newline" "l \<in> set (splitlines_acc [] s)"
    | "l = rev acc @ [c]" "is_line_end c" | "\<not> (c = carriage \<and> d = newline)" "is_line_end c" "l \<in> set (splitlines_acc [] (d # s))"
    | "\<not> (c = carriage \<and> d = newline)" "\<not> is_line_end c" "l \<in> set (splitlines_acc (c # acc) (d # s))"
    using 3 by (auto split: if_splits)
  then show ?case
  proof cases
    case 1
    then show ?thesis by - (rule exI [of _ "rev acc"], rule exI [of _ "[c, d]"], simp add: r)
  next
    case 2
    with 3 show ?thesis by simp
  next
    case 33: 3
    then show ?thesis by - (rule exI [of _ "rev acc"], rule exI [of _ "[c]"], simp add: r)
  next
    case 4
    with 3 show ?thesis by simp
  next
    case 5
    with 3 show ?thesis by simp
  qed
qed

lemma drop_line_end_plain: "plain body \<Longrightarrow> \<forall>c \<in> set e. is_line_end c \<Longrightarrow> drop_line_end (body @ e) = body"
proof -
  assume p: "plain body" and e: "\<forall>c \<in> set e. is_line_end c"
  have "dropWhile is_line_end (rev e @ rev body) = rev body"
  proof -
    have "dropWhile is_line_end (rev e @ rev body) = dropWhile is_line_end (rev body)"
      by (rule dropWhile_append2) (use e in simp)
    also have "\<dots> = rev body"
      using p by (cases "rev body") (auto simp: plain_def dropWhile_eq_self_iff dest: arg_cong [where f = set])
    finally show ?thesis .
  qed
  then show ?thesis by (simp add: drop_line_end_def)
qed

lemma splitlines_plain: "l \<in> set (splitlines s) \<Longrightarrow> plain l"
proof -
  assume "l \<in> set (splitlines s)"
  then obtain k where "k \<in> set (splitlines_acc [] s)" "l = drop_line_end k"
    by (auto simp: splitlines_def splitlines_keep_def)
  with splitlines_acc_shape [of "[]" k s] drop_line_end_plain show ?thesis by auto
qed

lemma count_join: "\<forall>w \<in> set ws. newline \<notin> set w \<Longrightarrow> count_list (join_with newline ws) newline = length ws - 1"
  by (induction newline ws rule: join_with.induct) (auto simp: count_list_0_iff)

lemma count_take: "count_list (take n xs) x \<le> count_list xs x"
  by (metis append_take_drop_id count_list_append le_add1)

lemma normalize_newlines_id: "carriage \<notin> set s \<Longrightarrow> normalize_newlines s = s"
proof -
  assume c: "carriage \<notin> set s"
  then have "crlf_to_lf s = s" by (induction s rule: crlf_to_lf.induct) auto
  with c show ?thesis unfolding normalize_newlines_def replace_char_def by (auto intro: map_idI)
qed

lemma splitlines_one: "plain l \<Longrightarrow> l \<noteq> [] \<Longrightarrow> splitlines l = [l]"
  using drop_line_end_plain [of l "[]"] by (simp add: splitlines_def splitlines_keep_def splitlines_acc_plain)

lemma join_take_prefix: "prefix (join_with d (take n xs)) (join_with d xs)"
proof (induction d xs arbitrary: n rule: join_with.induct)
  case (3 d x y xs)
  show ?case
  proof (cases n)
    case (Suc m)
    then show ?thesis using "3.IH" [of m] by (cases m) auto
  qed simp
next
  case (2 d x)
  then show ?case by (cases n) auto
qed simp

subsection \<open>A read is bounded and located\<close>

lemma validate_path_ok:
  "validate_path v p = Inr n \<longleftrightarrow> n = normalize_relative_path p \<and> lexically_safe n \<and> rv_inside v n"
  by (auto simp: validate_path_def Let_def path_rules_agree)

text \<open>
  A read is bounded and located. A successful read is of a repository file under a safe path
  inside the worktree; it yields a beginning of the file's lines from the requested one on, within the
  limits on characters and lines and not past the requested last line, and its line numbers are those of
  the text it carries.
\<close>

theorem read_is_bounded_and_located:
  assumes "read_repository_file H v l path start end_line = Inr e" "0 < start" "0 < il_read_lines l"
  shows "ev_path e = normalize_relative_path path \<and> lexically_safe (ev_path e) \<and> rv_inside v (ev_path e)
    \<and> ev_path e \<in> set (repository_files v) \<and> evidence_valid H e \<and> length (ev_content e) \<le> il_chars l
    \<and> (\<exists>f m. rv_read v (ev_path e) = Some f \<and> ev_start e = Some start \<and> ev_end e = Some m
         \<and> m = start + count_list (ev_content e) newline \<and> m < start + il_read_lines l
         \<and> m \<le> length (splitlines (normalize_newlines (fl_text f)))
         \<and> (case end_line of Some n \<Rightarrow> m \<le> n | None \<Rightarrow> True)
         \<and> prefix (ev_content e) (join_with newline (drop (start - 1) (splitlines (normalize_newlines (fl_text f))))))"
proof -
  from assms(1) obtain f where p: "validate_path v path = Inr (normalize_relative_path path)"
    and listed_file: "normalize_relative_path path \<in> set (repository_files v)" "rv_read v (normalize_relative_path path) = Some f"
    by (auto simp: read_repository_file_def validate_path_ok split: sum.splits option.splits if_splits)
  define lines where "lines = splitlines (normalize_newlines (fl_text f))"
  define last_line where "last_line = start + il_read_lines l - 1"
  define requested where "requested = (case end_line of None \<Rightarrow> last_line | Some n \<Rightarrow> n)"
  define actual where "actual = min (min requested last_line) (length lines)"
  define shown where "shown = take (il_chars l) (join_with newline (drop (start - 1) (take actual lines)))"
  have run: "read_repository_file H v l path start end_line =
      (if char_of (0::nat) \<in> set (fl_text f) then Inl (INSPECTION (''binary files cannot be read: '' @ normalize_relative_path path))
       else if length lines < start then Inl (INSPECTION (line_count_error start (length lines) (normalize_relative_path path)))
       else if requested < start then Inl (INSPECTION ''end_line must not precede start_line'')
       else Inr (excerpt H ''EV-AGENT-READ-001'' (kind_of_path (normalize_relative_path path)) (normalize_relative_path path)
         (Some (start, start + count_list shown newline)) (commit_of v (normalize_relative_path path)) ''explicit agent file read'' shown))"
    unfolding read_repository_file_def p sum.case listed_file(2) option.case shown_def actual_def requested_def
      last_line_def lines_def Let_def
    using listed_file(1) by simp
  have b: "start \<le> length lines" "start \<le> requested"
    and e: "e = excerpt H ''EV-AGENT-READ-001'' (kind_of_path (normalize_relative_path path)) (normalize_relative_path path)
       (Some (start, start + count_list shown newline)) (commit_of v (normalize_relative_path path)) ''explicit agent file read'' shown"
    using assms(1) unfolding run by (simp_all split: if_splits)
  have a: "start \<le> actual" "actual \<le> requested" "actual < start + il_read_lines l" "actual \<le> length lines"
    using b assms(2,3) by (auto simp: actual_def last_line_def)
  have "count_list shown newline \<le> length (drop (start - 1) (take actual lines)) - 1"
  proof -
    have "\<forall>w \<in> set (drop (start - 1) (take actual lines)). newline \<notin> set w"
      using splitlines_plain plain_no_newline(1) unfolding lines_def by (meson in_set_dropD in_set_takeD)
    from count_join [OF this] show ?thesis unfolding shown_def using count_take [of "il_chars l"] by metis
  qed
  also have "\<dots> \<le> actual - start" using a(4) by simp
  finally have m: "start + count_list shown newline \<le> actual" using a(1) by simp
  have "drop (start - 1) (take actual lines) = take (actual - (start - 1)) (drop (start - 1) lines)"
    by (simp add: drop_take)
  then have "prefix shown (join_with newline (drop (start - 1) lines))"
    using join_take_prefix [of newline "actual - (start - 1)" "drop (start - 1) lines"] take_is_prefix
      prefix_order.trans unfolding shown_def by metis
  moreover have "case end_line of Some n \<Rightarrow> start + count_list shown newline \<le> n | None \<Rightarrow> True"
    using m a(2) by (auto simp: requested_def split: option.splits)
  moreover have "length shown \<le> il_chars l" by (simp add: shown_def)
  ultimately show ?thesis
    using p listed_file m a assms(2) by (simp add: e excerpt_def evidence_valid_def validate_path_ok lines_def [symmetric])
qed

definition sample_view :: repo_view where
  "sample_view = \<lparr>rv_head = [], rv_status = [], rv_files = ''a'', rv_cached = [], rv_others = [], rv_diff = [],
     rv_read = (\<lambda>p. if p = ''a'' then Some \<lparr>fl_text = ''xy'', fl_utf8 = True\<rparr> else None), rv_symlink = (\<lambda>_. False),
     rv_exists = (\<lambda>p. p = ''a''), rv_inside = (\<lambda>_. True), rv_ripgrep = (\<lambda>_ _. Rg_Unavailable)\<rparr>"

lemma sample_view_path:
  "normalize_relative_path ''a'' = ''a''" "is_safe_relative_path ''a''" "repository_files sample_view = [''a'']"
proof -
  have n: "normalize_relative_path ''a'' = ''a''" "char_of (0::nat) \<notin> set ''a''" "pure_parts ''a'' = [''a'']"
    "\<not> drive_qualified ''a''" "\<not> starts_with ''a'' ''/''"
    by (simp_all add: normalize_relative_path_def replace_char_def backslash_char nul_char_iff pure_parts_def
        drive_qualified_def starts_with_def)
  then show "normalize_relative_path ''a'' = ''a''" by blast
  from n show s: "is_safe_relative_path ''a''" unfolding is_safe_relative_path_def by (simp add: forbidden_top_level_def)
  have "listed ''a'' = [''a'']" unfolding listed_def split_on_plain [OF n(2)] by simp
  with n(1) s show "repository_files sample_view = [''a'']" by (simp add: repository_files_def sample_view_def)
qed

lemma sample_view_fields:
  "rv_inside sample_view p" "rv_read sample_view ''a'' = Some \<lparr>fl_text = ''xy'', fl_utf8 = True\<rparr>"
  "rv_exists sample_view p \<longleftrightarrow> p = ''a''"
  by (simp_all add: sample_view_def)

theorem read_is_bounded_and_located_witness:
  "\<exists>e. read_repository_file id sample_view \<lparr>il_search_results = 1, il_read_lines = 1, il_chars = 1\<rparr> ''a'' 1 None = Inr e
     \<and> length (ev_content e) \<le> 1"
proof -
  have "char_of (0::nat) \<notin> set ''xy''" by (simp add: nul_char_iff)
  moreover have "splitlines (normalize_newlines ''xy'') = [''xy'']"
  proof -
    have "plain ''xy''" by (simp add: is_line_end_def)
    from normalize_newlines_id [OF plain_no_newline(2) [OF this]] splitlines_one [OF this] show ?thesis by simp
  qed
  ultimately obtain e where
    e: "read_repository_file id sample_view \<lparr>il_search_results = 1, il_read_lines = 1, il_chars = 1\<rparr> ''a'' 1 None = Inr e"
    by (simp add: read_repository_file_def validate_path_def sample_view_path sample_view_fields Let_def)
  from read_is_bounded_and_located [OF e] have "length (ev_content e) \<le> 1" by simp
  with e show ?thesis by blast
qed

end
