(* ===== verification/Created_Files.thy ===== *)
theory Created_Files
  imports Inspection_Facts
begin

section \<open>From create_file to a parsed patch (agent/inspection.py, patches/diff_parser.py)\<close>

text \<open>
  The composition of \<open>new_file_patch\<close> with the parser of unified diffs: what the model asked to
  create is what the parsed patch creates, for contents whose only line boundary is the newline.
\<close>

definition simple_path :: "path \<Rightarrow> bool" where
  "simple_path p = (p \<noteq> [] \<and> (\<forall>c \<in> set p. \<not> is_space_char c \<and> \<not> shlex_quote c \<and> c \<noteq> backslash))"

definition created_lines :: "path \<Rightarrow> string list \<Rightarrow> string list" where
  "created_lines p ls =
     [''diff --git a/'' @ p @ '' b/'' @ p, ''new file mode 100644'', ''--- /dev/null'', ''+++ b/'' @ p,
      ''@@ -0,0 +1,'' @ decimal (length ls) @ '' @@''] @ map (\<lambda>l. CHR ''+'' # l) ls"

subsection \<open>Words and digits\<close>

lemma space_covers: "\<not> is_space_char c \<Longrightarrow> \<not> shlex_space c" "\<not> is_space_char c \<Longrightarrow> \<not> is_line_end c"
  by (auto simp: is_space_char_def shlex_space_def is_line_end_def Let_def)

lemma shlex_word:
  "\<forall>c \<in> set w. \<not> is_space_char c \<and> \<not> shlex_quote c \<and> c \<noteq> backslash \<Longrightarrow>
     shlex_run Word q tok (w @ s) = shlex_run Word q (rev w @ tok) s"
  by (induction w arbitrary: tok) (auto simp: space_covers)

lemma shlex_word_then:
  assumes "\<forall>c \<in> set w. \<not> is_space_char c \<and> \<not> shlex_quote c \<and> c \<noteq> backslash" "w \<noteq> []"
  shows "shlex_run Between q tok (w @ CHR '' '' # s) = map_option (\<lambda>ws. w # ws) (shlex_run Between False [] s)"
    "shlex_run Between q tok w = Some [w]"
proof -
  obtain c r where w: "w = c # r" using assms(2) by (cases w) auto
  have sp: "shlex_space (CHR '' '')" by (simp add: shlex_space_def)
  have r: "shlex_run Word False [c] (r @ s') = shlex_run Word False (rev r @ [c]) s'" for s'
    by (rule shlex_word) (use assms(1) w in simp)
  show "shlex_run Between q tok (w @ CHR '' '' # s) = map_option (\<lambda>ws. w # ws) (shlex_run Between False [] s)"
    using assms(1) w r [of "CHR '' '' # s"] sp by (simp add: space_covers)
  show "shlex_run Between q tok w = Some [w]"
    using assms(1) w r [of "[]"] by (simp add: space_covers)
qed

lemma created_decimal_digits: "\<forall>c \<in> set (decimal n). is_digit c"
proof (induction n rule: decimal.induct)
  case (1 n)
  have d: "is_digit (char_of (48 + m :: nat))" if "m < 10" for m :: nat
    using that by (simp add: is_digit_def)
  show ?case
    by (subst decimal.simps) (use 1 d in auto)
qed

lemma created_decimal_nonempty: "decimal n \<noteq> []"
  by (subst decimal.simps) simp

lemma digit_plain: "is_digit c \<Longrightarrow> \<not> is_line_end c"
  by (auto simp: is_digit_def is_line_end_def)

lemma drop_digits: "dropWhile is_digit (decimal n @ CHR '' '' # s) = CHR '' '' # s"
proof -
  have "\<not> is_digit (CHR '' '')" by (simp add: is_digit_def)
  then show ?thesis using created_decimal_digits [of n] by (induction "decimal n") (auto simp: dropWhile_append2)
qed

subsection \<open>The five header lines\<close>

lemma simple_path_plain: "simple_path p \<Longrightarrow> plain p"
  by (auto simp: simple_path_def plain_def space_covers)

lemma created_lines_plain:
  assumes "simple_path p" "list_all plain ls"
  shows "list_all plain (created_lines p ls)"
proof -
  have "plain (decimal n)" for n using created_decimal_digits [of n] by (simp add: plain_def digit_plain)
  with assms simple_path_plain [OF assms(1)] show ?thesis by (auto simp: created_lines_def list_all_iff is_line_end_def)
qed

lemma section_of_created: "section_paths (map (\<lambda>l. l @ [newline]) (created_lines p ls)) = Inr (p, p)"
  if "simple_path p" for p ls
proof -
  have ok: "\<forall>c \<in> set (''a/'' @ p). \<not> is_space_char c \<and> \<not> shlex_quote c \<and> c \<noteq> backslash"
    "\<forall>c \<in> set (''b/'' @ p). \<not> is_space_char c \<and> \<not> shlex_quote c \<and> c \<noteq> backslash"
    "\<forall>c \<in> set ''diff''. \<not> is_space_char c \<and> \<not> shlex_quote c \<and> c \<noteq> backslash"
    "\<forall>c \<in> set ''--git''. \<not> is_space_char c \<and> \<not> shlex_quote c \<and> c \<noteq> backslash"
    using that by (auto simp: simple_path_def is_space_char_def shlex_quote_def backslash_char)
  have st: "strip (''diff --git a/'' @ p @ '' b/'' @ p @ [newline]) = ''diff'' @ CHR '' '' # ''--git'' @ CHR '' '' # (''a/'' @ p) @ CHR '' '' # (''b/'' @ p)"
  proof -
    have "is_space_char newline" by (simp add: is_space_char_def newline_def)
    moreover have "\<not> is_space_char (hd (rev p))" using that by (simp add: simple_path_def hd_rev)
    moreover have "rev p \<noteq> []" using that by (simp add: simple_path_def)
    moreover have "\<not> is_space_char (CHR ''d'')" by (simp add: is_space_char_def)
    ultimately show ?thesis
      by (cases "rev p") (auto simp: strip_def lstrip_def rstrip_def)
  qed
  have "shlex_split (strip (''diff --git a/'' @ p @ '' b/'' @ p @ [newline])) = Some [''diff'', ''--git'', ''a/'' @ p, ''b/'' @ p]"
    unfolding st shlex_split_def
    by (subst shlex_word_then(1) [OF ok(3)], simp, subst shlex_word_then(1) [OF ok(4)], simp,
        subst shlex_word_then(1) [OF ok(1)], simp, subst shlex_word_then(2) [OF ok(2)], simp, simp)
  then show ?thesis by (simp add: section_paths_def created_lines_def strip_prefix_def after_prefix_def starts_with_def)
qed

subsection \<open>Joined lines\<close>

abbreviation joined :: "string list \<Rightarrow> string" where
  "joined \<equiv> join_with newline"

lemma joined_snoc: "joined (xs @ [y]) = lines_text xs @ y"
proof (induction xs)
  case (Cons x xs)
  then show ?case by (cases xs) auto
qed simp

lemma joined_append: "ys \<noteq> [] \<Longrightarrow> joined (xs @ ys) = lines_text xs @ joined ys"
proof (induction xs)
  case (Cons x xs)
  then show ?case by (cases "xs @ ys") auto
qed simp

lemma set_joined: "set (joined xs) \<subseteq> (\<Union>x \<in> set xs. set x) \<union> {newline}"
  by (induction newline xs rule: join_with.induct) auto

lemma joined_no_carriage: "list_all plain xs \<Longrightarrow> carriage \<notin> set (joined xs)"
proof -
  assume "list_all plain xs"
  moreover have "carriage \<noteq> newline" by (simp add: carriage_def newline_def)
  ultimately show ?thesis using set_joined [of xs] plain_no_newline(2) by (fastforce simp: list_all_iff)
qed

lemma split_joined: "xs \<noteq> [] \<Longrightarrow> list_all plain xs \<Longrightarrow> split_on newline (joined xs) = xs"
  by (rule split_join) (auto simp: list_all_iff dest: plain_no_newline(1))

lemma sections_single: "P x \<Longrightarrow> \<forall>y \<in> set xs. \<not> P y \<Longrightarrow> sections P (x # xs) = [x # xs]"
proof -
  assume x: "P x" and xs: "\<forall>y \<in> set xs. \<not> P y"
  have "sections P xs = []" using xs by (induction xs) auto
  with x xs show ?thesis by (simp add: takeWhile_eq_all_conv [THEN iffD2])
qed

lemma blank_context_id: "[] \<notin> set ls \<Longrightarrow> blank_context h ls = ls"
  by (induction ls arbitrary: h) auto

subsection \<open>Normalising the built patch\<close>

definition raw_lines :: "path \<Rightarrow> string list \<Rightarrow> string list" where
  "raw_lines p ls =
     [''diff --git a/'' @ p @ '' b/'' @ p, ''new file mode 100644'', ''--- /dev/null'', ''+++ b/'' @ p,
      ''@@ -0,0 +1'' @ (if length ls = 1 then [] else CHR '','' # decimal (length ls)) @ '' @@'']
     @ map (\<lambda>l. CHR ''+'' # l) ls"

lemma decimal_plain: "plain (decimal n)"
  using created_decimal_digits [of n] by (simp add: plain_def digit_plain)

lemma raw_lines_plain: "simple_path p \<Longrightarrow> list_all plain ls \<Longrightarrow> list_all plain (raw_lines p ls)"
  using simple_path_plain [of p] decimal_plain by (auto simp: raw_lines_def list_all_iff is_line_end_def)

lemma header_suffix: "new_file_header_suffix (''@@ -0,0 +1'' @ (if length ls = 1 then [] else CHR '','' # decimal (length ls)) @ '' @@'') = Some []"
proof -
  have one: "after_digits (CHR ''1'' # s) = Some (dropWhile is_digit s)" for s
    by (simp add: after_digits_def is_digit_def)
  have dec: "after_digits (decimal n @ '' @@'') = Some '' @@''" for n
    using created_decimal_nonempty [of n] created_decimal_digits [of n] drop_digits [of n "''@@''"]
    by (cases "decimal n") (auto simp: after_digits_def)
  have nd: "\<not> is_digit (CHR '','')" "\<not> is_digit (CHR '' '')" by (simp_all add: is_digit_def)
  show ?thesis
    by (auto simp: new_file_header_suffix_def after_prefix_def after_optional_count_def starts_with_def one dec nd)
qed

lemma canonical_raw: "ls \<noteq> [] \<Longrightarrow> canonical_chunk (raw_lines p ls) = created_lines p ls"
proof -
  assume ne: "ls \<noteq> []"
  let ?h = "''@@ -0,0 +1'' @ (if length ls = 1 then [] else CHR '','' # decimal (length ls)) @ '' @@''"
  let ?pre = "[''diff --git a/'' @ p @ '' b/'' @ p, ''new file mode 100644'', ''--- /dev/null'', ''+++ b/'' @ p]"
  let ?plus = "map (\<lambda>l. CHR ''+'' # l) ls"
  have r: "raw_lines p ls = ?pre @ ?h # ?plus" by (simp add: raw_lines_def)
  have h: "hunk_line ?h" by (simp add: hunk_line_def starts_with_def)
  have pre: "\<forall>l \<in> set ?pre. \<not> hunk_line l" by (simp add: hunk_line_def starts_with_def)
  have plus: "\<forall>l \<in> set ?plus. \<not> hunk_line l" by (auto simp: hunk_line_def starts_with_def)
  have "is_text_new_file (raw_lines p ls)"
    by (auto simp: is_text_new_file_def r list_ex_iff text_simps)
  moreover have "length (filter hunk_line (raw_lines p ls)) = 1"
    using h pre plus by (simp only: r filter_append) (simp add: filter_False)
  moreover have "dropWhile (\<lambda>l. \<not> hunk_line l) (raw_lines p ls) = ?h # ?plus"
    "takeWhile (\<lambda>l. \<not> hunk_line l) (raw_lines p ls) = ?pre"
    using h pre unfolding r by (simp_all add: dropWhile_append2 takeWhile_append2)
  moreover have "filter (\<lambda>l. l \<noteq> no_newline_marker) ?plus = ?plus"
    by (rule filter_True) (simp add: no_newline_marker_def backslash_char)
  moreover have "map mark_added ?plus = ?plus" by (simp add: mark_added_def starts_with_def)
  ultimately show ?thesis
    using ne header_suffix [of ls] by (simp add: canonical_chunk_def Let_def created_lines_def)
qed

text \<open>The content that has these lines, with or without a final newline, ending in a visible character.\<close>

definition content_of_lines :: "string list \<Rightarrow> string \<Rightarrow> bool" where
  "content_of_lines ls c =
     (ls \<noteq> [] \<and> list_all plain ls \<and> last ls \<noteq> [] \<and> \<not> is_space_char (last (last ls))
      \<and> (c = joined ls \<or> c = lines_text ls))"

lemma rev_joined_last:
  assumes "content_of_lines ls c"
  shows "\<exists>r. rev (joined ls) = last (last ls) # r" "\<not> is_blank_end (last (last ls))" "last (last ls) \<noteq> newline"
proof -
  have ls: "ls = butlast ls @ [last ls]" "last ls = butlast (last ls) @ [last (last ls)]"
    using assms by (simp_all add: content_of_lines_def)
  have "joined ls = (lines_text (butlast ls) @ butlast (last ls)) @ [last (last ls)]"
    by (metis append.assoc joined_snoc ls)
  then show "\<exists>r. rev (joined ls) = last (last ls) # r" by simp
  show "\<not> is_blank_end (last (last ls))" "last (last ls) \<noteq> newline"
    using assms by (auto simp: content_of_lines_def is_blank_end_def is_space_char_def newline_def carriage_def)
qed

lemma canonical_eof_content:
  assumes "content_of_lines ls c"
  shows "canonical_eof (normalize_newlines c) = c" "c \<noteq> []"
proof -
  from rev_joined_last [OF assms] obtain r where r: "rev (joined ls) = last (last ls) # r"
    and b: "\<not> is_blank_end (last (last ls))" "last (last ls) \<noteq> newline" by blast
  have c: "c = joined ls \<or> c = joined ls @ [newline]"
    using assms lines_text_join [of ls] by (auto simp: content_of_lines_def)
  have nl: "is_blank_end newline" by (simp add: is_blank_end_def)
  have "carriage \<notin> set (joined ls)" using assms joined_no_carriage by (simp add: content_of_lines_def)
  moreover have "carriage \<noteq> newline" by (simp add: carriage_def newline_def)
  ultimately have n: "normalize_newlines c = c" using c by (intro normalize_newlines_id) auto
  have j: "joined ls = rev (last (last ls) # r)" by (metis r rev_rev_ident)
  show "canonical_eof (normalize_newlines c) = c"
    using c
  proof
    assume c: "c = joined ls"
    have "\<not> ends_with c [newline]" using b(2) unfolding c j by (auto simp: ends_with_def)
    with b show ?thesis unfolding n by (simp add: canonical_eof_def c j)
  next
    assume c: "c = joined ls @ [newline]"
    have "ends_with c [newline]" unfolding c by (simp add: ends_with_def)
    with b nl show ?thesis unfolding n by (simp add: canonical_eof_def c j)
  qed
  show "c \<noteq> []" using c j by auto
qed

lemma added_body:
  assumes "content_of_lines ls c"
  shows "concat (map (\<lambda>x. CHR ''+'' # x) (splitlines_keep c)) \<in> {joined (map (\<lambda>l. CHR ''+'' # l) ls), lines_text (map (\<lambda>l. CHR ''+'' # l) ls)}"
    "length (splitlines_keep c) = length ls"
proof -
  have a: "ls \<noteq> []" "list_all plain ls" "last ls \<noteq> []" using assms by (auto simp: content_of_lines_def)
  then have ls: "ls = butlast ls @ [last ls]" by simp
  have pl: "list_all plain (butlast ls)" "plain (last ls)" using a(1,2) by (auto simp: list_all_iff dest: in_set_butlastD)
  have k: "c = lines_text ls \<Longrightarrow> splitlines_keep c = map (\<lambda>l. l @ [newline]) ls"
    using splitlines_keep_text [OF a(2)] by simp
  have k': "c = joined ls \<Longrightarrow> splitlines_keep c = map (\<lambda>l. l @ [newline]) (butlast ls) @ [last ls]"
    using splitlines_keep_text_last [OF pl a(3)] joined_snoc ls by metis
  have "concat (map (\<lambda>x. CHR ''+'' # x) (map (\<lambda>l. l @ [newline]) ms)) = lines_text (map (\<lambda>l. CHR ''+'' # l) ms)" for ms
    by (simp add: lines_text_def o_def)
  moreover have "map (\<lambda>l. CHR ''+'' # l) ls = map (\<lambda>l. CHR ''+'' # l) (butlast ls) @ [CHR ''+'' # last ls]"
    by (subst ls) simp
  ultimately show "concat (map (\<lambda>x. CHR ''+'' # x) (splitlines_keep c)) \<in> {joined (map (\<lambda>l. CHR ''+'' # l) ls), lines_text (map (\<lambda>l. CHR ''+'' # l) ls)}"
    using assms k k' by (auto simp: content_of_lines_def joined_snoc)
  show "length (splitlines_keep c) = length ls"
    using assms k k' a by (auto simp: content_of_lines_def)
qed

lemma new_file_patch_built:
  assumes "content_of_lines ls c" "char_of (0::nat) \<notin> set c" "validate_path v path = Inr p" "\<not> rv_exists v p"
  shows "new_file_patch v path c \<in> {Inr (joined (raw_lines p ls)), Inr (joined (raw_lines p ls) @ [newline])}"
proof -
  have ne: "ls \<noteq> []" using assms(1) by (simp add: content_of_lines_def)
  have sk: "splitlines_keep c \<noteq> []" using added_body(2) [OF assms(1)] ne by auto
  define plus where "plus = map (\<lambda>l. CHR ''+'' # l) ls"
  have plus: "plus \<noteq> []" using ne by (simp add: plus_def)
  define header where "header = [''diff --git a/'' @ p @ '' b/'' @ p, ''new file mode 100644'', ''--- /dev/null'', ''+++ b/'' @ p,
      ''@@ -0,0 +1'' @ (if length ls = 1 then [] else CHR '','' # decimal (length ls)) @ '' @@'']"
  have raw: "raw_lines p ls = header @ plus" by (simp add: raw_lines_def header_def plus_def)
  have "new_file_patch v path c = Inr (lines_text header @ concat (map (\<lambda>x. CHR ''+'' # x) (splitlines_keep c)))"
    using assms(2,3,4) canonical_eof_content [OF assms(1)] sk added_body(2) [OF assms(1)]
    by (simp add: new_file_patch_def unified_diff_of_new_def header_def Let_def)
  moreover have "lines_text header @ joined plus = joined (raw_lines p ls)" using joined_append [OF plus, of header] raw by simp
  moreover have "lines_text header @ lines_text plus = joined (raw_lines p ls) @ [newline]"
    using lines_text_join [of "header @ plus"] plus raw by simp
  ultimately show ?thesis using added_body(1) [OF assms(1)] unfolding plus_def [symmetric] by auto
qed

subsection \<open>The parse\<close>

lemma raw_lines_ends:
  assumes "ls \<noteq> []" "last ls \<noteq> []" "\<not> is_space_char (last (last ls))"
  shows "strip (joined (raw_lines p ls)) = joined (raw_lines p ls)"
    "strip (joined (raw_lines p ls) @ [newline]) = joined (raw_lines p ls)"
proof -
  have d: "\<exists>s. joined (raw_lines p ls) = CHR ''d'' # s" by (simp add: raw_lines_def)
  have "raw_lines p ls \<noteq> []" by (simp add: raw_lines_def)
  moreover have "last (raw_lines p ls) = CHR ''+'' # last ls" using assms(1) by (simp add: raw_lines_def last_map)
  ultimately obtain w where "raw_lines p ls = w @ [CHR ''+'' # last ls]" by (metis append_butlast_last_id)
  then have "joined (raw_lines p ls) = lines_text w @ CHR ''+'' # last ls" by (simp add: joined_snoc)
  moreover obtain x where "last ls = x @ [last (last ls)]" using assms(2) by (metis append_butlast_last_id)
  ultimately have "joined (raw_lines p ls) = (lines_text w @ CHR ''+'' # x) @ [last (last ls)]" by simp
  then obtain r where r: "rev (joined (raw_lines p ls)) = last (last ls) # r" by simp
  have sp: "is_space_char newline" "\<not> is_space_char (CHR ''d'')" by (simp_all add: is_space_char_def newline_def)
  have j: "joined (raw_lines p ls) = rev (last (last ls) # r)" by (metis r rev_rev_ident)
  have l: "lstrip (joined (raw_lines p ls)) = joined (raw_lines p ls)"
    "lstrip (joined (raw_lines p ls) @ [newline]) = joined (raw_lines p ls) @ [newline]"
    using d sp by (auto simp: lstrip_def)
  show "strip (joined (raw_lines p ls)) = joined (raw_lines p ls)"
    "strip (joined (raw_lines p ls) @ [newline]) = joined (raw_lines p ls)"
    unfolding strip_def l using assms(3) sp j by (simp_all add: rstrip_def)
qed

lemma unfenced_raw:
  assumes "ls \<noteq> []" "simple_path p" "list_all plain ls"
  shows "unfenced (joined (raw_lines p ls)) = joined (raw_lines p ls)"
proof -
  let ?s = "joined (raw_lines p ls)"
  have "\<not> starts_with ?s fence" by (simp add: raw_lines_def fence_def starts_with_def numeral_3_eq_3)
  moreover have "\<not> ends_with ?s (newline # fence)"
  proof
    assume "ends_with ?s (newline # fence)"
    then obtain u where u: "?s = u @ newline # fence" unfolding ends_with_def by (metis append_take_drop_id)
    have "raw_lines p ls \<noteq> []" by (simp add: raw_lines_def)
    from split_joined [OF this raw_lines_plain [OF assms(2,3)]]
    have "last (raw_lines p ls) = last (split_on newline fence)" using u last_split_after [of newline u fence] by simp
    moreover have "newline \<notin> set fence" by (simp add: fence_def newline_def char_of_eq_iff)
    ultimately have "last (raw_lines p ls) = fence" by (simp add: split_on_plain)
    with assms(1) show False by (simp add: raw_lines_def last_map fence_def numeral_3_eq_3)
  qed
  ultimately show ?thesis by (simp add: unfenced_def fenced_body_def)
qed

lemma canonical_patch_raw:
  assumes "ls \<noteq> []" "simple_path p" "list_all plain ls"
  shows "canonical_patch (joined (raw_lines p ls)) = lines_text (created_lines p ls)"
proof -
  have "raw_lines p ls \<noteq> []" by (simp add: raw_lines_def)
  note sp = split_joined [OF this raw_lines_plain [OF assms(2,3)]]
  have "sections (\<lambda>l. starts_with l diff_git) (raw_lines p ls) = [raw_lines p ls]"
    unfolding raw_lines_def append_Cons by (rule sections_single) (auto simp: diff_git_def starts_with_def)
  then have c: "canonicalize_new_file_hunks (joined (raw_lines p ls)) = joined (created_lines p ls)"
    by (simp add: canonicalize_new_file_hunks_def sp canonical_raw [OF assms(1)])
  have ne: "created_lines p ls \<noteq> []" "[] \<notin> set (created_lines p ls)" by (auto simp: created_lines_def)
  have "canonicalize_blank_context_lines (joined (created_lines p ls)) = joined (created_lines p ls)"
    unfolding canonicalize_blank_context_lines_def split_joined [OF ne(1) created_lines_plain [OF assms(2,3)]]
    by (simp add: blank_context_id ne(2))
  then show ?thesis by (simp add: canonical_patch_def c lines_text_join ne(1))
qed

lemma strip_newline: "strip (s @ [newline]) = strip s"
proof -
  have sp: "is_space_char newline" by (simp add: is_space_char_def newline_def)
  show ?thesis
  proof (cases "\<forall>c \<in> set s. is_space_char c")
    case True
    then have "dropWhile is_space_char (s @ [newline]) = []" "dropWhile is_space_char s = []"
      using sp by (simp_all only: dropWhile_eq_Nil_conv) simp
    then show ?thesis by (simp only: strip_def lstrip_def)
  next
    case False
    then have "dropWhile is_space_char (s @ [newline]) = dropWhile is_space_char s @ [newline]"
      by (auto simp: dropWhile_append)
    then show ?thesis using sp by (simp add: strip_def lstrip_def rstrip_def)
  qed
qed

definition names_null :: "string \<Rightarrow> bool" where
  "names_null l = (starts_with l ''++ '' \<and> strip (drop 3 l) = ''/dev/null'')"

definition created_section :: "path \<Rightarrow> string list \<Rightarrow> parsed_file" where
  "created_section p ls = \<lparr>pf_old = None, pf_new = Some p, pf_added = length (filter (\<lambda>l. \<not> starts_with l ''++'') ls),
     pf_deleted = 0, pf_is_new = True, pf_is_deleted = False, pf_binary = False, pf_symlink = False\<rparr>"

lemma parse_created:
  assumes "simple_path p" "\<forall>l \<in> set ls. \<not> names_null l"
  shows "parse_file (map (\<lambda>l. l @ [newline]) (created_lines p ls)) = Inr (created_section p ls)"
proof -
  let ?K = "map (\<lambda>l. l @ [newline]) (created_lines p ls)"
  let ?pre = "[''diff --git a/'' @ p @ '' b/'' @ p @ [newline], ''new file mode 100644'' @ [newline],
    ''--- /dev/null'' @ [newline], ''+++ b/'' @ p @ [newline]]"
  let ?h = "''@@ -0,0 +1,'' @ decimal (length ls) @ '' @@'' @ [newline]"
  let ?plus = "map (\<lambda>l. CHR ''+'' # l @ [newline]) ls"
  have K: "?K = ?pre @ ?h # ?plus" by (simp add: created_lines_def)
  have h: "hunk_line ?h" "\<forall>l \<in> set ?pre. \<not> hunk_line l" "\<forall>l \<in> set ?plus. \<not> hunk_line l"
    by (auto simp: hunk_line_def starts_with_def)
  have "dropWhile (\<lambda>l. \<not> hunk_line l) ?K = ?h # ?plus"
    using h(1,2) unfolding K by (simp add: dropWhile_append2)
  then have "hunk_body ?K = ?plus"
    using h(1,3) by (simp add: hunk_body_def filter_id_conv)
  then have un: "unmarked_line False ?K = None"
    by (auto simp: unmarked_outside hunk_marker_def text_simps)
  have null: "strip (''/dev/null'' @ [newline]) = ''/dev/null''"
    unfolding strip_newline by (simp add: strip_def lstrip_def rstrip_def is_space_char_def)
  have old: "list_ex (null_line ''--- '') ?K"
    unfolding K using null by (simp add: null_line_def starts_with_def)
  have bp: "strip (''b/'' @ p @ [newline]) \<noteq> ''/dev/null''"
  proof -
    have "lstrip (''b/'' @ p) = ''b/'' @ p" by (simp add: lstrip_def is_space_char_def)
    moreover have "rstrip (''b/'' @ p) = ''b/'' @ p"
    proof -
      have "\<not> is_space_char (hd (rev p))" "rev p \<noteq> []" using assms(1) by (simp_all add: simple_path_def hd_rev)
      then show ?thesis by (cases "rev p") (auto simp: rstrip_def)
    qed
    ultimately show ?thesis using strip_newline [of "''b/'' @ p"] by (simp add: strip_def)
  qed
  have "\<not> null_line ''+++ '' (CHR ''+'' # l @ [newline])" if "\<not> names_null l" for l
  proof
    assume n: "null_line ''+++ '' (CHR ''+'' # l @ [newline])"
    then have st: "starts_with (l @ [newline]) ''++ ''" by (simp add: null_line_def starts_with_def)
    have "length l \<ge> 3 \<or> length l < 3" by auto
    moreover have "\<not> length l < 3"
    proof
      assume "length l < 3"
      then have "newline \<in> set (take 3 (l @ [newline]))" by simp
      moreover have "take 3 (l @ [newline]) = ''++ ''" using st by (simp add: starts_with_def numeral_3_eq_3)
      moreover have "newline \<notin> set ''++ ''" by (simp add: newline_def char_of_eq_iff)
      ultimately show False by metis
    qed
    ultimately have "starts_with l ''++ ''" "strip (drop 3 l) = ''/dev/null''"
      using n st strip_newline [of "drop 3 l"] by (auto simp: null_line_def starts_with_def)
    with that show False by (simp add: names_null_def)
  qed
  then have new: "\<not> list_ex (null_line ''+++ '') ?K"
    unfolding K using bp assms(2) by (auto simp: list_ex_iff null_line_def starts_with_def)
  have bin: "\<not> list_ex (\<lambda>l. starts_with_any l [''GIT binary patch'', ''Binary files '']) ?K"
    "list_ex (\<lambda>l. starts_with l ''new file mode '') ?K" "\<not> list_ex (\<lambda>l. starts_with l ''deleted file mode '') ?K"
    "\<not> list_ex (\<lambda>l. starts_with_any l [''new file mode 120000'', ''new mode 120000'']) ?K" "list_ex hunk_line ?K"
    unfolding K using h(1) by (auto simp: list_ex_iff text_simps)
  have "filter added_line ?K = filter added_line ?plus" "filter deleted_line ?K = []"
    unfolding K by (auto simp: added_line_def deleted_line_def starts_with_def filter_empty_conv)
  moreover have "length (filter added_line ?plus) = length (filter (\<lambda>l. \<not> starts_with l ''++'') ls)"
  proof -
    have "added_line (CHR ''+'' # l @ [newline]) \<longleftrightarrow> \<not> starts_with l ''++''" for l
    proof -
      have "newline \<noteq> CHR ''+''" by (simp add: newline_def char_of_eq_iff)
      then show ?thesis
        by (cases l; cases "tl l") (auto simp: added_line_def starts_with_def)
    qed
    then show ?thesis by (induction ls) auto
  qed
  ultimately show ?thesis
    using old new bin un section_of_created [OF assms(1), of ls]
    by (simp add: parse_file_def Let_def created_section_def)
qed

subsection \<open>Properties\<close>



text \<open>
  Outside that class the round trip fails: a form feed inside the content is a line boundary of
  Python but not of git, so the patch carries the text with a plus sign after the form feed.
\<close>

lemma form_feed_gains_a_plus:
  "validate_path v path = Inr p \<Longrightarrow> \<not> rv_exists v p \<Longrightarrow>
     \<exists>s. new_file_patch v path [CHR ''a'', CHR 0x0C, CHR ''b''] = Inr (s @ [CHR ''+'', CHR ''a'', CHR 0x0C, CHR ''+'', CHR ''b''])"
proof -
  assume a: "validate_path v path = Inr p" "\<not> rv_exists v p"
  have nul: "char_of (0::nat) \<notin> set [CHR ''a'', CHR 0x0C, CHR ''b'']" by (simp add: nul_char_iff)
  have eof: "canonical_eof (normalize_newlines [CHR ''a'', CHR 0x0C, CHR ''b'']) = [CHR ''a'', CHR 0x0C, CHR ''b'']"
    by code_simp
  have keep: "splitlines_keep [CHR ''a'', CHR 0x0C, CHR ''b''] = [[CHR ''a'', CHR 0x0C], ''b'']" by code_simp
  from a nul show ?thesis by (simp add: new_file_patch_def eof keep unified_diff_of_new_def Let_def)
qed

end
