(* ===== verification/Effects.thy ===== *)
theory Effects
  imports Prelude
begin

section \<open>Stateful code that may raise\<close>

text \<open>
  The shape of a method of a mutable object: a function of the state that returns a value or
  raises, with the state after it in both cases. Sequencing, \<open>try/except\<close> and loops over lists are
  written with the combinators below; what a method guarantees is a triple of a precondition, a
  postcondition for a return and one for a raised exception.
\<close>

type_synonym ('e, 's, 'a) action = "'s \<Rightarrow> ('e + 'a) \<times> 's"

definition pure :: "'a \<Rightarrow> ('e, 's, 'a) action" where
  "pure x s = (Inr x, s)"

definition raising :: "'e \<Rightarrow> ('e, 's, 'a) action" where
  "raising e s = (Inl e, s)"

definition bnd :: "('e, 's, 'a) action \<Rightarrow> ('a \<Rightarrow> ('e, 's, 'b) action) \<Rightarrow> ('e, 's, 'b) action" where
  "bnd m f s = (case m s of (Inl e, s') \<Rightarrow> (Inl e, s') | (Inr x, s') \<Rightarrow> f x s')"

definition try_except :: "('e, 's, 'a) action \<Rightarrow> ('e \<Rightarrow> ('f, 's, 'a) action) \<Rightarrow> ('f, 's, 'a) action" where
  "try_except m h s = (case m s of (Inl e, s') \<Rightarrow> h e s' | (Inr x, s') \<Rightarrow> (Inr x, s'))"

definition reading :: "('s \<Rightarrow> 'a) \<Rightarrow> ('e, 's, 'a) action" where
  "reading f s = (Inr (f s), s)"

definition assign :: "('s \<Rightarrow> 's) \<Rightarrow> ('e, 's, unit) action" where
  "assign f s = (Inr (), f s)"

text \<open>A call that only reads the state and may raise.\<close>

definition asking :: "('s \<Rightarrow> 'e + 'a) \<Rightarrow> ('e, 's, 'a) action" where
  "asking f s = (f s, s)"

subsection \<open>Evaluation\<close>

lemma effect_simps [simp]:
  "pure x s = (Inr x, s)" "raising e s = (Inl e, s)" "reading f s = (Inr (f s), s)" "assign g s = (Inr (), g s)"
  "asking h s = (h s, s)"
  by (simp_all add: pure_def raising_def reading_def assign_def asking_def)

lemma bnd_simps:
  "m s = (Inl e, s') \<Longrightarrow> bnd m f s = (Inl e, s')"
  "m s = (Inr x, s') \<Longrightarrow> bnd m f s = f x s'"
  by (simp_all add: bnd_def)

lemma try_simps:
  "m s = (Inl e, s') \<Longrightarrow> try_except m h s = h e s'"
  "m s = (Inr x, s') \<Longrightarrow> try_except m h s = (Inr x, s')"
  by (simp_all add: try_except_def)

lemma bnd_first [simp]:
  "bnd (pure x) f = f x" "bnd (raising e) f = raising e"
  "bnd (reading g) k s = k (g s) s" "bnd (assign u) f s = f () (u s)"
  by (simp_all add: bnd_def fun_eq_iff)

lemma bnd_assoc: "bnd (bnd m f) g = bnd m (\<lambda>x. bnd (f x) g)"
  by (auto simp: bnd_def fun_eq_iff split: prod.split sum.split)

subsection \<open>Triples\<close>

definition triple ::
  "('s \<Rightarrow> bool) \<Rightarrow> ('e, 's, 'a) action \<Rightarrow> ('a \<Rightarrow> 's \<Rightarrow> bool) \<Rightarrow> ('e \<Rightarrow> 's \<Rightarrow> bool) \<Rightarrow> bool" where
  "triple P m Q R = (\<forall>s. P s \<longrightarrow> (case m s of (Inl e, s') \<Rightarrow> R e s' | (Inr x, s') \<Rightarrow> Q x s'))"

lemma tripleI:
  "(\<And>s x s'. P s \<Longrightarrow> m s = (Inr x, s') \<Longrightarrow> Q x s') \<Longrightarrow> (\<And>s e s'. P s \<Longrightarrow> m s = (Inl e, s') \<Longrightarrow> R e s')
    \<Longrightarrow> triple P m Q R"
  by (auto simp: triple_def split: prod.split sum.split)

lemma tripleD:
  "triple P m Q R \<Longrightarrow> P s \<Longrightarrow> m s = (Inr x, s') \<Longrightarrow> Q x s'"
  "triple P m Q R \<Longrightarrow> P s \<Longrightarrow> m s = (Inl e, s') \<Longrightarrow> R e s'"
  unfolding triple_def by fastforce+

named_theorems triples \<open>rules of the triples\<close>

lemma triple_pure [triples]: "(\<And>s. P s \<Longrightarrow> Q x s) \<Longrightarrow> triple P (pure x) Q R"
  by (simp add: triple_def)

lemma triple_raising [triples]: "(\<And>s. P s \<Longrightarrow> R e s) \<Longrightarrow> triple P (raising e) Q R"
  by (simp add: triple_def)

lemma triple_assign [triples]: "(\<And>s. P s \<Longrightarrow> Q () (f s)) \<Longrightarrow> triple P (assign f) Q R"
  by (simp add: triple_def)

lemma triple_reading: "(\<And>s. P s \<Longrightarrow> Q (f s) s) \<Longrightarrow> triple P (reading f) Q R"
  by (simp add: triple_def)

lemma triple_asking:
  "(\<And>s x. P s \<Longrightarrow> f s = Inr x \<Longrightarrow> Q x s) \<Longrightarrow> (\<And>s e. P s \<Longrightarrow> f s = Inl e \<Longrightarrow> R e s) \<Longrightarrow> triple P (asking f) Q R"
  by (auto simp: triple_def split: sum.split)

lemma triple_bnd:
  "triple P m M R \<Longrightarrow> (\<And>x. triple (M x) (f x) Q R) \<Longrightarrow> triple P (bnd m f) Q R"
proof -
  assume m: "triple P m M R" and f: "\<And>x. triple (M x) (f x) Q R"
  show ?thesis
    unfolding triple_def
  proof (intro allI impI)
    fix s assume p: "P s"
    obtain y s' where y: "m s = (y, s')" by fastforce
    show "case bnd m f s of (Inl e, s') \<Rightarrow> R e s' | (Inr x, s') \<Rightarrow> Q x s'"
    proof (cases y)
      case (Inl e)
      with y tripleD(2) [OF m p] show ?thesis by (simp add: bnd_def)
    next
      case (Inr x)
      with y tripleD(1) [OF m p] have "M x s'" by simp
      with y Inr f [of x] show ?thesis by (simp add: bnd_def triple_def)
    qed
  qed
qed

lemma triple_try:
  "triple P m Q M \<Longrightarrow> (\<And>e. triple (M e) (h e) Q R) \<Longrightarrow> triple P (try_except m h) Q R"
proof -
  assume m: "triple P m Q M" and h: "\<And>e. triple (M e) (h e) Q R"
  show ?thesis
    unfolding triple_def
  proof (intro allI impI)
    fix s assume p: "P s"
    obtain y s' where y: "m s = (y, s')" by fastforce
    show "case try_except m h s of (Inl e, s') \<Rightarrow> R e s' | (Inr x, s') \<Rightarrow> Q x s'"
    proof (cases y)
      case (Inr x)
      with y tripleD(1) [OF m p] show ?thesis by (simp add: try_except_def)
    next
      case (Inl e)
      with y tripleD(2) [OF m p] have "M e s'" by simp
      with y Inl h [of e] show ?thesis by (simp add: try_except_def triple_def)
    qed
  qed
qed

lemma triple_if [triples]:
  "(c \<Longrightarrow> triple P m Q R) \<Longrightarrow> (\<not> c \<Longrightarrow> triple P m' Q R) \<Longrightarrow> triple P (if c then m else m') Q R"
  by simp

lemma triple_weaken:
  "triple P m Q R \<Longrightarrow> (\<And>s. P' s \<Longrightarrow> P s) \<Longrightarrow> (\<And>x s. Q x s \<Longrightarrow> Q' x s) \<Longrightarrow> (\<And>e s. R e s \<Longrightarrow> R' e s) \<Longrightarrow> triple P' m Q' R'"
  unfolding triple_def by (fastforce split: prod.splits sum.splits)

lemma triple_top: "triple P m (\<lambda>_ _. True) (\<lambda>_ _. True)"
  by (simp add: triple_def split: prod.split sum.split)

text \<open>A step that keeps a predicate whichever way it ends.\<close>

definition keeps :: "('s \<Rightarrow> bool) \<Rightarrow> ('e, 's, 'a) action \<Rightarrow> bool" where
  "keeps I m = triple I m (\<lambda>_. I) (\<lambda>_. I)"

lemma keeps_triple: "keeps I m \<Longrightarrow> triple I m (\<lambda>_. I) (\<lambda>_. I)"
  by (simp add: keeps_def)

lemma keeps_simps [simp]: "keeps I (pure x)" "keeps I (raising e)" "keeps I (reading f)" "keeps I (asking g)"
  by (simp_all add: keeps_def triple_def split: sum.split)

lemma keeps_assign: "(\<And>s. I s \<Longrightarrow> I (f s)) \<Longrightarrow> keeps I (assign f)"
  by (simp add: keeps_def triple_def)

lemma keeps_bnd: "keeps I m \<Longrightarrow> (\<And>x. keeps I (f x)) \<Longrightarrow> keeps I (bnd m f)"
  unfolding keeps_def by (rule triple_bnd)

end
