(* ===== verification/Agent_Actions.thy ===== *)
theory Agent_Actions
  imports Prelude
begin

section \<open>Model actions (agent/actions.py)\<close>

text \<open>
  The one-action protocol of the coding agent: what a model's JSON object becomes. \<open>json.loads\<close> is
  a parameter, and so is the conversion of a JSON value to an integer by pydantic's lax mode; its string
  handling is written out: \<open>StrictModel\<close> trims every text before its length is checked.
  Messages name the failing part only.
\<close>

datatype json = JNull | JBool bool | JInt int | JFloat string | JStr string | JArr "json list" | JObj "(string \<times> json) list"

datatype agent_action =
    Search_Repository string "string option"
  | Read_File string nat "nat option"
  | Inspect_Diff
  | Propose_Patch string
  | Replace_Text string string string
  | Create_File string string
  | Run_Check string
  | Submit_For_Verification
  | Request_Escalation string

fun action_kind :: "agent_action \<Rightarrow> string" where
  "action_kind (Search_Repository q g) = ''search_repository''"
| "action_kind (Read_File p s e) = ''read_file''"
| "action_kind Inspect_Diff = ''inspect_diff''"
| "action_kind (Propose_Patch d) = ''propose_patch''"
| "action_kind (Replace_Text p x y) = ''replace_text''"
| "action_kind (Create_File p c) = ''create_file''"
| "action_kind (Run_Check n) = ''run_check''"
| "action_kind Submit_For_Verification = ''submit_for_verification''"
| "action_kind (Request_Escalation r) = ''request_escalation''"

subsection \<open>Known noise of local chat templates\<close>

definition tool_markers :: "string list" where
  "tool_markers = [''</arg_value></tool_call>'', ''</tool_call>'']"

text \<open>\<open>s.split(m, 1)[0]\<close> for a non-empty \<open>m\<close>.\<close>

fun before_marker :: "string \<Rightarrow> string \<Rightarrow> string" where
  "before_marker m [] = []"
| "before_marker m (c # s) = (if starts_with (c # s) m then [] else c # before_marker m s)"

definition cut_content :: "string \<Rightarrow> string" where
  "cut_content content =
     (case find (contains content) tool_markers of None \<Rightarrow> content | Some m \<Rightarrow> before_marker m content)"

definition normalize_known_local_tool_noise :: "json \<Rightarrow> json" where
  "normalize_known_local_tool_noise raw =
     (case raw of
        JObj fields \<Rightarrow>
          (case (map_of fields ''action'', map_of fields ''content'') of
             (Some (JStr a), Some (JStr c)) \<Rightarrow>
               if a = ''create_file'' \<and> set (map fst fields) \<subseteq> set [''action'', ''path'', ''content'', ''command_name'', ''reason'']
               then JObj (map (\<lambda>(k, v). (k, if k = ''content'' then JStr (cut_content c) else v))
                 (filter (\<lambda>(k, v). k \<noteq> ''command_name'' \<and> k \<noteq> ''reason'') fields))
               else raw
           | _ \<Rightarrow> raw)
      | _ \<Rightarrow> raw)"

subsection \<open>Validation\<close>

definition text_field :: "(string \<times> json) list \<Rightarrow> string \<Rightarrow> nat \<Rightarrow> nat option \<Rightarrow> string option" where
  "text_field fields k least most =
     (case map_of fields k of
        Some (JStr s) \<Rightarrow>
          if least \<le> length (trim s) \<and> (case most of None \<Rightarrow> True | Some m \<Rightarrow> length (trim s) \<le> m)
          then Some (trim s) else None
      | _ \<Rightarrow> None)"

definition optional_text_field :: "(string \<times> json) list \<Rightarrow> string \<Rightarrow> nat \<Rightarrow> string option option" where
  "optional_text_field fields k most =
     (case map_of fields k of None \<Rightarrow> Some None | Some JNull \<Rightarrow> Some None
      | Some _ \<Rightarrow> map_option Some (text_field fields k 0 (Some most)))"

definition line_field :: "(json \<Rightarrow> int option) \<Rightarrow> json \<Rightarrow> nat option" where
  "line_field as_int j = (case as_int j of None \<Rightarrow> None | Some n \<Rightarrow> if 1 \<le> n then Some (nat n) else None)"

definition only_fields :: "(string \<times> json) list \<Rightarrow> string list \<Rightarrow> bool" where
  "only_fields fields ks = (set (map fst fields) \<subseteq> set (''action'' # ks))"

definition validate_fields :: "(json \<Rightarrow> int option) \<Rightarrow> string \<Rightarrow> (string \<times> json) list \<Rightarrow> agent_action option" where
  "validate_fields as_int kind fields =
     (if kind = ''search_repository'' \<and> only_fields fields [''query'', ''path_glob''] then
        Option.bind (text_field fields ''query'' 1 (Some 500)) (\<lambda>q.
        map_option (Search_Repository q) (optional_text_field fields ''path_glob'' 200))
      else if kind = ''read_file'' \<and> only_fields fields [''path'', ''start_line'', ''end_line''] then
        Option.bind (text_field fields ''path'' 1 (Some 500)) (\<lambda>p.
        Option.bind (case map_of fields ''start_line'' of None \<Rightarrow> Some 1 | Some j \<Rightarrow> line_field as_int j) (\<lambda>s.
        map_option (Read_File p s)
          (case map_of fields ''end_line'' of None \<Rightarrow> Some None | Some JNull \<Rightarrow> Some None
           | Some j \<Rightarrow> map_option Some (line_field as_int j))))
      else if kind = ''inspect_diff'' \<and> only_fields fields [] then Some Inspect_Diff
      else if kind = ''propose_patch'' \<and> only_fields fields [''unified_diff''] then
        map_option Propose_Patch (text_field fields ''unified_diff'' 1 None)
      else if kind = ''replace_text'' \<and> only_fields fields [''path'', ''old_text'', ''new_text''] then
        Option.bind (text_field fields ''path'' 1 (Some 500)) (\<lambda>p.
        Option.bind (text_field fields ''old_text'' 1 (Some 40000)) (\<lambda>x.
        map_option (Replace_Text p x) (text_field fields ''new_text'' 0 (Some 40000))))
      else if kind = ''create_file'' \<and> only_fields fields [''path'', ''content''] then
        Option.bind (text_field fields ''path'' 1 (Some 500)) (\<lambda>p.
        map_option (Create_File p) (text_field fields ''content'' 1 (Some 40000)))
      else if kind = ''run_check'' \<and> only_fields fields [''command_name''] then
        map_option Run_Check (text_field fields ''command_name'' 1 (Some 200))
      else if kind = ''submit_for_verification'' \<and> only_fields fields [] then Some Submit_For_Verification
      else if kind = ''request_escalation'' \<and> only_fields fields [''reason''] then
        map_option Request_Escalation (text_field fields ''reason'' 1 (Some 4000))
      else None)"

definition validate_action :: "(json \<Rightarrow> int option) \<Rightarrow> json \<Rightarrow> agent_action option" where
  "validate_action as_int raw =
     (case raw of
        JObj fields \<Rightarrow> (case map_of fields ''action'' of Some (JStr k) \<Rightarrow> validate_fields as_int k fields | _ \<Rightarrow> None)
      | _ \<Rightarrow> None)"

definition parse_agent_action :: "(string \<Rightarrow> json option) \<Rightarrow> (json \<Rightarrow> int option) \<Rightarrow> string \<Rightarrow> string + agent_action" where
  "parse_agent_action loads as_int content =
     (case loads content of None \<Rightarrow> Inl ''response is not valid JSON''
      | Some raw \<Rightarrow>
          (case validate_action as_int (normalize_known_local_tool_noise raw) of
             None \<Rightarrow> Inl ''response is not a valid Apoapsis action'' | Some a \<Rightarrow> Inr a))"

subsection \<open>The action as an object\<close>

definition json_option :: "('a \<Rightarrow> json) \<Rightarrow> 'a option \<Rightarrow> json" where
  "json_option f x = (case x of None \<Rightarrow> JNull | Some y \<Rightarrow> f y)"

fun action_fields :: "agent_action \<Rightarrow> (string \<times> json) list" where
  "action_fields (Search_Repository q g) = [(''query'', JStr q), (''path_glob'', json_option JStr g)]"
| "action_fields (Read_File p s e) =
     [(''path'', JStr p), (''start_line'', JInt (int s)), (''end_line'', json_option (\<lambda>n. JInt (int n)) e)]"
| "action_fields Inspect_Diff = []"
| "action_fields (Propose_Patch d) = [(''unified_diff'', JStr d)]"
| "action_fields (Replace_Text p x y) = [(''path'', JStr p), (''old_text'', JStr x), (''new_text'', JStr y)]"
| "action_fields (Create_File p c) = [(''path'', JStr p), (''content'', JStr c)]"
| "action_fields (Run_Check n) = [(''command_name'', JStr n)]"
| "action_fields Submit_For_Verification = []"
| "action_fields (Request_Escalation r) = [(''reason'', JStr r)]"

definition action_json :: "agent_action \<Rightarrow> json" where
  "action_json a = JObj ((''action'', JStr (action_kind a)) # action_fields a)"

text \<open>The action with every text trimmed, and the limits of the schema.\<close>

fun trim_action :: "agent_action \<Rightarrow> agent_action" where
  "trim_action (Search_Repository q g) = Search_Repository (trim q) (map_option trim g)"
| "trim_action (Read_File p s e) = Read_File (trim p) s e"
| "trim_action Inspect_Diff = Inspect_Diff"
| "trim_action (Propose_Patch d) = Propose_Patch (trim d)"
| "trim_action (Replace_Text p x y) = Replace_Text (trim p) (trim x) (trim y)"
| "trim_action (Create_File p c) = Create_File (trim p) (trim c)"
| "trim_action (Run_Check n) = Run_Check (trim n)"
| "trim_action Submit_For_Verification = Submit_For_Verification"
| "trim_action (Request_Escalation r) = Request_Escalation (trim r)"

definition sized :: "nat \<Rightarrow> nat \<Rightarrow> string \<Rightarrow> bool" where
  "sized least most s = (least \<le> length s \<and> length s \<le> most)"

fun bounded_action :: "agent_action \<Rightarrow> bool" where
  "bounded_action (Search_Repository q g) = (sized 1 500 q \<and> (case g of None \<Rightarrow> True | Some p \<Rightarrow> sized 0 200 p))"
| "bounded_action (Read_File p s e) = (sized 1 500 p \<and> 1 \<le> s \<and> (case e of None \<Rightarrow> True | Some n \<Rightarrow> 1 \<le> n))"
| "bounded_action Inspect_Diff = True"
| "bounded_action (Propose_Patch d) = (d \<noteq> [])"
| "bounded_action (Replace_Text p x y) = (sized 1 500 p \<and> sized 1 40000 x \<and> sized 0 40000 y)"
| "bounded_action (Create_File p c) = (sized 1 500 p \<and> sized 1 40000 c)"
| "bounded_action (Run_Check n) = sized 1 200 n"
| "bounded_action Submit_For_Verification = True"
| "bounded_action (Request_Escalation r) = sized 1 4000 r"

subsection \<open>Facts\<close>

lemma text_field_some:
  "text_field fields k least most = Some x \<Longrightarrow> least \<le> length x \<and> (\<forall>m. most = Some m \<longrightarrow> length x \<le> m) \<and> trim x = x"
  by (auto simp: text_field_def split: option.splits json.splits if_splits)

lemma optional_text_field_some:
  "optional_text_field fields k most = Some x \<Longrightarrow>
     (case x of None \<Rightarrow> True | Some y \<Rightarrow> length y \<le> most) \<and> map_option trim x = x"
  by (auto simp: optional_text_field_def split: option.splits json.splits dest: text_field_some)

lemma line_field_some: "line_field f j = Some n \<Longrightarrow> 1 \<le> n"
  by (auto simp: line_field_def split: option.splits if_splits)

lemmas action_dests = text_field_some optional_text_field_some line_field_some

lemma validated_bounded:
  "validate_fields as_int k fields = Some a \<Longrightarrow> bounded_action a \<and> trim_action a = a \<and> action_kind a = k"
  unfolding validate_fields_def
  by (auto split: if_splits option.splits json.splits simp: map_option_bind_Some sized_def dest!: action_dests)

lemma validated_action: "validate_action as_int raw = Some a \<Longrightarrow> bounded_action a \<and> trim_action a = a"
  by (auto simp: validate_action_def split: json.splits option.splits dest: validated_bounded)

text \<open>
  C39: every parsed action is bounded. Whatever text a model returns and whatever the JSON decoder and
  the integer conversion do, parsing it yields an error or an action whose texts are trimmed and whose
  fields are within the limits of the schema.
\<close>

theorem parsed_action_is_bounded:
  "case parse_agent_action loads as_int content of Inl e \<Rightarrow> True | Inr a \<Rightarrow> bounded_action a \<and> trim_action a = a"
  by (auto simp: parse_agent_action_def split: option.splits sum.splits dest: validated_action)

subsection \<open>An action on the wire\<close>

text \<open>What the session keeps of a created file's content: the part before the first template marker.\<close>

definition occurs_in :: "string \<Rightarrow> string \<Rightarrow> bool" where
  "occurs_in m s = (\<exists>u v. s = u @ m @ v)"

definition ends_before :: "string \<Rightarrow> string \<Rightarrow> string \<Rightarrow> bool" where
  "ends_before m s k = (\<exists>v. s = k @ m @ v \<and> (\<forall>u w. s = u @ m @ w \<longrightarrow> length k \<le> length u))"

definition kept_content :: "string \<Rightarrow> string \<Rightarrow> bool" where
  "kept_content c k =
     (if occurs_in ''</arg_value></tool_call>'' c then ends_before ''</arg_value></tool_call>'' c k
      else if occurs_in ''</tool_call>'' c then ends_before ''</tool_call>'' c k
      else k = c)"

definition kept_action :: "agent_action \<Rightarrow> agent_action \<Rightarrow> bool" where
  "kept_action a b =
     (case a of Create_File p c \<Rightarrow> (\<exists>k. kept_content c k \<and> b = Create_File p k) | _ \<Rightarrow> b = a)"

lemma contains_occurs: "contains s m \<longleftrightarrow> occurs_in m s"
  by (simp add: contains_iff occurs_in_def)

lemma before_marker_ends:
  assumes "occurs_in m s" "m \<noteq> []"
  shows "ends_before m s (before_marker m s)"
  using assms(1)
proof (induction s)
  case Nil
  with assms(2) show ?case by (simp add: occurs_in_def)
next
  case (Cons c s)
  show ?case
  proof (cases "starts_with (c # s) m")
    case True
    then have "c # s = [] @ m @ drop (length m) (c # s)"
      unfolding starts_with_def by (metis append_Nil append_take_drop_id)
    with True show ?thesis by (auto simp: ends_before_def)
  next
    case False
    then have ne: "u \<noteq> []" if "c # s = u @ m @ w" for u w using that by (auto simp: starts_with_def)
    with Cons.prems have "occurs_in m s" unfolding occurs_in_def by (metis append_eq_Cons_conv)
    from Cons.IH [OF this] obtain v where v: "s = before_marker m s @ m @ v"
      "\<And>u w. s = u @ m @ w \<Longrightarrow> length (before_marker m s) \<le> length u" by (auto simp: ends_before_def)
    have "length (c # before_marker m s) \<le> length u" if e: "c # s = u @ m @ w" for u w
      using ne [OF e] e v(2) by (cases u) auto
    with False v(1) show ?thesis by (auto simp: ends_before_def)
  qed
qed

lemma ends_before_unique:
  assumes "ends_before m s k" "ends_before m s k'"
  shows "k = k'"
proof -
  obtain v where v: "s = k @ m @ v" using assms(1) unfolding ends_before_def by blast
  obtain w where w: "s = k' @ m @ w" using assms(2) unfolding ends_before_def by blast
  have "length k \<le> length k'" "length k' \<le> length k"
    using assms v w unfolding ends_before_def by blast+
  then have "length k = length k'" by simp
  with v w show ?thesis by (metis append_eq_append_conv)
qed

lemma cut_content_kept: "kept_content c k \<longleftrightarrow> k = cut_content c"
proof -
  have "ends_before m c k \<longleftrightarrow> k = before_marker m c" if "occurs_in m c" "m \<noteq> []" for m
    using before_marker_ends [OF that] ends_before_unique by blast
  then show ?thesis
    by (simp add: kept_content_def cut_content_def tool_markers_def contains_occurs)
qed

definition as_kept :: "agent_action \<Rightarrow> agent_action" where
  "as_kept a = (case a of Create_File p c \<Rightarrow> Create_File p (cut_content c) | _ \<Rightarrow> a)"

lemma as_kept_iff: "kept_action a b \<longleftrightarrow> b = as_kept a"
  by (cases a) (auto simp: kept_action_def as_kept_def cut_content_kept)

lemma normalized_action: "normalize_known_local_tool_noise (action_json a) = action_json (as_kept a)"
  by (cases a) (simp_all add: normalize_known_local_tool_noise_def action_json_def as_kept_def)

lemma validated_object:
  assumes "\<And>n. as_int (JInt n) = Some n"
  shows "validate_action as_int (action_json a) = (if bounded_action (trim_action a) then Some (trim_action a) else None)"
  using assms
  by (cases a)
    (auto simp: validate_action_def action_json_def validate_fields_def only_fields_def text_field_def
      optional_text_field_def line_field_def json_option_def sized_def Suc_le_eq split: option.splits)



end
