(* ===== verification/Prompt_Window.thy ===== *)
theory Prompt_Window
  imports Evidence
begin

section \<open>The prompt window guard (context/window.py)\<close>

text \<open>
  The ceiling of a prompt and the three shrinking stages that make a prompt fit or refuse it. The
  prompt builder is a parameter (a pure function of the evidence and the history, as the source
  demands), and so is the optional tokenizer: \<open>None\<close> stands for no tokenizer, for one that raised
  and for one that did not return an integer. A history turn keeps the fields its summary uses;
  all its other fields are the list \<open>ht_details\<close>, empty after a summary.
\<close>

datatype measurement_source = HEURISTIC | TOKENIZER

datatype shrink_stage = NO_SHRINK | OBSERVATIONS_STAGE | EVIDENCE_STAGE | HISTORY_STAGE | IRREDUCIBLE

record window_limits =
  wl_window :: int
  wl_output :: int
  wl_margin :: int

definition prompt_token_ceiling :: "window_limits \<Rightarrow> int" where
  "prompt_token_ceiling l = wl_window l - wl_output l - wl_margin l"

definition default_safety_margin :: int where
  "default_safety_margin = 1024"

definition window_limits_from_provider :: "int option \<Rightarrow> int \<Rightarrow> int \<Rightarrow> window_limits option" where
  "window_limits_from_provider window output margin =
     (case window of None \<Rightarrow> None
      | Some w \<Rightarrow>
          (let l = \<lparr>wl_window = w, wl_output = output, wl_margin = margin\<rparr> in
           if w = 0 \<or> prompt_token_ceiling l \<le> 0 then None else Some l))"

record window_measurement =
  wm_chars :: nat
  wm_tokens :: int
  wm_ceiling :: int
  wm_window :: int
  wm_source :: measurement_source
  wm_evidence :: nat
  wm_history :: nat

definition within_ceiling :: "window_measurement \<Rightarrow> bool" where
  "within_ceiling m = (wm_tokens m \<le> wm_ceiling m)"

record window_fit =
  wf_before :: window_measurement
  wf_after :: window_measurement
  wf_stage :: shrink_stage
  wf_observations :: nat
  wf_evidence :: nat
  wf_history :: nat

definition estimate_tokens :: "string \<Rightarrow> int" where
  "estimate_tokens s = - ((- int (length s)) div 4)"

definition prompt_tokens :: "(string \<Rightarrow> int option) \<Rightarrow> string \<Rightarrow> int" where
  "prompt_tokens tok s =
     (case tok s of None \<Rightarrow> estimate_tokens s | Some n \<Rightarrow> if 0 \<le> n then n else estimate_tokens s)"

definition measurement_source_of :: "(string \<Rightarrow> int option) \<Rightarrow> string \<Rightarrow> measurement_source" where
  "measurement_source_of tok s = (case tok s of None \<Rightarrow> HEURISTIC | Some n \<Rightarrow> if 0 \<le> n then TOKENIZER else HEURISTIC)"

record 'd history_turn =
  ht_turn :: nat
  ht_action :: string
  ht_accepted :: bool
  ht_summary :: string
  ht_compacted :: bool
  ht_details :: "'d list"

definition measure_prompt ::
  "(string \<Rightarrow> int option) \<Rightarrow> window_limits \<Rightarrow> context_evidence list \<Rightarrow> 'd history_turn list \<Rightarrow> string \<Rightarrow> window_measurement" where
  "measure_prompt tok l ev hist s =
     \<lparr>wm_chars = length s, wm_tokens = prompt_tokens tok s, wm_ceiling = prompt_token_ceiling l,
      wm_window = wl_window l, wm_source = measurement_source_of tok s, wm_evidence = length ev,
      wm_history = length hist\<rparr>"

definition summarize_turn :: "'d history_turn \<Rightarrow> 'd history_turn" where
  "summarize_turn t = t\<lparr>ht_summary := take 200 (ht_summary t), ht_compacted := True, ht_details := []\<rparr>"

subsection \<open>The three stages\<close>

text \<open>Dropping the first item that satisfies a test: the oldest observation.\<close>

fun drop_first :: "('a \<Rightarrow> bool) \<Rightarrow> 'a list \<Rightarrow> 'a list" where
  "drop_first P [] = []"
| "drop_first P (x # xs) = (if P x then xs else x # drop_first P xs)"

text \<open>The index of the least valuable item: the last one among those of the highest priority number.\<close>

definition drop_order :: "context_evidence list \<Rightarrow> nat list" where
  "drop_order ev = map snd (sort_key (\<lambda>p. (- int (fst p), - int (snd p)))
     (map (\<lambda>p. (evidence_reason_priority (ev_reason (snd p)), fst p)) (enumerate 0 ev)))"

definition remove_index :: "nat \<Rightarrow> 'a list \<Rightarrow> 'a list" where
  "remove_index i xs = take i xs @ drop (Suc i) xs"

lemma drop_first_length: "list_ex P xs \<Longrightarrow> length (drop_first P xs) < length xs"
  by (induction xs) auto

lemma drop_order_set: "set (drop_order ev) = {0..<length ev}"
proof -
  have "fst ` set (enumerate 0 ev) = set (map fst (enumerate 0 ev))" by (rule set_map [symmetric])
  also have "\<dots> = {0..<length ev}" by (simp only: map_fst_enumerate) simp
  finally show ?thesis by (simp add: drop_order_def image_image)
qed

lemma remove_index_length: "ev \<noteq> [] \<Longrightarrow> length (remove_index (hd (drop_order ev)) ev) < length ev"
proof -
  assume "ev \<noteq> []"
  then have "drop_order ev \<noteq> []" using drop_order_set [of ev] by force
  then have "hd (drop_order ev) < length ev" using drop_order_set [of ev] hd_in_set [of "drop_order ev"] by simp
  then show ?thesis by (simp add: remove_index_def)
qed

text \<open>Each stage goes on while the prompt does not fit; \<open>fits\<close> measures the prompt of its input.\<close>

function shrink_observations ::
  "(context_evidence list \<Rightarrow> bool) \<Rightarrow> (context_evidence \<Rightarrow> bool) \<Rightarrow> context_evidence list \<Rightarrow> context_evidence list \<times> nat" where
  "shrink_observations fits is_obs ev =
     (if fits ev \<or> \<not> list_ex is_obs ev then (ev, 0)
      else (case shrink_observations fits is_obs (drop_first is_obs ev) of (ev', n) \<Rightarrow> (ev', Suc n)))"
  by pat_completeness auto

termination
  by (relation "measure (\<lambda>(_, _, ev). length ev)") (auto intro: drop_first_length)

declare shrink_observations.simps [simp del]

function shrink_evidence ::
  "(context_evidence list \<Rightarrow> bool) \<Rightarrow> context_evidence list \<Rightarrow> context_evidence list \<times> nat" where
  "shrink_evidence fits ev =
     (if fits ev \<or> ev = [] then (ev, 0)
      else (case shrink_evidence fits (remove_index (hd (drop_order ev)) ev) of (ev', n) \<Rightarrow> (ev', Suc n)))"
  by pat_completeness auto

termination
  by (relation "measure (\<lambda>(_, ev). length ev)") (auto intro: remove_index_length)

declare shrink_evidence.simps [simp del]

fun shrink_history ::
  "('d history_turn list \<Rightarrow> bool) \<Rightarrow> 'd history_turn list \<Rightarrow> 'd history_turn list \<Rightarrow> 'd history_turn list \<times> nat" where
  "shrink_history fits before [] = (before, 0)"
| "shrink_history fits before (t # rest) =
     (if fits (before @ t # rest) then (before @ t # rest, 0)
      else if ht_compacted t then shrink_history fits (before @ [t]) rest
      else (case shrink_history fits (before @ [summarize_turn t]) rest of (h, n) \<Rightarrow> (h, Suc n)))"

definition fit_prompt_to_window ::
  "(context_evidence list \<Rightarrow> 'd history_turn list \<Rightarrow> string) \<Rightarrow> (string \<Rightarrow> int option) \<Rightarrow> window_limits
    \<Rightarrow> (context_evidence \<Rightarrow> bool) \<Rightarrow> context_evidence list \<Rightarrow> 'd history_turn list
    \<Rightarrow> window_fit + string \<times> window_fit" where
  "fit_prompt_to_window build tok l is_obs evidence history =
     (let meas = (\<lambda>ev hist. measure_prompt tok l ev hist (build ev hist));
          before = meas evidence history
      in if within_ceiling before
         then Inr (build evidence history,
               \<lparr>wf_before = before, wf_after = before, wf_stage = NO_SHRINK, wf_observations = 0, wf_evidence = 0,
                wf_history = 0\<rparr>)
         else
           (let (ev1, obs) = shrink_observations (\<lambda>ev. within_ceiling (meas ev history)) is_obs evidence;
                (ev2, evs) = shrink_evidence (\<lambda>ev. within_ceiling (meas ev history)) ev1;
                (hist, turns) = shrink_history (\<lambda>h. within_ceiling (meas ev2 h)) [] history;
                after = meas ev2 hist;
                stage = (if turns > 0 then HISTORY_STAGE else if evs > 0 then EVIDENCE_STAGE
                         else if obs > 0 then OBSERVATIONS_STAGE else NO_SHRINK);
                fit = \<lparr>wf_before = before, wf_after = after,
                       wf_stage = (if within_ceiling after then stage else IRREDUCIBLE),
                       wf_observations = obs, wf_evidence = evs, wf_history = turns\<rparr>
            in if within_ceiling after then Inr (build ev2 hist, fit) else Inl fit))"

subsection \<open>Facts\<close>

lemma drop_first_subseq: "subseq (drop_first P xs) xs"
  by (induction xs) auto

lemma remove_index_subseq: "subseq (remove_index i xs) xs"
proof -
  have "subseq (drop (Suc i) xs) (drop i xs)"
    by (metis drop_Suc drop_drop plus_1_eq_Suc suffix_drop suffix_imp_subseq)
  then have "subseq (take i xs @ drop (Suc i) xs) (take i xs @ drop i xs)"
    by (intro list_emb_append_mono) auto
  then show ?thesis by (simp add: remove_index_def)
qed

lemma shrink_observations_result:
  "shrink_observations fits is_obs ev = (ev', n) \<Longrightarrow>
     subseq ev' ev \<and> (fits ev' \<or> \<not> list_ex is_obs ev') \<and> (n = 0 \<longrightarrow> ev' = ev)
     \<and> filter (\<lambda>e. \<not> is_obs e) ev' = filter (\<lambda>e. \<not> is_obs e) ev"
proof (induction fits is_obs ev arbitrary: ev' n rule: shrink_observations.induct)
  case (1 fits is_obs ev)
  have keep: "filter (\<lambda>e. \<not> is_obs e) (drop_first is_obs ev) = filter (\<lambda>e. \<not> is_obs e) ev"
    by (induction ev) auto
  show ?case
  proof (cases "fits ev \<or> \<not> list_ex is_obs ev")
    case True
    with "1.prems" show ?thesis by (subst (asm) shrink_observations.simps) auto
  next
    case False
    obtain ev1 m where r: "shrink_observations fits is_obs (drop_first is_obs ev) = (ev1, m)" by fastforce
    with False "1.prems" have "ev' = ev1" "n = Suc m" by (simp_all add: shrink_observations.simps [of fits is_obs ev])
    with "1.IH" [OF False r] keep drop_first_subseq [of is_obs ev] show ?thesis
      by (auto intro: subseq_order.order_trans)
  qed
qed

lemma shrink_evidence_result:
  "shrink_evidence fits ev = (ev', n) \<Longrightarrow>
     subseq ev' ev \<and> (fits ev' \<or> ev' = []) \<and> (n = 0 \<longrightarrow> ev' = ev) \<and> (n > 0 \<longrightarrow> \<not> fits ev)"
proof (induction fits ev arbitrary: ev' n rule: shrink_evidence.induct)
  case (1 fits ev)
  show ?case
  proof (cases "fits ev \<or> ev = []")
    case True
    with "1.prems" show ?thesis by (subst (asm) shrink_evidence.simps) auto
  next
    case False
    obtain ev1 m where r: "shrink_evidence fits (remove_index (hd (drop_order ev)) ev) = (ev1, m)" by fastforce
    with False "1.prems" have "ev' = ev1" "n = Suc m" by (simp_all add: shrink_evidence.simps [of fits ev])
    with "1.IH" [OF False r] remove_index_subseq [of "hd (drop_order ev)" ev] False show ?thesis
      by (auto intro: subseq_order.order_trans)
  qed
qed

definition compacted_turn :: "'d history_turn \<Rightarrow> 'd history_turn" where
  "compacted_turn t = (if ht_compacted t then t else summarize_turn t)"

lemma shrink_history_result:
  "shrink_history fits before rest = (h, n) \<Longrightarrow>
     \<exists>ts us. rest = ts @ us \<and> h = before @ map compacted_turn ts @ us \<and> (fits h \<or> us = [])
       \<and> (n > 0 \<longrightarrow> \<not> fits (before @ rest))"
proof (induction fits before rest arbitrary: h n rule: shrink_history.induct)
  case (1 fits before)
  then show ?case by simp
next
  case (2 fits before t rest)
  show ?case
  proof (cases "fits (before @ t # rest)")
    case True
    with 2(3) show ?thesis by (intro exI [of _ "[]"] exI [of _ "t # rest"]) auto
  next
    case False
    have "\<exists>m. shrink_history fits (before @ [compacted_turn t]) rest = (h, m)"
      using 2(3) False by (auto simp: compacted_turn_def split: if_splits prod.splits)
    then obtain m where r: "shrink_history fits (before @ [compacted_turn t]) rest = (h, m)" by blast
    have "\<exists>ts us. rest = ts @ us \<and> h = (before @ [compacted_turn t]) @ map compacted_turn ts @ us \<and> (fits h \<or> us = [])"
    proof (cases "ht_compacted t")
      case True
      then have c: "compacted_turn t = t" by (simp add: compacted_turn_def)
      from 2(1) [OF False True r [unfolded c]] show ?thesis unfolding c by blast
    next
      case nc: False
      then have c: "compacted_turn t = summarize_turn t" by (simp add: compacted_turn_def)
      from 2(2) [OF False nc r [unfolded c]] show ?thesis unfolding c by blast
    qed
    then obtain ts us where "rest = ts @ us" "h = before @ map compacted_turn (t # ts) @ us" "fits h \<or> us = []"
      by auto
    with False show ?thesis by (metis append_Cons)
  qed
qed

lemma shrink_history_fits: "fits (before @ rest) \<Longrightarrow> shrink_history fits before rest = (before @ rest, 0)"
  by (cases rest) auto

lemma shrink_history_none: "shrink_history fits before rest = (h, 0) \<Longrightarrow> h = before @ rest"
  by (induction fits before rest arbitrary: h rule: shrink_history.induct) (auto split: if_splits prod.splits)

subsection \<open>Properties\<close>

text \<open>
  C36: a prompt fits or is refused. What is dispatched is built from a subsequence of the evidence
  and from the history with some leading turns compacted, and its measured size is at most the
  ceiling; all observations are gone before another excerpt is dropped, and all evidence is gone
  before a turn is compacted. A refusal means that even the prompt without any evidence and with
  every turn compacted exceeds the ceiling, and it is recorded as irreducible.
\<close>

theorem prompt_fits_or_is_refused:
  "case fit_prompt_to_window build tok l is_obs evidence history of
     Inr (prompt, fit) \<Rightarrow>
       (\<exists>ev ts us. prompt = build ev (map compacted_turn ts @ us) \<and> history = ts @ us \<and> subseq ev evidence
          \<and> prompt_tokens tok prompt \<le> prompt_token_ceiling l
          \<and> (wf_evidence fit > 0 \<longrightarrow> \<not> list_ex is_obs ev) \<and> (wf_history fit > 0 \<longrightarrow> ev = [])
          \<and> (wf_stage fit = NO_SHRINK \<longrightarrow> prompt = build evidence history))
   | Inl fit \<Rightarrow> wf_stage fit = IRREDUCIBLE
       \<and> prompt_token_ceiling l < prompt_tokens tok (build [] (map compacted_turn history))"
proof -
  let ?in = "\<lambda>ev h. within_ceiling (measure_prompt tok l ev h (build ev h))"
  have inn: "?in ev h \<longleftrightarrow> prompt_tokens tok (build ev h) \<le> prompt_token_ceiling l" for ev h
    by (simp add: within_ceiling_def measure_prompt_def)
  show ?thesis
  proof (cases "?in evidence history")
    case True
    then have "fit_prompt_to_window build tok l is_obs evidence history =
        Inr (build evidence history, \<lparr>wf_before = measure_prompt tok l evidence history (build evidence history),
          wf_after = measure_prompt tok l evidence history (build evidence history), wf_stage = NO_SHRINK,
          wf_observations = 0, wf_evidence = 0, wf_history = 0\<rparr>)"
      unfolding fit_prompt_to_window_def Let_def by simp
    moreover have "prompt_tokens tok (build evidence history) \<le> prompt_token_ceiling l" using True unfolding inn .
    moreover have "\<exists>ev ts us. build evidence history = build ev (map compacted_turn ts @ us) \<and> history = ts @ us
        \<and> subseq ev evidence \<and> prompt_tokens tok (build evidence history) \<le> prompt_token_ceiling l"
      by (rule exI [of _ evidence], rule exI [of _ "[]"], rule exI [of _ history]) (simp add: calculation(2))
    ultimately show ?thesis by simp
  next
    case False
    obtain ev1 n1 where o: "shrink_observations (\<lambda>ev. ?in ev history) is_obs evidence = (ev1, n1)" by fastforce
    obtain ev2 n2 where e: "shrink_evidence (\<lambda>ev. ?in ev history) ev1 = (ev2, n2)" by fastforce
    obtain h n3 where t: "shrink_history (\<lambda>h. ?in ev2 h) [] history = (h, n3)" by fastforce
    note ro = shrink_observations_result [OF o] and re = shrink_evidence_result [OF e]
    from shrink_history_result [OF t] obtain ts us where rt: "history = ts @ us" "h = map compacted_turn ts @ us"
      "?in ev2 h \<or> us = []" "n3 > 0 \<longrightarrow> \<not> ?in ev2 history" by auto
    have sub: "subseq ev2 evidence" using ro re by (blast intro: subseq_order.order_trans)
    have no_obs: "\<not> list_ex is_obs ev2" if "n2 > 0"
    proof -
      have "\<not> list_ex is_obs ev1" using that ro re by blast
      moreover have "set ev2 \<subseteq> set ev1" using conjunct1 [OF re] by (auto elim!: list_emb_set)
      ultimately show ?thesis by (auto simp: list_ex_iff)
    qed
    have empty: "ev2 = []" if "n3 > 0" using that rt(4) re by blast
    show ?thesis
    proof (cases "?in ev2 h")
      case True
      have no: "n1 = 0 \<Longrightarrow> n2 = 0 \<Longrightarrow> n3 = 0 \<Longrightarrow> False"
      proof -
        assume z: "n1 = 0" "n2 = 0" "n3 = 0"
        then have "ev2 = evidence" using ro re by blast
        moreover have "h = history" using shrink_history_none [OF t [unfolded z(3)]] by simp
        ultimately show False using True \<open>\<not> ?in evidence history\<close> by simp
      qed
      obtain fit where f: "fit_prompt_to_window build tok l is_obs evidence history = Inr (build ev2 h, fit)"
        "wf_evidence fit = n2" "wf_history fit = n3" "wf_stage fit \<noteq> NO_SHRINK"
        using False True o e t no unfolding fit_prompt_to_window_def Let_def by fastforce
      have "prompt_tokens tok (build ev2 h) \<le> prompt_token_ceiling l" using True unfolding inn .
      moreover have "\<exists>ev ts us. build ev2 h = build ev (map compacted_turn ts @ us) \<and> history = ts @ us \<and> subseq ev evidence
          \<and> (n2 > 0 \<longrightarrow> \<not> list_ex is_obs ev) \<and> (n3 > 0 \<longrightarrow> ev = [])"
        by (rule exI [of _ ev2], rule exI [of _ ts], rule exI [of _ us]) (use rt(1,2) sub no_obs empty in blast)
      ultimately show ?thesis using f by simp
    next
      case not: False
      then have "us = []" "ev2 = []"
      proof -
        show "us = []" using rt(2,3) not by simp
        have "\<not> ?in ev2 history" using shrink_history_fits [of "?in ev2" "[]" history] t not by auto
        then show "ev2 = []" using re by blast
      qed
      with False not o e t rt show ?thesis
        unfolding fit_prompt_to_window_def Let_def by (auto simp: inn)
    qed
  qed
qed

theorem prompt_fits_or_is_refused_witness:
  "\<exists>fit. fit_prompt_to_window (\<lambda>_ _. ''ab'') (\<lambda>_. Some 2) \<lparr>wl_window = 1, wl_output = 0, wl_margin = 0\<rparr>
     (\<lambda>_. True) [] [] = Inl fit \<and> wf_stage fit = IRREDUCIBLE"
  using prompt_fits_or_is_refused [where build = "\<lambda>_ _. ''ab''" and tok = "\<lambda>_. Some 2" and l = "\<lparr>wl_window = 1, wl_output = 0, wl_margin = 0\<rparr>"
    and is_obs = "\<lambda>_. True" and evidence = "[]" and history = "[]"]
  by (auto simp: prompt_tokens_def prompt_token_ceiling_def split: sum.splits)

end
