(* ===== verification/Failures.thy ===== *)
theory Failures
  imports Verification_Run
begin

section \<open>Normalised failures (verification/failures.py)\<close>

text \<open>
  What a failed verification tells the coding agent: the first failed command that counts, its output
  without terminal escapes and worktree path, without immediate repetitions, and cut to a bound; and the
  line taken for the root error. The regular expressions are written out as scanners over code points below 256.
  The traceback locations, which only rank the excerpts of the next context, are left out.
\<close>

definition char_between :: "nat \<Rightarrow> nat \<Rightarrow> char \<Rightarrow> bool" where
  "char_between a b c = (a \<le> of_char c \<and> of_char c \<le> b)"

definition escape_char :: char where
  "escape_char = char_of (27::nat)"

text \<open>\<open>_ANSI.sub("", s)\<close>; the three character classes of the pattern are disjoint.\<close>

definition after_ansi :: "string \<Rightarrow> string option" where
  "after_ansi s =
     (if starts_with s ''['' then
        (case dropWhile (char_between 32 47) (dropWhile (char_between 48 63) (drop 1 s)) of
           [] \<Rightarrow> None | c # r \<Rightarrow> if char_between 64 126 c then Some r else None)
      else None)"

lemma after_ansi_length: "after_ansi s = Some r \<Longrightarrow> length r < length s"
proof -
  assume a: "after_ansi s = Some r"
  then obtain c where "dropWhile (char_between 32 47) (dropWhile (char_between 48 63) (drop 1 s)) = c # r"
    by (auto simp: after_ansi_def split: if_splits list.splits)
  then have "length (c # r) \<le> length s"
    by (metis (no_types, lifting) length_dropWhile_le length_drop diff_le_self le_trans)
  then show ?thesis by simp
qed

function strip_ansi :: "string \<Rightarrow> string" where
  "strip_ansi [] = []"
| "strip_ansi (c # s) =
     (case (if c = escape_char then after_ansi s else None) of Some r \<Rightarrow> strip_ansi r | None \<Rightarrow> c # strip_ansi s)"
  by pat_completeness auto

termination
  by (relation "measure length") (auto split: if_splits dest: after_ansi_length)

text \<open>\<open>s.replace(p, q)\<close> for a non-empty \<open>p\<close>.\<close>

function replace_all :: "string \<Rightarrow> string \<Rightarrow> string \<Rightarrow> string" where
  "replace_all p q [] = []"
| "replace_all p q (c # s) =
     (if p \<noteq> [] \<and> starts_with (c # s) p then q @ replace_all p q (drop (length p) (c # s)) else c # replace_all p q s)"
  by pat_completeness auto

termination
  by (relation "measure (\<lambda>(_, _, s). length s)") auto

subsection \<open>The root error\<close>

definition is_letter :: "char \<Rightarrow> bool" where
  "is_letter c = (char_between 65 90 c \<or> char_between 97 122 c)"

definition is_word_char :: "char \<Rightarrow> bool" where
  "is_word_char c =
     (is_letter c \<or> is_digit c \<or> c = CHR ''_''
      \<or> (of_char c :: nat) \<in> set [170, 178, 179, 181, 185, 186, 188, 189, 190]
      \<or> char_between 192 214 c \<or> char_between 216 246 c \<or> char_between 248 255 c)"

definition ends_word :: "string \<Rightarrow> bool" where
  "ends_word s = (case s of [] \<Rightarrow> True | c # _ \<Rightarrow> \<not> is_word_char c)"

text \<open>A match of \<open>_ROOT_MARKER\<close> at one position of a lower-cased line, whose preceding character is given.\<close>

definition marker_at :: "char option \<Rightarrow> string \<Rightarrow> bool" where
  "marker_at prev s =
     (let after_letter = (case prev of None \<Rightarrow> False | Some c \<Rightarrow> is_letter c);
          at_word = (case prev of None \<Rightarrow> True | Some c \<Rightarrow> \<not> is_word_char c)
      in starts_with s ''assertionerror''
         \<or> after_letter \<and> (starts_with s ''error'' \<and> ends_word (drop 5 s) \<or> starts_with s ''exception'' \<and> ends_word (drop 9 s))
         \<or> at_word \<and> (starts_with s ''failed'' \<and> ends_word (drop 6 s) \<or> starts_with s ''error:''))"

fun marker_in :: "char option \<Rightarrow> string \<Rightarrow> bool" where
  "marker_in prev [] = marker_at prev []"
| "marker_in prev (c # s) = (marker_at prev (c # s) \<or> marker_in (Some c) s)"

definition is_root_line :: "string \<Rightarrow> bool" where
  "is_root_line l = marker_in None (lower l)"

subsection \<open>The extraction\<close>

record normalized_failure =
  nf_command :: string
  nf_argv :: "string list"
  nf_status :: verification_status
  nf_exit :: "int option"
  nf_root :: string
  nf_relevant :: string

definition counts_as_failure :: "command_result \<Rightarrow> bool" where
  "counts_as_failure r = ((cr_required r \<or> cr_acceptance r) \<and> cr_status r \<noteq> PASSED)"

text \<open>The loop over the lines: right-stripped, dropping a non-empty repetition of the line before.\<close>

fun distinct_lines :: "string option \<Rightarrow> string list \<Rightarrow> string list" where
  "distinct_lines previous [] = []"
| "distinct_lines previous (raw # rest) =
     (let l = rstrip raw in
      if previous = Some l \<and> l \<noteq> [] then distinct_lines previous rest
      else l # distinct_lines (Some l) rest)"

definition failure_marker :: string where
  "failure_marker = newline # ''... normalized failure truncated ...'' @ [newline]"

definition cut_relevant :: "nat \<Rightarrow> string \<Rightarrow> string" where
  "cut_relevant max_chars s =
     (if length s \<le> max_chars then s
      else (let half = (max_chars - 40) div 2 in take half s @ failure_marker @ drop (length s - half) s))"

definition exit_text :: "int option \<Rightarrow> string" where
  "exit_text e =
     (case e of None \<Rightarrow> ''None'' | Some n \<Rightarrow> (if n < 0 then ''-'' else []) @ decimal (nat (abs n)))"

definition extract_failure :: "string \<Rightarrow> nat \<Rightarrow> verification_result \<Rightarrow> (command_result \<times> normalized_failure) option" where
  "extract_failure location max_chars result =
     (case find counts_as_failure (vr_commands result) of None \<Rightarrow> None
      | Some f \<Rightarrow>
          (let parts = filter (\<lambda>s. s \<noteq> []) [cr_stdout f, cr_stderr f];
               output = replace_all location ''<WORKTREE>'' (normalize_newlines (strip_ansi (join_with newline parts)));
               lines = distinct_lines None (splitlines output);
               meaningful = filter (\<lambda>l. strip l \<noteq> []) lines;
               roots = map strip (filter is_root_line meaningful);
               root_error = (if roots \<noteq> [] then last roots
                             else if meaningful \<noteq> [] then last meaningful
                             else ''command exited with '' @ exit_text (cr_exit f))
           in Some (f, \<lparr>nf_command = cr_name f, nf_argv = cr_argv f, nf_status = cr_status f, nf_exit = cr_exit f,
                nf_root = trim root_error, nf_relevant = trim (cut_relevant max_chars (join_with newline lines))\<rparr>)))"

subsection \<open>Facts\<close>

lemma extract_failure_none:
  "extract_failure location m r = None \<longleftrightarrow> (\<forall>c \<in> set (vr_commands r). \<not> counts_as_failure c)"
  by (auto simp: extract_failure_def Let_def find_None_iff split: option.splits dest: find_Some_in)

lemma cut_relevant_length: "48 \<le> max_chars \<Longrightarrow> length (cut_relevant max_chars s) \<le> max_chars"
  by (auto simp: cut_relevant_def Let_def failure_marker_def)

lemma extract_failure_some:
  assumes "extract_failure location m r = Some (f, n)"
  shows "f \<in> set (vr_commands r)" "counts_as_failure f" "nf_command n = cr_name f" "48 \<le> m \<Longrightarrow> length (nf_relevant n) \<le> m"
proof -
  obtain f' where f': "find counts_as_failure (vr_commands r) = Some f'"
    using assms by (auto simp: extract_failure_def split: option.splits)
  with assms have "f = f'" "nf_command n = cr_name f" by (auto simp: extract_failure_def Let_def)
  with find_Some_in [OF f'] show "f \<in> set (vr_commands r)" "counts_as_failure f" "nf_command n = cr_name f" by auto
  from assms f' obtain s where "nf_relevant n = trim (cut_relevant m s)" by (auto simp: extract_failure_def Let_def)
  then show "length (nf_relevant n) \<le> m" if "48 \<le> m" using trim_length cut_relevant_length [OF that] order_trans by metis
qed

text \<open>
  A verification that failed for an integrity violation alone has no failed command, and there is
  nothing to extract: the caller sees a \<open>ValueError\<close>.
\<close>

lemma violation_only_has_no_failure:
  "required_failures (vr_commands r) = [] \<Longrightarrow> list_all (\<lambda>c. cr_acceptance c \<longrightarrow> cr_status c = PASSED) (vr_commands r) \<Longrightarrow>
     extract_failure location m r = None"
  by (auto simp: extract_failure_none counts_as_failure_def required_failures_def filter_empty_conv list_all_iff)

end
