(* ===== verification/Agent_Session.thy ===== *)
theory Agent_Session
  imports Agent_Actions Inspection Prompt_Window Failures
begin

section \<open>The bounded agent session (agent/session.py)\<close>

text \<open>
  The deterministic controller of the coding loop over an explicit session state. What it works with is
  the record \<open>agent_env\<close>: the views of the worktree, the fingerprint, the model, the patch applier, the execution
  backend of each verification attempt, the context compiler and the prompt builder. A model call and an
  apply may raise; an exception that the loop does not handle ends it as \<open>Crash\<close>, a provider failure
  as \<open>Provider_Stop\<close>. Audit files are not part of the state. Long advice and messages are named by
  their deciding phrases.
\<close>

subsection \<open>Rejection classes\<close>

definition contains_any :: "string list \<Rightarrow> string \<Rightarrow> bool" where
  "contains_any ms s = list_ex (contains s) ms"

definition edit_actions :: "string list" where
  "edit_actions = [''propose_patch'', ''replace_text'', ''create_file'']"

definition not_passed_execution :: "verification_status list" where
  "not_passed_execution = [FAILED_CHECK, TIMED_OUT, ERROR]"

definition is_no_progress_edit_rejection :: "string \<Rightarrow> bool" where
  "is_no_progress_edit_rejection s =
     contains_any [''already exists in working directory'', ''depends on old contents'',
       ''old_text and new_text are identical''] s"

definition is_whitespace_patch_rejection :: "string \<Rightarrow> bool" where
  "is_whitespace_patch_rejection s =
     contains_any [''new blank line at EOF'', ''trailing whitespace'', ''space before tab'', ''indent with spaces''] s"

definition is_malformed_diff_rejection :: "string \<Rightarrow> bool" where
  "is_malformed_diff_rejection s =
     contains_any [''UnifiedDiffError:'', ''the previous two propose_patch attempts''] s"

subsection \<open>Records and state\<close>

datatype session_outcome = COMPLETE_SESSION | ESCALATION_SESSION

record turn_record =
  tr_turn :: nat
  tr_action :: string
  tr_accepted :: bool
  tr_summary :: string
  tr_evidence_ids :: "string list"
  tr_patch_attempt :: "nat option"
  tr_verification_run :: "nat option"
  tr_verification_status :: "verification_status option"
  tr_ledger :: "context_evidence list"
  tr_ledger_chars :: int
  tr_transmitted_chars :: nat
  tr_fit :: "window_fit option"

record session_result =
  sr_outcome :: session_outcome
  sr_reason :: string
  sr_turns :: nat
  sr_patch_attempts :: nat
  sr_verification_runs :: nat
  sr_changed :: "path list"
  sr_byproducts :: "path list"
  sr_records :: "turn_record list"
  sr_verifications :: "verification_result list"
  sr_coverage :: "acceptance_coverage list"

record agent_config =
  ac_max_turns :: nat
  ac_max_patch_attempts :: nat
  ac_max_verification_runs :: nat
  ac_max_search_results :: nat
  ac_max_read_lines :: nat
  ac_max_observation_chars :: nat
  ac_max_transmitted_chars :: nat

record agent_setup =
  su_spec :: task_specification
  su_config :: agent_config
  su_verification :: verification_config
  su_strict :: bool
  su_allow_tests :: bool
  su_allow_dependencies :: bool
  su_window :: "window_limits option"

datatype requirement =
    No_Inspect_Again | No_Repeat_Read | No_Duplicate_Edit | Prefer_Structured_Edit | Narrow_The_Edit | Correct_Latest_Edit

record prompt_inputs =
  pi_turn :: nat
  pi_evidence :: "context_evidence list"
  pi_history :: "turn_record history_turn list"
  pi_turns_left :: int
  pi_patches_left :: int
  pi_verifications_left :: int
  pi_chars_left :: int
  pi_commands :: "string list"
  pi_obligations :: "string list"
  pi_requirements :: "requirement list"

datatype model_answer = Answer string | Provider_Failed string | Call_Escaped string

datatype patch_outcome = Patch_Applied | Patch_Rejected string string | Patch_Escaped string

record 'w agent_env =
  ae_hash :: "string \<Rightarrow> digest"
  ae_view :: "'w \<Rightarrow> repo_view"
  ae_fingerprint :: "'w \<Rightarrow> digest"
  ae_model :: "nat \<Rightarrow> string \<Rightarrow> context_evidence list \<Rightarrow> model_answer"
  ae_apply :: "string \<Rightarrow> nat \<Rightarrow> 'w \<Rightarrow> patch_outcome \<times> 'w"
  ae_backend :: "nat \<Rightarrow> 'w backend"
  ae_os :: environment
  ae_manifests :: "'w \<Rightarrow> string + manifest_view"
  ae_location :: string
  ae_obligations :: "bool \<Rightarrow> bool \<Rightarrow> 'w \<Rightarrow> string list"
  ae_compile :: "'w \<Rightarrow> normalized_failure \<Rightarrow> context_evidence list \<times> string"
  ae_prompt :: "prompt_inputs \<Rightarrow> string"
  ae_tokens :: "string \<Rightarrow> int option"
  ae_udiff :: "string list \<Rightarrow> string list \<Rightarrow> string \<Rightarrow> string \<Rightarrow> string"
  ae_loads :: "string \<Rightarrow> json option"
  ae_int :: "json \<Rightarrow> int option"

record 'w session =
  ss_world :: 'w
  ss_base :: "context_evidence list"
  ss_head :: string
  ss_base_keys :: "(path \<times> nat option \<times> nat option \<times> digest) list"
  ss_observations :: "context_evidence list"
  ss_observation_chars :: int
  ss_patched :: "path list"
  ss_records :: "turn_record list"
  ss_verifications :: "verification_result list"
  ss_patch_attempts :: nat
  ss_verification_runs :: nat
  ss_cache :: "string list"
  ss_commands :: "digest \<rightharpoonup> (string \<rightharpoonup> verification_status)"
  ss_coverage :: "acceptance_coverage list"
  ss_fit :: "window_fit option"

definition new_session :: "'w \<Rightarrow> context_evidence list \<Rightarrow> string \<Rightarrow> 'w session" where
  "new_session w base head =
     \<lparr>ss_world = w, ss_base = base, ss_head = head, ss_base_keys = map evidence_key base, ss_observations = [],
      ss_observation_chars = 0, ss_patched = [], ss_records = [], ss_verifications = [], ss_patch_attempts = 0,
      ss_verification_runs = 0, ss_cache = [], ss_commands = Map.empty, ss_coverage = [], ss_fit = None\<rparr>"

definition executed_statuses :: "command_result list \<Rightarrow> (string \<rightharpoonup> verification_status) \<Rightarrow> (string \<rightharpoonup> verification_status)" where
  "executed_statuses rs m =
     fold (\<lambda>r m. if cr_status r = SKIPPED then m else m(cr_name r \<mapsto> cr_status r)) rs m"

text \<open>\<open>resume\<close>: the session that continues a finished one.\<close>

definition resume_session :: "'w agent_env \<Rightarrow> 'w \<Rightarrow> context_evidence list \<Rightarrow> string \<Rightarrow> session_result \<Rightarrow> 'w session" where
  "resume_session E w base head prior =
     (let s = new_session w base head;
          s1 = s\<lparr>ss_records := sr_records prior\<rparr>;
          s2 = (if sr_records prior = [] then s1
                else s1\<lparr>ss_observations := tr_ledger (last (sr_records prior)),
                        ss_observation_chars := tr_ledger_chars (last (sr_records prior))\<rparr>);
          s3 = s2\<lparr>ss_verifications := sr_verifications prior, ss_patch_attempts := sr_patch_attempts prior,
                  ss_verification_runs := sr_verification_runs prior, ss_coverage := sr_coverage prior\<rparr>
      in if sr_verifications prior = [] then s3
         else s3\<lparr>ss_commands := [ae_fingerprint E w \<mapsto>
                executed_statuses (vr_commands (last (sr_verifications prior))) Map.empty]\<rparr>)"

subsection \<open>The ledger and the record of a turn\<close>

definition transmitted_limit :: "agent_setup \<Rightarrow> nat" where
  "transmitted_limit U = min (ac_max_observation_chars (su_config U)) (ac_max_transmitted_chars (su_config U))"

definition transmitted_observations :: "'w agent_env \<Rightarrow> agent_setup \<Rightarrow> 'w session \<Rightarrow> context_evidence list" where
  "transmitted_observations E U s = compact_observations (ae_hash E) (ss_observations s) (transmitted_limit U)"

definition new_turn :: "nat \<Rightarrow> string \<Rightarrow> bool \<Rightarrow> string \<Rightarrow> turn_record" where
  "new_turn t a acc summary =
     \<lparr>tr_turn = t, tr_action = a, tr_accepted = acc, tr_summary = trim summary, tr_evidence_ids = [],
      tr_patch_attempt = None, tr_verification_run = None, tr_verification_status = None, tr_ledger = [],
      tr_ledger_chars = 0, tr_transmitted_chars = 0, tr_fit = None\<rparr>"

definition record_turn :: "'w agent_env \<Rightarrow> agent_setup \<Rightarrow> turn_record \<Rightarrow> 'w session \<Rightarrow> 'w session" where
  "record_turn E U r s =
     s\<lparr>ss_records := ss_records s @
       [r\<lparr>tr_fit := (case tr_fit r of None \<Rightarrow> ss_fit s | Some f \<Rightarrow> Some f), tr_ledger := ss_observations s,
          tr_ledger_chars := ss_observation_chars s,
          tr_transmitted_chars := total_chars (transmitted_observations E U s)\<rparr>]\<rparr>"

definition note_evidence ::
  "'w agent_env \<Rightarrow> agent_setup \<Rightarrow> context_evidence list \<Rightarrow> 'w session \<Rightarrow> string list \<times> 'w session" where
  "note_evidence E U es s =
     (let new = add_evidence (ae_hash E) (int (ac_max_observation_chars (su_config U)))
            (map evidence_key (ss_base s @ ss_observations s)) es (ss_observation_chars s)
      in (map ev_id new,
          s\<lparr>ss_observations := ss_observations s @ new,
            ss_observation_chars := ss_observation_chars s + int (total_chars new)\<rparr>))"

subsection \<open>What the records say\<close>

definition last_n :: "nat \<Rightarrow> 'a list \<Rightarrow> 'a list" where
  "last_n n xs = drop (length xs - n) xs"

definition repeated :: "nat \<Rightarrow> (turn_record \<Rightarrow> bool) \<Rightarrow> turn_record list \<Rightarrow> bool" where
  "repeated n P rs = (length (last_n n rs) = n \<and> list_all (\<lambda>r. \<not> tr_accepted r \<and> P r) (last_n n rs))"

definition malformed_diff_turn :: "turn_record \<Rightarrow> bool" where
  "malformed_diff_turn r = (tr_action r = ''propose_patch'' \<and> is_malformed_diff_rejection (tr_summary r))"

definition no_progress_turn :: "turn_record \<Rightarrow> bool" where
  "no_progress_turn r =
     (starts_with (tr_summary r) ''inspect_diff rejected: worktree unchanged''
      \<or> contains (tr_summary r) ''added no new evidence'')"

definition duplicate_edit_turn :: "turn_record \<Rightarrow> bool" where
  "duplicate_edit_turn r =
     (tr_action r \<in> set [''propose_patch'', ''replace_text''] \<and> is_no_progress_edit_rejection (tr_summary r))"

definition whitespace_turn :: "turn_record \<Rightarrow> bool" where
  "whitespace_turn r = (tr_action r \<in> set edit_actions \<and> is_whitespace_patch_rejection (tr_summary r))"

definition repeated_malformed_diff_block :: "turn_record list \<Rightarrow> bool" where
  "repeated_malformed_diff_block rs = repeated 2 malformed_diff_turn rs"

definition repeated_no_progress_stop_reason :: "turn_record list \<Rightarrow> string option" where
  "repeated_no_progress_stop_reason rs =
     (if repeated 3 no_progress_turn rs then Some ''coding model repeated prohibited no-progress repository observations''
      else if repeated 3 duplicate_edit_turn rs then Some ''coding model repeated a rejected no-op or duplicate edit''
      else if repeated 3 whitespace_turn rs then Some ''coding model repeated an edit rejected by the whitespace check''
      else if repeated 3 malformed_diff_turn rs then Some ''coding model repeated a malformed unified diff''
      else None)"

definition empty_inspection :: "turn_record \<Rightarrow> bool" where
  "empty_inspection r = (tr_action r = ''inspect_diff'' \<and> tr_summary r = ''current worktree has no diff'')"

definition next_action_requirements :: "'w agent_env \<Rightarrow> 'w session \<Rightarrow> requirement list" where
  "next_action_requirements E s =
     (let rs = ss_records s;
          rejected = (\<lambda>P. rs \<noteq> [] \<and> \<not> tr_accepted (last rs) \<and> P (last rs));
          edits = filter (\<lambda>r. tr_action r \<in> set [''propose_patch'', ''replace_text'']) rs
      in (if \<not> has_changes (ae_view E (ss_world s)) \<and> list_ex empty_inspection rs then [No_Inspect_Again] else [])
         @ (if rejected (\<lambda>r. contains (tr_summary r) ''added no new evidence'') then [No_Repeat_Read] else [])
         @ (if rejected (\<lambda>r. is_no_progress_edit_rejection (tr_summary r)) then [No_Duplicate_Edit] else [])
         @ (if rejected malformed_diff_turn then [Prefer_Structured_Edit] else [])
         @ (if rejected whitespace_turn then [Narrow_The_Edit] else [])
         @ (if edits \<noteq> [] \<and> \<not> tr_accepted (last edits) then [Correct_Latest_Edit] else []))"

subsection \<open>The prompt of a turn\<close>

definition stale_note :: string where
  "stale_note = '' [STALE: compiled before this session patched this file; use read_file for current content]''"

definition labelled :: "path list \<Rightarrow> context_evidence \<Rightarrow> context_evidence" where
  "labelled patched e =
     (if ev_path e \<in> set patched \<and> ev_kind e \<noteq> DIFF then e\<lparr>ev_reason := ev_reason e @ stale_note\<rparr> else e)"

definition renumbered :: "context_evidence list \<Rightarrow> context_evidence list" where
  "renumbered es = map (\<lambda>p. (snd p)\<lparr>ev_id := ''EV-'' @ pad3 (fst p)\<rparr>) (enumerate 1 es)"

definition context_for_turn :: "'w agent_env \<Rightarrow> agent_setup \<Rightarrow> 'w session \<Rightarrow> context_evidence list" where
  "context_for_turn E U s =
     renumbered (dedup_by evidence_key [] (map (labelled (ss_patched s)) (ss_base s) @ transmitted_observations E U s))"

definition history_of :: "turn_record list \<Rightarrow> turn_record history_turn list" where
  "history_of rs =
     map (\<lambda>r. \<lparr>ht_turn = tr_turn r, ht_action = tr_action r, ht_accepted = tr_accepted r, ht_summary = tr_summary r,
        ht_compacted = False, ht_details = [r\<lparr>tr_ledger := []\<rparr>]\<rparr>) rs"

definition verification_obligations :: "'w agent_env \<Rightarrow> agent_setup \<Rightarrow> 'w session \<Rightarrow> string list" where
  "verification_obligations E U s = ae_obligations E (su_allow_tests U) (su_allow_dependencies U) (ss_world s)"

definition build_prompt ::
  "'w agent_env \<Rightarrow> agent_setup \<Rightarrow> nat \<Rightarrow> 'w session \<Rightarrow> context_evidence list \<Rightarrow> turn_record history_turn list \<Rightarrow> string" where
  "build_prompt E U t s ev hist =
     (let c = su_config U in
      ae_prompt E
        \<lparr>pi_turn = t, pi_evidence = ev, pi_history = hist,
         pi_turns_left = int (ac_max_turns c) - int t + 1,
         pi_patches_left = int (ac_max_patch_attempts c) - int (ss_patch_attempts s),
         pi_verifications_left = int (ac_max_verification_runs c) - int (ss_verification_runs s),
         pi_chars_left = int (ac_max_observation_chars c) - ss_observation_chars s,
         pi_commands = map vc_name (vg_commands (su_verification U)),
         pi_obligations = verification_obligations E U s, pi_requirements = next_action_requirements E s\<rparr>)"

definition surviving_evidence :: "context_evidence list \<Rightarrow> string \<Rightarrow> context_evidence list" where
  "surviving_evidence es prompt = filter (\<lambda>e. contains prompt (''--- '' @ ev_id e @ '' '')) es"

definition fit_prompt ::
  "'w agent_env \<Rightarrow> agent_setup \<Rightarrow> nat \<Rightarrow> 'w session \<Rightarrow> window_fit + string \<times> context_evidence list \<times> window_fit option" where
  "fit_prompt E U t s =
     (let context = context_for_turn E U s; hist = history_of (ss_records s) in
      case su_window U of
        None \<Rightarrow> Inr (build_prompt E U t s context hist, context, None)
      | Some l \<Rightarrow>
          (case fit_prompt_to_window (build_prompt E U t s) (ae_tokens E) l
              (\<lambda>e. evidence_key e \<notin> set (ss_base_keys s)) context hist of
             Inl f \<Rightarrow> Inl f
           | Inr (prompt, f) \<Rightarrow>
               Inr (prompt, if wf_evidence f > 0 \<or> wf_observations f > 0 then surviving_evidence context prompt else context,
                    Some f)))"

subsection \<open>Verification inside the session\<close>

definition results_for :: "'w agent_env \<Rightarrow> 'w session \<Rightarrow> (string \<rightharpoonup> verification_status)" where
  "results_for E s = (case ss_commands s (ae_fingerprint E (ss_world s)) of None \<Rightarrow> Map.empty | Some m \<Rightarrow> m)"

definition cache_key :: "digest \<Rightarrow> verification_command list \<Rightarrow> string" where
  "cache_key d cs = d @ '':'' @ join_with (CHR '','') (sort (map vc_name cs))"

definition acceptance_failed :: "verification_result \<Rightarrow> bool" where
  "acceptance_failed r = list_ex (\<lambda>c. cr_acceptance c \<and> cr_status c \<in> set not_passed_execution) (vr_commands r)"

definition failure_evidence :: "'w agent_env \<Rightarrow> 'w session \<Rightarrow> normalized_failure \<Rightarrow> context_evidence" where
  "failure_evidence E s f =
     excerpt (ae_hash E) (''EV-AGENT-FAILURE-'' @ pad3 (ss_verification_runs s)) FAILURE
       (''<verification:'' @ nf_command f @ ''>'') None (ss_head s @ ''+working-tree'')
       ''normalized deterministic verification failure'' (nf_relevant f)"

definition failure_chars :: nat where
  "failure_chars = 8000"

text \<open>What \<open>_verify\<close> does with a result: a failed one is normalized into the ledger and the base context is rebuilt.\<close>

definition settle_verification ::
  "'w agent_env \<Rightarrow> agent_setup \<Rightarrow> verification_result \<Rightarrow> 'w session \<Rightarrow> (raised + verification_result) \<times> 'w session" where
  "settle_verification E U r s1 =
     (if vr_status r = PASSED \<and> \<not> acceptance_failed r then (Inr r, s1)
      else (case extract_failure (ae_location E) failure_chars r of
         None \<Rightarrow> (Inl (ESCAPED ''ValueError''), s1)
       | Some (_, f) \<Rightarrow>
           (let s2 = snd (note_evidence E U [failure_evidence E s1 f] s1);
                (base, head) = ae_compile E (ss_world s2) f
            in (Inr r, s2\<lparr>ss_base := base, ss_head := head\<rparr>))))"

definition verify ::
  "'w agent_env \<Rightarrow> agent_setup \<Rightarrow> verification_command list \<Rightarrow> 'w session \<Rightarrow> (raised + verification_result) \<times> 'w session" where
  "verify E U cs s =
     (let d = ae_fingerprint E (ss_world s); k = cache_key d cs in
      if k \<in> set (ss_cache s) then
        (Inl (INSPECTION (''identical verification already ran for the current diff; ''
           @ ''change the code or inspect the recorded failure'')), s)
      else if ac_max_verification_runs (su_config U) \<le> ss_verification_runs s then
        (Inl (INSPECTION ''verification-run budget is exhausted''), s)
      else
        (let n = Suc (ss_verification_runs s) in
         case run_verification (ae_backend E n) ((su_verification U)\<lparr>vg_commands := cs\<rparr>) (ae_os E) (ae_manifests E)
             (ts_task (su_spec U)) (ss_world s) of
           (Inl e, w) \<Rightarrow> (Inl (ESCAPED e), s\<lparr>ss_world := w, ss_verification_runs := n\<rparr>)
         | (Inr r, w) \<Rightarrow>
             (let m = (case ss_commands s d of None \<Rightarrow> Map.empty | Some m \<Rightarrow> m);
                  s1 = s\<lparr>ss_world := w, ss_verification_runs := n, ss_verifications := ss_verifications s @ [r],
                         ss_cache := ss_cache s @ [k],
                         ss_commands := (ss_commands s)(d \<mapsto> executed_statuses (vr_commands r) m)\<rparr>
              in settle_verification E U r s1)))"

definition all_required_checks_passed :: "'w agent_env \<Rightarrow> agent_setup \<Rightarrow> 'w session \<Rightarrow> bool" where
  "all_required_checks_passed E U s =
     list_all (\<lambda>c. vc_required c \<longrightarrow> results_for E s (vc_name c) = Some PASSED) (vg_commands (su_verification U))"

definition gap_evidence :: "'w agent_env \<Rightarrow> 'w session \<Rightarrow> acceptance_coverage list \<Rightarrow> (acceptance_coverage \<Rightarrow> string) \<Rightarrow> context_evidence" where
  "gap_evidence E s gaps describe =
     excerpt (ae_hash E) ''EV-ACCEPTANCE-GAP'' FAILURE ''<acceptance_coverage>'' None (ss_head s @ ''+working-tree'')
       ''unproven or failed acceptance criteria under the strict completion policy''
       (join_with newline (map describe gaps))"

text \<open>\<open>f"{criterion_id}: {status} -- {reason}"\<close>, the reason by the name of its branch.\<close>

definition coverage_line :: "acceptance_coverage \<Rightarrow> string" where
  "coverage_line c =
     cov_criterion c @ '': '' @ (case cov_status c of PROVEN \<Rightarrow> ''proven'' | FAILED_COVERAGE \<Rightarrow> ''failed'' | UNPROVEN \<Rightarrow> ''unproven'')
       @ '' -- '' @ (case cov_reason c of NotMapped \<Rightarrow> ''not mapped'' | NotConfigured \<Rightarrow> ''not configured''
          | NotAcceptance \<Rightarrow> ''not an acceptance check'' | CommandPassed \<Rightarrow> ''passed'' | CommandNotPassed _ \<Rightarrow> ''did not pass''
          | NotExecuted \<Rightarrow> ''not executed'')"

definition check_completion :: "'w agent_env \<Rightarrow> agent_setup \<Rightarrow> bool \<Rightarrow> 'w session \<Rightarrow> bool \<times> 'w session" where
  "check_completion E U passed s =
     (if \<not> passed then (False, s)
      else if \<not> su_strict U then (True, s)
      else
        (let cov = compute_acceptance_coverage (su_spec U) (vg_commands (su_verification U)) (results_for E s);
             s1 = s\<lparr>ss_coverage := cov\<rparr>
         in if acceptance_coverage_satisfied cov then (True, s1)
            else (False, snd (note_evidence E U [gap_evidence E s1 (filter (\<lambda>c. cov_status c \<noteq> PROVEN) cov) coverage_line] s1))))"

definition status_text :: "verification_status \<Rightarrow> string" where
  "status_text v =
     (case v of PASSED \<Rightarrow> ''passed'' | FAILED_CHECK \<Rightarrow> ''failed'' | TIMED_OUT \<Rightarrow> ''timed_out'' | ERROR \<Rightarrow> ''error''
      | SKIPPED \<Rightarrow> ''skipped'')"

definition record_verification ::
  "'w agent_env \<Rightarrow> agent_setup \<Rightarrow> nat \<Rightarrow> string \<Rightarrow> verification_result \<Rightarrow> 'w session \<Rightarrow> 'w session" where
  "record_verification E U t a r s =
     record_turn E U
       ((new_turn t a True
          (case find counts_as_failure (vr_commands r) of None \<Rightarrow> ''deterministic verification passed''
           | Some c \<Rightarrow> cr_name c @ '' '' @ status_text (cr_status c) @ '' with exit code '' @ exit_text (cr_exit c)))
        \<lparr>tr_verification_run := Some (ss_verification_runs s), tr_verification_status := Some (vr_status r)\<rparr>) s"

definition final_verification_needed :: "'w agent_env \<Rightarrow> agent_setup \<Rightarrow> 'w session \<Rightarrow> bool" where
  "final_verification_needed E U s =
     (if \<not> has_changes (ae_view E (ss_world s)) \<or> ac_max_verification_runs (su_config U) \<le> ss_verification_runs s then False
      else (case ss_commands s (ae_fingerprint E (ss_world s)) of None \<Rightarrow> True
        | Some m \<Rightarrow> \<not> list_all (\<lambda>c. vc_name c \<in> dom m) (vg_commands (su_verification U))))"

definition repairable_obligations :: "'w agent_env \<Rightarrow> agent_setup \<Rightarrow> 'w session \<Rightarrow> string list" where
  "repairable_obligations E U s =
     (let obligations = verification_obligations E U s in
      if obligations = [] \<or> ss_verifications s = [] then []
      else
        (let output = lower (join_with newline
               (map (\<lambda>c. cr_stdout c @ [newline] @ cr_stderr c) (vr_commands (last (ss_verifications s)))));
             scaffold = contains output ''start directory is not importable'' \<or> contains output ''no module named tests'';
             dependency = contains output ''no module named''
               \<and> list_ex (\<lambda>x. starts_with x ''Third-party Python imports'') obligations
         in if scaffold \<or> dependency then obligations else []))"

subsection \<open>One action\<close>

definition limits_of :: "agent_setup \<Rightarrow> inspection_limits" where
  "limits_of U = \<lparr>il_search_results = ac_max_search_results (su_config U), il_read_lines = ac_max_read_lines (su_config U),
     il_chars = ac_max_observation_chars (su_config U)\<rparr>"

definition apply_patch_action ::
  "'w agent_env \<Rightarrow> agent_setup \<Rightarrow> nat \<Rightarrow> string \<Rightarrow> string \<Rightarrow> 'w session \<Rightarrow> (raised + bool) \<times> 'w session" where
  "apply_patch_action E U t a patch s =
     (if ac_max_patch_attempts (su_config U) \<le> ss_patch_attempts s then
        (Inl (INSPECTION ''patch-attempt budget is exhausted''), s)
      else
        (let n = Suc (ss_patch_attempts s) in
         case ae_apply E patch n (ss_world s) of
           (Patch_Escaped e, w) \<Rightarrow> (Inl (ESCAPED e), s\<lparr>ss_patch_attempts := n, ss_world := w\<rparr>)
         | (Patch_Rejected kind message, w) \<Rightarrow>
             (let s1 = s\<lparr>ss_patch_attempts := n, ss_world := w\<rparr> in
              (Inr False, record_turn E U
                 ((new_turn t a False (take 4000 (kind @ '': '' @ message)))\<lparr>tr_patch_attempt := Some n\<rparr>) s1))
         | (Patch_Applied, w) \<Rightarrow>
             (let s1 = s\<lparr>ss_patch_attempts := n, ss_world := w,
                   ss_patched := ss_patched s @ (case parse_diff patch of Inl _ \<Rightarrow> [] | Inr d \<Rightarrow> diff_paths d)\<rparr>;
                  (ids, s2) = note_evidence E U
                    (case inspect_diff (ae_hash E) (ae_view E w) (limits_of U) of None \<Rightarrow> [] | Some e \<Rightarrow> [e]) s1
              in (Inr False, record_turn E U
                    ((new_turn t a True ''edit passed policy and was applied in the task worktree'')
                      \<lparr>tr_evidence_ids := ids, tr_patch_attempt := Some n\<rparr>) s2))))"

definition run_check :: "'w agent_env \<Rightarrow> agent_setup \<Rightarrow> nat \<Rightarrow> string \<Rightarrow> 'w session \<Rightarrow> (raised + bool) \<times> 'w session" where
  "run_check E U t name s =
     (case find (\<lambda>c. vc_name c = name) (vg_commands (su_verification U)) of
        None \<Rightarrow> (Inl (INSPECTION (''unknown verification command '' @ quoted name)), s)
      | Some c \<Rightarrow>
          (case verify E U [c] s of (Inl e, s1) \<Rightarrow> (Inl e, s1)
           | (Inr r, s1) \<Rightarrow>
               (let s2 = record_verification E U t ''run_check'' r s1;
                    (completed, s3) = check_completion E U (vr_status r = PASSED \<and> all_required_checks_passed E U s2) s2
                in (Inr completed, s3))))"

definition submit_for_verification :: "'w agent_env \<Rightarrow> agent_setup \<Rightarrow> nat \<Rightarrow> 'w session \<Rightarrow> (raised + bool) \<times> 'w session" where
  "submit_for_verification E U t s =
     (if \<not> has_changes (ae_view E (ss_world s)) then
        (Inl (INSPECTION ''full verification submission requires a non-empty worktree diff''), s)
      else
        (case verify E U (vg_commands (su_verification U)) s of (Inl e, s1) \<Rightarrow> (Inl e, s1)
         | (Inr r, s1) \<Rightarrow>
             (let s2 = record_verification E U t ''submit_for_verification'' r s1;
                  (completed, s3) = check_completion E U (vr_status r = PASSED) s2
              in (Inr completed, s3))))"

definition execute_search where
  "execute_search E U t query path_glob s =
     (case search_repository (ae_hash E) (ae_view E (ss_world s)) (limits_of U) query path_glob of
        Inl e \<Rightarrow> (Inl e, s)
      | Inr es \<Rightarrow>
          (let (ids, s1) = note_evidence E U es s in
           (Inr False, record_turn E U
              ((new_turn t ''search_repository'' True
                 (''literal search returned '' @ decimal (length es) @ '' bounded matches; '' @ decimal (length ids)
                    @ '' added to the context ledger''))\<lparr>tr_evidence_ids := ids\<rparr>) s1)))"

definition execute_read where
  "execute_read E U t path start end_line s =
     (case read_repository_file (ae_hash E) (ae_view E (ss_world s)) (limits_of U) path start end_line of
        Inl e \<Rightarrow> (Inl e, s)
      | Inr e \<Rightarrow>
          (let (ids, s1) = note_evidence E U [e] s in
           if ids = [] then
             (Inl (INSPECTION (''read_file rejected: the requested excerpt added no new evidence because it is already ''
                @ ''present or the observation budget has no remaining capacity; make a corrected edit'')), s1)
           else (Inr False, record_turn E U
              ((new_turn t ''read_file'' True (''read '' @ ev_path e))\<lparr>tr_evidence_ids := ids\<rparr>) s1)))"

definition execute_inspect where
  "execute_inspect E U t s =
     (if \<not> has_changes (ae_view E (ss_world s)) \<and> list_ex empty_inspection (ss_records s) then
        (Inl (INSPECTION (''inspect_diff rejected: worktree unchanged since the prior empty inspection; ''
           @ ''make a corrected edit using replace_text or propose_patch'')), s)
      else
        (let ev = inspect_diff (ae_hash E) (ae_view E (ss_world s)) (limits_of U);
             (ids, s1) = note_evidence E U (case ev of None \<Rightarrow> [] | Some e \<Rightarrow> [e]) s
         in if ev \<noteq> None \<and> ids = [] then
              (Inl (INSPECTION (''inspect_diff rejected: the current diff added no new evidence because it is already present ''
                 @ ''or the observation budget has no remaining capacity; make a corrected edit or run an allowed check'')), s1)
            else (Inr False, record_turn E U
              ((new_turn t ''inspect_diff'' True
                 (if ev \<noteq> None then ''current worktree diff added to context'' else ''current worktree has no diff''))
               \<lparr>tr_evidence_ids := ids\<rparr>) s1)))"

fun execute :: "'w agent_env \<Rightarrow> agent_setup \<Rightarrow> nat \<Rightarrow> agent_action \<Rightarrow> 'w session \<Rightarrow> (raised + bool) \<times> 'w session" where
  "execute E U t (Search_Repository q g) s = execute_search E U t q g s"
| "execute E U t (Read_File p a b) s = execute_read E U t p a b s"
| "execute E U t Inspect_Diff s = execute_inspect E U t s"
| "execute E U t (Propose_Patch d) s =
     (if repeated_malformed_diff_block (ss_records s) then
        (Inl (INSPECTION (''propose_patch rejected: the previous two propose_patch attempts both failed to parse as a ''
           @ ''well-formed unified diff. Do not retry propose_patch for this edit.'')), s)
      else apply_patch_action E U t ''propose_patch'' d s)"
| "execute E U t (Replace_Text p x y) s =
     (case replacement_patch (ae_udiff E) (ae_view E (ss_world s)) p x y of Inl e \<Rightarrow> (Inl e, s)
      | Inr d \<Rightarrow> apply_patch_action E U t ''replace_text'' d s)"
| "execute E U t (Create_File p c) s =
     (case new_file_patch (ae_view E (ss_world s)) p c of Inl e \<Rightarrow> (Inl e, s)
      | Inr d \<Rightarrow> apply_patch_action E U t ''create_file'' d s)"
| "execute E U t (Run_Check n) s = run_check E U t n s"
| "execute E U t Submit_For_Verification s = submit_for_verification E U t s"
| "execute E U t (Request_Escalation r) s = (Inl (ESCAPED ''TypeError''), s)"

subsection \<open>The loop\<close>

datatype turn_end = Continue | Stop session_outcome string | Provider_Stop string | Crash string

definition agent_turn :: "'w agent_env \<Rightarrow> agent_setup \<Rightarrow> nat \<Rightarrow> 'w session \<Rightarrow> turn_end \<times> 'w session" where
  "agent_turn E U t s =
     (case repeated_no_progress_stop_reason (ss_records s) of
        Some reason \<Rightarrow> (Stop ESCALATION_SESSION reason, s)
      | None \<Rightarrow>
          (case fit_prompt E U t s of
             Inl f \<Rightarrow>
               (Stop ESCALATION_SESSION ''prompt exceeds model context window'',
                record_turn E U ((new_turn t ''prompt_window_exceeded'' False
                  ''prompt exceeds the model context window and cannot be reduced further'')\<lparr>tr_fit := Some f\<rparr>) s)
           | Inr (prompt, context, f) \<Rightarrow>
               (let s1 = s\<lparr>ss_fit := f\<rparr> in
                case ae_model E t prompt context of
                  Provider_Failed e \<Rightarrow> (Provider_Stop e, s1)
                | Call_Escaped e \<Rightarrow> (Crash e, s1)
                | Answer content \<Rightarrow>
                    (case parse_agent_action (ae_loads E) (ae_int E) content of
                       Inl e \<Rightarrow> (Continue, record_turn E U (new_turn t ''invalid_action'' False (take 2000 e)) s1)
                     | Inr (Request_Escalation reason) \<Rightarrow>
                         (if repairable_obligations E U s1 \<noteq> [] then
                            (Continue, record_turn E U (new_turn t ''request_escalation'' False
                               (take 2000 (''escalation refused: the latest verification failure is repairable under the active ''
                                  @ ''patch policy. '' @ join_with (CHR '' '') (repairable_obligations E U s1)))) s1)
                          else (Stop ESCALATION_SESSION (''model requested escalation: '' @ reason),
                                record_turn E U (new_turn t ''request_escalation'' True reason) s1))
                     | Inr a \<Rightarrow>
                         (case execute E U t a s1 of
                            (Inl (INSPECTION e), s2) \<Rightarrow>
                              (Continue, record_turn E U (new_turn t (action_kind a) False (take 2000 e)) s2)
                          | (Inl (ESCAPED e), s2) \<Rightarrow> (Crash e, s2)
                          | (Inr True, s2) \<Rightarrow> (Stop COMPLETE_SESSION ''full deterministic verification passed'', s2)
                          | (Inr False, s2) \<Rightarrow> (Continue, s2))))))"

fun run_turns :: "'w agent_env \<Rightarrow> agent_setup \<Rightarrow> nat list \<Rightarrow> 'w session \<Rightarrow> turn_end \<times> 'w session" where
  "run_turns E U [] s = (Continue, s)"
| "run_turns E U (t # ts) s =
     (case agent_turn E U t s of (Continue, s1) \<Rightarrow> run_turns E U ts s1 | (e, s1) \<Rightarrow> (e, s1))"

definition budget_reason :: "agent_setup \<Rightarrow> string" where
  "budget_reason U = ''agent turn budget exhausted after '' @ decimal (ac_max_turns (su_config U)) @ '' turns''"

text \<open>What follows the last turn: the harness's own verification of edits newer than every check.\<close>

definition after_turns :: "'w agent_env \<Rightarrow> agent_setup \<Rightarrow> 'w session \<Rightarrow> turn_end \<times> 'w session" where
  "after_turns E U s =
     (if \<not> final_verification_needed E U s then (Stop ESCALATION_SESSION (budget_reason U), s)
      else
        (case verify E U (vg_commands (su_verification U)) s of
           (Inl (ESCAPED e), s1) \<Rightarrow> (Crash e, s1)
         | (Inl (INSPECTION e), s1) \<Rightarrow>
             (Stop ESCALATION_SESSION (budget_reason U @ ''; automatic final verification could not run: '' @ e), s1)
         | (Inr r, s1) \<Rightarrow>
             (case check_completion E U (vr_status r = PASSED \<and> all_required_checks_passed E U s1) s1 of
                (True, s2) \<Rightarrow> (Stop COMPLETE_SESSION ''automatic final deterministic verification passed'', s2)
              | (False, s2) \<Rightarrow>
                  (Stop ESCALATION_SESSION
                     (budget_reason U @ ''; automatic final deterministic verification did not pass''), s2))))"

definition session_result_of :: "'w agent_env \<Rightarrow> session_outcome \<Rightarrow> string \<Rightarrow> 'w session \<Rightarrow> session_result" where
  "session_result_of E out reason s =
     (let c = classified_changed_paths (ae_view E (ss_world s)) in
      \<lparr>sr_outcome = out, sr_reason = reason, sr_turns = length (ss_records s), sr_patch_attempts = ss_patch_attempts s,
       sr_verification_runs = ss_verification_runs s, sr_changed = cc_reviewable c, sr_byproducts = cc_generated c,
       sr_records = ss_records s, sr_verifications = ss_verifications s, sr_coverage = ss_coverage s\<rparr>)"

definition run_loop :: "'w agent_env \<Rightarrow> agent_setup \<Rightarrow> nat \<Rightarrow> 'w session \<Rightarrow> turn_end \<times> 'w session" where
  "run_loop E U start s =
     (case run_turns E U [start..<Suc (ac_max_turns (su_config U))] s of
        (Continue, s1) \<Rightarrow> after_turns E U s1 | (e, s1) \<Rightarrow> (e, s1))"

text \<open>\<open>run\<close>, with \<open>interrupted\<close> as the callers use it when the provider fails.\<close>

definition run_session :: "'w agent_env \<Rightarrow> agent_setup \<Rightarrow> nat \<Rightarrow> 'w session \<Rightarrow> (string + session_result) \<times> 'w session" where
  "run_session E U start s =
     (case run_loop E U start s of
        (Stop out reason, s1) \<Rightarrow> (Inr (session_result_of E out reason s1), s1)
      | (Provider_Stop e, s1) \<Rightarrow> (Inr (session_result_of E ESCALATION_SESSION (''provider call failed: '' @ e) s1), s1)
      | (Crash e, s1) \<Rightarrow> (Inl e, s1)
      | (Continue, s1) \<Rightarrow> (Inl [], s1))"

end
