(* ===== verification/Workflow_States.thy ===== *)
theory Workflow_States
  imports Prelude
begin

section \<open>The workflow state machine (workflow/states.py)\<close>

text \<open>
  The states of a task, the transition table of \<open>ALLOWED_TRANSITIONS\<close> and the check
  \<open>transition_is_allowed\<close>, then what the table promises: which states are terminal, that a
  task reaches \<open>COMPLETE\<close> only out of \<open>VERIFYING\<close>, and that every live state can be rolled
  back.
\<close>

datatype workflow_state =
    INTAKE | SPEC_DRAFTED | SPEC_APPROVED | REPOSITORY_ANALYZED | CONTEXT_COMPILED | ROUTED
  | IMPLEMENTING | PATCH_READY | VERIFYING | LOCAL_REPAIR | ESCALATION_REQUIRED
  | HUMAN_REVIEW_REQUIRED | COMPLETE | FAILED | ROLLED_BACK

fun allowed_transitions :: "workflow_state \<Rightarrow> workflow_state list" where
  "allowed_transitions INTAKE =
     [SPEC_DRAFTED, HUMAN_REVIEW_REQUIRED, FAILED, ROLLED_BACK]"
| "allowed_transitions SPEC_DRAFTED =
     [SPEC_APPROVED, HUMAN_REVIEW_REQUIRED, FAILED, ROLLED_BACK]"
| "allowed_transitions SPEC_APPROVED =
     [REPOSITORY_ANALYZED, HUMAN_REVIEW_REQUIRED, FAILED, ROLLED_BACK]"
| "allowed_transitions REPOSITORY_ANALYZED =
     [CONTEXT_COMPILED, HUMAN_REVIEW_REQUIRED, FAILED, ROLLED_BACK]"
| "allowed_transitions CONTEXT_COMPILED =
     [ROUTED, HUMAN_REVIEW_REQUIRED, FAILED, ROLLED_BACK]"
| "allowed_transitions ROUTED =
     [IMPLEMENTING, HUMAN_REVIEW_REQUIRED, FAILED, ROLLED_BACK]"
| "allowed_transitions IMPLEMENTING =
     [PATCH_READY, ESCALATION_REQUIRED, HUMAN_REVIEW_REQUIRED, FAILED, ROLLED_BACK]"
| "allowed_transitions PATCH_READY =
     [VERIFYING, IMPLEMENTING, HUMAN_REVIEW_REQUIRED, FAILED, ROLLED_BACK]"
| "allowed_transitions VERIFYING =
     [COMPLETE, LOCAL_REPAIR, ESCALATION_REQUIRED, HUMAN_REVIEW_REQUIRED, FAILED, ROLLED_BACK]"
| "allowed_transitions LOCAL_REPAIR =
     [PATCH_READY, ESCALATION_REQUIRED, HUMAN_REVIEW_REQUIRED, FAILED, ROLLED_BACK]"
| "allowed_transitions ESCALATION_REQUIRED =
     [IMPLEMENTING, HUMAN_REVIEW_REQUIRED, FAILED, ROLLED_BACK]"
| "allowed_transitions HUMAN_REVIEW_REQUIRED =
     [SPEC_DRAFTED, SPEC_APPROVED, IMPLEMENTING, PATCH_READY, VERIFYING, FAILED, ROLLED_BACK]"
| "allowed_transitions COMPLETE = [ROLLED_BACK]"
| "allowed_transitions FAILED = [INTAKE, IMPLEMENTING, PATCH_READY, ROLLED_BACK]"
| "allowed_transitions ROLLED_BACK = []"

definition transition_is_allowed :: "workflow_state \<Rightarrow> workflow_state \<Rightarrow> bool" where
  "transition_is_allowed source target = (target \<in> set (allowed_transitions source))"

inductive workflow_step :: "workflow_state \<Rightarrow> workflow_state \<Rightarrow> bool" where
  edge: "transition_is_allowed s t \<Longrightarrow> workflow_step s t"

inductive_simps workflow_step_iff: "workflow_step s t"
inductive_cases workflow_stepE: "workflow_step s t"

text \<open>A state_walk through the table: consecutive states are edges of it.\<close>

fun state_walk :: "workflow_state \<Rightarrow> workflow_state list \<Rightarrow> bool" where
  "state_walk s [] = True"
| "state_walk s (t # ts) = (transition_is_allowed s t \<and> state_walk t ts)"

lemma walk_append: "state_walk s (xs @ ys) \<longleftrightarrow> state_walk s xs \<and> state_walk (last (s # xs)) ys"
  by (induction xs arbitrary: s) auto

lemma walk_rtranclp: "state_walk s ts \<Longrightarrow> workflow_step\<^sup>*\<^sup>* s (last (s # ts))"
  by (induction ts arbitrary: s)
    (auto intro: converse_rtranclp_into_rtranclp workflow_step.intros)

subsection \<open>What the table promises\<close>

lemma no_self_transition: "\<not> transition_is_allowed s s"
  by (cases s) (simp_all add: transition_is_allowed_def)

lemma into_complete: "transition_is_allowed s COMPLETE \<longleftrightarrow> s = VERIFYING"
  by (cases s) (simp_all add: transition_is_allowed_def)

lemma into_verifying:
  "transition_is_allowed s VERIFYING \<longleftrightarrow> s = PATCH_READY \<or> s = HUMAN_REVIEW_REQUIRED"
  by (cases s) (simp_all add: transition_is_allowed_def)

lemma into_spec_approved:
  "transition_is_allowed s SPEC_APPROVED \<longleftrightarrow> s = SPEC_DRAFTED \<or> s = HUMAN_REVIEW_REQUIRED"
  by (cases s) (simp_all add: transition_is_allowed_def)

lemma out_of_complete: "transition_is_allowed COMPLETE t \<longleftrightarrow> t = ROLLED_BACK"
  by (simp add: transition_is_allowed_def)

lemma rolled_back_terminal: "\<not> transition_is_allowed ROLLED_BACK t"
  by (simp add: transition_is_allowed_def)

lemma rollback_available: "s \<noteq> ROLLED_BACK \<Longrightarrow> transition_is_allowed s ROLLED_BACK"
  by (cases s) (simp_all add: transition_is_allowed_def)

lemma walk_from_rolled_back: "state_walk ROLLED_BACK ts \<longleftrightarrow> ts = []"
  by (cases ts) (simp_all add: rolled_back_terminal)

text \<open>Every visit of \<open>COMPLETE\<close> on a state_walk is entered from \<open>VERIFYING\<close>.\<close>

lemma walk_complete_pred:
  "state_walk s (xs @ COMPLETE # ys) \<Longrightarrow> last (s # xs) = VERIFYING"
  by (simp add: walk_append into_complete)

end
