(* ===== verification/Task_Store.thy ===== *)
theory Task_Store
  imports Workflow_States
begin

section \<open>The persistent task store (workflow/engine.py, workflow/events.py)\<close>

text \<open>
  \<open>SQLiteTaskStore\<close> over its two tables. A table is the list of its rows in row-id order; the
  SQL statements the code issues are the functions of the first subsection, with the primary
  key, the \<open>UNIQUE\<close> and foreign-key constraints and the \<open>AUTOINCREMENT\<close> counter written out.
  Each method is one transaction body that yields an error or a new database, and
  \<open>run_txn\<close> is the \<open>try/commit/except/rollback\<close> around it. Event identifiers (fresh UUIDs) and
  the clock are arguments. A specification is any value with a task identifier; the JSON text
  of it is not modelled, nor is the text of error messages. A payload is a list of key and
  JSON-value texts, stored sorted by key. Times are integers: the code compares ISO strings of
  one time zone, whose order is the order of the times.
\<close>

datatype store_error =
    TaskStoreError | TaskNotFoundError | InvalidTransitionError | ConcurrentTransitionError
  | StoreValueError | IntegrityError

datatype workflow_actor = SYSTEM | USER | OPERATOR | VERIFICATION_ENGINE

type_synonym payload = "(string \<times> string) list"

record 's task_row =
  tr_id :: string
  tr_spec :: 's
  tr_state :: workflow_state
  tr_version :: int
  tr_created :: int
  tr_updated :: int

record event_row =
  er_sequence :: nat
  er_event_id :: string
  er_task :: string
  er_type :: string
  er_from :: "workflow_state option"
  er_to :: workflow_state
  er_actor :: workflow_actor
  er_payload :: payload
  er_created :: int

record 's task_db =
  db_tasks :: "'s task_row list"
  db_events :: "event_row list"
  db_next :: nat

subsection \<open>The SQL statements\<close>

definition empty_db :: "'s task_db" where
  "empty_db = \<lparr>db_tasks = [], db_events = [], db_next = 1\<rparr>"

definition select_task :: "string \<Rightarrow> 's task_db \<Rightarrow> 's task_row option" where
  "select_task tid db = find (\<lambda>r. tr_id r = tid) (db_tasks db)"

definition insert_task :: "'s task_row \<Rightarrow> 's task_db \<Rightarrow> store_error + 's task_db" where
  "insert_task row db =
     (if list_ex (\<lambda>r. tr_id r = tr_id row) (db_tasks db) \<or> tr_version row < 1 then Inl IntegrityError
      else Inr (db\<lparr>db_tasks := db_tasks db @ [row]\<rparr>))"

definition insert_event ::
  "string \<Rightarrow> string \<Rightarrow> string \<Rightarrow> workflow_state option \<Rightarrow> workflow_state \<Rightarrow> workflow_actor \<Rightarrow> payload \<Rightarrow> int
    \<Rightarrow> 's task_db \<Rightarrow> store_error + 's task_db" where
  "insert_event eid tid etype src tgt actor pl now db =
     (if list_ex (\<lambda>e. er_event_id e = eid) (db_events db)
         \<or> \<not> list_ex (\<lambda>r. tr_id r = tid) (db_tasks db) then Inl IntegrityError
      else Inr (db\<lparr>db_events := db_events db @
             [\<lparr>er_sequence = db_next db, er_event_id = eid, er_task = tid, er_type = etype,
               er_from = src, er_to = tgt, er_actor = actor, er_payload = pl, er_created = now\<rparr>],
             db_next := Suc (db_next db)\<rparr>))"

definition row_matches :: "string \<Rightarrow> int \<Rightarrow> 's task_row \<Rightarrow> bool" where
  "row_matches tid v r = (tr_id r = tid \<and> tr_version r = v)"

text \<open>\<open>UPDATE tasks SET ... WHERE task_id = ? AND version = ?\<close>, with its row count.\<close>

definition update_task_where ::
  "string \<Rightarrow> int \<Rightarrow> ('s task_row \<Rightarrow> 's task_row) \<Rightarrow> 's task_db \<Rightarrow> nat \<times> 's task_db" where
  "update_task_where tid v f db =
     (length (filter (row_matches tid v) (db_tasks db)),
      db\<lparr>db_tasks := map (\<lambda>r. if row_matches tid v r then f r else r) (db_tasks db)\<rparr>)"

definition delete_events_of :: "string \<Rightarrow> 's task_db \<Rightarrow> 's task_db" where
  "delete_events_of tid db = db\<lparr>db_events := filter (\<lambda>e. er_task e \<noteq> tid) (db_events db)\<rparr>"

definition delete_task_where :: "string \<Rightarrow> int \<Rightarrow> 's task_db \<Rightarrow> nat \<times> 's task_db" where
  "delete_task_where tid v db =
     (length (filter (row_matches tid v) (db_tasks db)),
      db\<lparr>db_tasks := filter (\<lambda>r. \<not> row_matches tid v r) (db_tasks db)\<rparr>)"

text \<open>\<open>BEGIN IMMEDIATE\<close> ... \<open>commit\<close>, rolled back when the body raises.\<close>

definition run_txn ::
  "('s task_db \<Rightarrow> store_error + 's task_db) \<Rightarrow> 's task_db \<Rightarrow> 's task_db \<times> (store_error + unit)" where
  "run_txn body db = (case body db of Inl e \<Rightarrow> (db, Inl e) | Inr db' \<Rightarrow> (db', Inr ()))"

definition and_then :: "'e + 'a \<Rightarrow> ('a \<Rightarrow> 'e + 'b) \<Rightarrow> 'e + 'b" where
  "and_then r f = (case r of Inl e \<Rightarrow> Inl e | Inr x \<Rightarrow> f x)"

lemma and_then_Inr: "and_then r f = Inr y \<longleftrightarrow> (\<exists>x. r = Inr x \<and> f x = Inr y)"
  by (cases r) (auto simp: and_then_def)

subsection \<open>The methods of the store\<close>

definition get_task :: "'s task_db \<Rightarrow> string \<Rightarrow> store_error + 's task_row" where
  "get_task db tid = (case select_task tid db of None \<Rightarrow> Inl TaskNotFoundError | Some r \<Rightarrow> Inr r)"

definition return_task ::
  "'s task_db \<times> (store_error + unit) \<Rightarrow> string \<Rightarrow> 's task_db \<times> (store_error + 's task_row)" where
  "return_task res tid =
     (fst res, case snd res of Inl e \<Rightarrow> Inl e | Inr _ \<Rightarrow> get_task (fst res) tid)"

definition create_body ::
  "string \<Rightarrow> string \<Rightarrow> 's \<Rightarrow> workflow_actor \<Rightarrow> int \<Rightarrow> 's task_db \<Rightarrow> store_error + 's task_db" where
  "create_body eid tid spec actor now db =
     and_then (insert_task \<lparr>tr_id = tid, tr_spec = spec, tr_state = INTAKE, tr_version = 1,
                            tr_created = now, tr_updated = now\<rparr> db)
       (insert_event eid tid ''task_created'' None INTAKE actor [] now)"

definition create_task ::
  "string \<Rightarrow> string \<Rightarrow> 's \<Rightarrow> workflow_actor \<Rightarrow> int \<Rightarrow> 's task_db
    \<Rightarrow> 's task_db \<times> (store_error + 's task_row)" where
  "create_task eid tid spec actor now db =
     (case run_txn (create_body eid tid spec actor now) db of
        (db', Inl IntegrityError) \<Rightarrow> (db', Inl TaskStoreError)
      | res \<Rightarrow> return_task res tid)"

definition list_tasks :: "'s task_db \<Rightarrow> int \<Rightarrow> store_error + 's task_row list" where
  "list_tasks db limit =
     (if limit < 1 then Inl StoreValueError
      else Inr (take (nat limit) (sort_key (\<lambda>r. - tr_created r) (db_tasks db))))"

definition version_conflict :: "int option \<Rightarrow> int \<Rightarrow> bool" where
  "version_conflict expected v = (case expected of None \<Rightarrow> False | Some e \<Rightarrow> v \<noteq> e)"

definition sorted_payload :: "payload option \<Rightarrow> payload" where
  "sorted_payload p = (case p of None \<Rightarrow> [] | Some kvs \<Rightarrow> sort_key fst kvs)"

definition transition_body ::
  "string \<Rightarrow> string \<Rightarrow> workflow_state \<Rightarrow> workflow_actor \<Rightarrow> string \<Rightarrow> payload option \<Rightarrow> int option \<Rightarrow> int
    \<Rightarrow> 's task_db \<Rightarrow> store_error + 's task_db" where
  "transition_body eid tid target actor etype pl expected now db =
     (case select_task tid db of
        None \<Rightarrow> Inl TaskNotFoundError
      | Some row \<Rightarrow>
          (let source = tr_state row; version = tr_version row in
           if version_conflict expected version then Inl ConcurrentTransitionError
           else if \<not> transition_is_allowed source target then Inl InvalidTransitionError
           else
             (let (n, db1) = update_task_where tid version
                   (\<lambda>r. r\<lparr>tr_state := target, tr_version := tr_version r + 1, tr_updated := now\<rparr>) db in
              if n \<noteq> 1 then Inl ConcurrentTransitionError
              else insert_event eid tid etype (Some source) target actor (sorted_payload pl) now db1)))"

definition transition ::
  "string \<Rightarrow> string \<Rightarrow> workflow_state \<Rightarrow> workflow_actor \<Rightarrow> string \<Rightarrow> payload option \<Rightarrow> int option \<Rightarrow> int
    \<Rightarrow> 's task_db \<Rightarrow> 's task_db \<times> (store_error + 's task_row)" where
  "transition eid tid target actor etype pl expected now db =
     (if strip etype = [] then (db, Inl StoreValueError)
      else return_task (run_txn (transition_body eid tid target actor etype pl expected now) db) tid)"

definition spec_editable :: "workflow_state \<Rightarrow> bool" where
  "spec_editable s = (s \<in> set [INTAKE, SPEC_DRAFTED, HUMAN_REVIEW_REQUIRED])"

definition update_spec_body ::
  "string \<Rightarrow> string \<Rightarrow> 's \<Rightarrow> workflow_actor \<Rightarrow> int option \<Rightarrow> int \<Rightarrow> 's task_db \<Rightarrow> store_error + 's task_db" where
  "update_spec_body eid tid spec actor expected now db =
     (case select_task tid db of
        None \<Rightarrow> Inl TaskNotFoundError
      | Some row \<Rightarrow>
          (let state = tr_state row; version = tr_version row in
           if version_conflict expected version then Inl ConcurrentTransitionError
           else if \<not> spec_editable state then Inl InvalidTransitionError
           else
             (let (n, db1) = update_task_where tid version
                   (\<lambda>r. r\<lparr>tr_spec := spec, tr_version := tr_version r + 1, tr_updated := now\<rparr>) db in
              if n \<noteq> 1 then Inl ConcurrentTransitionError
              else insert_event eid tid ''specification_updated'' (Some state) state actor [] now db1)))"

definition update_specification ::
  "string \<Rightarrow> string \<Rightarrow> 's \<Rightarrow> workflow_actor \<Rightarrow> int option \<Rightarrow> int
    \<Rightarrow> 's task_db \<Rightarrow> 's task_db \<times> (store_error + 's task_row)" where
  "update_specification eid tid spec actor expected now db =
     return_task (run_txn (update_spec_body eid tid spec actor expected now) db) tid"

definition task_events :: "string \<Rightarrow> 's task_db \<Rightarrow> event_row list" where
  "task_events tid db = filter (\<lambda>e. er_task e = tid) (db_events db)"

definition events :: "'s task_db \<Rightarrow> string \<Rightarrow> store_error + event_row list" where
  "events db tid =
     (case get_task db tid of Inl e \<Rightarrow> Inl e
      | Inr _ \<Rightarrow> Inr (sort_key er_sequence (task_events tid db)))"

text \<open>
  \<open>delete_task\<close> reads the record and checks its state before its transaction begins, so it is
  two steps: other clients may run between them.
\<close>

definition delete_read :: "'s task_db \<Rightarrow> string \<Rightarrow> workflow_state list \<Rightarrow> store_error + 's task_row" where
  "delete_read db tid allowed =
     (case get_task db tid of Inl e \<Rightarrow> Inl e
      | Inr r \<Rightarrow> if tr_state r \<in> set allowed then Inr r else Inl TaskStoreError)"

definition delete_commit_body :: "string \<Rightarrow> int \<Rightarrow> 's task_db \<Rightarrow> store_error + 's task_db" where
  "delete_commit_body tid v db =
     (let (n, db1) = delete_task_where tid v (delete_events_of tid db) in
      if n \<noteq> 1 then Inl ConcurrentTransitionError else Inr db1)"

definition delete_commit ::
  "'s task_row \<Rightarrow> 's task_db \<Rightarrow> 's task_db \<times> (store_error + 's task_row)" where
  "delete_commit r db =
     (case run_txn (delete_commit_body (tr_id r) (tr_version r)) db of
        (db', Inl e) \<Rightarrow> (db', Inl e) | (db', Inr _) \<Rightarrow> (db', Inr r))"

definition delete_task ::
  "string \<Rightarrow> workflow_state list \<Rightarrow> 's task_db \<Rightarrow> 's task_db \<times> (store_error + 's task_row)" where
  "delete_task tid allowed db =
     (case delete_read db tid allowed of Inl e \<Rightarrow> (db, Inl e) | Inr r \<Rightarrow> delete_commit r db)"

end
