(* ===== verification/Task_Log.thy ===== *)
theory Task_Log
  imports Task_Store
begin

section \<open>The event log of the task store: invariant and abstract history\<close>

text \<open>
  The well-formedness of the two tables: keys are unique, sequences grow, and the events of a
  task replay, edge by edge of the transition table, from its creation to the state and the
  version of its row. The abstract specification of the store is a map from task identifiers to
  histories (the lists of states visited); every successful method is one abstract update of it
  and a failed one changes nothing.
\<close>

subsection \<open>Logs that replay\<close>

fun edge_ok :: "workflow_state option \<Rightarrow> workflow_state \<Rightarrow> bool" where
  "edge_ok None t = (t = INTAKE)"
| "edge_ok (Some s) t = (transition_is_allowed s t \<or> (s = t \<and> spec_editable s))"

fun log_ok :: "workflow_state option \<Rightarrow> event_row list \<Rightarrow> bool" where
  "log_ok s [] = True"
| "log_ok s (e # es) = (er_from e = s \<and> edge_ok s (er_to e) \<and> log_ok (Some (er_to e)) es)"

definition row_logged :: "event_row list \<Rightarrow> 's task_row \<Rightarrow> bool" where
  "row_logged es r =
     (es \<noteq> [] \<and> log_ok None es \<and> er_to (last es) = tr_state r \<and> tr_version r = int (length es))"

definition wf_db :: "'s task_db \<Rightarrow> bool" where
  "wf_db db =
     (distinct (map tr_id (db_tasks db)) \<and> distinct (map er_event_id (db_events db))
      \<and> sorted_wrt (<) (map er_sequence (db_events db))
      \<and> (\<forall>e \<in> set (db_events db). er_sequence e < db_next db \<and> er_task e \<in> tr_id ` set (db_tasks db))
      \<and> (\<forall>r \<in> set (db_tasks db). row_logged (task_events (tr_id r) db) r))"

lemma log_ok_snoc:
  "log_ok s (es @ [e]) \<longleftrightarrow>
     log_ok s es \<and> er_from e = (if es = [] then s else Some (er_to (last es)))
     \<and> edge_ok (if es = [] then s else Some (er_to (last es))) (er_to e)"
  by (induction es arbitrary: s) auto

lemma log_ok_first: "log_ok None es \<Longrightarrow> es \<noteq> [] \<Longrightarrow> er_to (hd es) = INTAKE"
  by (cases es) auto

lemma log_ok_complete:
  "log_ok s (xs @ e # ys) \<Longrightarrow> er_to e = COMPLETE \<Longrightarrow> er_from e = Some VERIFYING"
proof (induction xs arbitrary: s)
  case Nil
  then show ?case by (cases s) (auto simp: into_complete spec_editable_def)
next
  case (Cons x xs)
  then show ?case by auto
qed

subsection \<open>Rows and statements\<close>

lemma select_task_SomeD:
  "select_task tid db = Some r \<Longrightarrow> r \<in> set (db_tasks db) \<and> tr_id r = tid"
  by (auto simp: select_task_def dest: find_Some_in)

lemma select_task_None: "select_task tid db = None \<longleftrightarrow> tid \<notin> tr_id ` set (db_tasks db)"
  by (auto simp: select_task_def find_None_iff_none)

lemma select_task_unique:
  "distinct (map tr_id (db_tasks db)) \<Longrightarrow> r \<in> set (db_tasks db) \<Longrightarrow> select_task (tr_id r) db = Some r"
  by (cases "select_task (tr_id r) db")
    (auto simp: select_task_None dest!: select_task_SomeD intro: inj_on_contraD
      dest: distinct_map [THEN iffD1] simp: distinct_map inj_on_def)

lemma filter_one:
  "distinct (map f xs) \<Longrightarrow> x \<in> set xs \<Longrightarrow> filter (\<lambda>y. f y = f x) xs = [x]"
proof (induction xs)
  case Nil
  then show ?case by simp
next
  case (Cons y ys)
  show ?case
  proof (cases "x = y")
    case True
    with Cons.prems have "f z \<noteq> f x" if "z \<in> set ys" for z
      using that by (simp add: rev_image_eqI) (metis imageI)
    then show ?thesis using True by (simp add: filter_False)
  next
    case False
    with Cons show ?thesis by (auto simp: image_iff)
  qed
qed

lemma matching_rows:
  assumes "distinct (map tr_id (db_tasks db))" and "r \<in> set (db_tasks db)"
  shows "filter (row_matches (tr_id r) (tr_version r)) (db_tasks db) = [r]"
proof -
  have "filter (row_matches (tr_id r) (tr_version r)) (db_tasks db)
      = filter (\<lambda>s. tr_version s = tr_version r) (filter (\<lambda>s. tr_id s = tr_id r) (db_tasks db))"
    unfolding row_matches_def filter_filter ..
  then show ?thesis using filter_one [OF assms] by simp
qed

text \<open>The in-place update of the one row with a given key and version.\<close>

definition set_row :: "'s task_row \<Rightarrow> 's task_row \<Rightarrow> 's task_db \<Rightarrow> 's task_db" where
  "set_row r r' db = db\<lparr>db_tasks := map (\<lambda>x. if x = r then r' else x) (db_tasks db)\<rparr>"

lemma update_task_where_row:
  assumes d: "distinct (map tr_id (db_tasks db))" and r: "r \<in> set (db_tasks db)"
  shows "update_task_where (tr_id r) (tr_version r) f db = (1, set_row r (f r) db)"
proof -
  have m: "row_matches (tr_id r) (tr_version r) x \<longleftrightarrow> x = r" if "x \<in> set (db_tasks db)" for x
    using that d r by (auto simp: row_matches_def distinct_map inj_on_def)
  show ?thesis
    using m by (simp add: update_task_where_def set_row_def matching_rows [OF d r] cong: map_cong)
qed

lemma set_row_ids:
  "tr_id r' = tr_id r \<Longrightarrow> map tr_id (db_tasks (set_row r r' db)) = map tr_id (db_tasks db)"
  by (simp add: set_row_def)

lemma set_row_set:
  "r \<in> set (db_tasks db) \<Longrightarrow> set (db_tasks (set_row r r' db)) = insert r' (set (db_tasks db) - {r})"
  by (auto simp: set_row_def)

lemma set_row_frame [simp]:
  "db_events (set_row r r' db) = db_events db" "db_next (set_row r r' db) = db_next db"
  "task_events t (set_row r r' db) = task_events t db"
  by (simp_all add: set_row_def task_events_def)

lemma task_events_snoc:
  "task_events t (db\<lparr>db_events := db_events db @ [e], db_next := n\<rparr>)
     = (if er_task e = t then task_events t db @ [e] else task_events t db)"
  by (simp add: task_events_def)

subsection \<open>One logged change of one row\<close>

text \<open>
  The effect shared by \<open>transition\<close> and \<open>update_specification\<close>: one row is replaced and one
  event is appended under a fresh identifier.
\<close>

definition log_step :: "'s task_row \<Rightarrow> 's task_row \<Rightarrow> event_row \<Rightarrow> 's task_db \<Rightarrow> 's task_db" where
  "log_step r r' e db =
     (set_row r r' db)\<lparr>db_events := db_events db @ [e], db_next := Suc (db_next db)\<rparr>"

definition fresh_event :: "string \<Rightarrow> 's task_db \<Rightarrow> bool" where
  "fresh_event eid db = (eid \<notin> er_event_id ` set (db_events db))"

lemma log_step_events:
  "task_events t (log_step r r' e db)
     = (if er_task e = t then task_events t db @ [e] else task_events t db)"
  by (simp add: log_step_def task_events_def)

lemma log_step_wf:
  assumes wf: "wf_db db" and r: "r \<in> set (db_tasks db)"
    and r': "tr_id r' = tr_id r" "tr_version r' = tr_version r + 1" "tr_state r' = er_to e"
    and e: "er_task e = tr_id r" "er_from e = Some (tr_state r)" "er_sequence e = db_next db"
    and edge: "edge_ok (Some (tr_state r)) (er_to e)"
    and fresh: "fresh_event (er_event_id e) db"
  shows "wf_db (log_step r r' e db)"
proof -
  let ?db = "log_step r r' e db"
  have ids: "map tr_id (db_tasks ?db) = map tr_id (db_tasks db)"
    using r' by (simp add: log_step_def set_row_ids)
  then have idset: "tr_id ` set (db_tasks ?db) = tr_id ` set (db_tasks db)"
    by (metis list.set_map)
  have seqs: "sorted_wrt (<) (map er_sequence (db_events ?db))"
    using wf e by (auto simp: log_step_def wf_db_def sorted_wrt_append)
  have evs: "\<forall>x \<in> set (db_events ?db). er_sequence x < db_next ?db \<and> er_task x \<in> tr_id ` set (db_tasks ?db)"
    unfolding idset using wf e r by (auto simp: log_step_def wf_db_def intro: less_SucI)
  have rows: "row_logged (task_events (tr_id q) ?db) q" if q: "q \<in> set (db_tasks ?db)" for q
  proof (cases "q = r'")
    case True
    have "row_logged (task_events (tr_id r) db) r"
      using wf r by (simp add: wf_db_def)
    then show ?thesis
      using True r' e edge by (auto simp: row_logged_def log_step_events log_ok_snoc)
  next
    case False
    with q r have q': "q \<in> set (db_tasks db)" "q \<noteq> r"
      by (auto simp: log_step_def set_row_set)
    with wf r have "tr_id q \<noteq> tr_id r"
      by (auto simp: wf_db_def distinct_map inj_on_def)
    with wf q' e show ?thesis by (simp add: wf_db_def log_step_events)
  qed
  have "distinct (map er_event_id (db_events ?db))"
    using wf fresh by (auto simp: log_step_def wf_db_def fresh_event_def)
  with ids seqs evs rows wf show ?thesis
    by (simp add: wf_db_def)
qed

lemma insert_event_after_set_row:
  assumes "r \<in> set (db_tasks db)" and "tr_id r' = tr_id r"
  shows "insert_event eid (tr_id r) ty src tgt actor pl now (set_row r r' db) =
    (if fresh_event eid db
     then Inr (log_step r r' \<lparr>er_sequence = db_next db, er_event_id = eid, er_task = tr_id r,
            er_type = ty, er_from = src, er_to = tgt, er_actor = actor, er_payload = pl,
            er_created = now\<rparr> db)
     else Inl IntegrityError)"
proof -
  have "list_ex (\<lambda>q. tr_id q = tr_id r) (db_tasks (set_row r r' db))"
    using assms by (auto simp: set_row_set list_ex_iff)
  then show ?thesis
    by (auto simp: insert_event_def fresh_event_def list_ex_iff log_step_def image_iff)
qed

subsection \<open>The methods as logged changes\<close>

definition transition_row :: "workflow_state \<Rightarrow> int \<Rightarrow> 's task_row \<Rightarrow> 's task_row" where
  "transition_row t now r = r\<lparr>tr_state := t, tr_version := tr_version r + 1, tr_updated := now\<rparr>"

definition spec_row :: "'s \<Rightarrow> int \<Rightarrow> 's task_row \<Rightarrow> 's task_row" where
  "spec_row spec now r = r\<lparr>tr_spec := spec, tr_version := tr_version r + 1, tr_updated := now\<rparr>"

lemma transition_row_simps [simp]:
  "tr_id (transition_row t now r) = tr_id r" "tr_state (transition_row t now r) = t"
  "tr_version (transition_row t now r) = tr_version r + 1" "tr_spec (transition_row t now r) = tr_spec r"
  by (simp_all add: transition_row_def)

lemma spec_row_simps [simp]:
  "tr_id (spec_row sp now r) = tr_id r" "tr_state (spec_row sp now r) = tr_state r"
  "tr_version (spec_row sp now r) = tr_version r + 1" "tr_spec (spec_row sp now r) = sp"
  by (simp_all add: spec_row_def)

definition task_event ::
  "'s task_db \<Rightarrow> string \<Rightarrow> string \<Rightarrow> string \<Rightarrow> workflow_state \<Rightarrow> workflow_state \<Rightarrow> workflow_actor \<Rightarrow> payload
    \<Rightarrow> int \<Rightarrow> event_row" where
  "task_event db eid tid ty src tgt actor pl now =
     \<lparr>er_sequence = db_next db, er_event_id = eid, er_task = tid, er_type = ty, er_from = Some src,
      er_to = tgt, er_actor = actor, er_payload = pl, er_created = now\<rparr>"

lemma transition_body_eq:
  assumes wf: "wf_db db"
  shows "transition_body eid tid target actor ty pl expected now db =
    (case select_task tid db of None \<Rightarrow> Inl TaskNotFoundError
     | Some r \<Rightarrow>
         if version_conflict expected (tr_version r) then Inl ConcurrentTransitionError
         else if \<not> transition_is_allowed (tr_state r) target then Inl InvalidTransitionError
         else if fresh_event eid db
           then Inr (log_step r (transition_row target now r)
             (task_event db eid tid ty (tr_state r) target actor (sorted_payload pl) now) db)
         else Inl IntegrityError)"
proof (cases "select_task tid db")
  case None
  then show ?thesis by (simp add: transition_body_def)
next
  case (Some r)
  then have r: "r \<in> set (db_tasks db)" "tr_id r = tid" by (auto dest: select_task_SomeD)
  have "update_task_where tid (tr_version r)
      (\<lambda>r. r\<lparr>tr_state := target, tr_version := tr_version r + 1, tr_updated := now\<rparr>) db
      = (1, set_row r (transition_row target now r) db)"
    using update_task_where_row [of db r "transition_row target now"] wf r
    by (simp add: wf_db_def transition_row_def [abs_def])
  then show ?thesis
    using Some r insert_event_after_set_row [of r db "transition_row target now r"]
    by (simp add: transition_body_def task_event_def)
qed

lemma update_spec_body_eq:
  assumes wf: "wf_db db"
  shows "update_spec_body eid tid spec actor expected now db =
    (case select_task tid db of None \<Rightarrow> Inl TaskNotFoundError
     | Some r \<Rightarrow>
         if version_conflict expected (tr_version r) then Inl ConcurrentTransitionError
         else if \<not> spec_editable (tr_state r) then Inl InvalidTransitionError
         else if fresh_event eid db
           then Inr (log_step r (spec_row spec now r)
             (task_event db eid tid ''specification_updated'' (tr_state r) (tr_state r) actor [] now) db)
         else Inl IntegrityError)"
proof (cases "select_task tid db")
  case None
  then show ?thesis by (simp add: update_spec_body_def)
next
  case (Some r)
  then have r: "r \<in> set (db_tasks db)" "tr_id r = tid" by (auto dest: select_task_SomeD)
  have "update_task_where tid (tr_version r)
      (\<lambda>r. r\<lparr>tr_spec := spec, tr_version := tr_version r + 1, tr_updated := now\<rparr>) db
      = (1, set_row r (spec_row spec now r) db)"
    using update_task_where_row [of db r "spec_row spec now"] wf r
    by (simp add: wf_db_def spec_row_def [abs_def])
  then show ?thesis
    using Some r insert_event_after_set_row [of r db "spec_row spec now r"]
    by (simp add: update_spec_body_def task_event_def Let_def)
qed

lemma create_body_eq:
  assumes wf: "wf_db db"
  shows "create_body eid tid spec actor now db =
    (if select_task tid db \<noteq> None \<or> \<not> fresh_event eid db then Inl IntegrityError
     else Inr (db\<lparr>db_tasks := db_tasks db @ [\<lparr>tr_id = tid, tr_spec = spec, tr_state = INTAKE,
         tr_version = 1, tr_created = now, tr_updated = now\<rparr>],
       db_events := db_events db @ [\<lparr>er_sequence = db_next db, er_event_id = eid, er_task = tid,
         er_type = ''task_created'', er_from = None, er_to = INTAKE, er_actor = actor,
         er_payload = [], er_created = now\<rparr>], db_next := Suc (db_next db)\<rparr>))"
  by (cases "select_task tid db")
    (auto simp: create_body_def and_then_def insert_task_def insert_event_def fresh_event_def
      list_ex_iff select_task_None image_iff dest!: select_task_SomeD)

lemma create_wf:
  assumes wf: "wf_db db" and "create_body eid tid spec actor now db = Inr db'"
  shows "wf_db db'"
proof -
  from assms have new: "tid \<notin> tr_id ` set (db_tasks db)" and fresh: "fresh_event eid db"
    and db': "db' = db\<lparr>db_tasks := db_tasks db @ [\<lparr>tr_id = tid, tr_spec = spec, tr_state = INTAKE,
         tr_version = 1, tr_created = now, tr_updated = now\<rparr>],
       db_events := db_events db @ [\<lparr>er_sequence = db_next db, er_event_id = eid, er_task = tid,
         er_type = ''task_created'', er_from = None, er_to = INTAKE, er_actor = actor,
         er_payload = [], er_created = now\<rparr>], db_next := Suc (db_next db)\<rparr>"
    by (auto simp: create_body_eq select_task_None split: if_splits)
  have none: "task_events tid db = []"
    using wf new by (auto simp: wf_db_def task_events_def filter_empty_conv)
  have old: "task_events (tr_id r) db' = task_events (tr_id r) db" if "r \<in> set (db_tasks db)" for r
    using that new by (auto simp: db' task_events_def)
  have "row_logged (task_events (tr_id r) db') r" if "r \<in> set (db_tasks db')" for r
  proof (cases "r \<in> set (db_tasks db)")
    case True
    with wf old show ?thesis by (simp add: wf_db_def)
  next
    case False
    with that none show ?thesis by (auto simp: db' task_events_def row_logged_def)
  qed
  with wf new fresh show ?thesis
    by (auto simp: wf_db_def db' fresh_event_def sorted_wrt_append intro: less_SucI)
qed

lemma transition_wf:
  assumes wf: "wf_db db"
    and ok: "transition_body eid tid target actor ty pl expected now db = Inr db'"
  shows "wf_db db'"
proof -
  from ok wf obtain r where r: "select_task tid db = Some r"
    and edge: "transition_is_allowed (tr_state r) target" and fresh: "fresh_event eid db"
    and db': "db' = log_step r (transition_row target now r)
      (task_event db eid tid ty (tr_state r) target actor (sorted_payload pl) now) db"
    by (auto simp: transition_body_eq split: option.splits if_splits)
  from r have "r \<in> set (db_tasks db)" "tr_id r = tid" by (auto dest: select_task_SomeD)
  with wf edge fresh show ?thesis
    unfolding db' by (intro log_step_wf) (simp_all add: task_event_def)
qed

lemma update_spec_wf:
  assumes wf: "wf_db db"
    and ok: "update_spec_body eid tid spec actor expected now db = Inr db'"
  shows "wf_db db'"
proof -
  from ok wf obtain r where r: "select_task tid db = Some r"
    and edge: "spec_editable (tr_state r)" and fresh: "fresh_event eid db"
    and db': "db' = log_step r (spec_row spec now r)
      (task_event db eid tid ''specification_updated'' (tr_state r) (tr_state r) actor [] now) db"
    by (auto simp: update_spec_body_eq split: option.splits if_splits)
  from r have "r \<in> set (db_tasks db)" "tr_id r = tid" by (auto dest: select_task_SomeD)
  with wf edge fresh show ?thesis
    unfolding db' by (intro log_step_wf) (simp_all add: task_event_def)
qed

lemma delete_body_Inr:
  assumes wf: "wf_db db" and ok: "delete_commit_body tid v db = Inr db'"
  obtains r where "select_task tid db = Some r" and "tr_version r = v"
    and "db_tasks db' = filter (\<lambda>x. tr_id x \<noteq> tid) (db_tasks db)"
    and "db_events db' = filter (\<lambda>e. er_task e \<noteq> tid) (db_events db)"
    and "db_next db' = db_next db"
proof -
  from ok have one: "length (filter (row_matches tid v) (db_tasks db)) = 1"
    and db': "db' = (delete_events_of tid db)
        \<lparr>db_tasks := filter (\<lambda>r. \<not> row_matches tid v r) (db_tasks db)\<rparr>"
    by (auto simp: delete_commit_body_def delete_task_where_def delete_events_of_def split: if_splits)
  from one obtain r where "filter (row_matches tid v) (db_tasks db) = [r]"
    by (auto simp: length_Suc_conv)
  then have "r \<in> set (filter (row_matches tid v) (db_tasks db))" by simp
  then have r: "r \<in> set (db_tasks db)" "tr_id r = tid" "tr_version r = v"
    by (simp_all add: row_matches_def)
  then have sel: "select_task tid db = Some r"
    using wf select_task_unique by (auto simp: wf_db_def)
  have "row_matches tid v x \<longleftrightarrow> tr_id x = tid" if "x \<in> set (db_tasks db)" for x
    using that r wf by (auto simp: row_matches_def wf_db_def distinct_map inj_on_def)
  then have "db_tasks db' = filter (\<lambda>x. tr_id x \<noteq> tid) (db_tasks db)"
    by (simp add: db' cong: filter_cong)
  with sel r that show thesis
    by (simp add: db' delete_events_of_def)
qed

lemma sorted_wrt_map_filter: "sorted_wrt (<) (map f xs) \<Longrightarrow> sorted_wrt (<) (map f (filter P xs))"
  by (induction xs) auto

lemma delete_wf:
  assumes wf: "wf_db db" and ok: "delete_commit_body tid v db = Inr db'"
  shows "wf_db db'"
proof -
  from delete_body_Inr [OF assms] obtain r where
    t: "db_tasks db' = filter (\<lambda>x. tr_id x \<noteq> tid) (db_tasks db)" and
    e: "db_events db' = filter (\<lambda>e. er_task e \<noteq> tid) (db_events db)" and
    n: "db_next db' = db_next db" by blast
  have "task_events (tr_id q) db' = task_events (tr_id q) db" if "q \<in> set (db_tasks db')" for q
    using that by (auto simp: task_events_def t e intro: filter_cong)
  with wf show ?thesis
    by (auto simp: wf_db_def t e n distinct_map_filter sorted_wrt_map_filter)
qed

subsection \<open>Operations of clients and reachable databases\<close>

text \<open>
  Clients interleave whole transactions. \<open>delete_task\<close> appears as its second step, for whatever
  record an earlier read returned.
\<close>

datatype 's store_op =
    Create string string 's workflow_actor int
  | Transition string string workflow_state workflow_actor string "payload option" "int option" int
  | UpdateSpec string string 's workflow_actor "int option" int
  | DeleteCommit "'s task_row"

fun store_exec :: "'s task_db \<Rightarrow> 's store_op \<Rightarrow> 's task_db" where
  "store_exec db (Create eid tid spec actor now) = fst (create_task eid tid spec actor now db)"
| "store_exec db (Transition eid tid tgt actor ty pl expected now) =
     fst (transition eid tid tgt actor ty pl expected now db)"
| "store_exec db (UpdateSpec eid tid spec actor expected now) =
     fst (update_specification eid tid spec actor expected now db)"
| "store_exec db (DeleteCommit r) = fst (delete_commit r db)"

fun store_body :: "'s store_op \<Rightarrow> 's task_db \<Rightarrow> store_error + 's task_db" where
  "store_body (Create eid tid spec actor now) = create_body eid tid spec actor now"
| "store_body (Transition eid tid tgt actor ty pl expected now) =
     (\<lambda>db. if strip ty = [] then Inl StoreValueError
           else transition_body eid tid tgt actor ty pl expected now db)"
| "store_body (UpdateSpec eid tid spec actor expected now) =
     update_spec_body eid tid spec actor expected now"
| "store_body (DeleteCommit r) = delete_commit_body (tr_id r) (tr_version r)"

lemma store_exec_body:
  "store_exec db x = (case store_body x db of Inl _ \<Rightarrow> db | Inr db' \<Rightarrow> db')"
  by (cases x)
    (auto simp: create_task_def transition_def update_specification_def delete_commit_def
      return_task_def run_txn_def split: sum.splits store_error.splits)

lemma store_body_wf: "wf_db db \<Longrightarrow> store_body x db = Inr db' \<Longrightarrow> wf_db db'"
  by (cases x) (auto intro: create_wf transition_wf update_spec_wf delete_wf split: if_splits)

lemma store_exec_wf: "wf_db db \<Longrightarrow> wf_db (store_exec db x)"
  by (auto simp: store_exec_body intro: store_body_wf split: sum.splits)

lemma wf_empty_db: "wf_db empty_db"
  by (simp add: wf_db_def empty_db_def)

interpretation task_store: invariant_system empty_db "\<lambda>_ _. True" store_exec wf_db
  by unfold_locales (auto intro: wf_empty_db store_exec_wf)

definition reachable_db :: "'s store_op list \<Rightarrow> 's task_db" where
  "reachable_db xs = foldl store_exec empty_db xs"

lemma wf_reachable: "wf_db (reachable_db xs)"
  unfolding reachable_db_def by (rule task_store.inv_reachable) (rule permitted_always, rule TrueI)

subsection \<open>The abstract history and the refinement\<close>

definition history :: "'s task_db \<Rightarrow> string \<rightharpoonup> workflow_state list" where
  "history db tid =
     (case select_task tid db of None \<Rightarrow> None | Some _ \<Rightarrow> Some (map er_to (task_events tid db)))"

inductive history_step ::
  "(string \<rightharpoonup> workflow_state list) \<Rightarrow> (string \<rightharpoonup> workflow_state list) \<Rightarrow> bool" where
  created: "h tid = None \<Longrightarrow> history_step h (h(tid \<mapsto> [INTAKE]))"
| moved: "h tid = Some ss \<Longrightarrow> ss \<noteq> [] \<Longrightarrow> transition_is_allowed (last ss) t \<Longrightarrow>
     history_step h (h(tid \<mapsto> ss @ [t]))"
| respecified: "h tid = Some ss \<Longrightarrow> ss \<noteq> [] \<Longrightarrow> spec_editable (last ss) \<Longrightarrow>
     history_step h (h(tid \<mapsto> ss @ [last ss]))"
| removed: "h tid = Some ss \<Longrightarrow> history_step h (h(tid := None))"

lemma history_Some:
  assumes "wf_db db" and "select_task tid db = Some r"
  shows "history db tid = Some (map er_to (task_events tid db)) \<and> task_events tid db \<noteq> []
    \<and> last (map er_to (task_events tid db)) = tr_state r"
  using assms
  by (auto simp: history_def wf_db_def row_logged_def last_map dest!: select_task_SomeD)

lemma select_set_row:
  assumes d: "distinct (map tr_id (db_tasks db))" and r: "r \<in> set (db_tasks db)" and "tr_id r' = tr_id r"
  shows "select_task t (log_step r r' e db) = (if t = tr_id r then Some r' else select_task t db)"
proof -
  let ?db = "log_step r r' e db"
  have d': "distinct (map tr_id (db_tasks ?db))"
    using assms by (simp add: log_step_def set_row_ids)
  have set: "set (db_tasks ?db) = insert r' (set (db_tasks db) - {r})"
    using r by (simp add: log_step_def set_row_set)
  show ?thesis
  proof (cases "t = tr_id r")
    case True
    then show ?thesis using select_task_unique [OF d', of r'] assms set by simp
  next
    case False
    show ?thesis
    proof (cases "select_task t db")
      case None
      then have "select_task t ?db = None"
        using False assms(3) by (auto simp: select_task_None set)
      with None False show ?thesis by simp
    next
      case (Some q)
      with False have "q \<in> set (db_tasks ?db)" "tr_id q = t"
        by (auto simp: set dest: select_task_SomeD)
      with select_task_unique [OF d'] Some False show ?thesis by auto
    qed
  qed
qed

lemma select_log_step:
  assumes wf: "wf_db db" and q: "select_task t db = Some q" and q': "tr_id q' = t"
  shows "select_task u (log_step q q' e db) = (if u = t then Some q' else select_task u db)"
  using select_set_row [of db q q' u e] wf q q' by (auto simp: wf_db_def dest: select_task_SomeD)

lemma history_log_step:
  assumes wf: "wf_db db" and r: "select_task tid db = Some r"
    and "tr_id r' = tid" and "er_task e = tid"
  shows "history (log_step r r' e db) =
    (history db)(tid \<mapsto> map er_to (task_events tid db) @ [er_to e])"
proof -
  from r have "r \<in> set (db_tasks db)" "tr_id r = tid" by (auto dest: select_task_SomeD)
  then have "select_task t (log_step r r' e db) = (if t = tid then Some r' else select_task t db)" for t
    using wf assms(3) by (simp add: select_set_row wf_db_def)
  then show ?thesis
    using assms(4) by (auto simp: fun_eq_iff history_def log_step_events split: option.splits)
qed

lemma history_create:
  assumes wf: "wf_db db" and ok: "create_body eid tid spec actor now db = Inr db'"
  shows "history db tid = None \<and> history db' = (history db)(tid \<mapsto> [INTAKE])"
proof -
  from ok wf have new: "select_task tid db = None"
    and db': "db' = db\<lparr>db_tasks := db_tasks db @ [\<lparr>tr_id = tid, tr_spec = spec, tr_state = INTAKE,
         tr_version = 1, tr_created = now, tr_updated = now\<rparr>],
       db_events := db_events db @ [\<lparr>er_sequence = db_next db, er_event_id = eid, er_task = tid,
         er_type = ''task_created'', er_from = None, er_to = INTAKE, er_actor = actor,
         er_payload = [], er_created = now\<rparr>], db_next := Suc (db_next db)\<rparr>"
    by (auto simp: create_body_eq split: if_splits)
  have none: "task_events tid db = []"
    using wf new by (auto simp: wf_db_def task_events_def filter_empty_conv select_task_None)
  have "history db' t = ((history db)(tid \<mapsto> [INTAKE])) t" for t
    using new none
    by (auto simp: history_def db' select_task_def find_append task_events_def split: option.splits)
  with new show ?thesis by (auto simp: history_def)
qed

lemma history_delete:
  assumes wf: "wf_db db" and ok: "delete_commit_body tid v db = Inr db'"
  shows "history db tid \<noteq> None \<and> history db' = (history db)(tid := None)"
proof -
  from delete_body_Inr [OF assms] obtain r where sel: "select_task tid db = Some r" and
    t: "db_tasks db' = filter (\<lambda>x. tr_id x \<noteq> tid) (db_tasks db)" and
    e: "db_events db' = filter (\<lambda>e. er_task e \<noteq> tid) (db_events db)" by blast
  have find_filter: "find (\<lambda>x. tr_id x = q) (filter (\<lambda>x. tr_id x \<noteq> tid) xs)
      = (if q = tid then None else find (\<lambda>x. tr_id x = q) xs)" for q and xs :: "'a task_row list"
    by (induction xs) auto
  have evs: "task_events q db' = task_events q db" if "q \<noteq> tid" for q
    unfolding task_events_def e filter_filter using that by (intro filter_cong) auto
  have "history db' q = ((history db)(tid := None)) q" for q
    by (cases "q = tid") (simp_all add: history_def select_task_def t find_filter evs split: option.split)
  with sel show ?thesis by (auto simp: history_def)
qed

subsection \<open>Properties\<close>

text \<open>
  C6: from the empty database, whatever transactions clients run, both tables stay well formed:
  unique identifiers, growing sequences, no orphan events, and for every task a log that replays
  along the transition table from its creation to the state and version its row shows.
\<close>

theorem store_log_replays: "wf_db (reachable_db xs)"
  by (rule wf_reachable)

text \<open>A method with what it returns, and the step of the history specification a call asks for.\<close>

fun store_call :: "'s store_op \<Rightarrow> 's task_db \<Rightarrow> 's task_db \<times> (store_error + 's task_row)" where
  "store_call (Create eid tid spec actor now) = create_task eid tid spec actor now"
| "store_call (Transition eid tid tgt actor ty pl expected now) = transition eid tid tgt actor ty pl expected now"
| "store_call (UpdateSpec eid tid spec actor expected now) = update_specification eid tid spec actor expected now"
| "store_call (DeleteCommit r) = delete_commit r"

fun store_target :: "'s store_op \<Rightarrow> string" where
  "store_target (Create eid tid spec actor now) = tid"
| "store_target (Transition eid tid tgt actor ty pl expected now) = tid"
| "store_target (UpdateSpec eid tid spec actor expected now) = tid"
| "store_target (DeleteCommit r) = tr_id r"

fun history_call :: "'s store_op \<Rightarrow> (string \<rightharpoonup> workflow_state list) \<Rightarrow> (string \<rightharpoonup> workflow_state list) option" where
  "history_call (Create eid tid spec actor now) h = (if h tid = None then Some (h(tid \<mapsto> [INTAKE])) else None)"
| "history_call (Transition eid tid tgt actor ty pl expected now) h =
     (case h tid of None \<Rightarrow> None
      | Some ss \<Rightarrow> if transition_is_allowed (last ss) tgt then Some (h(tid \<mapsto> ss @ [tgt])) else None)"
| "history_call (UpdateSpec eid tid spec actor expected now) h =
     (case h tid of None \<Rightarrow> None
      | Some ss \<Rightarrow> if spec_editable (last ss) then Some (h(tid \<mapsto> ss @ [last ss])) else None)"
| "history_call (DeleteCommit r) h = (if h (tr_id r) = None then None else Some (h(tr_id r := None)))"

text \<open>What else a method refuses: a stale version, an event identifier that is taken, a blank event type.\<close>

fun refused_by_store :: "'s store_op \<Rightarrow> 's task_db \<Rightarrow> bool" where
  "refused_by_store (Create eid tid spec actor now) db = (\<not> fresh_event eid db)"
| "refused_by_store (Transition eid tid tgt actor ty pl expected now) db =
     (strip ty = [] \<or> \<not> fresh_event eid db
      \<or> (case select_task tid db of None \<Rightarrow> False | Some r \<Rightarrow> version_conflict expected (tr_version r)))"
| "refused_by_store (UpdateSpec eid tid spec actor expected now) db =
     (\<not> fresh_event eid db \<or> (case select_task tid db of None \<Rightarrow> False | Some r \<Rightarrow> version_conflict expected (tr_version r)))"
| "refused_by_store (DeleteCommit q) db =
     (case select_task (tr_id q) db of None \<Rightarrow> False | Some r \<Rightarrow> tr_version r \<noteq> tr_version q)"

lemma store_call_body:
  "fst (store_call x db) = (case store_body x db of Inl _ \<Rightarrow> db | Inr db' \<Rightarrow> db')"
  "store_body x db = Inl e \<Longrightarrow> isl (snd (store_call x db))"
  by (cases x; auto simp: create_task_def transition_def update_specification_def delete_commit_def
      return_task_def run_txn_def split: sum.splits store_error.splits)+

lemma history_None_iff: "history db tid = None \<longleftrightarrow> select_task tid db = None"
  by (simp add: history_def split: option.split)

lemma delete_body_Inl:
  assumes wf: "wf_db db" and no: "delete_commit_body tid v db = Inl e"
  shows "select_task tid db = None \<or> (\<exists>r. select_task tid db = Some r \<and> tr_version r \<noteq> v)"
proof (rule ccontr)
  assume "\<not> ?thesis"
  then obtain r where "select_task tid db = Some r" "tr_version r = v" by auto
  then have r: "r \<in> set (db_tasks db)" "row_matches tid v r" by (auto simp: row_matches_def dest: select_task_SomeD)
  have "filter (row_matches tid v) rows = [r]" if dist: "distinct (map tr_id rows)" and mem: "r \<in> set rows" for rows
  proof -
    obtain us vs where eq: "rows = us @ r # vs" using split_list [OF mem] by blast
    have "\<not> row_matches tid v q" if "q \<in> set us \<union> set vs" for q
    proof -
      from dist that have "tr_id q \<noteq> tr_id r" by (auto simp: eq image_iff)
      with r(2) show ?thesis by (auto simp: row_matches_def)
    qed
    then have "filter (row_matches tid v) us = []" "filter (row_matches tid v) vs = []" by (auto simp: filter_empty_conv)
    with r(2) show ?thesis by (simp add: eq)
  qed
  with wf r(1) have "filter (row_matches tid v) (db_tasks db) = [r]" by (simp add: wf_db_def)
  with no show False by (simp add: delete_commit_body_def delete_task_where_def delete_events_of_def)
qed

lemma history_call_step:
  "history_call x h = Some h' \<Longrightarrow> (\<And>tid. h tid \<noteq> Some []) \<Longrightarrow> history_step h h'"
  by (cases x) (auto intro: history_step.intros split: option.splits if_splits)

lemma history_nonempty: "wf_db db \<Longrightarrow> history db tid \<noteq> Some []"
  by (auto simp: history_def wf_db_def row_logged_def split: option.splits dest!: select_task_SomeD)

lemma store_body_call:
  assumes wf: "wf_db db" and ok: "store_body x db = Inr db'"
  shows "history_call x (history db) = Some (history db')"
proof (cases x)
  case (Create eid tid spec actor now)
  with history_create [OF wf] ok show ?thesis by auto
next
  case (Transition eid tid tgt actor ty pl expected now)
  with ok wf obtain r where r: "select_task tid db = Some r"
    and edge: "transition_is_allowed (tr_state r) tgt"
    and db': "db' = log_step r (transition_row tgt now r)
      (task_event db eid tid ty (tr_state r) tgt actor (sorted_payload pl) now) db"
    by (auto simp: transition_body_eq split: option.splits if_splits)
  from r have "tr_id r = tid" by (auto dest: select_task_SomeD)
  then have "history db' = (history db)(tid \<mapsto> map er_to (task_events tid db) @ [tgt])"
    by (simp add: db' history_log_step [OF wf r] task_event_def)
  with history_Some [OF wf r] edge Transition show ?thesis by simp
next
  case (UpdateSpec eid tid spec actor expected now)
  with ok wf obtain r where r: "select_task tid db = Some r"
    and edge: "spec_editable (tr_state r)"
    and db': "db' = log_step r (spec_row spec now r)
      (task_event db eid tid ''specification_updated'' (tr_state r) (tr_state r) actor [] now) db"
    by (auto simp: update_spec_body_eq split: option.splits if_splits)
  from r have "tr_id r = tid" by (auto dest: select_task_SomeD)
  then have "history db' = (history db)(tid \<mapsto> map er_to (task_events tid db) @ [tr_state r])"
    by (simp add: db' history_log_step [OF wf r] task_event_def)
  with history_Some [OF wf r] edge UpdateSpec show ?thesis by simp
next
  case (DeleteCommit r)
  with ok have "delete_commit_body (tr_id r) (tr_version r) db = Inr db'" by simp
  from history_delete [OF wf this] DeleteCommit show ?thesis by simp
qed

lemma store_body_refuses:
  assumes wf: "wf_db db" and no: "store_body x db = Inl e"
  shows "history_call x (history db) = None \<or> refused_by_store x db"
proof (cases x)
  case (Create eid tid spec actor now)
  with no show ?thesis by (auto simp: create_body_eq [OF wf] history_None_iff split: if_splits)
next
  case (Transition eid tid tgt actor ty pl expected now)
  show ?thesis
  proof (cases "select_task tid db")
    case (Some r)
    with no Transition history_Some [OF wf Some] show ?thesis
      by (auto simp: transition_body_eq [OF wf] split: if_splits)
  qed (simp add: Transition history_None_iff [THEN iffD2])
next
  case (UpdateSpec eid tid spec actor expected now)
  show ?thesis
  proof (cases "select_task tid db")
    case (Some r)
    with no UpdateSpec history_Some [OF wf Some] show ?thesis
      by (auto simp: update_spec_body_eq [OF wf] split: if_splits)
  qed (simp add: UpdateSpec history_None_iff [THEN iffD2])
next
  case (DeleteCommit r)
  with no delete_body_Inl [OF wf, of "tr_id r" "tr_version r"] show ?thesis by (auto simp: history_None_iff)
qed

text \<open>A method that returns ran its body; the record it returns is the stored one, unless the task was removed.\<close>

lemma store_call_cases:
  assumes wf: "wf_db db" and run: "store_call x db = (db', res)"
  shows "(\<exists>e e'. res = Inl e \<and> db' = db \<and> store_body x db = Inl e')
    \<or> (\<exists>r. res = Inr r \<and> store_body x db = Inr db' \<and> tr_id r = store_target x
         \<and> (select_task (store_target x) db' = None \<or> select_task (store_target x) db' = Some r))"
proof (cases "store_body x db")
  case (Inl e)
  with store_call_body [of x db] run show ?thesis by (cases res) auto
next
  case (Inr db1)
  with store_call_body(1) [of x db] run have db': "db1 = db'" by simp
  note step = store_body_call [OF wf Inr [unfolded db']]
  have stored: "\<exists>r. get_task db' (store_target x) = Inr r \<and> tr_id r = store_target x \<and> select_task (store_target x) db' = Some r"
    if "history db' (store_target x) \<noteq> None"
    using that history_None_iff [of db'] by (auto simp: get_task_def dest: select_task_SomeD)
  show ?thesis
  proof (cases x)
    case (Create eid tid spec actor now)
    with step have "history db' tid \<noteq> None" by (auto split: if_splits option.splits dest: sym)
    with Create stored run Inr db' show ?thesis
      by (auto simp: create_task_def run_txn_def return_task_def split: if_splits)
  next
    case (Transition eid tid tgt actor ty pl expected now)
    with step have "history db' tid \<noteq> None" by (auto split: if_splits option.splits dest: sym)
    with Transition stored run Inr db' show ?thesis
      by (auto simp: transition_def run_txn_def return_task_def split: if_splits option.splits)
  next
    case (UpdateSpec eid tid spec actor expected now)
    with step have "history db' tid \<noteq> None" by (auto split: if_splits option.splits dest: sym)
    with UpdateSpec stored run Inr db' show ?thesis
      by (auto simp: update_specification_def run_txn_def return_task_def split: if_splits option.splits)
  next
    case (DeleteCommit r)
    with step have "history db' = (history db)(tr_id r := None)" by (auto split: if_splits)
    then have "select_task (tr_id r) db' = None" using history_None_iff [of db' "tr_id r"] by simp
    with DeleteCommit run Inr db' show ?thesis by (auto simp: delete_commit_def run_txn_def)
  qed
qed

text \<open>
  C5: the store refines its abstract history. A method that returns performed exactly the step its call asks for
  (created, moved along an allowed edge, respecified, removed) and returns the record whose state is the last one of the
  history; a method that raises left the store as it was, and it raises only when the history has no such step, the
  expected version is not the stored one, the event identifier is taken, or the event type is blank.
\<close>

theorem store_refines_history:
  "case store_call x (reachable_db xs) of
     (db', Inl e) \<Rightarrow> db' = reachable_db xs
       \<and> (history_call x (history (reachable_db xs)) = None \<or> refused_by_store x (reachable_db xs))
   | (db', Inr r) \<Rightarrow> history_call x (history (reachable_db xs)) = Some (history db')
       \<and> history_step (history (reachable_db xs)) (history db') \<and> tr_id r = store_target x
       \<and> (case history db' (store_target x) of None \<Rightarrow> True | Some ss \<Rightarrow> last ss = tr_state r)"
proof -
  let ?db = "reachable_db xs"
  obtain db' res where run: "store_call x ?db = (db', res)" by fastforce
  from store_call_cases [OF wf_reachable run] consider (raised) e e' where "res = Inl e" "db' = ?db" "store_body x ?db = Inl e'"
    | (returned) r where "res = Inr r" "store_body x ?db = Inr db'" "tr_id r = store_target x"
        "select_task (store_target x) db' = None \<or> select_task (store_target x) db' = Some r"
    by blast
  then show ?thesis
  proof cases
    case raised
    with run store_body_refuses [OF wf_reachable raised(3)] show ?thesis by simp
  next
    case (returned r)
    have wf': "wf_db db'" by (rule store_body_wf [OF wf_reachable returned(2)])
    note step = store_body_call [OF wf_reachable returned(2)]
    from returned(4) have "case history db' (store_target x) of None \<Rightarrow> True | Some ss \<Rightarrow> last ss = tr_state r"
      using history_Some [OF wf'] history_None_iff [of db' "store_target x"] by (auto split: option.split)
    with run returned(1,3) step history_call_step [OF step history_nonempty [OF wf_reachable]] show ?thesis by simp
  qed
qed

text \<open>
  Every recorded arrival at \<open>COMPLETE\<close> left \<open>VERIFYING\<close>: no sequence of transactions
  marks a task complete that was not being verified.
\<close>

theorem complete_only_from_verifying:
  assumes "e \<in> set (db_events (reachable_db xs))" and "er_to e = COMPLETE"
  shows "er_from e = Some VERIFYING"
proof -
  let ?db = "reachable_db xs"
  have wf: "wf_db ?db" by (rule wf_reachable)
  with assms(1) obtain r where r: "r \<in> set (db_tasks ?db)" "tr_id r = er_task e"
    by (fastforce simp: wf_db_def)
  with assms(1) have "e \<in> set (task_events (tr_id r) ?db)" by (simp add: task_events_def)
  then obtain us vs where "task_events (tr_id r) ?db = us @ e # vs" by (meson split_list)
  moreover have "log_ok None (task_events (tr_id r) ?db)"
    using wf r(1) unfolding wf_db_def row_logged_def by blast
  ultimately show ?thesis using assms(2) by (metis log_ok_complete)
qed

definition demo_ops :: "unit store_op list" where
  "demo_ops =
     [Create ''e0'' ''T'' () USER 0,
      Transition ''e1'' ''T'' SPEC_DRAFTED SYSTEM ''t'' None (Some 1) 1,
      Transition ''e2'' ''T'' HUMAN_REVIEW_REQUIRED SYSTEM ''t'' None (Some 2) 2,
      Transition ''e3'' ''T'' VERIFYING OPERATOR ''t'' None None 3,
      Transition ''e4'' ''T'' COMPLETE VERIFICATION_ENGINE ''t'' None (Some 4) 4]"

lemmas store_eval =
  reachable_db_def demo_ops_def empty_db_def store_exec_body transition_body_def create_body_def
  select_task_def insert_task_def insert_event_def and_then_def update_task_where_def row_matches_def
  version_conflict_def transition_is_allowed_def sorted_payload_def strip_def rstrip_def lstrip_def
  is_space_char_def

theorem complete_only_from_verifying_witness:
  "\<exists>e \<in> set (db_events (reachable_db demo_ops)). er_to e = COMPLETE \<and> er_from e = Some VERIFYING"
proof -
  have "\<exists>e \<in> set (db_events (reachable_db demo_ops)). er_to e = COMPLETE"
    by (simp add: store_eval)
  then show ?thesis using complete_only_from_verifying by blast
qed

text \<open>
  Optimistic concurrency. When two clients read the same version of a task and both ask for
  a transition expecting that version, the second transaction to run fails and changes nothing.
\<close>

theorem second_writer_conflicts:
  assumes wf: "wf_db db"
    and first: "transition e1 tid t1 a1 y1 p1 (Some v) n1 db = (db1, Inr r1)"
  shows "transition e2 tid t2 a2 y2 p2 (Some v) n2 db1 =
    (db1, Inl (if strip y2 = [] then StoreValueError else ConcurrentTransitionError))"
proof -
  from first obtain db1' where body: "transition_body e1 tid t1 a1 y1 p1 (Some v) n1 db = Inr db1'"
    and eq: "db1' = db1"
    by (auto simp: transition_def return_task_def run_txn_def split: if_splits sum.splits)
  have "\<exists>r. select_task tid db1 = Some r \<and> tr_version r = v + 1"
    using body wf unfolding eq
    by (auto simp: transition_body_eq select_set_row wf_db_def version_conflict_def
        split: option.splits if_splits dest: select_task_SomeD)
  then show ?thesis
    by (auto simp: transition_def transition_body_def version_conflict_def return_task_def run_txn_def)
qed

theorem second_writer_conflicts_witness:
  "snd (transition ''x'' ''T'' FAILED SYSTEM ''t'' None (Some 1) 9
     (fst (transition ''y'' ''T'' SPEC_DRAFTED USER ''t'' None (Some 1) 8
        (reachable_db [Create ''e0'' ''T'' () USER 0]))))
   = Inl ConcurrentTransitionError"
proof -
  let ?db = "reachable_db [Create ''e0'' ''T'' () USER 0]"
  have "snd (transition ''y'' ''T'' SPEC_DRAFTED USER ''t'' None (Some 1) 8 ?db) =
      Inr \<lparr>tr_id = ''T'', tr_spec = (), tr_state = SPEC_DRAFTED, tr_version = 2, tr_created = 0, tr_updated = 8\<rparr>"
    by (simp add: store_eval transition_def return_task_def run_txn_def get_task_def)
  then have "transition ''y'' ''T'' SPEC_DRAFTED USER ''t'' None (Some 1) 8 ?db =
      (fst (transition ''y'' ''T'' SPEC_DRAFTED USER ''t'' None (Some 1) 8 ?db),
       Inr \<lparr>tr_id = ''T'', tr_spec = (), tr_state = SPEC_DRAFTED, tr_version = 2, tr_created = 0, tr_updated = 8\<rparr>)"
    by (metis prod.collapse)
  from second_writer_conflicts [OF wf_reachable this, of "''x''" FAILED SYSTEM "''t''" None 9]
  show ?thesis by (simp add: strip_def rstrip_def lstrip_def is_space_char_def)
qed

text \<open>Without a deletion of the task in between, an unchanged version means an unchanged row.\<close>

fun deletes :: "string \<Rightarrow> 's store_op \<Rightarrow> bool" where
  "deletes tid (DeleteCommit r) = (tr_id r = tid)"
| "deletes tid _ = False"

lemma row_after_body:
  assumes wf: "wf_db db" and r: "select_task tid db = Some r"
    and ok: "store_body x db = Inr db'" and keep: "\<not> deletes tid x"
  shows "select_task tid db' = Some r \<or>
    (\<exists>r'. select_task tid db' = Some r' \<and> tr_version r < tr_version r'
        \<and> (tr_spec r' = tr_spec r \<or> spec_editable (tr_state r)))"
proof (cases x)
  case (Create eid t spec actor now)
  with ok wf r show ?thesis
    by (auto simp: create_body_eq select_task_def find_append split: if_splits)
next
  case (Transition eid t tgt actor ty pl expected now)
  with ok wf obtain q where q: "select_task t db = Some q"
    and db': "db' = log_step q (transition_row tgt now q)
      (task_event db eid t ty (tr_state q) tgt actor (sorted_payload pl) now) db"
    by (auto simp: transition_body_eq split: option.splits if_splits)
  from q have "tr_id q = t" by (auto dest: select_task_SomeD)
  with r q show ?thesis by (auto simp: db' select_log_step [OF wf q])
next
  case (UpdateSpec eid t spec actor expected now)
  with ok wf obtain q where q: "select_task t db = Some q" and ed: "spec_editable (tr_state q)"
    and db': "db' = log_step q (spec_row spec now q)
      (task_event db eid t ''specification_updated'' (tr_state q) (tr_state q) actor [] now) db"
    by (auto simp: update_spec_body_eq split: option.splits if_splits)
  from q have "tr_id q = t" by (auto dest: select_task_SomeD)
  with r q ed show ?thesis by (auto simp: db' select_log_step [OF wf q])
next
  case (DeleteCommit d)
  have keepf: "find (\<lambda>y. tr_id y = tid) (filter (\<lambda>y. tr_id y \<noteq> tr_id d) xs) = find (\<lambda>y. tr_id y = tid) xs"
    if "tr_id d \<noteq> tid" for xs :: "'a task_row list"
    using that by (induction xs) auto
  from DeleteCommit ok have "delete_commit_body (tr_id d) (tr_version d) db = Inr db'" by simp
  from delete_body_Inr [OF wf this] have "db_tasks db' = filter (\<lambda>y. tr_id y \<noteq> tr_id d) (db_tasks db)"
    by blast
  with keepf r keep DeleteCommit show ?thesis by (simp add: select_task_def)
qed

lemma row_after_ops:
  assumes "wf_db db" and "select_task tid db = Some r" and "\<forall>x \<in> set xs. \<not> deletes tid x"
  shows "\<exists>r'. select_task tid (foldl store_exec db xs) = Some r' \<and> (r' = r \<or> tr_version r < tr_version r')"
  using assms
proof (induction xs arbitrary: db r)
  case Nil
  then show ?case by simp
next
  case (Cons x xs)
  have "\<exists>q. select_task tid (store_exec db x) = Some q \<and> (q = r \<or> tr_version r < tr_version q)"
    using Cons.prems row_after_body [of db tid r x]
    by (auto simp: store_exec_body split: sum.splits)
  then obtain q where q: "select_task tid (store_exec db x) = Some q" "q = r \<or> tr_version r < tr_version q"
    by blast
  with Cons.IH [OF store_exec_wf [OF Cons.prems(1)] q(1)] Cons.prems(3)
  show ?case by fastforce
qed

text \<open>A call on one task leaves every other task as it is.\<close>

lemma body_other:
  assumes wf: "wf_db db" and ok: "store_body x db = Inr db'" and "store_target x \<noteq> t"
  shows "select_task t db' = select_task t db"
proof (cases x)
  case (Create eid u spec actor now)
  with assms show ?thesis by (auto simp: create_body_eq select_task_def find_append split: if_splits option.splits)
next
  case (Transition eid u tgt actor ty pl expected now)
  with ok wf obtain q where q: "select_task u db = Some q"
    and db': "db' = log_step q (transition_row tgt now q)
      (task_event db eid u ty (tr_state q) tgt actor (sorted_payload pl) now) db"
    by (auto simp: transition_body_eq split: option.splits if_splits)
  from q have "tr_id q = u" by (auto dest: select_task_SomeD)
  with q assms(3) Transition show ?thesis by (simp add: db' select_log_step [OF wf q])
next
  case (UpdateSpec eid u spec actor expected now)
  with ok wf obtain q where q: "select_task u db = Some q"
    and db': "db' = log_step q (spec_row spec now q)
      (task_event db eid u ''specification_updated'' (tr_state q) (tr_state q) actor [] now) db"
    by (auto simp: update_spec_body_eq split: option.splits if_splits)
  from q have "tr_id q = u" by (auto dest: select_task_SomeD)
  with q assms(3) UpdateSpec show ?thesis by (simp add: db' select_log_step [OF wf q])
next
  case (DeleteCommit d)
  have other: "find (\<lambda>y. tr_id y = t) (filter (\<lambda>y. tr_id y \<noteq> tr_id d) xs) = find (\<lambda>y. tr_id y = t) xs"
    for xs :: "'a task_row list"
    using assms(3) DeleteCommit by (induction xs) auto
  from DeleteCommit ok have "delete_commit_body (tr_id d) (tr_version d) db = Inr db'" by simp
  from delete_body_Inr [OF wf this] have "db_tasks db' = filter (\<lambda>y. tr_id y \<noteq> tr_id d) (db_tasks db)" by blast
  with other show ?thesis by (simp add: select_task_def)
qed

lemma store_execs_wf: "wf_db db \<Longrightarrow> wf_db (foldl store_exec db xs)"
  by (induction xs arbitrary: db) (simp_all add: store_exec_wf del: store_exec.simps)

lemma store_execs_other:
  "wf_db db \<Longrightarrow> \<forall>x \<in> set xs. store_target x \<noteq> t \<Longrightarrow> select_task t (foldl store_exec db xs) = select_task t db"
proof (induction xs arbitrary: db)
  case (Cons x xs)
  have "select_task t (store_exec db x) = select_task t db"
    using Cons.prems body_other [of db x _ t] by (auto simp: store_exec_body split: sum.splits)
  with Cons.IH [OF store_exec_wf [OF Cons.prems(1)]] Cons.prems(2) show ?case by (simp del: store_exec.simps)
qed simp

text \<open>
  \<open>delete_task\<close> between whose read and commit no client deletes the same task removes the
  very row that was read, so the state it discards is one the caller allowed.
\<close>

theorem delete_removes_allowed_state:
  assumes wf: "wf_db db" and read: "delete_read db tid allowed = Inr r"
    and keep: "\<forall>x \<in> set xs. \<not> deletes tid x"
    and commit: "delete_commit r (foldl store_exec db xs) = (db', Inr q)"
  shows "select_task tid (foldl store_exec db xs) = Some r \<and> tr_state r \<in> set allowed
    \<and> select_task tid db' = None"
proof -
  let ?db = "foldl store_exec db xs"
  from read have r: "select_task tid db = Some r" "tr_state r \<in> set allowed"
    by (auto simp: delete_read_def get_task_def split: option.splits if_splits)
  then have id: "tr_id r = tid" by (auto dest: select_task_SomeD)
  have wf': "wf_db ?db"
    by (rule task_store.inv_foldl [OF wf]) (rule permitted_always, rule TrueI)
  from commit have "delete_commit_body tid (tr_version r) ?db = Inr db'"
    by (auto simp: delete_commit_def run_txn_def id split: sum.splits)
  from delete_body_Inr [OF wf' this] obtain p where
    p: "select_task tid ?db = Some p" "tr_version p = tr_version r"
    and t: "db_tasks db' = filter (\<lambda>x. tr_id x \<noteq> tid) (db_tasks ?db)" by blast
  from row_after_ops [OF wf r(1) keep] p have "p = r" by auto
  moreover have "select_task tid db' = None" by (auto simp: select_task_None t)
  ultimately show ?thesis using p r by simp
qed

theorem delete_removes_allowed_state_witness:
  "\<exists>r db'. delete_read (reachable_db demo_ops) ''T'' [COMPLETE] = Inr r
     \<and> delete_commit r (reachable_db demo_ops) = (db', Inr r) \<and> select_task ''T'' db' = None"
proof -
  let ?db = "reachable_db demo_ops"
  let ?r = "\<lparr>tr_id = ''T'', tr_spec = (), tr_state = COMPLETE, tr_version = 5,
              tr_created = 0, tr_updated = 4\<rparr>"
  have r: "delete_read ?db ''T'' [COMPLETE] = Inr ?r"
    by (simp add: store_eval delete_read_def get_task_def)
  have c: "delete_commit ?r ?db = (fst (delete_commit ?r ?db), Inr ?r)"
    by (simp add: store_eval delete_commit_def run_txn_def delete_commit_body_def
        delete_task_where_def delete_events_of_def)
  have "select_task ''T'' (fst (delete_commit ?r ?db)) = None"
    using delete_removes_allowed_state [OF wf_reachable r, of "[]"] c by simp
  with r c show ?thesis by blast
qed

definition aba_before :: "unit task_db" where
  "aba_before = reachable_db
     [Create ''e0'' ''T'' () USER 0, Transition ''e1'' ''T'' FAILED SYSTEM ''t'' None None 1]"

definition aba_read :: "unit task_row" where
  "aba_read = \<lparr>tr_id = ''T'', tr_spec = (), tr_state = FAILED, tr_version = 2,
               tr_created = 0, tr_updated = 1\<rparr>"

definition aba_after :: "unit task_db" where
  "aba_after = foldl store_exec aba_before
     [DeleteCommit aba_read, Create ''e2'' ''T'' () USER 2,
      Transition ''e3'' ''T'' SPEC_DRAFTED SYSTEM ''t'' None None 3]"

text \<open>
  A hazard of the version check. Task identifiers can be created again after a deletion and
  the version restarts at one, so a deletion whose read is older than another client's
  delete-and-recreate can commit against the new task: here it removes a task in
  \<open>SPEC_DRAFTED\<close> although only \<open>FAILED\<close> was allowed.
\<close>

theorem delete_after_recreate_removes_live_task:
  "delete_read aba_before ''T'' [FAILED] = Inr aba_read
   \<and> map_option tr_state (select_task ''T'' aba_after) = Some SPEC_DRAFTED
   \<and> snd (delete_commit aba_read aba_after) = Inr aba_read
   \<and> select_task ''T'' (fst (delete_commit aba_read aba_after)) = None"
  by (simp add: store_eval aba_before_def aba_read_def aba_after_def delete_read_def get_task_def
      delete_commit_def run_txn_def delete_commit_body_def delete_task_where_def delete_events_of_def)

text \<open>
  An approved specification is frozen: a transaction after which the task exists with a
  different specification found the task in \<open>INTAKE\<close>, \<open>SPEC_DRAFTED\<close> or
  \<open>HUMAN_REVIEW_REQUIRED\<close>.
\<close>

theorem specification_frozen_after_approval:
  assumes wf: "wf_db db" and before: "select_task tid db = Some r" and keep: "\<not> deletes tid x"
    and after: "select_task tid (store_exec db x) = Some r'" and changed: "tr_spec r' \<noteq> tr_spec r"
  shows "tr_state r \<in> {INTAKE, SPEC_DRAFTED, HUMAN_REVIEW_REQUIRED}"
proof (cases "store_body x db")
  case (Inl e)
  with before after changed show ?thesis by (simp add: store_exec_body)
next
  case (Inr db')
  from row_after_body [OF wf before this keep] after changed Inr
  have "spec_editable (tr_state r)" by (auto simp: store_exec_body)
  then show ?thesis by (auto simp: spec_editable_def)
qed

theorem specification_frozen_after_approval_witness:
  "let db = reachable_db [Create ''e0'' ''T'' (1::nat) USER 0]
   in map_option tr_state (select_task ''T'' db) = Some INTAKE
      \<and> map_option tr_spec (select_task ''T'' (store_exec db (UpdateSpec ''e1'' ''T'' 2 USER (Some 1) 5))) = Some 2"
proof -
  let ?db = "reachable_db [Create ''e0'' ''T'' (1::nat) USER 0]"
  let ?x = "UpdateSpec ''e1'' ''T'' (2::nat) USER (Some 1) 5"
  have b: "select_task ''T'' ?db = Some \<lparr>tr_id = ''T'', tr_spec = 1, tr_state = INTAKE,
      tr_version = 1, tr_created = 0, tr_updated = 0\<rparr>"
    by (simp add: store_eval)
  have a: "select_task ''T'' (store_exec ?db ?x) = Some \<lparr>tr_id = ''T'', tr_spec = 2,
      tr_state = INTAKE, tr_version = 2, tr_created = 0, tr_updated = 5\<rparr>"
    by (simp add: store_eval update_spec_body_def spec_editable_def)
  from specification_frozen_after_approval [OF wf_reachable b _ a] b a show ?thesis by simp
qed

end
