(* ===== verification/Vertical_Slice.thy ===== *)
theory Vertical_Slice
  imports Effects Agent_Session Task_Log
begin

section \<open>The approved-task workflow (workflow/vertical_slice.py, workflow/escalation.py)\<close>

text \<open>
  \<open>VerticalSliceRunner\<close>: one task from its request or its approved specification to a report, over the
  task store, the worktree, the model and the bounded agent session. The runner's attributes are the record \<open>slice\<close>;
  what it works with is \<open>slice_env\<close>. Every write to the store is preceded by whatever other clients of the database
  do. The experimental stages (capability sandbox, local power sandbox), the research engine, the context
  compiler and the specification extractor are parameters; the audit trail, telemetry and costs are left out,
  except that writing the final report may raise.
\<close>

subsection \<open>State and environment\<close>

datatype task_outcome = COMPLETE_TASK | FAILED_TASK | HUMAN_REVIEW_TASK

datatype execution_mode = ONE_SHOT | AGENT

type_synonym slice_context = "context_evidence list \<times> string"

record compile_request =
  cq_queries :: "string list"
  cq_preferred :: "path list"
  cq_brief :: "string option"
  cq_research :: "string list"
  cq_in_worktree :: bool

datatype slice_prompt =
    Specification_Prompt string
  | Correction_Prompt string string string
  | Implementation_Prompt slice_context
  | Rejected_Patch_Prompt slice_context string string
  | Repair_Prompt slice_context command_result string string

datatype call_outcome = Called string | Call_Failed string

record slice_config =
  sc_mode :: execution_mode
  sc_route :: agent_route
  sc_agent :: agent_config
  sc_frontier_agent :: agent_config
  sc_verification :: verification_config
  sc_patch :: patch_policy
  sc_strict :: bool
  sc_capability_sandbox :: bool
  sc_local_power :: bool
  sc_local_tokens :: "int option"
  sc_local_output :: int
  sc_frontier_tokens :: "int option"
  sc_frontier_output :: int

record 'w slice_env =
  sl_task :: string
  sl_config :: slice_config
  sl_frontier :: bool
  sl_event_id :: "nat \<Rightarrow> string"
  sl_now :: "nat \<Rightarrow> int"
  sl_others :: "nat \<Rightarrow> task_specification store_op list"
  sl_loads :: "string \<Rightarrow> json option"
  sl_head :: "'w \<Rightarrow> string + string"
  sl_rev_parse :: "string \<Rightarrow> 'w \<Rightarrow> string + string"
  sl_draft :: "nat \<Rightarrow> string \<Rightarrow> string + task_specification"
  sl_approve :: "task_specification \<Rightarrow> bool"
  sl_research :: "(task_specification \<Rightarrow> 'w \<Rightarrow> string + (string \<times> string list) option) option"
  sl_research_off :: bool
  sl_compile :: "task_specification \<Rightarrow> compile_request \<Rightarrow> 'w \<Rightarrow> string + slice_context"
  sl_create_worktree :: "string \<Rightarrow> string \<Rightarrow> 'w \<Rightarrow> (string + unit) \<times> 'w"
  sl_call :: "nat \<Rightarrow> slice_prompt \<Rightarrow> 'w \<Rightarrow> call_outcome"
  sl_git :: git_ops
  sl_tree :: "'w \<Rightarrow> worktree"
  sl_put :: "worktree \<Rightarrow> 'w \<Rightarrow> 'w"
  sl_locate :: "'w \<Rightarrow> path \<Rightarrow> path option"
  sl_inside :: "'w \<Rightarrow> string list \<Rightarrow> bool"
  sl_worktree_root :: "'w \<Rightarrow> bool"
  sl_diff :: "'w \<Rightarrow> string"
  sl_local :: "'w agent_env"
  sl_frontier_env :: "'w agent_env"
  sl_capability :: "task_specification \<Rightarrow> slice_context \<Rightarrow> 'w \<Rightarrow> (string + session_result) \<times> 'w"
  sl_power :: "task_specification \<Rightarrow> slice_context \<Rightarrow> 'w \<Rightarrow> (string + session_result) \<times> 'w"
  sl_backend :: "nat \<Rightarrow> 'w backend"
  sl_os :: environment
  sl_manifests :: "'w \<Rightarrow> string + manifest_view"
  sl_location :: string
  sl_history_json :: "turn_record list \<Rightarrow> string"
  sl_argv_json :: "string list \<Rightarrow> string"
  sl_write_report :: "task_outcome \<Rightarrow> 'w \<Rightarrow> string option"

record 'w slice =
  vs_db :: "task_specification task_db"
  vs_tick :: nat
  vs_world :: 'w
  vs_calls :: nat
  vs_spec :: task_specification
  vs_files :: "path list"
  vs_results :: "verification_result list"
  vs_coverage :: "acceptance_coverage list"
  vs_route :: "routing_decision option"
  vs_local :: "session_result option"
  vs_frontier :: "session_result option"
  vs_escalation :: "string option"

record slice_report =
  rp_task :: string
  rp_outcome :: task_outcome
  rp_error :: "string option"
  rp_turns :: nat
  rp_patch_attempts :: nat
  rp_verification_runs :: nat
  rp_escalated :: bool
  rp_files :: "path list"
  rp_results :: "verification_result list"
  rp_coverage :: "acceptance_coverage list"
  rp_rejected :: nat

type_synonym ('w, 'a) slice_action = "(string, 'w slice, 'a) action"

subsection \<open>Store and report\<close>

text \<open>\<open>self.store.transition\<close> of the task with an expected version; the version it returns.\<close>

definition with_others :: "'w slice_env \<Rightarrow> 'w slice \<Rightarrow> 'w slice" where
  "with_others E s = s\<lparr>vs_db := foldl store_exec (vs_db s) (sl_others E (vs_tick s)), vs_tick := Suc (vs_tick s)\<rparr>"

definition error_name :: "store_error \<Rightarrow> string" where
  "error_name e =
     (case e of TaskStoreError \<Rightarrow> ''TaskStoreError'' | TaskNotFoundError \<Rightarrow> ''TaskNotFoundError''
      | InvalidTransitionError \<Rightarrow> ''InvalidTransitionError'' | ConcurrentTransitionError \<Rightarrow> ''ConcurrentTransitionError''
      | StoreValueError \<Rightarrow> ''ValueError'' | IntegrityError \<Rightarrow> ''IntegrityError'')"

definition stored ::
  "('w slice \<Rightarrow> task_specification task_db \<times> (store_error + task_specification task_row)) \<Rightarrow> 'w slice_env
    \<Rightarrow> ('w, int) slice_action" where
  "stored f E s =
     (let s1 = with_others E s in
      case f s1 of
        (db, Inl e) \<Rightarrow> (Inl (error_name e), s1\<lparr>vs_db := db\<rparr>)
      | (db, Inr row) \<Rightarrow> (Inr (tr_version row), s1\<lparr>vs_db := db\<rparr>))"

definition advance :: "'w slice_env \<Rightarrow> workflow_state \<Rightarrow> workflow_actor \<Rightarrow> string \<Rightarrow> int option \<Rightarrow> ('w, int) slice_action" where
  "advance E target actor etype expected =
     stored (\<lambda>s. transition (sl_event_id E (vs_tick s)) (sl_task E) target actor etype None expected (sl_now E (vs_tick s)) (vs_db s)) E"

definition staged :: "'w slice \<Rightarrow> session_result list" where
  "staged s = List.map_filter id [vs_local s, vs_frontier s]"

definition finalize_report :: "'w slice_env \<Rightarrow> task_outcome \<Rightarrow> string option \<Rightarrow> ('w, slice_report) slice_action" where
  "finalize_report E out err s =
     (case sl_write_report E out (vs_world s) of
        Some e \<Rightarrow> (Inl e, s)
      | None \<Rightarrow>
          (Inr \<lparr>rp_task = sl_task E, rp_outcome = out, rp_error = err, rp_turns = sum_list (map sr_turns (staged s)),
             rp_patch_attempts = sum_list (map sr_patch_attempts (staged s)),
             rp_verification_runs = sum_list (map sr_verification_runs (staged s)),
             rp_escalated = (vs_escalation s \<noteq> None), rp_files = vs_files s, rp_results = vs_results s,
             rp_coverage = vs_coverage s,
             rp_rejected = length (filter (\<lambda>r. \<not> tr_accepted r) (concat (map sr_records (staged s))))\<rparr>, s))"

definition handle_failure :: "'w slice_env \<Rightarrow> string \<Rightarrow> ('w, slice_report) slice_action" where
  "handle_failure E e =
     bnd (try_except
            (\<lambda>s. case get_task (vs_db s) (sl_task E) of Inl err \<Rightarrow> (Inl (error_name err), s)
               | Inr row \<Rightarrow>
                   if transition_is_allowed (tr_state row) FAILED
                   then bnd (advance E FAILED SYSTEM ''vertical_slice_failed'' (Some (tr_version row))) (\<lambda>_. pure ()) s
                   else (Inr (), s))
            (\<lambda>_. pure ()))
       (\<lambda>_. finalize_report E FAILED_TASK (Some e))"

subsection \<open>Calls, patches and verification\<close>

definition model_call :: "'w slice_env \<Rightarrow> slice_prompt \<Rightarrow> ('w, string) slice_action" where
  "model_call E p s =
     (let n = Suc (vs_calls s); s1 = s\<lparr>vs_calls := n\<rparr> in
      case sl_call E n p (vs_world s) of Called c \<Rightarrow> (Inr c, s1) | Call_Failed e \<Rightarrow> (Inl e, s1))"

definition apply_error_text :: "apply_error \<Rightarrow> string" where
  "apply_error_text e =
     (case e of NotWorktreeRoot \<Rightarrow> ''patch target is not a Git worktree root'' | StatusFailed \<Rightarrow> ''git status failed''
      | GitApplyFailed \<Rightarrow> ''git apply failed'' | GitApplyRaised \<Rightarrow> ''git apply timed out'' | ReverseRaised \<Rightarrow> ''git apply timed out''
      | UnexpectedPaths ps \<Rightarrow> ''unexpected changed paths: '' @ join_with (CHR '','') ps)"

text \<open>
  \<open>_validate_apply_and_audit\<close> on the worktree: parse, check the policy, apply. What git's own runs raise is not a
  \<open>PatchApplicationError\<close> and escapes.
\<close>

definition escapes_application :: "apply_error \<Rightarrow> bool" where
  "escapes_application e = (e \<in> set [StatusFailed, GitApplyRaised, ReverseRaised])"

definition validate_apply :: "'w slice_env \<Rightarrow> string \<Rightarrow> 'w \<Rightarrow> (patch_outcome \<times> path list) \<times> 'w" where
  "validate_apply E patch w =
     (case parse_diff patch of
        Inl e \<Rightarrow> ((Patch_Rejected ''UnifiedDiffError'' ''malformed unified diff'', []), w)
      | Inr d \<Rightarrow>
          if \<not> pv_accepted (validate_patch (sc_patch (sl_config E)) (sl_inside E w) d)
          then ((Patch_Rejected ''PatchPolicyError'' ''patch violates policy'', []), w)
          else (case apply_patch (sl_git E) (sl_locate E w) (sl_worktree_root E w) d (sl_tree E w) of
              (wt, Inl e) \<Rightarrow>
                ((if escapes_application e then Patch_Escaped (apply_error_text e)
                  else Patch_Rejected ''PatchApplicationError'' (apply_error_text e), []), sl_put E wt w)
            | (wt, Inr files) \<Rightarrow> ((Patch_Applied, files), sl_put E wt w)))"

definition apply_model_patch :: "'w slice_env \<Rightarrow> string \<Rightarrow> ('w, patch_outcome) slice_action" where
  "apply_model_patch E patch s =
     (case validate_apply E patch (vs_world s) of
        ((Patch_Applied, files), w) \<Rightarrow> (Inr Patch_Applied, s\<lparr>vs_world := w, vs_files := files\<rparr>)
      | ((out, _), w) \<Rightarrow> (Inr out, s\<lparr>vs_world := w\<rparr>))"

definition rejection_text :: "patch_outcome \<Rightarrow> string" where
  "rejection_text out =
     (case out of Patch_Applied \<Rightarrow> [] | Patch_Rejected kind m \<Rightarrow> kind @ '': '' @ m | Patch_Escaped e \<Rightarrow> e)"

definition require_applied :: "'w slice_env \<Rightarrow> string \<Rightarrow> ('w, unit) slice_action" where
  "require_applied E patch =
     bnd (apply_model_patch E patch) (\<lambda>out. if out = Patch_Applied then pure () else raising (rejection_text out))"

definition verify_slice :: "'w slice_env \<Rightarrow> nat \<Rightarrow> ('w, verification_result) slice_action" where
  "verify_slice E attempt s =
     (case run_verification (sl_backend E attempt) (sc_verification (sl_config E)) (sl_os E) (sl_manifests E)
        (ts_task (vs_spec s)) (vs_world s) of
        (Inl e, w) \<Rightarrow> (Inl e, s\<lparr>vs_world := w\<rparr>)
      | (Inr r, w) \<Rightarrow> (Inr r, s\<lparr>vs_world := w, vs_results := vs_results s @ [r]\<rparr>))"

subsection \<open>The plan slice of a task\<close>

definition slice_approval :: "'w slice_env \<Rightarrow> 'w slice \<Rightarrow> string + event_row option" where
  "slice_approval E s =
     (case events (vs_db s) (sl_task E) of Inl e \<Rightarrow> Inl (error_name e)
      | Inr es \<Rightarrow>
          Inr (find (\<lambda>e. er_type e \<in> set [''plan_slice_specification_approved'', ''plan_slice_auto_approved'']) (rev es)))"

definition payload_string :: "'w slice_env \<Rightarrow> event_row \<Rightarrow> string \<Rightarrow> string option" where
  "payload_string E e k =
     (case Option.bind (map_of (er_payload e) k) (sl_loads E) of Some (JStr v) \<Rightarrow> Some v | _ \<Rightarrow> None)"

definition execution_base :: "'w slice_env \<Rightarrow> string \<Rightarrow> 'w slice \<Rightarrow> string + string" where
  "execution_base E head s =
     (case slice_approval E s of Inl e \<Rightarrow> Inl e
      | Inr None \<Rightarrow> Inr head
      | Inr (Some e) \<Rightarrow>
          (case payload_string E e ''execution_base_commit'' of None \<Rightarrow> Inr head
           | Some c \<Rightarrow> if strip c = [] then Inr head else map_sum id strip (sl_rev_parse E c (vs_world s))))"

definition plan_slice_identity :: "'w slice_env \<Rightarrow> 'w slice \<Rightarrow> string + string option \<times> string option" where
  "plan_slice_identity E s =
     (case slice_approval E s of Inl e \<Rightarrow> Inl e
      | Inr None \<Rightarrow> Inr (None, None)
      | Inr (Some e) \<Rightarrow> Inr (payload_string E e ''plan_id'', payload_string E e ''slice_id''))"

subsection \<open>Agent stages\<close>

text \<open>\<open>effective_config_for_specification\<close>: the profile of a high-risk task.\<close>

definition effective_agent :: "slice_config \<Rightarrow> task_specification \<Rightarrow> agent_config" where
  "effective_agent c spec =
     (if ts_risk spec \<notin> set [HIGH, CRITICAL] then sc_agent c
      else
        (let tokens = (case sc_local_tokens c of None \<Rightarrow> 32768 | Some n \<Rightarrow> if n = 0 then 32768 else n) in
         \<lparr>ac_max_turns = 50, ac_max_patch_attempts = 20, ac_max_verification_runs = 20, ac_max_search_results = 100,
          ac_max_read_lines = 2000, ac_max_observation_chars = 1000000,
          ac_max_transmitted_chars = nat (min 1000000 (tokens * 3))\<rparr>))"

datatype stage = Local_Stage | Frontier_Stage

definition stage_env :: "'w slice_env \<Rightarrow> stage \<Rightarrow> 'w agent_env" where
  "stage_env E st =
     (case st of Local_Stage \<Rightarrow> sl_local E | Frontier_Stage \<Rightarrow> sl_frontier_env E)
       \<lparr>ae_apply := (\<lambda>patch _ w. (let r = validate_apply E patch w in (fst (fst r), snd r)))\<rparr>"

definition stage_setup :: "'w slice_env \<Rightarrow> stage \<Rightarrow> task_specification \<Rightarrow> agent_setup" where
  "stage_setup E st spec =
     (let c = sl_config E in
      \<lparr>su_spec = spec,
       su_config = (case st of Local_Stage \<Rightarrow> effective_agent c spec | Frontier_Stage \<Rightarrow> sc_frontier_agent c),
       su_verification = sc_verification c, su_strict = sc_strict c,
       su_allow_tests = pp_allow_tests (sc_patch c), su_allow_dependencies = pp_allow_dependencies (sc_patch c),
       su_window = (case st of
           Local_Stage \<Rightarrow> window_limits_from_provider (sc_local_tokens c) (sc_local_output c) default_safety_margin
         | Frontier_Stage \<Rightarrow> window_limits_from_provider (sc_frontier_tokens c) (sc_frontier_output c) default_safety_margin)\<rparr>)"

definition run_agent_session :: "'w slice_env \<Rightarrow> stage \<Rightarrow> slice_context \<Rightarrow> ('w, session_result) slice_action" where
  "run_agent_session E st ctx s =
     (case run_session (stage_env E st) (stage_setup E st (vs_spec s)) 1 (new_session (vs_world s) (fst ctx) (snd ctx)) of
        (Inl e, s1) \<Rightarrow> (Inl e, s\<lparr>vs_world := ss_world s1\<rparr>)
      | (Inr res, s1) \<Rightarrow> (Inr res, s\<lparr>vs_world := ss_world s1\<rparr>))"

definition outside_stage ::
  "(task_specification \<Rightarrow> slice_context \<Rightarrow> 'w \<Rightarrow> (string + session_result) \<times> 'w) \<Rightarrow> slice_context \<Rightarrow> ('w, session_result) slice_action" where
  "outside_stage f ctx s = (case f (vs_spec s) ctx (vs_world s) of (x, w) \<Rightarrow> (x, s\<lparr>vs_world := w\<rparr>))"

text \<open>The local stage and the prefix of its events: the experimental stages replace the session when enabled.\<close>

definition local_stage ::
  "'w slice_env \<Rightarrow> string option \<times> string option \<Rightarrow> slice_context \<Rightarrow> ('w, session_result \<times> string) slice_action" where
  "local_stage E identity ctx =
     (if sc_capability_sandbox (sl_config E) \<and> fst identity \<noteq> None \<and> snd identity \<noteq> None
      then bnd (outside_stage (sl_capability E) ctx) (\<lambda>r. pure (r, ''capability_sandbox''))
      else if sc_local_power (sl_config E) then bnd (outside_stage (sl_power E) ctx) (\<lambda>r. pure (r, ''local_power_sandbox''))
      else bnd (run_agent_session E Local_Stage ctx) (\<lambda>r. pure (r, ''local_agent'')))"

definition record_agent_result :: "stage \<Rightarrow> session_result \<Rightarrow> 'w slice \<Rightarrow> 'w slice" where
  "record_agent_result st res s =
     (let s1 = (case st of Local_Stage \<Rightarrow> s\<lparr>vs_local := Some res\<rparr> | Frontier_Stage \<Rightarrow> s\<lparr>vs_frontier := Some res\<rparr>) in
      s1\<lparr>vs_files := sr_changed res, vs_results := vs_results s @ sr_verifications res,
         vs_coverage := (if sr_coverage res \<noteq> [] then sr_coverage res else vs_coverage s)\<rparr>)"

definition complete_agent_workflow :: "'w slice_env \<Rightarrow> string \<Rightarrow> int \<Rightarrow> ('w, slice_report) slice_action" where
  "complete_agent_workflow E name v =
     bnd (advance E PATCH_READY SYSTEM (name @ ''_patch_ready'') (Some v)) (\<lambda>v1.
     bnd (advance E VERIFYING VERIFICATION_ENGINE (name @ ''_verification_recorded'') (Some v1)) (\<lambda>v2.
     bnd (advance E COMPLETE VERIFICATION_ENGINE (name @ ''_verification_passed'') (Some v2)) (\<lambda>_.
     finalize_report E COMPLETE_TASK None)))"

definition require_human_after_agent :: "'w slice_env \<Rightarrow> session_result \<Rightarrow> int \<Rightarrow> ('w, slice_report) slice_action" where
  "require_human_after_agent E res v =
     bnd (assign (\<lambda>s. s\<lparr>vs_escalation := Some (sr_reason res)\<rparr>)) (\<lambda>_.
     bnd (advance E ESCALATION_REQUIRED SYSTEM ''frontier_agent_budget_exhausted'' (Some v)) (\<lambda>v1.
     bnd (advance E HUMAN_REVIEW_REQUIRED SYSTEM ''bounded_frontier_requires_human'' (Some v1)) (\<lambda>_.
     finalize_report E HUMAN_REVIEW_TASK (Some (''bounded frontier coding agent stopped: '' @ sr_reason res)))))"

definition frontier_stage :: "'w slice_env \<Rightarrow> slice_context \<Rightarrow> int \<Rightarrow> ('w, slice_report) slice_action" where
  "frontier_stage E ctx v =
     bnd (run_agent_session E Frontier_Stage ctx) (\<lambda>res.
     bnd (assign (record_agent_result Frontier_Stage res)) (\<lambda>_.
     if sr_outcome res = COMPLETE_SESSION then complete_agent_workflow E ''frontier_agent'' v
     else require_human_after_agent E res v))"

subsection \<open>Escalation\<close>

text \<open>\<open>build_local_to_frontier_escalation\<close>: the failures of the local session, in order.\<close>

fun escalation_failures :: "string \<Rightarrow> verification_result list \<Rightarrow> string + normalized_failure list" where
  "escalation_failures location [] = Inr []"
| "escalation_failures location (r # rs) =
     (if vr_status r = PASSED then escalation_failures location rs
      else (case extract_failure location failure_chars r of None \<Rightarrow> Inl ''ValueError: no failed verification command''
        | Some (_, f) \<Rightarrow> map_sum id (\<lambda>fs. f # fs) (escalation_failures location rs)))"

definition escalation_evidence :: "'w slice_env \<Rightarrow> slice_context \<Rightarrow> session_result \<Rightarrow> normalized_failure list \<Rightarrow> slice_context" where
  "escalation_evidence E ctx res fs =
     (let H = ae_hash (sl_frontier_env E); commit = snd ctx @ ''+working-tree'';
          history = excerpt H ''EV-ESCALATION-HISTORY'' FAILURE ''<local-agent-attempt-history>'' None commit
            ''bounded local-agent actions and deterministic outcomes'' (sl_history_json E (sr_records res));
          failure = (\<lambda>(i, f). excerpt H (''EV-ESCALATION-FAILURE-'' @ pad3 i) FAILURE
            (''<local-verification:'' @ nf_command f @ ''>'') None commit ''exact normalized local verification failure''
            (''COMMAND_JSON'' @ [newline] @ sl_argv_json E (nf_argv f) @ [newline, newline] @ ''ROOT_ERROR'' @ [newline]
              @ nf_root f @ [newline, newline] @ ''RELEVANT_ERROR'' @ [newline] @ nf_relevant f))
      in (renumbered (dedup_by evidence_key [] (fst ctx @ [history] @ map failure (enumerate 1 fs))), snd ctx))"

definition build_escalation :: "'w slice_env \<Rightarrow> string option \<times> string list \<Rightarrow> session_result \<Rightarrow> 'w slice \<Rightarrow> string + slice_context" where
  "build_escalation E research res s =
     (case escalation_failures (sl_location E) (sr_verifications res) of Inl e \<Rightarrow> Inl e
      | Inr fs \<Rightarrow>
          (case sl_compile E (vs_spec s)
             \<lparr>cq_queries = concat (map (\<lambda>f. [nf_root f, nf_relevant f]) fs), cq_preferred = vs_files s,
              cq_brief = fst research, cq_research = snd research, cq_in_worktree = True\<rparr> (vs_world s) of
             Inl e \<Rightarrow> Inl e
           | Inr ctx \<Rightarrow> Inr (escalation_evidence E ctx res fs)))"

definition run_frontier_escalation ::
  "'w slice_env \<Rightarrow> string option \<times> string list \<Rightarrow> session_result \<Rightarrow> int \<Rightarrow> ('w, slice_report) slice_action" where
  "run_frontier_escalation E research res v =
     bnd (asking (build_escalation E research res)) (\<lambda>ctx.
     bnd (assign (\<lambda>s. s\<lparr>vs_escalation := Some (sr_reason res)\<rparr>)) (\<lambda>_.
     bnd (advance E IMPLEMENTING SYSTEM ''bounded_frontier_escalation_started'' (Some v)) (\<lambda>v1.
     frontier_stage E ctx v1)))"

text \<open>After the local stage: completion, the frontier, or a human.\<close>

definition stop_after_local :: "'w slice_env \<Rightarrow> session_result \<Rightarrow> int \<Rightarrow> ('w, slice_report) slice_action" where
  "stop_after_local E res v =
     bnd (assign (\<lambda>s. s\<lparr>vs_escalation := Some (sr_reason res)\<rparr>)) (\<lambda>_.
     bnd (advance E HUMAN_REVIEW_REQUIRED SYSTEM ''frontier_escalation_not_configured'' (Some v)) (\<lambda>_.
     finalize_report E HUMAN_REVIEW_TASK
       (Some (''bounded local coding agent requires escalation: '' @ sr_reason res))))"

definition settle_local ::
  "'w slice_env \<Rightarrow> string option \<times> string list \<Rightarrow> agent_route \<Rightarrow> int \<Rightarrow> session_result \<times> string \<Rightarrow> ('w, slice_report) slice_action" where
  "settle_local E research route v x =
     bnd (assign (record_agent_result Local_Stage (fst x))) (\<lambda>_.
     if sr_outcome (fst x) = COMPLETE_SESSION then complete_agent_workflow E (snd x) v
     else
       bnd (advance E ESCALATION_REQUIRED SYSTEM ''bounded_local_agent_escalation_required'' (Some v)) (\<lambda>v1.
       if route = LOCAL_THEN_FRONTIER \<and> sl_frontier E then run_frontier_escalation E research (fst x) v1
       else stop_after_local E (fst x) v1))"

definition run_bounded_agent ::
  "'w slice_env \<Rightarrow> string option \<times> string list \<Rightarrow> agent_route \<Rightarrow> slice_context \<Rightarrow> int \<Rightarrow> ('w, slice_report) slice_action" where
  "run_bounded_agent E research route ctx v =
     (if route = FRONTIER_ONLY then frontier_stage E ctx v
      else
        bnd (asking (plan_slice_identity E)) (\<lambda>identity.
        bnd (local_stage E identity ctx) (settle_local E research route v)))"

subsection \<open>The one-shot stage\<close>

definition complete_or_gap :: "'w slice_env \<Rightarrow> verification_result \<Rightarrow> int \<Rightarrow> string \<Rightarrow> ('w, slice_report) slice_action" where
  "complete_or_gap E r v etype =
     bnd (reading (\<lambda>s. compute_acceptance_coverage (vs_spec s) (vg_commands (sc_verification (sl_config E)))
            (executed_statuses (vr_commands r) Map.empty))) (\<lambda>cov.
     bnd (assign (\<lambda>s. if sc_strict (sl_config E) then s\<lparr>vs_coverage := cov\<rparr> else s)) (\<lambda>_.
     if sc_strict (sl_config E) \<and> \<not> acceptance_coverage_satisfied cov then
       bnd (advance E HUMAN_REVIEW_REQUIRED VERIFICATION_ENGINE ''acceptance_coverage_incomplete'' (Some v)) (\<lambda>_.
       finalize_report E HUMAN_REVIEW_TASK (Some ''configured verification passed but not every active acceptance criterion is proven''))
     else
       bnd (advance E COMPLETE VERIFICATION_ENGINE etype (Some v)) (\<lambda>_. finalize_report E COMPLETE_TASK None)))"

definition compile_with :: "'w slice_env \<Rightarrow> string option \<times> string list \<Rightarrow> string list \<Rightarrow> (('w slice) \<Rightarrow> path list) \<Rightarrow> bool
    \<Rightarrow> ('w, slice_context) slice_action" where
  "compile_with E research queries preferred inside =
     asking (\<lambda>s. sl_compile E (vs_spec s)
       \<lparr>cq_queries = queries, cq_preferred = preferred s, cq_brief = fst research, cq_research = snd research,
        cq_in_worktree = inside\<rparr> (vs_world s))"

text \<open>The first patch, or after a rejection its one replacement: the version to go on from and whether the repair is left.\<close>

definition first_patch :: "'w slice_env \<Rightarrow> string option \<times> string list \<Rightarrow> slice_context \<Rightarrow> int \<Rightarrow> ('w, int \<times> bool) slice_action" where
  "first_patch E research ctx v =
     bnd (model_call E (Implementation_Prompt ctx)) (\<lambda>patch.
     bnd (apply_model_patch E patch) (\<lambda>out.
     case out of
       Patch_Applied \<Rightarrow> pure (v, True)
     | Patch_Escaped e \<Rightarrow> raising e
     | Patch_Rejected kind m \<Rightarrow>
         bnd (reading (\<lambda>s. sl_diff E (vs_world s))) (\<lambda>diff.
         if strip diff \<noteq> [] then raising ''PatchApplicationError: rejected patch changed the worktree; refusing repair''
         else
           bnd (advance E ESCALATION_REQUIRED SYSTEM ''targeted_patch_repair_required'' (Some v)) (\<lambda>v1.
           bnd (compile_with E research [rejection_text out] (\<lambda>_. []) True) (\<lambda>repair.
           bnd (advance E IMPLEMENTING SYSTEM ''targeted_patch_repair_started'' (Some v1)) (\<lambda>v2.
           bnd (model_call E (Rejected_Patch_Prompt repair (take 20000 patch) (take 8000 (rejection_text out)))) (\<lambda>patch2.
           bnd (require_applied E patch2) (\<lambda>_. pure (v2, False)))))))))"

definition verify_step :: "'w slice_env \<Rightarrow> nat \<Rightarrow> string \<Rightarrow> int \<Rightarrow> ('w, verification_result \<times> int) slice_action" where
  "verify_step E attempt etype v =
     bnd (advance E PATCH_READY SYSTEM etype (Some v)) (\<lambda>v1.
     bnd (advance E VERIFYING VERIFICATION_ENGINE ''verification_started'' (Some v1)) (\<lambda>v2.
     bnd (verify_slice E attempt) (\<lambda>r. pure (r, v2))))"

definition exhausted :: "'w slice_env \<Rightarrow> int \<Rightarrow> string \<Rightarrow> ('w, slice_report) slice_action" where
  "exhausted E v message =
     bnd (advance E FAILED VERIFICATION_ENGINE ''repair_budget_exhausted'' (Some v)) (\<lambda>_.
     finalize_report E FAILED_TASK (Some message))"

definition repair_attempt ::
  "'w slice_env \<Rightarrow> string option \<times> string list \<Rightarrow> command_result \<Rightarrow> normalized_failure \<Rightarrow> int \<Rightarrow> ('w, slice_report) slice_action" where
  "repair_attempt E research command f v =
     bnd (advance E ESCALATION_REQUIRED VERIFICATION_ENGINE ''targeted_repair_required'' (Some v)) (\<lambda>v1.
     bnd (reading (\<lambda>s. sl_diff E (vs_world s))) (\<lambda>diff.
     bnd (compile_with E research [nf_root f, nf_relevant f] vs_files True) (\<lambda>ctx.
     bnd (advance E IMPLEMENTING SYSTEM ''targeted_frontier_repair_started'' (Some v1)) (\<lambda>v2.
     bnd (model_call E (Repair_Prompt ctx command (nf_relevant f) diff)) (\<lambda>patch.
     bnd (require_applied E patch) (\<lambda>_.
     bnd (verify_step E 2 ''frontier_repair_patch_applied'' v2) (\<lambda>(r, v3).
     if vr_status r = PASSED then complete_or_gap E r v3 ''repair_verification_passed''
     else exhausted E v3 ''verification still failed after one targeted repair'')))))))"

definition run_one_shot :: "'w slice_env \<Rightarrow> string option \<times> string list \<Rightarrow> slice_context \<Rightarrow> int \<Rightarrow> ('w, slice_report) slice_action" where
  "run_one_shot E research ctx v =
     bnd (first_patch E research ctx v) (\<lambda>(v1, repair_left).
     bnd (verify_step E 1 (if repair_left then ''frontier_patch_applied'' else ''frontier_replacement_patch_applied'') v1) (\<lambda>(r, v2).
     if vr_status r = PASSED then complete_or_gap E r v2 ''verification_passed''
     else
       (case extract_failure (sl_location E) failure_chars r of
          None \<Rightarrow> raising ''ValueError: no failed verification command''
        | Some (command, f) \<Rightarrow>
            if \<not> repair_left then
              exhausted E v2 ''verification failed after the single repair budget was used to replace a rejected patch''
            else repair_attempt E research command f v2)))"

subsection \<open>The whole run\<close>

definition researched :: "'w slice_env \<Rightarrow> ('w, string option \<times> string list) slice_action" where
  "researched E s =
     (case sl_research E of
        Some engine \<Rightarrow>
          (map_sum id (\<lambda>o_r. case o_r of None \<Rightarrow> (None, []) | Some (brief, ids) \<Rightarrow> (Some brief, ids))
             (engine (vs_spec s) (vs_world s)), s)
      | None \<Rightarrow>
          if sl_research_off E then (Inr (None, []), s)
          else (Inl ''ValueError: Research Mode requires a configured local research model'', s))"

definition task_slug :: "string \<Rightarrow> string" where
  "task_slug t = lower (if starts_with t ''TASK-'' then drop 5 t else t)"

definition create_worktree :: "'w slice_env \<Rightarrow> string \<Rightarrow> ('w, unit) slice_action" where
  "create_worktree E base s =
     (case sl_create_worktree E (task_slug (sl_task E)) base (vs_world s) of (x, w) \<Rightarrow> (x, s\<lparr>vs_world := w\<rparr>))"

text \<open>With a worktree: the stage of the configured execution mode.\<close>

definition implement ::
  "'w slice_env \<Rightarrow> string \<Rightarrow> string \<Rightarrow> string option \<times> string list \<Rightarrow> slice_context \<Rightarrow> agent_route option \<Rightarrow> int
    \<Rightarrow> ('w, slice_report) slice_action" where
  "implement E head base research ctx route v =
     bnd (create_worktree E base) (\<lambda>_.
     bnd (if base \<noteq> head then compile_with E research [] (\<lambda>_. []) True else pure ctx) (\<lambda>ctx1.
     bnd (advance E IMPLEMENTING SYSTEM ''isolated_worktree_created'' (Some v)) (\<lambda>v1.
     case route of None \<Rightarrow> run_one_shot E research ctx1 v1 | Some r \<Rightarrow> run_bounded_agent E research r ctx1 v1)))"

definition approved_body :: "'w slice_env \<Rightarrow> int \<Rightarrow> ('w, slice_report) slice_action" where
  "approved_body E v =
     bnd (asking (\<lambda>s. sl_head E (vs_world s))) (\<lambda>head.
     bnd (asking (execution_base E head)) (\<lambda>base.
     bnd (researched E) (\<lambda>research.
     bnd (advance E REPOSITORY_ANALYZED SYSTEM ''repository_analyzed'' (Some v)) (\<lambda>v1.
     bnd (compile_with E research [] (\<lambda>_. []) False) (\<lambda>ctx.
     bnd (advance E CONTEXT_COMPILED SYSTEM ''context_compiled'' (Some v1)) (\<lambda>v2.
     bnd (reading (\<lambda>s. if sc_mode (sl_config E) = AGENT
            then Some (select_agent_route (vs_spec s) (sc_route (sl_config E)) (sl_frontier E)) else None)) (\<lambda>decision.
     bnd (assign (\<lambda>s. s\<lparr>vs_route := decision\<rparr>)) (\<lambda>_.
     bnd (advance E ROUTED SYSTEM ''rule_based_route_selected'' (Some v2)) (\<lambda>v3.
     if map_option ro_route decision = Some HUMAN_REVIEW_ROUTE then
       bnd (advance E HUMAN_REVIEW_REQUIRED SYSTEM ''deterministic_route_requires_human'' (Some v3)) (\<lambda>_.
       finalize_report E HUMAN_REVIEW_TASK (Some ''deterministic route requires human review''))
     else implement E head base research ctx (map_option ro_route decision) v3)))))))))"

definition run_from_approved :: "'w slice_env \<Rightarrow> task_specification \<Rightarrow> int \<Rightarrow> ('w, slice_report) slice_action" where
  "run_from_approved E spec v =
     bnd (assign (\<lambda>s. s\<lparr>vs_spec := spec\<rparr>)) (\<lambda>_. try_except (approved_body E v) (handle_failure E))"

definition execute_approved_task :: "'w slice_env \<Rightarrow> ('w, slice_report) slice_action" where
  "execute_approved_task E =
     bnd (asking (\<lambda>s. map_sum error_name id (get_task (vs_db s) (sl_task E)))) (\<lambda>row.
     if tr_state row \<noteq> SPEC_APPROVED then raising ''ValueError: task is not eligible for execution''
     else run_from_approved E (tr_spec row) (tr_version row))"

text \<open>\<open>run\<close>: draft with at most one correction, ask for approval, then the same spine.\<close>

definition draft_specification :: "'w slice_env \<Rightarrow> string \<Rightarrow> ('w, task_specification) slice_action" where
  "draft_specification E request =
     bnd (model_call E (Specification_Prompt request)) (\<lambda>content.
     case sl_draft E 1 content of
       Inr spec \<Rightarrow> pure spec
     | Inl e \<Rightarrow>
         bnd (model_call E (Correction_Prompt request content e)) (\<lambda>content2.
         case sl_draft E 2 content2 of Inr spec \<Rightarrow> pure spec | Inl e2 \<Rightarrow> raising e2))"

datatype drafted = Reported slice_report | Approved task_specification int

definition draft_body :: "'w slice_env \<Rightarrow> string \<Rightarrow> ('w, drafted) slice_action" where
  "draft_body E request =
     bnd (asking (\<lambda>s. sl_head E (vs_world s))) (\<lambda>head.
     bnd (draft_specification E request) (\<lambda>spec.
     bnd (assign (\<lambda>s. s\<lparr>vs_spec := spec\<rparr>)) (\<lambda>_.
     bnd (stored (\<lambda>s. update_specification (sl_event_id E (vs_tick s)) (sl_task E) spec SYSTEM None (sl_now E (vs_tick s)) (vs_db s)) E) (\<lambda>_.
     bnd (advance E SPEC_DRAFTED SYSTEM ''frontier_specification_validated'' None) (\<lambda>v.
     if \<not> sl_approve E spec then
       bnd (advance E HUMAN_REVIEW_REQUIRED USER ''specification_not_approved'' (Some v)) (\<lambda>_.
       bnd (finalize_report E HUMAN_REVIEW_TASK (Some ''user did not approve the extracted specification'')) (\<lambda>r. pure (Reported r)))
     else if \<not> list_ex vc_required (vg_commands (sc_verification (sl_config E))) then
       raising ''ValueError: at least one required verification command must be configured''
     else bnd (advance E SPEC_APPROVED USER ''specification_approved'' (Some v)) (\<lambda>v1. pure (Approved spec v1)))))))"

definition run_request :: "'w slice_env \<Rightarrow> string \<Rightarrow> task_specification \<Rightarrow> ('w, slice_report) slice_action" where
  "run_request E request preliminary =
     bnd (assign (\<lambda>s. s\<lparr>vs_spec := preliminary\<rparr>)) (\<lambda>_.
     bnd (stored (\<lambda>s. create_task (sl_event_id E (vs_tick s)) (sl_task E) preliminary USER (sl_now E (vs_tick s)) (vs_db s)) E) (\<lambda>_.
     bnd (try_except (draft_body E request) (\<lambda>e. bnd (handle_failure E e) (\<lambda>r. pure (Reported r)))) (\<lambda>d.
     case d of Reported r \<Rightarrow> pure r | Approved spec v \<Rightarrow> run_from_approved E spec v)))"

end
