(* ===== verification/Slice_Store.thy ===== *)
theory Slice_Store
  imports Vertical_Slice
begin

section \<open>The task's state at the end of a run\<close>

text \<open>
  The task workflow seen from the store, when no other client writes to it: every transition the runner asks for
  is allowed and made at the version it expects, so a run always returns a report, and the stored state is
  the one the report names; the one exception is a report of completion that could not be written, which is
  followed by a report of failure although the task stays COMPLETE.
\<close>

definition outcome_state :: "task_outcome \<Rightarrow> workflow_state" where
  "outcome_state out =
     (case out of COMPLETE_TASK \<Rightarrow> COMPLETE | FAILED_TASK \<Rightarrow> FAILED | HUMAN_REVIEW_TASK \<Rightarrow> HUMAN_REVIEW_REQUIRED)"

definition quiet :: "'w slice_env \<Rightarrow> bool" where
  "quiet E = ((\<forall>n. sl_others E n = []) \<and> inj (sl_event_id E))"

definition unused_ids :: "'w slice_env \<Rightarrow> 'w slice \<Rightarrow> bool" where
  "unused_ids E s = (\<forall>e \<in> set (db_events (vs_db s)). \<forall>n > vs_tick s. er_event_id e \<noteq> sl_event_id E n)"

text \<open>The task is stored in a state and at a version.\<close>

definition stands :: "'w slice_env \<Rightarrow> workflow_state \<Rightarrow> int \<Rightarrow> 'w slice \<Rightarrow> bool" where
  "stands E st v s =
     (wf_db (vs_db s) \<and> unused_ids E s
      \<and> (\<exists>row. select_task (sl_task E) (vs_db s) = Some row \<and> tr_state row = st \<and> tr_version row = v))"

definition completion_unreported :: "'w slice_env \<Rightarrow> bool" where
  "completion_unreported E = (\<exists>w. sl_write_report E COMPLETE_TASK w \<noteq> None)"

definition can_fail :: "'w slice_env \<Rightarrow> workflow_state \<Rightarrow> bool" where
  "can_fail E st =
     (transition_is_allowed st FAILED \<or> st = FAILED \<or> st = COMPLETE \<and> completion_unreported E)"

definition interrupted :: "'w slice_env \<Rightarrow> 'w slice \<Rightarrow> bool" where
  "interrupted E s = (\<exists>st v. stands E st v s \<and> can_fail E st)"

definition agrees :: "'w slice_env \<Rightarrow> slice_report \<Rightarrow> 'w slice \<Rightarrow> bool" where
  "agrees E r s = (\<exists>v. stands E (outcome_state (rp_outcome r)) v s)"

definition course ::
  "'w slice_env \<Rightarrow> workflow_state \<Rightarrow> int \<Rightarrow> ('a \<Rightarrow> 'w slice \<Rightarrow> bool) \<Rightarrow> ('w, 'a) slice_action \<Rightarrow> bool" where
  "course E st v Q m = triple (stands E st v) m Q (\<lambda>_. interrupted E)"

abbreviation on_course :: "'w slice_env \<Rightarrow> workflow_state \<Rightarrow> int \<Rightarrow> ('w, slice_report) slice_action \<Rightarrow> bool" where
  "on_course E st v m \<equiv> course E st v (agrees E) m"

subsection \<open>Steps that leave the store alone\<close>

definition db_frame :: "('w, 'a) slice_action \<Rightarrow> bool" where
  "db_frame m = (\<forall>s. vs_db (snd (m s)) = vs_db s \<and> vs_tick (snd (m s)) = vs_tick s)"

lemma stands_frame: "vs_db s' = vs_db s \<Longrightarrow> vs_tick s' = vs_tick s \<Longrightarrow> stands E st v s' = stands E st v s"
  by (simp add: stands_def unused_ids_def)

lemma db_frame_simps [simp]:
  "db_frame (pure x)" "db_frame (raising e)" "db_frame (reading f)" "db_frame (asking g)"
  by (simp_all add: db_frame_def)

lemma db_frame_assign: "(\<And>s. vs_db (f s) = vs_db s) \<Longrightarrow> (\<And>s. vs_tick (f s) = vs_tick s) \<Longrightarrow> db_frame (assign f)"
  by (simp add: db_frame_def)

lemma db_frame_bnd: "db_frame m \<Longrightarrow> (\<And>x. db_frame (f x)) \<Longrightarrow> db_frame (bnd m f)"
  unfolding db_frame_def bnd_def by (auto split: prod.split sum.split) (metis snd_conv)+

lemma db_frame_steps [simp]:
  "db_frame (model_call E p)" "db_frame (apply_model_patch E patch)" "db_frame (create_worktree E base)"
  "db_frame (researched E)" "db_frame (compile_with E research qs ps b)" "db_frame (verify_slice E n)"
  "db_frame (run_agent_session E st ctx)" "db_frame (outside_stage g ctx)"
  by (auto simp: db_frame_def model_call_def apply_model_patch_def create_worktree_def researched_def compile_with_def
      verify_slice_def run_agent_session_def outside_stage_def Let_def
      split: call_outcome.split prod.split patch_outcome.split option.split sum.split)

lemma db_frame_composed [simp]:
  "db_frame (require_applied E patch)" "db_frame (local_stage E identity ctx)"
  "db_frame (assign (record_agent_result sg res))" "db_frame (assign (\<lambda>s. s\<lparr>vs_escalation := x\<rparr>))"
  "db_frame (assign (\<lambda>s. if b then s\<lparr>vs_coverage := cov\<rparr> else s))" "db_frame (assign (\<lambda>s. s\<lparr>vs_route := d\<rparr>))"
  by (auto simp: require_applied_def local_stage_def record_agent_result_def Let_def split: stage.split
      intro!: db_frame_bnd db_frame_assign)

lemma interruptedI: "stands E st v s \<Longrightarrow> can_fail E st \<Longrightarrow> interrupted E s"
  by (auto simp: interrupted_def)

lemma frame_then:
  assumes "db_frame m" "can_fail E st" "\<And>x. course E st v Q (f x)"
  shows "course E st v Q (bnd m f)"
  unfolding course_def
proof (rule triple_bnd [of _ _ "\<lambda>_. stands E st v"])
  show "triple (stands E st v) m (\<lambda>_. stands E st v) (\<lambda>_. interrupted E)"
  proof (rule tripleI)
    fix s x s' assume "stands E st v s" "m s = (Inr x, s')"
    with assms(1) stands_frame [of s' s E st v] show "stands E st v s'" by (metis db_frame_def snd_conv)
  next
    fix s e s' assume "stands E st v s" "m s = (Inl e, s')"
    with assms(1) stands_frame [of s' s E st v] have "stands E st v s'" by (metis db_frame_def snd_conv)
    with assms(2) show "interrupted E s'" by (rule interruptedI [rotated])
  qed
qed (use assms(3) in \<open>simp add: course_def\<close>)

lemma raise_course: "can_fail E st \<Longrightarrow> course E st v Q (raising e)"
  unfolding course_def by (rule triple_raising) (rule interruptedI)

lemma pure_course: "(\<And>s. stands E st v s \<Longrightarrow> Q x s) \<Longrightarrow> course E st v Q (pure x)"
  unfolding course_def by (rule triple_pure)

lemma course_bnd:
  "course E st v (\<lambda>x. stands E st' (g x)) m \<Longrightarrow> (\<And>x. course E st' (g x) Q (f x)) \<Longrightarrow> course E st v Q (bnd m f)"
  unfolding course_def by (rule triple_bnd)

lemma finalize_course: "on_course E (outcome_state out) v (finalize_report E out err)"
  unfolding course_def
proof (rule tripleI)
  fix s r s' assume "stands E (outcome_state out) v s" "finalize_report E out err s = (Inr r, s')"
  then show "agrees E r s'" by (auto simp: finalize_report_def agrees_def split: option.splits)
next
  fix s e s' assume s: "stands E (outcome_state out) v s" "finalize_report E out err s = (Inl e, s')"
  then have "s' = s" "sl_write_report E out (vs_world s) \<noteq> None" by (auto simp: finalize_report_def split: option.splits)
  with s show "interrupted E s'"
    by (intro interruptedI [of E "outcome_state out" v])
      (auto simp: can_fail_def outcome_state_def completion_unreported_def transition_is_allowed_def split: task_outcome.splits)
qed

subsection \<open>Transitions\<close>

lemma advance_stands:
  assumes q: "quiet E" and a: "transition_is_allowed st target" and ty: "strip etype \<noteq> []"
    and s: "stands E st v s" and ex: "expected = None \<or> expected = Some v"
  shows "\<exists>s'. advance E target actor etype expected s = (Inr (v + 1), s') \<and> stands E target (v + 1) s'"
proof -
  let ?s1 = "with_others E s" and ?eid = "sl_event_id E (Suc (vs_tick s))" and ?now = "sl_now E (Suc (vs_tick s))"
  have s1: "vs_db ?s1 = vs_db s" "vs_tick ?s1 = Suc (vs_tick s)" using q by (simp_all add: with_others_def quiet_def)
  from s obtain row where row: "select_task (sl_task E) (vs_db s) = Some row" "tr_state row = st" "tr_version row = v"
    and wf: "wf_db (vs_db s)" and ids: "unused_ids E s" by (auto simp: stands_def)
  have fresh: "fresh_event ?eid (vs_db s)"
    using ids unfolding fresh_event_def unused_ids_def by (metis imageE lessI)
  let ?e = "task_event (vs_db s) ?eid (sl_task E) etype st target actor (sorted_payload None) ?now"
  let ?db = "log_step row (transition_row target ?now row) ?e (vs_db s)"
  have body: "transition_body ?eid (sl_task E) target actor etype None expected ?now (vs_db s) = Inr ?db"
    using row a fresh ex by (auto simp: transition_body_eq [OF wf] version_conflict_def)
  have tid: "tr_id (transition_row target ?now row) = sl_task E" using row(1) by (auto dest: select_task_SomeD)
  have sel: "select_task (sl_task E) ?db = Some (transition_row target ?now row)"
    using select_log_step [OF wf row(1) tid] by simp
  have "transition ?eid (sl_task E) target actor etype None expected ?now (vs_db s) = (?db, Inr (transition_row target ?now row))"
    using body sel ty by (simp add: transition_def return_task_def run_txn_def get_task_def)
  then have adv: "advance E target actor etype expected s = (Inr (v + 1), ?s1\<lparr>vs_db := ?db\<rparr>)"
    using s1 row(3) by (simp add: advance_def stored_def Let_def)
  have "wf_db ?db" by (rule transition_wf [OF wf body])
  moreover have "unused_ids E (?s1\<lparr>vs_db := ?db\<rparr>)"
  proof -
    have new: "?eid \<noteq> sl_event_id E n" if "Suc (vs_tick s) < n" for n
      using q that by (auto simp: quiet_def dest: injD)
    show ?thesis
      using ids new unfolding unused_ids_def by (simp add: s1(2) log_step_def task_event_def)
  qed
  ultimately show ?thesis using adv sel row(3) by (simp add: stands_def)
qed

lemma advance_then:
  assumes "quiet E" "transition_is_allowed st target" "strip etype \<noteq> []" "\<And>v'. course E target v' Q (f v')"
  shows "course E st v Q (bnd (advance E target actor etype (Some v)) f)"
  unfolding course_def triple_def
proof (intro allI impI)
  fix s assume "stands E st v s"
  from advance_stands [OF assms(1-3) this] obtain s' where
    s': "advance E target actor etype (Some v) s = (Inr (v + 1), s')" "stands E target (v + 1) s'" by blast
  with assms(4) [of "v + 1"]
  show "case bnd (advance E target actor etype (Some v)) f s of (Inl e, s') \<Rightarrow> interrupted E s' | (Inr x, s') \<Rightarrow> Q x s'"
    by (simp add: bnd_simps course_def triple_def)
qed

lemma course_if:
  "(c \<Longrightarrow> course E st v Q m) \<Longrightarrow> (\<not> c \<Longrightarrow> course E st v Q m') \<Longrightarrow> course E st v Q (if c then m else m')"
  by simp

lemma can_fail_simps [simp]:
  "can_fail E SPEC_APPROVED" "can_fail E REPOSITORY_ANALYZED" "can_fail E CONTEXT_COMPILED" "can_fail E ROUTED"
  "can_fail E IMPLEMENTING" "can_fail E PATCH_READY" "can_fail E VERIFYING" "can_fail E ESCALATION_REQUIRED"
  by (simp_all add: can_fail_def transition_is_allowed_def)

lemma allowed_edges [simp]:
  "transition_is_allowed SPEC_APPROVED REPOSITORY_ANALYZED" "transition_is_allowed REPOSITORY_ANALYZED CONTEXT_COMPILED"
  "transition_is_allowed CONTEXT_COMPILED ROUTED" "transition_is_allowed ROUTED IMPLEMENTING"
  "transition_is_allowed ROUTED HUMAN_REVIEW_REQUIRED" "transition_is_allowed IMPLEMENTING PATCH_READY"
  "transition_is_allowed IMPLEMENTING ESCALATION_REQUIRED" "transition_is_allowed PATCH_READY VERIFYING"
  "transition_is_allowed VERIFYING COMPLETE" "transition_is_allowed VERIFYING FAILED"
  "transition_is_allowed VERIFYING ESCALATION_REQUIRED" "transition_is_allowed VERIFYING HUMAN_REVIEW_REQUIRED"
  "transition_is_allowed ESCALATION_REQUIRED IMPLEMENTING" "transition_is_allowed ESCALATION_REQUIRED HUMAN_REVIEW_REQUIRED"
  by (simp_all add: transition_is_allowed_def)

lemmas finalize_courses =
  finalize_course [of _ COMPLETE_TASK, unfolded outcome_state_def task_outcome.case]
  finalize_course [of _ FAILED_TASK, unfolded outcome_state_def task_outcome.case]
  finalize_course [of _ HUMAN_REVIEW_TASK, unfolded outcome_state_def task_outcome.case]

subsection \<open>The stages\<close>

lemma strip_eq_Nil: "strip s = [] \<longleftrightarrow> (\<forall>c \<in> set s. is_space_char c)"
proof
  assume "strip s = []"
  then have all: "\<forall>c \<in> set (dropWhile is_space_char s). is_space_char c"
    by (simp add: strip_def rstrip_def lstrip_def)
  then have "dropWhile is_space_char s = []"
    by (metis hd_dropWhile hd_in_set)
  then show "\<forall>c \<in> set s. is_space_char c" by simp
qed (auto simp: strip_def rstrip_def lstrip_def dest: set_dropWhileD)

lemma nonblank_appended: "strip y \<noteq> [] \<Longrightarrow> strip (x @ y) \<noteq> []"
  by (auto simp: strip_eq_Nil)

lemma event_names [simp]:
  "strip ''_patch_ready'' \<noteq> []" "strip ''_verification_recorded'' \<noteq> []" "strip ''_verification_passed'' \<noteq> []"
  "strip ''frontier_agent_budget_exhausted'' \<noteq> []" "strip ''bounded_frontier_requires_human'' \<noteq> []"
  "strip ''bounded_frontier_escalation_started'' \<noteq> []" "strip ''bounded_local_agent_escalation_required'' \<noteq> []"
  "strip ''frontier_escalation_not_configured'' \<noteq> []" "strip ''acceptance_coverage_incomplete'' \<noteq> []"
  "strip ''targeted_patch_repair_required'' \<noteq> []" "strip ''targeted_patch_repair_started'' \<noteq> []"
  "strip ''verification_started'' \<noteq> []" "strip ''repair_budget_exhausted'' \<noteq> []" "strip ''targeted_repair_required'' \<noteq> []"
  "strip ''targeted_frontier_repair_started'' \<noteq> []" "strip ''frontier_repair_patch_applied'' \<noteq> []"
  "strip ''frontier_patch_applied'' \<noteq> []" "strip ''frontier_replacement_patch_applied'' \<noteq> []"
  "strip ''verification_passed'' \<noteq> []" "strip ''repair_verification_passed'' \<noteq> []" "strip ''repository_analyzed'' \<noteq> []"
  "strip ''context_compiled'' \<noteq> []" "strip ''rule_based_route_selected'' \<noteq> []" "strip ''vertical_slice_failed'' \<noteq> []"
  "strip ''deterministic_route_requires_human'' \<noteq> []" "strip ''isolated_worktree_created'' \<noteq> []"
  by (auto simp: strip_eq_Nil is_space_char_def)

lemma complete_workflow_course: "quiet E \<Longrightarrow> on_course E IMPLEMENTING v (complete_agent_workflow E name v)"
  unfolding complete_agent_workflow_def
  by (intro advance_then finalize_courses nonblank_appended) simp_all

lemma require_human_course: "quiet E \<Longrightarrow> on_course E IMPLEMENTING v (require_human_after_agent E res v)"
  unfolding require_human_after_agent_def
  by (intro frame_then advance_then finalize_courses) simp_all

lemma frontier_stage_course: "quiet E \<Longrightarrow> on_course E IMPLEMENTING v (frontier_stage E ctx v)"
  unfolding frontier_stage_def
  by (intro frame_then course_if complete_workflow_course require_human_course) simp_all

lemma run_frontier_escalation_course:
  "quiet E \<Longrightarrow> on_course E ESCALATION_REQUIRED v (run_frontier_escalation E research res v)"
  unfolding run_frontier_escalation_def
  by (intro frame_then advance_then frontier_stage_course) simp_all

lemma settle_local_course: "quiet E \<Longrightarrow> on_course E IMPLEMENTING v (settle_local E research route v x)"
  unfolding settle_local_def stop_after_local_def
  by (intro frame_then course_if advance_then complete_workflow_course run_frontier_escalation_course finalize_courses) simp_all

lemma run_bounded_agent_course: "quiet E \<Longrightarrow> on_course E IMPLEMENTING v (run_bounded_agent E research route ctx v)"
  unfolding run_bounded_agent_def
  by (intro frame_then course_if settle_local_course frontier_stage_course) simp_all

lemma complete_or_gap_course:
  "quiet E \<Longrightarrow> strip etype \<noteq> [] \<Longrightarrow> on_course E VERIFYING v (complete_or_gap E r v etype)"
  unfolding complete_or_gap_def
  by (intro frame_then course_if advance_then finalize_courses) simp_all

lemma first_patch_course:
  assumes "quiet E"
  shows "course E IMPLEMENTING v (\<lambda>x. stands E IMPLEMENTING (fst x)) (first_patch E research ctx v)"
proof -
  have repair: "course E IMPLEMENTING v (\<lambda>x. stands E IMPLEMENTING (fst x))
      (bnd (reading (\<lambda>s. sl_diff E (vs_world s))) (\<lambda>diff.
         if strip diff \<noteq> [] then raising ''PatchApplicationError: rejected patch changed the worktree; refusing repair''
         else
           bnd (advance E ESCALATION_REQUIRED SYSTEM ''targeted_patch_repair_required'' (Some v)) (\<lambda>v1.
           bnd (compile_with E research [rejection_text out] (\<lambda>_. []) True) (\<lambda>repair.
           bnd (advance E IMPLEMENTING SYSTEM ''targeted_patch_repair_started'' (Some v1)) (\<lambda>v2.
           bnd (model_call E (Rejected_Patch_Prompt repair (take 20000 patch) (take 8000 (rejection_text out)))) (\<lambda>patch2.
           bnd (require_applied E patch2) (\<lambda>_. pure (v2, False))))))))" for patch out
    by (intro frame_then course_if raise_course advance_then assms pure_course) simp_all
  show ?thesis
    unfolding first_patch_def
    by (intro frame_then) (auto split: patch_outcome.split intro: pure_course raise_course repair)
qed

lemma verify_step_course:
  "quiet E \<Longrightarrow> strip etype \<noteq> [] \<Longrightarrow> course E IMPLEMENTING v (\<lambda>x. stands E VERIFYING (snd x)) (verify_step E n etype v)"
  unfolding verify_step_def
  by (intro advance_then frame_then pure_course) simp_all

lemma exhausted_course: "quiet E \<Longrightarrow> on_course E VERIFYING v (exhausted E v m)"
  unfolding exhausted_def by (intro advance_then finalize_courses) simp_all

lemma repair_attempt_course: "quiet E \<Longrightarrow> on_course E VERIFYING v (repair_attempt E research c f v)"
  unfolding repair_attempt_def split_beta
  by (intro frame_then advance_then course_bnd [OF verify_step_course] course_if complete_or_gap_course exhausted_course) simp_all

lemma run_one_shot_course:
  assumes "quiet E"
  shows "on_course E IMPLEMENTING v (run_one_shot E research ctx v)"
proof -
  have settle: "on_course E VERIFYING v2
     (if vr_status r = PASSED then complete_or_gap E r v2 ''verification_passed''
     else
       (case extract_failure (sl_location E) failure_chars r of
          None \<Rightarrow> raising ''ValueError: no failed verification command''
        | Some x \<Rightarrow>
            if \<not> repair_left then
              exhausted E v2 ''verification failed after the single repair budget was used to replace a rejected patch''
            else repair_attempt E research (fst x) (snd x) v2))" for r v2 repair_left
    using assms by (auto intro!: course_if complete_or_gap_course raise_course exhausted_course repair_attempt_course split: option.split)
  show ?thesis
    unfolding run_one_shot_def split_beta
    by (rule course_bnd [OF first_patch_course [OF assms]], rule course_bnd [OF verify_step_course [OF assms]], simp, rule settle)
qed

lemma implement_course:
  assumes "quiet E"
  shows "on_course E ROUTED v (implement E head base research ctx route v)"
proof -
  have "on_course E IMPLEMENTING v1 (case route of None \<Rightarrow> run_one_shot E research c v1 | Some r \<Rightarrow> run_bounded_agent E research r c v1)"
    for c v1
    using run_one_shot_course [OF assms] run_bounded_agent_course [OF assms] by (cases route) simp_all
  then show ?thesis
    unfolding implement_def by (intro frame_then advance_then assms) simp_all
qed

lemma approved_body_course: "quiet E \<Longrightarrow> on_course E SPEC_APPROVED v (approved_body E v)"
  unfolding approved_body_def
  by (intro frame_then advance_then course_if finalize_courses implement_course) simp_all

subsection \<open>Failures and the whole run\<close>

lemma handle_failure_agrees:
  assumes q: "quiet E" and i: "interrupted E s" and ok: "\<forall>w. sl_write_report E FAILED_TASK w = None"
  shows "\<exists>r s'. handle_failure E e s = (Inr r, s') \<and> rp_outcome r = FAILED_TASK
    \<and> (agrees E r s' \<or> ((\<exists>v. stands E COMPLETE v s') \<and> completion_unreported E))"
proof -
  from i obtain st v where s: "stands E st v s" and f: "can_fail E st" by (auto simp: interrupted_def)
  then obtain row where row: "get_task (vs_db s) (sl_task E) = Inr row" "tr_state row = st" "tr_version row = v"
    by (auto simp: stands_def get_task_def)
  have fin: "\<exists>r. finalize_report E FAILED_TASK (Some e) s1 = (Inr r, s1) \<and> rp_outcome r = FAILED_TASK" for s1
    using ok by (simp add: finalize_report_def)
  show ?thesis
  proof (cases "transition_is_allowed st FAILED")
    case True
    from advance_stands [OF q True _ s, of "''vertical_slice_failed''" "Some v" SYSTEM] obtain s1 where
      s1: "advance E FAILED SYSTEM ''vertical_slice_failed'' (Some v) s = (Inr (v + 1), s1)" "stands E FAILED (v + 1) s1"
      by auto
    obtain r where r: "finalize_report E FAILED_TASK (Some e) s1 = (Inr r, s1)" "rp_outcome r = FAILED_TASK" using fin by blast
    have "handle_failure E e s = (Inr r, s1)"
      using row True s1(1) r(1) by (simp add: handle_failure_def bnd_def try_except_def)
    with r s1(2) show ?thesis by (auto simp: agrees_def outcome_state_def)
  next
    case False
    obtain r where r: "finalize_report E FAILED_TASK (Some e) s = (Inr r, s)" "rp_outcome r = FAILED_TASK" using fin by blast
    have "handle_failure E e s = (Inr r, s)"
      using row False r(1) by (simp add: handle_failure_def bnd_def try_except_def)
    with r s f False show ?thesis by (auto simp: agrees_def outcome_state_def can_fail_def)
  qed
qed

subsection \<open>Properties\<close>

text \<open>
  C3: a task run to its end is stored as it is reported. When no other client writes to the store and a report
  of failure can be written, running an approved task always returns a report, and the task is then stored in the state
  the report names; the only exception is a task stored as COMPLETE whose report of completion could not be
  written: it is reported as failed.
\<close>

theorem report_agrees_with_store:
  assumes "\<forall>n. sl_others E n = []" "inj (sl_event_id E)" "\<forall>w. sl_write_report E FAILED_TASK w = None"
    and "wf_db (vs_db s)" "select_task (sl_task E) (vs_db s) = Some row" "tr_state row = SPEC_APPROVED"
    and "\<forall>e \<in> set (db_events (vs_db s)). \<forall>n > vs_tick s. er_event_id e \<noteq> sl_event_id E n"
  shows "\<exists>r s' row'. execute_approved_task E s = (Inr r, s') \<and> select_task (sl_task E) (vs_db s') = Some row'
    \<and> (tr_state row' = outcome_state (rp_outcome r)
       \<or> (rp_outcome r = FAILED_TASK \<and> tr_state row' = COMPLETE \<and> (\<exists>w. sl_write_report E COMPLETE_TASK w \<noteq> None)))"
proof -
  have q: "quiet E" using assms(1,2) by (simp add: quiet_def)
  let ?s0 = "s\<lparr>vs_spec := tr_spec row\<rparr>"
  have st: "stands E SPEC_APPROVED (tr_version row) ?s0"
    using assms(4-7) by (auto simp: stands_def unused_ids_def)
  have run: "execute_approved_task E s = try_except (approved_body E (tr_version row)) (handle_failure E) ?s0"
    using assms(5,6) by (simp add: execute_approved_task_def get_task_def bnd_def run_from_approved_def)
  obtain x s1 where x: "approved_body E (tr_version row) ?s0 = (x, s1)" by fastforce
  note course = approved_body_course [OF q, of "tr_version row", unfolded course_def]
  show ?thesis
  proof (cases x)
    case (Inr r)
    with tripleD(1) [OF course st] x have "agrees E r s1" by simp
    with x Inr run show ?thesis by (auto simp: try_simps agrees_def stands_def)
  next
    case (Inl e)
    with tripleD(2) [OF course st] x have "interrupted E s1" by simp
    from handle_failure_agrees [OF q this assms(3)] obtain r s' where
      "handle_failure E e s1 = (Inr r, s')" "rp_outcome r = FAILED_TASK"
      "agrees E r s' \<or> (\<exists>v. stands E COMPLETE v s') \<and> completion_unreported E" by blast
    with x Inl run show ?thesis
      by (auto simp: try_simps agrees_def stands_def completion_unreported_def)
  qed
qed

text \<open>
  A completed task is reported as failed when its report cannot be written. If writing the report of completion fails
  and writing one of failure does not, the workflow that follows a completed session leaves the task COMPLETE
  in the store and returns a report of failure.
\<close>

theorem unwritten_completion_is_reported_as_failure:
  assumes "\<forall>n. sl_others E n = []" "inj (sl_event_id E)"
    and "\<forall>w. sl_write_report E COMPLETE_TASK w \<noteq> None" "\<forall>w. sl_write_report E FAILED_TASK w = None"
    and "stands E IMPLEMENTING v s"
  shows "\<exists>r s' v'. try_except (complete_agent_workflow E name v) (handle_failure E) s = (Inr r, s')
    \<and> rp_outcome r = FAILED_TASK \<and> stands E COMPLETE v' s'"
proof -
  have q: "quiet E" using assms(1,2) by (simp add: quiet_def)
  from advance_stands [OF q allowed_edges(6) nonblank_appended [OF event_names(1)] assms(5), of "Some v" SYSTEM name] obtain s1 where
    s1: "advance E PATCH_READY SYSTEM (name @ ''_patch_ready'') (Some v) s = (Inr (v + 1), s1)" "stands E PATCH_READY (v + 1) s1"
    by auto
  from advance_stands [OF q allowed_edges(8) nonblank_appended [OF event_names(2)] s1(2), of "Some (v + 1)" VERIFICATION_ENGINE name]
  obtain s2 where s2: "advance E VERIFYING VERIFICATION_ENGINE (name @ ''_verification_recorded'') (Some (v + 1)) s1 = (Inr (v + 1 + 1), s2)"
    "stands E VERIFYING (v + 1 + 1) s2" by auto
  from advance_stands [OF q allowed_edges(9) nonblank_appended [OF event_names(3)] s2(2), of "Some (v + 1 + 1)" VERIFICATION_ENGINE name]
  obtain s3 where s3: "advance E COMPLETE VERIFICATION_ENGINE (name @ ''_verification_passed'') (Some (v + 1 + 1)) s2 = (Inr (v + 1 + 1 + 1), s3)"
    "stands E COMPLETE (v + 1 + 1 + 1) s3" by auto
  obtain e where "sl_write_report E COMPLETE_TASK (vs_world s3) = Some e" using assms(3) by blast
  then have e: "finalize_report E COMPLETE_TASK None s3 = (Inl e, s3)" by (simp add: finalize_report_def)
  have "complete_agent_workflow E name v s = (Inl e, s3)"
    unfolding complete_agent_workflow_def using s1(1) s2(1) s3(1) e by (simp add: bnd_simps)
  moreover from s3(2) have row: "\<exists>row. get_task (vs_db s3) (sl_task E) = Inr row \<and> tr_state row = COMPLETE"
    by (auto simp: stands_def get_task_def)
  moreover have "\<exists>r. handle_failure E e s3 = (Inr r, s3) \<and> rp_outcome r = FAILED_TASK"
    using row assms(4)
    by (auto simp: handle_failure_def bnd_def try_except_def finalize_report_def transition_is_allowed_def)
  ultimately show ?thesis using s3(2) by (auto simp: try_simps)
qed

subsection \<open>A sample task\<close>

definition sample_slice_config :: slice_config where
  "sample_slice_config = \<lparr>sc_mode = AGENT, sc_route = FRONTIER_ONLY,
     sc_agent = \<lparr>ac_max_turns = 3, ac_max_patch_attempts = 1, ac_max_verification_runs = 1, ac_max_search_results = 1,
       ac_max_read_lines = 1, ac_max_observation_chars = 100, ac_max_transmitted_chars = 100\<rparr>,
     sc_frontier_agent = \<lparr>ac_max_turns = 3, ac_max_patch_attempts = 1, ac_max_verification_runs = 1, ac_max_search_results = 1,
       ac_max_read_lines = 1, ac_max_observation_chars = 100, ac_max_transmitted_chars = 100\<rparr>,
     sc_verification = sample_verification_config\<lparr>vg_commands := [sample_command]\<rparr>, sc_patch = default_patch_policy,
     sc_strict = True, sc_capability_sandbox = False, sc_local_power = False, sc_local_tokens = None, sc_local_output = 1,
     sc_frontier_tokens = None, sc_frontier_output = 1\<rparr>"

definition sample_slice_env :: "unit agent_env \<Rightarrow> string + string \<Rightarrow> unit slice_env" where
  "sample_slice_env A head = \<lparr>sl_task = ''T'', sl_config = sample_slice_config, sl_frontier = True,
     sl_event_id = (\<lambda>n. replicate n (CHR ''x'')), sl_now = int, sl_others = (\<lambda>_. []), sl_loads = (\<lambda>_. None),
     sl_head = (\<lambda>_. head), sl_rev_parse = (\<lambda>_ _. Inl []), sl_draft = (\<lambda>_ _. Inl []), sl_approve = (\<lambda>_. True),
     sl_research = None, sl_research_off = True, sl_compile = (\<lambda>_ _ _. Inr ([], [])),
     sl_create_worktree = (\<lambda>_ _ w. (Inr (), w)), sl_call = (\<lambda>_ _ _. Call_Failed []),
     sl_git = \<lparr>g_status = (\<lambda>_. None), g_check = (\<lambda>_ _. Git_Refused), g_apply = (\<lambda>w _. (w, Git_Refused)), g_reverse = (\<lambda>w _. (w, Git_Done))\<rparr>,
     sl_tree = (\<lambda>_. Map.empty), sl_put = (\<lambda>_ w. w), sl_locate = (\<lambda>_ _. None), sl_inside = (\<lambda>_ _. True),
     sl_worktree_root = (\<lambda>_. True), sl_diff = (\<lambda>_. []), sl_local = A, sl_frontier_env = A,
     sl_capability = (\<lambda>_ _ w. (Inl [], w)), sl_power = (\<lambda>_ _ w. (Inl [], w)), sl_backend = (\<lambda>_. sample_backend),
     sl_os = Map.empty, sl_manifests = (\<lambda>_. Inl []), sl_location = ''/w'', sl_history_json = (\<lambda>_. []), sl_argv_json = (\<lambda>_. []),
     sl_write_report = (\<lambda>_ _. None)\<rparr>"

definition approved_ops :: "task_specification store_op list" where
  "approved_ops = [Create ''e0'' ''T'' (sample_specification []) USER 0,
     Transition ''e1'' ''T'' SPEC_DRAFTED SYSTEM ''t'' None (Some 1) 1,
     Transition ''e2'' ''T'' SPEC_APPROVED USER ''t'' None (Some 2) 2]"

definition sample_slice :: "unit slice" where
  "sample_slice = \<lparr>vs_db = reachable_db approved_ops, vs_tick = 0, vs_world = (), vs_calls = 0, vs_spec = sample_specification [],
     vs_files = [], vs_results = [], vs_coverage = [], vs_route = None, vs_local = None, vs_frontier = None, vs_escalation = None\<rparr>"

lemma sample_slice_db: "reachable_db approved_ops =
   \<lparr>db_tasks = [\<lparr>tr_id = ''T'', tr_spec = sample_specification [], tr_state = SPEC_APPROVED, tr_version = 3, tr_created = 0, tr_updated = 2\<rparr>],
    db_events = [\<lparr>er_sequence = 1, er_event_id = ''e0'', er_task = ''T'', er_type = ''task_created'', er_from = None, er_to = INTAKE,
       er_actor = USER, er_payload = [], er_created = 0\<rparr>,
      \<lparr>er_sequence = 2, er_event_id = ''e1'', er_task = ''T'', er_type = ''t'', er_from = Some INTAKE, er_to = SPEC_DRAFTED,
       er_actor = SYSTEM, er_payload = [], er_created = 1\<rparr>,
      \<lparr>er_sequence = 3, er_event_id = ''e2'', er_task = ''T'', er_type = ''t'', er_from = Some SPEC_DRAFTED, er_to = SPEC_APPROVED,
       er_actor = USER, er_payload = [], er_created = 2\<rparr>], db_next = 4\<rparr>"
  by (simp add: store_eval approved_ops_def)

lemma sample_quiet: "\<forall>n. sl_others (sample_slice_env A h) n = []" "inj (sl_event_id (sample_slice_env A h))"
  "\<forall>w. sl_write_report (sample_slice_env A h) out w = None"
proof -
  have "inj (\<lambda>n. replicate n (CHR ''x''))" by (rule injI) (metis length_replicate)
  then show "\<forall>n. sl_others (sample_slice_env A h) n = []" "inj (sl_event_id (sample_slice_env A h))"
    "\<forall>w. sl_write_report (sample_slice_env A h) out w = None"
    by (simp_all add: sample_slice_env_def)
qed

lemma sample_ids:
  "\<forall>e \<in> set (db_events (vs_db sample_slice)). \<forall>n > vs_tick sample_slice. er_event_id e \<noteq> sl_event_id (sample_slice_env A h) n"
proof -
  have "''e0'' \<noteq> replicate n (CHR ''x'')" "''e1'' \<noteq> replicate n (CHR ''x'')" "''e2'' \<noteq> replicate n (CHR ''x'')" for n
    by (auto simp: Cons_replicate_eq)
  then show ?thesis by (simp add: sample_slice_def sample_slice_db sample_slice_env_def)
qed

lemma sample_stands: "stands (sample_slice_env A h) SPEC_APPROVED 3 sample_slice"
  using sample_ids [of A h] wf_reachable [of approved_ops]
  by (simp add: stands_def unused_ids_def sample_slice_def sample_slice_db select_task_def) (simp add: sample_slice_env_def)

definition idle_agent :: "unit agent_env" where
  "idle_agent = \<lparr>ae_hash = id, ae_view = (\<lambda>_. undefined), ae_fingerprint = (\<lambda>_. []), ae_model = (\<lambda>_ _ _. Call_Escaped []),
     ae_apply = (\<lambda>_ _ w. (Patch_Escaped [], w)), ae_backend = (\<lambda>_. sample_backend), ae_os = Map.empty,
     ae_manifests = (\<lambda>_. Inl []), ae_location = ''/w'', ae_obligations = (\<lambda>_ _ _. []),
     ae_compile = (\<lambda>_ _. ([], [])), ae_prompt = (\<lambda>_. []), ae_tokens = (\<lambda>_. None), ae_udiff = (\<lambda>_ _ _ _. []),
     ae_loads = (\<lambda>_. None), ae_int = (\<lambda>_. None)\<rparr>"

theorem report_agrees_with_store_witness:
  "\<exists>r s'. execute_approved_task (sample_slice_env idle_agent (Inl ''no repository'')) sample_slice = (Inr r, s')
     \<and> (\<exists>row. select_task ''T'' (vs_db s') = Some row)"
proof -
  let ?E = "sample_slice_env idle_agent (Inl ''no repository'')"
  let ?row = "\<lparr>tr_id = ''T'', tr_spec = sample_specification [], tr_state = SPEC_APPROVED, tr_version = 3, tr_created = 0, tr_updated = 2\<rparr>"
  have db: "wf_db (vs_db sample_slice)" using wf_reachable [of approved_ops] by (simp add: sample_slice_def)
  have task: "sl_task ?E = ''T''" by (simp add: sample_slice_env_def)
  have row: "select_task (sl_task ?E) (vs_db sample_slice) = Some ?row"
    by (simp add: task sample_slice_def sample_slice_db select_task_def)
  from report_agrees_with_store [OF sample_quiet db row _ sample_ids] show ?thesis unfolding task by auto
qed

theorem unwritten_completion_is_reported_as_failure_witness:
  "\<exists>E s r s' v. try_except (complete_agent_workflow E ''local_agent'' v) (handle_failure E) s = (Inr r, s')
     \<and> rp_outcome r = FAILED_TASK \<and> (\<exists>v'. stands (E :: unit slice_env) COMPLETE v' s')"
proof -
  let ?F = "sample_slice_env idle_agent (Inl [])"
  let ?E = "?F\<lparr>sl_write_report := (\<lambda>out _. if out = COMPLETE_TASK then Some ''OSError'' else None)\<rparr>"
  have same: "stands ?E st v s = stands ?F st v s" for st v s
    by (simp add: stands_def unused_ids_def)
  have q: "\<forall>n. sl_others ?E n = []" "inj (sl_event_id ?E)" using sample_quiet [of idle_agent "Inl []"] by simp_all
  then have quiet: "quiet ?E" by (simp add: quiet_def)
  have start: "stands ?E SPEC_APPROVED 3 sample_slice" by (rule same [THEN iffD2, OF sample_stands])
  have names: "strip ''t'' \<noteq> []" by (simp add: strip_eq_Nil is_space_char_def)
  from advance_stands [OF quiet allowed_edges(1) names start, of "Some 3" SYSTEM] obtain s1 where
    "stands ?E REPOSITORY_ANALYZED (3 + 1) s1" by auto
  from advance_stands [OF quiet allowed_edges(2) names this, of None SYSTEM] obtain s2 where
    "stands ?E CONTEXT_COMPILED (3 + 1 + 1) s2" by auto
  from advance_stands [OF quiet allowed_edges(3) names this, of None SYSTEM] obtain s3 where
    "stands ?E ROUTED (3 + 1 + 1 + 1) s3" by auto
  from advance_stands [OF quiet allowed_edges(4) names this, of None SYSTEM] obtain s4 where
    s4: "stands ?E IMPLEMENTING (3 + 1 + 1 + 1 + 1) s4" by auto
  have w: "\<forall>w. sl_write_report ?E COMPLETE_TASK w \<noteq> None" "\<forall>w. sl_write_report ?E FAILED_TASK w = None" by simp_all
  from unwritten_completion_is_reported_as_failure [OF q w s4, of "''local_agent''"] show ?thesis by blast
qed

end
