(* ===== verification/Session_Facts.thy ===== *)
theory Session_Facts
  imports Agent_Session
begin

section \<open>What the agent session promises\<close>

text \<open>
  Every operation of the session is shown to make progress of one shape: budgets only grow and only
  within the configured limits, a turn adds at most one record, and the recorded command statuses
  trace back to verification runs on the worktree state they are filed under. The properties of a whole
  run follow by induction over its turns.
\<close>

subsection \<open>Frames\<close>

text \<open>The statuses filed under a fingerprint come from verification runs on that fingerprint.\<close>

definition ran_on :: "'w session \<Rightarrow> digest \<Rightarrow> string \<Rightarrow> verification_status \<Rightarrow> bool" where
  "ran_on s d name v =
     (\<exists>i < length (ss_verifications s). prefix (d @ '':'') (ss_cache s ! i)
        \<and> (\<exists>r \<in> set (vr_commands (ss_verifications s ! i)). cr_name r = name \<and> cr_status r = v))"

definition traced :: "'w session \<Rightarrow> bool" where
  "traced s =
     (length (ss_cache s) = length (ss_verifications s)
      \<and> (\<forall>d m name v. ss_commands s d = Some m \<longrightarrow> m name = Some v \<longrightarrow> ran_on s d name v))"

text \<open>The coverage kept is none or one entry for each active criterion.\<close>

definition covers_active :: "task_specification \<Rightarrow> acceptance_coverage list \<Rightarrow> bool" where
  "covers_active spec cs = (map cov_criterion cs = map cn_id (active_acceptance_criteria spec))"

definition coverage_kept :: "agent_setup \<Rightarrow> 'w session \<Rightarrow> bool" where
  "coverage_kept U s = (ss_coverage s = [] \<or> covers_active (su_spec U) (ss_coverage s))"

definition progress :: "agent_setup \<Rightarrow> nat \<Rightarrow> 'w session \<Rightarrow> 'w session \<Rightarrow> bool" where
  "progress U k s s' =
     (ss_patch_attempts s \<le> ss_patch_attempts s'
      \<and> ss_patch_attempts s' \<le> max (ss_patch_attempts s) (ac_max_patch_attempts (su_config U))
      \<and> ss_verification_runs s \<le> ss_verification_runs s'
      \<and> ss_verification_runs s' \<le> max (ss_verification_runs s) (ac_max_verification_runs (su_config U))
      \<and> length (ss_records s) \<le> length (ss_records s') \<and> length (ss_records s') \<le> length (ss_records s) + k
      \<and> (traced s \<longrightarrow> traced s') \<and> (coverage_kept U s \<longrightarrow> coverage_kept U s'))"

lemma progress_refl [simp]: "progress U k s s"
  by (simp add: progress_def)

lemma progress_trans: "progress U j s s' \<Longrightarrow> progress U k s' s'' \<Longrightarrow> progress U (j + k) s s''"
  by (auto simp: progress_def)

lemma progress_mono: "progress U j s s' \<Longrightarrow> j \<le> k \<Longrightarrow> progress U k s s'"
  by (auto simp: progress_def)

text \<open>The fields that only verification and patches change.\<close>

definition same_core :: "'w session \<Rightarrow> 'w session \<Rightarrow> bool" where
  "same_core s s' =
     (ss_world s' = ss_world s \<and> ss_patch_attempts s' = ss_patch_attempts s \<and> ss_verification_runs s' = ss_verification_runs s
      \<and> ss_cache s' = ss_cache s \<and> ss_verifications s' = ss_verifications s \<and> ss_commands s' = ss_commands s)"

lemma same_core_refl [simp]: "same_core s s"
  by (simp add: same_core_def)

lemma same_core_trans: "same_core s s' \<Longrightarrow> same_core s' s'' \<Longrightarrow> same_core s s''"
  by (simp add: same_core_def)

lemma same_core_ran_on: "same_core s s' \<Longrightarrow> ran_on s' d n v = ran_on s d n v"
  by (simp add: same_core_def ran_on_def)

lemma same_core_traced: "same_core s s' \<Longrightarrow> traced s' = traced s"
  by (simp add: traced_def same_core_ran_on) (simp add: same_core_def)

lemma note_evidence_frame:
  assumes "note_evidence E U es s = (ids, s')"
  shows "same_core s s'" "ss_records s' = ss_records s" "ss_coverage s' = ss_coverage s"
  using assms by (auto simp: note_evidence_def Let_def same_core_def)

lemma record_turn_frame:
  "same_core s (record_turn E U r s)" "length (ss_records (record_turn E U r s)) = Suc (length (ss_records s))"
  "ss_coverage (record_turn E U r s) = ss_coverage s"
  by (simp_all add: record_turn_def same_core_def)

lemma computed_coverage_kept:
  "ss_coverage s' = compute_acceptance_coverage (su_spec U) cs m \<Longrightarrow> coverage_kept U s'"
  by (simp add: coverage_kept_def covers_active_def compute_acceptance_coverage_def criterion_coverage_def Let_def
      split: option.split)

lemma core_progress:
  "same_core s s' \<Longrightarrow> ss_coverage s' = ss_coverage s \<or> coverage_kept U s' \<Longrightarrow> length (ss_records s) \<le> length (ss_records s') \<Longrightarrow> length (ss_records s') \<le> length (ss_records s) + k
    \<Longrightarrow> progress U k s s'"
  using same_core_traced [of s s'] by (auto simp: progress_def same_core_def coverage_kept_def)

lemma note_progress: "note_evidence E U es s = (ids, s') \<Longrightarrow> progress U 0 s s'"
  using note_evidence_frame [of E U es s ids s'] by (intro core_progress) auto

lemma record_progress: "progress U (Suc 0) s (record_turn E U r s)"
  by (rule core_progress) (simp_all add: record_turn_frame)

lemma note_record_progress: "note_evidence E U es s = (ids, s') \<Longrightarrow> progress U (Suc 0) s (record_turn E U r s')"
  using progress_trans [OF note_progress record_progress] by simp

subsection \<open>Verification\<close>

lemma executed_statuses_some:
  "executed_statuses rs m n = Some v \<Longrightarrow> m n = Some v \<or> (\<exists>r \<in> set rs. cr_name r = n \<and> cr_status r = v)"
proof (induction rs arbitrary: m)
  case (Cons a rs)
  have step: "executed_statuses (a # rs) m
      = executed_statuses rs (if cr_status a = SKIPPED then m else m(cr_name a \<mapsto> cr_status a))"
    by (simp add: executed_statuses_def)
  from Cons.IH [OF Cons.prems [unfolded step]] show ?case
    by (cases "cr_status a = SKIPPED"; cases "cr_name a = n") auto
qed (simp add: executed_statuses_def)

lemma cache_key_prefix: "prefix (d @ '':'') (cache_key d cs)"
  by (simp add: cache_key_def)

lemma settle_frame:
  assumes "settle_verification E U r s1 = (answer, s')"
  shows "same_core s1 s' \<and> ss_records s' = ss_records s1 \<and> ss_coverage s' = ss_coverage s1 \<and> (answer = Inr r \<or> answer = Inl (ESCAPED ''ValueError''))"
  using assms
  by (auto simp: settle_verification_def Let_def same_core_def note_evidence_def split: if_splits option.splits prod.splits)

definition selected :: "agent_setup \<Rightarrow> verification_command list \<Rightarrow> verification_config" where
  "selected U cs = (su_verification U)\<lparr>vg_commands := cs\<rparr>"

lemma verify_cases:
  assumes "verify E U cs s = (answer, s')"
  obtains (refused) m where "answer = Inl (INSPECTION m)" "s' = s"
  | (raised) e w where "answer = Inl (ESCAPED e)" "ss_verification_runs s < ac_max_verification_runs (su_config U)"
      "s' = s\<lparr>ss_world := w, ss_verification_runs := Suc (ss_verification_runs s)\<rparr>"
  | (ran) r s1 where "run_verification (ae_backend E (Suc (ss_verification_runs s))) (selected U cs) (ae_os E) (ae_manifests E)
        (ts_task (su_spec U)) (ss_world s) = (Inr r, ss_world s1)"
      "ss_verification_runs s < ac_max_verification_runs (su_config U)"
      "cache_key (ae_fingerprint E (ss_world s)) cs \<notin> set (ss_cache s)"
      "ss_verification_runs s1 = Suc (ss_verification_runs s)" "ss_verifications s1 = ss_verifications s @ [r]"
      "ss_cache s1 = ss_cache s @ [cache_key (ae_fingerprint E (ss_world s)) cs]"
      "ss_commands s1 = (ss_commands s)(ae_fingerprint E (ss_world s) \<mapsto> executed_statuses (vr_commands r)
         (case ss_commands s (ae_fingerprint E (ss_world s)) of None \<Rightarrow> Map.empty | Some m \<Rightarrow> m))"
      "ss_patch_attempts s1 = ss_patch_attempts s" "ss_records s1 = ss_records s"
      "same_core s1 s'" "ss_records s' = ss_records s" "ss_coverage s' = ss_coverage s" "answer = Inr r \<or> answer = Inl (ESCAPED ''ValueError'')"
proof -
  let ?d = "ae_fingerprint E (ss_world s)"
  show thesis
  proof (cases "cache_key ?d cs \<in> set (ss_cache s) \<or> ac_max_verification_runs (su_config U) \<le> ss_verification_runs s")
    case True
    then have "\<exists>m. answer = Inl (INSPECTION m) \<and> s' = s"
      using assms unfolding verify_def Let_def by (cases "cache_key ?d cs \<in> set (ss_cache s)") (simp_all, blast+)
    then show thesis using refused by blast
  next
    case False
    obtain x w where run: "run_verification (ae_backend E (Suc (ss_verification_runs s))) ((su_verification U)\<lparr>vg_commands := cs\<rparr>)
        (ae_os E) (ae_manifests E) (ts_task (su_spec U)) (ss_world s) = (x, w)" by fastforce
    show thesis
    proof (cases x)
      case (Inl e)
      with False run assms show thesis by (intro raised) (auto simp: verify_def Let_def)
    next
      case (Inr r)
      define s1 where "s1 = s\<lparr>ss_world := w, ss_verification_runs := Suc (ss_verification_runs s),
          ss_verifications := ss_verifications s @ [r], ss_cache := ss_cache s @ [cache_key ?d cs],
          ss_commands := (ss_commands s)(?d \<mapsto> executed_statuses (vr_commands r)
            (case ss_commands s ?d of None \<Rightarrow> Map.empty | Some m \<Rightarrow> m))\<rparr>"
      have "verify E U cs s = settle_verification E U r s1"
        using False run Inr by (simp add: verify_def Let_def s1_def)
      then have "same_core s1 s' \<and> ss_records s' = ss_records s1 \<and> ss_coverage s' = ss_coverage s1 \<and> (answer = Inr r \<or> answer = Inl (ESCAPED ''ValueError''))"
        using assms settle_frame by metis
      then show thesis using ran [of r s1] False run Inr by (simp add: s1_def selected_def)
    qed
  qed
qed

lemma ran_traced:
  assumes "traced s" "ss_verifications s1 = ss_verifications s @ [r]"
    and "ss_cache s1 = ss_cache s @ [cache_key d cs]"
    and "ss_commands s1 = (ss_commands s)(d \<mapsto> executed_statuses (vr_commands r)
         (case ss_commands s d of None \<Rightarrow> Map.empty | Some m \<Rightarrow> m))"
  shows "traced s1"
proof -
  have len: "length (ss_cache s) = length (ss_verifications s)" using assms(1) by (simp add: traced_def)
  have old: "ran_on s1 e n v" if "ran_on s e n v" for e n v
  proof -
    from that obtain i where i: "i < length (ss_verifications s)" "prefix (e @ '':'') (ss_cache s ! i)"
      "\<exists>r \<in> set (vr_commands (ss_verifications s ! i)). cr_name r = n \<and> cr_status r = v"
      by (auto simp: ran_on_def)
    then show ?thesis unfolding ran_on_def using len
      by (intro exI [of _ i]) (simp add: assms(2,3) nth_append)
  qed
  have new: "ran_on s1 d n v" if "r' \<in> set (vr_commands r)" "cr_name r' = n" "cr_status r' = v" for r' n v
    unfolding ran_on_def using that len cache_key_prefix [of d cs]
    by (intro exI [of _ "length (ss_verifications s)"]) (auto simp: assms(2,3) nth_append)
  show ?thesis
    unfolding traced_def
  proof (intro conjI allI impI)
    show "length (ss_cache s1) = length (ss_verifications s1)" using len by (simp add: assms(2,3))
    fix e m n v assume m: "ss_commands s1 e = Some m" "m n = Some v"
    show "ran_on s1 e n v"
    proof (cases "e = d")
      case True
      with m assms(4) have "executed_statuses (vr_commands r) (case ss_commands s d of None \<Rightarrow> Map.empty | Some m \<Rightarrow> m) n = Some v"
        by auto
      from executed_statuses_some [OF this] show ?thesis
        using assms(1) old new True by (auto simp: traced_def split: option.splits)
    next
      case False
      with m assms(1,4) old show ?thesis by (auto simp: traced_def)
    qed
  qed
qed

lemma verify_progress: "verify E U cs s = (answer, s') \<Longrightarrow> progress U 0 s s'"
proof (erule verify_cases)
  fix e w assume "ss_verification_runs s < ac_max_verification_runs (su_config U)"
    "s' = s\<lparr>ss_world := w, ss_verification_runs := Suc (ss_verification_runs s)\<rparr>"
  then show "progress U 0 s s'" by (auto simp: progress_def traced_def ran_on_def coverage_kept_def)
next
  fix r s1
  assume a: "ss_verification_runs s < ac_max_verification_runs (su_config U)"
    "ss_verification_runs s1 = Suc (ss_verification_runs s)" "ss_verifications s1 = ss_verifications s @ [r]"
    "ss_cache s1 = ss_cache s @ [cache_key (ae_fingerprint E (ss_world s)) cs]"
    "ss_commands s1 = (ss_commands s)(ae_fingerprint E (ss_world s) \<mapsto> executed_statuses (vr_commands r)
         (case ss_commands s (ae_fingerprint E (ss_world s)) of None \<Rightarrow> Map.empty | Some m \<Rightarrow> m))"
    "ss_patch_attempts s1 = ss_patch_attempts s" "ss_records s1 = ss_records s" "same_core s1 s'" "ss_records s' = ss_records s" "ss_coverage s' = ss_coverage s"
  have "traced s \<Longrightarrow> traced s'"
    using ran_traced [OF _ a(3,4,5)] same_core_traced [OF a(8)] by simp
  then show "progress U 0 s s'" using a by (simp add: progress_def same_core_def coverage_kept_def)
qed simp_all

subsection \<open>Progress of every operation\<close>

lemma check_completion_result:
  assumes "check_completion E U p s = (c, s')"
  shows "same_core s s'" "ss_records s' = ss_records s" "ss_coverage s' = ss_coverage s \<or> coverage_kept U s'"
    and "c \<Longrightarrow> p \<and> (su_strict U \<longrightarrow>
      ss_coverage s' = compute_acceptance_coverage (su_spec U) (vg_commands (su_verification U)) (results_for E s)
      \<and> acceptance_coverage_satisfied (ss_coverage s'))"
  using assms
  by (auto simp: check_completion_def Let_def note_evidence_def same_core_def computed_coverage_kept split: if_splits)

lemma check_completion_progress: "check_completion E U p s = (c, s') \<Longrightarrow> progress U 0 s s'"
  using check_completion_result [of E U p s c s'] by (intro core_progress) simp_all

lemma record_verification_progress: "progress U (Suc 0) s (record_verification E U t a r s)"
  by (simp add: record_verification_def record_progress)

definition answer_records :: "raised + bool \<Rightarrow> nat" where
  "answer_records x = (case x of Inl _ \<Rightarrow> 0 | Inr _ \<Rightarrow> 1)"

lemma answer_records_simps [simp]: "answer_records (Inl e) = 0" "answer_records (Inr b) = Suc 0"
  by (simp_all add: answer_records_def)

lemma verified_then_completed:
  assumes "verify E U cs s = (Inr r, s1)" "check_completion E U p (record_verification E U t a r s1) = (c, s2)"
  shows "progress U (Suc 0) s s2"
  using progress_trans [OF progress_trans [OF verify_progress [OF assms(1)] record_verification_progress]
      check_completion_progress [OF assms(2)]] by simp

lemma run_check_progress: "run_check E U t n s = (x, s') \<Longrightarrow> progress U (answer_records x) s s'"
  by (auto simp: run_check_def Let_def split: option.splits prod.splits sum.splits
      intro: verify_progress verified_then_completed)

lemma submit_progress: "submit_for_verification E U t s = (x, s') \<Longrightarrow> progress U (answer_records x) s s'"
  by (auto simp: submit_for_verification_def Let_def split: if_splits prod.splits sum.splits
      intro: verify_progress verified_then_completed)

lemma search_progress: "execute_search E U t q g s = (x, s') \<Longrightarrow> progress U (answer_records x) s s'"
  by (auto simp: execute_search_def Let_def split: prod.splits sum.splits intro: note_record_progress)

lemma read_progress: "execute_read E U t p a b s = (x, s') \<Longrightarrow> progress U (answer_records x) s s'"
  by (auto simp: execute_read_def Let_def split: prod.splits sum.splits if_splits intro: note_record_progress note_progress)

lemma inspect_progress: "execute_inspect E U t s = (x, s') \<Longrightarrow> progress U (answer_records x) s s'"
  by (auto simp: execute_inspect_def Let_def split: prod.splits if_splits intro: note_record_progress note_progress)

lemma attempt_progress:
  assumes "ss_patch_attempts s < ac_max_patch_attempts (su_config U)"
  shows "progress U 0 s (s\<lparr>ss_patch_attempts := Suc (ss_patch_attempts s), ss_world := w, ss_patched := ps\<rparr>)"
    "progress U 0 s (s\<lparr>ss_patch_attempts := Suc (ss_patch_attempts s), ss_world := w\<rparr>)"
  using assms by (auto simp: progress_def traced_def ran_on_def coverage_kept_def)

lemma apply_progress:
  assumes "apply_patch_action E U t a patch s = (x, s')"
  shows "progress U (answer_records x) s s'"
proof (cases "ac_max_patch_attempts (su_config U) \<le> ss_patch_attempts s")
  case True
  with assms show ?thesis by (auto simp: apply_patch_action_def)
next
  case False
  then have b: "ss_patch_attempts s < ac_max_patch_attempts (su_config U)" by simp
  obtain out w where out: "ae_apply E patch (Suc (ss_patch_attempts s)) (ss_world s) = (out, w)" by fastforce
  show ?thesis
  proof (cases out)
    case Patch_Applied
    define s1 where "s1 = s\<lparr>ss_patch_attempts := Suc (ss_patch_attempts s), ss_world := w,
       ss_patched := ss_patched s @ (case parse_diff patch of Inl _ \<Rightarrow> [] | Inr d \<Rightarrow> diff_paths d)\<rparr>"
    obtain ids s2 where n: "note_evidence E U (case inspect_diff (ae_hash E) (ae_view E w) (limits_of U) of None \<Rightarrow> [] | Some e \<Rightarrow> [e]) s1
        = (ids, s2)" by fastforce
    from assms b out Patch_Applied n have "x = Inr False" and s': "\<exists>r. s' = record_turn E U r s2"
      by (auto simp: apply_patch_action_def Let_def s1_def)
    moreover have "progress U 0 s s1" unfolding s1_def using attempt_progress(1) [OF b] .
    moreover note note_record_progress [OF n]
    ultimately show ?thesis using progress_trans [of U 0 s s1 "Suc 0"] by auto
  next
    case Patch_Rejected
    with assms b out show ?thesis
      using progress_trans [OF attempt_progress(2) [OF b] record_progress]
      by (auto simp: apply_patch_action_def Let_def)
  next
    case Patch_Escaped
    with assms b out show ?thesis using attempt_progress(2) [OF b] by (auto simp: apply_patch_action_def Let_def)
  qed
qed

lemma execute_progress: "execute E U t a s = (x, s') \<Longrightarrow> progress U (answer_records x) s s'"
  by (cases a) (auto simp: run_check_progress submit_progress search_progress read_progress inspect_progress
      apply_progress split: if_splits sum.splits)

lemma fit_progress [simp]: "progress U k s (s\<lparr>ss_fit := f\<rparr>)"
  by (simp add: progress_def traced_def ran_on_def coverage_kept_def)

lemma with_fit: "progress U k (s\<lparr>ss_fit := f\<rparr>) s' \<Longrightarrow> progress U k s s'"
  using progress_trans [OF fit_progress [of U 0 s f]] by simp

lemma fit_record_progress: "progress U (Suc 0) s (record_turn E U r (s\<lparr>ss_fit := f\<rparr>))"
  by (rule with_fit [OF record_progress])

lemma execute_then_record:
  "execute E U t a s = (Inl e, s') \<Longrightarrow> progress U (Suc 0) s (record_turn E U r s')"
  using progress_trans [OF execute_progress record_progress, of E U t a s "Inl e" s'] by simp

text \<open>How a turn ends, by what it did to the session.\<close>

definition executed_end :: "'w agent_env \<Rightarrow> agent_setup \<Rightarrow> nat \<Rightarrow> agent_action \<Rightarrow> raised + bool \<Rightarrow> 'w session \<Rightarrow> turn_end \<times> 'w session" where
  "executed_end E U t a x s2 =
     (case x of
        Inl (INSPECTION m) \<Rightarrow> (Continue, record_turn E U (new_turn t (action_kind a) False (take 2000 m)) s2)
      | Inl (ESCAPED m) \<Rightarrow> (Crash m, s2)
      | Inr c \<Rightarrow> (if c then Stop COMPLETE_SESSION ''full deterministic verification passed'' else Continue, s2))"

lemma agent_turn_cases:
  assumes "agent_turn E U t s = (e, s')"
  obtains (stopped) reason where "e = Stop ESCALATION_SESSION reason" "s' = s"
  | (recorded) f r where "e = Continue \<or> (\<exists>reason. e = Stop ESCALATION_SESSION reason)" "s' = record_turn E U r (s\<lparr>ss_fit := f\<rparr>)"
  | (unanswered) f m where "e = Provider_Stop m \<or> e = Crash m" "s' = s\<lparr>ss_fit := f\<rparr>"
  | (executed) f a x s2 where "execute E U t a (s\<lparr>ss_fit := f\<rparr>) = (x, s2)" "(e, s') = executed_end E U t a x s2"
proof (cases "repeated_no_progress_stop_reason (ss_records s)")
  case (Some reason)
  with assms stopped show thesis by (auto simp: agent_turn_def)
next
  case None
  note none = this
  show thesis
  proof (cases "fit_prompt E U t s")
    case (Inl f)
    with assms none recorded [of _ "ss_fit s"] show thesis by (auto simp: agent_turn_def)
  next
    case (Inr a)
    obtain prompt ctx f where a: "a = (prompt, ctx, f)" by (cases a)
    show thesis
    proof (cases "ae_model E t prompt ctx")
      case (Answer content)
      show thesis
      proof (cases "parse_agent_action (ae_loads E) (ae_int E) content")
        case (Inl m)
        with assms none Inr a Answer recorded [of _ f] show thesis by (auto simp: agent_turn_def)
      next
        case p: (Inr action)
        show thesis
        proof (cases "\<exists>reason. action = Request_Escalation reason")
          case True
          then obtain reason where "action = Request_Escalation reason" by blast
          with assms none Inr a Answer p have
            "(\<exists>r. s' = record_turn E U r (s\<lparr>ss_fit := f\<rparr>)) \<and> (e = Continue \<or> (\<exists>reason. e = Stop ESCALATION_SESSION reason))"
            by (cases "repairable_obligations E U (s\<lparr>ss_fit := f\<rparr>) = []") (auto simp: agent_turn_def Let_def)
          then show thesis using recorded by blast
        next
          case False
          obtain x s2 where x: "execute E U t action (s\<lparr>ss_fit := f\<rparr>) = (x, s2)" by fastforce
          with False assms none Inr a Answer p have "(e, s') = executed_end E U t action x s2"
            unfolding agent_turn_def executed_end_def
            by (cases action) (auto split: sum.splits raised.splits bool.splits)
          with x executed show thesis by blast
        qed
      qed
    qed (use assms none Inr a unanswered in \<open>auto simp: agent_turn_def\<close>)
  qed
qed

lemma executed_end_progress:
  assumes "execute E U t a s = (x, s2)" "(e, s') = executed_end E U t a x s2"
  shows "progress U (Suc 0) s s'"
proof (cases x)
  case (Inl m)
  with assms execute_progress [OF assms(1)] execute_then_record [of E U t a s m s2]
  show ?thesis by (cases m) (auto simp: executed_end_def elim: progress_mono)
next
  case (Inr c)
  with assms execute_progress [OF assms(1)] show ?thesis by (auto simp: executed_end_def)
qed

lemma agent_turn_progress: "agent_turn E U t s = (e, s') \<Longrightarrow> progress U (Suc 0) s s'"
  by (erule agent_turn_cases) (auto intro: fit_record_progress with_fit executed_end_progress)

lemma run_turns_progress: "run_turns E U ts s = (e, s') \<Longrightarrow> progress U (length ts) s s'"
proof (induction ts arbitrary: s)
  case (Cons t ts)
  obtain x s1 where x: "agent_turn E U t s = (x, s1)" by fastforce
  note p = agent_turn_progress [OF x]
  show ?case
  proof (cases "x = Continue")
    case True
    with Cons.prems x have "run_turns E U ts s1 = (e, s')" by simp
    from progress_trans [OF p Cons.IH [OF this]] show ?thesis by simp
  next
    case False
    with Cons.prems x have "s' = s1" by (cases x) auto
    with p show ?thesis by (auto elim: progress_mono)
  qed
qed simp

lemma after_turns_progress: "after_turns E U s = (e, s') \<Longrightarrow> progress U 0 s s'"
  using progress_trans [OF verify_progress check_completion_progress, of E U]
  by (auto simp: after_turns_def dest: verify_progress split: if_splits sum.splits raised.splits prod.splits bool.splits)

lemma after_turns_ends: "fst (after_turns E U s) \<noteq> Continue"
  by (auto simp: after_turns_def split: if_splits sum.splits raised.splits prod.splits bool.splits)

lemma run_loop_progress: "run_loop E U start s = (e, s') \<Longrightarrow> progress U (Suc (ac_max_turns (su_config U)) - start) s s'"
proof -
  assume run: "run_loop E U start s = (e, s')"
  obtain x s1 where x: "run_turns E U [start..<Suc (ac_max_turns (su_config U))] s = (x, s1)" by fastforce
  note p = run_turns_progress [OF x]
  show ?thesis
  proof (cases "x = Continue")
    case True
    with run x have "after_turns E U s1 = (e, s')" by (simp add: run_loop_def)
    from progress_trans [OF p after_turns_progress [OF this]] show ?thesis by (simp del: upt_Suc)
  next
    case False
    with run x p show ?thesis by (cases x) (auto simp: run_loop_def simp del: upt_Suc)
  qed
qed

lemma run_loop_ends: "fst (run_loop E U start s) \<noteq> Continue"
proof -
  obtain x s1 where x: "run_turns E U [start..<Suc (ac_max_turns (su_config U))] s = (x, s1)" by fastforce
  then show ?thesis using after_turns_ends [of E U s1] by (cases x) (simp_all add: run_loop_def del: upt_Suc)
qed

subsection \<open>Completion\<close>

definition verified_on :: "agent_setup \<Rightarrow> 'w session \<Rightarrow> digest \<Rightarrow> bool" where
  "verified_on U s d =
     (\<forall>c \<in> set (vg_commands (su_verification U)). vc_required c \<longrightarrow> ran_on s d (vc_name c) PASSED)"

definition completed :: "'w agent_env \<Rightarrow> agent_setup \<Rightarrow> 'w session \<Rightarrow> bool" where
  "completed E U s =
     (ss_verifications s \<noteq> [] \<and> vr_status (last (ss_verifications s)) = PASSED
      \<and> (\<exists>d. verified_on U s d
           \<and> ((\<forall>n. kept_by_backend (ae_backend E n) (\<lambda>w. ae_fingerprint E w = d)) \<longrightarrow> ae_fingerprint E (ss_world s) = d))
      \<and> (su_strict U \<longrightarrow>
           ss_coverage s = compute_acceptance_coverage (su_spec U) (vg_commands (su_verification U)) (results_for E s)
           \<and> acceptance_coverage_satisfied (ss_coverage s)))"

lemma same_core_results: "same_core s s' \<Longrightarrow> results_for E s' = results_for E s"
  by (simp add: same_core_def results_for_def)

lemma required_checks_verified_on:
  assumes "traced s" "all_required_checks_passed E U s"
  shows "verified_on U s (ae_fingerprint E (ss_world s))"
  using assms
  by (auto simp: verified_on_def all_required_checks_passed_def results_for_def traced_def list_all_iff split: option.splits)

text \<open>A passed run of all commands has a passed result for every required one.\<close>

lemma passed_run_verified_on:
  assumes run: "run_verification b (selected U (vg_commands (su_verification U))) os view task w = (Inr r, w')"
    and "vr_status r = PASSED" "traced s" "ss_verifications s = vs @ [r]" "ss_cache s = ks @ [cache_key d cs]"
  shows "verified_on U s d"
proof -
  from run obtain w0 w1 rs violations where body: "run_body b (selected U (vg_commands (su_verification U))) os (view w0) w0 = (Inr rs, w1)"
    and rs: "vr_commands r = rs" and "vr_violations r = violations"
    and st: "vr_status r = (if required_failures rs \<noteq> [] \<or> violations \<noteq> [] then FAILED_CHECK else PASSED)"
    by (rule run_verification_result)
  from run_body_result [OF body] obtain first rest where rest: "rs = first @ rest"
    "map result_tag rest = map command_tag (vg_commands (su_verification U))" by (auto simp: selected_def)
  have none: "required_failures rs = []" using st assms(2) by (simp split: if_splits)
  have "\<exists>x \<in> set rs. cr_name x = vc_name c \<and> cr_status x = PASSED"
    if c: "c \<in> set (vg_commands (su_verification U))" "vc_required c" for c
  proof -
    from c have "command_tag c \<in> set (map result_tag rest)" using rest(2) by simp
    then obtain x where x: "x \<in> set rest" "result_tag x = command_tag c" by auto
    with c none rest(1) show ?thesis
      by (intro bexI [of _ x]) (auto simp: result_tag_def command_tag_def required_failures_def filter_empty_conv)
  qed
  moreover have "length ks = length vs" using assms(3-5) by (simp add: traced_def)
  ultimately show ?thesis
    using cache_key_prefix [of d cs]
    by (auto simp: verified_on_def ran_on_def assms(4,5) nth_append rs intro!: exI [of _ "length vs"])
qed

lemma completion_is_verified:
  assumes v: "verify E U cs s = (Inr r, s1)" and tr: "traced s" and core: "same_core s1 s2"
    and c: "check_completion E U p s2 = (True, s3)"
    and p: "p \<Longrightarrow> vr_status r = PASSED \<and> (cs = vg_commands (su_verification U) \<or> all_required_checks_passed E U s2)"
  shows "completed E U s3"
proof -
  let ?d = "ae_fingerprint E (ss_world s)"
  from v show ?thesis
  proof (cases rule: verify_cases)
    case (ran r' s0)
    have r': "r' = r" using ran by simp
    note c3 = check_completion_result [OF c]
    have core0: "same_core s0 s3" using ran(10) core c3(1) by (blast intro: same_core_trans)
    have t3: "traced s3"
      using ran_traced [OF tr ran(5,6)] ran(7) same_core_traced [OF core0] by simp
    have vs: "ss_verifications s3 = ss_verifications s @ [r]" "ss_cache s3 = ss_cache s @ [cache_key ?d cs]"
      "ss_world s3 = ss_world s0"
      using core0 ran(5,6) r' by (auto simp: same_core_def)
    have passed: "vr_status r = PASSED" using c3(4) p by simp
    have "\<exists>d. verified_on U s3 d
           \<and> ((\<forall>n. kept_by_backend (ae_backend E n) (\<lambda>w. ae_fingerprint E w = d)) \<longrightarrow> ae_fingerprint E (ss_world s3) = d)"
    proof (cases "cs = vg_commands (su_verification U)")
      case True
      have "verified_on U s3 ?d"
        using passed_run_verified_on [OF _ passed t3 vs(1,2)] ran(1) r' True by simp
      moreover have "ae_fingerprint E (ss_world s3) = ?d"
        if k: "\<forall>n. kept_by_backend (ae_backend E n) (\<lambda>w. ae_fingerprint E w = ?d)"
        using kept_by_backend.run_verification_keeps [OF spec [OF k] refl ran(1)] vs(3) by simp
      ultimately show ?thesis by blast
    next
      case False
      with p c3(4) have "all_required_checks_passed E U s2" by simp
      then have "all_required_checks_passed E U s3"
        by (simp add: all_required_checks_passed_def same_core_results [OF c3(1)])
      then show ?thesis using required_checks_verified_on [OF t3] by blast
    qed
    moreover have "results_for E s3 = results_for E s2" using same_core_results [OF c3(1)] .
    ultimately show ?thesis using c3(4) vs(1) passed unfolding completed_def by auto
  qed simp_all
qed

end
