(* ===== verification/Session_Outcome.thy ===== *)
theory Session_Outcome
  imports Session_Facts Inspection_Facts
begin

section \<open>Outcomes of the agent session\<close>

text \<open>
  What the result of a whole session says of the state it ends in: the budgets it stayed within, the
  verification a COMPLETE outcome rests on, and what an integrity violation without a failed command
  does to a session.
\<close>

subsection \<open>A COMPLETE end of every operation\<close>

definition traced_end :: "'w agent_env \<Rightarrow> agent_setup \<Rightarrow> bool \<Rightarrow> 'w session \<Rightarrow> bool" where
  "traced_end E U c s = (traced s \<and> (c \<longrightarrow> completed E U s))"

lemma progress_traced: "progress U k s s' \<Longrightarrow> traced s \<Longrightarrow> traced s'"
  by (simp add: progress_def)

lemma record_verification_core: "same_core s (record_verification E U t a r s)"
  by (simp add: record_verification_def record_turn_frame)

lemma run_check_completed:
  assumes "run_check E U t n s = (Inr True, s')" "traced s"
  shows "completed E U s'"
proof -
  obtain c r s1 where v: "verify E U [c] s = (Inr r, s1)"
    and cc: "check_completion E U (vr_status r = PASSED \<and> all_required_checks_passed E U (record_verification E U t ''run_check'' r s1))
      (record_verification E U t ''run_check'' r s1) = (True, s')"
    using assms(1) by (auto simp: run_check_def Let_def split: option.splits prod.splits sum.splits)
  show ?thesis by (rule completion_is_verified [OF v assms(2) record_verification_core cc]) simp
qed

lemma submit_completed:
  assumes "submit_for_verification E U t s = (Inr True, s')" "traced s"
  shows "completed E U s'"
proof -
  obtain r s1 where v: "verify E U (vg_commands (su_verification U)) s = (Inr r, s1)"
    and cc: "check_completion E U (vr_status r = PASSED)
      (record_verification E U t ''submit_for_verification'' r s1) = (True, s')"
    using assms(1) by (auto simp: submit_for_verification_def Let_def split: if_splits prod.splits sum.splits)
  show ?thesis by (rule completion_is_verified [OF v assms(2) record_verification_core cc]) simp
qed

lemma execute_completed:
  assumes "execute E U t a s = (Inr True, s')" "traced s"
  shows "completed E U s'"
proof (cases a)
  case (Run_Check n)
  with assms show ?thesis by (auto intro: run_check_completed)
next
  case Submit_For_Verification
  with assms show ?thesis by (auto intro: submit_completed)
qed (use assms in \<open>auto simp: execute_search_def execute_read_def execute_inspect_def apply_patch_action_def Let_def
    split: if_splits sum.splits prod.splits patch_outcome.splits\<close>)

definition ends_well :: "'w agent_env \<Rightarrow> agent_setup \<Rightarrow> turn_end \<times> 'w session \<Rightarrow> bool" where
  "ends_well E U x = (case fst x of Stop COMPLETE_SESSION _ \<Rightarrow> completed E U (snd x) | _ \<Rightarrow> True)"

lemma ends_well_simps [simp]:
  "ends_well E U (Continue, s)" "ends_well E U (Provider_Stop e, s)" "ends_well E U (Crash e, s)"
  "ends_well E U (Stop ESCALATION_SESSION reason, s)"
  "ends_well E U (Stop COMPLETE_SESSION reason, s) = completed E U s"
  by (simp_all add: ends_well_def)

lemma with_fit_traced: "traced (s\<lparr>ss_fit := f\<rparr>) = traced s"
  by (simp add: traced_def ran_on_def)

lemma agent_turn_ends_well:
  assumes "traced s"
  shows "ends_well E U (agent_turn E U t s)"
proof -
  obtain e s' where t: "agent_turn E U t s = (e, s')" by fastforce
  from t show ?thesis
  proof (cases rule: agent_turn_cases)
    case (executed f a x s2)
    show ?thesis
    proof (cases x)
      case (Inl m)
      with t executed show ?thesis by (cases m) (simp_all add: executed_end_def)
    next
      case (Inr c)
      with t executed assms execute_completed [of E U t a "s\<lparr>ss_fit := f\<rparr>" s2] show ?thesis
        by (cases c) (simp_all add: executed_end_def with_fit_traced)
    qed
  qed (use t in auto)
qed

lemma run_turns_ends_well: "traced s \<Longrightarrow> ends_well E U (run_turns E U ts s)"
proof (induction ts arbitrary: s)
  case (Cons t ts)
  obtain x s1 where x: "agent_turn E U t s = (x, s1)" by fastforce
  have "traced s1" by (rule progress_traced [OF agent_turn_progress [OF x] Cons.prems])
  with Cons.IH agent_turn_ends_well [OF Cons.prems, of E U t] x show ?case by (cases x) simp_all
qed simp

lemma after_turns_ends_well:
  assumes tr: "traced s"
  shows "ends_well E U (after_turns E U s)"
proof (cases "final_verification_needed E U s")
  case True
  obtain answer s1 where v: "verify E U (vg_commands (su_verification U)) s = (answer, s1)" by fastforce
  show ?thesis
  proof (cases answer)
    case (Inl m)
    with True v show ?thesis by (cases m) (simp_all add: after_turns_def)
  next
    case (Inr r)
    obtain c s2 where c: "check_completion E U (vr_status r = PASSED \<and> all_required_checks_passed E U s1) s1 = (c, s2)"
      by fastforce
    show ?thesis
    proof (cases c)
      case True
      with Inr v c tr have "completed E U s2" by (auto intro!: completion_is_verified [of E U _ s r s1 s1])
      with \<open>final_verification_needed E U s\<close> v Inr c True show ?thesis by (simp add: after_turns_def)
    next
      case False
      with \<open>final_verification_needed E U s\<close> v Inr c show ?thesis by (simp add: after_turns_def)
    qed
  qed
qed (simp add: after_turns_def)

lemma run_loop_ends_well:
  assumes "traced s"
  shows "ends_well E U (run_loop E U start s)"
proof -
  obtain x s1 where x: "run_turns E U [start..<Suc (ac_max_turns (su_config U))] s = (x, s1)" by fastforce
  have "traced s1" by (rule progress_traced [OF run_turns_progress [OF x] assms])
  with x run_turns_ends_well [OF assms, of E U "[start..<Suc (ac_max_turns (su_config U))]"] after_turns_ends_well
  show ?thesis by (cases x) (simp_all add: run_loop_def del: upt_Suc)
qed

lemma traced_new: "traced (new_session w base head)"
  by (simp add: traced_def new_session_def)

text \<open>What the caller of a session relies on.\<close>

definition sound_result :: "bool \<Rightarrow> task_specification \<Rightarrow> session_result \<Rightarrow> bool" where
  "sound_result strict spec res =
     ((sr_coverage res = [] \<or> covers_active spec (sr_coverage res))
      \<and> (sr_outcome res = COMPLETE_SESSION \<longrightarrow>
           sr_verifications res \<noteq> [] \<and> vr_status (last (sr_verifications res)) = PASSED
           \<and> (strict \<longrightarrow> covers_active spec (sr_coverage res) \<and> acceptance_coverage_satisfied (sr_coverage res))))"

lemma run_session_sound:
  assumes "run_session E U start (new_session w base head) = (Inr res, s')"
  shows "sound_result (su_strict U) (su_spec U) res"
proof -
  obtain e s1 where l: "run_loop E U start (new_session w base head) = (e, s1)" by fastforce
  have kept: "coverage_kept U s1"
    using run_loop_progress [OF l] by (simp add: progress_def coverage_kept_def new_session_def)
  from assms l have s1: "s' = s1" and "\<exists>out reason. res = session_result_of E out reason s1
      \<and> (out = COMPLETE_SESSION \<longrightarrow> e = Stop COMPLETE_SESSION reason)"
    by (cases e; auto simp: run_session_def)+
  then obtain out reason where r: "res = session_result_of E out reason s1"
    and c: "out = COMPLETE_SESSION \<Longrightarrow> e = Stop COMPLETE_SESSION reason" by blast
  have done_: "out = COMPLETE_SESSION \<Longrightarrow> completed E U s1"
    using run_loop_ends_well [OF traced_new, of E U start w base head] l c by simp
  have fields: "sr_outcome res = out" "sr_coverage res = ss_coverage s1" "sr_verifications res = ss_verifications s1"
    by (simp_all add: r session_result_of_def Let_def)
  have cov: "ss_coverage s1 = compute_acceptance_coverage (su_spec U) cs m \<Longrightarrow> covers_active (su_spec U) (ss_coverage s1)" for cs m
    using computed_coverage_kept [of s1 U cs m] by (auto simp: coverage_kept_def covers_active_def compute_acceptance_coverage_def)
  show ?thesis
    using kept done_ cov unfolding sound_result_def fields completed_def coverage_kept_def by blast
qed

subsection \<open>Properties\<close>

text \<open>
  C4: a session ends within its budgets. However the model, the worktree and the backends behave, the
  loop never runs past its turns: it ends in a result or an error, records at most one turn for each
  turn of the configuration it was started for, and never attempts more patches or starts more
  verification runs than configured (a resumed session that is already over a budget adds none).
\<close>

theorem session_stays_within_budgets:
  assumes "run_session E U start s = (answer, s')"
  shows "fst (run_loop E U start s) \<noteq> Continue
    \<and> length (ss_records s) \<le> length (ss_records s')
    \<and> length (ss_records s') \<le> length (ss_records s) + (Suc (ac_max_turns (su_config U)) - start)
    \<and> ss_patch_attempts s' \<le> max (ss_patch_attempts s) (ac_max_patch_attempts (su_config U))
    \<and> ss_verification_runs s' \<le> max (ss_verification_runs s) (ac_max_verification_runs (su_config U))
    \<and> (\<forall>res. answer = Inr res \<longrightarrow> sr_turns res = length (ss_records s')
          \<and> sr_patch_attempts res = ss_patch_attempts s' \<and> sr_verification_runs res = ss_verification_runs s')"
proof -
  obtain e s1 where l: "run_loop E U start s = (e, s1)" by fastforce
  with assms run_loop_ends [of E U start s] have "s' = s1 \<and> (\<forall>res. answer = Inr res \<longrightarrow> sr_turns res = length (ss_records s')
          \<and> sr_patch_attempts res = ss_patch_attempts s' \<and> sr_verification_runs res = ss_verification_runs s')"
    by (cases e) (auto simp: run_session_def session_result_of_def Let_def)
  with run_loop_progress [OF l] run_loop_ends [of E U start s] show ?thesis by (auto simp: progress_def)
qed


definition passing_backend :: "unit backend" where
  "passing_backend = sample_backend\<lparr>bk_run := (\<lambda>env c w. (Inr \<lparr>co_status = PASSED, co_exit = Some 0, co_stdout = [], co_stderr = []\<rparr>, w))\<rparr>"

definition sample_env :: "(string \<Rightarrow> nat \<Rightarrow> unit \<Rightarrow> patch_outcome \<times> unit) \<Rightarrow> unit agent_env" where
  "sample_env f = \<lparr>ae_hash = id, ae_view = (\<lambda>_. sample_view), ae_fingerprint = (\<lambda>_. ''d''), ae_model = (\<lambda>_ _ _. Answer []),
     ae_apply = f, ae_backend = (\<lambda>_. passing_backend), ae_os = Map.empty,
     ae_manifests = (\<lambda>_. Inr sample_manifest), ae_location = ''/w'', ae_obligations = (\<lambda>_ _ _. []),
     ae_compile = (\<lambda>_ _. ([], [])), ae_prompt = (\<lambda>_. []), ae_tokens = (\<lambda>_. None), ae_udiff = (\<lambda>_ _ _ _. []),
     ae_loads = (\<lambda>_. Some (JObj [(''action'', JStr ''run_check''), (''command_name'', JStr ''unit'')])), ae_int = (\<lambda>_. None)\<rparr>"

definition sample_setup :: agent_setup where
  "sample_setup = \<lparr>su_spec = sample_specification [],
     su_config = \<lparr>ac_max_turns = 3, ac_max_patch_attempts = 1, ac_max_verification_runs = 1, ac_max_search_results = 1,
       ac_max_read_lines = 1, ac_max_observation_chars = 100, ac_max_transmitted_chars = 100\<rparr>,
     su_verification = sample_verification_config\<lparr>vg_commands := [sample_command]\<rparr>, su_strict = True, su_allow_tests = True,
     su_allow_dependencies = True, su_window = None\<rparr>"

lemma sample_setup_fields:
  "vg_commands (su_verification sample_setup) = [sample_command]" "su_strict sample_setup" "su_spec sample_setup = sample_specification []"
  by (simp_all add: sample_setup_def)

lemma sample_check:
  "parse_agent_action (ae_loads (sample_env f)) (ae_int (sample_env f)) c = Inr (Run_Check ''unit'')"
  by (simp add: sample_env_def parse_agent_action_def normalize_known_local_tool_noise_def validate_action_def
      validate_fields_def only_fields_def text_field_def trim_def is_trimmed_char_def)

definition sample_result :: verification_result where
  "sample_result = \<lparr>vr_task = ''TASK-1'', vr_status = PASSED, vr_commands = [\<lparr>cr_name = ''unit'', cr_category = ''test'',
     cr_argv = [''unit''], cr_required = True, cr_acceptance = True, cr_status = PASSED, cr_exit = Some 0, cr_stdout = [],
     cr_stderr = [], cr_truncated = False\<rparr>], vr_violations = []\<rparr>"

lemma sample_run:
  "run_verification passing_backend (sample_verification_config\<lparr>vg_commands := [sample_command]\<rparr>) Map.empty
     (\<lambda>_. Inr sample_manifest) ''TASK-1'' () = (Inr sample_result, ())"
  by (simp add: run_verification_def passing_backend_def sample_backend_def sample_verification_config_def sample_manifest_def
      run_body_def dependency_install_def run_install_def sample_command_def Let_def command_result_of_def sample_result_def
      truncate_output_def required_failures_def trim_def)

lemma sample_completes:
  "\<exists>s'. agent_turn (sample_env f) sample_setup 1 (new_session () [] []) = (Stop COMPLETE_SESSION ''full deterministic verification passed'', s')"
proof -
  define s0 where "s0 = (new_session () [] [] :: unit session)\<lparr>ss_fit := None\<rparr>"
  have stop: "repeated_no_progress_stop_reason (ss_records (new_session () [] [] :: unit session)) = None"
    by (simp add: repeated_no_progress_stop_reason_def repeated_def last_n_def new_session_def)
  have fit: "\<exists>p c. fit_prompt (sample_env f) sample_setup 1 (new_session () [] []) = Inr (p, c, None)"
    by (simp add: fit_prompt_def sample_setup_def Let_def)
  obtain s1 where v: "verify (sample_env f) sample_setup [sample_command] s0 = (Inr sample_result, s1)"
    and m: "ss_commands s1 ''d'' = Some (executed_statuses (vr_commands sample_result) Map.empty)"
  proof
    define d where "d = ae_fingerprint (sample_env f) ()"
    let ?s1 = "s0\<lparr>ss_verification_runs := 1, ss_verifications := [sample_result], ss_cache := [cache_key d [sample_command]],
          ss_commands := [d \<mapsto> executed_statuses (vr_commands sample_result) Map.empty]\<rparr>"
    have "settle_verification (sample_env f) sample_setup sample_result ?s1 = (Inr sample_result, ?s1)"
      by (simp add: settle_verification_def sample_result_def acceptance_failed_def not_passed_execution_def)
    then show "verify (sample_env f) sample_setup [sample_command] s0 = (Inr sample_result, ?s1)"
      using sample_run
      by (simp add: verify_def Let_def s0_def new_session_def d_def) (simp add: sample_env_def sample_setup_def sample_specification_def)
    show "ss_commands ?s1 ''d'' = Some (executed_statuses (vr_commands sample_result) Map.empty)"
      by (simp add: d_def sample_env_def)
  qed
  let ?s2 = "record_verification (sample_env f) sample_setup (Suc 0) ''run_check'' sample_result s1"
  have res: "results_for (sample_env f) ?s2 = [''unit'' \<mapsto> PASSED]"
    using m record_verification_core [of s1 "sample_env f" sample_setup "Suc 0" "''run_check''" sample_result]
    by (simp add: results_for_def same_core_def sample_env_def executed_statuses_def sample_result_def)
  have all: "all_required_checks_passed (sample_env f) sample_setup ?s2"
    by (simp add: all_required_checks_passed_def sample_setup_fields res) (simp add: sample_command_def)
  have "\<exists>s3. check_completion (sample_env f) sample_setup True ?s2 = (True, s3)"
    by (simp add: check_completion_def res Let_def sample_setup_fields)
       (simp add: compute_acceptance_coverage_def active_acceptance_criteria_def sample_specification_def
         sample_criterion_def criterion_coverage_def acceptance_coverage_satisfied_def sample_command_def)
  then obtain s3 where c: "check_completion (sample_env f) sample_setup True ?s2 = (True, s3)" by blast
  have passed: "vr_status sample_result = PASSED" by (simp add: sample_result_def)
  have found: "find (\<lambda>c. vc_name c = ''unit'') (vg_commands (su_verification sample_setup)) = Some sample_command"
    by (simp add: sample_setup_fields) (simp add: sample_command_def)
  have "run_check (sample_env f) sample_setup (Suc 0) ''unit'' s0 = (Inr True, s3)"
    unfolding run_check_def found using v c all passed by (simp add: Let_def)
  with stop fit sample_check show ?thesis
    unfolding agent_turn_def s0_def by (auto simp: sample_env_def)
qed

lemma sample_loop:
  "\<exists>s'. run_loop (sample_env f) sample_setup 1 (new_session () [] []) = (Stop COMPLETE_SESSION ''full deterministic verification passed'', s')"
proof -
  have turns: "[1..<Suc (ac_max_turns (su_config sample_setup))] = [1, 2, 3]" by (simp add: sample_setup_def upt_rec)
  show ?thesis unfolding run_loop_def turns using sample_completes [of f] by auto
qed

definition refusing_apply :: "string \<Rightarrow> nat \<Rightarrow> unit \<Rightarrow> patch_outcome \<times> unit" where
  "refusing_apply p n w = (Patch_Escaped [], w)"


theorem session_stays_within_budgets_witness:
  "\<exists>res s'. run_session (sample_env refusing_apply) sample_setup 1 (new_session () [] []) = (Inr res, s') \<and> sr_turns res \<le> 3"
proof -
  from sample_loop [of refusing_apply] obtain res s' where run: "run_session (sample_env refusing_apply) sample_setup 1 (new_session () [] []) = (Inr res, s')"
    by (auto simp: run_session_def)
  from session_stays_within_budgets [OF this] have "sr_turns res \<le> 3"
    by (simp add: sample_setup_def new_session_def)
  with run show ?thesis by blast
qed

text \<open>
  A change of protected contents without a failed command is not an ordinary failed verification.
  When a run within the budget passes every command and reports an integrity violation, its result is
  FAILED, but there is no failed command to normalize: the verification raises \<open>ValueError\<close>, which the loop does not
  handle, after counting the run and filing the passed statuses under the fingerprint of the worktree, so that a
  submission ends the session as a crash instead of a repairable rejection.
\<close>

theorem integrity_violation_crashes_the_session:
  assumes "cache_key (ae_fingerprint E (ss_world s)) (vg_commands (su_verification U)) \<notin> set (ss_cache s)"
    and "ss_verification_runs s < ac_max_verification_runs (su_config U)"
    and "run_verification (ae_backend E (Suc (ss_verification_runs s)))
        (su_verification U\<lparr>vg_commands := vg_commands (su_verification U)\<rparr>) (ae_os E) (ae_manifests E)
        (ts_task (su_spec U)) (ss_world s) = (Inr r, w)"
    and "vr_violations r \<noteq> []" "\<forall>c \<in> set (vr_commands r). cr_status c = PASSED"
    and "has_changes (ae_view E (ss_world s))"
  shows "vr_status r = FAILED_CHECK
    \<and> (\<exists>s'. submit_for_verification E U t s = (Inl (ESCAPED ''ValueError''), s')
         \<and> ss_verification_runs s' = Suc (ss_verification_runs s) \<and> last (ss_verifications s') = r
         \<and> (\<forall>c \<in> set (vr_commands r). \<exists>m. ss_commands s' (ae_fingerprint E (ss_world s)) = Some m
              \<and> m (cr_name c) = Some PASSED))"
proof -
  have st: "vr_status r = FAILED_CHECK"
    using assms(3,4) by (auto elim!: run_verification_result)
  have none: "extract_failure (ae_location E) failure_chars r = None"
    using assms(5) by (intro violation_only_has_no_failure) (auto simp: required_failures_def filter_empty_conv list_all_iff)
  have filed: "executed_statuses rs m (cr_name c) = Some PASSED"
    if "c \<in> set rs" "\<forall>c \<in> set rs. cr_status c = PASSED" for rs m c
    using that
  proof (induction rs arbitrary: m)
    case (Cons a rs)
    have step: "executed_statuses (a # rs) m = executed_statuses rs (m(cr_name a \<mapsto> PASSED))" for m
      using Cons.prems by (simp add: executed_statuses_def)
    show ?case
    proof (cases "c \<in> set rs")
      case True
      with Cons.IH Cons.prems show ?thesis by (simp add: step)
    next
      case False
      with Cons.prems have "c = a" by simp
      have "executed_statuses rs m n = Some PASSED" if "m n = Some PASSED" "\<forall>c \<in> set rs. cr_status c = PASSED" for m n rs
        using that by (induction rs arbitrary: m) (simp_all add: executed_statuses_def)
      with Cons.prems \<open>c = a\<close> show ?thesis by (simp add: step)
    qed
  qed simp
  show ?thesis
    using assms st none filed
    by (auto simp: submit_for_verification_def verify_def settle_verification_def Let_def)
qed

definition violating_env :: "unit agent_env" where
  "violating_env = (sample_env refusing_apply)\<lparr>ae_backend := (\<lambda>_. passing_backend\<lparr>bk_finalize := (\<lambda>w. (Inr [''p''], w))\<rparr>),
     ae_view := (\<lambda>_. sample_view\<lparr>rv_status := '' M a''\<rparr>)\<rparr>"

lemma violating_run:
  "run_verification (ae_backend violating_env n) (su_verification sample_setup\<lparr>vg_commands := vg_commands (su_verification sample_setup)\<rparr>)
     (ae_os violating_env) (ae_manifests violating_env) (ts_task (su_spec sample_setup)) () =
     (Inr (sample_result\<lparr>vr_status := FAILED_CHECK, vr_violations := [''p'']\<rparr>), ())"
  by (simp add: run_verification_def passing_backend_def sample_backend_def sample_verification_config_def sample_manifest_def
      run_body_def dependency_install_def run_install_def sample_command_def Let_def command_result_of_def sample_result_def
      truncate_output_def required_failures_def trim_def violating_env_def sample_env_def sample_setup_def sample_specification_def)

theorem integrity_violation_crashes_the_session_witness:
  "\<exists>s'. submit_for_verification violating_env sample_setup 1 (new_session () [] []) = (Inl (ESCAPED ''ValueError''), s')"
proof -
  have "has_changes (ae_view violating_env ())"
  proof -
    have "char_of (0::nat) \<notin> set '' M a''" by (simp add: nul_char_iff)
    from split_on_plain [OF this] have "inspected_changed_paths (sample_view\<lparr>rv_status := '' M a''\<rparr>) \<noteq> []"
      unfolding inspected_changed_paths_def sample_view_def by simp
    then show ?thesis unfolding violating_env_def has_changes_def by simp
  qed
  moreover have "ss_verification_runs (new_session () [] [] :: unit session) < ac_max_verification_runs (su_config sample_setup)"
    by (simp add: new_session_def sample_setup_def)
  ultimately show ?thesis
    using integrity_violation_crashes_the_session [of violating_env "new_session () [] []" sample_setup _ "()" 1]
      violating_run [of 1]
    by (simp add: new_session_def sample_result_def) blast
qed

end
