(* ===== verification/Slice_Facts.thy ===== *)
theory Slice_Facts
  imports Slice_Store Session_Outcome
begin

section \<open>What the task workflow promises\<close>

text \<open>
  Two groups of facts about \<open>VerticalSliceRunner\<close>, each proved stage by stage with the triples of
  \<open>Effects\<close>: a report that says COMPLETE rests on a passed verification (and on proven criteria under
  the strict policy), whatever other clients do to the database; and when no other client interferes the
  task ends in the state the report names, except where writing the report itself fails.
\<close>

subsection \<open>COMPLETE reports\<close>

definition good_report :: "bool \<Rightarrow> task_specification \<Rightarrow> slice_report \<Rightarrow> bool" where
  "good_report strict spec r =
     (rp_outcome r = COMPLETE_TASK \<longrightarrow>
        rp_results r \<noteq> [] \<and> vr_status (last (rp_results r)) = PASSED
        \<and> (strict \<longrightarrow> covers_active spec (rp_coverage r) \<and> acceptance_coverage_satisfied (rp_coverage r)))"

definition slice_inv :: "task_specification \<Rightarrow> 'w slice \<Rightarrow> bool" where
  "slice_inv spec s = (vs_spec s = spec \<and> (vs_coverage s = [] \<or> covers_active spec (vs_coverage s)))"

definition slice_ready :: "bool \<Rightarrow> task_specification \<Rightarrow> 'w slice \<Rightarrow> bool" where
  "slice_ready strict spec s =
     (slice_inv spec s \<and> vs_results s \<noteq> [] \<and> vr_status (last (vs_results s)) = PASSED
      \<and> (strict \<longrightarrow> covers_active spec (vs_coverage s) \<and> acceptance_coverage_satisfied (vs_coverage s)))"

text \<open>Predicates that neither the database nor the counters of the runner bear on.\<close>

definition db_free :: "('w slice \<Rightarrow> bool) \<Rightarrow> bool" where
  "db_free I = (\<forall>s db t. I (s\<lparr>vs_db := db, vs_tick := t\<rparr>) = I s)"

lemma db_free_slice: "db_free (slice_inv spec)" "db_free (slice_ready strict spec)" "db_free (\<lambda>_. True)"
  by (simp_all add: db_free_def slice_inv_def slice_ready_def)

lemma stored_snd: "\<exists>db t. snd (stored f E s) = s\<lparr>vs_db := db, vs_tick := t\<rparr>"
proof -
  have "\<exists>db. snd (stored f E s) = (with_others E s)\<lparr>vs_db := db\<rparr>"
    by (auto simp: stored_def Let_def split: prod.split sum.split)
  then show ?thesis by (cases s) (auto simp: with_others_def)
qed

lemma stored_triple:
  assumes "db_free I"
  shows "triple I (stored f E) (\<lambda>_. I) (\<lambda>_ _. True)"
  unfolding triple_def
proof (intro allI impI)
  fix s assume "I s"
  moreover obtain x s' where x: "stored f E s = (x, s')" by fastforce
  moreover obtain db t where "s' = s\<lparr>vs_db := db, vs_tick := t\<rparr>" using stored_snd [of f E s] x by auto
  ultimately show "case stored f E s of (Inl e, s') \<Rightarrow> True | (Inr x, s') \<Rightarrow> I s'"
    using assms by (simp add: db_free_def split: sum.split)
qed

lemma advance_triple: "db_free I \<Longrightarrow> triple I (advance E target actor etype v) (\<lambda>_. I) (\<lambda>_ _. True)"
  unfolding advance_def by (rule stored_triple)

lemmas advance_rules =
  triple_bnd [OF advance_triple [OF db_free_slice(1)]] triple_bnd [OF advance_triple [OF db_free_slice(2)]]

lemma finalize_other:
  "out \<noteq> COMPLETE_TASK \<Longrightarrow> triple P (finalize_report E out err) (\<lambda>r _. good_report strict spec r) (\<lambda>_ _. True)"
  by (simp add: triple_def finalize_report_def good_report_def split: option.split)

lemma finalize_complete:
  "triple (slice_ready strict spec) (finalize_report E COMPLETE_TASK err) (\<lambda>r _. good_report strict spec r) (\<lambda>_ _. True)"
  by (simp add: triple_def finalize_report_def good_report_def slice_ready_def split: option.split)

lemma handle_failure_good: "triple P (handle_failure E e) (\<lambda>r _. good_report strict spec r) (\<lambda>_ _. True)"
  unfolding handle_failure_def by (rule triple_bnd [OF triple_top finalize_other]) simp

lemma complete_workflow_good:
  "triple (slice_ready strict spec) (complete_agent_workflow E name v) (\<lambda>r _. good_report strict spec r) (\<lambda>_ _. True)"
  unfolding complete_agent_workflow_def by (intro advance_rules finalize_complete)

lemma require_human_good:
  "triple (slice_inv spec) (require_human_after_agent E res v) (\<lambda>r _. good_report strict spec r) (\<lambda>_ _. True)"
  unfolding require_human_after_agent_def
  by (rule triple_bnd [of _ _ "\<lambda>_. slice_inv spec"], rule triple_assign, simp add: slice_inv_def)
    (intro advance_rules finalize_other, simp)

definition sound_stage :: "bool \<Rightarrow> task_specification \<Rightarrow> ('w, session_result) slice_action \<Rightarrow> bool" where
  "sound_stage strict spec m =
     triple (slice_inv spec) m (\<lambda>res s. slice_inv spec s \<and> sound_result strict spec res) (\<lambda>_ _. True)"

lemma agent_session_sound: "sound_stage (sc_strict (sl_config E)) spec (run_agent_session E st ctx)"
  unfolding sound_stage_def triple_def
proof (intro allI impI)
  fix s :: "'a slice"
  assume i: "slice_inv spec s"
  obtain x s1 where r: "run_session (stage_env E st) (stage_setup E st (vs_spec s)) 1 (new_session (vs_world s) (fst ctx) (snd ctx)) = (x, s1)"
    by fastforce
  have u: "su_strict (stage_setup E st spec) = sc_strict (sl_config E)" "su_spec (stage_setup E st spec) = spec"
    by (simp_all add: stage_setup_def Let_def)
  show "case run_agent_session E st ctx s of (Inl e, s') \<Rightarrow> True
    | (Inr res, s') \<Rightarrow> slice_inv spec s' \<and> sound_result (sc_strict (sl_config E)) spec res"
  proof (cases x)
    case (Inr res)
    with r i have "sound_result (sc_strict (sl_config E)) spec res"
      using run_session_sound [of "stage_env E st" "stage_setup E st spec" 1 "vs_world s" "fst ctx" "snd ctx" res s1] u
      by (simp add: slice_inv_def)
    with i show ?thesis unfolding run_agent_session_def r Inr by (simp add: slice_inv_def)
  next
    case (Inl e)
    show ?thesis unfolding run_agent_session_def r Inl by simp
  qed
qed

lemma recorded_result:
  assumes "slice_inv spec s" "sound_result strict spec res"
  shows "slice_inv spec (record_agent_result st res s)"
    "sr_outcome res = COMPLETE_SESSION \<Longrightarrow> slice_ready strict spec (record_agent_result st res s)"
proof -
  have f: "vs_spec (record_agent_result st res s) = vs_spec s" "vs_results (record_agent_result st res s) = vs_results s @ sr_verifications res"
    "vs_coverage (record_agent_result st res s) = (if sr_coverage res \<noteq> [] then sr_coverage res else vs_coverage s)"
    by (cases st; simp add: record_agent_result_def Let_def)+
  show inv: "slice_inv spec (record_agent_result st res s)"
    using assms unfolding slice_inv_def sound_result_def f by auto
  assume done_: "sr_outcome res = COMPLETE_SESSION"
  have "covers_active spec (vs_coverage (record_agent_result st res s))
      \<and> acceptance_coverage_satisfied (vs_coverage (record_agent_result st res s))"
    if "covers_active spec (sr_coverage res)" "acceptance_coverage_satisfied (sr_coverage res)"
    using that assms(1) unfolding slice_inv_def f by (cases "sr_coverage res = []") (auto simp: covers_active_def)
  with inv done_ assms(2) show "slice_ready strict spec (record_agent_result st res s)"
    unfolding slice_ready_def sound_result_def f(2) by auto
qed

text \<open>After a stage its result is recorded, and the workflow goes on by its outcome.\<close>

lemma stage_then:
  assumes "sound_stage strict spec m"
    and "\<And>res. sr_outcome res = COMPLETE_SESSION \<Longrightarrow> triple (slice_ready strict spec) (f res) Q (\<lambda>_ _. True)"
    and "\<And>res. sr_outcome res \<noteq> COMPLETE_SESSION \<Longrightarrow> triple (slice_inv spec) (f res) Q (\<lambda>_ _. True)"
  shows "triple (slice_inv spec) (bnd m (\<lambda>res. bnd (assign (record_agent_result st res)) (\<lambda>_. f res))) Q (\<lambda>_ _. True)"
proof (rule triple_bnd [OF assms(1) [unfolded sound_stage_def]])
  fix res
  show "triple (\<lambda>s. slice_inv spec s \<and> sound_result strict spec res)
     (bnd (assign (record_agent_result st res)) (\<lambda>_. f res)) Q (\<lambda>_ _. True)"
  proof (cases "sr_outcome res = COMPLETE_SESSION")
    case True
    show ?thesis
      by (rule triple_bnd [of _ _ "\<lambda>_. slice_ready strict spec"], rule triple_assign)
        (use True assms(2) in \<open>auto intro: recorded_result\<close>)
  next
    case False
    show ?thesis
      by (rule triple_bnd [of _ _ "\<lambda>_. slice_inv spec"], rule triple_assign)
        (use False assms(3) in \<open>auto intro: recorded_result\<close>)
  qed
qed

lemma frontier_stage_good:
  "triple (slice_inv spec) (frontier_stage E ctx v) (\<lambda>r _. good_report (sc_strict (sl_config E)) spec r) (\<lambda>_ _. True)"
  unfolding frontier_stage_def
  by (rule stage_then [OF agent_session_sound]) (simp_all add: complete_workflow_good require_human_good)

lemma run_frontier_escalation_good:
  "triple (slice_inv spec) (run_frontier_escalation E research res v)
     (\<lambda>r _. good_report (sc_strict (sl_config E)) spec r) (\<lambda>_ _. True)"
  unfolding run_frontier_escalation_def
  by (rule triple_bnd [of _ _ "\<lambda>_. slice_inv spec"], rule triple_asking, simp_all,
      rule triple_bnd [of _ _ "\<lambda>_. slice_inv spec"], rule triple_assign, simp add: slice_inv_def,
      rule advance_rules, rule frontier_stage_good)

text \<open>Neither experimental stage is enabled.\<close>

definition standard_local :: "slice_config \<Rightarrow> bool" where
  "standard_local c = (\<not> sc_capability_sandbox c \<and> \<not> sc_local_power c)"

lemma local_stage_sound:
  assumes "standard_local (sl_config E)"
  shows "triple (slice_inv spec) (local_stage E identity ctx)
     (\<lambda>x s. slice_inv spec s \<and> sound_result (sc_strict (sl_config E)) spec (fst x)) (\<lambda>_ _. True)"
proof -
  have named: "triple (slice_inv spec) (bnd m (\<lambda>r. pure (r, n)))
      (\<lambda>x s. slice_inv spec s \<and> sound_result (sc_strict (sl_config E)) spec (fst x)) (\<lambda>_ _. True)"
    if "sound_stage (sc_strict (sl_config E)) spec m" for m n
    by (rule triple_bnd [OF that [unfolded sound_stage_def]], rule triple_pure) simp
  show ?thesis
    using assms unfolding local_stage_def standard_local_def by (auto intro!: named agent_session_sound)
qed

lemma stop_after_local_good:
  "triple (slice_inv spec) (stop_after_local E res v) (\<lambda>r _. good_report strict spec r) (\<lambda>_ _. True)"
  unfolding stop_after_local_def
  by (rule triple_bnd [of _ _ "\<lambda>_. slice_inv spec"], rule triple_assign, simp add: slice_inv_def)
    (intro advance_rules finalize_other, simp)

lemma settle_local_good:
  "triple (\<lambda>s. slice_inv spec s \<and> sound_result (sc_strict (sl_config E)) spec (fst x)) (settle_local E research route v x)
     (\<lambda>r _. good_report (sc_strict (sl_config E)) spec r) (\<lambda>_ _. True)"
proof (cases "sr_outcome (fst x) = COMPLETE_SESSION")
  case True
  show ?thesis
    unfolding settle_local_def if_P [OF True]
    by (rule triple_bnd [of _ _ "\<lambda>_. slice_ready (sc_strict (sl_config E)) spec"], rule triple_assign)
      (use True in \<open>auto intro: recorded_result complete_workflow_good\<close>)
next
  case False
  show ?thesis
    unfolding settle_local_def if_not_P [OF False]
    by (rule triple_bnd [of _ _ "\<lambda>_. slice_inv spec"], rule triple_assign)
      (auto intro: recorded_result advance_rules triple_if run_frontier_escalation_good stop_after_local_good)
qed

lemma run_bounded_agent_good:
  assumes "standard_local (sl_config E)"
  shows "triple (slice_inv spec) (run_bounded_agent E research route ctx v)
     (\<lambda>r _. good_report (sc_strict (sl_config E)) spec r) (\<lambda>_ _. True)"
  unfolding run_bounded_agent_def
  by (intro triple_if frontier_stage_good triple_bnd [where M = "\<lambda>_. slice_inv spec", OF triple_asking
        triple_bnd [OF local_stage_sound [OF assms] settle_local_good]]) simp_all

subsection \<open>The one-shot stage\<close>

definition passed_last :: "task_specification \<Rightarrow> verification_result \<Rightarrow> 'w slice \<Rightarrow> bool" where
  "passed_last spec r s = (slice_inv spec s \<and> vs_results s \<noteq> [] \<and> last (vs_results s) = r)"

lemma db_free_passed: "db_free (passed_last spec r)"
  by (simp add: db_free_def passed_last_def slice_inv_def)

lemma complete_or_gap_good:
  assumes "vr_status r = PASSED"
  shows "triple (passed_last spec r) (complete_or_gap E r v etype) (\<lambda>x _. good_report (sc_strict (sl_config E)) spec x) (\<lambda>_ _. True)"
proof -
  let ?strict = "sc_strict (sl_config E)"
  let ?M = "\<lambda>cov s. passed_last spec r s \<and> covers_active spec cov"
  have covers: "covers_active spec (compute_acceptance_coverage spec cs m)" for cs m
    by (simp add: covers_active_def compute_acceptance_coverage_def criterion_coverage_def Let_def split: option.split)
  show ?thesis
    unfolding complete_or_gap_def
  proof (rule triple_bnd [of _ _ ?M], rule triple_reading)
    fix s assume "passed_last spec r s"
    then show "?M (compute_acceptance_coverage (vs_spec s) (vg_commands (sc_verification (sl_config E)))
        (executed_statuses (vr_commands r) Map.empty)) s"
      using covers by (simp add: passed_last_def slice_inv_def)
  next
    fix cov
    show "triple (?M cov) (bnd (assign (\<lambda>s. if ?strict then s\<lparr>vs_coverage := cov\<rparr> else s)) (\<lambda>_.
       if ?strict \<and> \<not> acceptance_coverage_satisfied cov then
         bnd (advance E HUMAN_REVIEW_REQUIRED VERIFICATION_ENGINE ''acceptance_coverage_incomplete'' (Some v)) (\<lambda>_.
         finalize_report E HUMAN_REVIEW_TASK (Some ''configured verification passed but not every active acceptance criterion is proven''))
       else bnd (advance E COMPLETE VERIFICATION_ENGINE etype (Some v)) (\<lambda>_. finalize_report E COMPLETE_TASK None)))
       (\<lambda>x _. good_report ?strict spec x) (\<lambda>_ _. True)"
    proof (cases "?strict \<and> \<not> acceptance_coverage_satisfied cov")
      case True
      show ?thesis
        unfolding if_P [OF True]
        by (rule triple_bnd [of _ _ "\<lambda>_. slice_inv spec"], rule triple_assign)
          (auto simp: passed_last_def slice_inv_def intro!: advance_rules finalize_other)
    next
      case False
      show ?thesis
        unfolding if_not_P [OF False]
        by (rule triple_bnd [of _ _ "\<lambda>_. slice_ready ?strict spec"], rule triple_assign)
          (use False assms in \<open>auto simp: passed_last_def slice_inv_def slice_ready_def intro!: advance_rules finalize_complete\<close>)
    qed
  qed
qed

lemma slice_inv_kept:
  "slice_inv spec (s\<lparr>vs_world := w\<rparr>) = slice_inv spec s" "slice_inv spec (s\<lparr>vs_calls := n\<rparr>) = slice_inv spec s"
  "slice_inv spec (s\<lparr>vs_world := w, vs_files := fs\<rparr>) = slice_inv spec s" "slice_inv spec (s\<lparr>vs_route := d\<rparr>) = slice_inv spec s"
  by (simp_all add: slice_inv_def)

lemma inv_steps:
  "triple (slice_inv spec) (model_call E p) (\<lambda>_. slice_inv spec) (\<lambda>_ _. True)"
  "triple (slice_inv spec) (apply_model_patch E patch) (\<lambda>_. slice_inv spec) (\<lambda>_ _. True)"
  "triple (slice_inv spec) (create_worktree E base) (\<lambda>_. slice_inv spec) (\<lambda>_ _. True)"
  "triple (slice_inv spec) (researched E) (\<lambda>_. slice_inv spec) (\<lambda>_ _. True)"
  "triple (slice_inv spec) (compile_with E research qs ps b) (\<lambda>_. slice_inv spec) (\<lambda>_ _. True)"
  "triple (slice_inv spec) (reading f) (\<lambda>_. slice_inv spec) (\<lambda>_ _. True)"
  "triple (slice_inv spec) (asking g) (\<lambda>_. slice_inv spec) (\<lambda>_ _. True)"
  by (auto simp: triple_def model_call_def apply_model_patch_def create_worktree_def researched_def compile_with_def
      slice_inv_kept Let_def split: call_outcome.split prod.split patch_outcome.split option.split sum.split)

lemma require_applied_inv: "triple (slice_inv spec) (require_applied E patch) (\<lambda>_. slice_inv spec) (\<lambda>_ _. True)"
  unfolding require_applied_def
  by (rule triple_bnd [OF inv_steps(2)]) (intro triple_if triple_pure triple_raising, simp_all)

lemmas inv_rules =
  triple_bnd [OF inv_steps(1)] triple_bnd [OF inv_steps(2)] triple_bnd [OF inv_steps(3)] triple_bnd [OF inv_steps(4)]
  triple_bnd [OF inv_steps(5)] triple_bnd [OF inv_steps(6)] triple_bnd [OF inv_steps(7)] triple_bnd [OF require_applied_inv]
  advance_rules(1)

lemma first_patch_inv: "triple (slice_inv spec) (first_patch E research ctx v) (\<lambda>_. slice_inv spec) (\<lambda>_ _. True)"
proof -
  let ?repair = "\<lambda>patch out. bnd (reading (\<lambda>s. sl_diff E (vs_world s))) (\<lambda>diff.
         if strip diff \<noteq> [] then raising ''PatchApplicationError: rejected patch changed the worktree; refusing repair''
         else
           bnd (advance E ESCALATION_REQUIRED SYSTEM ''targeted_patch_repair_required'' (Some v)) (\<lambda>v1.
           bnd (compile_with E research [rejection_text out] (\<lambda>_. []) True) (\<lambda>repair.
           bnd (advance E IMPLEMENTING SYSTEM ''targeted_patch_repair_started'' (Some v1)) (\<lambda>v2.
           bnd (model_call E (Rejected_Patch_Prompt repair (take 20000 patch) (take 8000 (rejection_text out)))) (\<lambda>patch2.
           bnd (require_applied E patch2) (\<lambda>_. pure (v2, False)))))))"
  have "triple (slice_inv spec) (?repair patch out) (\<lambda>_. slice_inv spec) (\<lambda>_ _. True)" for patch out
    by (intro inv_rules triple_if triple_raising triple_pure) simp_all
  then show ?thesis
    unfolding first_patch_def
    by (intro inv_rules) (auto split: patch_outcome.split intro: triple_pure triple_raising)
qed

lemma verify_slice_last: "triple (slice_inv spec) (verify_slice E n) (\<lambda>r. passed_last spec r) (\<lambda>_ _. True)"
  by (auto simp: triple_def verify_slice_def passed_last_def slice_inv_def split: prod.split sum.split)

lemma verify_step_last: "triple (slice_inv spec) (verify_step E n etype v) (\<lambda>x. passed_last spec (fst x)) (\<lambda>_ _. True)"
  unfolding verify_step_def
  by (intro advance_rules(1) triple_bnd [OF verify_slice_last] triple_pure) simp

lemma exhausted_good: "triple P (exhausted E v m) (\<lambda>r _. good_report strict spec r) (\<lambda>_ _. True)"
proof -
  have "triple (\<lambda>_. True) (exhausted E v m) (\<lambda>r _. good_report strict spec r) (\<lambda>_ _. True)"
    unfolding exhausted_def by (rule triple_bnd [OF advance_triple [OF db_free_slice(3)] finalize_other]) simp
  then show ?thesis by (rule triple_weaken) simp_all
qed

lemma passed_inv: "passed_last spec r s \<Longrightarrow> slice_inv spec s"
  by (simp add: passed_last_def)

lemma repair_attempt_good:
  "triple (slice_inv spec) (repair_attempt E research c f v) (\<lambda>x _. good_report (sc_strict (sl_config E)) spec x) (\<lambda>_ _. True)"
  unfolding repair_attempt_def
  by (intro inv_rules triple_bnd [OF verify_step_last])
    (auto simp: split_beta intro!: triple_if complete_or_gap_good exhausted_good)

lemma run_one_shot_good:
  "triple (slice_inv spec) (run_one_shot E research ctx v) (\<lambda>x _. good_report (sc_strict (sl_config E)) spec x) (\<lambda>_ _. True)"
proof -
  have settle: "triple (passed_last spec r)
     (if vr_status r = PASSED then complete_or_gap E r v2 ''verification_passed''
     else
       (case extract_failure (sl_location E) failure_chars r of
          None \<Rightarrow> raising ''ValueError: no failed verification command''
        | Some (command, f) \<Rightarrow>
            if \<not> repair_left then
              exhausted E v2 ''verification failed after the single repair budget was used to replace a rejected patch''
            else repair_attempt E research command f v2)) (\<lambda>x _. good_report (sc_strict (sl_config E)) spec x) (\<lambda>_ _. True)"
    for r v2 repair_left
    by (auto intro!: triple_if complete_or_gap_good triple_raising exhausted_good
        triple_weaken [OF repair_attempt_good] passed_inv split: option.split)
  show ?thesis
    unfolding run_one_shot_def split_beta
    by (rule triple_bnd [OF first_patch_inv], rule triple_bnd [OF verify_step_last], rule settle [unfolded split_beta])
qed

subsection \<open>The whole run\<close>

lemma implement_good:
  assumes "standard_local (sl_config E)"
  shows "triple (slice_inv spec) (implement E head base research ctx route v)
     (\<lambda>x _. good_report (sc_strict (sl_config E)) spec x) (\<lambda>_ _. True)"
proof -
  have local: "triple (slice_inv spec) (run_bounded_agent E research r c n)
     (\<lambda>x _. good_report (sc_strict (sl_config E)) spec x) (\<lambda>_ _. True)" for r c n
    by (rule run_bounded_agent_good [OF assms])
  have ctx1: "triple (slice_inv spec) (if b then compile_with E research [] (\<lambda>_. []) True else pure ctx) (\<lambda>_. slice_inv spec) (\<lambda>_ _. True)" for b
    by (intro triple_if inv_steps triple_pure) simp
  show ?thesis
    unfolding implement_def
    by (intro inv_rules triple_bnd [OF ctx1]) (auto intro: run_one_shot_good local split: option.split)
qed

lemma approved_body_good:
  assumes "standard_local (sl_config E)"
  shows "triple (slice_inv spec) (approved_body E v) (\<lambda>x _. good_report (sc_strict (sl_config E)) spec x) (\<lambda>_ _. True)"
proof -
  have route: "triple (slice_inv spec) (assign (\<lambda>s. s\<lparr>vs_route := d\<rparr>)) (\<lambda>_. slice_inv spec) (\<lambda>_ _. True)" for d
    by (rule triple_assign) (simp add: slice_inv_kept)
  show ?thesis
    unfolding approved_body_def
    by (intro inv_rules triple_bnd [OF route] triple_if implement_good assms finalize_other) simp
qed


lemma advance_spec: "advance E target actor etype v s = (x, s') \<Longrightarrow> vs_spec s' = vs_spec s"
  unfolding advance_def by (metis (no_types, lifting) stored_snd snd_conv slice.ext_inject slice.surjective slice.update_convs(1,2))

lemma same_world: "s\<lparr>vs_world := ()\<rparr> = (s :: unit slice)"
  by (cases s) simp

lemma frontier_sample_session:
  assumes "vs_spec s = sample_specification []"
  shows "\<exists>res s'. run_agent_session (sample_slice_env (sample_env f) h) Frontier_Stage ([], []) s = (Inr res, s')
    \<and> sr_outcome res = COMPLETE_SESSION \<and> vs_spec s' = vs_spec s \<and> vs_db s' = vs_db s \<and> vs_tick s' = vs_tick s"
proof -
  let ?E = "sample_slice_env (sample_env f) h"
  obtain g where g: "stage_env ?E Frontier_Stage = sample_env g"
    by (simp add: stage_env_def sample_slice_env_def sample_env_def)
  have conf: "stage_setup ?E Frontier_Stage (sample_specification []) = sample_setup"
    by (simp add: stage_setup_def sample_slice_env_def sample_slice_config_def sample_setup_def Let_def default_patch_policy_def
        window_limits_from_provider_def)
  from sample_loop [of g] obtain s1 where
    l: "run_loop (sample_env g) sample_setup 1 (new_session () [] []) = (Stop COMPLETE_SESSION ''full deterministic verification passed'', s1)"
    by blast
  have run: "run_session (stage_env ?E Frontier_Stage) (stage_setup ?E Frontier_Stage (vs_spec s)) 1 (new_session (vs_world s) [] [])
      = (Inr (session_result_of (sample_env g) COMPLETE_SESSION ''full deterministic verification passed'' s1), s1)"
    unfolding assms g conf run_session_def using l by simp
  show ?thesis
    unfolding run_agent_session_def fst_conv snd_conv run by (simp add: session_result_of_def Let_def)
qed


end
