(* ===== verification/Tables.thy ===== *)
theory Tables
  imports Prelude
begin

section \<open>Tables with a key\<close>

text \<open>
  What the stores of plans, slices and plan runs do with a table whose rows have a key: find the row of a key, update
  the rows of a key that satisfy a condition and count them, delete them. A table is the list of its rows.
\<close>

definition row_of :: "('r \<Rightarrow> 'k) \<Rightarrow> 'k \<Rightarrow> 'r list \<Rightarrow> 'r option" where
  "row_of key k rows = find (\<lambda>r. key r = k) rows"

definition update_rows :: "('r \<Rightarrow> 'k) \<Rightarrow> 'k \<Rightarrow> ('r \<Rightarrow> bool) \<Rightarrow> ('r \<Rightarrow> 'r) \<Rightarrow> 'r list \<Rightarrow> nat \<times> 'r list" where
  "update_rows key k P f rows =
     (length (filter (\<lambda>r. key r = k \<and> P r) rows), map (\<lambda>r. if key r = k \<and> P r then f r else r) rows)"

definition delete_rows :: "('r \<Rightarrow> 'k) \<Rightarrow> 'k \<Rightarrow> ('r \<Rightarrow> bool) \<Rightarrow> 'r list \<Rightarrow> nat \<times> 'r list" where
  "delete_rows key k P rows =
     (length (filter (\<lambda>r. key r = k \<and> P r) rows), filter (\<lambda>r. \<not> (key r = k \<and> P r)) rows)"

lemma row_of_SomeD: "row_of key k rows = Some r \<Longrightarrow> r \<in> set rows \<and> key r = k"
  by (auto simp: row_of_def dest: find_Some_in)

lemma row_of_None: "row_of key k rows = None \<longleftrightarrow> k \<notin> key ` set rows"
  by (auto simp: row_of_def find_None_iff_none)

lemma row_of_in: "distinct (map key rows) \<Longrightarrow> r \<in> set rows \<Longrightarrow> row_of key (key r) rows = Some r"
proof (induction rows)
  case (Cons x xs)
  then show ?case by (cases "x = r") (auto simp: row_of_def rev_image_eqI)
qed simp

lemma row_of_snoc:
  "row_of key k (rows @ [r]) = (case row_of key k rows of None \<Rightarrow> if key r = k then Some r else None | Some x \<Rightarrow> Some x)"
  by (auto simp: row_of_def find_append split: option.split)

lemma filter_keyed:
  "distinct (map key rows) \<Longrightarrow> row_of key k rows = Some r \<Longrightarrow>
     filter (\<lambda>x. key x = k \<and> P x) rows = (if P r then [r] else [])"
proof (induction rows)
  case (Cons x xs)
  show ?case
  proof (cases "key x = k")
    case True
    with Cons.prems have "x = r" "\<forall>y \<in> set xs. key y \<noteq> k" by (auto simp: row_of_def image_iff)
    with True show ?thesis by (auto simp: filter_empty_conv)
  next
    case False
    with Cons show ?thesis by (simp add: row_of_def)
  qed
qed (simp add: row_of_def)

lemma update_count:
  "distinct (map key rows) \<Longrightarrow> row_of key k rows = Some r \<Longrightarrow>
     fst (update_rows key k P f rows) = (if P r then 1 else 0)"
  by (simp add: update_rows_def filter_keyed)

lemma delete_count:
  "distinct (map key rows) \<Longrightarrow> row_of key k rows = Some r \<Longrightarrow>
     fst (delete_rows key k P rows) = (if P r then 1 else 0)"
  by (simp add: delete_rows_def filter_keyed)

lemma update_keys: "(\<And>r. key (f r) = key r) \<Longrightarrow> map key (snd (update_rows key k P f rows)) = map key rows"
  by (simp add: update_rows_def)

lemma row_of_update:
  assumes "\<And>r. key (f r) = key r"
  shows "row_of key j (snd (update_rows key k P f rows))
    = map_option (\<lambda>r. if key r = k \<and> P r then f r else r) (row_of key j rows)"
  by (induction rows) (auto simp: row_of_def update_rows_def assms)

lemma row_of_update_other:
  "(\<And>r. key (f r) = key r) \<Longrightarrow> j \<noteq> k \<Longrightarrow> row_of key j (snd (update_rows key k P f rows)) = row_of key j rows"
  by (induction rows) (auto simp: row_of_def update_rows_def)

lemma row_of_delete:
  "distinct (map key rows) \<Longrightarrow> row_of key k rows = Some r \<Longrightarrow> P r \<Longrightarrow>
     row_of key j (snd (delete_rows key k P rows)) = (if j = k then None else row_of key j rows)"
proof -
  assume d: "distinct (map key rows)" and r: "row_of key k rows = Some r" "P r"
  have "row_of key j (filter (\<lambda>x. \<not> (key x = k \<and> P x)) rows) = row_of key j rows" if "j \<noteq> k"
    using that by (induction rows) (auto simp: row_of_def)
  moreover have "row_of key k (filter (\<lambda>x. \<not> (key x = k \<and> P x)) rows) = None"
    unfolding row_of_None using row_of_in [OF d] r by force
  ultimately show ?thesis by (simp add: delete_rows_def)
qed

lemma delete_keys: "distinct (map key rows) \<Longrightarrow> distinct (map key (snd (delete_rows key k P rows)))"
  by (auto simp: delete_rows_def distinct_map_filter)

end
