(* ===== verification/Slice_Graph.thy ===== *)
theory Slice_Graph
  imports Prelude
begin

section \<open>The dependency graph of a plan (architect/validation.py)\<close>

text \<open>
  The two graph algorithms of the plan validator over a dictionary of adjacency lists: the depth-first search for a
  cycle with three colours and a path stack, and the memoised longest path. A dictionary is the list of its items in
  insertion order. An edge to an unknown node is no edge. The search reports nothing exactly on acyclic graphs, what
  it reports is a cycle, and on an acyclic graph the depth is the number of edges of a longest path.
\<close>

type_synonym adjacency = "(string \<times> string list) list"

definition graph_nodes :: "adjacency \<Rightarrow> string list" where
  "graph_nodes g = map fst g"

text \<open>\<open>graph.get(node, [])\<close>\<close>

definition neighbours :: "adjacency \<Rightarrow> string \<Rightarrow> string list" where
  "neighbours g n = (case map_of g n of None \<Rightarrow> [] | Some ns \<Rightarrow> ns)"

subsection \<open>The search for a cycle\<close>

datatype colour = WHITE | GRAY | BLACK

text \<open>
  The loop over the neighbours inside \<open>visit\<close>, with the call of \<open>visit\<close> unfolded: the colours and the path stack go
  along, a cycle found below ends every enclosing loop.
\<close>

function (sequential) visit_list ::
  "adjacency \<Rightarrow> (string \<Rightarrow> colour) \<Rightarrow> string list \<Rightarrow> string list
    \<Rightarrow> string list option \<times> (string \<Rightarrow> colour) \<times> string list" where
  "visit_list g c st [] = (None, c, st)"
| "visit_list g c st (m # ms) =
     (if m \<notin> set (graph_nodes g) then visit_list g c st ms
      else (case c m of
              GRAY \<Rightarrow> (Some (dropWhile (\<lambda>n. n \<noteq> m) st @ [m]), c, st)
            | BLACK \<Rightarrow> visit_list g c st ms
            | WHITE \<Rightarrow>
                (case visit_list g (c(m := GRAY)) (st @ [m]) (neighbours g m) of
                   (Some cycle, c', st') \<Rightarrow> (Some cycle, c', st')
                 | (None, c', st') \<Rightarrow> visit_list g (c'(m := BLACK)) (butlast st') ms)))"
  by pat_completeness auto

termination
proof -
  have whites: "visit_list_dom (g, c, st, ms) \<Longrightarrow> fst (snd (visit_list g c st ms)) n = WHITE \<Longrightarrow> c n = WHITE"
    for g c st ms n
  proof (induction arbitrary: n rule: visit_list.pinduct)
    case (1 g c st)
    then show ?case by (simp add: visit_list.psimps)
  next
    case (2 g c st m ms)
    show ?case
    proof (cases "m \<in> set (graph_nodes g)")
      case False
      with 2 show ?thesis by (simp add: visit_list.psimps)
    next
      case known: True
      show ?thesis
      proof (cases "c m")
        case WHITE
        obtain f c' st' where r: "visit_list g (c(m := GRAY)) (st @ [m]) (neighbours g m) = (f, c', st')"
          by (cases "visit_list g (c(m := GRAY)) (st @ [m]) (neighbours g m)")
        have below: "c k = WHITE" if "c' k = WHITE" for k
        proof -
          have "(c(m := GRAY)) k = WHITE" by (rule 2(3) [OF _ WHITE]) (use known that in \<open>simp_all only: r, simp_all\<close>)
          then show ?thesis by (simp split: if_splits)
        qed
        show ?thesis
        proof (cases f)
          case None
          have tail: "(c'(m := BLACK)) n = WHITE"
            if "fst (snd (visit_list g (c'(m := BLACK)) (butlast st') ms)) n = WHITE"
            by (rule 2(4) [OF _ WHITE r [symmetric] _ refl that]) (use known None in simp_all)
          have "fst (snd (visit_list g (c'(m := BLACK)) (butlast st') ms)) n = WHITE"
            using 2(1,6) known WHITE r None by (simp add: visit_list.psimps)
          from tail [OF this] show ?thesis using below [of n] by (simp split: if_splits)
        next
          case (Some cyc)
          then show ?thesis using 2(1,6) known WHITE r below [of n] by (simp add: visit_list.psimps)
        qed
      next
        case GRAY
        then show ?thesis using 2(1,6) known by (simp add: visit_list.psimps)
      next
        case BLACK
        then show ?thesis using 2 known by (simp add: visit_list.psimps)
      qed
    qed
  qed
  define w where "w g c = {n \<in> set (graph_nodes g). c n = WHITE}" for g :: adjacency and c
  show ?thesis
  proof (relation "measures [\<lambda>(g, c, st, ms). card (w g c), \<lambda>(g, c, st, ms). length ms]", goal_cases)
    case 1
    then show ?case by simp
  next
    case (2 g c st m ms)
    then show ?case by simp
  next
    case (3 g c st m ms)
    then have "w g (c(m := GRAY)) \<subset> w g c" by (auto simp: w_def)
    then have "card (w g (c(m := GRAY))) < card (w g c)" by (intro psubset_card_mono) (auto simp: w_def)
    then show ?case by simp
  next
    case (4 g c st m ms f rest c' st')
    have "c k = WHITE" if "c' k = WHITE" for k
    proof -
      have "(c(m := GRAY)) k = WHITE" by (rule whites [OF 4(6)], insert 4(3-5) that) (metis fst_conv snd_conv prod.collapse)
      then show ?thesis by (simp split: if_splits)
    qed
    then have "w g (c'(m := BLACK)) \<subset> w g c" using 4(1,2) by (auto simp: w_def split: if_splits)
    then have "card (w g (c'(m := BLACK))) < card (w g c)" by (intro psubset_card_mono) (auto simp: w_def)
    then show ?case by simp
  next
    case (5 g c st m ms)
    then show ?case by simp
  qed
qed

text \<open>\<open>visit\<close>: enter a node, search below its neighbours, leave it.\<close>

definition visit ::
  "adjacency \<Rightarrow> (string \<Rightarrow> colour) \<Rightarrow> string list \<Rightarrow> string
    \<Rightarrow> string list option \<times> (string \<Rightarrow> colour) \<times> string list" where
  "visit g c st n =
     (case visit_list g (c(n := GRAY)) (st @ [n]) (neighbours g n) of
        (Some cycle, c', st') \<Rightarrow> (Some cycle, c', st')
      | (None, c', st') \<Rightarrow> (None, c'(n := BLACK), butlast st'))"

fun visit_roots ::
  "adjacency \<Rightarrow> (string \<Rightarrow> colour) \<Rightarrow> string list \<Rightarrow> string list \<Rightarrow> string list option" where
  "visit_roots g c st [] = None"
| "visit_roots g c st (n # ns) =
     (if c n = WHITE
      then (case visit g c st n of (Some cycle, _, _) \<Rightarrow> Some cycle | (None, c', st') \<Rightarrow> visit_roots g c' st' ns)
      else visit_roots g c st ns)"

definition find_cycle :: "adjacency \<Rightarrow> string list option" where
  "find_cycle g = visit_roots g (\<lambda>_. WHITE) [] (graph_nodes g)"

subsection \<open>What the search finds\<close>

definition edges :: "adjacency \<Rightarrow> (string \<times> string) set" where
  "edges g = {(a, b). a \<in> set (graph_nodes g) \<and> b \<in> set (graph_nodes g) \<and> b \<in> set (neighbours g a)}"

definition walk :: "adjacency \<Rightarrow> string list \<Rightarrow> bool" where
  "walk g ns = successively (\<lambda>a b. (a, b) \<in> edges g) ns"

definition is_cycle :: "adjacency \<Rightarrow> string list \<Rightarrow> bool" where
  "is_cycle g ns = (2 \<le> length ns \<and> hd ns = last ns \<and> walk g ns)"

lemma walk_snoc: "walk g (ns @ [m]) \<longleftrightarrow> walk g ns \<and> (ns \<noteq> [] \<longrightarrow> (last ns, m) \<in> edges g)"
  by (auto simp: walk_def successively_append_iff)

lemma walk_reaches: "walk g (n # ns) \<Longrightarrow> ns \<noteq> [] \<Longrightarrow> (n, last ns) \<in> (edges g)\<^sup>+"
proof (induction ns arbitrary: n)
  case (Cons m ns)
  then have e: "(n, m) \<in> edges g" and w: "walk g (m # ns)" by (simp_all add: walk_def)
  show ?case
  proof (cases "ns = []")
    case False
    with Cons.IH [OF w] e show ?thesis by (simp add: trancl_into_trancl2)
  qed (use e in auto)
qed simp

lemma cycle_is_cyclic: "is_cycle g ns \<Longrightarrow> \<not> acyclic (edges g)"
proof -
  assume c: "is_cycle g ns"
  then obtain n m ms where ns: "ns = n # m # ms" by (cases ns; cases "tl ns") (auto simp: is_cycle_def)
  with c walk_reaches [of g n "m # ms"] show ?thesis by (auto simp: is_cycle_def acyclic_def split: if_splits)
qed

text \<open>
  Between two calls: the gray nodes are those of the path stack, which is a walk; the black nodes are closed under
  edges and lie on no cycle.
\<close>

definition search_inv :: "adjacency \<Rightarrow> (string \<Rightarrow> colour) \<Rightarrow> string list \<Rightarrow> bool" where
  "search_inv g c st =
     ((\<forall>n. c n = GRAY \<longleftrightarrow> n \<in> set st) \<and> walk g st
      \<and> (\<forall>n m. c n = BLACK \<longrightarrow> (n, m) \<in> edges g \<longrightarrow> c m = BLACK)
      \<and> (\<forall>n. c n = BLACK \<longrightarrow> (n, n) \<notin> (edges g)\<^sup>+))"

lemma black_closed:
  assumes "\<And>n m. c n = BLACK \<Longrightarrow> (n, m) \<in> edges g \<Longrightarrow> c m = BLACK" "(n, m) \<in> (edges g)\<^sup>*" "c n = BLACK"
  shows "c m = BLACK"
  using assms(2,3) by induction (auto intro: assms(1))

lemma search_enter:
  "search_inv g c st \<Longrightarrow> c m = WHITE \<Longrightarrow> m \<in> set (graph_nodes g) \<Longrightarrow> (st \<noteq> [] \<Longrightarrow> (last st, m) \<in> edges g)
    \<Longrightarrow> search_inv g (c(m := GRAY)) (st @ [m])"
  by (auto simp: search_inv_def walk_snoc)

lemma search_leave:
  assumes inv: "search_inv g c (st @ [m])" and new: "m \<notin> set st"
    and below: "\<And>k. (m, k) \<in> edges g \<Longrightarrow> c k = BLACK"
  shows "search_inv g (c(m := BLACK)) st"
proof -
  have closed: "c n = BLACK \<Longrightarrow> (n, k) \<in> edges g \<Longrightarrow> c k = BLACK" for n k
    using inv by (simp add: search_inv_def)
  have gray: "c m = GRAY" using inv by (simp add: search_inv_def)
  have "(m, m) \<notin> (edges g)\<^sup>+"
  proof
    assume "(m, m) \<in> (edges g)\<^sup>+"
    then obtain k where "(m, k) \<in> edges g" "(k, m) \<in> (edges g)\<^sup>*" by (auto dest: tranclD)
    with below [of k] closed have "c m = BLACK" by (blast intro: black_closed [of c g k m])
    with gray show False by simp
  qed
  moreover have "(n, n) \<notin> (edges g)\<^sup>+" if "c n = BLACK" for n using inv that by (simp add: search_inv_def)
  moreover have "((c(m := BLACK)) n = GRAY) = (n \<in> set st)" for n using inv new by (auto simp: search_inv_def)
  moreover have "walk g st" using inv by (simp add: search_inv_def walk_snoc)
  moreover have "(c(m := BLACK)) k = BLACK" if "(c(m := BLACK)) n = BLACK" "(n, k) \<in> edges g" for n k
    using that below closed by (cases "n = m") auto
  ultimately show ?thesis unfolding search_inv_def by (simp split: if_splits)
qed

text \<open>The search below a node: either a cycle, or every known neighbour is black and the stack is as it was.\<close>

lemma visit_list_spec:
  "search_inv g c st \<Longrightarrow> st \<noteq> [] \<Longrightarrow> \<forall>m \<in> set ms. m \<in> set (graph_nodes g) \<longrightarrow> (last st, m) \<in> edges g
    \<Longrightarrow> (case visit_list g c st ms of
           (Some ns, _) \<Rightarrow> is_cycle g ns
         | (None, c', st') \<Rightarrow> st' = st \<and> search_inv g c' st \<and> (\<forall>n. c n = BLACK \<longrightarrow> c' n = BLACK)
             \<and> (\<forall>m \<in> set ms. m \<in> set (graph_nodes g) \<longrightarrow> c' m = BLACK))"
proof (induction g c st ms rule: visit_list.induct)
  case (1 g c st)
  then show ?case by simp
next
  case (2 g c st m ms)
  show ?case
  proof (cases "m \<in> set (graph_nodes g)")
    case False
    with 2 show ?thesis by (auto split: prod.splits option.splits)
  next
    case known: True
    with 2 have e: "(last st, m) \<in> edges g" by simp
    show ?thesis
    proof (cases "c m")
      case GRAY
      with 2(5) have "m \<in> set st" by (simp add: search_inv_def)
      then obtain u v where st: "st = u @ m # v" "m \<notin> set u" by (meson split_list_first)
      then have d: "dropWhile (\<lambda>n. n \<noteq> m) st = m # v" by (induction u arbitrary: st) auto
      have "walk g (m # v)" using 2(5) st by (simp add: search_inv_def walk_def successively_append_iff)
      moreover have "(last (m # v), m) \<in> edges g" using e st by simp
      ultimately have "walk g ((m # v) @ [m])" unfolding walk_snoc by simp
      then show ?thesis using known GRAY d by (simp add: is_cycle_def)
    next
      case BLACK
      with 2 known show ?thesis by (auto split: prod.splits option.splits)
    next
      case WHITE
      obtain f c' st' where r: "visit_list g (c(m := GRAY)) (st @ [m]) (neighbours g m) = (f, c', st')"
        by (cases "visit_list g (c(m := GRAY)) (st @ [m]) (neighbours g m)")
      have enter: "search_inv g (c(m := GRAY)) (st @ [m])"
        using 2(5) WHITE known e by (intro search_enter) auto
      have below: "case (f, c', st') of (Some ns, _) \<Rightarrow> is_cycle g ns
         | (None, c', st') \<Rightarrow> st' = st @ [m] \<and> search_inv g c' (st @ [m])
             \<and> (\<forall>n. (c(m := GRAY)) n = BLACK \<longrightarrow> c' n = BLACK)
             \<and> (\<forall>k \<in> set (neighbours g m). k \<in> set (graph_nodes g) \<longrightarrow> c' k = BLACK)"
        unfolding r [symmetric] by (rule 2(2) [OF _ WHITE enter]) (use known in \<open>auto simp: edges_def\<close>)
      show ?thesis
      proof (cases f)
        case (Some ns)
        with below known WHITE r show ?thesis by simp
      next
        case None
        with below have b: "st' = st @ [m]" "search_inv g c' (st @ [m])" "\<And>n. c n = BLACK \<Longrightarrow> c' n = BLACK"
          "\<And>k. (m, k) \<in> edges g \<Longrightarrow> c' k = BLACK"
          using WHITE by (auto simp: edges_def split: if_splits)
        have "m \<notin> set st" using 2(5) WHITE by (metis colour.distinct(1) search_inv_def)
        then have leave: "search_inv g (c'(m := BLACK)) st" using b by (intro search_leave)
        have "case visit_list g (c'(m := BLACK)) st ms of (Some ns, _) \<Rightarrow> is_cycle g ns
         | (None, c'', st'') \<Rightarrow> st'' = st \<and> search_inv g c'' st \<and> (\<forall>n. (c'(m := BLACK)) n = BLACK \<longrightarrow> c'' n = BLACK)
             \<and> (\<forall>m \<in> set ms. m \<in> set (graph_nodes g) \<longrightarrow> c'' m = BLACK)"
        proof -
          have sb: "butlast st' = st" using b(1) by simp
          show ?thesis by (rule 2(3) [OF _ WHITE r [symmetric] None refl, unfolded sb])
              (use known leave 2(6,7) in \<open>auto simp del: fun_upd_apply\<close>)
        qed
        then show ?thesis using known WHITE r None b(1,3) by (auto split: prod.splits option.splits if_splits)
      qed
    qed
  qed
qed

lemma visit_spec:
  assumes inv: "search_inv g c []" and n: "n \<in> set (graph_nodes g)" "c n = WHITE"
  shows "case visit g c [] n of
           (Some ns, _) \<Rightarrow> is_cycle g ns
         | (None, c', st') \<Rightarrow> st' = [] \<and> search_inv g c' [] \<and> (\<forall>k. c k = BLACK \<longrightarrow> c' k = BLACK) \<and> c' n = BLACK"
proof -
  have enter: "search_inv g (c(n := GRAY)) ([] @ [n])" using inv n by (intro search_enter) auto
  have "case visit_list g (c(n := GRAY)) ([] @ [n]) (neighbours g n) of
           (Some ns, _) \<Rightarrow> is_cycle g ns
         | (None, c', st') \<Rightarrow> st' = [] @ [n] \<and> search_inv g c' ([] @ [n]) \<and> (\<forall>k. (c(n := GRAY)) k = BLACK \<longrightarrow> c' k = BLACK)
             \<and> (\<forall>m \<in> set (neighbours g n). m \<in> set (graph_nodes g) \<longrightarrow> c' m = BLACK)"
    by (rule visit_list_spec [OF enter]) (use n in \<open>auto simp: edges_def\<close>)
  then show ?thesis using n search_leave [of g _ "[]" n]
    by (auto simp: visit_def edges_def split: prod.splits option.splits)
qed

lemma visit_roots_spec:
  "search_inv g c [] \<Longrightarrow> set ns \<subseteq> set (graph_nodes g) \<Longrightarrow>
    (case visit_roots g c [] ns of
       Some cyc \<Rightarrow> is_cycle g cyc
     | None \<Rightarrow> (\<exists>c'. search_inv g c' [] \<and> (\<forall>k. c k = BLACK \<longrightarrow> c' k = BLACK) \<and> (\<forall>n \<in> set ns. c' n = BLACK)))"
proof (induction ns arbitrary: c)
  case Nil
  then show ?case by auto
next
  case (Cons n ns)
  show ?case
  proof (cases "c n = WHITE")
    case white: True
    obtain f c' st' where r: "visit g c [] n = (f, c', st')" by (cases "visit g c [] n")
    have v: "case (f, c', st') of (Some ns, _) \<Rightarrow> is_cycle g ns
         | (None, c', st') \<Rightarrow> st' = [] \<and> search_inv g c' [] \<and> (\<forall>k. c k = BLACK \<longrightarrow> c' k = BLACK) \<and> c' n = BLACK"
      unfolding r [symmetric] by (rule visit_spec) (use Cons.prems white in auto)
    show ?thesis
    proof (cases f)
      case (Some cyc)
      with v white r show ?thesis by simp
    next
      case None
      with v have b: "st' = []" "search_inv g c' []" "\<And>k. c k = BLACK \<Longrightarrow> c' k = BLACK" "c' n = BLACK" by auto
      from Cons.IH [OF b(2)] Cons.prems(2) b white r None show ?thesis
        by (auto split: option.splits)
    qed
  next
    case False
    moreover have "c n \<noteq> GRAY" using Cons.prems(1) by (simp add: search_inv_def)
    ultimately have "c n = BLACK" by (cases "c n") auto
    with Cons.IH [OF Cons.prems(1)] Cons.prems(2) show ?thesis by (auto split: option.splits)
  qed
qed

lemma find_cycle_spec:
  "(case find_cycle g of Some cyc \<Rightarrow> is_cycle g cyc | None \<Rightarrow> acyclic (edges g))"
proof -
  have "search_inv g (\<lambda>_. WHITE) []" by (simp add: search_inv_def walk_def)
  from visit_roots_spec [OF this, of "graph_nodes g"] show ?thesis
  proof (cases "find_cycle g")
    case None
    with visit_roots_spec [OF \<open>search_inv g (\<lambda>_. WHITE) []\<close>, of "graph_nodes g"]
    obtain c where c: "search_inv g c []" "\<forall>n \<in> set (graph_nodes g). c n = BLACK" by (auto simp: find_cycle_def)
    have "(n, n) \<notin> (edges g)\<^sup>+" for n
    proof
      assume cyc: "(n, n) \<in> (edges g)\<^sup>+"
      then have "n \<in> set (graph_nodes g)" by (auto dest: tranclD simp: edges_def)
      with c cyc show False by (auto simp: search_inv_def)
    qed
    with None show ?thesis by (simp add: acyclic_def)
  qed (simp add: find_cycle_def)
qed

theorem find_cycle_none_iff: "find_cycle g = None \<longleftrightarrow> acyclic (edges g)"
  using find_cycle_spec [of g] cycle_is_cyclic [of g] by (auto split: option.splits)

subsection \<open>The longest path\<close>

text \<open>
  \<open>depth\<close> with its inner loop: \<open>memo\<close> is shared by all calls, \<open>visiting\<close> holds the nodes of the current path, \<open>best\<close>
  the result of the loop so far. A node on the current path counts as a leaf.
\<close>

lemma fewer_left: "m \<in> set ks \<Longrightarrow> m \<notin> set vs \<Longrightarrow> card (set ks - insert m (set vs)) < card (set ks - set vs)"
  by (rule psubset_card_mono) auto

function (sequential) depth_list ::
  "adjacency \<Rightarrow> string list \<Rightarrow> (string \<rightharpoonup> nat) \<Rightarrow> nat \<Rightarrow> string list \<Rightarrow> nat \<times> (string \<rightharpoonup> nat)" where
  "depth_list g visiting memo best [] = (best, memo)"
| "depth_list g visiting memo best (m # ms) =
     (if m \<notin> set (graph_nodes g) then depth_list g visiting memo best ms
      else (case memo m of
              Some d \<Rightarrow> depth_list g visiting memo (max best (1 + d)) ms
            | None \<Rightarrow>
                if m \<in> set visiting then depth_list g visiting memo (max best 1) ms
                else (case depth_list g (m # visiting) memo 0 (neighbours g m) of
                        (d, memo') \<Rightarrow> depth_list g visiting (memo'(m \<mapsto> d)) (max best (1 + d)) ms)))"
  by pat_completeness auto

termination
  by (relation "measures [\<lambda>(g, visiting, memo, best, ms). card (set (graph_nodes g) - set visiting),
                          \<lambda>(g, visiting, memo, best, ms). length ms]")
    (auto simp del: card_Diff_insert intro: fewer_left)

definition depth :: "adjacency \<Rightarrow> string list \<Rightarrow> (string \<rightharpoonup> nat) \<Rightarrow> string \<Rightarrow> nat \<times> (string \<rightharpoonup> nat)" where
  "depth g visiting memo n =
     (case memo n of
        Some d \<Rightarrow> (d, memo)
      | None \<Rightarrow>
          if n \<in> set visiting then (0, memo)
          else (case depth_list g (n # visiting) memo 0 (neighbours g n) of (d, memo') \<Rightarrow> (d, memo'(n \<mapsto> d))))"

fun depth_roots :: "adjacency \<Rightarrow> (string \<rightharpoonup> nat) \<Rightarrow> nat \<Rightarrow> string list \<Rightarrow> nat" where
  "depth_roots g memo best [] = best"
| "depth_roots g memo best (n # ns) =
     (case depth g [] memo n of (d, memo') \<Rightarrow> depth_roots g memo' (max best d) ns)"

definition longest_dependency_depth :: "adjacency \<Rightarrow> nat" where
  "longest_dependency_depth g = depth_roots g Map.empty 0 (graph_nodes g)"

text \<open>\<open>height g n d\<close>: the longest walk from \<open>n\<close> has \<open>d\<close> edges.\<close>

definition height :: "adjacency \<Rightarrow> string \<Rightarrow> nat \<Rightarrow> bool" where
  "height g n d =
     ((\<exists>ns. walk g (n # ns) \<and> length ns = d) \<and> (\<forall>ns. walk g (n # ns) \<longrightarrow> length ns \<le> d))"

definition memo_right :: "adjacency \<Rightarrow> (string \<rightharpoonup> nat) \<Rightarrow> bool" where
  "memo_right g memo = (\<forall>m d. memo m = Some d \<longrightarrow> height g m d)"

lemma memo_right_update: "memo_right g memo \<Longrightarrow> height g m d \<Longrightarrow> memo_right g (memo(m \<mapsto> d))"
  by (simp add: memo_right_def)

text \<open>\<open>best\<close> is the longest continuation through the neighbours \<open>ms\<close>, starting from \<open>b\<close>.\<close>

definition best_of :: "adjacency \<Rightarrow> nat \<Rightarrow> string list \<Rightarrow> nat \<Rightarrow> bool" where
  "best_of g b ms best =
     (b \<le> best \<and> (\<forall>m \<in> set ms. m \<in> set (graph_nodes g) \<longrightarrow> (\<exists>d. height g m d \<and> 1 + d \<le> best))
      \<and> (best = b \<or> (\<exists>m \<in> set ms. m \<in> set (graph_nodes g) \<and> (\<exists>d. height g m d \<and> best = 1 + d))))"

lemma best_of_Cons:
  "height g m d \<Longrightarrow> m \<in> set (graph_nodes g) \<Longrightarrow> best_of g (max b (1 + d)) ms best \<Longrightarrow> best_of g b (m # ms) best"
  unfolding best_of_def by (auto simp: max_def split: if_splits)

lemma best_of_unknown: "m \<notin> set (graph_nodes g) \<Longrightarrow> best_of g b ms best \<Longrightarrow> best_of g b (m # ms) best"
  unfolding best_of_def by auto

lemma height_of_neighbours:
  assumes n: "n \<in> set (graph_nodes g)" and best: "best_of g 0 (neighbours g n) d"
  shows "height g n d"
proof -
  have "length ns \<le> d" if w: "walk g (n # ns)" for ns
  proof (cases ns)
    case (Cons m ms)
    with w have e: "(n, m) \<in> edges g" "walk g (m # ms)" by (simp_all add: walk_def)
    with best obtain k where "height g m k" "1 + k \<le> d" by (auto simp: best_of_def edges_def)
    with e Cons show ?thesis by (auto simp: height_def)
  qed simp
  moreover have "\<exists>ns. walk g (n # ns) \<and> length ns = d"
  proof (cases "d = 0")
    case True
    then show ?thesis by (intro exI [of _ "[]"]) (simp add: walk_def)
  next
    case False
    with best obtain m k where m: "m \<in> set (neighbours g n)" "m \<in> set (graph_nodes g)" "height g m k" "d = 1 + k"
      by (auto simp: best_of_def)
    then obtain ms where "walk g (m # ms)" "length ms = k" by (auto simp: height_def)
    with m n show ?thesis by (intro exI [of _ "m # ms"]) (simp add: walk_def edges_def)
  qed
  ultimately show ?thesis by (auto simp: height_def)
qed

text \<open>On an acyclic graph no neighbour of the current node is on the current path, so nothing counts as a leaf wrongly.\<close>

lemma depth_list_spec:
  assumes "acyclic (edges g)"
  shows "memo_right g memo \<Longrightarrow>
    (\<forall>v \<in> set visiting. \<forall>m \<in> set ms. m \<in> set (graph_nodes g) \<longrightarrow> (v, m) \<in> (edges g)\<^sup>+) \<Longrightarrow>
    (case depth_list g visiting memo b ms of (best, memo') \<Rightarrow> memo_right g memo' \<and> best_of g b ms best)"
  using assms
proof (induction g visiting memo b ms rule: depth_list.induct)
  case (1 g visiting memo b)
  then show ?case by (simp add: best_of_def)
next
  case (2 g visiting memo b m ms)
  note acyc = \<open>acyclic (edges g)\<close>
  show ?case
  proof (cases "m \<in> set (graph_nodes g)")
    case False
    with 2 show ?thesis by (auto split: prod.splits intro: best_of_unknown)
  next
    case known: True
    show ?thesis
    proof (cases "memo m")
      case (Some d)
      with 2(6) have h: "height g m d" by (simp add: memo_right_def)
      have "case depth_list g visiting memo (max b (1 + d)) ms of
              (best, memo') \<Rightarrow> memo_right g memo' \<and> best_of g (max b (1 + d)) ms best"
        by (rule 2(5) [OF _ Some]) (use known 2(6,7) acyc in auto)
      with known Some h show ?thesis by (auto split: prod.splits intro: best_of_Cons)
    next
      case None
      have off: "m \<notin> set visiting" using 2(7) known acyc by (auto simp: acyclic_def)
      obtain d memo' where r: "depth_list g (m # visiting) memo 0 (neighbours g m) = (d, memo')"
        by (cases "depth_list g (m # visiting) memo 0 (neighbours g m)")
      have reach: "\<forall>v \<in> set (m # visiting). \<forall>k \<in> set (neighbours g m). k \<in> set (graph_nodes g) \<longrightarrow> (v, k) \<in> (edges g)\<^sup>+"
        using 2(7) known by (auto simp: edges_def intro: trancl_into_trancl)
      have below: "case depth_list g (m # visiting) memo 0 (neighbours g m) of
              (best, memo') \<Rightarrow> memo_right g memo' \<and> best_of g 0 (neighbours g m) best"
        by (rule 2(3) [OF _ None off 2(6) reach acyc]) (use known in simp)
      with r have right: "memo_right g memo'" "height g m d"
        using height_of_neighbours [OF known] by simp_all
      have "case depth_list g visiting (memo'(m \<mapsto> d)) (max b (1 + d)) ms of
              (best, memo'') \<Rightarrow> memo_right g memo'' \<and> best_of g (max b (1 + d)) ms best"
        by (rule 2(4) [OF _ None off r [symmetric]]) (use known right 2(7) acyc in \<open>auto simp del: fun_upd_apply intro: memo_right_update\<close>)
      with known None off r right show ?thesis by (auto split: prod.splits intro: best_of_Cons)
    qed
  qed
qed

lemma depth_spec:
  assumes acyc: "acyclic (edges g)" and right: "memo_right g memo" and n: "n \<in> set (graph_nodes g)"
  shows "case depth g [] memo n of (d, memo') \<Rightarrow> memo_right g memo' \<and> height g n d"
proof (cases "memo n")
  case (Some d)
  with right show ?thesis by (simp add: depth_def memo_right_def)
next
  case None
  have "case depth_list g [n] memo 0 (neighbours g n) of
          (d, memo') \<Rightarrow> memo_right g memo' \<and> best_of g 0 (neighbours g n) d"
    by (rule depth_list_spec [OF acyc right]) (use n in \<open>auto simp: edges_def\<close>)
  with None height_of_neighbours [OF n] show ?thesis
    by (auto simp: depth_def split: prod.splits intro: memo_right_update)
qed

lemma depth_roots_spec:
  "acyclic (edges g) \<Longrightarrow> memo_right g memo \<Longrightarrow> set ns \<subseteq> set (graph_nodes g) \<Longrightarrow>
    b \<le> depth_roots g memo b ns
    \<and> (\<forall>n \<in> set ns. \<exists>d. height g n d \<and> d \<le> depth_roots g memo b ns)
    \<and> (depth_roots g memo b ns = b \<or> (\<exists>n \<in> set ns. height g n (depth_roots g memo b ns)))"
proof (induction ns arbitrary: memo b)
  case Nil
  then show ?case by simp
next
  case (Cons n ns)
  obtain d memo' where r: "depth g [] memo n = (d, memo')" by (cases "depth g [] memo n")
  with depth_spec [OF Cons.prems(1,2), of n] Cons.prems(3) have "memo_right g memo'" "height g n d" by simp_all
  with Cons.IH [of memo' "max b d"] Cons.prems r show ?case by (auto simp: max_def split: if_splits)
qed

lemma walk_starts_known: "walk g (n # m # ns) \<Longrightarrow> n \<in> set (graph_nodes g)"
  by (auto simp: walk_def edges_def)

lemma walk_known: "walk g (n # ns) \<Longrightarrow> set ns \<subseteq> set (graph_nodes g)"
proof (induction ns arbitrary: n)
  case (Cons m ns)
  then have "(n, m) \<in> edges g" "walk g (m # ns)" by (simp_all add: walk_def)
  with Cons.IH [of m] show ?case by (auto simp: edges_def)
qed simp

theorem longest_dependency_depth_spec:
  assumes "acyclic (edges g)"
  shows "walk g ns \<Longrightarrow> length ns \<le> Suc (longest_dependency_depth g)"
    and "g \<noteq> [] \<Longrightarrow> \<exists>ns. walk g ns \<and> set ns \<subseteq> set (graph_nodes g) \<and> length ns = Suc (longest_dependency_depth g)"
proof -
  have d: "(\<forall>n \<in> set (graph_nodes g). \<exists>d. height g n d \<and> d \<le> longest_dependency_depth g)"
    "longest_dependency_depth g = 0 \<or> (\<exists>n \<in> set (graph_nodes g). height g n (longest_dependency_depth g))"
    using depth_roots_spec [OF assms, of Map.empty "graph_nodes g" 0]
    by (auto simp: memo_right_def longest_dependency_depth_def)
  show "length ns \<le> Suc (longest_dependency_depth g)" if w: "walk g ns"
  proof (cases ns rule: remdups_adj.cases)
    case (3 n m ms)
    with w d(1) walk_starts_known [of g n m ms] obtain k where "height g n k" "k \<le> longest_dependency_depth g" by auto
    with 3 w show ?thesis by (fastforce simp: height_def)
  qed simp_all
  show "\<exists>ns. walk g ns \<and> set ns \<subseteq> set (graph_nodes g) \<and> length ns = Suc (longest_dependency_depth g)" if "g \<noteq> []"
  proof (cases "longest_dependency_depth g = 0")
    case True
    have "walk g [fst (hd g)]" by (simp add: walk_def)
    with True that show ?thesis by (intro exI [of _ "[fst (hd g)]"]) (simp add: graph_nodes_def)
  next
    case False
    with d(2) obtain n ms where w: "walk g (n # ms)" "length ms = longest_dependency_depth g" "n \<in> set (graph_nodes g)"
      by (auto simp: height_def)
    then show ?thesis using walk_known [OF w(1)] by (intro exI [of _ "n # ms"]) simp
  qed
qed

end
