(* ===== verification/Plan_Validation.thy ===== *)
theory Plan_Validation
  imports Slice_Graph Patch_Policy Verification_Run
begin

section \<open>Architecture plans and their validation (architect/schema.py, architect/validation.py)\<close>

text \<open>
  A planner's proposal and the deterministic judgement over it. \<open>validate_plan\<close> is written section by section, in the
  order of the code, each section a list of findings. A finding keeps its code, the identifiers its message names and
  its slice. Of the plan the fields are kept that some decision of the harness reads; descriptive texts are left out.
\<close>

subsection \<open>Schema\<close>

datatype runtime_boundary =
    UNSPECIFIED_BOUNDARY | IN_PROCESS | SAME_ORIGIN_HTTP | CROSS_ORIGIN_HTTP | FILESYSTEM | SUBPROCESS

record architecture_component =
  co_id :: string
  co_dependencies :: "string list"

record integration_contract =
  ic_id :: string
  ic_producer :: string
  ic_consumers :: "string list"
  ic_boundary :: runtime_boundary

record hard_problem =
  hp_id :: string
  hp_components :: "string list"

record implementation_slice =
  is_id :: string
  is_objective :: string
  is_exclusions :: "string list"
  is_dependencies :: "string list"
  is_constraints :: "string list"
  is_criteria :: "string list"
  is_components :: "string list"
  is_contracts :: "string list"
  is_problems :: "string list"
  is_paths :: "string list"
  is_symbols :: "string list"
  is_commands :: "string list"
  is_assumptions :: "string list"
  is_interfaces :: "string list"
  is_risk :: risk_level
  is_stops :: "string list"
  is_failures :: "string list"
  is_tests :: "string list"
  is_brief :: string

record delivery_contract =
  dc_documentation :: string
  dc_artifacts :: "string list"
  dc_launch_command :: string
  dc_launch_excuse :: string

record proof_obligation =
  po_criterion :: string
  po_commands :: "string list"

record end_to_end_scenario =
  ee_id :: string
  ee_commands :: "string list"

record verification_strategy =
  vs_whole_project :: "string list"
  vs_obligations :: "proof_obligation list"
  vs_scenarios :: "end_to_end_scenario list"

record architecture_plan =
  ap_summary :: string
  ap_decisions :: "string list"
  ap_constraints :: "hard_constraint list"
  ap_criteria :: "acceptance_criterion list"
  ap_slices :: "implementation_slice list"
  ap_components :: "architecture_component list"
  ap_contracts :: "integration_contract list"
  ap_problems :: "hard_problem list"
  ap_delivery :: delivery_contract
  ap_strategy :: verification_strategy

record plan_ceilings =
  pc_slices :: nat
  pc_depth :: nat
  pc_paths :: nat
  pc_criteria :: nat
  pc_brief :: nat

datatype finding_severity = SEVERITY_ERROR | SEVERITY_WARNING

datatype finding_code =
    DUPLICATE_ID | UNKNOWN_COMPONENT_REFERENCE | UNKNOWN_CRITERION_REFERENCE | UNKNOWN_VERIFICATION_COMMAND
  | TOO_MANY_SLICES | MISSING_DEPENDENCY | UNKNOWN_CONSTRAINT_REFERENCE | UNKNOWN_CONTRACT_REFERENCE
  | UNKNOWN_HARD_PROBLEM_REFERENCE | MISSING_VERIFICATION_INTENT | MISSING_ACCEPTANCE_CRITERIA
  | MISSING_TEST_OBLIGATIONS | UNASSIGNED_TEST_DISCOVERY_ROOT | UNSAFE_SUGGESTED_PATH | TOO_MANY_SUGGESTED_PATHS
  | TOO_MANY_CRITERIA | WORK_BRIEF_TOO_LONG | UNREPRESENTED_HARD_CONSTRAINT | DEPENDENCY_CYCLE
  | DEPENDENCY_DEPTH_EXCEEDED | MISSING_WHOLE_PROJECT_VERIFICATION | UNASSIGNED_INTEGRATION_CONTRACT
  | UNASSIGNED_DELIVERY_ARTIFACT | MISSING_PRIMARY_DOCUMENTATION | UNSAFE_PRIMARY_DOCUMENTATION_PATH
  | AMBIGUOUS_LAUNCH_CONTRACT | MISSING_LAUNCH_CONTRACT | LAUNCH_COMMAND_NOT_WHOLE_PROJECT
  | UNVERIFIED_END_TO_END_SCENARIO | INTEGRATION_WITHOUT_END_TO_END_PROOF | INTEGRATION_FORBIDDEN_BY_VERIFICATION

record plan_finding =
  fi_severity :: finding_severity
  fi_code :: finding_code
  fi_names :: "string list"
  fi_slice :: "string option"

record plan_validation =
  pv_version :: int
  pv_valid :: bool
  pv_findings :: "plan_finding list"

definition plan_validation_well_formed :: "plan_validation \<Rightarrow> bool" where
  "plan_validation_well_formed v =
     (pv_valid v \<noteq> list_ex (\<lambda>f. fi_severity f = SEVERITY_ERROR) (pv_findings v))"

subsection \<open>Paths and roots\<close>

definition is_safe_relative_path :: "path \<Rightarrow> bool" where
  "is_safe_relative_path p =
     (if p = [] \<or> char_of (0::nat) \<in> set p then False
      else (let n = replace_char backslash (CHR ''/'') p in
            if starts_with n ''/'' then False
            else if 2 \<le> length n \<and> n ! 1 = CHR '':'' then False
            else ''..'' \<notin> set (pure_parts n)))"

definition claims_path :: "path list \<Rightarrow> string \<Rightarrow> bool" where
  "claims_path suggested base =
     (let parts_of = (\<lambda>p. pure_parts (strip_of [CHR ''/''] (replace_char backslash (CHR ''/'') p))); target = parts_of base
      in list_ex (\<lambda>c. parts_of c = target \<or> take (length target) (parts_of c) = target) suggested)"

text \<open>A dictionary built from a list of pairs: later pairs win.\<close>

definition dict_of :: "('k \<times> 'v) list \<Rightarrow> 'k \<rightharpoonup> 'v" where
  "dict_of kvs = map_of (rev kvs)"

definition discovery_roots_by_command :: "verification_command list option \<Rightarrow> string \<rightharpoonup> string list" where
  "discovery_roots_by_command cmds =
     (case cmds of None \<Rightarrow> Map.empty | Some cs \<Rightarrow> dict_of (map (\<lambda>c. (vc_name c, resolved_discovery_roots c)) cs))"

definition slice_discovery_roots :: "implementation_slice \<Rightarrow> (string \<rightharpoonup> string list) \<Rightarrow> string list" where
  "slice_discovery_roots s by_command =
     dedup_by id [] (concat (map (\<lambda>c. case by_command c of None \<Rightarrow> [] | Some rs \<Rightarrow> rs) (is_commands s)))"

text \<open>\<open>{item.slice_id: list(item.dependencies) ...}\<close>: a repeated key keeps its place and takes the last value.\<close>

fun dict_put :: "'k \<Rightarrow> 'v \<Rightarrow> ('k \<times> 'v) list \<Rightarrow> ('k \<times> 'v) list" where
  "dict_put k v [] = [(k, v)]"
| "dict_put k v ((k', v') # kvs) = (if k = k' then (k, v) # kvs else (k', v') # dict_put k v kvs)"

definition slice_graph :: "implementation_slice list \<Rightarrow> adjacency" where
  "slice_graph slices = foldl (\<lambda>g s. dict_put (is_id s) (is_dependencies s) g) [] slices"

subsection \<open>The sections of the validator\<close>

definition error :: "finding_code \<Rightarrow> string list \<Rightarrow> plan_finding" where
  "error code names = \<lparr>fi_severity = SEVERITY_ERROR, fi_code = code, fi_names = names, fi_slice = None\<rparr>"

definition slice_error :: "implementation_slice \<Rightarrow> finding_code \<Rightarrow> string list \<Rightarrow> plan_finding" where
  "slice_error s code names =
     \<lparr>fi_severity = SEVERITY_ERROR, fi_code = code, fi_names = names, fi_slice = Some (is_id s)\<rparr>"

text \<open>\<open>check c f\<close>: the finding \<open>f\<close> where the condition holds; \<open>unknown\<close> is the loop over references.\<close>

definition check :: "bool \<Rightarrow> plan_finding \<Rightarrow> plan_finding list" where
  "check c f = (if c then [f] else [])"

definition unknown :: "string list \<Rightarrow> (string \<Rightarrow> plan_finding) \<Rightarrow> string list \<Rightarrow> plan_finding list" where
  "unknown known f refs = map f (filter (\<lambda>r. r \<notin> set known) refs)"

fun duplicates :: "string list \<Rightarrow> string list \<Rightarrow> string list" where
  "duplicates seen [] = []"
| "duplicates seen (x # xs) = (if x \<in> set seen then [x] else []) @ duplicates (x # seen) xs"

definition component_ids :: "architecture_plan \<Rightarrow> string list" where
  "component_ids plan = map co_id (ap_components plan)"

definition plan_id_lists :: "architecture_plan \<Rightarrow> string list list" where
  "plan_id_lists plan =
     [ap_decisions plan, map is_id (ap_slices plan), map hc_id (ap_constraints plan), map cn_id (ap_criteria plan),
      component_ids plan, map ic_id (ap_contracts plan), map hp_id (ap_problems plan)]"

definition duplicate_findings :: "architecture_plan \<Rightarrow> plan_finding list" where
  "duplicate_findings plan =
     concat (map (\<lambda>ids. map (\<lambda>i. error DUPLICATE_ID [i]) (duplicates [] ids)) (plan_id_lists plan))"

definition component_findings :: "architecture_plan \<Rightarrow> plan_finding list" where
  "component_findings plan =
     (let known = component_ids plan; ref = (\<lambda>owner r. error UNKNOWN_COMPONENT_REFERENCE [owner, r]) in
      concat (map (\<lambda>c. unknown known (ref (co_id c)) (co_dependencies c)) (ap_components plan))
      @ concat (map (\<lambda>c. unknown known (ref (ic_id c)) (ic_producer c # ic_consumers c)) (ap_contracts plan))
      @ concat (map (\<lambda>p. unknown known (ref (hp_id p)) (hp_components p)) (ap_problems plan)))"

definition strategy_findings :: "string list \<Rightarrow> architecture_plan \<Rightarrow> plan_finding list" where
  "strategy_findings configured plan =
     (let st = ap_strategy plan in
      concat (map (\<lambda>ob. unknown (map cn_id (ap_criteria plan)) (\<lambda>r. error UNKNOWN_CRITERION_REFERENCE [r]) [po_criterion ob]
                @ unknown configured (\<lambda>r. error UNKNOWN_VERIFICATION_COMMAND [r]) (po_commands ob)) (vs_obligations st))
      @ concat (map (\<lambda>e. unknown configured (\<lambda>r. error UNKNOWN_VERIFICATION_COMMAND [ee_id e, r]) (ee_commands e))
                (vs_scenarios st))
      @ unknown configured (\<lambda>r. error UNKNOWN_VERIFICATION_COMMAND [r]) (vs_whole_project st))"

definition size_findings :: "plan_ceilings \<Rightarrow> architecture_plan \<Rightarrow> plan_finding list" where
  "size_findings ceil plan = check (length (ap_slices plan) > pc_slices ceil) (error TOO_MANY_SLICES [])"

definition slice_reference_findings :: "string list \<Rightarrow> architecture_plan \<Rightarrow> implementation_slice \<Rightarrow> plan_finding list" where
  "slice_reference_findings configured plan s =
     unknown (map is_id (ap_slices plan)) (\<lambda>r. slice_error s MISSING_DEPENDENCY [r]) (is_dependencies s)
     @ unknown (map hc_id (ap_constraints plan)) (\<lambda>r. slice_error s UNKNOWN_CONSTRAINT_REFERENCE [r]) (is_constraints s)
     @ unknown (map cn_id (ap_criteria plan)) (\<lambda>r. slice_error s UNKNOWN_CRITERION_REFERENCE [r]) (is_criteria s)
     @ unknown (component_ids plan) (\<lambda>r. slice_error s UNKNOWN_COMPONENT_REFERENCE [r]) (is_components s)
     @ unknown (map ic_id (ap_contracts plan)) (\<lambda>r. slice_error s UNKNOWN_CONTRACT_REFERENCE [r]) (is_contracts s)
     @ unknown (map hp_id (ap_problems plan)) (\<lambda>r. slice_error s UNKNOWN_HARD_PROBLEM_REFERENCE [r]) (is_problems s)
     @ unknown configured (\<lambda>r. slice_error s UNKNOWN_VERIFICATION_COMMAND [r]) (is_commands s)"

definition slice_content_findings ::
  "plan_ceilings \<Rightarrow> (string \<rightharpoonup> string list) \<Rightarrow> implementation_slice \<Rightarrow> plan_finding list" where
  "slice_content_findings ceil roots s =
     check (is_commands s = []) (slice_error s MISSING_VERIFICATION_INTENT [])
     @ check (is_criteria s = []) (slice_error s MISSING_ACCEPTANCE_CRITERIA [])
     @ check (is_tests s = []) (slice_error s MISSING_TEST_OBLIGATIONS [])
     @ (if is_tests s = [] then []
        else map (\<lambda>r. slice_error s UNASSIGNED_TEST_DISCOVERY_ROOT [r])
               (filter (\<lambda>r. \<not> claims_path (is_paths s) r) (slice_discovery_roots s roots)))
     @ map (\<lambda>p. slice_error s UNSAFE_SUGGESTED_PATH [p]) (filter (\<lambda>p. \<not> is_safe_relative_path p) (is_paths s))
     @ check (length (is_paths s) > pc_paths ceil) (slice_error s TOO_MANY_SUGGESTED_PATHS [])
     @ check (length (is_constraints s) + length (is_criteria s) > pc_criteria ceil) (slice_error s TOO_MANY_CRITERIA [])
     @ check (length (is_brief s) > pc_brief ceil) (slice_error s WORK_BRIEF_TOO_LONG [])"

definition slice_findings ::
  "string list \<Rightarrow> plan_ceilings \<Rightarrow> verification_command list option \<Rightarrow> architecture_plan \<Rightarrow> plan_finding list" where
  "slice_findings configured ceil cmds plan =
     concat (map (\<lambda>s. slice_reference_findings configured plan s
                    @ slice_content_findings ceil (discovery_roots_by_command cmds) s) (ap_slices plan))"

text \<open>Active constraints that no slice inherits, sorted.\<close>

definition unrepresented_findings :: "architecture_plan \<Rightarrow> plan_finding list" where
  "unrepresented_findings plan =
     (let active = map hc_id (filter (\<lambda>c. hc_status c = ACTIVE) (ap_constraints plan));
          represented = filter (\<lambda>i. i \<in> set (map hc_id (ap_constraints plan))) (concat (map is_constraints (ap_slices plan)))
      in map (\<lambda>i. error UNREPRESENTED_HARD_CONSTRAINT [i]) (sort (remdups (filter (\<lambda>i. i \<notin> set represented) active))))"

definition graph_findings :: "plan_ceilings \<Rightarrow> architecture_plan \<Rightarrow> plan_finding list" where
  "graph_findings ceil plan =
     (let g = slice_graph (ap_slices plan) in
      case find_cycle g of
        Some cycle \<Rightarrow> [error DEPENDENCY_CYCLE cycle]
      | None \<Rightarrow> check (longest_dependency_depth g > pc_depth ceil) (error DEPENDENCY_DEPTH_EXCEEDED []))"

definition assigned_paths :: "architecture_plan \<Rightarrow> path list" where
  "assigned_paths plan = concat (map is_paths (ap_slices plan))"

definition assignment_findings :: "architecture_plan \<Rightarrow> plan_finding list" where
  "assignment_findings plan =
     check (vs_whole_project (ap_strategy plan) = []) (error MISSING_WHOLE_PROJECT_VERIFICATION [])
     @ map (\<lambda>c. error UNASSIGNED_INTEGRATION_CONTRACT [ic_id c])
         (filter (\<lambda>c. ic_id c \<notin> set (concat (map is_contracts (ap_slices plan)))) (ap_contracts plan))
     @ map (\<lambda>a. error UNASSIGNED_DELIVERY_ARTIFACT [a])
         (filter (\<lambda>a. a \<notin> set (assigned_paths plan)) (dc_artifacts (ap_delivery plan)))"

definition documentation_findings :: "architecture_plan \<Rightarrow> plan_finding list" where
  "documentation_findings plan =
     (let doc = dc_documentation (ap_delivery plan) in
      if doc = [] then [error MISSING_PRIMARY_DOCUMENTATION []]
      else if \<not> is_safe_relative_path doc then [error UNSAFE_PRIMARY_DOCUMENTATION_PATH [doc]]
      else if doc \<notin> set (assigned_paths plan) then [error UNASSIGNED_DELIVERY_ARTIFACT [doc]]
      else [])"

definition launch_findings :: "string list \<Rightarrow> architecture_plan \<Rightarrow> plan_finding list" where
  "launch_findings configured plan =
     (let launch = dc_launch_command (ap_delivery plan); excuse = dc_launch_excuse (ap_delivery plan) in
      if launch \<noteq> [] \<and> excuse \<noteq> [] then [error AMBIGUOUS_LAUNCH_CONTRACT [launch]]
      else if launch = [] \<and> excuse = [] then [error MISSING_LAUNCH_CONTRACT []]
      else if launch \<noteq> [] then
        (if launch \<notin> set configured then [error UNKNOWN_VERIFICATION_COMMAND [launch]]
         else if launch \<notin> set (vs_whole_project (ap_strategy plan)) then [error LAUNCH_COMMAND_NOT_WHOLE_PROJECT [launch]]
         else [])
      else [])"

definition scenario_findings :: "architecture_plan \<Rightarrow> plan_finding list" where
  "scenario_findings plan =
     concat (map (\<lambda>e. if ee_commands e = [] then [error UNVERIFIED_END_TO_END_SCENARIO [ee_id e]]
                      else (let unmapped = filter (\<lambda>n. n \<notin> set (vs_whole_project (ap_strategy plan))) (ee_commands e)
                            in check (unmapped \<noteq> []) (error UNVERIFIED_END_TO_END_SCENARIO (ee_id e # unmapped))))
              (vs_scenarios (ap_strategy plan)))"

definition networked :: "runtime_boundary list" where
  "networked = [SAME_ORIGIN_HTTP, CROSS_ORIGIN_HTTP]"

definition proven_end_to_end :: "verification_command list \<Rightarrow> architecture_plan \<Rightarrow> bool" where
  "proven_end_to_end cmds plan =
     list_ex (\<lambda>e. list_ex (\<lambda>n. n \<in> set (map vc_name (filter vc_acceptance cmds))
                             \<and> n \<in> set (vs_whole_project (ap_strategy plan))) (ee_commands e))
       (vs_scenarios (ap_strategy plan))"

definition boundary_forbidding_flags :: "(string \<times> runtime_boundary list) list" where
  "boundary_forbidding_flags =
     [(''--forbid-runtime-network-apis'', [SAME_ORIGIN_HTTP, CROSS_ORIGIN_HTTP]),
      (''--forbid-external-resources'', [CROSS_ORIGIN_HTTP])]"

text \<open>The commands that govern a contract: the whole-project ones and those of the slices that honour it, sorted.\<close>

definition governing_commands :: "architecture_plan \<Rightarrow> integration_contract \<Rightarrow> string list" where
  "governing_commands plan c =
     sort (remdups (vs_whole_project (ap_strategy plan)
       @ concat (map is_commands (filter (\<lambda>s. ic_id c \<in> set (is_contracts s)) (ap_slices plan)))))"

definition boundary_findings :: "verification_command list \<Rightarrow> architecture_plan \<Rightarrow> plan_finding list" where
  "boundary_findings cmds plan =
     map (\<lambda>c. error INTEGRATION_WITHOUT_END_TO_END_PROOF [ic_id c])
       (filter (\<lambda>c. ic_boundary c \<in> set networked \<and> \<not> proven_end_to_end cmds plan) (ap_contracts plan))
     @ concat (map (\<lambda>c. if ic_boundary c = UNSPECIFIED_BOUNDARY then []
           else concat (map (\<lambda>n.
                  case dict_of (map (\<lambda>k. (vc_name k, vc_argv k)) cmds) n of
                    None \<Rightarrow> []
                  | Some argv \<Rightarrow> map (\<lambda>(flag, _). error INTEGRATION_FORBIDDEN_BY_VERIFICATION [ic_id c, n, flag])
                      (filter (\<lambda>(flag, forbidden). flag \<in> set argv \<and> ic_boundary c \<in> set forbidden)
                        boundary_forbidding_flags))
                (governing_commands plan c))) (ap_contracts plan))"

text \<open>
  The optional full command objects add the checks that read an argument vector or a discovery root; without them
  those sections produce nothing.
\<close>

definition validate_plan ::
  "architecture_plan \<Rightarrow> string list \<Rightarrow> plan_ceilings \<Rightarrow> verification_command list option \<Rightarrow> plan_finding list" where
  "validate_plan plan configured ceil cmds =
     duplicate_findings plan @ component_findings plan @ strategy_findings configured plan @ size_findings ceil plan
     @ slice_findings configured ceil cmds plan @ unrepresented_findings plan @ graph_findings ceil plan
     @ assignment_findings plan @ documentation_findings plan @ launch_findings configured plan @ scenario_findings plan
     @ (case cmds of None \<Rightarrow> [] | Some cs \<Rightarrow> boundary_findings cs plan)"

text \<open>The judgement that \<open>validate_and_record_plan\<close> stores: findings of the plan against the current configuration.\<close>

definition plan_judgement ::
  "architecture_plan \<Rightarrow> int \<Rightarrow> verification_command list \<Rightarrow> plan_ceilings \<Rightarrow> plan_validation" where
  "plan_judgement plan version cmds ceil =
     (let findings = validate_plan plan (map vc_name cmds) ceil (Some cmds) in
      \<lparr>pv_version = version, pv_valid = \<not> list_ex (\<lambda>f. fi_severity f = SEVERITY_ERROR) findings,
       pv_findings = findings\<rparr>)"

end
