(* ===== verification/Plan_Facts.thy ===== *)
theory Plan_Facts
  imports Plan_Validation
begin

section \<open>What an accepted plan promises\<close>

text \<open>
  The declarative reading of the validator. A plan without findings has unique identifiers, resolvable references,
  slices within the ceilings, each with commands, criteria and collectable tests, an acyclic dependency relation with
  bounded chains, an owner for every constraint, contract and artifact, and checks that do not forbid what its contracts
  declare; and a plan with all of these has no finding.
\<close>

subsection \<open>The declarative reading\<close>

definition plan_depends :: "architecture_plan \<Rightarrow> (string \<times> string) set" where
  "plan_depends plan =
     {(is_id s, d) |s d. s \<in> set (ap_slices plan) \<and> d \<in> set (is_dependencies s) \<and> d \<in> is_id ` set (ap_slices plan)}"

text \<open>A chain of dependencies: consecutive slices depend on each other.\<close>

definition dependency_chain :: "architecture_plan \<Rightarrow> string list \<Rightarrow> bool" where
  "dependency_chain plan ns = successively (\<lambda>a b. (a, b) \<in> plan_depends plan) ns"

definition ids_unique :: "architecture_plan \<Rightarrow> bool" where
  "ids_unique plan =
     (distinct (ap_decisions plan) \<and> distinct (map is_id (ap_slices plan)) \<and> distinct (map hc_id (ap_constraints plan))
      \<and> distinct (map cn_id (ap_criteria plan)) \<and> distinct (map co_id (ap_components plan))
      \<and> distinct (map ic_id (ap_contracts plan)) \<and> distinct (map hp_id (ap_problems plan)))"

definition components_known :: "architecture_plan \<Rightarrow> bool" where
  "components_known plan =
     ((\<forall>c \<in> set (ap_components plan). set (co_dependencies c) \<subseteq> co_id ` set (ap_components plan))
      \<and> (\<forall>c \<in> set (ap_contracts plan). insert (ic_producer c) (set (ic_consumers c)) \<subseteq> co_id ` set (ap_components plan))
      \<and> (\<forall>p \<in> set (ap_problems plan). set (hp_components p) \<subseteq> co_id ` set (ap_components plan)))"

definition strategy_known :: "string list \<Rightarrow> architecture_plan \<Rightarrow> bool" where
  "strategy_known configured plan =
     ((\<forall>ob \<in> set (vs_obligations (ap_strategy plan)).
         po_criterion ob \<in> cn_id ` set (ap_criteria plan) \<and> set (po_commands ob) \<subseteq> set configured)
      \<and> (\<forall>e \<in> set (vs_scenarios (ap_strategy plan)). set (ee_commands e) \<subseteq> set configured)
      \<and> set (vs_whole_project (ap_strategy plan)) \<subseteq> set configured)"

definition slice_resolved :: "string list \<Rightarrow> architecture_plan \<Rightarrow> implementation_slice \<Rightarrow> bool" where
  "slice_resolved configured plan s =
     (set (is_dependencies s) \<subseteq> is_id ` set (ap_slices plan)
      \<and> set (is_constraints s) \<subseteq> hc_id ` set (ap_constraints plan)
      \<and> set (is_criteria s) \<subseteq> cn_id ` set (ap_criteria plan)
      \<and> set (is_components s) \<subseteq> co_id ` set (ap_components plan)
      \<and> set (is_contracts s) \<subseteq> ic_id ` set (ap_contracts plan)
      \<and> set (is_problems s) \<subseteq> hp_id ` set (ap_problems plan)
      \<and> set (is_commands s) \<subseteq> set configured)"

text \<open>A relative path that stays below its root, by the rules of both separators; the parts a path has.\<close>

definition path_stays_below :: "path \<Rightarrow> bool" where
  "path_stays_below p =
     (p \<noteq> [] \<and> char_of (0::nat) \<notin> set p \<and> \<not> prefix ''/'' (replace_char backslash (CHR ''/'') p)
      \<and> (\<forall>drive rest. replace_char backslash (CHR ''/'') p \<noteq> drive # CHR '':'' # rest)
      \<and> ''..'' \<notin> set (pure_parts (replace_char backslash (CHR ''/'') p)))"

definition path_segments :: "path \<Rightarrow> string list" where
  "path_segments p = pure_parts (strip_of [CHR ''/''] (replace_char backslash (CHR ''/'') p))"

text \<open>The command a name stands for: the last one configured with it.\<close>

definition named_command :: "verification_command list \<Rightarrow> string \<Rightarrow> verification_command option" where
  "named_command cs n = map_of (rev (map (\<lambda>c. (vc_name c, c)) cs)) n"

definition slice_bounded :: "plan_ceilings \<Rightarrow> verification_command list option \<Rightarrow> implementation_slice \<Rightarrow> bool" where
  "slice_bounded ceil cmds s =
     (is_commands s \<noteq> [] \<and> is_criteria s \<noteq> [] \<and> is_tests s \<noteq> []
      \<and> (\<forall>cs n c. cmds = Some cs \<and> n \<in> set (is_commands s) \<and> named_command cs n = Some c \<longrightarrow>
           (\<forall>r \<in> set (resolved_discovery_roots c). \<exists>p \<in> set (is_paths s). prefix (path_segments r) (path_segments p)))
      \<and> (\<forall>p \<in> set (is_paths s). path_stays_below p)
      \<and> length (is_paths s) \<le> pc_paths ceil \<and> length (is_constraints s) + length (is_criteria s) \<le> pc_criteria ceil
      \<and> length (is_brief s) \<le> pc_brief ceil)"

definition dependencies_bounded :: "plan_ceilings \<Rightarrow> architecture_plan \<Rightarrow> bool" where
  "dependencies_bounded ceil plan =
     (acyclic (plan_depends plan) \<and> (\<forall>ns. dependency_chain plan ns \<longrightarrow> length ns \<le> Suc (pc_depth ceil)))"

definition everything_assigned :: "architecture_plan \<Rightarrow> bool" where
  "everything_assigned plan =
     ((\<forall>c \<in> set (ap_constraints plan). hc_status c = ACTIVE \<longrightarrow>
         (\<exists>s \<in> set (ap_slices plan). hc_id c \<in> set (is_constraints s)))
      \<and> (\<forall>c \<in> set (ap_contracts plan). \<exists>s \<in> set (ap_slices plan). ic_id c \<in> set (is_contracts s))
      \<and> (\<forall>a \<in> insert (dc_documentation (ap_delivery plan)) (set (dc_artifacts (ap_delivery plan))).
           \<exists>s \<in> set (ap_slices plan). a \<in> set (is_paths s))
      \<and> dc_documentation (ap_delivery plan) \<noteq> [] \<and> path_stays_below (dc_documentation (ap_delivery plan)))"

definition launch_settled :: "string list \<Rightarrow> architecture_plan \<Rightarrow> bool" where
  "launch_settled configured plan =
     ((dc_launch_command (ap_delivery plan) = [] \<longleftrightarrow> dc_launch_excuse (ap_delivery plan) \<noteq> [])
      \<and> (dc_launch_command (ap_delivery plan) \<noteq> [] \<longrightarrow>
           dc_launch_command (ap_delivery plan) \<in> set configured \<inter> set (vs_whole_project (ap_strategy plan))))"

text \<open>
  A contract across a network boundary is exercised by an accepting whole-project command of some scenario, and no
  command that governs a contract forbids its boundary: the whole-project ones and those of the slices that honour it.
\<close>

definition boundaries_allowed :: "verification_command list \<Rightarrow> architecture_plan \<Rightarrow> bool" where
  "boundaries_allowed cs plan =
     (\<forall>c \<in> set (ap_contracts plan).
        (ic_boundary c = SAME_ORIGIN_HTTP \<or> ic_boundary c = CROSS_ORIGIN_HTTP \<longrightarrow>
           (\<exists>e \<in> set (vs_scenarios (ap_strategy plan)). \<exists>k \<in> set cs.
              vc_acceptance k \<and> vc_name k \<in> set (ee_commands e) \<and> vc_name k \<in> set (vs_whole_project (ap_strategy plan))))
        \<and> (\<forall>n k. (n \<in> set (vs_whole_project (ap_strategy plan))
               \<or> (\<exists>s \<in> set (ap_slices plan). ic_id c \<in> set (is_contracts s) \<and> n \<in> set (is_commands s)))
             \<and> named_command cs n = Some k \<longrightarrow>
             (ic_boundary c = SAME_ORIGIN_HTTP \<or> ic_boundary c = CROSS_ORIGIN_HTTP \<longrightarrow>
                ''--forbid-runtime-network-apis'' \<notin> set (vc_argv k))
             \<and> (ic_boundary c = CROSS_ORIGIN_HTTP \<longrightarrow> ''--forbid-external-resources'' \<notin> set (vc_argv k))))"

definition integration_checked :: "verification_command list option \<Rightarrow> architecture_plan \<Rightarrow> bool" where
  "integration_checked cmds plan =
     (vs_whole_project (ap_strategy plan) \<noteq> []
      \<and> (\<forall>e \<in> set (vs_scenarios (ap_strategy plan)).
           ee_commands e \<noteq> [] \<and> set (ee_commands e) \<subseteq> set (vs_whole_project (ap_strategy plan)))
      \<and> (\<forall>cs. cmds = Some cs \<longrightarrow> boundaries_allowed cs plan))"

definition plan_sound ::
  "architecture_plan \<Rightarrow> string list \<Rightarrow> plan_ceilings \<Rightarrow> verification_command list option \<Rightarrow> bool" where
  "plan_sound plan configured ceil cmds =
     (ids_unique plan \<and> components_known plan \<and> strategy_known configured plan
      \<and> length (ap_slices plan) \<le> pc_slices ceil
      \<and> (\<forall>s \<in> set (ap_slices plan). slice_resolved configured plan s \<and> slice_bounded ceil cmds s)
      \<and> dependencies_bounded ceil plan \<and> everything_assigned plan \<and> launch_settled configured plan
      \<and> integration_checked cmds plan)"

subsection \<open>Sections without findings\<close>

lemma check_Nil [simp]: "check c f = [] \<longleftrightarrow> \<not> c"
  by (simp add: check_def)

lemma unknown_Nil [simp]: "unknown known f refs = [] \<longleftrightarrow> set refs \<subseteq> set known"
  by (auto simp: unknown_def filter_empty_conv)

lemma concat_map_Nil: "concat (map f xs) = [] \<longleftrightarrow> (\<forall>x \<in> set xs. f x = [])"
  by auto

lemma duplicates_Nil: "duplicates seen xs = [] \<longleftrightarrow> distinct xs \<and> set xs \<inter> set seen = {}"
  by (induction xs arbitrary: seen) auto

lemma duplicate_findings_Nil: "duplicate_findings plan = [] \<longleftrightarrow> ids_unique plan"
  by (simp add: duplicate_findings_def ids_unique_def duplicates_Nil plan_id_lists_def component_ids_def)

lemma component_findings_Nil: "component_findings plan = [] \<longleftrightarrow> components_known plan"
  by (auto simp: component_findings_def components_known_def component_ids_def Let_def)

lemma strategy_findings_Nil: "strategy_findings configured plan = [] \<longleftrightarrow> strategy_known configured plan"
  by (auto simp: strategy_findings_def strategy_known_def Let_def)

lemma slice_reference_findings_Nil: "slice_reference_findings configured plan s = [] \<longleftrightarrow> slice_resolved configured plan s"
  by (auto simp: slice_reference_findings_def slice_resolved_def component_ids_def)

lemma safe_path_iff: "is_safe_relative_path p = path_stays_below p"
proof -
  have drive: "(2 \<le> length n \<and> n ! 1 = CHR '':'') \<longleftrightarrow> (\<exists>drive rest. n = drive # CHR '':'' # rest)" for n :: string
    by (cases n; cases "tl n") auto
  have lead: "starts_with n ''/'' \<longleftrightarrow> prefix ''/'' n" for n :: string
    by (cases n) (auto simp: starts_with_def)
  show ?thesis
    by (simp add: is_safe_relative_path_def path_stays_below_def Let_def lead drive [unfolded One_nat_def])
qed

lemma claims_path_iff: "claims_path ps r \<longleftrightarrow> (\<exists>p \<in> set ps. prefix (path_segments r) (path_segments p))"
proof -
  have "c = t \<or> take (length t) c = t \<longleftrightarrow> prefix t c" for c t :: "string list"
    by (metis append_eq_conv_conj prefix_def take_all_iff order_refl)
  then show ?thesis by (simp add: claims_path_def path_segments_def Let_def list_ex_iff)
qed

lemma dict_of_named: "dict_of (map (\<lambda>c. (vc_name c, f c)) cs) n = map_option f (named_command cs n)"
proof -
  have "map (\<lambda>c. (vc_name c, f c)) cs = map (\<lambda>(k, c). (k, f c)) (map (\<lambda>c. (vc_name c, c)) cs)" by simp
  then show ?thesis by (simp only: dict_of_def named_command_def rev_map map_of_map o_apply)
qed

lemma in_discovery_roots:
  "r \<in> set (slice_discovery_roots s (discovery_roots_by_command cmds)) \<longleftrightarrow>
     (\<exists>cs n c. cmds = Some cs \<and> n \<in> set (is_commands s) \<and> named_command cs n = Some c \<and> r \<in> set (resolved_discovery_roots c))"
proof -
  have dedup: "set (dedup_by id [] xs) = set xs" for xs :: "string list" using keys_dedup_by [of id "[]" xs] by simp
  show ?thesis
  proof (cases cmds)
    case None
    then show ?thesis by (simp add: slice_discovery_roots_def discovery_roots_by_command_def dedup)
  next
    case (Some cs)
    then show ?thesis
      by (auto simp: slice_discovery_roots_def discovery_roots_by_command_def dict_of_named dedup split: option.splits) (metis+)
  qed
qed

lemma boundary_findings_Nil: "boundary_findings cs plan = [] \<longleftrightarrow> boundaries_allowed cs plan"
proof -
  have proven: "proven_end_to_end cs plan \<longleftrightarrow> (\<exists>e \<in> set (vs_scenarios (ap_strategy plan)). \<exists>k \<in> set cs.
      vc_acceptance k \<and> vc_name k \<in> set (ee_commands e) \<and> vc_name k \<in> set (vs_whole_project (ap_strategy plan)))"
    by (auto simp: proven_end_to_end_def list_ex_iff)
  have flags: "(case dict_of (map (\<lambda>k. (vc_name k, vc_argv k)) cs) n of None \<Rightarrow> []
        | Some argv \<Rightarrow> map (\<lambda>(flag, _). error INTEGRATION_FORBIDDEN_BY_VERIFICATION [ic_id c, n, flag])
            (filter (\<lambda>(flag, forbidden). flag \<in> set argv \<and> ic_boundary c \<in> set forbidden) boundary_forbidding_flags)) = []
      \<longleftrightarrow> (\<forall>k. named_command cs n = Some k \<longrightarrow>
             (ic_boundary c = SAME_ORIGIN_HTTP \<or> ic_boundary c = CROSS_ORIGIN_HTTP \<longrightarrow>
                ''--forbid-runtime-network-apis'' \<notin> set (vc_argv k))
             \<and> (ic_boundary c = CROSS_ORIGIN_HTTP \<longrightarrow> ''--forbid-external-resources'' \<notin> set (vc_argv k)))" for c n
    by (auto simp: dict_of_named boundary_forbidding_flags_def split: option.split)
  have governed: "n \<in> set (governing_commands plan c) \<longleftrightarrow> n \<in> set (vs_whole_project (ap_strategy plan))
      \<or> (\<exists>s \<in> set (ap_slices plan). ic_id c \<in> set (is_contracts s) \<and> n \<in> set (is_commands s))" for n c
    by (auto simp: governing_commands_def)
  have split: "boundary_findings cs plan = [] \<longleftrightarrow>
     (\<forall>c \<in> set (ap_contracts plan).
        \<not> (ic_boundary c \<in> set networked \<and> \<not> proven_end_to_end cs plan)
        \<and> (ic_boundary c \<noteq> UNSPECIFIED_BOUNDARY \<longrightarrow> (\<forall>n \<in> set (governing_commands plan c).
             (case dict_of (map (\<lambda>k. (vc_name k, vc_argv k)) cs) n of None \<Rightarrow> []
              | Some argv \<Rightarrow> map (\<lambda>(flag, _). error INTEGRATION_FORBIDDEN_BY_VERIFICATION [ic_id c, n, flag])
                  (filter (\<lambda>(flag, forbidden). flag \<in> set argv \<and> ic_boundary c \<in> set forbidden) boundary_forbidding_flags)) = [])))"
    unfolding boundary_findings_def append_is_Nil_conv concat_map_Nil by (auto simp: filter_empty_conv)
  show ?thesis
    unfolding split flags proven Ball_def governed boundaries_allowed_def networked_def by (auto 0 4)
qed

lemma slice_content_findings_Nil:
  "slice_content_findings ceil (discovery_roots_by_command cmds) s = [] \<longleftrightarrow> slice_bounded ceil cmds s"
  unfolding slice_content_findings_def slice_bounded_def safe_path_iff
  by (auto simp: filter_empty_conv in_discovery_roots claims_path_iff)

lemma slice_findings_Nil:
  "slice_findings configured ceil cmds plan = [] \<longleftrightarrow>
     (\<forall>s \<in> set (ap_slices plan). slice_resolved configured plan s \<and> slice_bounded ceil cmds s)"
  by (auto simp: slice_findings_def slice_reference_findings_Nil slice_content_findings_Nil)

lemma launch_findings_Nil: "launch_findings configured plan = [] \<longleftrightarrow> launch_settled configured plan"
  by (auto simp: launch_findings_def launch_settled_def Let_def)

lemma scenario_findings_Nil:
  "scenario_findings plan = [] \<longleftrightarrow>
     (\<forall>e \<in> set (vs_scenarios (ap_strategy plan)).
        ee_commands e \<noteq> [] \<and> set (ee_commands e) \<subseteq> set (vs_whole_project (ap_strategy plan)))"
  unfolding scenario_findings_def concat_map_Nil by (auto simp: Let_def filter_empty_conv)

subsection \<open>The graph\<close>

lemma dict_put_fresh: "k \<notin> fst ` set kvs \<Longrightarrow> dict_put k v kvs = kvs @ [(k, v)]"
  by (induction kvs rule: dict_put.induct) auto

lemma slice_graph_distinct:
  "distinct (map is_id slices) \<Longrightarrow> slice_graph slices = map (\<lambda>s. (is_id s, is_dependencies s)) slices"
proof (induction slices rule: rev_induct)
  case (snoc s slices)
  then show ?case by (simp add: slice_graph_def dict_put_fresh image_image)
qed (simp add: slice_graph_def)

lemma edges_slice_graph:
  assumes "distinct (map is_id (ap_slices plan))"
  shows "edges (slice_graph (ap_slices plan)) = plan_depends plan"
proof -
  have n: "neighbours (slice_graph (ap_slices plan)) (is_id s) = is_dependencies s" if "s \<in> set (ap_slices plan)" for s
  proof -
    have "map_of (slice_graph (ap_slices plan)) (is_id s) = Some (is_dependencies s)"
      unfolding slice_graph_distinct [OF assms] using assms that by (intro map_of_is_SomeI) (auto simp: o_def)
    then show ?thesis by (simp add: neighbours_def)
  qed
  have k: "set (graph_nodes (slice_graph (ap_slices plan))) = is_id ` set (ap_slices plan)"
    by (auto simp: graph_nodes_def slice_graph_distinct [OF assms])
  show ?thesis unfolding edges_def k plan_depends_def using n by auto
qed

lemma graph_findings_Nil:
  assumes "distinct (map is_id (ap_slices plan))"
  shows "graph_findings ceil plan = [] \<longleftrightarrow> dependencies_bounded ceil plan"
proof (cases "acyclic (plan_depends plan)")
  case True
  let ?g = "slice_graph (ap_slices plan)"
  have acyc: "acyclic (edges ?g)" using True edges_slice_graph [OF assms] by simp
  have walk: "walk ?g ns = dependency_chain plan ns" for ns
    by (simp add: walk_def dependency_chain_def edges_slice_graph [OF assms])
  have "longest_dependency_depth ?g \<le> d \<longleftrightarrow> (\<forall>ns. walk ?g ns \<longrightarrow> length ns \<le> Suc d)" for d
  proof (cases "?g = []")
    case True
    then show ?thesis using longest_dependency_depth_spec(1) [OF acyc]
      by (auto simp: longest_dependency_depth_def graph_nodes_def intro: order_trans)
  next
    case False
    with longest_dependency_depth_spec [OF acyc] show ?thesis by (metis Suc_le_mono order_trans)
  qed
  then show ?thesis using True acyc find_cycle_none_iff [of ?g]
    by (auto simp: graph_findings_def dependencies_bounded_def walk not_less)
next
  case False
  then have "find_cycle (slice_graph (ap_slices plan)) \<noteq> None"
    using find_cycle_none_iff edges_slice_graph [OF assms] by simp
  with False show ?thesis by (auto simp: graph_findings_def dependencies_bounded_def)
qed

subsection \<open>The equivalence\<close>

lemma everything_assigned_Nil:
  assumes "\<forall>s \<in> set (ap_slices plan). slice_resolved configured plan s"
  shows "unrepresented_findings plan = [] \<and> assignment_findings plan = [] \<and> documentation_findings plan = []
     \<longleftrightarrow> everything_assigned plan \<and> vs_whole_project (ap_strategy plan) \<noteq> []"
proof -
  have c: "unrepresented_findings plan = [] \<longleftrightarrow>
     (\<forall>c \<in> set (ap_constraints plan). hc_status c = ACTIVE \<longrightarrow> (\<exists>s \<in> set (ap_slices plan). hc_id c \<in> set (is_constraints s)))"
    unfolding unrepresented_findings_def Let_def set_empty [symmetric] set_map set_sort set_remdups
    using assms by (force simp: slice_resolved_def)
  have a: "assignment_findings plan = [] \<longleftrightarrow> vs_whole_project (ap_strategy plan) \<noteq> []
     \<and> (\<forall>c \<in> set (ap_contracts plan). \<exists>s \<in> set (ap_slices plan). ic_id c \<in> set (is_contracts s))
     \<and> (\<forall>a \<in> set (dc_artifacts (ap_delivery plan)). \<exists>s \<in> set (ap_slices plan). a \<in> set (is_paths s))"
    by (auto simp: assignment_findings_def assigned_paths_def filter_empty_conv)
  have d: "documentation_findings plan = [] \<longleftrightarrow> dc_documentation (ap_delivery plan) \<noteq> []
     \<and> path_stays_below (dc_documentation (ap_delivery plan))
     \<and> (\<exists>s \<in> set (ap_slices plan). dc_documentation (ap_delivery plan) \<in> set (is_paths s))"
    by (auto simp: documentation_findings_def assigned_paths_def safe_path_iff Let_def)
  show ?thesis unfolding c a d everything_assigned_def by auto
qed

lemma validate_plan_Nil:
  "validate_plan plan configured ceil cmds = [] \<longleftrightarrow> plan_sound plan configured ceil cmds"
proof (cases "ids_unique plan \<and> (\<forall>s \<in> set (ap_slices plan). slice_resolved configured plan s \<and> slice_bounded ceil cmds s)")
  case True
  then have "distinct (map is_id (ap_slices plan))" by (simp add: ids_unique_def)
  note graph = graph_findings_Nil [OF this]
  have assigned: "unrepresented_findings plan = [] \<and> assignment_findings plan = [] \<and> documentation_findings plan = []
     \<longleftrightarrow> everything_assigned plan \<and> vs_whole_project (ap_strategy plan) \<noteq> []"
    by (rule everything_assigned_Nil) (use True in auto)
  have boundary: "(case cmds of None \<Rightarrow> [] | Some cs \<Rightarrow> boundary_findings cs plan) = [] \<longleftrightarrow>
     (\<forall>cs. cmds = Some cs \<longrightarrow> boundaries_allowed cs plan)"
    by (cases cmds) (auto simp: boundary_findings_Nil)
  show ?thesis
    using assigned boundary
    by (auto simp: validate_plan_def plan_sound_def duplicate_findings_Nil component_findings_Nil strategy_findings_Nil
        size_findings_def slice_findings_Nil graph launch_findings_Nil scenario_findings_Nil integration_checked_def)
next
  case False
  then show ?thesis
    by (auto simp: validate_plan_def plan_sound_def duplicate_findings_Nil slice_findings_Nil)
qed

lemma error_severity [simp]:
  "fi_severity (error code names) = SEVERITY_ERROR" "fi_severity (slice_error s code names) = SEVERITY_ERROR"
  by (simp_all add: error_def slice_error_def)

lemma in_check [simp]: "f \<in> set (check c g) \<longleftrightarrow> c \<and> f = g"
  by (auto simp: check_def)

lemma in_unknown [simp]: "f \<in> set (unknown known g refs) \<longleftrightarrow> (\<exists>r \<in> set refs. r \<notin> set known \<and> f = g r)"
  by (auto simp: unknown_def)

lemmas first_sections = duplicate_findings_def component_findings_def strategy_findings_def size_findings_def
  slice_findings_def slice_reference_findings_def slice_content_findings_def

lemmas last_sections = unrepresented_findings_def graph_findings_def assignment_findings_def documentation_findings_def
  launch_findings_def scenario_findings_def boundary_findings_def

lemma findings_are_errors: "f \<in> set (validate_plan plan configured ceil cmds) \<Longrightarrow> fi_severity f = SEVERITY_ERROR"
  unfolding validate_plan_def set_append Un_iff
  by (elim disjE) (auto simp: first_sections last_sections Let_def split: if_splits option.splits)

lemma some_error_iff:
  "list_ex (\<lambda>f. fi_severity f = SEVERITY_ERROR) (validate_plan plan configured ceil cmds)
    \<longleftrightarrow> \<not> plan_sound plan configured ceil cmds"
  unfolding validate_plan_Nil [symmetric] using findings_are_errors [of _ plan configured ceil cmds]
  by (cases "validate_plan plan configured ceil cmds") auto

lemma plan_judgement_valid:
  "pv_valid (plan_judgement plan version cmds ceil) = plan_sound plan (map vc_name cmds) ceil (Some cmds)"
  by (simp add: plan_judgement_def Let_def some_error_iff)

lemma plan_judgement_well_formed: "plan_validation_well_formed (plan_judgement plan version cmds ceil)"
  by (simp add: plan_judgement_def plan_validation_well_formed_def Let_def)

text \<open>
  C7: a plan is accepted exactly when it is sound. The recorded judgement is valid if and only if identifiers are
  unique, every reference resolves, every slice is within its ceilings and names commands, criteria and tests that
  its commands collect, the dependency relation is acyclic with chains no longer than the ceiling allows, every active
  constraint, contract and artifact has a slice responsible for it, the launch is settled one way, and the configured
  checks run on the integrated project without forbidding what a contract declares. A rejected plan has an error finding.
\<close>

theorem plan_accepted_iff_sound:
  "pv_valid (plan_judgement plan version cmds ceil) = plan_sound plan (map vc_name cmds) ceil (Some cmds)
   \<and> plan_validation_well_formed (plan_judgement plan version cmds ceil)"
  by (simp add: plan_judgement_valid plan_judgement_well_formed)

subsection \<open>A sound plan\<close>

definition tiny_slice :: "string \<Rightarrow> string list \<Rightarrow> implementation_slice" where
  "tiny_slice i deps = \<lparr>is_id = i, is_objective = ''o'', is_exclusions = [], is_dependencies = deps, is_constraints = [''HC-1''],
     is_criteria = [''AC-1''], is_components = [], is_contracts = [], is_problems = [], is_paths = [''README.md'', ''tests/a''],
     is_symbols = [], is_commands = [''unit''], is_assumptions = [], is_interfaces = [], is_risk = LOW, is_stops = [],
     is_failures = [], is_tests = [''t''], is_brief = ''b''\<rparr>"

definition tiny_plan :: architecture_plan where
  "tiny_plan = \<lparr>ap_summary = ''s'', ap_decisions = [], ap_constraints = [sample_constraint ''HC-1'' ACTIVE None],
     ap_criteria = [sample_criterion], ap_slices = [tiny_slice ''B'' [''A''], tiny_slice ''A'' []], ap_components = [],
     ap_contracts = [], ap_problems = [],
     ap_delivery = \<lparr>dc_documentation = ''README.md'', dc_artifacts = [], dc_launch_command = ''unit'', dc_launch_excuse = []\<rparr>,
     ap_strategy = \<lparr>vs_whole_project = [''unit''], vs_obligations = [], vs_scenarios = []\<rparr>\<rparr>"

definition tiny_ceilings :: plan_ceilings where
  "tiny_ceilings = \<lparr>pc_slices = 40, pc_depth = 15, pc_paths = 12, pc_criteria = 20, pc_brief = 3500\<rparr>"

lemma tiny_plan_sound: "plan_sound tiny_plan [''unit''] tiny_ceilings (Some [sample_command])"
  unfolding validate_plan_Nil [symmetric] by code_simp

end
