(* ===== verification/Plan_Store.thy ===== *)
theory Plan_Store
  imports Tables Plan_Facts
begin

section \<open>The store of plans (architect/store.py, architect/errors.py)\<close>

text \<open>
  \<open>SQLitePlanStore\<close> over its two tables: the plans and the append-only events. A method is one transaction, rolled
  back when it raises, that yields an error or the new database. Its four updates share one shape, written once as
  \<open>plan_update\<close>: read status and version, compare the version, judge the status, update the row of that version, append
  the event. Identifiers of events and the clock are arguments; times are integers.
\<close>

datatype plan_status = PROPOSED | VALIDATED | APPROVED_PLAN | SUPERSEDED_PLAN | EXECUTED

datatype plan_actor = PLAN_SYSTEM | PLAN_USER | PLAN_OPERATOR

datatype plan_error =
    PlanStoreError | PlanNotFoundError | ConcurrentPlanTransitionError | InvalidPlanTransitionError
  | PlanActionError | PlanValueError | PlanIntegrityError

datatype plan_event_type = PLAN_IMPORTED | PLAN_VALIDATED | PLAN_APPROVED | PLAN_DELIVERY_PREPARED | PLAN_REVISED

datatype plan_payload =
    ImportedFrom string | JudgedAs bool nat | NoPayload | DeliveredAs string string | RevisedFrom int plan_status

record plan_row =
  pl_id :: string
  pl_package :: string
  pl_idea :: string
  pl_plan :: architecture_plan
  pl_validation :: "plan_validation option"
  pl_status :: plan_status
  pl_version :: int
  pl_created :: int
  pl_updated :: int

record plan_event =
  pe_sequence :: nat
  pe_event_id :: string
  pe_plan :: string
  pe_type :: plan_event_type
  pe_from :: "plan_status option"
  pe_to :: plan_status
  pe_actor :: plan_actor
  pe_payload :: plan_payload
  pe_created :: int

record plan_db =
  pd_plans :: "plan_row list"
  pd_events :: "plan_event list"
  pd_next :: nat

definition empty_plan_db :: plan_db where
  "empty_plan_db = \<lparr>pd_plans = [], pd_events = [], pd_next = 1\<rparr>"

definition insert_plan_event ::
  "string \<Rightarrow> string \<Rightarrow> plan_event_type \<Rightarrow> plan_status option \<Rightarrow> plan_status \<Rightarrow> plan_actor \<Rightarrow> plan_payload \<Rightarrow> int
    \<Rightarrow> plan_db \<Rightarrow> plan_error + plan_db" where
  "insert_plan_event eid pid etype src tgt actor payload now db =
     (if list_ex (\<lambda>e. pe_event_id e = eid) (pd_events db) \<or> row_of pl_id pid (pd_plans db) = None then Inl PlanIntegrityError
      else Inr (db\<lparr>pd_events := pd_events db @
             [\<lparr>pe_sequence = pd_next db, pe_event_id = eid, pe_plan = pid, pe_type = etype, pe_from = src, pe_to = tgt,
               pe_actor = actor, pe_payload = payload, pe_created = now\<rparr>],
             pd_next := Suc (pd_next db)\<rparr>))"

definition get_plan :: "plan_db \<Rightarrow> string \<Rightarrow> plan_error + plan_row" where
  "get_plan db pid = (case row_of pl_id pid (pd_plans db) of None \<Rightarrow> Inl PlanNotFoundError | Some r \<Rightarrow> Inr r)"

text \<open>\<open>commit\<close> and re-read, or roll back.\<close>

definition plan_txn :: "plan_db \<Rightarrow> string \<Rightarrow> plan_error + plan_db \<Rightarrow> plan_db \<times> (plan_error + plan_row)" where
  "plan_txn db pid res = (case res of Inl e \<Rightarrow> (db, Inl e) | Inr db' \<Rightarrow> (db', get_plan db' pid))"

definition create_plan ::
  "string \<Rightarrow> string \<Rightarrow> string \<Rightarrow> string \<Rightarrow> architecture_plan \<Rightarrow> plan_actor \<Rightarrow> int
    \<Rightarrow> plan_db \<Rightarrow> plan_db \<times> (plan_error + plan_row)" where
  "create_plan eid pid package idea plan actor now db =
     plan_txn db pid
       (if row_of pl_id pid (pd_plans db) \<noteq> None then Inl PlanStoreError
        else insert_plan_event eid pid PLAN_IMPORTED None PROPOSED actor (ImportedFrom package) now
               (db\<lparr>pd_plans := pd_plans db @
                  [\<lparr>pl_id = pid, pl_package = package, pl_idea = idea, pl_plan = plan, pl_validation = None,
                    pl_status = PROPOSED, pl_version = 1, pl_created = now, pl_updated = now\<rparr>]\<rparr>))"

definition list_plans :: "plan_db \<Rightarrow> int \<Rightarrow> plan_error + plan_row list" where
  "list_plans db limit =
     (if limit < 1 then Inl PlanValueError
      else Inr (take (nat limit) (sort_key (\<lambda>r. - pl_created r) (pd_plans db))))"

definition plan_update ::
  "string \<Rightarrow> string \<Rightarrow> int option \<Rightarrow> (plan_row \<Rightarrow> plan_error option) \<Rightarrow> (plan_row \<Rightarrow> plan_row) \<Rightarrow> plan_event_type
    \<Rightarrow> plan_actor \<Rightarrow> (plan_row \<Rightarrow> plan_payload) \<Rightarrow> int \<Rightarrow> plan_db \<Rightarrow> plan_db \<times> (plan_error + plan_row)" where
  "plan_update eid pid expected guard change etype actor payload now db =
     plan_txn db pid
       (case row_of pl_id pid (pd_plans db) of
          None \<Rightarrow> Inl PlanNotFoundError
        | Some row \<Rightarrow>
            if expected \<noteq> None \<and> expected \<noteq> Some (pl_version row) then Inl ConcurrentPlanTransitionError
            else (case guard row of
                    Some e \<Rightarrow> Inl e
                  | None \<Rightarrow>
                      (case update_rows pl_id pid (\<lambda>r. pl_version r = pl_version row)
                              (\<lambda>r. (change r)\<lparr>pl_version := pl_version r + 1, pl_updated := now\<rparr>) (pd_plans db) of
                         (n, rows) \<Rightarrow>
                           if n \<noteq> 1 then Inl ConcurrentPlanTransitionError
                           else insert_plan_event eid pid etype (Some (pl_status row)) (pl_status (change row)) actor
                                  (payload row) now (db\<lparr>pd_plans := rows\<rparr>))))"

definition record_validation ::
  "string \<Rightarrow> string \<Rightarrow> plan_validation \<Rightarrow> int option \<Rightarrow> int \<Rightarrow> plan_db \<Rightarrow> plan_db \<times> (plan_error + plan_row)" where
  "record_validation eid pid result expected now =
     plan_update eid pid expected
       (\<lambda>row. if pl_status row \<notin> set [PROPOSED, VALIDATED] then Some InvalidPlanTransitionError else None)
       (\<lambda>r. r\<lparr>pl_status := (if pv_valid result then VALIDATED else PROPOSED), pl_validation := Some result\<rparr>)
       PLAN_VALIDATED PLAN_SYSTEM (\<lambda>_. JudgedAs (pv_valid result) (length (pv_findings result))) now"

definition approve_plan :: "string \<Rightarrow> string \<Rightarrow> int \<Rightarrow> int \<Rightarrow> plan_db \<Rightarrow> plan_db \<times> (plan_error + plan_row)" where
  "approve_plan eid pid expected now =
     plan_update eid pid (Some expected)
       (\<lambda>row. if pl_status row \<noteq> VALIDATED then Some PlanActionError
              else (case pl_validation row of
                      None \<Rightarrow> Some PlanActionError
                    | Some v \<Rightarrow> if \<not> pv_valid v then Some PlanActionError else None))
       (\<lambda>r. r\<lparr>pl_status := APPROVED_PLAN\<rparr>)
       PLAN_APPROVED PLAN_USER (\<lambda>_. NoPayload) now"

definition mark_executed ::
  "string \<Rightarrow> string \<Rightarrow> int \<Rightarrow> string \<Rightarrow> string \<Rightarrow> int \<Rightarrow> plan_db \<Rightarrow> plan_db \<times> (plan_error + plan_row)" where
  "mark_executed eid pid expected final_commit delivery_path now =
     plan_update eid pid (Some expected)
       (\<lambda>row. if pl_status row \<noteq> APPROVED_PLAN then Some PlanActionError else None)
       (\<lambda>r. r\<lparr>pl_status := EXECUTED\<rparr>)
       PLAN_DELIVERY_PREPARED PLAN_USER (\<lambda>_. DeliveredAs final_commit delivery_path) now"

definition create_revision ::
  "string \<Rightarrow> string \<Rightarrow> string \<Rightarrow> string \<Rightarrow> architecture_plan \<Rightarrow> int \<Rightarrow> plan_actor \<Rightarrow> int
    \<Rightarrow> plan_db \<Rightarrow> plan_db \<times> (plan_error + plan_row)" where
  "create_revision eid pid package idea plan expected actor now =
     plan_update eid pid (Some expected) (\<lambda>_. None)
       (\<lambda>r. r\<lparr>pl_package := package, pl_idea := idea, pl_plan := plan, pl_validation := None, pl_status := PROPOSED\<rparr>)
       PLAN_REVISED actor (\<lambda>row. RevisedFrom (pl_version row) (pl_status row)) now"

definition plan_events_of :: "string \<Rightarrow> plan_db \<Rightarrow> plan_event list" where
  "plan_events_of pid db = filter (\<lambda>e. pe_plan e = pid) (pd_events db)"

definition plan_events :: "plan_db \<Rightarrow> string \<Rightarrow> plan_error + plan_event list" where
  "plan_events db pid =
     (case get_plan db pid of Inl e \<Rightarrow> Inl e | Inr _ \<Rightarrow> Inr (sort_key pe_sequence (plan_events_of pid db)))"

text \<open>
  \<open>validate_and_record_plan\<close>: read the plan, judge it against the configuration, record the judgement. Other clients
  may write between the reading and the recording: \<open>others\<close>.
\<close>

definition validate_and_record_plan ::
  "string \<Rightarrow> string \<Rightarrow> verification_command list \<Rightarrow> plan_ceilings \<Rightarrow> int \<Rightarrow> int \<Rightarrow> (plan_db \<Rightarrow> plan_db)
    \<Rightarrow> plan_db \<Rightarrow> plan_db \<times> (plan_error + plan_row \<times> plan_validation)" where
  "validate_and_record_plan eid pid cmds ceil expected now others db =
     (case get_plan db pid of
        Inl e \<Rightarrow> (db, Inl e)
      | Inr seen \<Rightarrow>
          (let result = plan_judgement (pl_plan seen) (pl_version seen) cmds ceil in
           (case record_validation eid pid result (Some expected) now (others db) of
              (db', Inl e) \<Rightarrow> (db', Inl e)
            | (db', Inr updated) \<Rightarrow> (db', Inr (updated, result)))))"

end
