(* ===== verification/Plan_Log.thy ===== *)
theory Plan_Log
  imports Plan_Store
begin

section \<open>The life of a plan: logs, approval and judgements\<close>

text \<open>
  The invariant of the plan database: each plan has one row whose version counts its events, the events replay along
  the edges of the plan life cycle, and a plan past validation carries a valid judgement. From it: an approved plan was
  approved by the user directly after a valid judgement, and the judgement recorded for a plan is the one of the very
  content it holds, whatever other clients do in between.
\<close>

subsection \<open>The log\<close>

definition plan_edge_ok :: "plan_event \<Rightarrow> bool" where
  "plan_edge_ok e =
     (case (pe_type e, pe_from e) of
        (PLAN_IMPORTED, None) \<Rightarrow> pe_to e = PROPOSED
      | (PLAN_VALIDATED, Some s) \<Rightarrow> s \<in> {PROPOSED, VALIDATED} \<and> pe_to e \<in> {PROPOSED, VALIDATED} \<and> pe_actor e = PLAN_SYSTEM
      | (PLAN_APPROVED, Some s) \<Rightarrow> s = VALIDATED \<and> pe_to e = APPROVED_PLAN \<and> pe_actor e = PLAN_USER
      | (PLAN_DELIVERY_PREPARED, Some s) \<Rightarrow> s = APPROVED_PLAN \<and> pe_to e = EXECUTED \<and> pe_actor e = PLAN_USER
      | (PLAN_REVISED, Some s) \<Rightarrow> pe_to e = PROPOSED
      | _ \<Rightarrow> False)"

fun plan_log_ok :: "plan_status option \<Rightarrow> plan_event list \<Rightarrow> bool" where
  "plan_log_ok s [] = True"
| "plan_log_ok s (e # es) = (pe_from e = s \<and> plan_edge_ok e \<and> plan_log_ok (Some (pe_to e)) es)"

lemma plan_log_ok_snoc:
  "plan_log_ok s (es @ [e]) \<longleftrightarrow>
     plan_log_ok s es \<and> plan_edge_ok e \<and> pe_from e = (if es = [] then s else Some (pe_to (last es)))"
  by (induction es arbitrary: s) auto

definition past_validation :: "plan_status \<Rightarrow> bool" where
  "past_validation s = (s \<in> {VALIDATED, APPROVED_PLAN, EXECUTED})"

definition plan_row_ok :: "plan_event list \<Rightarrow> plan_row \<Rightarrow> bool" where
  "plan_row_ok es r =
     (es \<noteq> [] \<and> plan_log_ok None es \<and> pe_to (last es) = pl_status r \<and> pl_version r = int (length es)
      \<and> (past_validation (pl_status r) \<longrightarrow> (\<exists>v. pl_validation r = Some v \<and> pv_valid v)))"

definition wf_plan_db :: "plan_db \<Rightarrow> bool" where
  "wf_plan_db db =
     (distinct (map pl_id (pd_plans db)) \<and> (\<forall>e \<in> set (pd_events db). pe_plan e \<in> pl_id ` set (pd_plans db))
      \<and> (\<forall>pid r. row_of pl_id pid (pd_plans db) = Some r \<longrightarrow> plan_row_ok (plan_events_of pid db) r))"

subsection \<open>The operations as steps\<close>

datatype plan_op =
    PCreate string string string string architecture_plan plan_actor int
  | PRecord string string plan_validation "int option" int
  | PApprove string string int int
  | PExecuted string string int string string int
  | PRevise string string string string architecture_plan int plan_actor int

fun plan_exec :: "plan_db \<Rightarrow> plan_op \<Rightarrow> plan_db" where
  "plan_exec db (PCreate eid pid package idea plan actor now) = fst (create_plan eid pid package idea plan actor now db)"
| "plan_exec db (PRecord eid pid result expected now) = fst (record_validation eid pid result expected now db)"
| "plan_exec db (PApprove eid pid expected now) = fst (approve_plan eid pid expected now db)"
| "plan_exec db (PExecuted eid pid expected commit path now) = fst (mark_executed eid pid expected commit path now db)"
| "plan_exec db (PRevise eid pid package idea plan expected actor now) =
     fst (create_revision eid pid package idea plan expected actor now db)"

text \<open>The row that a successful update leaves, and its event.\<close>

definition bumped :: "(plan_row \<Rightarrow> plan_row) \<Rightarrow> int \<Rightarrow> plan_row \<Rightarrow> plan_row" where
  "bumped change now r = (change r)\<lparr>pl_version := pl_version r + 1, pl_updated := now\<rparr>"

lemma plan_update_cases:
  assumes d: "distinct (map pl_id (pd_plans db))" and id: "\<And>r. pl_id (change r) = pl_id r"
  obtains (failed) e where "plan_update eid pid expected guard change etype actor payload now db = (db, Inl e)"
  | (updated) row db' e where "row_of pl_id pid (pd_plans db) = Some row" "guard row = None"
      "expected = None \<or> expected = Some (pl_version row)"
      "plan_update eid pid expected guard change etype actor payload now db = (db', Inr (bumped change now row))"
      "\<And>j. row_of pl_id j (pd_plans db') = (if j = pid then Some (bumped change now row) else row_of pl_id j (pd_plans db))"
      "map pl_id (pd_plans db') = map pl_id (pd_plans db)"
      "pd_events db' = pd_events db @ [e]" "pe_plan e = pid" "pe_type e = etype" "pe_from e = Some (pl_status row)"
      "pe_to e = pl_status (change row)" "pe_actor e = actor"
proof -
  let ?u = "plan_update eid pid expected guard change etype actor payload now db"
  show ?thesis
  proof (cases "row_of pl_id pid (pd_plans db)")
    case None
    then have "?u = (db, Inl PlanNotFoundError)" by (simp add: plan_update_def plan_txn_def)
    then show ?thesis by (rule failed)
  next
    case (Some row)
    show ?thesis
    proof (cases "expected \<noteq> None \<and> expected \<noteq> Some (pl_version row) \<or> guard row \<noteq> None
        \<or> list_ex (\<lambda>e. pe_event_id e = eid) (pd_events db)")
      case True
      have "\<exists>e. ?u = (db, Inl e)"
        using True Some by (auto simp: plan_update_def plan_txn_def insert_plan_event_def split: option.splits prod.splits)
      then show ?thesis using failed by blast
    next
      case False
      define g where "g = (\<lambda>r. (change r)\<lparr>pl_version := pl_version r + 1, pl_updated := now\<rparr>)"
      have gid: "pl_id (g r) = pl_id r" for r by (simp add: g_def id)
      obtain n rows where u: "update_rows pl_id pid (\<lambda>r. pl_version r = pl_version row) g (pd_plans db) = (n, rows)"
        by (cases "update_rows pl_id pid (\<lambda>r. pl_version r = pl_version row) g (pd_plans db)")
      have n: "n = 1" using update_count [OF d Some, of "\<lambda>r. pl_version r = pl_version row" g] u by simp
      have keys: "map pl_id rows = map pl_id (pd_plans db)" using update_keys [of pl_id g, OF gid] u by (metis snd_conv)
      have find: "row_of pl_id j rows = (if j = pid then Some (bumped change now row) else row_of pl_id j (pd_plans db))" for j
      proof -
        have "row_of pl_id j rows = map_option (\<lambda>r. if pl_id r = pid \<and> pl_version r = pl_version row then g r else r)
            (row_of pl_id j (pd_plans db))"
          using row_of_update [of pl_id g j pid "\<lambda>r. pl_version r = pl_version row" "pd_plans db", OF gid] u by simp
        then show ?thesis using Some row_of_SomeD [of pl_id pid "pd_plans db" row]
          by (cases "row_of pl_id j (pd_plans db)") (auto simp: bumped_def g_def dest: row_of_SomeD)
      qed
      show ?thesis
      proof (rule updated [OF Some])
        show "?u = (db\<lparr>pd_plans := rows, pd_events := pd_events db @ [\<lparr>pe_sequence = pd_next db, pe_event_id = eid,
             pe_plan = pid, pe_type = etype, pe_from = Some (pl_status row), pe_to = pl_status (change row),
             pe_actor = actor, pe_payload = payload row, pe_created = now\<rparr>], pd_next := Suc (pd_next db)\<rparr>,
             Inr (bumped change now row))"
          using False Some u [unfolded g_def] n find [of pid]
          by (auto simp: plan_update_def plan_txn_def insert_plan_event_def get_plan_def)
      qed (use False find keys in auto)
    qed
  qed
qed

subsection \<open>The invariant is kept\<close>

lemma plan_events_snoc:
  "pd_events db' = pd_events db @ [e] \<Longrightarrow>
     plan_events_of j db' = (if pe_plan e = j then plan_events_of j db @ [e] else plan_events_of j db)"
  by (simp add: plan_events_of_def)

text \<open>What a guarded change must satisfy to keep the invariant, and what its four uses satisfy.\<close>

definition change_ok :: "(plan_row \<Rightarrow> plan_error option) \<Rightarrow> (plan_row \<Rightarrow> plan_row) \<Rightarrow> plan_event_type \<Rightarrow> plan_actor \<Rightarrow> bool" where
  "change_ok guard change etype actor =
     ((\<forall>r. pl_id (change r) = pl_id r)
      \<and> (\<forall>r e. guard r = None \<longrightarrow> (past_validation (pl_status r) \<longrightarrow> (\<exists>v. pl_validation r = Some v \<and> pv_valid v)) \<longrightarrow>
           (past_validation (pl_status (change r)) \<longrightarrow> (\<exists>v. pl_validation (change r) = Some v \<and> pv_valid v))
           \<and> (pe_type e = etype \<longrightarrow> pe_from e = Some (pl_status r) \<longrightarrow> pe_to e = pl_status (change r) \<longrightarrow>
                pe_actor e = actor \<longrightarrow> plan_edge_ok e)))"

lemma plan_update_wf:
  assumes wf: "wf_plan_db db" and ok: "change_ok guard change etype actor"
  shows "wf_plan_db (fst (plan_update eid pid expected guard change etype actor payload now db))"
proof -
  have d: "distinct (map pl_id (pd_plans db))" using wf by (simp add: wf_plan_db_def)
  have id: "pl_id (change r) = pl_id r" for r using ok by (simp add: change_ok_def)
  show ?thesis
  proof (rule plan_update_cases [OF d id, of eid pid expected guard etype actor payload now], goal_cases failed updated)
    case (failed e)
    with wf show ?thesis by simp
  next
    case (updated row db' e)
    have row: "plan_row_ok (plan_events_of pid db) row" using wf updated(1) by (simp add: wf_plan_db_def)
    have edge: "plan_edge_ok e" "past_validation (pl_status (change row)) \<longrightarrow> (\<exists>v. pl_validation (change row) = Some v \<and> pv_valid v)"
      using ok updated(2,9,10,11,12) row unfolding change_ok_def plan_row_ok_def by blast+
    have "plan_row_ok (plan_events_of pid db') (bumped change now row)"
      using row edge updated(8,10,11) unfolding plan_events_snoc [OF updated(7)]
      by (auto simp: plan_row_ok_def plan_log_ok_snoc bumped_def)
    moreover have "pl_id ` set (pd_plans db') = pl_id ` set (pd_plans db)" using updated(6) by (metis set_map)
    moreover have "pid \<in> pl_id ` set (pd_plans db)" using row_of_SomeD [OF updated(1)] by auto
    ultimately show ?thesis
      using wf updated(4,5,6,7,8) unfolding wf_plan_db_def
      by (auto simp: plan_events_snoc [OF updated(7)] split: if_splits)
  qed
qed

lemma change_ok_intros:
  "change_ok (\<lambda>row. if pl_status row \<notin> set [PROPOSED, VALIDATED] then Some InvalidPlanTransitionError else None)
     (\<lambda>r. r\<lparr>pl_status := (if pv_valid result then VALIDATED else PROPOSED), pl_validation := Some result\<rparr>)
     PLAN_VALIDATED PLAN_SYSTEM"
  "change_ok (\<lambda>row. if pl_status row \<noteq> VALIDATED then Some PlanActionError
              else (case pl_validation row of
                      None \<Rightarrow> Some PlanActionError
                    | Some v \<Rightarrow> if \<not> pv_valid v then Some PlanActionError else None))
     (\<lambda>r. r\<lparr>pl_status := APPROVED_PLAN\<rparr>) PLAN_APPROVED PLAN_USER"
  "change_ok (\<lambda>row. if pl_status row \<noteq> APPROVED_PLAN then Some PlanActionError else None)
     (\<lambda>r. r\<lparr>pl_status := EXECUTED\<rparr>) PLAN_DELIVERY_PREPARED PLAN_USER"
  "change_ok (\<lambda>_. None)
     (\<lambda>r. r\<lparr>pl_package := package, pl_idea := idea, pl_plan := plan, pl_validation := None, pl_status := PROPOSED\<rparr>)
     PLAN_REVISED actor"
  by (auto simp: change_ok_def past_validation_def plan_edge_ok_def split: if_splits option.splits)

lemma create_plan_cases:
  obtains (failed) e where "create_plan eid pid package idea plan actor now db = (db, Inl e)"
  | (created) r e db' where "row_of pl_id pid (pd_plans db) = None" "fst (create_plan eid pid package idea plan actor now db) = db'"
      "pd_plans db' = pd_plans db @ [r]" "pl_id r = pid" "pl_status r = PROPOSED" "pl_version r = 1" "pl_plan r = plan"
      "pd_events db' = pd_events db @ [e]" "pe_plan e = pid" "pe_type e = PLAN_IMPORTED" "pe_from e = None" "pe_to e = PROPOSED"
proof (cases "row_of pl_id pid (pd_plans db) \<noteq> None \<or> list_ex (\<lambda>e. pe_event_id e = eid) (pd_events db)")
  case True
  then have "\<exists>e. create_plan eid pid package idea plan actor now db = (db, Inl e)"
    by (auto simp: create_plan_def plan_txn_def insert_plan_event_def)
  then show ?thesis using failed by blast
next
  case False
  then show ?thesis
    by (intro created) (auto simp: create_plan_def plan_txn_def insert_plan_event_def row_of_snoc)
qed

lemma create_plan_wf: "wf_plan_db db \<Longrightarrow> wf_plan_db (fst (create_plan eid pid package idea plan actor now db))"
proof (cases rule: create_plan_cases [of eid pid package idea plan actor now db])
  case (created r e db')
  assume wf: "wf_plan_db db"
  have fresh: "pid \<notin> pl_id ` set (pd_plans db)" using created(1) by (simp add: row_of_None)
  then have none: "plan_events_of pid db = []" using wf by (auto simp: wf_plan_db_def plan_events_of_def filter_empty_conv)
  have "plan_row_ok (plan_events_of pid db') r"
    using created(5,6,9-12) unfolding plan_events_snoc [OF created(8)] none
    by (simp add: plan_row_ok_def past_validation_def plan_edge_ok_def)
  then show ?thesis using wf fresh created(1,3,4,8,9) unfolding created(2)
    by (auto simp: wf_plan_db_def row_of_snoc plan_events_snoc [OF created(8)] split: option.splits if_splits dest: row_of_SomeD)
qed simp

lemma wf_empty_plan_db: "wf_plan_db empty_plan_db"
  by (simp add: wf_plan_db_def empty_plan_db_def row_of_def)

lemma plan_exec_wf: "wf_plan_db db \<Longrightarrow> wf_plan_db (plan_exec db x)"
  by (cases x; simp only: plan_exec.simps record_validation_def approve_plan_def mark_executed_def create_revision_def)
    (blast intro: create_plan_wf plan_update_wf change_ok_intros)+

interpretation plans: invariant_system empty_plan_db "\<lambda>_ _. True" plan_exec wf_plan_db
  by unfold_locales (auto intro: wf_empty_plan_db plan_exec_wf)

definition reachable_plans :: "plan_op list \<Rightarrow> plan_db" where
  "reachable_plans xs = foldl plan_exec empty_plan_db xs"

lemma wf_reachable_plans: "wf_plan_db (reachable_plans xs)"
  unfolding reachable_plans_def by (rule plans.inv_reachable) (rule permitted_always, rule TrueI)

text \<open>How a log ends when its plan is approved or executed.\<close>

lemma log_ends:
  assumes "plan_log_ok s es" "es \<noteq> []"
  shows "plan_edge_ok (last es)" "pe_from (last es) = (if butlast es = [] then s else Some (pe_to (last (butlast es))))"
    "plan_log_ok s (butlast es)"
  using assms plan_log_ok_snoc [of s "butlast es" "last es"] by simp_all

lemma approved_edge: "plan_edge_ok e \<Longrightarrow> pe_to e = APPROVED_PLAN \<Longrightarrow>
    pe_type e = PLAN_APPROVED \<and> pe_actor e = PLAN_USER \<and> pe_from e = Some VALIDATED"
  by (auto simp: plan_edge_ok_def split: plan_event_type.splits option.splits)

lemma executed_edge: "plan_edge_ok e \<Longrightarrow> pe_to e = EXECUTED \<Longrightarrow>
    pe_type e = PLAN_DELIVERY_PREPARED \<and> pe_actor e = PLAN_USER \<and> pe_from e = Some APPROVED_PLAN"
  by (auto simp: plan_edge_ok_def split: plan_event_type.splits option.splits)

lemma validated_edge: "plan_edge_ok e \<Longrightarrow> pe_to e = VALIDATED \<Longrightarrow> pe_type e = PLAN_VALIDATED"
  by (auto simp: plan_edge_ok_def split: plan_event_type.splits option.splits)

subsection \<open>Approval\<close>

text \<open>A history that reaches approval: since the import or the last revision there were only judgements, the last one valid, and then
  the user's approval.\<close>

definition approved_history :: "plan_event list \<Rightarrow> bool" where
  "approved_history us =
     (\<exists>older start judgements judged approved. us = older @ start # judgements @ [judged, approved]
        \<and> pe_type start \<in> {PLAN_IMPORTED, PLAN_REVISED} \<and> (\<forall>e \<in> set judgements. pe_type e = PLAN_VALIDATED)
        \<and> pe_type judged = PLAN_VALIDATED \<and> pe_to judged = VALIDATED
        \<and> pe_type approved = PLAN_APPROVED \<and> pe_actor approved = PLAN_USER)"

lemma log_since_start:
  "plan_log_ok None us \<Longrightarrow> us \<noteq> [] \<Longrightarrow> pe_to (last us) \<in> {PROPOSED, VALIDATED} \<Longrightarrow>
     \<exists>older start judgements. us = older @ start # judgements \<and> pe_type start \<in> {PLAN_IMPORTED, PLAN_REVISED}
       \<and> (\<forall>e \<in> set judgements. pe_type e = PLAN_VALIDATED)"
proof (induction us rule: rev_induct)
  case (snoc e us)
  from snoc.prems(1) have ok: "plan_log_ok None us" "plan_edge_ok e" "pe_from e = (if us = [] then None else Some (pe_to (last us)))"
    by (simp_all add: plan_log_ok_snoc)
  show ?case
  proof (cases "pe_type e \<in> {PLAN_IMPORTED, PLAN_REVISED}")
    case True
    then show ?thesis by (intro exI [of _ us] exI [of _ e] exI [of _ "[]"]) simp
  next
    case False
    with ok(2) snoc.prems(3) obtain s where v: "pe_type e = PLAN_VALIDATED" "pe_from e = Some s" "s \<in> {PROPOSED, VALIDATED}"
      by (auto simp: plan_edge_ok_def split: plan_event_type.splits option.splits)
    with ok(3) have "us \<noteq> []" "pe_to (last us) \<in> {PROPOSED, VALIDATED}" by (auto split: if_splits)
    with snoc.IH [OF ok(1)] obtain older start judgements where "us = older @ start # judgements"
      "pe_type start \<in> {PLAN_IMPORTED, PLAN_REVISED}" "\<forall>x \<in> set judgements. pe_type x = PLAN_VALIDATED" by blast
    with v(1) show ?thesis by (intro exI [of _ older] exI [of _ start] exI [of _ "judgements @ [e]"]) auto
  qed
qed simp

lemma log_to_approved:
  assumes us: "plan_log_ok None us" "us \<noteq> []" "pe_to (last us) = APPROVED_PLAN"
  shows "approved_history us"
proof -
  from approved_edge [OF log_ends(1) [OF us(1,2)] us(3)]
  have a: "pe_type (last us) = PLAN_APPROVED" "pe_actor (last us) = PLAN_USER" "pe_from (last us) = Some VALIDATED" by simp_all
  with log_ends(2) [OF us(1,2)] have b: "butlast us \<noteq> []" "pe_to (last (butlast us)) = VALIDATED"
    by (auto split: if_splits)
  note inner = log_ends(3) [OF us(1,2)]
  have judged: "plan_edge_ok (last (butlast us))" by (rule log_ends(1) [OF inner b(1)])
  with validated_edge b have t: "pe_type (last (butlast us)) = PLAN_VALIDATED" by blast
  let ?rest = "butlast (butlast us)"
  from judged t obtain s where "pe_from (last (butlast us)) = Some s" "s \<in> {PROPOSED, VALIDATED}"
    by (auto simp: plan_edge_ok_def split: option.splits)
  with log_ends(2) [OF inner b(1)] have rest: "?rest \<noteq> []" "pe_to (last ?rest) \<in> {PROPOSED, VALIDATED}"
    by (auto split: if_splits)
  from log_since_start [OF log_ends(3) [OF inner b(1)] rest] obtain older start judgements where
    r: "?rest = older @ start # judgements" "pe_type start \<in> {PLAN_IMPORTED, PLAN_REVISED}"
      "\<forall>e \<in> set judgements. pe_type e = PLAN_VALIDATED" by blast
  have "us = ?rest @ [last (butlast us), last us]" using b(1) us(2)
    by (metis append.assoc append_Cons append_butlast_last_id self_append_conv2)
  then have "us = older @ start # judgements @ [last (butlast us), last us]" by (simp add: r(1))
  with r(2,3) t a b show ?thesis unfolding approved_history_def by blast
qed

lemma log_to_executed:
  assumes us: "plan_log_ok None us" "us \<noteq> []" "pe_to (last us) = EXECUTED"
  shows "approved_history (butlast us) \<and> pe_type (last us) = PLAN_DELIVERY_PREPARED"
proof -
  from executed_edge [OF log_ends(1) [OF us(1,2)] us(3)] log_ends(2,3) [OF us(1,2)]
  have "pe_type (last us) = PLAN_DELIVERY_PREPARED" "butlast us \<noteq> []" "pe_to (last (butlast us)) = APPROVED_PLAN"
    "plan_log_ok None (butlast us)" by (auto split: if_splits)
  then show ?thesis using log_to_approved by blast
qed

lemma row_ok_of_reachable:
  "r \<in> set (pd_plans (reachable_plans xs)) \<Longrightarrow> plan_row_ok (plan_events_of (pl_id r) (reachable_plans xs)) r"
  using wf_reachable_plans [of xs] row_of_in [of pl_id "pd_plans (reachable_plans xs)" r] by (simp add: wf_plan_db_def)


subsection \<open>Judgements under concurrency\<close>

lemma plan_update_newer:
  assumes wf: "wf_plan_db db" and ok: "change_ok guard change etype actor" and r: "row_of pl_id j (pd_plans db) = Some r"
  shows "\<exists>r'. row_of pl_id j (pd_plans (fst (plan_update eid pid expected guard change etype actor payload now db))) = Some r'
    \<and> (r' = r \<or> pl_version r' > pl_version r)"
proof -
  have d: "distinct (map pl_id (pd_plans db))" using wf by (simp add: wf_plan_db_def)
  have id: "pl_id (change r) = pl_id r" for r using ok by (simp add: change_ok_def)
  show ?thesis
  proof (rule plan_update_cases [OF d id, of eid pid expected guard etype actor payload now], goal_cases failed updated)
    case (failed e)
    with r show ?thesis by simp
  next
    case (updated row db' e)
    with r show ?thesis by (auto simp: bumped_def)
  qed
qed

lemma plan_exec_newer:
  "wf_plan_db db \<Longrightarrow> row_of pl_id j (pd_plans db) = Some r \<Longrightarrow>
     \<exists>r'. row_of pl_id j (pd_plans (plan_exec db x)) = Some r' \<and> (r' = r \<or> pl_version r' > pl_version r)"
proof (cases x)
  case (PCreate eid pid package idea plan actor now)
  assume "row_of pl_id j (pd_plans db) = Some r"
  with PCreate show ?thesis
    by (cases rule: create_plan_cases [of eid pid package idea plan actor now db]) (auto simp: row_of_snoc)
qed (simp only: plan_exec.simps record_validation_def approve_plan_def mark_executed_def create_revision_def,
    blast intro: plan_update_newer change_ok_intros)+

text \<open>A row changes only together with its version.\<close>

lemma plans_only_get_newer:
  "wf_plan_db db \<Longrightarrow> row_of pl_id j (pd_plans db) = Some r \<Longrightarrow>
     \<exists>r'. row_of pl_id j (pd_plans (foldl plan_exec db xs)) = Some r' \<and> (r' = r \<or> pl_version r' > pl_version r)"
proof (induction xs arbitrary: db r)
  case (Cons x xs)
  from plan_exec_newer [OF Cons.prems, of x] obtain r' where
    r': "row_of pl_id j (pd_plans (plan_exec db x)) = Some r'" "r' = r \<or> pl_version r' > pl_version r" by blast
  from Cons.IH [OF plan_exec_wf [OF Cons.prems(1)] r'(1)] r'(2) show ?case by fastforce
qed simp

text \<open>
  A judgement is recorded only for the content that was judged. When \<open>validate_and_record_plan\<close> succeeds with an
  expected version no newer than the one it read, whatever calls other clients make between the reading and the recording, then the
  stored plan is the one that was read, it carries the judgement, and it is VALIDATED exactly when that content is sound
  under the configuration used, and PROPOSED otherwise.
\<close>

theorem judgement_is_of_the_stored_plan:
  assumes wf: "wf_plan_db db" and read: "get_plan db pid = Inr seen" and not_newer: "expected \<le> pl_version seen"
    and run: "validate_and_record_plan eid pid cmds ceil expected now (\<lambda>d. foldl plan_exec d others) db = (db', Inr (row, result))"
  shows "get_plan db' pid = Inr row \<and> pl_plan row = pl_plan seen \<and> pl_validation row = Some result
    \<and> pv_valid result = plan_sound (pl_plan row) (map vc_name cmds) ceil (Some cmds)
    \<and> pl_status row = (if plan_sound (pl_plan row) (map vc_name cmds) ceil (Some cmds) then VALIDATED else PROPOSED)"
proof -
  let ?mid = "foldl plan_exec db others"
  have res: "result = plan_judgement (pl_plan seen) (pl_version seen) cmds ceil"
    and rec: "record_validation eid pid result (Some expected) now ?mid = (db', Inr row)"
    using read run by (auto simp: validate_and_record_plan_def Let_def split: prod.splits sum.splits)
  have valid: "pv_valid result = plan_sound (pl_plan seen) (map vc_name cmds) ceil (Some cmds)"
    unfolding res by (simp add: plan_judgement_valid)
  have wfm: "wf_plan_db ?mid" using wf by (rule plans.inv_foldl) (rule permitted_always, rule TrueI)
  then have d: "distinct (map pl_id (pd_plans ?mid))" by (simp add: wf_plan_db_def)
  have seen: "row_of pl_id pid (pd_plans db) = Some seen" using read by (auto simp: get_plan_def split: option.splits)
  let ?change = "\<lambda>r. r\<lparr>pl_status := (if pv_valid result then VALIDATED else PROPOSED), pl_validation := Some result\<rparr>"
  let ?guard = "\<lambda>row. if pl_status row \<notin> set [PROPOSED, VALIDATED] then Some InvalidPlanTransitionError else None"
  have id: "pl_id (?change r) = pl_id r" for r by simp
  show ?thesis
  proof (rule plan_update_cases [OF d id, of eid pid "Some expected" ?guard PLAN_VALIDATED PLAN_SYSTEM
        "\<lambda>_. JudgedAs (pv_valid result) (length (pv_findings result))" now], goal_cases failed updated)
    case (failed e)
    with rec show ?case by (simp add: record_validation_def)
  next
    case (updated old db2 e)
    from plans_only_get_newer [OF wf seen, of others] updated(1,3) not_newer have "old = seen" by auto
    moreover have "db2 = db'" "bumped ?change now old = row" using rec updated(4) by (simp_all add: record_validation_def)
    moreover have "get_plan db2 pid = Inr (bumped ?change now old)" using updated(5) [of pid] by (simp add: get_plan_def)
    ultimately show ?case using valid by (auto simp: bumped_def)
  qed
qed

subsection \<open>Witnesses\<close>

definition tiny_judgement :: plan_validation where
  "tiny_judgement = \<lparr>pv_version = 1, pv_valid = True, pv_findings = []\<rparr>"

definition tiny_calls :: "plan_op list" where
  "tiny_calls =
     [PCreate ''E1'' ''PLAN-1'' ''PKG-1'' ''i'' tiny_plan PLAN_SYSTEM 0,
      PRecord ''E2'' ''PLAN-1'' tiny_judgement (Some 1) 1, PApprove ''E3'' ''PLAN-1'' 2 2]"

lemmas plan_eval = reachable_plans_def empty_plan_db_def create_plan_def plan_txn_def insert_plan_event_def get_plan_def
  record_validation_def approve_plan_def plan_update_def update_rows_def row_of_def tiny_judgement_def


theorem judgement_is_of_the_stored_plan_witness:
  "\<exists>db' row result. validate_and_record_plan ''E2'' ''PLAN-1'' [sample_command] tiny_ceilings 1 1
        (\<lambda>d. foldl plan_exec d [PCreate ''E9'' ''PLAN-2'' ''PKG-2'' ''i'' tiny_plan PLAN_SYSTEM 0])
        (reachable_plans [PCreate ''E1'' ''PLAN-1'' ''PKG-1'' ''i'' tiny_plan PLAN_SYSTEM 0]) = (db', Inr (row, result))
      \<and> get_plan db' ''PLAN-1'' = Inr row \<and> pl_status row = VALIDATED"
proof -
  let ?db = "reachable_plans [PCreate ''E1'' ''PLAN-1'' ''PKG-1'' ''i'' tiny_plan PLAN_SYSTEM 0]"
  let ?others = "[PCreate ''E9'' ''PLAN-2'' ''PKG-2'' ''i'' tiny_plan PLAN_SYSTEM 0]"
  obtain seen where seen: "get_plan ?db ''PLAN-1'' = Inr seen" "pl_version seen = 1" "pl_plan seen = tiny_plan"
    by (simp add: plan_eval)
  obtain db' row result where run: "validate_and_record_plan ''E2'' ''PLAN-1'' [sample_command] tiny_ceilings 1 1
        (\<lambda>d. foldl plan_exec d ?others) ?db = (db', Inr (row, result))"
    by (simp add: validate_and_record_plan_def plan_eval Let_def)
  have "plan_sound (pl_plan row) (map vc_name [sample_command]) tiny_ceilings (Some [sample_command])"
    using judgement_is_of_the_stored_plan [OF wf_reachable_plans seen(1) _ run] seen tiny_plan_sound
    by (simp add: sample_command_def)
  with judgement_is_of_the_stored_plan [OF wf_reachable_plans seen(1) _ run] seen(2) run show ?thesis by auto
qed

end
