(* ===== verification/Slice_Package.thy ===== *)
theory Slice_Package
  imports Plan_Log Effects Task_Log Patch_Apply
begin

section \<open>Slice ledger and packages (architect/slice_store.py, slice_schema.py, slice_package.py)\<close>

text \<open>
  The ledger of slice executions, one row for each plan and slice, and the package that states exactly what approving a
  slice authorises. Git and the file system are the record \<open>plan_git\<close> over a type of repositories; the digest of a
  package and the digest that makes a task identifier are parameters. A fact of the derived specification keeps its
  source, its field and its values, without the label text around them.
\<close>

subsection \<open>The ledger\<close>

datatype slice_status =
    PACKAGED | APPROVED_SLICE | RUNNING_SLICE | COMPLETE_SLICE | HUMAN_REVIEW_SLICE | FAILED_SLICE | SUPERSEDED_SLICE

record slice_row =
  sx_plan :: string
  sx_slice :: string
  sx_plan_version :: int
  sx_status :: slice_status
  sx_package :: "digest option"
  sx_task :: "string option"
  sx_task_version :: "int option"
  sx_operation :: "string option"
  sx_version :: int

datatype service_error =
    SlicePackagingError | SliceApprovalError | ActiveSliceExecutionExistsError string | SliceExecutionNotFoundError
  | ConcurrentSliceExecutionTransitionError | SliceResetError | FromPlanStore plan_error | FromTaskStore store_error
  | SpecificationInvalid | Escaping string

definition sx_key :: "slice_row \<Rightarrow> string \<times> string" where
  "sx_key r = (sx_plan r, sx_slice r)"

type_synonym slice_table = "slice_row list"

definition slice_get :: "string \<Rightarrow> string \<Rightarrow> slice_table \<Rightarrow> service_error + slice_row" where
  "slice_get p s t = (case row_of sx_key (p, s) t of None \<Rightarrow> Inl SliceExecutionNotFoundError | Some r \<Rightarrow> Inr r)"

definition list_for_plan :: "string \<Rightarrow> slice_table \<Rightarrow> slice_table" where
  "list_for_plan p t = sort_key sx_slice (filter (\<lambda>r. sx_plan r = p) t)"

definition record_package ::
  "string \<Rightarrow> string \<Rightarrow> int \<Rightarrow> digest \<Rightarrow> slice_table \<Rightarrow> slice_table \<times> (service_error + slice_row)" where
  "record_package p s plan_version sha t =
     (case row_of sx_key (p, s) t of
        None \<Rightarrow>
          (let t' = t @ [\<lparr>sx_plan = p, sx_slice = s, sx_plan_version = plan_version, sx_status = PACKAGED,
                         sx_package = Some sha, sx_task = None, sx_task_version = None, sx_operation = None,
                         sx_version = 1\<rparr>]
           in (t', slice_get p s t'))
      | Some row \<Rightarrow>
          if sx_status row \<noteq> PACKAGED then (t, Inl SlicePackagingError)
          else (let t' = snd (update_rows sx_key (p, s) (\<lambda>_. True)
                       (\<lambda>r. r\<lparr>sx_plan_version := plan_version, sx_package := Some sha, sx_version := sx_version r + 1\<rparr>) t)
                in (t', slice_get p s t')))"

definition slice_approve ::
  "string \<Rightarrow> string \<Rightarrow> digest \<Rightarrow> string \<Rightarrow> int \<Rightarrow> slice_table \<Rightarrow> slice_table \<times> (service_error + slice_row)" where
  "slice_approve p s expected_sha task task_version t =
     (case row_of sx_key (p, s) t of
        None \<Rightarrow> (t, Inl SliceExecutionNotFoundError)
      | Some row \<Rightarrow>
          if sx_status row \<noteq> PACKAGED then (t, Inl SliceApprovalError)
          else if sx_package row \<noteq> Some expected_sha then (t, Inl SliceApprovalError)
          else (case update_rows sx_key (p, s) (\<lambda>r. sx_version r = sx_version row)
                     (\<lambda>r. r\<lparr>sx_status := APPROVED_SLICE, sx_task := Some task, sx_task_version := Some task_version,
                            sx_version := sx_version r + 1\<rparr>) t of
                  (n, t') \<Rightarrow> if n \<noteq> 1 then (t, Inl ConcurrentSliceExecutionTransitionError) else (t', slice_get p s t')))"

definition record_execution_operation ::
  "string \<Rightarrow> string \<Rightarrow> string \<Rightarrow> slice_table \<Rightarrow> slice_table \<times> (service_error + slice_row)" where
  "record_execution_operation p s operation t =
     (case update_rows sx_key (p, s) (\<lambda>_. True)
             (\<lambda>r. r\<lparr>sx_operation := Some operation, sx_version := sx_version r + 1\<rparr>) t of
        (n, t') \<Rightarrow> if n \<noteq> 1 then (t, Inl SliceExecutionNotFoundError) else (t', slice_get p s t'))"

text \<open>\<open>discard\<close> reads first and deletes the row of the version it read; \<open>others\<close> is what happens in between.\<close>

definition slice_discard ::
  "string \<Rightarrow> string \<Rightarrow> (slice_table \<Rightarrow> slice_table) \<Rightarrow> slice_table \<Rightarrow> slice_table \<times> (service_error + slice_row)" where
  "slice_discard p s others t =
     (case slice_get p s t of
        Inl e \<Rightarrow> (t, Inl e)
      | Inr row \<Rightarrow>
          (case delete_rows sx_key (p, s) (\<lambda>r. sx_version r = sx_version row) (others t) of
             (n, t') \<Rightarrow> if n \<noteq> 1 then (others t, Inl ConcurrentSliceExecutionTransitionError) else (t', Inr row)))"

subsection \<open>The derived specification\<close>

record slice_fact =
  sf_source :: string
  sf_field :: string
  sf_values :: "string list"

record derived_specification = task_specification +
  ds_facts :: "slice_fact list"
  ds_requirements :: "string list"

record slice_contract =
  sc_reference :: string
  sc_summary :: string
  sc_work_brief :: string
  sc_interfaces :: "string list"
  sc_tests :: "string list"
  sc_failures :: "string list"
  sc_exclusions :: "string list"
  sc_assumptions :: "string list"
  sc_stops :: "string list"
  sc_inherited :: "string list"
  sc_roots :: "string list"
  sc_paths :: "string list"
  sc_symbols :: "string list"

definition inherited_boundary :: "string list \<Rightarrow> string list" where
  "inherited_boundary inherited = (if inherited = [] then [] else [''inherited work is out of scope for this slice''])"

definition slice_contract_facts :: "slice_contract \<Rightarrow> slice_fact list" where
  "slice_contract_facts c =
     (let fact = (\<lambda>(field, values). \<lparr>sf_source = sc_reference c, sf_field = field, sf_values = values\<rparr>) in
      map fact [(''architecture-summary'', [sc_summary c]), (''work-brief'', [sc_work_brief c])]
      @ map fact (filter (\<lambda>(_, values). values \<noteq> [])
          [(''interface-contracts'', sc_interfaces c), (''test-obligations'', sc_tests c), (''failure-cases'', sc_failures c),
           (''exclusions'', sc_exclusions c), (''integration-assumptions'', sc_assumptions c), (''stop-conditions'', sc_stops c),
           (''inherited-code-boundary'', inherited_boundary (sc_inherited c)), (''test-discovery-roots'', sc_roots c),
           (''suggested-paths'', sc_paths c), (''suggested-symbols'', sc_symbols c)]))"

subsection \<open>Packages\<close>

datatype evidence_reason =
    NotPackaged | NotApproved | TaskNotComplete workflow_state | WorktreeGone | NoResolvableCommit | CompleteWithTip

record dependency_evidence =
  de_slice :: string
  de_satisfied :: bool
  de_reason :: evidence_reason
  de_task :: "string option"
  de_branch :: "string option"
  de_commit :: "string option"

record slice_package =
  sp_id :: string
  sp_plan :: string
  sp_plan_version :: int
  sp_plan_package :: string
  sp_approved_plan :: architecture_plan
  sp_slice :: string
  sp_contract :: slice_contract
  sp_constraints :: "hard_constraint list"
  sp_criteria :: "acceptance_criterion list"
  sp_commands :: "string list"
  sp_evidence :: "dependency_evidence list"
  sp_head :: string
  sp_fingerprint :: digest
  sp_base :: string
  sp_inherited :: "string list"
  sp_specification :: derived_specification
  sp_sha :: digest

record 'w plan_git =
  gv_root :: string
  gv_origin :: "'w \<Rightarrow> string \<Rightarrow> service_error + string"
  gv_fingerprint :: "'w \<Rightarrow> string + string \<times> digest"
  gv_describe :: "'w \<Rightarrow> string \<Rightarrow> (path \<times> string) option"
  gv_is_root :: "'w \<Rightarrow> path \<Rightarrow> bool"
  gv_dirty :: "'w \<Rightarrow> path \<Rightarrow> string + bool"
  gv_commit_all :: "string \<Rightarrow> path \<Rightarrow> 'w \<Rightarrow> (string + unit) \<times> 'w"
  gv_head :: "'w \<Rightarrow> path \<Rightarrow> string + string"
  gv_tip :: "'w \<Rightarrow> string \<Rightarrow> string"
  gv_ancestor :: "'w \<Rightarrow> string \<Rightarrow> string \<Rightarrow> bool"
  gv_discard :: "string \<Rightarrow> 'w \<Rightarrow> 'w"

record 'w plan_world =
  pw_plans :: plan_db
  pw_slices :: slice_table
  pw_tasks :: "derived_specification task_db"
  pw_packages :: "slice_package list"
  pw_repo :: 'w
  pw_tick :: nat

record 'w plan_env =
  pn_git :: "'w plan_git"
  pn_commands :: "verification_command list"
  pn_ceilings :: plan_ceilings
  pn_event_id :: "nat \<Rightarrow> string"
  pn_package_id :: "nat \<Rightarrow> string"
  pn_now :: "nat \<Rightarrow> int"
  pn_digest :: "slice_package \<Rightarrow> digest"
  pn_sha :: "string \<Rightarrow> digest"
  pn_execute :: "string \<Rightarrow> string \<Rightarrow> int \<Rightarrow> 'w plan_world \<Rightarrow> (service_error + unit) \<times> 'w plan_world"

type_synonym ('w, 'a) plan_action = "(service_error, 'w plan_world, 'a) action"

definition on_error :: "('e \<Rightarrow> 'f) \<Rightarrow> 'e + 'a \<Rightarrow> 'f + 'a" where
  "on_error f r = (case r of Inl e \<Rightarrow> Inl (f e) | Inr x \<Rightarrow> Inr x)"

definition find_slice :: "architecture_plan \<Rightarrow> string \<Rightarrow> service_error + implementation_slice" where
  "find_slice plan s =
     (case find (\<lambda>i. is_id i = s) (ap_slices plan) of None \<Rightarrow> Inl SlicePackagingError | Some i \<Rightarrow> Inr i)"

text \<open>The exact records of the plan, by identifier; a missing one stops the packaging.\<close>

fun exact_records :: "(string \<rightharpoonup> 'r) \<Rightarrow> string list \<Rightarrow> service_error + 'r list" where
  "exact_records by_id [] = Inr []"
| "exact_records by_id (i # ids) =
     (case by_id i of
        None \<Rightarrow> Inl SlicePackagingError
      | Some r \<Rightarrow> (case exact_records by_id ids of Inl e \<Rightarrow> Inl e | Inr rs \<Rightarrow> Inr (r # rs)))"

definition exact_constraints :: "architecture_plan \<Rightarrow> implementation_slice \<Rightarrow> service_error + hard_constraint list" where
  "exact_constraints plan s = exact_records (dict_of (map (\<lambda>c. (hc_id c, c)) (ap_constraints plan))) (is_constraints s)"

definition exact_criteria :: "architecture_plan \<Rightarrow> implementation_slice \<Rightarrow> service_error + acceptance_criterion list" where
  "exact_criteria plan s = exact_records (dict_of (map (\<lambda>c. (cn_id c, c)) (ap_criteria plan))) (is_criteria s)"

definition slug_of :: "string \<Rightarrow> string" where
  "slug_of tid = lower (if starts_with tid ''TASK-'' then drop 5 tid else tid)"

definition upper_char :: "char \<Rightarrow> char" where
  "upper_char c = (if of_char c \<ge> (97::nat) \<and> of_char c \<le> (122::nat) then char_of (of_char c - (32::nat)) else c)"

text \<open>The identifier of the task derived from a slice, and the reference of its package.\<close>

definition derived_task_id :: "'w plan_env \<Rightarrow> string \<Rightarrow> string \<Rightarrow> int \<Rightarrow> string" where
  "derived_task_id E p s v =
     ''TASK-'' @ map upper_char (take 24 (pn_sha E (p @ '':'' @ s @ '':'' @ decimal (nat v))))"

definition package_reference :: "string \<Rightarrow> int \<Rightarrow> string \<Rightarrow> string" where
  "package_reference p v s = p @ ''@v'' @ decimal (nat v) @ ''/'' @ s"

subsection \<open>Evidence and checkpoints\<close>

definition evidence ::
  "string \<Rightarrow> bool \<Rightarrow> evidence_reason \<Rightarrow> string option \<Rightarrow> string option \<Rightarrow> string option \<Rightarrow> dependency_evidence" where
  "evidence s ok reason task branch commit =
     \<lparr>de_slice = s, de_satisfied = ok, de_reason = reason, de_task = task, de_branch = branch, de_commit = commit\<rparr>"

definition dependency_proof ::
  "'w plan_env \<Rightarrow> string \<Rightarrow> 'w plan_world \<Rightarrow> string \<Rightarrow> service_error + dependency_evidence" where
  "dependency_proof E p w d =
     (case slice_get p d (pw_slices w) of
        Inl _ \<Rightarrow> Inr (evidence d False NotPackaged None None None)
      | Inr row \<Rightarrow>
          (case sx_task row of
             None \<Rightarrow> Inr (evidence d False NotApproved None None None)
           | Some tid \<Rightarrow>
               (case get_task (pw_tasks w) tid of
                  Inl e \<Rightarrow> Inl (FromTaskStore e)
                | Inr task \<Rightarrow>
                    if tr_state task \<noteq> COMPLETE then Inr (evidence d False (TaskNotComplete (tr_state task)) (Some tid) None None)
                    else (case gv_describe (pn_git E) (pw_repo w) (slug_of tid) of
                            None \<Rightarrow> Inr (evidence d False WorktreeGone (Some tid) None None)
                          | Some (_, branch) \<Rightarrow>
                              (let tip = gv_tip (pn_git E) (pw_repo w) branch in
                               if tip = [] then Inr (evidence d False NoResolvableCommit (Some tid) (Some branch) None)
                               else Inr (evidence d True CompleteWithTip (Some tid) (Some branch) (Some tip)))))))"

fun dependency_proofs ::
  "'w plan_env \<Rightarrow> string \<Rightarrow> 'w plan_world \<Rightarrow> string list \<Rightarrow> service_error + dependency_evidence list" where
  "dependency_proofs E p w [] = Inr []"
| "dependency_proofs E p w (d # ds) =
     (case dependency_proof E p w d of
        Inl e \<Rightarrow> Inl e
      | Inr ev \<Rightarrow> (case dependency_proofs E p w ds of Inl e \<Rightarrow> Inl e | Inr evs \<Rightarrow> Inr (ev # evs)))"

text \<open>One completed slice: its worktree must be a worktree of its own, its changes are committed, its tip is read.\<close>

definition checkpoint_worktree :: "'w plan_git \<Rightarrow> string \<Rightarrow> 'w \<Rightarrow> (service_error + string) \<times> 'w" where
  "checkpoint_worktree G tid w =
     (case gv_describe G w (slug_of tid) of
        None \<Rightarrow> (Inl SlicePackagingError, w)
      | Some (path, _) \<Rightarrow>
          if \<not> gv_is_root G w path then (Inl SlicePackagingError, w)
          else (case gv_dirty G w path of
                  Inl e \<Rightarrow> (Inl (Escaping e), w)
                | Inr dirty \<Rightarrow>
                    (case (if dirty then gv_commit_all G tid path w else (Inr (), w)) of
                       (Inl e, w') \<Rightarrow> (Inl (Escaping e), w')
                     | (Inr _, w') \<Rightarrow> (on_error Escaping (gv_head G w' path), w'))))"

text \<open>The completed slices in plan order with their tips; a slice without a complete task is passed over.\<close>

fun checkpoint_slices ::
  "'w plan_git \<Rightarrow> string \<Rightarrow> slice_table \<Rightarrow> derived_specification task_db \<Rightarrow> string list \<Rightarrow> 'w
    \<Rightarrow> (service_error + (string \<times> string) list) \<times> 'w" where
  "checkpoint_slices G p t tasks [] w = (Inr [], w)"
| "checkpoint_slices G p t tasks (s # ss) w =
     (case slice_get p s t of
        Inl _ \<Rightarrow> checkpoint_slices G p t tasks ss w
      | Inr row \<Rightarrow>
          (case sx_task row of
             None \<Rightarrow> checkpoint_slices G p t tasks ss w
           | Some tid \<Rightarrow>
               (case get_task tasks tid of
                  Inl e \<Rightarrow> (Inl (FromTaskStore e), w)
                | Inr task \<Rightarrow>
                    if tr_state task \<noteq> COMPLETE then checkpoint_slices G p t tasks ss w
                    else (case checkpoint_worktree G tid w of
                            (Inl e, w') \<Rightarrow> (Inl e, w')
                          | (Inr tip, w') \<Rightarrow>
                              (case checkpoint_slices G p t tasks ss w' of
                                 (Inl e, w'') \<Rightarrow> (Inl e, w'')
                               | (Inr rest, w'') \<Rightarrow> (Inr ((s, tip) # rest), w''))))))"

text \<open>The first tip that descends from every tip.\<close>

definition integrated_tip :: "'w plan_git \<Rightarrow> 'w \<Rightarrow> (string \<times> string) list \<Rightarrow> string option" where
  "integrated_tip G w inherited =
     find (\<lambda>c. list_all (\<lambda>d. gv_ancestor G w (snd d) c) inherited) (map snd inherited)"

definition checkpoint_completed_prior_slices ::
  "'w plan_git \<Rightarrow> string \<Rightarrow> architecture_plan \<Rightarrow> string \<Rightarrow> bool \<Rightarrow> slice_table \<Rightarrow> derived_specification task_db \<Rightarrow> 'w
    \<Rightarrow> (service_error + string option \<times> string list) \<times> 'w" where
  "checkpoint_completed_prior_slices G p plan current include_current t tasks w =
     (if \<not> list_ex (\<lambda>i. is_id i = current) (ap_slices plan) then (Inl SlicePackagingError, w)
      else (case checkpoint_slices G p t tasks
                   (filter (\<lambda>s. s \<noteq> current \<or> include_current) (map is_id (ap_slices plan))) w of
              (Inl e, w') \<Rightarrow> (Inl e, w')
            | (Inr inherited, w') \<Rightarrow>
                if inherited = [] then (Inr (None, []), w')
                else (case integrated_tip G w' inherited of
                        None \<Rightarrow> (Inl SlicePackagingError, w')
                      | Some tip \<Rightarrow> (Inr (Some tip, map fst inherited), w'))))"

subsection \<open>Building a package\<close>

definition slice_contract_of ::
  "'w plan_env \<Rightarrow> string \<Rightarrow> int \<Rightarrow> architecture_plan \<Rightarrow> implementation_slice \<Rightarrow> string list \<Rightarrow> slice_contract" where
  "slice_contract_of E p v plan s inherited =
     \<lparr>sc_reference = package_reference p v (is_id s), sc_summary = ap_summary plan, sc_work_brief = is_brief s,
      sc_interfaces = is_interfaces s, sc_tests = is_tests s, sc_failures = is_failures s, sc_exclusions = is_exclusions s,
      sc_assumptions = is_assumptions s, sc_stops = is_stops s, sc_inherited = inherited,
      sc_roots = slice_discovery_roots s (discovery_roots_by_command (Some (pn_commands E))),
      sc_paths = is_paths s, sc_symbols = is_symbols s\<rparr>"

definition derived_specification_of ::
  "string \<Rightarrow> slice_contract \<Rightarrow> implementation_slice \<Rightarrow> acceptance_criterion list \<Rightarrow> hard_constraint list
    \<Rightarrow> derived_specification" where
  "derived_specification_of tid contract s criteria constraints =
     \<lparr>ts_task = tid,
      ts_objective = \<lparr>st_text = is_objective s, st_source = APPROVED_DECISION, st_reference = sc_reference contract\<rparr>,
      ts_criteria = criteria, ts_constraints = constraints, ts_risk = is_risk s,
      ds_facts = slice_contract_facts contract, ds_requirements = is_commands s\<rparr>"

text \<open>The hash leaves out the fresh identifier of the package and the hash itself.\<close>

definition sealed :: "'w plan_env \<Rightarrow> slice_package \<Rightarrow> slice_package" where
  "sealed E pkg = pkg\<lparr>sp_sha := pn_digest E (pkg\<lparr>sp_id := [], sp_sha := []\<rparr>)\<rparr>"

definition plan_ready :: "'w plan_env \<Rightarrow> string \<Rightarrow> int \<Rightarrow> 'w plan_world \<Rightarrow> service_error + plan_row" where
  "plan_ready E p expected w =
     (case get_plan (pw_plans w) p of
        Inl e \<Rightarrow> Inl (FromPlanStore e)
      | Inr record \<Rightarrow>
          if pl_version record \<noteq> expected then Inl SlicePackagingError
          else if pl_status record \<noteq> APPROVED_PLAN then Inl SlicePackagingError
          else Inr record)"

text \<open>The gates before anything is copied: plan, provenance, repository, current configuration.\<close>

definition plan_gates :: "'w plan_env \<Rightarrow> string \<Rightarrow> int \<Rightarrow> 'w plan_world \<Rightarrow> service_error + plan_row" where
  "plan_gates E p expected w =
     (case plan_ready E p expected w of
        Inl e \<Rightarrow> Inl e
      | Inr record \<Rightarrow>
          (case gv_origin (pn_git E) (pw_repo w) (pl_package record) of
             Inl e \<Rightarrow> Inl e
           | Inr origin \<Rightarrow>
               if origin \<noteq> gv_root (pn_git E) then Inl SlicePackagingError
               else if list_ex (\<lambda>f. fi_severity f = SEVERITY_ERROR)
                      (validate_plan (pl_plan record) (map vc_name (pn_commands E)) (pn_ceilings E) (Some (pn_commands E)))
               then Inl SlicePackagingError
               else Inr record))"

definition build_package ::
  "'w plan_env \<Rightarrow> string \<Rightarrow> string \<Rightarrow> int \<Rightarrow> string option \<Rightarrow> string list \<Rightarrow> 'w plan_world \<Rightarrow> service_error + slice_package" where
  "build_package E p s expected base inherited w =
     and_then (plan_gates E p expected w) (\<lambda>record.
     and_then (find_slice (pl_plan record) s) (\<lambda>item.
     and_then (dependency_proofs E p w (is_dependencies item)) (\<lambda>evs.
       if list_ex (\<lambda>e. \<not> de_satisfied e) evs then Inl SlicePackagingError
       else
     and_then (exact_constraints (pl_plan record) item) (\<lambda>constraints.
     and_then (exact_criteria (pl_plan record) item) (\<lambda>criteria.
     and_then (on_error Escaping (gv_fingerprint (pn_git E) (pw_repo w))) (\<lambda>(head, fp).
       let contract = slice_contract_of E p expected (pl_plan record) item inherited;
           spec = derived_specification_of (derived_task_id E p s expected) contract item criteria constraints
       in if \<not> specification_valid (task_specification.truncate spec) then Inl SpecificationInvalid
          else Inr (sealed E
            \<lparr>sp_id = pn_package_id E (pw_tick w), sp_plan = p, sp_plan_version = expected,
             sp_plan_package = pl_package record, sp_approved_plan = pl_plan record, sp_slice = s, sp_contract = contract,
             sp_constraints = constraints, sp_criteria = criteria, sp_commands = is_commands item, sp_evidence = evs,
             sp_head = head, sp_fingerprint = fp, sp_base = (case base of None \<Rightarrow> head | Some b \<Rightarrow> if b = [] then head else b),
             sp_inherited = inherited, sp_specification = spec, sp_sha = []\<rparr>)))))))"

end
