(* ===== verification/Slice_Service.thy ===== *)
theory Slice_Service
  imports Slice_Package
begin

section \<open>Executing the slices of a plan (architect/slice_service.py)\<close>

text \<open>
  Packaging, approval, start, reset and retry of one slice, over the plan store, the slice ledger, the task store, the
  written packages and the repository. The durable execution of a task is the parameter \<open>pn_execute\<close>. The evidence a
  status projection adds to the status is left out.
\<close>

subsection \<open>Calls of the stores\<close>

definition on_slices :: "(slice_table \<Rightarrow> slice_table \<times> (service_error + 'a)) \<Rightarrow> ('w, 'a) plan_action" where
  "on_slices f w = (case f (pw_slices w) of (t, r) \<Rightarrow> (r, w\<lparr>pw_slices := t\<rparr>))"

text \<open>A write to the task store under a fresh event identifier and at the current time.\<close>

definition on_tasks ::
  "'w plan_env \<Rightarrow> (string \<Rightarrow> int \<Rightarrow> derived_specification task_db
       \<Rightarrow> derived_specification task_db \<times> (store_error + derived_specification task_row))
    \<Rightarrow> ('w, derived_specification task_row) plan_action" where
  "on_tasks E f w =
     (case f (pn_event_id E (pw_tick w)) (pn_now E (pw_tick w)) (pw_tasks w) of
        (db, r) \<Rightarrow> (on_error FromTaskStore r, w\<lparr>pw_tasks := db, pw_tick := Suc (pw_tick w)\<rparr>))"

definition task_of :: "string \<Rightarrow> 'w plan_world \<Rightarrow> service_error + derived_specification task_row" where
  "task_of tid w = on_error FromTaskStore (get_task (pw_tasks w) tid)"

definition on_repo :: "('w \<Rightarrow> (service_error + 'a) \<times> 'w) \<Rightarrow> ('w, 'a) plan_action" where
  "on_repo f w = (case f (pw_repo w) of (r, repo) \<Rightarrow> (r, w\<lparr>pw_repo := repo\<rparr>))"

subsection \<open>Packaging and approval\<close>

definition write_package :: "slice_package \<Rightarrow> 'w plan_world \<Rightarrow> 'w plan_world" where
  "write_package pkg w = w\<lparr>pw_packages := pw_packages w @ [pkg], pw_tick := Suc (pw_tick w)\<rparr>"

definition package_slice :: "'w plan_env \<Rightarrow> string \<Rightarrow> string \<Rightarrow> int \<Rightarrow> ('w, slice_package) plan_action" where
  "package_slice E p s expected =
     bnd (asking (plan_ready E p expected)) (\<lambda>record.
     bnd (asking (build_package E p s expected None [])) (\<lambda>_.
     bnd (\<lambda>w. on_repo (checkpoint_completed_prior_slices (pn_git E) p (pl_plan record) s False (pw_slices w) (pw_tasks w)) w)
       (\<lambda>(base, inherited).
     bnd (asking (build_package E p s expected base inherited)) (\<lambda>pkg.
     bnd (assign (write_package pkg)) (\<lambda>_.
     bnd (on_slices (record_package p s expected (sp_sha pkg))) (\<lambda>_.
     pure pkg))))))"

text \<open>The states of a task in which its slice is over.\<close>

definition task_state_to_slice_status :: "workflow_state \<Rightarrow> slice_status option" where
  "task_state_to_slice_status st =
     (case st of COMPLETE \<Rightarrow> Some COMPLETE_SLICE | HUMAN_REVIEW_REQUIRED \<Rightarrow> Some HUMAN_REVIEW_SLICE
      | FAILED \<Rightarrow> Some FAILED_SLICE | ROLLED_BACK \<Rightarrow> Some FAILED_SLICE | _ \<Rightarrow> None)"

fun first_active ::
  "derived_specification task_db \<Rightarrow> string \<Rightarrow> slice_row list \<Rightarrow> service_error + slice_row option" where
  "first_active tasks s [] = Inr None"
| "first_active tasks s (r # rs) =
     (if sx_slice r = s \<or> sx_status r \<noteq> APPROVED_SLICE \<or> sx_task r = None then first_active tasks s rs
      else (case get_task tasks (the (sx_task r)) of
              Inl e \<Rightarrow> Inl (FromTaskStore e)
            | Inr task \<Rightarrow>
                if task_state_to_slice_status (tr_state task) = None then Inr (Some r) else first_active tasks s rs))"

definition other_slice_is_genuinely_active :: "string \<Rightarrow> string \<Rightarrow> 'w plan_world \<Rightarrow> service_error + slice_row option" where
  "other_slice_is_genuinely_active p s w = first_active (pw_tasks w) s (list_for_plan p (pw_slices w))"

definition read_latest_slice_package :: "string \<Rightarrow> string \<Rightarrow> 'w plan_world \<Rightarrow> slice_package option" where
  "read_latest_slice_package p s w =
     (let written = filter (\<lambda>k. sp_plan k = p \<and> sp_slice k = s) (pw_packages w)
      in if written = [] then None else Some (last written))"

definition load_latest_package :: "string \<Rightarrow> string \<Rightarrow> 'w plan_world \<Rightarrow> service_error + slice_package" where
  "load_latest_package p s w =
     (case slice_get p s (pw_slices w) of
        Inl e \<Rightarrow> Inl e
      | Inr row \<Rightarrow>
          if sx_status row \<noteq> PACKAGED then Inl SliceApprovalError
          else (case read_latest_slice_package p s w of None \<Rightarrow> Inl SliceApprovalError | Some pkg \<Rightarrow> Inr pkg))"

definition approve_slice ::
  "'w plan_env \<Rightarrow> string \<Rightarrow> string \<Rightarrow> digest \<Rightarrow> workflow_actor \<Rightarrow> string \<Rightarrow> ('w, slice_row) plan_action" where
  "approve_slice E p s expected_sha actor etype =
     bnd (asking (load_latest_package p s)) (\<lambda>pkg.
     if sp_sha pkg \<noteq> expected_sha then raising SliceApprovalError
     else bnd (asking (other_slice_is_genuinely_active p s)) (\<lambda>active.
     case active of
       Some r \<Rightarrow> raising (ActiveSliceExecutionExistsError (sx_slice r))
     | None \<Rightarrow>
         (let spec = sp_specification pkg; tid = ts_task spec in
          bnd (on_tasks E (\<lambda>eid now. create_task eid tid spec USER now)) (\<lambda>created.
          bnd (on_tasks E (\<lambda>eid now. transition eid tid SPEC_DRAFTED SYSTEM ''plan_slice_specification_drafted'' None
                                      (Some (tr_version created)) now)) (\<lambda>drafted.
          bnd (on_tasks E (\<lambda>eid now. transition eid tid SPEC_APPROVED actor etype None (Some (tr_version drafted)) now))
            (\<lambda>approved.
          on_slices (slice_approve p s expected_sha tid (tr_version approved))))))))"

definition start_slice :: "'w plan_env \<Rightarrow> string \<Rightarrow> string \<Rightarrow> string \<Rightarrow> ('w, unit) plan_action" where
  "start_slice E p s operation =
     bnd (asking (\<lambda>w. slice_get p s (pw_slices w))) (\<lambda>row.
     if sx_status row \<noteq> APPROVED_SLICE then raising SliceApprovalError
     else (case (sx_task row, sx_task_version row) of
             (Some tid, Some v) \<Rightarrow>
               bnd (pn_execute E tid operation v) (\<lambda>_.
               bnd (on_slices (record_execution_operation p s operation)) (\<lambda>_. pure ()))
           | _ \<Rightarrow> raising (Escaping ''AssertionError'')))"

subsection \<open>Reset and retry\<close>

definition resettable_task_states :: "bool \<Rightarrow> workflow_state list" where
  "resettable_task_states allow_completed = [ROLLED_BACK, FAILED] @ (if allow_completed then [COMPLETE] else [])"

definition reset_slice :: "string \<Rightarrow> string \<Rightarrow> bool \<Rightarrow> ('w, slice_row) plan_action" where
  "reset_slice p s allow_completed =
     bnd (asking (\<lambda>w. slice_get p s (pw_slices w))) (\<lambda>row.
     bnd (case sx_task row of
            None \<Rightarrow> pure ()
          | Some tid \<Rightarrow>
              bnd (asking (task_of tid)) (\<lambda>task.
              if tr_state task = COMPLETE \<and> \<not> allow_completed then raising SliceResetError
              else if tr_state task \<notin> set (resettable_task_states allow_completed) then raising SliceResetError
              else (\<lambda>w. case delete_task tid (resettable_task_states allow_completed) (pw_tasks w) of
                     (db, Inl e) \<Rightarrow> (Inl (FromTaskStore e), w\<lparr>pw_tasks := db\<rparr>)
                   | (db, Inr _) \<Rightarrow> (Inr (), w\<lparr>pw_tasks := db\<rparr>))))
       (\<lambda>_. on_slices (slice_discard p s id)))"

definition abandonable_task_states :: "workflow_state list" where
  "abandonable_task_states = [HUMAN_REVIEW_REQUIRED, FAILED]"

definition retry_slice :: "'w plan_env \<Rightarrow> string \<Rightarrow> string \<Rightarrow> bool \<Rightarrow> ('w, slice_row) plan_action" where
  "retry_slice E p s allow_completed =
     bnd (asking (\<lambda>w. on_error FromPlanStore (get_plan (pw_plans w) p))) (\<lambda>plan_record.
     bnd (reading (\<lambda>w. row_of sx_key (p, s) (pw_slices w))) (\<lambda>record.
     bnd (case record of
            None \<Rightarrow> pure ()
          | Some row \<Rightarrow>
              bnd (case sx_task row of
                     None \<Rightarrow> pure ()
                   | Some tid \<Rightarrow>
                       bnd (asking (task_of tid)) (\<lambda>task.
                       bnd (if tr_state task \<in> set abandonable_task_states
                            then bnd (on_tasks E (\<lambda>eid now. transition eid tid ROLLED_BACK USER ''plan_slice_retry_abandoned''
                                                  None (Some (tr_version task)) now)) (\<lambda>_. pure ())
                            else pure ())
                         (\<lambda>_. assign (\<lambda>w. w\<lparr>pw_repo := gv_discard (pn_git E) (slug_of tid) (pw_repo w)\<rparr>))))
                (\<lambda>_. bnd (reset_slice p s allow_completed) (\<lambda>_. pure ())))
       (\<lambda>_.
     bnd (package_slice E p s (pl_version plan_record)) (\<lambda>pkg.
     approve_slice E p s (sp_sha pkg) USER ''plan_slice_specification_approved''))))"

subsection \<open>The projected status\<close>

datatype slice_view = READY_OR_BLOCKED "bool option" | KNOWN slice_status

definition project_slice_status :: "'w plan_env \<Rightarrow> string \<Rightarrow> string \<Rightarrow> 'w plan_world \<Rightarrow> service_error + slice_view" where
  "project_slice_status E p s w =
     and_then (on_error FromPlanStore (get_plan (pw_plans w) p)) (\<lambda>plan_record.
     case row_of sx_key (p, s) (pw_slices w) of
       None \<Rightarrow>
         (case find (\<lambda>i. is_id i = s) (ap_slices (pl_plan plan_record)) of
            None \<Rightarrow> Inr (READY_OR_BLOCKED None)
          | Some item \<Rightarrow>
              and_then (dependency_proofs E p w (is_dependencies item))
                (\<lambda>evs. Inr (READY_OR_BLOCKED (Some (list_all de_satisfied evs)))))
     | Some row \<Rightarrow>
         if sx_status row = PACKAGED then
           Inr (KNOWN (if sx_plan_version row \<noteq> pl_version plan_record then SUPERSEDED_SLICE else PACKAGED))
         else
           (case sx_task row of
              None \<Rightarrow> Inl (Escaping ''AssertionError'')
            | Some tid \<Rightarrow>
                and_then (task_of tid w) (\<lambda>task.
                Inr (KNOWN (if tr_state task = SPEC_APPROVED then APPROVED_SLICE
                            else (case task_state_to_slice_status (tr_state task) of
                                    None \<Rightarrow> RUNNING_SLICE | Some st \<Rightarrow> st))))))"

end
