(* ===== verification/Slice_Rules.thy ===== *)
theory Slice_Rules
  imports Slice_Service
begin

section \<open>What packaging and approving a slice guarantee\<close>

text \<open>
  A package is built only from an approved plan that is sound under the current configuration and with every dependency
  complete, and carries the plan's own records; an approval turns exactly the latest package into a task, when no other
  slice of the plan was still executing.
\<close>

subsection \<open>Writes to the task store\<close>

lemma get_task_select: "get_task db t = Inr r \<longleftrightarrow> select_task t db = Some r"
  by (auto simp: get_task_def split: option.splits)

lemma create_task_Inr:
  assumes wf: "wf_db db" and ok: "create_task eid tid spec actor now db = (db', Inr row)"
  shows "select_task tid db = None" "wf_db db'" "tr_state row = INTAKE" "tr_spec row = spec" "tr_id row = tid"
    "select_task t db' = (if t = tid then Some row else select_task t db)"
proof -
  from ok have body: "create_body eid tid spec actor now db = Inr db'" and get: "get_task db' tid = Inr row"
    by (auto simp: create_task_def return_task_def run_txn_def split: sum.splits store_error.splits)
  from create_wf [OF wf body] show "wf_db db'" .
  from body wf have new: "select_task tid db = None" and db': "db_tasks db' = db_tasks db @ [\<lparr>tr_id = tid, tr_spec = spec,
      tr_state = INTAKE, tr_version = 1, tr_created = now, tr_updated = now\<rparr>]"
    by (auto simp: create_body_eq split: if_splits)
  then have sel: "select_task t db' = (if t = tid then Some \<lparr>tr_id = tid, tr_spec = spec, tr_state = INTAKE,
      tr_version = 1, tr_created = now, tr_updated = now\<rparr> else select_task t db)" for t
    by (auto simp: select_task_def find_append split: option.splits)
  from new show "select_task tid db = None" .
  from sel [of tid] get have row: "row = \<lparr>tr_id = tid, tr_spec = spec, tr_state = INTAKE, tr_version = 1, tr_created = now,
      tr_updated = now\<rparr>" by (simp add: get_task_select)
  then show "tr_state row = INTAKE" "tr_spec row = spec" "tr_id row = tid" by simp_all
  from sel [of t] row show "select_task t db' = (if t = tid then Some row else select_task t db)" by simp
qed

lemma transition_Inr:
  assumes wf: "wf_db db" and ok: "transition eid tid target actor ty pl expected now db = (db', Inr row)"
  obtains old where "select_task tid db = Some old" "transition_is_allowed (tr_state old) target"
    "row = transition_row target now old" "wf_db db'"
    "\<And>t. select_task t db' = (if t = tid then Some row else select_task t db)"
proof -
  from ok have body: "transition_body eid tid target actor ty pl expected now db = Inr db'" and get: "get_task db' tid = Inr row"
    by (auto simp: transition_def return_task_def run_txn_def split: sum.splits if_splits)
  from body wf obtain old where old: "select_task tid db = Some old" "transition_is_allowed (tr_state old) target"
    and db': "db' = log_step old (transition_row target now old)
      (task_event db eid tid ty (tr_state old) target actor (sorted_payload pl) now) db"
    by (auto simp: transition_body_eq split: option.splits if_splits)
  have id: "tr_id (transition_row target now old) = tid" using old by (auto dest: select_task_SomeD)
  from select_log_step [OF wf old(1) id] have sel: "select_task t db' = (if t = tid then Some (transition_row target now old)
      else select_task t db)" for t by (simp add: db')
  with get have "row = transition_row target now old" by (simp add: get_task_select)
  with old sel transition_wf [OF wf body] show ?thesis by (intro that) auto
qed

lemma on_tasks_Inr:
  "on_tasks E f w = (Inr row, w') \<longleftrightarrow>
     (\<exists>db. f (pn_event_id E (pw_tick w)) (pn_now E (pw_tick w)) (pw_tasks w) = (db, Inr row)
        \<and> w' = w\<lparr>pw_tasks := db, pw_tick := Suc (pw_tick w)\<rparr>)"
  by (auto simp: on_tasks_def on_error_def split: prod.split sum.split)

lemma on_slices_Inr:
  "on_slices f w = (Inr x, w') \<longleftrightarrow> (\<exists>t. f (pw_slices w) = (t, Inr x) \<and> w' = w\<lparr>pw_slices := t\<rparr>)"
  by (auto simp: on_slices_def split: prod.split)

lemma bnd_Inr: "bnd m f w = (Inr x, w') \<longleftrightarrow> (\<exists>y w1. m w = (Inr y, w1) \<and> f y w1 = (Inr x, w'))"
  by (auto simp: bnd_def split: prod.splits sum.splits)

lemma on_error_Inr: "on_error f r = Inr x \<longleftrightarrow> r = Inr x"
  by (cases r) (auto simp: on_error_def)

subsection \<open>What a package is\<close>

definition dependency_complete :: "'w plan_world \<Rightarrow> string \<Rightarrow> string \<Rightarrow> bool" where
  "dependency_complete w p d =
     (\<exists>row tid task. slice_get p d (pw_slices w) = Inr row \<and> sx_task row = Some tid
        \<and> get_task (pw_tasks w) tid = Inr task \<and> tr_state task = COMPLETE)"

lemma dependency_proof_satisfied:
  "dependency_proof E p w d = Inr ev \<Longrightarrow> de_satisfied ev \<Longrightarrow> dependency_complete w p d"
  unfolding dependency_proof_def dependency_complete_def
  by (auto simp: evidence_def Let_def split: sum.splits option.splits if_splits prod.splits)

lemma dependency_proofs_satisfied:
  "dependency_proofs E p w ds = Inr evs \<Longrightarrow> \<not> list_ex (\<lambda>e. \<not> de_satisfied e) evs \<Longrightarrow> d \<in> set ds \<Longrightarrow> dependency_complete w p d"
  by (induction ds arbitrary: evs) (auto split: sum.splits dest: dependency_proof_satisfied)

lemma exact_records_Inr: "exact_records by_id ids = Inr rs \<Longrightarrow> map Some rs = map by_id ids"
  by (induction ids arbitrary: rs) (auto split: option.splits sum.splits)

lemma dict_of_distinct:
  "distinct (map k xs) \<Longrightarrow> x \<in> set xs \<Longrightarrow> dict_of (map (\<lambda>x. (k x, x)) xs) (k x) = Some x"
  unfolding dict_of_def by (rule map_of_is_SomeI) (auto simp: o_def rev_map [symmetric])

lemma dict_of_in: "dict_of (map (\<lambda>x. (k x, x)) xs) i = Some x \<Longrightarrow> x \<in> set xs \<and> k x = i"
  unfolding dict_of_def by (auto dest: map_of_SomeD)

lemma exact_records_of_plan:
  "exact_records (dict_of (map (\<lambda>x. (k x, x)) xs)) ids = Inr rs \<Longrightarrow> set rs \<subseteq> set xs \<and> map k rs = ids"
proof (induction ids arbitrary: rs)
  case (Cons i ids)
  then show ?case by (auto split: option.splits sum.splits dest: dict_of_in)
qed simp

lemma package_task:
  "build_package E p s expected base inherited w = Inr pkg \<Longrightarrow> ts_task (sp_specification pkg) = derived_task_id E p s expected"
  by (auto simp: build_package_def and_then_Inr sealed_def derived_specification_of_def Let_def split: if_splits)

text \<open>
  C13: a package authorises nothing but what was approved. When a package is built for a slice, the plan is APPROVED at the
  expected version and sound under the current configuration, every slice it depends on belongs to a task that is
  COMPLETE, the criteria and constraints it carries are records of the plan in the order the slice lists them, its task
  identifier is the one derived from plan, slice and version, and its specification passes the validators.
\<close>

theorem package_carries_approved_slice:
  assumes built: "build_package E p s expected base inherited w = Inr pkg"
  shows "\<exists>approved item. get_plan (pw_plans w) p = Inr approved \<and> pl_status approved = APPROVED_PLAN \<and> pl_version approved = expected
     \<and> plan_sound (pl_plan approved) (map vc_name (pn_commands E)) (pn_ceilings E) (Some (pn_commands E))
     \<and> item \<in> set (ap_slices (pl_plan approved)) \<and> is_id item = s
     \<and> (\<forall>d \<in> set (is_dependencies item). dependency_complete w p d)
     \<and> set (sp_criteria pkg) \<subseteq> set (ap_criteria (pl_plan approved)) \<and> map cn_id (sp_criteria pkg) = is_criteria item
     \<and> set (sp_constraints pkg) \<subseteq> set (ap_constraints (pl_plan approved)) \<and> map hc_id (sp_constraints pkg) = is_constraints item
     \<and> sp_commands pkg = is_commands item
     \<and> ts_criteria (sp_specification pkg) = sp_criteria pkg \<and> ts_constraints (sp_specification pkg) = sp_constraints pkg
     \<and> ts_task (sp_specification pkg) = derived_task_id E p s expected
     \<and> specification_valid (task_specification.truncate (sp_specification pkg))"
proof -
  from built obtain approved where gates: "plan_gates E p expected w = Inr approved"
    by (auto simp: build_package_def and_then_Inr)
  then have ready: "plan_ready E p expected w = Inr approved"
    and sound: "plan_sound (pl_plan approved) (map vc_name (pn_commands E)) (pn_ceilings E) (Some (pn_commands E))"
    by (auto simp: plan_gates_def some_error_iff split: sum.splits if_splits)
  from built gates obtain item evs constraints criteria where
    item: "find_slice (pl_plan approved) s = Inr item" and evs: "dependency_proofs E p w (is_dependencies item) = Inr evs"
      "\<not> list_ex (\<lambda>e. \<not> de_satisfied e) evs"
    and exact: "exact_constraints (pl_plan approved) item = Inr constraints" "exact_criteria (pl_plan approved) item = Inr criteria"
    and pkg: "sp_criteria pkg = criteria" "sp_constraints pkg = constraints" "sp_commands pkg = is_commands item"
      "ts_criteria (sp_specification pkg) = criteria" "ts_constraints (sp_specification pkg) = constraints"
      "ts_task (sp_specification pkg) = derived_task_id E p s expected"
      "specification_valid (task_specification.truncate (sp_specification pkg))"
    by (auto simp: build_package_def and_then_Inr sealed_def derived_specification_of_def Let_def split: if_splits)
  have "item \<in> set (ap_slices (pl_plan approved))" "is_id item = s"
    using item by (auto simp: find_slice_def split: option.splits dest: find_Some_in)
  moreover have "get_plan (pw_plans w) p = Inr approved" "pl_status approved = APPROVED_PLAN" "pl_version approved = expected"
    using ready by (auto simp: plan_ready_def split: sum.splits if_splits)
  ultimately show ?thesis
    using sound pkg dependency_proofs_satisfied [OF evs] exact [unfolded exact_constraints_def exact_criteria_def]
      exact_records_of_plan [of hc_id "ap_constraints (pl_plan approved)"]
      exact_records_of_plan [of cn_id "ap_criteria (pl_plan approved)"]
    by (intro exI [of _ approved] exI [of _ item]) simp
qed

subsection \<open>What an approval does\<close>

lemma first_active_None:
  "first_active tasks s rs = Inr None \<Longrightarrow> r \<in> set rs \<Longrightarrow> sx_slice r \<noteq> s \<Longrightarrow> sx_status r = APPROVED_SLICE \<Longrightarrow>
     sx_task r = Some tid \<Longrightarrow>
     \<exists>task. select_task tid tasks = Some task \<and> task_state_to_slice_status (tr_state task) \<noteq> None"
proof (induction rs)
  case (Cons q rs)
  then show ?case by (auto simp: get_task_select split: if_splits sum.splits)
qed simp

lemma slice_approve_Inr:
  "slice_approve p s sha tid v t = (t', Inr row) \<Longrightarrow>
     sx_status row = APPROVED_SLICE \<and> sx_task row = Some tid \<and> slice_get p s t' = Inr row"
proof -
  assume ok: "slice_approve p s sha tid v t = (t', Inr row)"
  then obtain old n where old: "row_of sx_key (p, s) t = Some old" and
    u: "update_rows sx_key (p, s) (\<lambda>r. sx_version r = sx_version old)
          (\<lambda>r. r\<lparr>sx_status := APPROVED_SLICE, sx_task := Some tid, sx_task_version := Some v, sx_version := sx_version r + 1\<rparr>) t
        = (n, t')" and get: "slice_get p s t' = Inr row"
    by (auto simp: slice_approve_def split: option.splits if_splits prod.splits)
  let ?f = "\<lambda>r. r\<lparr>sx_status := APPROVED_SLICE, sx_task := Some tid, sx_task_version := Some v, sx_version := sx_version r + 1\<rparr>"
  have "row_of sx_key (p, s) t' = map_option (\<lambda>r. if sx_key r = (p, s) \<and> sx_version r = sx_version old then ?f r else r)
      (row_of sx_key (p, s) t)"
    using row_of_update [of sx_key ?f "(p, s)" "(p, s)" "\<lambda>r. sx_version r = sx_version old" t] u by (simp add: sx_key_def)
  with old get row_of_SomeD [OF old] show ?thesis by (auto simp: slice_get_def)
qed

lemma approve_slice_effect:
  assumes wf: "wf_db (pw_tasks w)" and ok: "approve_slice E p s sha actor etype w = (Inr row, w')"
  obtains pkg final where "load_latest_package p s w = Inr pkg" "sp_sha pkg = sha"
    "other_slice_is_genuinely_active p s w = Inr None" "select_task (ts_task (sp_specification pkg)) (pw_tasks w) = None"
    "wf_db (pw_tasks w')"
    "\<And>t. select_task t (pw_tasks w') = (if t = ts_task (sp_specification pkg) then Some final else select_task t (pw_tasks w))"
    "tr_spec final = sp_specification pkg" "tr_state final = SPEC_APPROVED" "pw_plans w' = pw_plans w"
    "slice_approve p s sha (ts_task (sp_specification pkg)) (tr_version final) (pw_slices w) = (pw_slices w', Inr row)"
proof -
  from ok obtain pkg where pkg: "load_latest_package p s w = Inr pkg" "sp_sha pkg = sha"
    and free: "other_slice_is_genuinely_active p s w = Inr None"
    by (auto simp: approve_slice_def bnd_Inr split: if_splits option.splits)
  define tid where "tid = ts_task (sp_specification pkg)"
  from ok pkg free obtain created db1 drafted db2 final db3 t where
    c: "create_task (pn_event_id E (pw_tick w)) tid (sp_specification pkg) USER (pn_now E (pw_tick w)) (pw_tasks w) = (db1, Inr created)"
    and d: "transition (pn_event_id E (Suc (pw_tick w))) tid SPEC_DRAFTED SYSTEM ''plan_slice_specification_drafted'' None
        (Some (tr_version created)) (pn_now E (Suc (pw_tick w))) db1 = (db2, Inr drafted)"
    and a: "transition (pn_event_id E (Suc (Suc (pw_tick w)))) tid SPEC_APPROVED actor etype None (Some (tr_version drafted))
        (pn_now E (Suc (Suc (pw_tick w)))) db2 = (db3, Inr final)"
    and s: "slice_approve p s sha tid (tr_version final) (pw_slices w) = (t, Inr row)"
    and w': "pw_tasks w' = db3" "pw_slices w' = t" "pw_plans w' = pw_plans w"
    by (auto simp: approve_slice_def bnd_Inr on_tasks_Inr on_slices_Inr Let_def tid_def)
  note c' = create_task_Inr [OF wf c]
  obtain old where old: "select_task tid db1 = Some old" "transition_is_allowed (tr_state old) SPEC_DRAFTED"
    "drafted = transition_row SPEC_DRAFTED (pn_now E (Suc (pw_tick w))) old"
    "wf_db db2" "\<And>t. select_task t db2 = (if t = tid then Some drafted else select_task t db1)"
    by (rule transition_Inr [OF c'(2) d], rule that) assumption+
  obtain old2 where old2: "select_task tid db2 = Some old2" "transition_is_allowed (tr_state old2) SPEC_APPROVED"
    "final = transition_row SPEC_APPROVED (pn_now E (Suc (Suc (pw_tick w)))) old2" "wf_db db3"
    "\<And>t. select_task t db3 = (if t = tid then Some final else select_task t db2)"
    by (rule transition_Inr [OF old(4) a], rule that) assumption+
  have "old = created" using old(1) c'(6) [of tid] by simp
  moreover have "old2 = drafted" using old2(1) old(5) [of tid] by simp
  ultimately have "tr_spec final = sp_specification pkg" "tr_state final = SPEC_APPROVED" using old(3) old2(3) c'(4) by simp_all
  then show thesis
    using pkg free c'(1) w' s old2(4,5) old(5) c'(6) by (intro that [of pkg final]) (simp_all add: tid_def)
qed

text \<open>The slices of a plan that are executing: approved, with a task that is not in a state that ends its slice.\<close>

definition executing :: "'w plan_world \<Rightarrow> string \<Rightarrow> slice_row \<Rightarrow> bool" where
  "executing w p r =
     (r \<in> set (pw_slices w) \<and> sx_plan r = p \<and> sx_status r = APPROVED_SLICE
      \<and> (\<exists>tid. sx_task r = Some tid \<and>
           (\<forall>task. select_task tid (pw_tasks w) = Some task \<longrightarrow> task_state_to_slice_status (tr_state task) = None)))"

text \<open>
  C14: an approval turns exactly the previewed package into a task, and only when no other slice of the plan is executing.
  When \<open>approve_slice\<close> succeeds, the latest written package of the slice has the expected hash, no other slice of the plan
  was executing before, a new task in SPEC_APPROVED with the package's specification exists, the tasks of other slices are as
  before, and the row of the slice is APPROVED and names the new task.
\<close>

theorem approval_creates_the_previewed_task:
  assumes wf: "wf_db (pw_tasks w)" and ok: "approve_slice E p s sha actor etype w = (Inr row, w')"
  shows "\<exists>pkg task. read_latest_slice_package p s w = Some pkg \<and> sp_sha pkg = sha
     \<and> (\<forall>r. executing w p r \<longrightarrow> sx_slice r = s)
     \<and> select_task (ts_task (sp_specification pkg)) (pw_tasks w) = None
     \<and> select_task (ts_task (sp_specification pkg)) (pw_tasks w') = Some task
     \<and> tr_state task = SPEC_APPROVED \<and> tr_spec task = sp_specification pkg
     \<and> (\<forall>t. t \<noteq> ts_task (sp_specification pkg) \<longrightarrow> select_task t (pw_tasks w') = select_task t (pw_tasks w))
     \<and> slice_get p s (pw_slices w') = Inr row \<and> sx_status row = APPROVED_SLICE
     \<and> sx_task row = Some (ts_task (sp_specification pkg))"
proof -
  obtain pkg final where pkg: "load_latest_package p s w = Inr pkg" "sp_sha pkg = sha"
    and free: "other_slice_is_genuinely_active p s w = Inr None"
    and new: "select_task (ts_task (sp_specification pkg)) (pw_tasks w) = None"
      "\<And>t. select_task t (pw_tasks w') = (if t = ts_task (sp_specification pkg) then Some final else select_task t (pw_tasks w))"
      "tr_spec final = sp_specification pkg" "tr_state final = SPEC_APPROVED"
    and s: "slice_approve p s sha (ts_task (sp_specification pkg)) (tr_version final) (pw_slices w) = (pw_slices w', Inr row)"
    by (rule approve_slice_effect [OF wf ok], rule that) assumption+
  have "sx_slice r = s" if ex: "executing w p r" for r
  proof (rule ccontr)
    assume other: "sx_slice r \<noteq> s"
    from ex obtain tid' where r: "r \<in> set (list_for_plan p (pw_slices w))" "sx_status r = APPROVED_SLICE" "sx_task r = Some tid'"
      "\<forall>task. select_task tid' (pw_tasks w) = Some task \<longrightarrow> task_state_to_slice_status (tr_state task) = None"
      by (auto simp: executing_def list_for_plan_def)
    with first_active_None [OF free [unfolded other_slice_is_genuinely_active_def] r(1) other r(2,3)] show False by auto
  qed
  moreover have "read_latest_slice_package p s w = Some pkg"
    using pkg(1) by (auto simp: load_latest_package_def split: sum.splits if_splits option.splits)
  ultimately show ?thesis using pkg(2) new slice_approve_Inr [OF s] by (intro exI [of _ pkg] exI [of _ final]) simp
qed

subsection \<open>Witnesses\<close>

definition still_git :: "unit plan_git" where
  "still_git = \<lparr>gv_root = ''/r'', gv_origin = (\<lambda>_ _. Inr ''/r''), gv_fingerprint = (\<lambda>_. Inr (''c'', ''f'')),
     gv_describe = (\<lambda>_ _. None), gv_is_root = (\<lambda>_ _. True), gv_dirty = (\<lambda>_ _. Inr False),
     gv_commit_all = (\<lambda>_ _ w. (Inr (), w)), gv_head = (\<lambda>_ _. Inr ''c''), gv_tip = (\<lambda>_ _. ''c''),
     gv_ancestor = (\<lambda>_ _ _. True), gv_discard = (\<lambda>_ w. w)\<rparr>"

definition still_env :: "unit plan_env" where
  "still_env = \<lparr>pn_git = still_git, pn_commands = [sample_command], pn_ceilings = tiny_ceilings,
     pn_event_id = (\<lambda>n. replicate n (CHR ''e'')), pn_package_id = (\<lambda>n. replicate n (CHR ''p'')), pn_now = int,
     pn_digest = (\<lambda>_. ''d''), pn_sha = (\<lambda>s. ''0''), pn_execute = (\<lambda>_ _ _ w. (Inr (), w))\<rparr>"

definition tiny_world :: "slice_row list \<Rightarrow> slice_package list \<Rightarrow> unit plan_world" where
  "tiny_world rows pkgs = \<lparr>pw_plans = reachable_plans tiny_calls, pw_slices = rows, pw_tasks = empty_db, pw_packages = pkgs,
     pw_repo = (), pw_tick = 1\<rparr>"

definition tiny_row :: plan_row where
  "tiny_row = \<lparr>pl_id = ''PLAN-1'', pl_package = ''PKG-1'', pl_idea = ''i'', pl_plan = tiny_plan,
     pl_validation = Some tiny_judgement, pl_status = APPROVED_PLAN, pl_version = 3, pl_created = 0, pl_updated = 2\<rparr>"

lemma tiny_approved: "get_plan (reachable_plans tiny_calls) ''PLAN-1'' = Inr tiny_row"
  by (simp add: tiny_calls_def plan_eval tiny_row_def)

lemma tiny_gates: "plan_gates still_env ''PLAN-1'' 3 (tiny_world rows pkgs) = Inr tiny_row"
proof -
  have "plan_ready still_env ''PLAN-1'' 3 (tiny_world rows pkgs) = Inr tiny_row"
    by (simp add: plan_ready_def tiny_world_def tiny_approved) (simp add: tiny_row_def)
  moreover have "plan_sound (pl_plan tiny_row) (map vc_name (pn_commands still_env)) (pn_ceilings still_env) (Some (pn_commands still_env))"
    using tiny_plan_sound by (simp add: tiny_row_def still_env_def sample_command_def)
  ultimately show ?thesis
    by (simp add: plan_gates_def some_error_iff) (simp add: still_env_def still_git_def)
qed

lemma tiny_package_exists: "\<exists>pkg. build_package still_env ''PLAN-1'' ''A'' 3 None [] (tiny_world [] []) = Inr pkg"
  unfolding build_package_def tiny_gates
  by (simp add: and_then_def tiny_row_def still_env_def still_git_def find_slice_def tiny_plan_def tiny_slice_def
      exact_constraints_def exact_criteria_def dict_of_def sample_constraint_def sample_criterion_def on_error_def
      derived_specification_of_def Let_def task_specification.truncate_def specification_valid_def supersession_valid_def
      identifiers_valid_def truthy_def)

theorem package_carries_approved_slice_witness:
  "\<exists>pkg. build_package still_env ''PLAN-1'' ''A'' 3 None [] (tiny_world [] []) = Inr pkg
     \<and> ts_task (sp_specification pkg) = derived_task_id still_env ''PLAN-1'' ''A'' 3"
  using tiny_package_exists package_carries_approved_slice [of still_env "''PLAN-1''" "''A''" 3 None "[]" "tiny_world [] []"]
  by blast

definition tiny_specification :: derived_specification where
  "tiny_specification = \<lparr>ts_task = ''TASK-1'', ts_objective = \<lparr>st_text = ''o'', st_source = APPROVED_DECISION, st_reference = ''r''\<rparr>,
     ts_criteria = [], ts_constraints = [], ts_risk = LOW, ds_facts = [], ds_requirements = []\<rparr>"

definition tiny_package :: slice_package where
  "tiny_package = \<lparr>sp_id = ''SXP-1'', sp_plan = ''PLAN-1'', sp_plan_version = 3, sp_plan_package = ''PKG-1'',
     sp_approved_plan = tiny_plan, sp_slice = ''A'',
     sp_contract = slice_contract_of still_env ''PLAN-1'' 3 tiny_plan (tiny_slice ''A'' []) [],
     sp_constraints = [], sp_criteria = [], sp_commands = [], sp_evidence = [], sp_head = ''c'', sp_fingerprint = ''f'',
     sp_base = ''c'', sp_inherited = [], sp_specification = tiny_specification, sp_sha = ''d''\<rparr>"

definition packaged_row :: "string \<Rightarrow> slice_row" where
  "packaged_row s = \<lparr>sx_plan = ''PLAN-1'', sx_slice = s, sx_plan_version = 3, sx_status = PACKAGED, sx_package = Some ''d'',
     sx_task = None, sx_task_version = None, sx_operation = None, sx_version = 1\<rparr>"

lemmas slice_eval = tiny_world_def load_latest_package_def slice_get_def row_of_def sx_key_def packaged_row_def tiny_package_def
  read_latest_slice_package_def other_slice_is_genuinely_active_def list_for_plan_def on_tasks_def on_slices_def on_error_def
  still_env_def tiny_specification_def create_task_def transition_def return_task_def run_txn_def get_task_def
  slice_approve_def update_rows_def

lemma tiny_approval:
  "\<exists>row w'. approve_slice still_env ''PLAN-1'' ''A'' ''d'' USER ''approved'' (tiny_world [packaged_row ''A''] [tiny_package]) = (Inr row, w')"
  by (simp add: approve_slice_def bnd_def slice_eval store_eval Let_def)

theorem approval_creates_the_previewed_task_witness:
  "\<exists>row w' task. approve_slice still_env ''PLAN-1'' ''A'' ''d'' USER ''approved'' (tiny_world [packaged_row ''A''] [tiny_package]) = (Inr row, w')
     \<and> select_task ''TASK-1'' (pw_tasks w') = Some task \<and> tr_state task = SPEC_APPROVED"
proof -
  obtain row w' where ok: "approve_slice still_env ''PLAN-1'' ''A'' ''d'' USER ''approved'' (tiny_world [packaged_row ''A''] [tiny_package]) = (Inr row, w')"
    using tiny_approval by blast
  have wf: "wf_db (pw_tasks (tiny_world [packaged_row ''A''] [tiny_package]))" by (simp add: tiny_world_def wf_empty_db)
  have "read_latest_slice_package ''PLAN-1'' ''A'' (tiny_world [packaged_row ''A''] [tiny_package]) = Some tiny_package"
    by (simp add: read_latest_slice_package_def tiny_world_def tiny_package_def)
  with approval_creates_the_previewed_task [OF wf ok]
  have "\<exists>task. select_task (ts_task (sp_specification tiny_package)) (pw_tasks w') = Some task \<and> tr_state task = SPEC_APPROVED" by auto
  then show ?thesis using ok by (auto simp: tiny_package_def tiny_specification_def)
qed

end
