(* ===== verification/Slice_Limits.thy ===== *)
theory Slice_Limits
  imports Slice_Rules
begin

section \<open>Where the slice service falls short\<close>

text \<open>
  Three behaviours of the code as it is: an approval that was interrupted after it created the task cannot be repeated, by
  any retry of the slice; a retry that is refused has already thrown away the branch of the slice; and the rule of one executing slice per plan, which is checked at approval only, does not
  survive the continuation of a slice that was in review.
\<close>

subsection \<open>An interrupted approval\<close>

lemma on_repo_Inr:
  "on_repo f w = (Inr x, w') \<longleftrightarrow> (\<exists>g. f (pw_repo w) = (Inr x, g) \<and> w' = w\<lparr>pw_repo := g\<rparr>)"
  by (auto simp: on_repo_def split: prod.split)

lemma create_task_needs_fresh: "create_task eid tid spec actor now db = (db', Inr row) \<Longrightarrow> select_task tid db = None"
  by (cases "select_task tid db")
    (auto simp: create_task_def return_task_def run_txn_def create_body_def and_then_def insert_task_def list_ex_iff
      split: sum.splits store_error.splits if_splits dest!: select_task_SomeD)

lemma package_slice_Inr:
  assumes "package_slice E p s v w = (Inr pkg, w')"
  shows "pw_tasks w' = pw_tasks w" "pw_plans w' = pw_plans w" "read_latest_slice_package p s w' = Some pkg"
    "ts_task (sp_specification pkg) = derived_task_id E p s v"
proof -
  from assms obtain base inherited w1 where b: "build_package E p s v base inherited w1 = Inr pkg"
    and w: "pw_tasks w1 = pw_tasks w" "pw_plans w1 = pw_plans w"
      "pw_tasks w' = pw_tasks w1" "pw_plans w' = pw_plans w1" "pw_packages w' = pw_packages w1 @ [pkg]"
    by (auto simp: package_slice_def bnd_Inr on_repo_Inr on_slices_Inr write_package_def)
  from w show "pw_tasks w' = pw_tasks w" "pw_plans w' = pw_plans w" by simp_all
  show "ts_task (sp_specification pkg) = derived_task_id E p s v"
    using package_task [OF b] by simp
  have "sp_plan pkg = p" "sp_slice pkg = s"
    using b by (auto simp: build_package_def and_then_Inr sealed_def Let_def split: if_splits)
  then show "read_latest_slice_package p s w' = Some pkg" using w by (simp add: read_latest_slice_package_def)
qed

lemma approve_needs_fresh_task:
  assumes ok: "approve_slice E p s sha actor etype w = (Inr row, w')" and latest: "read_latest_slice_package p s w = Some pkg"
  shows "select_task (ts_task (sp_specification pkg)) (pw_tasks w) = None"
proof -
  from ok obtain k created db where k: "load_latest_package p s w = Inr k"
    and c: "create_task (pn_event_id E (pw_tick w)) (ts_task (sp_specification k)) (sp_specification k) USER
        (pn_now E (pw_tick w)) (pw_tasks w) = (db, Inr created)"
    by (auto simp: approve_slice_def bnd_Inr on_tasks_Inr Let_def split: if_splits option.splits)
  from k latest have "k = pkg" by (auto simp: load_latest_package_def split: sum.splits if_splits option.splits)
  with create_task_needs_fresh [OF c] show ?thesis by simp
qed

text \<open>
  An approval that stopped half way is final. When the derived task of a slice already exists for the plan's
  current version while the ledger knows no task for the slice (the state an interruption between the creation of the
  task and the update of the ledger leaves), every retry of the slice fails; resetting the slice does not remove the task.
\<close>

theorem interrupted_approval_cannot_be_retried:
  assumes plan: "get_plan (pw_plans w) p = Inr r" and task: "select_task (derived_task_id E p s (pl_version r)) (pw_tasks w) \<noteq> None"
    and row: "\<forall>q. row_of sx_key (p, s) (pw_slices w) = Some q \<longrightarrow> sx_task q = None"
  shows "\<exists>e. fst (retry_slice E p s allow_completed w) = Inl e"
proof (cases "fst (retry_slice E p s allow_completed w)")
  case (Inr final)
  then obtain w' where retry: "retry_slice E p s allow_completed w = (Inr final, w')"
    by (cases "retry_slice E p s allow_completed w") auto
  obtain w1 pkg w2 where clear: "pw_tasks w1 = pw_tasks w"
    and pkg: "package_slice E p s (pl_version r) w1 = (Inr pkg, w2)"
    and approve: "approve_slice E p s (sp_sha pkg) USER ''plan_slice_specification_approved'' w2 = (Inr final, w')"
  proof (cases "row_of sx_key (p, s) (pw_slices w)")
    case None
    with retry plan that show ?thesis by (auto simp: retry_slice_def bnd_Inr on_error_Inr)
  next
    case (Some q)
    with row have "sx_task q = None" by simp
    with retry plan Some obtain t pkg w2 where
      "package_slice E p s (pl_version r) (w\<lparr>pw_slices := t\<rparr>) = (Inr pkg, w2)"
      "approve_slice E p s (sp_sha pkg) USER ''plan_slice_specification_approved'' w2 = (Inr final, w')"
      by (auto simp: retry_slice_def bnd_Inr on_error_Inr reset_slice_def slice_get_def on_slices_Inr)
    with that [of "w\<lparr>pw_slices := t\<rparr>"] show ?thesis by simp
  qed
  from approve_needs_fresh_task [OF approve package_slice_Inr(3) [OF pkg]] package_slice_Inr(1,4) [OF pkg] clear task
  show ?thesis by simp
qed simp

definition half_approved_world :: "unit plan_world" where
  "half_approved_world = (tiny_world [packaged_row ''A''] [])
     \<lparr>pw_tasks := fst (create_task ''e'' (derived_task_id still_env ''PLAN-1'' ''A'' 3) tiny_specification USER 0 empty_db)\<rparr>"

theorem interrupted_approval_cannot_be_retried_witness:
  "\<exists>e. fst (retry_slice still_env ''PLAN-1'' ''A'' False half_approved_world) = Inl e"
proof (rule interrupted_approval_cannot_be_retried)
  show "get_plan (pw_plans half_approved_world) ''PLAN-1'' = Inr tiny_row"
    by (simp add: half_approved_world_def tiny_world_def tiny_approved)
  show "select_task (derived_task_id still_env ''PLAN-1'' ''A'' (pl_version tiny_row)) (pw_tasks half_approved_world) \<noteq> None"
    by (simp add: half_approved_world_def tiny_row_def create_task_def return_task_def run_txn_def store_eval)
  show "\<forall>q. row_of sx_key (''PLAN-1'', ''A'') (pw_slices half_approved_world) = Some q \<longrightarrow> sx_task q = None"
    by (simp add: half_approved_world_def tiny_world_def row_of_def packaged_row_def)
qed

subsection \<open>A refused retry\<close>

text \<open>
  A refused retry has already discarded the work. When the task of a slice is complete (without the override) or still
  live, \<open>retry_slice\<close> raises \<open>SliceResetError\<close>, and the only thing it has changed is that the worktree and the branch of
  the task are gone.
\<close>

theorem refused_retry_discards_branch:
  assumes plan: "get_plan (pw_plans w) p = Inr r" and row: "row_of sx_key (p, s) (pw_slices w) = Some q" "sx_task q = Some tid"
    and task: "get_task (pw_tasks w) tid = Inr task" "tr_state task \<notin> {HUMAN_REVIEW_REQUIRED, FAILED, ROLLED_BACK}"
    and override: "tr_state task \<noteq> COMPLETE \<or> \<not> allow_completed"
  shows "retry_slice E p s allow_completed w
    = (Inl SliceResetError, w\<lparr>pw_repo := gv_discard (pn_git E) (slug_of tid) (pw_repo w)\<rparr>)"
  using assms
  by (auto simp: retry_slice_def reset_slice_def bnd_def slice_get_def task_of_def on_error_def abandonable_task_states_def
      resettable_task_states_def)

definition discarding_env :: "string list plan_env" where
  "discarding_env = \<lparr>pn_git = \<lparr>gv_root = ''/r'', gv_origin = (\<lambda>_ _. Inr ''/r''), gv_fingerprint = (\<lambda>_. Inr (''c'', ''f'')),
       gv_describe = (\<lambda>_ _. None), gv_is_root = (\<lambda>_ _. True), gv_dirty = (\<lambda>_ _. Inr False),
       gv_commit_all = (\<lambda>_ _ w. (Inr (), w)), gv_head = (\<lambda>_ _. Inr ''c''), gv_tip = (\<lambda>_ _. ''c''),
       gv_ancestor = (\<lambda>_ _ _. True), gv_discard = (\<lambda>slug branches. filter (\<lambda>b. b \<noteq> slug) branches)\<rparr>,
     pn_commands = [], pn_ceilings = tiny_ceilings, pn_event_id = (\<lambda>_. ''e''), pn_package_id = (\<lambda>_. ''p''), pn_now = int,
     pn_digest = (\<lambda>_. ''d''), pn_sha = (\<lambda>_. ''0''), pn_execute = (\<lambda>_ _ _ w. (Inr (), w))\<rparr>"

definition complete_world :: "string list plan_world" where
  "complete_world = \<lparr>pw_plans = reachable_plans tiny_calls,
     pw_slices = [(packaged_row ''A'')\<lparr>sx_status := APPROVED_SLICE, sx_task := Some ''TASK-1''\<rparr>],
     pw_tasks = foldl store_exec empty_db
       [Create ''a'' ''TASK-1'' tiny_specification USER 0, Transition ''b'' ''TASK-1'' HUMAN_REVIEW_REQUIRED SYSTEM ''x'' None None 1,
        Transition ''c'' ''TASK-1'' VERIFYING SYSTEM ''x'' None None 2, Transition ''d'' ''TASK-1'' COMPLETE SYSTEM ''x'' None None 3],
     pw_packages = [], pw_repo = [''1'', ''2''], pw_tick = 0\<rparr>"

theorem refused_retry_discards_branch_witness:
  "fst (retry_slice discarding_env ''PLAN-1'' ''A'' False complete_world) = Inl SliceResetError
   \<and> pw_repo (snd (retry_slice discarding_env ''PLAN-1'' ''A'' False complete_world)) = [''2'']"
proof -
  define task where "task = the (select_task ''TASK-1'' (pw_tasks complete_world))"
  have plan: "get_plan (pw_plans complete_world) ''PLAN-1'' = Inr tiny_row" by (simp add: complete_world_def tiny_approved)
  have row: "row_of sx_key (''PLAN-1'', ''A'') (pw_slices complete_world)
      = Some ((packaged_row ''A'')\<lparr>sx_status := APPROVED_SLICE, sx_task := Some ''TASK-1''\<rparr>)"
    by (simp add: complete_world_def row_of_def sx_key_def packaged_row_def)
  have task: "get_task (pw_tasks complete_world) ''TASK-1'' = Inr task" "tr_state task \<notin> {HUMAN_REVIEW_REQUIRED, FAILED, ROLLED_BACK}"
    by (simp_all add: complete_world_def task_def store_eval get_task_def)
  have "slug_of ''TASK-1'' = ''1''" by code_simp
  moreover have "retry_slice discarding_env ''PLAN-1'' ''A'' False complete_world = (Inl SliceResetError,
      complete_world\<lparr>pw_repo := gv_discard (pn_git discarding_env) (slug_of ''TASK-1'') (pw_repo complete_world)\<rparr>)"
    by (rule refused_retry_discards_branch [OF plan row _ task]) (simp_all add: packaged_row_def)
  ultimately show ?thesis by (simp add: discarding_env_def complete_world_def)
qed

subsection \<open>Two slices at once\<close>

text \<open>
  Slice B waits in review, slice A is approved because a waiting slice does not count, and then the review of B is
  continued: both are executing.
\<close>

definition approved_row :: "string \<Rightarrow> string \<Rightarrow> slice_row" where
  "approved_row s tid = (packaged_row s)\<lparr>sx_status := APPROVED_SLICE, sx_task := Some tid, sx_task_version := Some 3\<rparr>"

definition in_review :: "derived_specification task_db" where
  "in_review = foldl store_exec empty_db
     [Create ''a'' ''TASK-B'' tiny_specification USER 0,
      Transition ''b'' ''TASK-B'' HUMAN_REVIEW_REQUIRED SYSTEM ''stop'' None None 1]"

definition continue_review :: "'w plan_world \<Rightarrow> string \<Rightarrow> 'w plan_world" where
  "continue_review w tid = w\<lparr>pw_tasks := fst (transition ''z'' tid IMPLEMENTING OPERATOR ''review_local_continuation_started'' None None 9 (pw_tasks w))\<rparr>"

lemma two_slices_execute_at_once:
  "let w = (tiny_world [packaged_row ''A'', approved_row ''B'' ''TASK-B''] [tiny_package])\<lparr>pw_tasks := in_review\<rparr>;
       w' = continue_review (snd (approve_slice still_env ''PLAN-1'' ''A'' ''d'' USER ''approved'' w)) ''TASK-B''
   in map sx_slice (filter (executing w' ''PLAN-1'') (pw_slices w')) = [''A'', ''B'']"
  by (simp add: approve_slice_def bnd_def slice_eval store_eval Let_def in_review_def approved_row_def continue_review_def
      executing_def task_state_to_slice_status_def)

end
