(* ===== verification/Plan_Runs.thy ===== *)
theory Plan_Runs
  imports Slice_Service
begin

section \<open>Running a whole plan (architect/auto_run.py)\<close>

text \<open>
  The ledger of plan runs, the order in which slices run, and the controller that packages, approves and executes them
  one after the other until one does not complete. Details are left out; the configuration is known by its digest.
\<close>

subsection \<open>The ledger of runs\<close>

datatype plan_run_status = RUN_RECORDED | RUN_RUNNING | RUN_PAUSED | RUN_SUCCEEDED | RUN_FAILED | RUN_AMBIGUOUS

record plan_run =
  rn_id :: string
  rn_plan :: string
  rn_plan_version :: int
  rn_config :: digest
  rn_auto :: bool
  rn_status :: plan_run_status
  rn_current :: "string option"
  rn_operation :: "string option"
  rn_completed :: "string list"
  rn_created :: int

datatype run_error = RunActionError | RunIntegrityError | RunService service_error | RunEscaping string

definition run_create ::
  "string \<Rightarrow> string \<Rightarrow> int \<Rightarrow> digest \<Rightarrow> bool \<Rightarrow> int \<Rightarrow> plan_run list \<Rightarrow> plan_run list \<times> (run_error + plan_run)" where
  "run_create rid p v config auto now rs =
     (if list_ex (\<lambda>r. rn_plan r = p \<and> rn_status r \<in> set [RUN_RECORDED, RUN_RUNNING]) rs then (rs, Inl RunActionError)
      else if row_of rn_id rid rs \<noteq> None then (rs, Inl RunIntegrityError)
      else (let r = \<lparr>rn_id = rid, rn_plan = p, rn_plan_version = v, rn_config = config, rn_auto = auto,
                    rn_status = RUN_RECORDED, rn_current = None, rn_operation = None, rn_completed = [], rn_created = now\<rparr>
            in (rs @ [r], Inr r)))"

definition run_get :: "string \<Rightarrow> plan_run list \<Rightarrow> run_error + plan_run" where
  "run_get rid rs = (case row_of rn_id rid rs of None \<Rightarrow> Inl RunActionError | Some r \<Rightarrow> Inr r)"

definition latest_for_plan :: "string \<Rightarrow> plan_run list \<Rightarrow> plan_run option" where
  "latest_for_plan p rs =
     (case sort_key (\<lambda>r. - rn_created r) (filter (\<lambda>r. rn_plan r = p) rs) of [] \<Rightarrow> None | r # _ \<Rightarrow> Some r)"

definition runs_with_status :: "plan_run_status \<Rightarrow> plan_run list \<Rightarrow> plan_run list" where
  "runs_with_status st rs = sort_key rn_created (filter (\<lambda>r. rn_status r = st) rs)"

text \<open>\<open>update\<close> writes every column: a missing status or list keeps the old one, a missing slice or operation clears it.\<close>

definition run_update ::
  "string \<Rightarrow> plan_run_status option \<Rightarrow> string option \<Rightarrow> string option \<Rightarrow> string list option \<Rightarrow> plan_run list
    \<Rightarrow> plan_run list \<times> (run_error + plan_run)" where
  "run_update rid status current operation completed rs =
     (case run_get rid rs of
        Inl e \<Rightarrow> (rs, Inl e)
      | Inr old \<Rightarrow>
          (let rs' = snd (update_rows rn_id rid (\<lambda>_. True)
                 (\<lambda>r. r\<lparr>rn_status := (case status of None \<Rightarrow> rn_status old | Some st \<Rightarrow> st), rn_current := current,
                        rn_operation := operation,
                        rn_completed := (case completed of None \<Rightarrow> rn_completed old | Some ids \<Rightarrow> ids)\<rparr>) rs)
           in (rs', run_get rid rs')))"

subsection \<open>The order of the slices\<close>

definition dependencies_of :: "architecture_plan \<Rightarrow> string \<Rightarrow> string list" where
  "dependencies_of plan i =
     (case dict_of (map (\<lambda>s. (is_id s, is_dependencies s)) (ap_slices plan)) i of None \<Rightarrow> [] | Some ds \<Rightarrow> ds)"

lemma not_ready_left: "ready = sort (filter P pending) \<Longrightarrow> ready \<noteq> [] \<Longrightarrow>
    length (filter (\<lambda>i. i \<notin> set ready) pending) < length pending"
proof -
  assume r: "ready = sort (filter P pending)" "ready \<noteq> []"
  from r(2) obtain i where "i \<in> set ready" by (cases ready) auto
  moreover from r(1) have "set ready \<subseteq> set pending" by auto
  ultimately obtain i where "i \<in> set pending" "i \<in> set ready" by blast
  then show ?thesis by (intro length_filter_less) auto
qed

function order_slices :: "(string \<Rightarrow> string list) \<Rightarrow> string list \<Rightarrow> string list \<Rightarrow> string list" where
  "order_slices deps ordered pending =
     (let ready = sort (filter (\<lambda>i. set (deps i) \<subseteq> set ordered) pending) in
      if pending = [] then ordered
      else if ready = [] then ordered @ sort pending
      else order_slices deps (ordered @ ready) (filter (\<lambda>i. i \<notin> set ready) pending))"
  by pat_completeness auto

termination
  by (relation "measure (\<lambda>(deps, ordered, pending). length pending)") (auto intro!: not_ready_left simp del: set_sort)

declare order_slices.simps [simp del]

definition dependency_order :: "architecture_plan \<Rightarrow> string list" where
  "dependency_order plan = order_slices (dependencies_of plan) [] (remdups (map is_id (ap_slices plan)))"

subsection \<open>The controller\<close>

record 'w run_world =
  rw_world :: "'w plan_world"
  rw_runs :: "plan_run list"

record 'w run_env =
  re_plan :: "'w plan_env"
  re_config :: "string + digest"
  re_exclude :: "'w \<Rightarrow> (string + unit) \<times> 'w"
  re_operation_id :: "nat \<Rightarrow> string"
  re_execute :: "string \<Rightarrow> string \<Rightarrow> string \<Rightarrow> ('w, unit) plan_action"

type_synonym ('w, 'a) run_action = "(run_error, 'w run_world, 'a) action"

definition in_world :: "('w, 'a) plan_action \<Rightarrow> ('w, 'a) run_action" where
  "in_world m w = (case m (rw_world w) of (r, pw) \<Rightarrow> (on_error RunService r, w\<lparr>rw_world := pw\<rparr>))"

definition store_update ::
  "string \<Rightarrow> plan_run_status option \<Rightarrow> string option \<Rightarrow> string option \<Rightarrow> string list option \<Rightarrow> ('w, plan_run) run_action" where
  "store_update rid status current operation completed w =
     (case run_update rid status current operation completed (rw_runs w) of (rs, r) \<Rightarrow> (r, w\<lparr>rw_runs := rs\<rparr>))"

definition stopped_views :: "slice_view list" where
  "stopped_views = map KNOWN [RUNNING_SLICE, HUMAN_REVIEW_SLICE, FAILED_SLICE, SUPERSEDED_SLICE]"

definition prepare_slice :: "'w run_env \<Rightarrow> plan_run \<Rightarrow> string \<Rightarrow> ('w, unit) run_action" where
  "prepare_slice E run s =
     bnd (in_world (package_slice (re_plan E) (rn_plan run) s (rn_plan_version run))) (\<lambda>pkg.
     bnd (in_world (approve_slice (re_plan E) (rn_plan run) s (sp_sha pkg) SYSTEM ''plan_slice_auto_approved'')) (\<lambda>_.
     pure ()))"

fun run_slices :: "'w run_env \<Rightarrow> plan_run \<Rightarrow> string list \<Rightarrow> string list \<Rightarrow> ('w, plan_run) run_action" where
  "run_slices E run [] completed = store_update (rn_id run) (Some RUN_SUCCEEDED) None None (Some completed)"
| "run_slices E run (s # ss) completed =
     bnd (in_world (asking (project_slice_status (re_plan E) (rn_plan run) s))) (\<lambda>view.
     if view = KNOWN COMPLETE_SLICE then
       run_slices E run ss (if s \<in> set completed then completed else completed @ [s])
     else if view \<in> set stopped_views \<or> view \<in> set [READY_OR_BLOCKED None, READY_OR_BLOCKED (Some False)] then
       store_update (rn_id run) (Some RUN_PAUSED) (Some s) None (Some completed)
     else
       bnd (if view \<in> set [READY_OR_BLOCKED (Some True), KNOWN PACKAGED] then prepare_slice E run s else pure ()) (\<lambda>_.
       bnd (reading (\<lambda>w. re_operation_id E (pw_tick (rw_world w)))) (\<lambda>operation.
       bnd (store_update (rn_id run) None (Some s) (Some operation) (Some completed)) (\<lambda>_.
       bnd (in_world (re_execute E (rn_plan run) s operation)) (\<lambda>_.
       bnd (in_world (asking (project_slice_status (re_plan E) (rn_plan run) s))) (\<lambda>after.
       if after \<noteq> KNOWN COMPLETE_SLICE then
         store_update (rn_id run) (Some RUN_PAUSED) (Some s) (Some operation) (Some completed)
       else if \<not> rn_auto run then
         store_update (rn_id run) (Some RUN_SUCCEEDED) (Some s) (Some operation) (Some (completed @ [s]))
       else run_slices E run ss (completed @ [s])))))))"

definition run_body :: "'w run_env \<Rightarrow> plan_run \<Rightarrow> ('w, plan_run) run_action" where
  "run_body E run =
     bnd (asking (\<lambda>_. on_error RunEscaping (re_config E))) (\<lambda>config.
     if config \<noteq> rn_config run then store_update (rn_id run) (Some RUN_PAUSED) None None None
     else
       bnd (in_world (asking (\<lambda>w. on_error FromPlanStore (get_plan (pw_plans w) (rn_plan run))))) (\<lambda>record.
       if pl_version record \<noteq> rn_plan_version run \<or> pl_status record \<noteq> APPROVED_PLAN
       then store_update (rn_id run) (Some RUN_PAUSED) None None None
       else
         bnd (in_world (on_repo (\<lambda>g. case re_exclude E g of (r, g') \<Rightarrow> (on_error Escaping r, g')))) (\<lambda>_.
         run_slices E run (dependency_order (pl_plan record)) (rn_completed run))))"

text \<open>Any exception ends the run as FAILED, with the slice and operation it was at.\<close>

definition run_plan :: "'w run_env \<Rightarrow> string \<Rightarrow> ('w, plan_run) run_action" where
  "run_plan E rid =
     bnd (asking (\<lambda>w. run_get rid (rw_runs w))) (\<lambda>run.
     bnd (store_update rid (Some RUN_RUNNING) None None None) (\<lambda>_.
     try_except (run_body E run) (\<lambda>_.
       bnd (asking (\<lambda>w. run_get rid (rw_runs w))) (\<lambda>latest.
       store_update rid (Some RUN_FAILED) (rn_current latest) (rn_operation latest) None))))"

text \<open>A restarted worker: runs that were running become ambiguous, recorded ones are queued.\<close>

definition recover_runs :: "plan_run list \<Rightarrow> plan_run list \<times> string list" where
  "recover_runs rs =
     (let rs' = foldl (\<lambda>rs r. fst (run_update (rn_id r) (Some RUN_AMBIGUOUS) (rn_current r) (rn_operation r) None rs)) rs
                  (runs_with_status RUN_RUNNING rs)
      in (rs', map rn_id (runs_with_status RUN_RECORDED rs')))"

end
