(* ===== verification/Plan_Order.thy ===== *)
theory Plan_Order
  imports Plan_Runs
begin

section \<open>The order in which the slices of a plan run\<close>

text \<open>For a sound plan the controller's order is a schedule: every slice once, and each after everything it depends on.\<close>

definition after_dependencies :: "(string \<Rightarrow> string list) \<Rightarrow> string list \<Rightarrow> bool" where
  "after_dependencies deps order = (\<forall>us i vs. order = us @ i # vs \<longrightarrow> set (deps i) \<subseteq> set us)"

lemma after_dependencies_append:
  assumes "after_dependencies deps xs" and "\<And>i. i \<in> set ys \<Longrightarrow> set (deps i) \<subseteq> set xs"
  shows "after_dependencies deps (xs @ ys)"
  unfolding after_dependencies_def
proof (intro allI impI)
  fix us i vs assume eq: "xs @ ys = us @ i # vs"
  show "set (deps i) \<subseteq> set us"
  proof (cases "length us < length xs")
    case True
    with eq have "us = take (length us) xs" "drop (length us) xs \<noteq> []" by (auto dest: arg_cong [of _ _ "take (length us)"])
    moreover from eq True have "i = xs ! length us" by (metis nth_append nth_append_length)
    ultimately have "xs = us @ i # drop (Suc (length us)) xs" using True by (metis id_take_nth_drop)
    with assms(1) show ?thesis unfolding after_dependencies_def by blast
  next
    case False
    with eq obtain zs where "us = xs @ zs" by (auto simp: append_eq_append_conv2)
    moreover from this eq have "i \<in> set ys" by auto
    ultimately show ?thesis using assms(2) by auto
  qed
qed

lemma some_slice_ready:
  assumes acyc: "acyclic {(i, d). i \<in> set pending \<and> d \<in> set (deps i) \<and> d \<in> set pending}" and "pending \<noteq> []"
    and closed: "\<And>i. i \<in> set pending \<Longrightarrow> set (deps i) \<subseteq> set ordered \<union> set pending"
  shows "\<exists>i \<in> set pending. set (deps i) \<subseteq> set ordered"
proof -
  let ?r = "{(i, d). i \<in> set pending \<and> d \<in> set (deps i) \<and> d \<in> set pending}"
  have "?r \<subseteq> set pending \<times> set pending" by auto
  then have "finite ?r" by (rule finite_subset) simp
  then have w: "wf (?r\<inverse>)" using acyc by (rule finite_acyclic_wf_converse)
  have "hd pending \<in> set pending" using \<open>pending \<noteq> []\<close> by simp
  from w [unfolded wf_eq_minimal, rule_format, OF this]
  obtain i where i: "i \<in> set pending" "\<forall>d. (d, i) \<in> ?r\<inverse> \<longrightarrow> d \<notin> set pending" ..
  have "d \<in> set ordered" if d: "d \<in> set (deps i)" for d
  proof -
    have "d \<notin> set pending"
    proof
      assume p: "d \<in> set pending"
      then have "(d, i) \<in> ?r\<inverse>" using i(1) d by simp
      with i(2) have "d \<notin> set pending" by (elim allE [of _ d] impE) assumption+
      with p show False by contradiction
    qed
    with closed [OF i(1)] d show ?thesis by blast
  qed
  with i(1) show ?thesis by blast
qed

lemma order_slices_spec:
  "distinct (ordered @ pending) \<Longrightarrow> after_dependencies deps ordered \<Longrightarrow>
   (\<And>i. i \<in> set pending \<Longrightarrow> set (deps i) \<subseteq> set ordered \<union> set pending) \<Longrightarrow>
   acyclic {(i, d). i \<in> set pending \<and> d \<in> set (deps i) \<and> d \<in> set pending} \<Longrightarrow>
   distinct (order_slices deps ordered pending) \<and> set (order_slices deps ordered pending) = set ordered \<union> set pending
   \<and> after_dependencies deps (order_slices deps ordered pending)"
proof (induction deps ordered pending rule: order_slices.induct)
  case (1 deps ordered pending)
  define ready where "ready = sort (filter (\<lambda>i. set (deps i) \<subseteq> set ordered) pending)"
  have set_ready: "set ready = {i \<in> set pending. set (deps i) \<subseteq> set ordered}" by (auto simp: ready_def)
  show ?case
  proof (cases "pending = []")
    case True
    with 1 show ?thesis by (simp add: order_slices.simps)
  next
    case False
    obtain i where "i \<in> set ready" using some_slice_ready [OF 1(5) False 1(4)] set_ready by blast
    then have nonempty: "ready \<noteq> []" by auto
    let ?rest = "filter (\<lambda>i. i \<notin> set ready) pending"
    have eq: "order_slices deps ordered pending = order_slices deps (ordered @ ready) ?rest"
      using False nonempty by (subst order_slices.simps) (simp add: ready_def [symmetric] Let_def)
    have "distinct ready" using 1(2) by (simp add: ready_def)
    then have d: "distinct ((ordered @ ready) @ ?rest)" using 1(2) set_ready by auto
    have "after_dependencies deps (ordered @ ready)"
      using set_ready by (intro after_dependencies_append [OF 1(3)]) auto
    moreover have "set (deps j) \<subseteq> set (ordered @ ready) \<union> set ?rest" if "j \<in> set ?rest" for j using 1(4) [of j] that by auto
    moreover have "acyclic {(i, d). i \<in> set ?rest \<and> d \<in> set (deps i) \<and> d \<in> set ?rest}"
      by (rule acyclic_subset [OF 1(5)]) auto
    ultimately have "distinct (order_slices deps (ordered @ ready) ?rest)
      \<and> set (order_slices deps (ordered @ ready) ?rest) = set (ordered @ ready) \<union> set ?rest
      \<and> after_dependencies deps (order_slices deps (ordered @ ready) ?rest)"
      by (intro 1(1) [OF ready_def False nonempty d])
    then show ?thesis unfolding eq using set_ready by auto
  qed
qed

lemma dependencies_of_slice:
  "distinct (map is_id (ap_slices plan)) \<Longrightarrow> s \<in> set (ap_slices plan) \<Longrightarrow> dependencies_of plan (is_id s) = is_dependencies s"
proof -
  assume d: "distinct (map is_id (ap_slices plan))" and s: "s \<in> set (ap_slices plan)"
  have "map_of (rev (map (\<lambda>s. (is_id s, is_dependencies s)) (ap_slices plan))) (is_id s) = Some (is_dependencies s)"
    using d s by (intro map_of_is_SomeI) (auto simp: o_def rev_map [symmetric])
  then show ?thesis by (simp add: dependencies_of_def dict_of_def)
qed

lemma dependency_order_schedules:
  assumes sound: "plan_sound plan configured ceil cmds"
  shows "distinct (dependency_order plan) \<and> set (dependency_order plan) = is_id ` set (ap_slices plan)
    \<and> after_dependencies (dependencies_of plan) (dependency_order plan)"
proof -
  have d: "distinct (map is_id (ap_slices plan))" using sound by (simp add: plan_sound_def ids_unique_def)
  have closed: "set (dependencies_of plan i) \<subseteq> is_id ` set (ap_slices plan)" if "i \<in> is_id ` set (ap_slices plan)" for i
    using that
  proof -
    obtain s where s: "s \<in> set (ap_slices plan)" "i = is_id s" using \<open>i \<in> is_id ` set (ap_slices plan)\<close> by auto
    then have "slice_resolved configured plan s" using sound by (simp add: plan_sound_def)
    then show ?thesis using s by (simp add: dependencies_of_slice [OF d] slice_resolved_def)
  qed
  have "{(i, e). i \<in> is_id ` set (ap_slices plan) \<and> e \<in> set (dependencies_of plan i) \<and> e \<in> is_id ` set (ap_slices plan)}
      = plan_depends plan"
    by (auto simp: plan_depends_def dependencies_of_slice [OF d])
  then have "acyclic {(i, e). i \<in> is_id ` set (ap_slices plan) \<and> e \<in> set (dependencies_of plan i) \<and> e \<in> is_id ` set (ap_slices plan)}"
    using sound by (simp add: plan_sound_def dependencies_bounded_def)
  with closed show ?thesis
    unfolding dependency_order_def
    using order_slices_spec [of "[]" "remdups (map is_id (ap_slices plan))" "dependencies_of plan"]
    by (simp add: after_dependencies_def)
qed

text \<open>
  C32: the order of an accepted plan is a schedule. Every slice of it occurs exactly once, and wherever a slice stands, all
  slices it depends on stand before it.
\<close>

theorem accepted_plan_has_schedule:
  assumes "pv_valid (plan_judgement plan version cmds ceil)"
  shows "distinct (dependency_order plan) \<and> set (dependency_order plan) = is_id ` set (ap_slices plan)
    \<and> (\<forall>s \<in> set (ap_slices plan). \<forall>us vs. dependency_order plan = us @ is_id s # vs \<longrightarrow> set (is_dependencies s) \<subseteq> set us)"
proof -
  have sound: "plan_sound plan (map vc_name cmds) ceil (Some cmds)" using assms by (simp add: plan_judgement_valid)
  have d: "distinct (map is_id (ap_slices plan))" using sound by (simp add: plan_sound_def ids_unique_def)
  show ?thesis using dependency_order_schedules [OF sound] dependencies_of_slice [OF d]
    unfolding after_dependencies_def by metis
qed

theorem accepted_plan_has_schedule_witness: "dependency_order tiny_plan = [''A'', ''B'']"
proof -
  have "pv_valid (plan_judgement tiny_plan 1 [sample_command] tiny_ceilings)"
    using tiny_plan_sound by (simp add: plan_judgement_valid sample_command_def)
  from accepted_plan_has_schedule [OF this]
  have o: "distinct (dependency_order tiny_plan)" "set (dependency_order tiny_plan) = {''A'', ''B''}"
    "\<forall>us vs. dependency_order tiny_plan = us @ ''B'' # vs \<longrightarrow> ''A'' \<in> set us"
    by (auto simp: tiny_plan_def tiny_slice_def)
  from o(2) obtain us vs where us: "dependency_order tiny_plan = us @ ''B'' # vs" by (metis insertI1 insert_commute split_list)
  with o(3) have a: "''A'' \<in> set us" by blast
  have "length (dependency_order tiny_plan) = 2" using distinct_card [OF o(1)] o(2) by simp
  with us a have "length us = 1" "vs = []" by (cases us; simp)+
  with a us show ?thesis by (cases us) auto
qed

end
