(* ===== verification/Plan_Run_Facts.thy ===== *)
theory Plan_Run_Facts
  imports Slice_Limits Plan_Order
begin

section \<open>What a run of a plan guarantees\<close>

text \<open>
  A run that is started ends: paused, succeeded or failed, whatever the stores, git and the execution of a slice do. When an
  automatic run succeeds, every slice of the approved plan is complete.
\<close>

subsection \<open>A run ends\<close>

definition present :: "string \<Rightarrow> 'w run_world \<Rightarrow> bool" where
  "present rid w = (row_of rn_id rid (rw_runs w) \<noteq> None)"

definition settled :: "plan_run \<Rightarrow> bool" where
  "settled r = (rn_status r \<in> {RUN_PAUSED, RUN_SUCCEEDED, RUN_FAILED})"

lemma store_update_present:
  assumes "row_of rn_id rid (rw_runs w) = Some old"
  shows "\<exists>r rs. store_update rid st cur op ids w = (Inr r, w\<lparr>rw_runs := rs\<rparr>) \<and> row_of rn_id rid rs = Some r
    \<and> rn_id r = rid \<and> rn_plan r = rn_plan old \<and> rn_auto r = rn_auto old
    \<and> rn_status r = (case st of None \<Rightarrow> rn_status old | Some s \<Rightarrow> s)"
proof -
  define f where "f r = r\<lparr>rn_status := (case st of None \<Rightarrow> rn_status old | Some s \<Rightarrow> s), rn_current := cur,
     rn_operation := op, rn_completed := (case ids of None \<Rightarrow> rn_completed old | Some ids \<Rightarrow> ids)\<rparr>" for r :: plan_run
  have keys: "rn_id (f r) = rn_id r" for r by (simp add: f_def)
  have "row_of rn_id rid (snd (update_rows rn_id rid (\<lambda>_. True) f (rw_runs w))) = Some (f old)"
    using assms row_of_SomeD [OF assms] by (simp add: row_of_update [of rn_id f, OF keys])
  then show ?thesis
    using assms row_of_SomeD [OF assms]
    by (intro exI [of _ "f old"] exI [of _ "snd (update_rows rn_id rid (\<lambda>_. True) f (rw_runs w))"])
      (simp add: store_update_def run_update_def run_get_def Let_def f_def [abs_def])
qed

text \<open>An update that returns has written the row it returns; on a stored run it always does.\<close>

definition recorded :: "plan_run \<Rightarrow> 'w run_world \<Rightarrow> bool" where
  "recorded r w = (row_of rn_id (rn_id r) (rw_runs w) = Some r)"

lemma store_update_present_E:
  assumes "present rid w" "store_update rid st cur op ids w = (y, w')"
  obtains r old where "y = Inr r" "recorded r w'" "rn_id r = rid" "rw_world w' = rw_world w"
    "row_of rn_id rid (rw_runs w) = Some old" "rn_auto r = rn_auto old" "rn_plan r = rn_plan old" "\<And>s. st = Some s \<Longrightarrow> rn_status r = s"
proof -
  from assms(1) obtain old where old: "row_of rn_id rid (rw_runs w) = Some old" by (auto simp: present_def)
  with store_update_present [OF old, of st cur op ids] assms(2) show thesis
    by (auto simp: recorded_def intro: that [of _ old])
qed

lemma recorded_present: "recorded r w \<Longrightarrow> rn_id r = rid \<Longrightarrow> present rid w"
  by (auto simp: recorded_def present_def)

definition run_settled :: "string \<Rightarrow> plan_run \<Rightarrow> 'w run_world \<Rightarrow> bool" where
  "run_settled rid r w = (rn_id r = rid \<and> recorded r w \<and> settled r)"

lemma settle_triple:
  "st \<in> {RUN_PAUSED, RUN_SUCCEEDED, RUN_FAILED} \<Longrightarrow>
     triple (present rid) (store_update rid (Some st) cur op ids) (run_settled rid) (\<lambda>_. present rid)"
  by (rule tripleI; erule (1) store_update_present_E) (auto simp: run_settled_def settled_def)

lemma in_world_present: "keeps (present rid) (in_world m)"
  by (auto simp: keeps_def triple_def in_world_def present_def split: prod.splits sum.splits)

lemma triple_keeps_then: "keeps I m \<Longrightarrow> (\<And>x. triple I (f x) Q (\<lambda>_. I)) \<Longrightarrow> triple I (bnd m f) Q (\<lambda>_. I)"
  unfolding keeps_def by (rule triple_bnd)

lemma store_update_keeps: "keeps (present rid) (store_update rid st cur op ids)"
  unfolding keeps_def by (rule tripleI; erule (1) store_update_present_E) (auto intro: recorded_present)

lemma prepare_keeps: "keeps (present rid) (prepare_slice E run s)"
  unfolding prepare_slice_def by (intro keeps_bnd in_world_present keeps_simps)

lemma run_slices_ends:
  "rn_id run = rid \<Longrightarrow> triple (present rid) (run_slices E run ss completed) (run_settled rid) (\<lambda>_. present rid)"
proof (induction ss arbitrary: completed)
  case Nil
  then show ?case by (simp add: settle_triple)
next
  case (Cons s ss)
  note steps = triple_keeps_then in_world_present store_update_keeps prepare_keeps keeps_simps
  show ?case
    unfolding run_slices.simps Cons.prems
    by (intro steps triple_if Cons.IH [OF Cons.prems] settle_triple)
      (auto intro!: prepare_keeps simp: keeps_simps split: if_splits)
qed

lemma run_body_ends:
  assumes id: "rn_id run = rid"
  shows "triple (present rid) (run_body E run) (run_settled rid) (\<lambda>_. present rid)"
  unfolding run_body_def id
  by (intro triple_keeps_then in_world_present keeps_simps triple_if settle_triple run_slices_ends [OF id]) auto

lemma run_get_Inr: "run_get rid rs = Inr r \<longleftrightarrow> row_of rn_id rid rs = Some r"
  by (auto simp: run_get_def split: option.splits)

lemma run_plan_settled:
  assumes "present rid w"
  obtains r w' where "run_plan E rid w = (Inr r, w')" "run_settled rid r w'"
proof -
  from assms obtain run where run: "row_of rn_id rid (rw_runs w) = Some run" by (auto simp: present_def)
  then have id: "rn_id run = rid" by (auto dest: row_of_SomeD)
  obtain y w1 where u: "store_update rid (Some RUN_RUNNING) None None None w = (y, w1)" by fastforce
  from assms u have y: "\<exists>r1. y = Inr r1" and p1: "present rid w1"
    by (auto elim!: store_update_present_E intro: recorded_present)
  obtain z w2 where b: "run_body E run w1 = (z, w2)" by fastforce
  show thesis
  proof (cases z)
    case (Inr r)
    with tripleD(1) [OF run_body_ends [OF id] p1, of E r w2] b have "run_settled rid r w2" by simp
    with run u y b Inr that show thesis by (auto simp: run_plan_def bnd_def run_get_def try_except_def)
  next
    case (Inl e)
    with tripleD(2) [OF run_body_ends [OF id] p1, of E e w2] b have p2: "present rid w2" by simp
    then obtain latest where l: "row_of rn_id rid (rw_runs w2) = Some latest" by (auto simp: present_def)
    obtain x w3 where f: "store_update rid (Some RUN_FAILED) (rn_current latest) (rn_operation latest) None w2 = (x, w3)"
      by fastforce
    from p2 f obtain r where r: "x = Inr r" "run_settled rid r w3"
      by (auto elim!: store_update_present_E simp: run_settled_def settled_def)
    have "run_plan E rid w = (Inr r, w3)"
      using run u y b Inl l f r(1) by (auto simp: run_plan_def bnd_def run_get_def try_except_def)
    with r(2) that show thesis by blast
  qed
qed

text \<open>
  C16: a run that is started ends. Whatever the configuration, the stores, git and the execution of a slice do, running an
  existing run returns its record, stored and paused, succeeded or failed; it never escapes with an exception and never
  leaves the record running.
\<close>

theorem started_run_settles:
  assumes "row_of rn_id rid (rw_runs w) \<noteq> None"
  shows "\<exists>r w'. run_plan E rid w = (Inr r, w') \<and> row_of rn_id rid (rw_runs w') = Some r
    \<and> rn_status r \<in> {RUN_PAUSED, RUN_SUCCEEDED, RUN_FAILED}"
proof -
  from assms have "present rid w" by (simp add: present_def)
  then obtain r w' where "run_plan E rid w = (Inr r, w')" "run_settled rid r w'" by (rule run_plan_settled)
  then show ?thesis by (auto simp: run_settled_def recorded_def settled_def)
qed


subsection \<open>A run that succeeds has completed every slice\<close>

definition complete_slice :: "string \<Rightarrow> string \<Rightarrow> 'w plan_world \<Rightarrow> bool" where
  "complete_slice p s w =
     (\<exists>row tid task. row_of sx_key (p, s) (pw_slices w) = Some row \<and> sx_status row \<noteq> PACKAGED \<and> sx_task row = Some tid
        \<and> select_task tid (pw_tasks w) = Some task \<and> tr_state task = COMPLETE)"

lemma project_complete: "project_slice_status E p s w = Inr (KNOWN COMPLETE_SLICE) \<Longrightarrow> complete_slice p s w"
proof -
  assume c: "project_slice_status E p s w = Inr (KNOWN COMPLETE_SLICE)"
  then obtain row where row: "row_of sx_key (p, s) (pw_slices w) = Some row"
    by (cases "row_of sx_key (p, s) (pw_slices w)")
      (auto simp: project_slice_status_def and_then_Inr split: option.splits)
  with c have st: "sx_status row \<noteq> PACKAGED"
    by (auto simp: project_slice_status_def and_then_Inr split: if_splits)
  with c row obtain tid where tid: "sx_task row = Some tid"
    by (cases "sx_task row") (auto simp: project_slice_status_def and_then_Inr)
  with c row st obtain task where task: "task_of tid w = Inr task"
    "(if tr_state task = SPEC_APPROVED then APPROVED_SLICE
      else (case task_state_to_slice_status (tr_state task) of None \<Rightarrow> RUNNING_SLICE | Some st \<Rightarrow> st)) = COMPLETE_SLICE"
    by (auto simp: project_slice_status_def and_then_Inr)
  from task(2) have "tr_state task = COMPLETE"
    by (cases "tr_state task") (simp_all add: task_state_to_slice_status_def)
  with row st tid task(1) show ?thesis
    by (auto simp: complete_slice_def task_of_def on_error_Inr get_task_select)
qed

lemma record_package_Inr:
  "record_package p s v sha t = (t', Inr row) \<Longrightarrow>
     (\<forall>k. k \<noteq> (p, s) \<longrightarrow> row_of sx_key k t' = row_of sx_key k t)
     \<and> (\<forall>q. row_of sx_key (p, s) t = Some q \<longrightarrow> sx_status q = PACKAGED)"
proof -
  assume r: "record_package p s v sha t = (t', Inr row)"
  have "row_of sx_key k (snd (update_rows sx_key (p, s) P (\<lambda>r. r\<lparr>sx_plan_version := v, sx_package := Some sha,
      sx_version := sx_version r + 1\<rparr>) t)) = row_of sx_key k t" if "k \<noteq> (p, s)" for k P
    using that by (intro row_of_update_other) (simp_all add: sx_key_def)
  with r show ?thesis
    by (auto simp: record_package_def Let_def row_of_snoc sx_key_def split: option.splits if_splits)
qed

lemma slice_approve_others:
  "slice_approve p s sha tid v t = (t', Inr row) \<Longrightarrow>
     (\<forall>k. k \<noteq> (p, s) \<longrightarrow> row_of sx_key k t' = row_of sx_key k t)
     \<and> (\<forall>q. row_of sx_key (p, s) t = Some q \<longrightarrow> sx_status q = PACKAGED)"
proof -
  assume r: "slice_approve p s sha tid v t = (t', Inr row)"
  let ?f = "\<lambda>r. r\<lparr>sx_status := APPROVED_SLICE, sx_task := Some tid, sx_task_version := Some v, sx_version := sx_version r + 1\<rparr>"
  from r obtain q where q: "row_of sx_key (p, s) t = Some q" "sx_status q = PACKAGED"
    and t': "t' = snd (update_rows sx_key (p, s) (\<lambda>r. sx_version r = sx_version q) ?f t)"
    by (auto simp: slice_approve_def split: option.splits if_splits prod.splits)
  have "row_of sx_key k t' = row_of sx_key k t" if "k \<noteq> (p, s)" for k
    unfolding t' using that by (intro row_of_update_other) (simp_all add: sx_key_def)
  with q show ?thesis by simp
qed

lemma complete_elsewhere:
  "complete_slice p d w \<Longrightarrow> (\<forall>k. k \<noteq> (p, s) \<longrightarrow> row_of sx_key k (pw_slices w') = row_of sx_key k (pw_slices w)) \<Longrightarrow>
   (\<forall>q. row_of sx_key (p, s) (pw_slices w) = Some q \<longrightarrow> sx_status q = PACKAGED) \<Longrightarrow>
   (\<forall>tid task. select_task tid (pw_tasks w) = Some task \<longrightarrow> select_task tid (pw_tasks w') = Some task) \<Longrightarrow> complete_slice p d w'"
  unfolding complete_slice_def by (cases "d = s") fastforce+

lemma package_keeps_complete:
  assumes "package_slice E p s v w = (Inr pkg, w')" and "complete_slice p d w"
  shows "complete_slice p d w'"
proof -
  from assms(1) obtain row where
    "record_package p s v (sp_sha pkg) (pw_slices w) = (pw_slices w', Inr row)" "pw_tasks w' = pw_tasks w"
    by (auto simp: package_slice_def bnd_Inr on_repo_Inr on_slices_Inr write_package_def)
  with record_package_Inr [OF this(1)] show ?thesis by (intro complete_elsewhere [OF assms(2), of s]) simp_all
qed

lemma approve_keeps_complete:
  assumes wf: "wf_db (pw_tasks w)" and ok: "approve_slice E p s sha actor etype w = (Inr row, w')"
    and c: "complete_slice p d w"
  shows "complete_slice p d w' \<and> wf_db (pw_tasks w')"
proof -
  obtain pkg final where pkg: "load_latest_package p s w = Inr pkg" "sp_sha pkg = sha"
    "other_slice_is_genuinely_active p s w = Inr None"
    and new: "select_task (ts_task (sp_specification pkg)) (pw_tasks w) = None" "wf_db (pw_tasks w')"
    "\<And>t. select_task t (pw_tasks w') = (if t = ts_task (sp_specification pkg) then Some final else select_task t (pw_tasks w))"
    and "tr_spec final = sp_specification pkg" "tr_state final = SPEC_APPROVED" "pw_plans w' = pw_plans w"
    and s: "slice_approve p s sha (ts_task (sp_specification pkg)) (tr_version final) (pw_slices w) = (pw_slices w', Inr row)"
    by (rule approve_slice_effect [OF wf ok], rule that) assumption+
  have "\<forall>tid task. select_task tid (pw_tasks w) = Some task \<longrightarrow> select_task tid (pw_tasks w') = Some task"
    using new(1,3) by auto
  with slice_approve_others [OF s] show ?thesis
    using new(2) by (intro conjI complete_elsewhere [OF c, of s]) simp_all
qed

text \<open>
  What a run keeps while it goes: the task store is well formed, the plan is the approved one, and the slices seen complete
  stay complete.
\<close>

definition run_keeps :: "string \<Rightarrow> plan_row \<Rightarrow> string set \<Rightarrow> 'w plan_world \<Rightarrow> bool" where
  "run_keeps p approved done_slices w =
     (wf_db (pw_tasks w) \<and> get_plan (pw_plans w) p = Inr approved \<and> (\<forall>s \<in> done_slices. complete_slice p s w))"

text \<open>
  What the execution of a slice may not do: break the task store, change the plan, undo a completed slice. Task states leave
  COMPLETE for no other state, and no operation of the slice service but an explicit reset with the owner's consent
  removes a complete slice.
\<close>

definition execution_keeps_completed :: "'w run_env \<Rightarrow> string \<Rightarrow> bool" where
  "execution_keeps_completed E p =
     (\<forall>s operation w w' approved ds. run_keeps p approved ds w \<longrightarrow> re_execute E p s operation w = (Inr (), w')
        \<longrightarrow> run_keeps p approved ds w')"

definition advancing :: "string \<Rightarrow> plan_row \<Rightarrow> string set \<Rightarrow> 'w run_world \<Rightarrow> bool" where
  "advancing p approved ds w = run_keeps p approved ds (rw_world w)"

lemma in_world_Inr: "in_world m w = (Inr x, w') \<longleftrightarrow> (\<exists>pw. m (rw_world w) = (Inr x, pw) \<and> w' = w\<lparr>rw_world := pw\<rparr>)"
  by (auto simp: in_world_def on_error_Inr split: prod.split)

lemma store_update_Inr:
  assumes "store_update rid st cur op ids w = (Inr r, w')"
  shows "rw_world w' = rw_world w \<and> (\<forall>s. st = Some s \<longrightarrow> rn_status r = s)"
proof -
  from assms have "present rid w"
    by (auto simp: store_update_def run_update_def run_get_def present_def split: option.splits prod.splits)
  from store_update_present_E [OF this assms] show ?thesis by auto
qed

lemma prepare_slice_keeps:
  assumes "prepare_slice E run s w = (Inr x, w')" and "advancing (rn_plan run) approved ds w"
  shows "advancing (rn_plan run) approved ds w'"
proof -
  from assms(1) obtain pkg pw row pw' where
    k: "package_slice (re_plan E) (rn_plan run) s (rn_plan_version run) (rw_world w) = (Inr pkg, pw)" and
    a: "approve_slice (re_plan E) (rn_plan run) s (sp_sha pkg) SYSTEM ''plan_slice_auto_approved'' pw = (Inr row, pw')" and
    w': "rw_world w' = pw'"
    by (auto simp: prepare_slice_def bnd_Inr in_world_Inr)
  from assms(2) have wf: "wf_db (pw_tasks (rw_world w))" and plan: "get_plan (pw_plans (rw_world w)) (rn_plan run) = Inr approved"
    and c: "\<And>d. d \<in> ds \<Longrightarrow> complete_slice (rn_plan run) d (rw_world w)" by (auto simp: advancing_def run_keeps_def)
  from wf have wf': "wf_db (pw_tasks pw)" using package_slice_Inr(1) [OF k] by simp
  have "wf_db (pw_tasks pw') \<and> pw_plans pw' = pw_plans pw"
    by (rule approve_slice_effect [OF wf' a]) simp
  moreover have "complete_slice (rn_plan run) d pw'" if "d \<in> ds" for d
    using approve_keeps_complete [OF wf' a package_keeps_complete [OF k c [OF that]]] by simp
  ultimately show ?thesis
    using plan package_slice_Inr(2) [OF k] w' by (simp add: advancing_def run_keeps_def)
qed

lemma advancing_insert:
  "advancing p approved ds w \<Longrightarrow> project_slice_status E p s (rw_world w) = Inr (KNOWN COMPLETE_SLICE) \<Longrightarrow>
     advancing p approved (insert s ds) w"
  by (auto simp: advancing_def run_keeps_def dest: project_complete)

lemma run_slices_completes:
  assumes "execution_keeps_completed E (rn_plan run)" and "rn_auto run"
  shows "run_slices E run ss completed w = (Inr r, w') \<Longrightarrow> rn_status r = RUN_SUCCEEDED \<Longrightarrow>
     advancing (rn_plan run) approved ds w \<Longrightarrow> advancing (rn_plan run) approved (ds \<union> set ss) w'"
proof (induction ss arbitrary: completed w ds)
  case Nil
  then show ?case by (auto simp: advancing_def dest: store_update_Inr)
next
  case (Cons s ss)
  let ?p = "rn_plan run"
  from Cons.prems(1) obtain view where view: "project_slice_status (re_plan E) ?p s (rw_world w) = Inr view"
    by (auto simp: bnd_Inr in_world_Inr)
  show ?case
  proof (cases "view = KNOWN COMPLETE_SLICE")
    case True
    with Cons.prems(1) view have "run_slices E run ss (if s \<in> set completed then completed else completed @ [s]) w = (Inr r, w')"
      by (auto simp: bnd_Inr in_world_Inr)
    from Cons.IH [OF this Cons.prems(2) advancing_insert [OF Cons.prems(3) view [unfolded True]]] show ?thesis by simp
  next
    case False
    have "\<not> (view \<in> set stopped_views \<or> view \<in> set [READY_OR_BLOCKED None, READY_OR_BLOCKED (Some False)])"
    proof
      assume stop: "view \<in> set stopped_views \<or> view \<in> set [READY_OR_BLOCKED None, READY_OR_BLOCKED (Some False)]"
      with False Cons.prems(1) view have "store_update (rn_id run) (Some RUN_PAUSED) (Some s) None (Some completed) w = (Inr r, w')"
        by (auto simp: bnd_Inr in_world_Inr)
      with Cons.prems(2) show False by (auto dest: store_update_Inr)
    qed
    with False Cons.prems(1) view obtain w1 x1 op run1 w2 w3 after where
      prep: "(if view \<in> set [READY_OR_BLOCKED (Some True), KNOWN PACKAGED] then prepare_slice E run s else pure ()) w = (Inr x1, w1)" and
      u: "store_update (rn_id run) None (Some s) (Some op) (Some completed) w1 = (Inr run1, w2)" and
      ex: "in_world (re_execute E ?p s op) w2 = (Inr (), w3)" and
      after: "project_slice_status (re_plan E) ?p s (rw_world w3) = Inr after" and
      last: "(if after \<noteq> KNOWN COMPLETE_SLICE then
         store_update (rn_id run) (Some RUN_PAUSED) (Some s) (Some op) (Some completed)
       else if \<not> rn_auto run then
         store_update (rn_id run) (Some RUN_SUCCEEDED) (Some s) (Some op) (Some (completed @ [s]))
       else run_slices E run ss (completed @ [s])) w3 = (Inr r, w')"
      by (auto simp: in_world_Inr bnd_Inr simp del: list.set)
    from prep Cons.prems(3) have "advancing ?p approved ds w1" by (auto dest: prepare_slice_keeps split: if_splits)
    then have "advancing ?p approved ds w2" using store_update_Inr [OF u] by (simp add: advancing_def)
    with ex assms(1) have a3: "advancing ?p approved ds w3"
      by (auto simp: advancing_def in_world_Inr execution_keeps_completed_def)
    show ?thesis
    proof (cases "after = KNOWN COMPLETE_SLICE")
      case True
      with last assms(2) have "run_slices E run ss (completed @ [s]) w3 = (Inr r, w')" by simp
      from Cons.IH [OF this Cons.prems(2) advancing_insert [OF a3 after [unfolded True]]] show ?thesis by simp
    next
      case False
      with last Cons.prems(2) show ?thesis by (auto dest: store_update_Inr)
    qed
  qed
qed

lemma order_slices_set: "set (order_slices deps ordered pending) = set ordered \<union> set pending"
proof (induction deps ordered pending rule: order_slices.induct)
  case (1 deps ordered pending)
  show ?case
  proof (cases "pending = [] \<or> sort (filter (\<lambda>i. set (deps i) \<subseteq> set ordered) pending) = []")
    case True
    then show ?thesis by (subst order_slices.simps) (auto simp: Let_def)
  next
    case False
    with 1 show ?thesis by (subst order_slices.simps) (auto simp: Let_def)
  qed
qed

lemma dependency_order_set: "set (dependency_order plan) = is_id ` set (ap_slices plan)"
  by (simp add: dependency_order_def order_slices_set)

lemma complete_projects:
  "complete_slice p s w \<Longrightarrow> get_plan (pw_plans w) p = Inr approved \<Longrightarrow> project_slice_status E p s w = Inr (KNOWN COMPLETE_SLICE)"
  by (auto simp: complete_slice_def project_slice_status_def and_then_def on_error_def task_of_def get_task_def
      task_state_to_slice_status_def)

lemma try_except_Inr:
  "try_except m h w = (Inr x, w') \<longleftrightarrow> m w = (Inr x, w') \<or> (\<exists>e w1. m w = (Inl e, w1) \<and> h e w1 = (Inr x, w'))"
  by (auto simp: try_except_def split: prod.split sum.split)

lemma run_body_completes:
  assumes ok: "run_body E run w = (Inr r, w')" "rn_status r = RUN_SUCCEEDED"
    and keep: "execution_keeps_completed E (rn_plan run)" and auto_run: "rn_auto run" and wf: "wf_db (pw_tasks (rw_world w))"
  shows "\<exists>approved. get_plan (pw_plans (rw_world w)) (rn_plan run) = Inr approved \<and> pl_status approved = APPROVED_PLAN
     \<and> pl_version approved = rn_plan_version run \<and> advancing (rn_plan run) approved (is_id ` set (ap_slices (pl_plan approved))) w'"
proof -
  from ok obtain approved g where plan: "get_plan (pw_plans (rw_world w)) (rn_plan run) = Inr approved"
      "pl_status approved = APPROVED_PLAN" "pl_version approved = rn_plan_version run"
    and slices: "run_slices E run (dependency_order (pl_plan approved)) (rn_completed run)
        (w\<lparr>rw_world := (rw_world w)\<lparr>pw_repo := g\<rparr>\<rparr>) = (Inr r, w')"
    by (auto simp: run_body_def bnd_Inr in_world_Inr on_repo_Inr on_error_Inr split: if_splits dest: store_update_Inr)
  have "advancing (rn_plan run) approved {} (w\<lparr>rw_world := (rw_world w)\<lparr>pw_repo := g\<rparr>\<rparr>)"
    using wf plan(1) by (simp add: advancing_def run_keeps_def)
  from run_slices_completes [OF keep auto_run slices ok(2) this] plan show ?thesis by (simp add: dependency_order_set)
qed


subsection \<open>Witnesses\<close>

definition finished_tasks :: "derived_specification task_db" where
  "finished_tasks = foldl store_exec empty_db
     [Create ''a'' ''TASK-1'' tiny_specification USER 0, Transition ''b'' ''TASK-1'' HUMAN_REVIEW_REQUIRED SYSTEM ''x'' None None 1,
      Transition ''c'' ''TASK-1'' VERIFYING SYSTEM ''x'' None None 2, Transition ''d'' ''TASK-1'' COMPLETE SYSTEM ''x'' None None 3]"

definition tiny_run :: plan_run where
  "tiny_run = \<lparr>rn_id = ''RUN-1'', rn_plan = ''PLAN-1'', rn_plan_version = 3, rn_config = ''cfg'', rn_auto = True,
     rn_status = RUN_RECORDED, rn_current = None, rn_operation = None, rn_completed = [], rn_created = 0\<rparr>"

definition finished_world :: "unit run_world" where
  "finished_world = \<lparr>rw_world = (tiny_world [approved_row ''A'' ''TASK-1'', approved_row ''B'' ''TASK-1''] [])\<lparr>pw_tasks := finished_tasks\<rparr>,
     rw_runs = [tiny_run]\<rparr>"

definition tiny_run_env :: "unit run_env" where
  "tiny_run_env = \<lparr>re_plan = still_env, re_config = Inr ''cfg'', re_exclude = (\<lambda>w. (Inr (), w)), re_operation_id = (\<lambda>_. ''EXOP''),
     re_execute = (\<lambda>_ _ _. pure ())\<rparr>"

theorem started_run_settles_witness:
  "\<exists>r w'. run_plan tiny_run_env ''RUN-1'' finished_world = (Inr r, w') \<and> row_of rn_id ''RUN-1'' (rw_runs w') = Some r"
  using started_run_settles [of "''RUN-1''" finished_world tiny_run_env]
  by (auto simp: finished_world_def tiny_run_def row_of_def)

lemma run_slices_finished:
  "(\<And>s. s \<in> set ss \<Longrightarrow> project_slice_status (re_plan E) (rn_plan run) s (rw_world w) = Inr (KNOWN COMPLETE_SLICE)) \<Longrightarrow>
     \<exists>done_list. run_slices E run ss completed w = store_update (rn_id run) (Some RUN_SUCCEEDED) None None (Some done_list) w"
  by (induction ss arbitrary: completed) (auto simp: bnd_def in_world_def on_error_def)

lemma finished_complete: "complete_slice ''PLAN-1'' ''A'' (rw_world finished_world) \<and> complete_slice ''PLAN-1'' ''B'' (rw_world finished_world)"
  by (simp add: complete_slice_def finished_world_def tiny_world_def approved_row_def packaged_row_def row_of_def sx_key_def
      finished_tasks_def store_eval)

lemma finished_run:
  "\<exists>r w'. run_plan tiny_run_env ''RUN-1'' finished_world = (Inr r, w') \<and> rn_status r = RUN_SUCCEEDED"
proof -
  let ?w = "rw_world finished_world"
  have run: "row_of rn_id ''RUN-1'' (rw_runs finished_world) = Some tiny_run"
    by (simp add: finished_world_def tiny_run_def row_of_def)
  obtain r1 w1 where u: "store_update ''RUN-1'' (Some RUN_RUNNING) None None None finished_world = (Inr r1, w1)"
    and same: "rw_world w1 = ?w" and p1: "present ''RUN-1'' w1"
    using store_update_present [OF run, of "Some RUN_RUNNING" None None None] by (auto simp: present_def)
  have plan: "get_plan (pw_plans ?w) ''PLAN-1'' = Inr tiny_row" by (simp add: finished_world_def tiny_world_def tiny_approved)
  have ids: "is_id ` set (ap_slices (pl_plan tiny_row)) = {''A'', ''B''}" by (auto simp: tiny_row_def tiny_plan_def tiny_slice_def)
  have done_slices: "project_slice_status (re_plan tiny_run_env) (rn_plan tiny_run) s (rw_world w1) = Inr (KNOWN COMPLETE_SLICE)"
    if "s \<in> set (dependency_order (pl_plan tiny_row))" for s
    using that finished_complete complete_projects [OF _ plan]
    by (auto simp: dependency_order_set ids same tiny_run_def)
  obtain completed where s: "run_slices tiny_run_env tiny_run (dependency_order (pl_plan tiny_row)) [] w1
      = store_update ''RUN-1'' (Some RUN_SUCCEEDED) None None (Some completed) w1"
    using run_slices_finished [OF done_slices, of "dependency_order (pl_plan tiny_row)" "[]"] by (auto simp: tiny_run_def)
  obtain y w2 where f: "store_update ''RUN-1'' (Some RUN_SUCCEEDED) None None (Some completed) w1 = (y, w2)" by fastforce
  with p1 obtain r where r: "y = Inr r" "rn_status r = RUN_SUCCEEDED" by (auto elim!: store_update_present_E)
  have unchanged: "w1\<lparr>rw_world := (rw_world finished_world)\<lparr>pw_repo := ()\<rparr>\<rparr> = w1"
    unfolding same [symmetric] by simp
  have "run_body tiny_run_env tiny_run w1 = run_slices tiny_run_env tiny_run (dependency_order (pl_plan tiny_row)) []
      (w1\<lparr>rw_world := (rw_world finished_world)\<lparr>pw_repo := ()\<rparr>\<rparr>)"
    using plan
    by (simp add: run_body_def bnd_def in_world_def on_repo_def on_error_def tiny_run_env_def same tiny_run_def tiny_row_def)
  also have "\<dots> = (Inr r, w2)" unfolding unchanged using s f r(1) by simp
  finally have "run_body tiny_run_env tiny_run w1 = (Inr r, w2)" .
  with run u r(2) show ?thesis
    by (simp add: run_plan_def bnd_def run_get_def try_except_def)
qed


end
