(* ===== verification/Current_Evidence.thy ===== *)
theory Current_Evidence
  imports Vertical_Slice Task_Log Tables
begin

section \<open>The current evidence of a task (reporting/current_state.py)\<close>

text \<open>
  Which artifact holds the evidence behind the state a task is in, decided by the newest event that moved it there, and
  what that artifact says. The files of a task and the JSON values of event payloads are parameters: a file is
  absent, unreadable or holds a value. Reasons and details are left out.
\<close>

subsection \<open>Data\<close>

datatype 'a artifact = Absent | Unreadable | Readable 'a

datatype evidence_generation =
    NO_GENERATION | ORIGINAL_REPORT | VERIFICATION_RETRY | MANUAL_FRONTIER_APPLY | LOCAL_STAGE_SESSION
  | FRONTIER_STAGE_SESSION

datatype evidence_integrity = INTACT | MISSING | MALFORMED

record task_files =
  tf_report :: "slice_report artifact"
  tf_verification :: "string \<Rightarrow> verification_result artifact"
  tf_session :: "string \<Rightarrow> session_result artifact"

record json_reader =
  jr_text :: "string \<Rightarrow> string option"
  jr_coverage :: "string \<Rightarrow> acceptance_coverage list option"

record current_evidence =
  ce_task :: string
  ce_version :: int
  ce_state :: workflow_state
  ce_outcome :: "task_outcome option"
  ce_original :: "task_outcome option"
  ce_supersedes :: bool
  ce_generation :: evidence_generation
  ce_event :: "event_row option"
  ce_sources :: "string list"
  ce_integrity :: evidence_integrity
  ce_results :: "verification_result list"
  ce_coverage :: "acceptance_coverage list"

definition outcome_for_state :: "workflow_state \<Rightarrow> task_outcome option" where
  "outcome_for_state st =
     (case st of COMPLETE \<Rightarrow> Some COMPLETE_TASK | FAILED \<Rightarrow> Some FAILED_TASK
      | HUMAN_REVIEW_REQUIRED \<Rightarrow> Some HUMAN_REVIEW_TASK | _ \<Rightarrow> None)"

definition decisive_event_generation :: "(string \<times> evidence_generation) list" where
  "decisive_event_generation =
     map (\<lambda>t. (t, ORIGINAL_REPORT))
       [''verification_passed'', ''repair_verification_passed'', ''verification_failed'', ''repair_budget_exhausted'',
        ''acceptance_coverage_incomplete'', ''specification_not_approved'', ''deterministic_route_requires_human'',
        ''vertical_slice_failed'', ''review_local_stage_start_failed'', ''review_frontier_run_start_failed'',
        ''local_agent_verification_passed'', ''local_power_sandbox_verification_passed'', ''frontier_agent_verification_passed'']
     @ [(''frontier_escalation_not_configured'', LOCAL_STAGE_SESSION), (''bounded_frontier_requires_human'', FRONTIER_STAGE_SESSION),
        (''review_verification_retry_passed'', VERIFICATION_RETRY), (''review_verification_retry_failed'', VERIFICATION_RETRY),
        (''review_verification_retry_incomplete'', VERIFICATION_RETRY),
        (''manual_frontier_verification_passed'', MANUAL_FRONTIER_APPLY),
        (''manual_frontier_apply_verification_failed'', MANUAL_FRONTIER_APPLY),
        (''review_local_continuation_requires_human'', LOCAL_STAGE_SESSION),
        (''review_frontier_continuation_requires_human'', FRONTIER_STAGE_SESSION),
        (''review_frontier_stage_requires_human'', FRONTIER_STAGE_SESSION),
        (''review_continuation_verification_passed'', NO_GENERATION)]"

definition stage_started_generation :: "(string \<times> evidence_generation) list" where
  "stage_started_generation =
     [(''review_local_continuation_started'', LOCAL_STAGE_SESSION), (''review_frontier_continuation_started'', FRONTIER_STAGE_SESSION),
      (''review_frontier_stage_started'', FRONTIER_STAGE_SESSION)]"

definition verification_artifact_prefix :: "evidence_generation \<Rightarrow> string" where
  "verification_artifact_prefix g =
     (if g = VERIFICATION_RETRY then ''review-verification-retry-'' else ''manual-frontier-verification-'')"

definition current_verification_status :: "current_evidence \<Rightarrow> verification_status option" where
  "current_verification_status ev = (if ce_results ev = [] then None else Some (vr_status (last (ce_results ev))))"

definition is_verified_complete :: "current_evidence \<Rightarrow> bool" where
  "is_verified_complete ev =
     (ce_outcome ev = Some COMPLETE_TASK \<and> ce_integrity ev = INTACT \<and> current_verification_status ev = Some PASSED)"

definition evidence_command_results :: "current_evidence \<Rightarrow> (string \<times> verification_status \<times> int option) list" where
  "evidence_command_results ev =
     (if ce_results ev = [] then []
      else map (\<lambda>c. (cr_name c, cr_status c, cr_exit c)) (vr_commands (last (ce_results ev))))"

subsection \<open>Reading\<close>

definition read_artifact :: "'a artifact \<Rightarrow> 'a option \<times> evidence_integrity" where
  "read_artifact a = (case a of Absent \<Rightarrow> (None, MISSING) | Unreadable \<Rightarrow> (None, MALFORMED) | Readable x \<Rightarrow> (Some x, INTACT))"

definition session_paths :: "evidence_generation \<Rightarrow> string list" where
  "session_paths g =
     (if g = LOCAL_STAGE_SESSION then [''agent-session.json'', ''local-power-session.json''] else [''frontier-agent-session.json''])"

definition coverage_from_verification_result :: "task_specification \<Rightarrow> verification_result \<Rightarrow> acceptance_coverage list" where
  "coverage_from_verification_result spec r =
     compute_acceptance_coverage spec
       (map (\<lambda>c. \<lparr>vc_name = cr_name c, vc_category = cr_category c, vc_argv = cr_argv c, vc_timeout = 120,
                 vc_required = cr_required c, vc_environment = [], vc_description = [], vc_acceptance = cr_acceptance c,
                 vc_discovery_roots = []\<rparr>) (vr_commands r))
       (map_of (rev (map (\<lambda>c. (cr_name c, cr_status c)) (filter (\<lambda>c. cr_status c \<noteq> SKIPPED) (vr_commands r)))))"

text \<open>A text of the payload that is not empty.\<close>

definition payload_operation :: "json_reader \<Rightarrow> event_row \<Rightarrow> string option" where
  "payload_operation J e =
     (case Option.bind (map_of (er_payload e) ''operation_id'') (jr_text J) of
        None \<Rightarrow> None | Some t \<Rightarrow> if t = [] then None else Some t)"

definition coverage_from_event_payload :: "json_reader \<Rightarrow> event_row \<Rightarrow> acceptance_coverage list option" where
  "coverage_from_event_payload J e = Option.bind (map_of (er_payload e) ''coverage'') (jr_coverage J)"

text \<open>The newest event into a state, and the events before it, newest first.\<close>

definition decisive_event :: "event_row list \<Rightarrow> workflow_state \<Rightarrow> (event_row \<times> event_row list) option" where
  "decisive_event es st =
     (case dropWhile (\<lambda>e. er_to e \<noteq> st) (rev es) of [] \<Rightarrow> None | e # earlier \<Rightarrow> Some (e, earlier))"

fun resolve_stage_generation :: "event_row list \<Rightarrow> evidence_generation" where
  "resolve_stage_generation [] = NO_GENERATION"
| "resolve_stage_generation (e # earlier) =
     (case map_of stage_started_generation (er_type e) of None \<Rightarrow> resolve_stage_generation earlier | Some g \<Rightarrow> g)"

definition generation_of :: "(event_row \<times> event_row list) option \<Rightarrow> evidence_generation" where
  "generation_of d =
     (case d of
        None \<Rightarrow> NO_GENERATION
      | Some (e, earlier) \<Rightarrow>
          (case map_of decisive_event_generation (er_type e) of
             None \<Rightarrow> NO_GENERATION
           | Some NO_GENERATION \<Rightarrow> resolve_stage_generation earlier
           | Some g \<Rightarrow> g))"

subsection \<open>The projection\<close>

definition build_evidence ::
  "'s task_row \<Rightarrow> task_files \<Rightarrow> evidence_generation \<Rightarrow> event_row option \<Rightarrow> string list \<Rightarrow> evidence_integrity
    \<Rightarrow> verification_result list \<Rightarrow> acceptance_coverage list \<Rightarrow> current_evidence" where
  "build_evidence row F g e sources integrity results coverage =
     \<lparr>ce_task = tr_id row, ce_version = tr_version row, ce_state = tr_state row, ce_outcome = outcome_for_state (tr_state row),
      ce_original = map_option rp_outcome (fst (read_artifact (tf_report F))),
      ce_supersedes = (g \<noteq> NO_GENERATION \<and> g \<noteq> ORIGINAL_REPORT), ce_generation = g, ce_event = e, ce_sources = sources,
      ce_integrity = integrity, ce_results = results, ce_coverage = coverage\<rparr>"

text \<open>The evidence of a generation: its source, and what it holds or why it cannot be read.\<close>

definition retry_evidence ::
  "json_reader \<Rightarrow> task_files \<Rightarrow> task_specification \<Rightarrow> evidence_generation \<Rightarrow> event_row
    \<Rightarrow> string list \<times> evidence_integrity \<times> verification_result list \<times> acceptance_coverage list" where
  "retry_evidence J F spec g e =
     (case payload_operation J e of
        None \<Rightarrow> ([], MISSING, [], [])
      | Some operation \<Rightarrow>
          (let name = verification_artifact_prefix g @ operation @ ''.json'' in
           case read_artifact (tf_verification F name) of
             (None, integrity) \<Rightarrow> ([], integrity, [], [])
           | (Some r, _) \<Rightarrow>
               ([name], INTACT, [r],
                case coverage_from_event_payload J e of Some c \<Rightarrow> c | None \<Rightarrow> coverage_from_verification_result spec r)))"

definition session_evidence ::
  "task_files \<Rightarrow> evidence_generation
    \<Rightarrow> string list \<times> evidence_integrity \<times> verification_result list \<times> acceptance_coverage list" where
  "session_evidence F g =
     (case filter (\<lambda>n. tf_session F n \<noteq> Absent) (session_paths g) of
        [] \<Rightarrow> ([], MISSING, [], [])
      | name # _ \<Rightarrow>
          (case read_artifact (tf_session F name) of
             (None, integrity) \<Rightarrow> ([], integrity, [], [])
           | (Some s, _) \<Rightarrow> ([name], INTACT, sr_verifications s, sr_coverage s)))"

definition report_evidence ::
  "task_files \<Rightarrow> string list \<times> evidence_integrity \<times> verification_result list \<times> acceptance_coverage list" where
  "report_evidence F =
     (case read_artifact (tf_report F) of
        (None, integrity) \<Rightarrow> ([], integrity, [], [])
      | (Some r, _) \<Rightarrow> ([''report.json''], INTACT, rp_results r, rp_coverage r))"

definition located_evidence ::
  "json_reader \<Rightarrow> task_files \<Rightarrow> task_specification \<Rightarrow> (event_row \<times> event_row list) option
    \<Rightarrow> string list \<times> evidence_integrity \<times> verification_result list \<times> acceptance_coverage list" where
  "located_evidence J F spec d =
     (case d of
        None \<Rightarrow> ([], MISSING, [], [])
      | Some (e, _) \<Rightarrow>
          (let g = generation_of d in
           case g of
             NO_GENERATION \<Rightarrow> ([], MISSING, [], [])
           | ORIGINAL_REPORT \<Rightarrow> report_evidence F
           | VERIFICATION_RETRY \<Rightarrow> retry_evidence J F spec g e
           | MANUAL_FRONTIER_APPLY \<Rightarrow> retry_evidence J F spec g e
           | LOCAL_STAGE_SESSION \<Rightarrow> session_evidence F g
           | FRONTIER_STAGE_SESSION \<Rightarrow> session_evidence F g))"

definition project_current_task_evidence ::
  "json_reader \<Rightarrow> task_files \<Rightarrow> task_specification \<Rightarrow> 's task_row \<Rightarrow> event_row list \<Rightarrow> current_evidence" where
  "project_current_task_evidence J F spec row es =
     (if outcome_for_state (tr_state row) = None then build_evidence row F NO_GENERATION None [] INTACT [] []
      else
        (let d = decisive_event es (tr_state row) in
         case located_evidence J F spec d of (sources, integrity, results, coverage) \<Rightarrow>
           build_evidence row F (generation_of d) (map_option fst d) sources integrity results coverage))"

subsection \<open>What the projection shows\<close>

text \<open>The artifact of a generation records \<open>vr\<close> as the run that decided.\<close>

definition shown_by :: "json_reader \<Rightarrow> task_files \<Rightarrow> evidence_generation \<Rightarrow> event_row \<Rightarrow> verification_result \<Rightarrow> bool" where
  "shown_by J F g e vr =
     (case g of
        NO_GENERATION \<Rightarrow> False
      | ORIGINAL_REPORT \<Rightarrow> \<exists>r. tf_report F = Readable r \<and> rp_results r \<noteq> [] \<and> last (rp_results r) = vr
      | VERIFICATION_RETRY \<Rightarrow>
          \<exists>op. payload_operation J e = Some op \<and> tf_verification F (verification_artifact_prefix g @ op @ ''.json'') = Readable vr
      | MANUAL_FRONTIER_APPLY \<Rightarrow>
          \<exists>op. payload_operation J e = Some op \<and> tf_verification F (verification_artifact_prefix g @ op @ ''.json'') = Readable vr
      | LOCAL_STAGE_SESSION \<Rightarrow>
          \<exists>name rest s. filter (\<lambda>n. tf_session F n \<noteq> Absent) (session_paths g) = name # rest \<and> tf_session F name = Readable s
            \<and> sr_verifications s \<noteq> [] \<and> last (sr_verifications s) = vr
      | FRONTIER_STAGE_SESSION \<Rightarrow>
          \<exists>name rest s. filter (\<lambda>n. tf_session F n \<noteq> Absent) (session_paths g) = name # rest \<and> tf_session F name = Readable s
            \<and> sr_verifications s \<noteq> [] \<and> last (sr_verifications s) = vr)"

lemma build_evidence_simps [simp]:
  "ce_outcome (build_evidence row F g e sources integrity results coverage) = outcome_for_state (tr_state row)"
  "ce_integrity (build_evidence row F g e sources integrity results coverage) = integrity"
  "ce_results (build_evidence row F g e sources integrity results coverage) = results"
  "ce_generation (build_evidence row F g e sources integrity results coverage) = g"
  by (simp_all add: build_evidence_def)

lemma outcome_complete: "outcome_for_state st = Some COMPLETE_TASK \<longleftrightarrow> st = COMPLETE"
  by (cases st) (simp_all add: outcome_for_state_def)

lemma retry_evidence_shows:
  "retry_evidence J F spec g e = (sources, INTACT, results, coverage) \<Longrightarrow>
     \<exists>op vr. payload_operation J e = Some op \<and> tf_verification F (verification_artifact_prefix g @ op @ ''.json'') = Readable vr \<and> results = [vr]"
  by (auto simp: retry_evidence_def Let_def read_artifact_def split: option.splits prod.splits artifact.splits)

lemma session_evidence_shows:
  "session_evidence F g = (sources, INTACT, results, coverage) \<Longrightarrow>
     \<exists>name rest s. filter (\<lambda>n. tf_session F n \<noteq> Absent) (session_paths g) = name # rest \<and> tf_session F name = Readable s
       \<and> results = sr_verifications s"
  by (auto simp: session_evidence_def read_artifact_def split: list.splits option.splits prod.splits artifact.splits)

lemma report_evidence_shows:
  "report_evidence F = (sources, INTACT, results, coverage) \<Longrightarrow> \<exists>r. tf_report F = Readable r \<and> results = rp_results r"
  by (auto simp: report_evidence_def read_artifact_def split: option.splits prod.splits artifact.splits)

lemma verified_complete_shown:
  assumes v: "is_verified_complete (project_current_task_evidence J F spec row es)"
  shows "tr_state row = COMPLETE \<and> (\<exists>e earlier vr. decisive_event es COMPLETE = Some (e, earlier)
    \<and> shown_by J F (generation_of (Some (e, earlier))) e vr \<and> vr_status vr = PASSED)"
proof -
  let ?d = "decisive_event es (tr_state row)"
  from v have st: "tr_state row = COMPLETE"
    by (cases "outcome_for_state (tr_state row) = None")
      (auto simp: is_verified_complete_def project_current_task_evidence_def outcome_complete Let_def split: prod.splits)
  then have out: "outcome_for_state (tr_state row) \<noteq> None" by (simp add: outcome_for_state_def)
  obtain sources integrity results coverage where found: "located_evidence J F spec ?d = (sources, integrity, results, coverage)"
    by (cases "located_evidence J F spec ?d")
  with v out have i: "integrity = INTACT" and passed: "results \<noteq> []" "vr_status (last results) = PASSED"
    by (auto simp: is_verified_complete_def project_current_task_evidence_def current_verification_status_def Let_def split: if_splits)
  from found i obtain e earlier where d: "?d = Some (e, earlier)" by (auto simp: located_evidence_def split: option.splits)
  have "shown_by J F (generation_of (Some (e, earlier))) e (last results)"
    using found [unfolded i] passed unfolding d
    by (cases "generation_of (Some (e, earlier))")
      (auto simp: located_evidence_def shown_by_def dest: report_evidence_shows retry_evidence_shows session_evidence_shows)
  with st d passed(2) show ?thesis by (intro conjI exI [of _ e] exI [of _ earlier] exI [of _ "last results"]) simp_all
qed

lemma events_logged:
  assumes wf: "wf_db db" and row: "get_task db tid = Inr row" and es: "events db tid = Inr es"
  shows "row_logged es row"
proof -
  from row have "select_task tid db = Some row" by (auto simp: get_task_def split: option.splits)
  then have r: "row \<in> set (db_tasks db)" "tr_id row = tid" by (auto dest: select_task_SomeD)
  from wf r have logged: "row_logged (task_events tid db) row" by (auto simp: wf_db_def)
  have sorted: "sorted (map er_sequence (task_events tid db))"
    using wf by (auto simp: wf_db_def task_events_def intro!: strict_sorted_imp_sorted sorted_wrt_map_filter)
  have "es = task_events tid db"
    using es row sorted by (auto simp: events_def sorted_sort_id sort_key_id_if_sorted)
  with logged show ?thesis by simp
qed

lemma decisive_event_last:
  assumes "row_logged es row" and st: "tr_state row = COMPLETE"
  shows "\<exists>before e. es = before @ [e] \<and> decisive_event es COMPLETE = Some (e, rev before) \<and> er_from e = Some VERIFYING \<and> er_to e = COMPLETE"
proof -
  from assms have l: "es \<noteq> []" "log_ok None es" "er_to (last es) = COMPLETE" by (simp_all add: row_logged_def)
  then obtain before e where eq: "es = before @ [e]" by (cases es rule: rev_cases) auto
  with l have b: "es = before @ [e]" "er_to e = COMPLETE" "log_ok None (before @ e # [])" by simp_all
  with log_ok_complete [OF b(3,2)] show ?thesis by (simp add: decisive_event_def)
qed

text \<open>
  Where the run that completed a task is recorded, by the type of its last event alone: the report of the original run; the
  artifact a retry or a manual application names by its operation; or the session of the stage that the completing event, or
  for a continuation the newest stage start before it, belongs to.
\<close>

definition report_shows :: "task_files \<Rightarrow> verification_result \<Rightarrow> bool" where
  "report_shows F vr = (\<exists>r. tf_report F = Readable r \<and> rp_results r \<noteq> [] \<and> last (rp_results r) = vr)"

definition session_shows :: "task_files \<Rightarrow> string \<Rightarrow> verification_result \<Rightarrow> bool" where
  "session_shows F name vr = (\<exists>s. tf_session F name = Readable s \<and> sr_verifications s \<noteq> [] \<and> last (sr_verifications s) = vr)"

definition local_session_shows :: "task_files \<Rightarrow> verification_result \<Rightarrow> bool" where
  "local_session_shows F vr =
     (session_shows F ''agent-session.json'' vr
      \<or> tf_session F ''agent-session.json'' = Absent \<and> session_shows F ''local-power-session.json'' vr)"

definition newest_stage_start :: "event_row list \<Rightarrow> string option" where
  "newest_stage_start before =
     map_option er_type (find (\<lambda>x. er_type x \<in> {''review_local_continuation_started'', ''review_frontier_continuation_started'',
       ''review_frontier_stage_started''}) (rev before))"

definition original_run_events :: "string set" where
  "original_run_events = {''verification_passed'', ''repair_verification_passed'', ''verification_failed'', ''repair_budget_exhausted'',
     ''acceptance_coverage_incomplete'', ''specification_not_approved'', ''deterministic_route_requires_human'',
     ''vertical_slice_failed'', ''review_local_stage_start_failed'', ''review_frontier_run_start_failed'',
     ''local_agent_verification_passed'', ''local_power_sandbox_verification_passed'', ''frontier_agent_verification_passed''}"

definition retry_events :: "string set" where
  "retry_events = {''review_verification_retry_passed'', ''review_verification_retry_failed'', ''review_verification_retry_incomplete''}"

definition manual_events :: "string set" where
  "manual_events = {''manual_frontier_verification_passed'', ''manual_frontier_apply_verification_failed''}"

definition local_stage_events :: "string set" where
  "local_stage_events = {''frontier_escalation_not_configured'', ''review_local_continuation_requires_human''}"

definition frontier_stage_events :: "string set" where
  "frontier_stage_events = {''bounded_frontier_requires_human'', ''review_frontier_continuation_requires_human'',
     ''review_frontier_stage_requires_human''}"

definition continued_after :: "event_row list \<Rightarrow> event_row \<Rightarrow> string \<Rightarrow> bool" where
  "continued_after before e t =
     (er_type e = ''review_continuation_verification_passed'' \<and> newest_stage_start before = Some t)"

definition completion_recorded ::
  "json_reader \<Rightarrow> task_files \<Rightarrow> event_row list \<Rightarrow> event_row \<Rightarrow> verification_result \<Rightarrow> bool" where
  "completion_recorded J F before e vr =
     ((er_type e \<in> original_run_events \<and> report_shows F vr)
      \<or> (er_type e \<in> retry_events
         \<and> (\<exists>op. payload_operation J e = Some op \<and> tf_verification F (''review-verification-retry-'' @ op @ ''.json'') = Readable vr))
      \<or> (er_type e \<in> manual_events
         \<and> (\<exists>op. payload_operation J e = Some op \<and> tf_verification F (''manual-frontier-verification-'' @ op @ ''.json'') = Readable vr))
      \<or> ((er_type e \<in> local_stage_events \<or> continued_after before e ''review_local_continuation_started'') \<and> local_session_shows F vr)
      \<or> ((er_type e \<in> frontier_stage_events \<or> continued_after before e ''review_frontier_continuation_started''
            \<or> continued_after before e ''review_frontier_stage_started'')
         \<and> session_shows F ''frontier-agent-session.json'' vr))"

lemma resolve_stage_find:
  "resolve_stage_generation es =
     (case find (\<lambda>x. er_type x \<in> {''review_local_continuation_started'', ''review_frontier_continuation_started'',
         ''review_frontier_stage_started''}) es of
        None \<Rightarrow> NO_GENERATION
      | Some x \<Rightarrow> if er_type x = ''review_local_continuation_started'' then LOCAL_STAGE_SESSION else FRONTIER_STAGE_SESSION)"
proof (induction es)
  case (Cons e es)
  show ?case
  proof (cases "er_type e \<in> {''review_local_continuation_started'', ''review_frontier_continuation_started'',
      ''review_frontier_stage_started''}")
    case True
    then show ?thesis by (auto simp: stage_started_generation_def)
  next
    case False
    then have "map_of stage_started_generation (er_type e) = None" by (auto simp: stage_started_generation_def)
    with False Cons.IH show ?thesis by simp
  qed
qed simp

lemma resolve_stage_start:
  "resolve_stage_generation (rev before) =
     (if newest_stage_start before = Some ''review_local_continuation_started'' then LOCAL_STAGE_SESSION
      else if newest_stage_start before = None then NO_GENERATION else FRONTIER_STAGE_SESSION)"
  unfolding newest_stage_start_def resolve_stage_find by (simp split: option.split)

lemma newest_stage_types:
  "newest_stage_start before \<in> {None, Some ''review_local_continuation_started'', Some ''review_frontier_continuation_started'',
     Some ''review_frontier_stage_started''}"
proof (cases "newest_stage_start before")
  case (Some t)
  then obtain x where x: "find (\<lambda>x. er_type x \<in> {''review_local_continuation_started'', ''review_frontier_continuation_started'',
      ''review_frontier_stage_started''}) (rev before) = Some x" "t = er_type x"
    by (auto simp: newest_stage_start_def)
  from x(1) have "er_type x \<in> {''review_local_continuation_started'', ''review_frontier_continuation_started'',
      ''review_frontier_stage_started''}" unfolding find_Some_iff by blast
  with Some x(2) show ?thesis by simp
qed simp

lemma shown_session:
  "shown_by J F LOCAL_STAGE_SESSION e vr \<Longrightarrow> local_session_shows F vr"
  "shown_by J F FRONTIER_STAGE_SESSION e vr \<Longrightarrow> session_shows F ''frontier-agent-session.json'' vr"
  by (auto simp: shown_by_def local_session_shows_def session_shows_def session_paths_def split: if_splits)

lemma shown_artifact:
  "shown_by J F VERIFICATION_RETRY e vr \<Longrightarrow>
     \<exists>op. payload_operation J e = Some op \<and> tf_verification F (''review-verification-retry-'' @ op @ ''.json'') = Readable vr"
  "shown_by J F MANUAL_FRONTIER_APPLY e vr \<Longrightarrow>
     \<exists>op. payload_operation J e = Some op \<and> tf_verification F (''manual-frontier-verification-'' @ op @ ''.json'') = Readable vr"
  "shown_by J F ORIGINAL_REPORT e vr \<Longrightarrow> report_shows F vr" "\<not> shown_by J F NO_GENERATION e vr"
  by (simp_all add: shown_by_def verification_artifact_prefix_def report_shows_def)

lemma table_entries:
  "(t, g) \<in> set decisive_event_generation \<Longrightarrow>
     t \<in> original_run_events \<and> g = ORIGINAL_REPORT \<or> t \<in> retry_events \<and> g = VERIFICATION_RETRY
     \<or> t \<in> manual_events \<and> g = MANUAL_FRONTIER_APPLY \<or> t \<in> local_stage_events \<and> g = LOCAL_STAGE_SESSION
     \<or> t \<in> frontier_stage_events \<and> g = FRONTIER_STAGE_SESSION
     \<or> t = ''review_continuation_verification_passed'' \<and> g = NO_GENERATION"
  by (auto simp: decisive_event_generation_def original_run_events_def retry_events_def manual_events_def local_stage_events_def
      frontier_stage_events_def)

lemma shown_recorded:
  assumes shown: "shown_by J F (generation_of (Some (e, rev before))) e vr"
  shows "completion_recorded J F before e vr"
proof -
  obtain g where m: "map_of decisive_event_generation (er_type e) = Some g"
    using shown shown_artifact(4) by (cases "map_of decisive_event_generation (er_type e)") (auto simp: generation_of_def)
  have g: "generation_of (Some (e, rev before)) = (if g = NO_GENERATION then resolve_stage_generation (rev before) else g)"
    using m by (cases g) (simp_all add: generation_of_def)
  show ?thesis
  proof (cases "g = NO_GENERATION")
    case True
    with table_entries [OF map_of_SomeD [OF m]] have "er_type e = ''review_continuation_verification_passed''" by simp
    then have cont: "continued_after before e t = (newest_stage_start before = Some t)" for t by (simp add: continued_after_def)
    show ?thesis
      using shown newest_stage_types [of before] shown_session shown_artifact(4)
      unfolding g resolve_stage_start completion_recorded_def cont by (auto simp: True split: if_splits)
  next
    case False
    with shown g have "shown_by J F g e vr" by simp
    with False table_entries [OF map_of_SomeD [OF m]] show ?thesis
      unfolding completion_recorded_def by (elim disjE) (auto dest: shown_artifact(1-3) shown_session)
  qed
qed

text \<open>
  C12: a task counts as verified complete only by its newest evidence. When the projection of a stored task says so, the task
  is COMPLETE, its last event is the one that took it from VERIFYING to COMPLETE, and where that event records its run (a table
  by the type of the event, stated apart from the code's) there is a readable artifact whose deciding run passed.
\<close>

theorem verified_complete_means_newest_evidence_passed:
  assumes wf: "wf_db db" and row: "get_task db tid = Inr row" and es: "events db tid = Inr es"
    and v: "is_verified_complete (project_current_task_evidence J F spec row es)"
  shows "tr_state row = COMPLETE \<and> (\<exists>before e vr. es = before @ [e] \<and> er_from e = Some VERIFYING \<and> er_to e = COMPLETE
    \<and> completion_recorded J F before e vr \<and> vr_status vr = PASSED)"
proof -
  from verified_complete_shown [OF v] obtain e earlier vr where st: "tr_state row = COMPLETE"
    and d: "decisive_event es COMPLETE = Some (e, earlier)" and s: "shown_by J F (generation_of (Some (e, earlier))) e vr"
      "vr_status vr = PASSED" by blast
  from decisive_event_last [OF events_logged [OF wf row es] st] d obtain before where
    "es = before @ [e]" "earlier = rev before" "er_from e = Some VERIFYING" "er_to e = COMPLETE" by auto
  with st s shown_recorded show ?thesis by blast
qed

text \<open>
  The table has no entry for the completing event of the capability sandbox, so a task that this stage completes is never
  shown to be verified complete.
\<close>

lemma sandbox_completion_is_not_shown:
  assumes "er_type e = ''capability_sandbox_verification_passed''" "er_to e = COMPLETE" "tr_state row = COMPLETE"
  shows "\<not> is_verified_complete (project_current_task_evidence J F spec row (before @ [e]))"
proof
  assume "is_verified_complete (project_current_task_evidence J F spec row (before @ [e]))"
  from verified_complete_shown [OF this] assms(2) obtain vr where "shown_by J F (generation_of (Some (e, rev before))) e vr"
    by (auto simp: decisive_event_def)
  from shown_recorded [OF this] assms(1) show False
    by (simp add: completion_recorded_def original_run_events_def retry_events_def manual_events_def local_stage_events_def
        frontier_stage_events_def continued_after_def)
qed

lemma located_without_report:
  "generation_of d \<noteq> ORIGINAL_REPORT \<Longrightarrow> located_evidence J (F\<lparr>tf_report := r\<rparr>) spec d = located_evidence J F spec d"
proof -
  have same: "tf_verification (F\<lparr>tf_report := r\<rparr>) = tf_verification F" "tf_session (F\<lparr>tf_report := r\<rparr>) = tf_session F"
    by simp_all
  have "retry_evidence J (F\<lparr>tf_report := r\<rparr>) spec g e = retry_evidence J F spec g e"
    "session_evidence (F\<lparr>tf_report := r\<rparr>) g = session_evidence F g" for g e
    unfolding retry_evidence_def session_evidence_def same by (rule refl)+
  then show "generation_of d \<noteq> ORIGINAL_REPORT \<Longrightarrow> ?thesis"
    by (auto simp: located_evidence_def Let_def split: option.split evidence_generation.split)
qed

text \<open>
  A superseded report is never evidence. Whatever \<open>report.json\<close> says, as long as the newest event belongs to another
  generation, the projection differs in nothing but the outcome it quotes as the original one.
\<close>

theorem superseded_report_is_never_evidence:
  assumes "ce_generation (project_current_task_evidence J F spec row es) \<noteq> ORIGINAL_REPORT"
  shows "project_current_task_evidence J (F\<lparr>tf_report := r\<rparr>) spec row es
    = (project_current_task_evidence J F spec row es)\<lparr>ce_original := map_option rp_outcome (fst (read_artifact r))\<rparr>"
proof (cases "outcome_for_state (tr_state row) = None")
  case True
  then show ?thesis by (simp add: project_current_task_evidence_def build_evidence_def)
next
  case False
  then have "generation_of (decisive_event es (tr_state row)) \<noteq> ORIGINAL_REPORT"
    using assms by (auto simp: project_current_task_evidence_def Let_def split: prod.splits)
  moreover from False obtain out where "outcome_for_state (tr_state row) = Some out" by auto
  ultimately show ?thesis
    by (simp add: project_current_task_evidence_def located_without_report build_evidence_def Let_def split: prod.split)
qed

subsection \<open>Witnesses\<close>

definition passed_run :: verification_result where
  "passed_run = \<lparr>vr_task = ''T'', vr_status = PASSED, vr_commands = [], vr_violations = []\<rparr>"

definition finished_report :: slice_report where
  "finished_report = \<lparr>rp_task = ''T'', rp_outcome = COMPLETE_TASK, rp_error = None, rp_turns = 0, rp_patch_attempts = 0,
     rp_verification_runs = 0, rp_escalated = False, rp_files = [], rp_results = [passed_run], rp_coverage = [], rp_rejected = 0\<rparr>"

definition retried_files :: "slice_report artifact \<Rightarrow> task_files" where
  "retried_files r = \<lparr>tf_report = r,
     tf_verification = (\<lambda>n. if n = ''review-verification-retry-OP-1.json'' then Readable passed_run else Absent),
     tf_session = (\<lambda>_. Absent)\<rparr>"

definition plain_reader :: json_reader where
  "plain_reader = \<lparr>jr_text = Some, jr_coverage = (\<lambda>_. None)\<rparr>"

definition retried_db :: "task_specification task_db" where
  "retried_db = foldl store_exec empty_db
     [Create ''a'' ''T'' (sample_specification []) USER 0, Transition ''b'' ''T'' HUMAN_REVIEW_REQUIRED SYSTEM ''verification_failed'' None None 1,
      Transition ''c'' ''T'' VERIFYING OPERATOR ''review_verification_retry_started'' None None 2,
      Transition ''d'' ''T'' COMPLETE VERIFICATION_ENGINE ''review_verification_retry_passed''
        (Some [(''operation_id'', ''OP-1'')]) None 3]"

lemma retried_events:
  "\<exists>row es. get_task retried_db ''T'' = Inr row \<and> events retried_db ''T'' = Inr es
     \<and> is_verified_complete (project_current_task_evidence plain_reader (retried_files Absent) (sample_specification []) row es)
     \<and> ce_generation (project_current_task_evidence plain_reader (retried_files Absent) (sample_specification []) row es) = VERIFICATION_RETRY"
  by (simp add: retried_db_def events_def task_events_def get_task_def store_eval project_current_task_evidence_def
      located_evidence_def Let_def outcome_for_state_def decisive_event_def generation_of_def decisive_event_generation_def retry_evidence_def
      payload_operation_def plain_reader_def retried_files_def verification_artifact_prefix_def read_artifact_def
      coverage_from_event_payload_def is_verified_complete_def current_verification_status_def passed_run_def
      build_evidence_def sorted_payload_def)

theorem verified_complete_means_newest_evidence_passed_witness:
  "\<exists>row before e. get_task retried_db ''T'' = Inr row \<and> events retried_db ''T'' = Inr (before @ [e]) \<and> tr_state row = COMPLETE
     \<and> er_from e = Some VERIFYING"
proof -
  obtain row es where r: "get_task retried_db ''T'' = Inr row" "events retried_db ''T'' = Inr es"
    "is_verified_complete (project_current_task_evidence plain_reader (retried_files Absent) (sample_specification []) row es)"
    using retried_events by blast
  have "wf_db retried_db" by (simp add: retried_db_def store_exec_wf wf_empty_db del: store_exec.simps)
  from verified_complete_means_newest_evidence_passed [OF this r] r show ?thesis by blast
qed

theorem superseded_report_is_never_evidence_witness:
  "\<exists>row es. get_task retried_db ''T'' = Inr row \<and>
     ce_results (project_current_task_evidence plain_reader (retried_files (Readable finished_report)) (sample_specification []) row es)
     = ce_results (project_current_task_evidence plain_reader (retried_files Absent) (sample_specification []) row es)"
proof -
  obtain row es where r: "get_task retried_db ''T'' = Inr row"
    "ce_generation (project_current_task_evidence plain_reader (retried_files Absent) (sample_specification []) row es) = VERIFICATION_RETRY"
    using retried_events by blast
  have files: "(retried_files Absent)\<lparr>tf_report := Readable finished_report\<rparr> = retried_files (Readable finished_report)"
    by (simp add: retried_files_def)
  from r superseded_report_is_never_evidence [of plain_reader "retried_files Absent" "sample_specification []" row es "Readable finished_report"]
  show ?thesis unfolding files by (intro exI [of _ row] exI [of _ es]) simp
qed

end
