(* ===== verification/Review_Case.thy ===== *)
theory Review_Case
  imports Current_Evidence Operation_Stores
begin

section \<open>Stops and the actions offered for them (review/classify.py, review/case.py)\<close>

text \<open>
  Why a task waits in HUMAN_REVIEW_REQUIRED, decided by its newest event into that state alone, and which actions the
  harness offers for it. Of a review case the parts that decide the offer are modelled; diffs and texts are left out.
\<close>

datatype stop_reason_kind =
    SPECIFICATION_NOT_APPROVED | ROUTING_REQUIRES_HUMAN | ACCEPTANCE_COVERAGE_INCOMPLETE | VERIFICATION_FAILED
  | LOCAL_AGENT_ESCALATION_UNAVAILABLE | FRONTIER_AGENT_EXHAUSTED | UNKNOWN_STOP

definition event_type_stop_reason :: "(string \<times> stop_reason_kind) list" where
  "event_type_stop_reason =
     [(''specification_not_approved'', SPECIFICATION_NOT_APPROVED),
      (''deterministic_route_requires_human'', ROUTING_REQUIRES_HUMAN),
      (''review_local_stage_start_failed'', ROUTING_REQUIRES_HUMAN),
      (''review_frontier_run_start_failed'', ROUTING_REQUIRES_HUMAN),
      (''acceptance_coverage_incomplete'', ACCEPTANCE_COVERAGE_INCOMPLETE),
      (''review_verification_retry_incomplete'', ACCEPTANCE_COVERAGE_INCOMPLETE),
      (''review_verification_retry_failed'', VERIFICATION_FAILED),
      (''frontier_escalation_not_configured'', LOCAL_AGENT_ESCALATION_UNAVAILABLE),
      (''review_local_continuation_requires_human'', LOCAL_AGENT_ESCALATION_UNAVAILABLE),
      (''bounded_frontier_requires_human'', FRONTIER_AGENT_EXHAUSTED),
      (''review_frontier_continuation_requires_human'', FRONTIER_AGENT_EXHAUSTED),
      (''review_frontier_stage_requires_human'', FRONTIER_AGENT_EXHAUSTED),
      (''manual_frontier_apply_verification_failed'', VERIFICATION_FAILED)]"

definition base_eligible_actions :: "stop_reason_kind \<Rightarrow> review_action list" where
  "base_eligible_actions k =
     [INSPECT_ONLY, ABANDON] @
     (case k of
        SPECIFICATION_NOT_APPROVED \<Rightarrow> []
      | ROUTING_REQUIRES_HUMAN \<Rightarrow> [AUTHORIZE_LOCAL_STAGE, AUTHORIZE_FRONTIER_RUN]
      | ACCEPTANCE_COVERAGE_INCOMPLETE \<Rightarrow> [VERIFICATION_ONLY_RETRY, LOCAL_CONTINUATION]
      | VERIFICATION_FAILED \<Rightarrow> [VERIFICATION_ONLY_RETRY, LOCAL_CONTINUATION, MANUAL_FRONTIER_HANDOFF]
      | LOCAL_AGENT_ESCALATION_UNAVAILABLE \<Rightarrow>
          [VERIFICATION_ONLY_RETRY, LOCAL_CONTINUATION, AUTHORIZE_FRONTIER_STAGE, MANUAL_FRONTIER_HANDOFF]
      | FRONTIER_AGENT_EXHAUSTED \<Rightarrow> [VERIFICATION_ONLY_RETRY, FRONTIER_CONTINUATION, MANUAL_FRONTIER_HANDOFF]
      | UNKNOWN_STOP \<Rightarrow> [])"

definition classify_stop_reason :: "event_row list \<Rightarrow> stop_reason_kind \<times> event_row option" where
  "classify_stop_reason es =
     (case dropWhile (\<lambda>e. er_to e \<noteq> HUMAN_REVIEW_REQUIRED) (rev es) of
        [] \<Rightarrow> (UNKNOWN_STOP, None)
      | e # _ \<Rightarrow> (case map_of event_type_stop_reason (er_type e) of None \<Rightarrow> UNKNOWN_STOP | Some k \<Rightarrow> k, Some e))"

record review_facts =
  rf_frontier :: bool
  rf_continuations :: nat
  rf_max_continuations :: nat
  rf_stage_exists :: bool
  rf_manual_rounds :: nat
  rf_max_manual_rounds :: nat

text \<open>\<open>without\<close> is the comprehension that drops some actions; \<open>remove1\<close> is \<open>list.remove\<close>.\<close>

definition without :: "bool \<Rightarrow> review_action list \<Rightarrow> review_action list \<Rightarrow> review_action list" where
  "without c dropped actions = (if c then filter (\<lambda>a. a \<notin> set dropped) actions else actions)"

definition eligible_actions_for :: "stop_reason_kind \<Rightarrow> review_facts \<Rightarrow> review_action list" where
  "eligible_actions_for k f =
     (let a1 = without (\<not> rf_frontier f) [FRONTIER_CONTINUATION, AUTHORIZE_FRONTIER_STAGE, AUTHORIZE_FRONTIER_RUN]
                 (base_eligible_actions k);
          a2 = (if rf_stage_exists f \<and> AUTHORIZE_FRONTIER_STAGE \<in> set a1 then remove1 AUTHORIZE_FRONTIER_STAGE a1 else a1);
          a3 = without (rf_continuations f \<ge> rf_max_continuations f) [LOCAL_CONTINUATION, FRONTIER_CONTINUATION] a2
      in without (rf_manual_rounds f \<ge> rf_max_manual_rounds f) [MANUAL_FRONTIER_HANDOFF] a3)"

definition count_events :: "string list \<Rightarrow> event_row list \<Rightarrow> nat" where
  "count_events types es = length (filter (\<lambda>e. er_type e \<in> set types) es)"

definition continuation_started_types :: "string list" where
  "continuation_started_types = [''review_local_continuation_started'', ''review_frontier_continuation_started'']"

definition manual_frontier_round_consumed_event :: string where
  "manual_frontier_round_consumed_event = ''manual_frontier_apply_verification_failed''"

text \<open>The extra turns earlier continuations were granted; the reader yields the number an event's budget holds.\<close>

definition continuation_additional_turns :: "(event_row \<Rightarrow> int option) \<Rightarrow> event_row list \<Rightarrow> string \<Rightarrow> int" where
  "continuation_additional_turns granted es ty =
     sum_list (map (\<lambda>e. case granted e of None \<Rightarrow> 0 | Some n \<Rightarrow> n) (filter (\<lambda>e. er_type e = ty) es))"

text \<open>\<open>read_agent_session\<close> lets a malformed file escape as a \<open>ValidationError\<close>.\<close>

definition read_session :: "session_result artifact \<Rightarrow> string + session_result option" where
  "read_session a = (case a of Absent \<Rightarrow> Inr None | Unreadable \<Rightarrow> Inl ''ValidationError'' | Readable s \<Rightarrow> Inr (Some s))"

definition read_local_stage_session :: "task_files \<Rightarrow> string + session_result option \<times> bool" where
  "read_local_stage_session F =
     and_then (read_session (tf_session F ''agent-session.json'')) (\<lambda>strict.
     case strict of
       Some s \<Rightarrow> Inr (Some s, False)
     | None \<Rightarrow> and_then (read_session (tf_session F ''local-power-session.json'')) (\<lambda>power. Inr (power, True)))"

record review_view =
  rw_frontier_model :: "string option"
  rw_max_continuations :: nat
  rw_max_rounds :: nat
  rw_worktree :: bool
  rw_diff :: "string option"

text \<open>A stop before any session: a fresh local stage is offered instead of a continuation.\<close>

definition offer_fresh_stage :: "stop_reason_kind \<Rightarrow> bool \<Rightarrow> review_view \<Rightarrow> review_action list \<Rightarrow> review_action list" where
  "offer_fresh_stage k has_session V actions =
     (if has_session then actions
      else (let kept = filter (\<lambda>a. a \<noteq> LOCAL_CONTINUATION) actions in
            if k = LOCAL_AGENT_ESCALATION_UNAVAILABLE \<and> rw_worktree V \<and> rw_diff V = Some [] \<and> AUTHORIZE_LOCAL_STAGE \<notin> set kept
            then kept @ [AUTHORIZE_LOCAL_STAGE] else kept))"

record review_case =
  rc_kind :: stop_reason_kind
  rc_stop :: "event_row option"
  rc_evidence :: current_evidence
  rc_actions :: "review_action list"
  rc_facts :: review_facts

definition build_review_case ::
  "json_reader \<Rightarrow> task_files \<Rightarrow> review_view \<Rightarrow> task_specification task_row \<Rightarrow> event_row list \<Rightarrow> string + review_case" where
  "build_review_case J F V row es =
     (if tr_state row \<noteq> HUMAN_REVIEW_REQUIRED then Inl ''ReviewCaseError''
      else if tf_report F = Unreadable then Inl ''ValidationError''
      else
        and_then (read_local_stage_session F) (\<lambda>(local, _).
        and_then (read_session (tf_session F ''frontier-agent-session.json'')) (\<lambda>frontier.
          (let (kind, stop) = classify_stop_reason es;
               facts = \<lparr>rf_frontier = (rw_frontier_model V \<noteq> None),
                        rf_continuations = count_events continuation_started_types es,
                        rf_max_continuations = rw_max_continuations V, rf_stage_exists = (frontier \<noteq> None),
                        rf_manual_rounds = count_events [manual_frontier_round_consumed_event] es,
                        rf_max_manual_rounds = rw_max_rounds V\<rparr>
           in Inr \<lparr>rc_kind = kind, rc_stop = stop, rc_evidence = project_current_task_evidence J F (tr_spec row) row es,
                   rc_actions = offer_fresh_stage kind (local \<noteq> None) V (eligible_actions_for kind facts),
                   rc_facts = facts\<rparr>))))"

subsection \<open>What is offered\<close>

text \<open>The actions that the facts of a case allow.\<close>

definition action_allowed :: "review_facts \<Rightarrow> bool \<Rightarrow> review_action \<Rightarrow> bool" where
  "action_allowed f has_session a =
     (case a of
        LOCAL_CONTINUATION \<Rightarrow> has_session \<and> rf_continuations f < rf_max_continuations f
      | FRONTIER_CONTINUATION \<Rightarrow> rf_frontier f \<and> rf_continuations f < rf_max_continuations f
      | AUTHORIZE_FRONTIER_STAGE \<Rightarrow> rf_frontier f \<and> \<not> rf_stage_exists f
      | AUTHORIZE_FRONTIER_RUN \<Rightarrow> rf_frontier f
      | MANUAL_FRONTIER_HANDOFF \<Rightarrow> rf_manual_rounds f < rf_max_manual_rounds f
      | _ \<Rightarrow> True)"

lemma base_distinct: "distinct (base_eligible_actions k)"
  by (cases k) (simp_all add: base_eligible_actions_def)

lemma eligible_allowed:
  "a \<in> set (eligible_actions_for k f) \<Longrightarrow> a \<in> set (base_eligible_actions k) \<and> action_allowed f True a"
  using base_distinct [of k]
  by (cases a) (auto simp: eligible_actions_for_def without_def action_allowed_def Let_def split: if_splits)

lemma eligible_distinct: "distinct (eligible_actions_for k f)"
  using base_distinct [of k] by (auto simp: eligible_actions_for_def without_def Let_def)

lemma eligible_complete:
  "a \<in> set (base_eligible_actions k) \<Longrightarrow> action_allowed f True a \<Longrightarrow> a \<in> set (eligible_actions_for k f)"
  by (cases a) (auto simp: eligible_actions_for_def without_def action_allowed_def Let_def in_set_remove1)

lemma eligible_set: "set (eligible_actions_for k f) = {a \<in> set (base_eligible_actions k). action_allowed f True a}"
  using eligible_allowed eligible_complete by blast

lemma classify_newest:
  assumes log: "row_logged es row" and st: "tr_state row = HUMAN_REVIEW_REQUIRED"
  shows "classify_stop_reason es
    = (case map_of event_type_stop_reason (er_type (last es)) of None \<Rightarrow> UNKNOWN_STOP | Some k \<Rightarrow> k, Some (last es))"
proof -
  from log st obtain before e where "es = before @ [e]" "er_to e = HUMAN_REVIEW_REQUIRED"
    by (cases es rule: rev_cases) (auto simp: row_logged_def)
  then show ?thesis by (simp add: classify_stop_reason_def)
qed

text \<open>The same tables from the reader's side: the stop an event type means, and when an action is usable.\<close>

definition stop_meant :: "string \<Rightarrow> stop_reason_kind" where
  "stop_meant ty =
     (if ty = ''specification_not_approved'' then SPECIFICATION_NOT_APPROVED
      else if ty \<in> {''deterministic_route_requires_human'', ''review_local_stage_start_failed'',
                     ''review_frontier_run_start_failed''} then ROUTING_REQUIRES_HUMAN
      else if ty \<in> {''acceptance_coverage_incomplete'', ''review_verification_retry_incomplete''}
        then ACCEPTANCE_COVERAGE_INCOMPLETE
      else if ty \<in> {''review_verification_retry_failed'', ''manual_frontier_apply_verification_failed''}
        then VERIFICATION_FAILED
      else if ty \<in> {''frontier_escalation_not_configured'', ''review_local_continuation_requires_human''}
        then LOCAL_AGENT_ESCALATION_UNAVAILABLE
      else if ty \<in> {''bounded_frontier_requires_human'', ''review_frontier_continuation_requires_human'',
                     ''review_frontier_stage_requires_human''} then FRONTIER_AGENT_EXHAUSTED
      else UNKNOWN_STOP)"

definition events_of_type :: "string set \<Rightarrow> event_row list \<Rightarrow> nat" where
  "events_of_type tys es = length (filter (\<lambda>e. er_type e \<in> tys) es)"

definition continuations_left :: "review_view \<Rightarrow> event_row list \<Rightarrow> bool" where
  "continuations_left V es =
     (events_of_type {''review_local_continuation_started'', ''review_frontier_continuation_started''} es
        < rw_max_continuations V)"

definition manual_rounds_left :: "review_view \<Rightarrow> event_row list \<Rightarrow> bool" where
  "manual_rounds_left V es = (events_of_type {''manual_frontier_apply_verification_failed''} es < rw_max_rounds V)"

definition usable_action ::
  "stop_reason_kind \<Rightarrow> review_view \<Rightarrow> event_row list \<Rightarrow> session_result option \<Rightarrow> session_result option \<Rightarrow> review_action \<Rightarrow> bool" where
  "usable_action k V es local frontier a =
     (case a of
        INSPECT_ONLY \<Rightarrow> True
      | ABANDON \<Rightarrow> True
      | VERIFICATION_ONLY_RETRY \<Rightarrow>
          k = ACCEPTANCE_COVERAGE_INCOMPLETE \<or> k = VERIFICATION_FAILED \<or> k = LOCAL_AGENT_ESCALATION_UNAVAILABLE
          \<or> k = FRONTIER_AGENT_EXHAUSTED
      | LOCAL_CONTINUATION \<Rightarrow>
          (k = ACCEPTANCE_COVERAGE_INCOMPLETE \<or> k = VERIFICATION_FAILED \<or> k = LOCAL_AGENT_ESCALATION_UNAVAILABLE)
          \<and> local \<noteq> None \<and> continuations_left V es
      | FRONTIER_CONTINUATION \<Rightarrow>
          k = FRONTIER_AGENT_EXHAUSTED \<and> rw_frontier_model V \<noteq> None \<and> continuations_left V es
      | AUTHORIZE_LOCAL_STAGE \<Rightarrow>
          k = ROUTING_REQUIRES_HUMAN
          \<or> (k = LOCAL_AGENT_ESCALATION_UNAVAILABLE \<and> local = None \<and> rw_worktree V \<and> rw_diff V = Some [])
      | AUTHORIZE_FRONTIER_STAGE \<Rightarrow>
          k = LOCAL_AGENT_ESCALATION_UNAVAILABLE \<and> rw_frontier_model V \<noteq> None \<and> frontier = None
      | AUTHORIZE_FRONTIER_RUN \<Rightarrow> k = ROUTING_REQUIRES_HUMAN \<and> rw_frontier_model V \<noteq> None
      | MANUAL_FRONTIER_HANDOFF \<Rightarrow>
          (k = VERIFICATION_FAILED \<or> k = LOCAL_AGENT_ESCALATION_UNAVAILABLE \<or> k = FRONTIER_AGENT_EXHAUSTED)
          \<and> manual_rounds_left V es)"

lemma stop_meant_iff:
  "(case map_of event_type_stop_reason ty of None \<Rightarrow> UNKNOWN_STOP | Some k \<Rightarrow> k) = stop_meant ty"
  by (simp add: event_type_stop_reason_def stop_meant_def)

lemma offered_iff:
  assumes facts: "f = \<lparr>rf_frontier = (rw_frontier_model V \<noteq> None),
      rf_continuations = count_events continuation_started_types es, rf_max_continuations = rw_max_continuations V,
      rf_stage_exists = (frontier \<noteq> None), rf_manual_rounds = count_events [manual_frontier_round_consumed_event] es,
      rf_max_manual_rounds = rw_max_rounds V\<rparr>"
  shows "a \<in> set (offer_fresh_stage k (local \<noteq> None) V (eligible_actions_for k f)) \<longleftrightarrow> usable_action k V es local frontier a"
proof -
  have counts: "rf_continuations f < rf_max_continuations f \<longleftrightarrow> continuations_left V es"
    "rf_manual_rounds f < rf_max_manual_rounds f \<longleftrightarrow> manual_rounds_left V es"
    by (simp_all add: facts continuations_left_def manual_rounds_left_def events_of_type_def count_events_def
        continuation_started_types_def manual_frontier_round_consumed_event_def)
  have flags: "rf_frontier f \<longleftrightarrow> rw_frontier_model V \<noteq> None" "rf_stage_exists f \<longleftrightarrow> frontier \<noteq> None"
    by (simp_all add: facts)
  have "a \<in> set (offer_fresh_stage k (local \<noteq> None) V (eligible_actions_for k f)) \<longleftrightarrow>
      (a \<in> set (base_eligible_actions k) \<and> action_allowed f True a \<and> (local = None \<longrightarrow> a \<noteq> LOCAL_CONTINUATION))
      \<or> (a = AUTHORIZE_LOCAL_STAGE \<and> k = LOCAL_AGENT_ESCALATION_UNAVAILABLE \<and> local = None \<and> rw_worktree V \<and> rw_diff V = Some [])"
    unfolding offer_fresh_stage_def Let_def by (auto simp: eligible_set)
  also have "\<dots> \<longleftrightarrow> usable_action k V es local frontier a"
    unfolding action_allowed_def counts flags usable_action_def
    by (cases a; cases k) (simp_all add: base_eligible_actions_def, auto)
  finally show ?thesis .
qed

text \<open>
  C30: the actions offered for a stop are exactly the usable ones. In the review case of a stored task, the kind
  is the one its newest event means, unknown types included, and each of these actions is offered once, and no
  other: inspecting and abandoning always; a retry of the verification after every stop that had one; a
  continuation while some are left, of the local session if there is one, of the frontier session if a frontier model is
  configured; a frontier stage or run with a configured model, the stage only once; a manual round while some are left;
  and a local stage after a routing stop, or when escalation was unavailable, nothing was run and the worktree is clean.
\<close>

theorem offered_actions_are_the_usable_ones:
  assumes wf: "wf_db db" and row: "get_task db tid = Inr row" and es: "events db tid = Inr es"
    and case_built: "build_review_case J F V row es = Inr c"
  shows "rc_kind c = stop_meant (er_type (last es)) \<and> rc_stop c = Some (last es) \<and> distinct (rc_actions c)
    \<and> (\<exists>local is_power frontier. read_local_stage_session F = Inr (local, is_power)
        \<and> read_session (tf_session F ''frontier-agent-session.json'') = Inr frontier
        \<and> set (rc_actions c) = {a. usable_action (rc_kind c) V es local frontier a})"
proof -
  from case_built have st: "tr_state row = HUMAN_REVIEW_REQUIRED" by (auto simp: build_review_case_def split: if_splits)
  note newest = classify_newest [OF events_logged [OF wf row es] st, unfolded stop_meant_iff]
  from case_built st obtain local is_power frontier where l: "read_local_stage_session F = Inr (local, is_power)"
    and fr: "read_session (tf_session F ''frontier-agent-session.json'') = Inr frontier"
    and c: "rc_kind c = stop_meant (er_type (last es))" "rc_stop c = Some (last es)"
      "rc_actions c = offer_fresh_stage (rc_kind c) (local \<noteq> None) V (eligible_actions_for (rc_kind c)
        \<lparr>rf_frontier = (rw_frontier_model V \<noteq> None), rf_continuations = count_events continuation_started_types es,
         rf_max_continuations = rw_max_continuations V, rf_stage_exists = (frontier \<noteq> None),
         rf_manual_rounds = count_events [manual_frontier_round_consumed_event] es, rf_max_manual_rounds = rw_max_rounds V\<rparr>)"
    by (auto simp: build_review_case_def and_then_Inr Let_def newest split: if_splits)
  have "set (rc_actions c) = {a. usable_action (rc_kind c) V es local frontier a}"
    using offered_iff [OF refl] unfolding c(3) by blast
  moreover have "distinct (rc_actions c)"
    unfolding c(3) offer_fresh_stage_def Let_def by (auto simp: eligible_distinct)
  ultimately show ?thesis using l fr c(1,2) by blast
qed

definition stopped_db :: "task_specification task_db" where
  "stopped_db = foldl store_exec empty_db
     [Create ''a'' ''T'' (sample_specification []) USER 0,
      Transition ''b'' ''T'' HUMAN_REVIEW_REQUIRED SYSTEM ''frontier_escalation_not_configured'' None None 1]"

definition stopped_view :: review_view where
  "stopped_view = \<lparr>rw_frontier_model = None, rw_max_continuations = 2, rw_max_rounds = 1, rw_worktree = True, rw_diff = Some []\<rparr>"

lemma stopped_case:
  "\<exists>row es c. get_task stopped_db ''T'' = Inr row \<and> events stopped_db ''T'' = Inr es
     \<and> build_review_case plain_reader (retried_files Absent) stopped_view row es = Inr c
     \<and> rc_actions c = [INSPECT_ONLY, ABANDON, VERIFICATION_ONLY_RETRY, MANUAL_FRONTIER_HANDOFF, AUTHORIZE_LOCAL_STAGE]"
  by (simp add: stopped_db_def events_def task_events_def get_task_def store_eval build_review_case_def retried_files_def
      read_local_stage_session_def read_session_def and_then_def classify_stop_reason_def event_type_stop_reason_def Let_def
      offer_fresh_stage_def eligible_actions_for_def base_eligible_actions_def without_def stopped_view_def count_events_def
      continuation_started_types_def manual_frontier_round_consumed_event_def)

theorem offered_actions_are_the_usable_ones_witness:
  "\<exists>row es c. get_task stopped_db ''T'' = Inr row \<and> events stopped_db ''T'' = Inr es
     \<and> build_review_case plain_reader (retried_files Absent) stopped_view row es = Inr c
     \<and> distinct (rc_actions c) \<and> rc_stop c = Some (last es)
     \<and> usable_action (rc_kind c) stopped_view es None None AUTHORIZE_LOCAL_STAGE"
proof -
  obtain row es c where r: "get_task stopped_db ''T'' = Inr row" "events stopped_db ''T'' = Inr es"
    "build_review_case plain_reader (retried_files Absent) stopped_view row es = Inr c"
    and a: "AUTHORIZE_LOCAL_STAGE \<in> set (rc_actions c)"
    using stopped_case by auto
  have none: "read_local_stage_session (retried_files Absent) = Inr (None, True)"
    "read_session (tf_session (retried_files Absent) ''frontier-agent-session.json'') = Inr None"
    by (simp_all add: retried_files_def read_local_stage_session_def read_session_def and_then_def)
  have "wf_db stopped_db" by (simp add: stopped_db_def store_exec_wf wf_empty_db del: store_exec.simps)
  from offered_actions_are_the_usable_ones [OF this r] r a show ?thesis unfolding none by auto
qed

end
