(* ===== verification/Final_Verification.thy ===== *)
theory Final_Verification
  imports Plan_Validation Current_Evidence
begin

section \<open>Whole-project verification of a finished plan (architect/final_verification.py)\<close>

text \<open>
  The commands the approved plan names for the integrated project, run at the integrated commit, and the record that binds
  the result to the commit and the fingerprint it was measured at. Reason texts are left out; the stored record of a plan, the
  worktree fingerprint and the backend of a worktree are parameters.
\<close>

datatype final_status = FINAL_PASSED | FINAL_FAILED | NOT_CONFIGURED | COMMANDS_UNAVAILABLE

record plan_coverage =
  wc_criterion :: string
  wc_status :: coverage_status
  wc_source :: "coverage_source option"
  wc_commands :: "string list"

record final_verification =
  fv_plan :: string
  fv_version :: int
  fv_status :: final_status
  fv_commit :: string
  fv_branch :: string
  fv_path :: path
  fv_fingerprint :: digest
  fv_task :: string
  fv_requested :: "string list"
  fv_executed :: "string list"
  fv_missing :: "string list"
  fv_result :: "verification_result option"
  fv_coverage :: "plan_coverage list"

definition is_sufficient_for_delivery :: "final_verification \<Rightarrow> bool" where
  "is_sufficient_for_delivery f =
     (fv_status f = FINAL_PASSED \<and> (case fv_result f of None \<Rightarrow> False | Some r \<Rightarrow> vr_status r = PASSED))"

definition unproven_criterion_ids :: "final_verification \<Rightarrow> string list" where
  "unproven_criterion_ids f = sort (map wc_criterion (filter (\<lambda>c. wc_status c \<noteq> PROVEN) (fv_coverage f)))"

definition fv_matches :: "final_verification \<Rightarrow> string \<Rightarrow> digest \<Rightarrow> bool" where
  "fv_matches f commit fp = (fv_commit f = commit \<and> fv_fingerprint f = fp)"

definition final_command_results :: "final_verification \<Rightarrow> (string \<times> verification_status \<times> int option) list" where
  "final_command_results f =
     (case fv_result f of None \<Rightarrow> [] | Some r \<Rightarrow> map (\<lambda>c. (cr_name c, cr_status c, cr_exit c)) (vr_commands r))"

text \<open>The commands a plan maps to a criterion: its proof obligation, or else its own verification method.\<close>

definition plan_criterion_commands :: "architecture_plan \<Rightarrow> string \<Rightarrow> string list" where
  "plan_criterion_commands plan i =
     (case dict_of (map (\<lambda>ob. (po_criterion ob, po_commands ob))
                      (filter (\<lambda>ob. po_commands ob \<noteq> []) (vs_obligations (ap_strategy plan)))) i of
        Some cs \<Rightarrow> cs
      | None \<Rightarrow>
          (case find (\<lambda>c. cn_id c = i \<and> cn_method c \<noteq> None \<and> cn_method c \<noteq> Some []) (ap_criteria plan) of
             None \<Rightarrow> [] | Some c \<Rightarrow> [the (cn_method c)]))"

definition executed_commands :: "verification_result option \<Rightarrow> string \<rightharpoonup> verification_status \<times> bool" where
  "executed_commands r =
     (case r of None \<Rightarrow> Map.empty
      | Some v \<Rightarrow> dict_of (map (\<lambda>c. (cr_name c, (cr_status c, cr_acceptance c))) (filter (\<lambda>c. cr_status c \<noteq> SKIPPED) (vr_commands v))))"

definition plan_coverage_of ::
  "architecture_plan \<Rightarrow> (string \<rightharpoonup> verification_status \<times> bool) \<Rightarrow> acceptance_criterion \<Rightarrow> plan_coverage" where
  "plan_coverage_of plan executed c =
     (let names = plan_criterion_commands plan (cn_id c); statuses = map executed names;
          proven = list_all (\<lambda>s. case s of None \<Rightarrow> False | Some (_, acceptance) \<Rightarrow> acceptance) statuses in
      if names = [] then \<lparr>wc_criterion = cn_id c, wc_status = UNPROVEN, wc_source = None, wc_commands = []\<rparr>
      else if list_ex (\<lambda>s. case s of None \<Rightarrow> False | Some (st, _) \<Rightarrow> st \<noteq> PASSED) statuses then
        \<lparr>wc_criterion = cn_id c, wc_status = FAILED_COVERAGE, wc_source = Some CONFIGURED_VERIFICATION_COMMAND, wc_commands = names\<rparr>
      else if None \<in> set statuses then
        \<lparr>wc_criterion = cn_id c, wc_status = UNPROVEN, wc_source = None, wc_commands = names\<rparr>
      else if \<not> proven then
        \<lparr>wc_criterion = cn_id c, wc_status = UNPROVEN, wc_source = None, wc_commands = names\<rparr>
      else \<lparr>wc_criterion = cn_id c, wc_status = PROVEN, wc_source = Some CONFIGURED_VERIFICATION_COMMAND, wc_commands = names\<rparr>)"

definition whole_plan_acceptance_coverage :: "architecture_plan \<Rightarrow> verification_result option \<Rightarrow> plan_coverage list" where
  "whole_plan_acceptance_coverage plan r =
     map (plan_coverage_of plan (executed_commands r)) (filter (\<lambda>c. cn_status c = ACTIVE) (ap_criteria plan))"

record 'w final_env =
  fe_fingerprint :: "'w \<Rightarrow> path \<Rightarrow> string + digest"
  fe_load :: "'w \<Rightarrow> string \<Rightarrow> final_verification artifact"
  fe_save :: "final_verification \<Rightarrow> 'w \<Rightarrow> (string + unit) \<times> 'w"
  fe_backend :: "path \<Rightarrow> 'w backend"
  fe_manifests :: "path \<Rightarrow> 'w \<Rightarrow> string + manifest_view"
  fe_os :: environment
  fe_config :: verification_config

record final_target =
  ft_plan :: string
  ft_version :: int
  ft_commit :: string
  ft_branch :: string
  ft_path :: path
  ft_task :: string

text \<open>A malformed record reads as absent.\<close>

definition load_final_project_verification :: "'w final_env \<Rightarrow> 'w \<Rightarrow> string \<Rightarrow> final_verification option" where
  "load_final_project_verification E w p = (case fe_load E w p of Readable f \<Rightarrow> Some f | _ \<Rightarrow> None)"

definition selected_commands :: "verification_config \<Rightarrow> string list \<Rightarrow> verification_command list" where
  "selected_commands cfg requested =
     (let by_name = dict_of (map (\<lambda>c. (vc_name c, c)) (vg_commands cfg))
      in map (\<lambda>n. (the (by_name n))\<lparr>vc_required := True\<rparr>) (filter (\<lambda>n. by_name n \<noteq> None) requested))"

definition missing_commands :: "verification_config \<Rightarrow> string list \<Rightarrow> string list" where
  "missing_commands cfg requested = filter (\<lambda>n. n \<notin> vc_name ` set (vg_commands cfg)) requested"

definition final_record ::
  "'w final_env \<Rightarrow> architecture_plan \<Rightarrow> final_target \<Rightarrow> digest \<Rightarrow> final_status \<Rightarrow> verification_result option
    \<Rightarrow> (string, 'w, final_verification) action" where
  "final_record E plan T fp st r =
     (let requested = vs_whole_project (ap_strategy plan);
          f = \<lparr>fv_plan = ft_plan T, fv_version = ft_version T, fv_status = st, fv_commit = ft_commit T, fv_branch = ft_branch T,
               fv_path = ft_path T, fv_fingerprint = fp, fv_task = ft_task T, fv_requested = requested,
               fv_executed = map vc_name (selected_commands (fe_config E) requested),
               fv_missing = missing_commands (fe_config E) requested, fv_result = r,
               fv_coverage = whole_plan_acceptance_coverage plan r\<rparr>
      in bnd (fe_save E f) (\<lambda>_. pure f))"

definition run_final_project_verification ::
  "'w final_env \<Rightarrow> architecture_plan \<Rightarrow> final_target \<Rightarrow> (string, 'w, final_verification) action" where
  "run_final_project_verification E plan T =
     (let requested = vs_whole_project (ap_strategy plan); cfg = fe_config E in
      bnd (asking (\<lambda>w. fe_fingerprint E w (ft_path T))) (\<lambda>fp.
      if requested = [] then final_record E plan T fp NOT_CONFIGURED None
      else if missing_commands cfg requested \<noteq> [] then final_record E plan T fp COMMANDS_UNAVAILABLE None
      else
        bnd (run_verification (fe_backend E (ft_path T)) (cfg\<lparr>vg_commands := selected_commands cfg requested\<rparr>) (fe_os E)
               (fe_manifests E (ft_path T)) (ft_task T)) (\<lambda>r.
        final_record E plan T fp (if vr_status r = PASSED then FINAL_PASSED else FINAL_FAILED) (Some r))))"

text \<open>A passing record of this very commit and fingerprint is reused.\<close>

definition ensure_final_project_verification ::
  "'w final_env \<Rightarrow> architecture_plan \<Rightarrow> final_target \<Rightarrow> (string, 'w, final_verification) action" where
  "ensure_final_project_verification E plan T =
     bnd (reading (\<lambda>w. load_final_project_verification E w (ft_plan T))) (\<lambda>existing.
     case existing of
       None \<Rightarrow> run_final_project_verification E plan T
     | Some f \<Rightarrow>
         if is_sufficient_for_delivery f then
           bnd (asking (\<lambda>w. fe_fingerprint E w (ft_path T))) (\<lambda>fp.
           if fv_matches f (ft_commit T) fp then pure f else run_final_project_verification E plan T)
         else run_final_project_verification E plan T)"

subsection \<open>What a fresh run shows\<close>

lemma dict_of_names: "dict_of (map (\<lambda>c. (k c, c)) cs) n = None \<longleftrightarrow> n \<notin> k ` set cs"
  by (simp add: dict_of_def map_of_eq_None_iff o_def rev_map [symmetric] image_image)

lemma selected_names:
  "missing_commands cfg requested = [] \<Longrightarrow> map vc_name (selected_commands cfg requested) = requested"
proof -
  assume "missing_commands cfg requested = []"
  then have all: "n \<in> vc_name ` set (vg_commands cfg)" if "n \<in> set requested" for n
    using that by (auto simp: missing_commands_def filter_empty_conv)
  have name: "vc_name c = n" if "dict_of (map (\<lambda>c. (vc_name c, c)) (vg_commands cfg)) n = Some c" for n c
    using that unfolding dict_of_def by (auto dest: map_of_SomeD)
  have "map vc_name (selected_commands cfg requested)
      = filter (\<lambda>n. dict_of (map (\<lambda>c. (vc_name c, c)) (vg_commands cfg)) n \<noteq> None) requested"
    unfolding selected_commands_def Let_def
    by (induction requested) (auto dest: name)
  also have "\<dots> = requested" using all by (simp add: dict_of_names filter_id_conv)
  finally show ?thesis .
qed

lemma selected_required: "c \<in> set (selected_commands cfg requested) \<Longrightarrow> vc_required c"
  by (auto simp: selected_commands_def Let_def)

lemma final_record_Inr:
  "final_record E plan T fp st r w = (Inr f, w') \<Longrightarrow>
     fv_status f = st \<and> fv_result f = r \<and> fv_commit f = ft_commit T \<and> fv_fingerprint f = fp
     \<and> fv_requested f = vs_whole_project (ap_strategy plan) \<and> fv_version f = ft_version T \<and> fv_task f = ft_task T"
  by (auto simp: final_record_def bnd_def Let_def split: prod.splits sum.splits)

lemma executed_in:
  "executed_commands (Some v) n = Some (st, acc) \<Longrightarrow> \<exists>x \<in> set (vr_commands v). cr_name x = n \<and> cr_status x = st \<and> cr_acceptance x = acc"
  by (auto simp: executed_commands_def dict_of_def dest!: map_of_SomeD)

lemma proven_criterion:
  assumes "wc_status (plan_coverage_of plan executed c) = PROVEN" and "n \<in> set (wc_commands (plan_coverage_of plan executed c))"
  shows "executed n = Some (PASSED, True)"
proof -
  let ?names = "plan_criterion_commands plan (cn_id c)"
  from assms(1) have ok: "\<not> list_ex (\<lambda>s. case s of None \<Rightarrow> False | Some (st, _) \<Rightarrow> st \<noteq> PASSED) (map executed ?names)"
    "list_all (\<lambda>s. case s of None \<Rightarrow> False | Some (_, acceptance) \<Rightarrow> acceptance) (map executed ?names)"
    by (auto simp: plan_coverage_of_def Let_def split: if_splits)
  moreover have "n \<in> set ?names" using assms by (auto simp: plan_coverage_of_def Let_def split: if_splits)
  ultimately show ?thesis
    by (cases "executed n") (fastforce simp: list_ex_iff list_all_iff split: option.splits)+
qed

lemma fresh_run_cases:
  assumes run: "run_final_project_verification E plan T w = (Inr f, w')" and ok: "is_sufficient_for_delivery f"
  obtains w1 r w2 fp where "vs_whole_project (ap_strategy plan) \<noteq> []"
    "missing_commands (fe_config E) (vs_whole_project (ap_strategy plan)) = []" "fe_fingerprint E w (ft_path T) = Inr fp"
    "run_verification (fe_backend E (ft_path T)) ((fe_config E)\<lparr>vg_commands := selected_commands (fe_config E) (vs_whole_project (ap_strategy plan))\<rparr>)
       (fe_os E) (fe_manifests E (ft_path T)) (ft_task T) w = (Inr r, w2)"
    "final_record E plan T fp FINAL_PASSED (Some r) w2 = (Inr f, w')" "vr_status r = PASSED"
proof -
  from run obtain fp where fp: "fe_fingerprint E w (ft_path T) = Inr fp"
    by (auto simp: run_final_project_verification_def bnd_def Let_def split: sum.splits)
  have st: "fv_status f = FINAL_PASSED" using ok by (simp add: is_sufficient_for_delivery_def)
  have other: "final_record E plan T fp st' r' w'' \<noteq> (Inr f, w')" if "st' \<noteq> FINAL_PASSED" for st' r' w''
    using that st by (auto dest: final_record_Inr)
  have some: "vs_whole_project (ap_strategy plan) \<noteq> []"
    using run fp other by (auto simp: run_final_project_verification_def bnd_def Let_def)
  have none_missing: "missing_commands (fe_config E) (vs_whole_project (ap_strategy plan)) = []"
    using run fp some other by (auto simp: run_final_project_verification_def bnd_def Let_def split: if_splits)
  from run fp some none_missing obtain r w2 where
    v: "run_verification (fe_backend E (ft_path T)) ((fe_config E)\<lparr>vg_commands := selected_commands (fe_config E) (vs_whole_project (ap_strategy plan))\<rparr>)
       (fe_os E) (fe_manifests E (ft_path T)) (ft_task T) w = (Inr r, w2)"
    and rec: "final_record E plan T fp (if vr_status r = PASSED then FINAL_PASSED else FINAL_FAILED) (Some r) w2 = (Inr f, w')"
    by (auto simp: run_final_project_verification_def bnd_def Let_def split: prod.splits sum.splits)
  have "vr_status r = PASSED" using final_record_Inr [OF rec] st by (auto split: if_splits)
  with that some none_missing fp v rec show thesis by simp
qed

lemma fresh_pass_commands:
  assumes run: "run_final_project_verification E plan T w = (Inr f, w')" and ok: "is_sufficient_for_delivery f"
  obtains r fp w2 where "vs_whole_project (ap_strategy plan) \<noteq> []" "fe_fingerprint E w (ft_path T) = Inr fp"
    "final_record E plan T fp FINAL_PASSED (Some r) w2 = (Inr f, w')" "vr_status r = PASSED" "vr_violations r = []"
    "\<forall>n \<in> set (vs_whole_project (ap_strategy plan)). \<exists>c \<in> set (vr_commands r). cr_name c = n \<and> cr_status c = PASSED"
proof -
  let ?names = "vs_whole_project (ap_strategy plan)"
  let ?sel = "selected_commands (fe_config E) ?names"
  from run ok obtain r w2 fp where some: "?names \<noteq> []" and none: "missing_commands (fe_config E) ?names = []"
    and fp: "fe_fingerprint E w (ft_path T) = Inr fp"
    and v: "run_verification (fe_backend E (ft_path T)) ((fe_config E)\<lparr>vg_commands := ?sel\<rparr>) (fe_os E)
        (fe_manifests E (ft_path T)) (ft_task T) w = (Inr r, w2)"
    and rec: "final_record E plan T fp FINAL_PASSED (Some r) w2 = (Inr f, w')" and passed: "vr_status r = PASSED"
    by (rule fresh_run_cases)
  from v obtain w0 w1 rs violations where
    body: "run_body (fe_backend E (ft_path T)) ((fe_config E)\<lparr>vg_commands := ?sel\<rparr>) (fe_os E) (fe_manifests E (ft_path T) w0) w0 = (Inr rs, w1)"
    and r: "vr_commands r = rs" "vr_violations r = violations"
    and st: "vr_status r = (if required_failures rs \<noteq> [] \<or> violations \<noteq> [] then FAILED_CHECK else PASSED)"
    by (rule run_verification_result) blast
  from st passed have clean: "required_failures rs = []" "violations = []" by (auto split: if_splits)
  from run_body_result [OF body] obtain first rest where rs: "rs = first @ rest" and tags: "map result_tag rest = map command_tag ?sel"
    by auto
  have "\<exists>c \<in> set rs. cr_name c = n \<and> cr_status c = PASSED" if n: "n \<in> set ?names" for n
  proof -
    from n selected_names [OF none] obtain s where s: "s \<in> set ?sel" "vc_name s = n" by (metis image_iff set_map)
    then have "command_tag s \<in> set (map result_tag rest)" unfolding tags by simp
    then obtain c where c: "c \<in> set rest" "result_tag c = command_tag s" by auto
    with s selected_required [OF s(1)] have "cr_name c = n" "cr_required c" by (simp_all add: result_tag_def command_tag_def)
    moreover from this(2) c clean(1) have "cr_status c = PASSED" by (auto simp: rs required_failures_def filter_empty_conv)
    ultimately show ?thesis using c rs by auto
  qed
  with that [OF some fp rec passed] clean r show thesis by simp
qed

text \<open>
  C29: a fresh pass means that every command the plan names ran on the integrated project and passed, required or not in the
  configuration, and changed nothing; and a criterion it calls proven is proven by acceptance commands that passed in it.
\<close>

theorem fresh_pass_ran_every_named_command:
  assumes run: "run_final_project_verification E plan T w = (Inr f, w')" and ok: "is_sufficient_for_delivery f"
  shows "vs_whole_project (ap_strategy plan) \<noteq> [] \<and> fv_commit f = ft_commit T \<and> fe_fingerprint E w (ft_path T) = Inr (fv_fingerprint f)
    \<and> (\<exists>r. fv_result f = Some r \<and> vr_violations r = []
        \<and> (\<forall>n \<in> set (vs_whole_project (ap_strategy plan)). \<exists>c \<in> set (vr_commands r). cr_name c = n \<and> cr_status c = PASSED)
        \<and> (\<forall>c \<in> set (fv_coverage f). wc_status c = PROVEN \<longrightarrow>
             (\<forall>n \<in> set (wc_commands c). \<exists>x \<in> set (vr_commands r). cr_name x = n \<and> cr_status x = PASSED \<and> cr_acceptance x)))"
proof -
  from run ok obtain r fp w2 where some: "vs_whole_project (ap_strategy plan) \<noteq> []" "fe_fingerprint E w (ft_path T) = Inr fp"
    and rec: "final_record E plan T fp FINAL_PASSED (Some r) w2 = (Inr f, w')"
    and named: "vr_violations r = []"
      "\<forall>n \<in> set (vs_whole_project (ap_strategy plan)). \<exists>c \<in> set (vr_commands r). cr_name c = n \<and> cr_status c = PASSED"
    by (rule fresh_pass_commands)
  have "\<exists>x \<in> set (vr_commands r). cr_name x = n \<and> cr_status x = PASSED \<and> cr_acceptance x"
    if c: "c \<in> set (fv_coverage f)" "wc_status c = PROVEN" "n \<in> set (wc_commands c)" for c n
  proof -
    have "fv_coverage f = whole_plan_acceptance_coverage plan (Some r)"
      using rec by (auto simp: final_record_def bnd_def Let_def split: prod.splits sum.splits)
    with c obtain a where "c = plan_coverage_of plan (executed_commands (Some r)) a" by (auto simp: whole_plan_acceptance_coverage_def)
    with c proven_criterion have "executed_commands (Some r) n = Some (PASSED, True)" by blast
    from executed_in [OF this] show ?thesis by auto
  qed
  then show ?thesis using some final_record_Inr [OF rec] named by auto
qed

text \<open>
  A stored pass of the same commit and fingerprint is returned whatever plan version it was measured for and whatever
  commands the plan names now.
\<close>

lemma stored_pass_is_reused:
  assumes "fe_load E w (ft_plan T) = Readable f" "is_sufficient_for_delivery f" "fe_fingerprint E w (ft_path T) = Inr (fv_fingerprint f)"
    "fv_commit f = ft_commit T"
  shows "ensure_final_project_verification E plan T w = (Inr f, w)"
  using assms by (simp add: ensure_final_project_verification_def load_final_project_verification_def bnd_def fv_matches_def)

lemma ensured_is_sufficient_at_the_tip:
  assumes ensured: "ensure_final_project_verification E plan T w = (Inr f, w')" and ok: "is_sufficient_for_delivery f"
  shows "fv_commit f = ft_commit T \<and> fe_fingerprint E w (ft_path T) = Inr (fv_fingerprint f)
    \<and> (\<exists>r. fv_result f = Some r \<and> vr_status r = PASSED)
    \<and> (load_final_project_verification E w (ft_plan T) = Some f \<or> run_final_project_verification E plan T w = (Inr f, w'))"
proof -
  have fresh: "fv_commit f = ft_commit T \<and> fe_fingerprint E w (ft_path T) = Inr (fv_fingerprint f)"
    if run: "run_final_project_verification E plan T w = (Inr f, w')"
    by (rule fresh_run_cases [OF run ok]) (auto dest: final_record_Inr)
  have "\<exists>r. fv_result f = Some r \<and> vr_status r = PASSED"
    using ok by (auto simp: is_sufficient_for_delivery_def split: option.splits)
  moreover have "run_final_project_verification E plan T w = (Inr f, w')
      \<or> (load_final_project_verification E w (ft_plan T) = Some f \<and> fv_commit f = ft_commit T
          \<and> fe_fingerprint E w (ft_path T) = Inr (fv_fingerprint f))"
    using ensured
    by (auto simp: ensure_final_project_verification_def bnd_def fv_matches_def split: option.splits if_splits sum.splits)
  ultimately show ?thesis using fresh by auto
qed

subsection \<open>Witness\<close>

definition passing_backend :: "unit backend" where
  "passing_backend = \<lparr>bk_host = True, bk_prepare = (\<lambda>w. Inr w),
     bk_run = (\<lambda>_ _ w. (Inr \<lparr>co_status = PASSED, co_exit = Some 0, co_stdout = [], co_stderr = []\<rparr>, w)),
     bk_finalize = (\<lambda>w. (Inr [], w))\<rparr>"

definition final_sample_env :: "unit final_env" where
  "final_sample_env = \<lparr>fe_fingerprint = (\<lambda>_ _. Inr ''f''), fe_load = (\<lambda>_ _. Absent), fe_save = (\<lambda>_ w. (Inr (), w)),
     fe_backend = (\<lambda>_. passing_backend), fe_manifests = (\<lambda>_ _. Inr sample_manifest), fe_os = Map.empty,
     fe_config = sample_verification_config\<lparr>vg_commands := [sample_command\<lparr>vc_name := ''unit''\<rparr>], vg_auto_install := False\<rparr>\<rparr>"

definition final_sample_plan :: architecture_plan where
  "final_sample_plan = \<lparr>ap_summary = ''s'', ap_decisions = [], ap_constraints = [], ap_criteria = [], ap_slices = [], ap_components = [],
     ap_contracts = [], ap_problems = [],
     ap_delivery = \<lparr>dc_documentation = ''README.md'', dc_artifacts = [], dc_launch_command = ''unit'', dc_launch_excuse = []\<rparr>,
     ap_strategy = \<lparr>vs_whole_project = [''unit''], vs_obligations = [], vs_scenarios = []\<rparr>\<rparr>"

definition final_sample_target :: final_target where
  "final_sample_target = \<lparr>ft_plan = ''PLAN-1'', ft_version = 3, ft_commit = ''c'', ft_branch = ''b'', ft_path = ''/w'', ft_task = ''TASK-1''\<rparr>"

lemma final_sample_run:
  "\<exists>f. run_final_project_verification final_sample_env final_sample_plan final_sample_target () = (Inr f, ()) \<and> is_sufficient_for_delivery f"
  by (simp add: run_final_project_verification_def final_sample_env_def final_sample_plan_def final_sample_target_def bnd_def
      missing_commands_def selected_commands_def dict_of_def run_verification_def passing_backend_def run_body_def
      dependency_install_def run_install_def Let_def final_record_def is_sufficient_for_delivery_def required_failures_def
      sample_verification_config_def command_result_of_def sample_command_def truncate_output_def)

theorem fresh_pass_ran_every_named_command_witness:
  "\<exists>f r. run_final_project_verification final_sample_env final_sample_plan final_sample_target () = (Inr f, ())
     \<and> fv_result f = Some r \<and> (\<exists>c \<in> set (vr_commands r). cr_name c = ''unit'' \<and> cr_status c = PASSED)"
proof -
  obtain f where f: "run_final_project_verification final_sample_env final_sample_plan final_sample_target () = (Inr f, ())"
    "is_sufficient_for_delivery f" using final_sample_run by blast
  from fresh_pass_ran_every_named_command [OF f] f(1) show ?thesis by (auto simp: final_sample_plan_def)
qed

end
