(* ===== verification/Plan_Delivery.thy ===== *)
theory Plan_Delivery
  imports Final_Verification Slice_Limits
begin

section \<open>Delivery of a finished plan (architect/delivery.py)\<close>

text \<open>
  The gates between a plan whose slices are complete and the archive that is shipped: the evidence of every slice, one
  integrated commit, the whole-project verification, forbidden paths and required artifacts. The rendered guides and hand-off
  texts are left out; git and the files of a plan are parameters.
\<close>

definition forbidden_delivery_path_prefixes :: "string list" where
  "forbidden_delivery_path_prefixes = [''.apoapsis/'', ''.git/'']"

definition forbidden_delivery_filenames :: "string list" where
  "forbidden_delivery_filenames =
     [''.env'', ''.env.local'', ''.env.production'', ''.netrc'', ''credentials.json'', ''id_rsa'', ''id_ed25519'']"

definition forbidden_delivery_suffixes :: "string list" where
  "forbidden_delivery_suffixes = [''.pem'', ''.key'', ''.pfx'', ''.p12'']"

definition forbidden_delivery_paths :: "path list \<Rightarrow> path list" where
  "forbidden_delivery_paths files =
     filter (\<lambda>p. let name = last (split_on (CHR ''/'') p) in
        list_ex (\<lambda>d. p = butlast d \<or> starts_with p d) forbidden_delivery_path_prefixes
        \<or> name \<in> set forbidden_delivery_filenames \<or> list_ex (ends_with name) forbidden_delivery_suffixes) files"

record delivered_operability =
  do_documentation :: path
  do_present :: bool
  do_required :: "path list"
  do_missing :: "path list"
  do_launch :: string
  do_launch_measured :: bool
  do_excuse :: string

definition assess_delivered_operability :: "architecture_plan \<Rightarrow> path list \<Rightarrow> delivered_operability" where
  "assess_delivered_operability plan files =
     (let c = ap_delivery plan;
          required = dc_artifacts c @ (if dc_documentation c \<noteq> [] then [dc_documentation c] else []);
          launch = dc_launch_command c in
      \<lparr>do_documentation = dc_documentation c,
       do_present = (dc_documentation c \<noteq> [] \<and> dc_documentation c \<in> set files),
       do_required = sort (remdups required),
       do_missing = sort (remdups (filter (\<lambda>i. i \<notin> set files) required)),
       do_launch = launch, do_launch_measured = (launch \<noteq> [] \<and> launch \<in> set (vs_whole_project (ap_strategy plan))),
       do_excuse = dc_launch_excuse c\<rparr>)"

record summary_entry =
  se_slice :: string
  se_task :: string
  se_outcome :: "task_outcome option"
  se_state :: workflow_state
  se_commands :: "(string \<times> verification_status \<times> int option) list"
  se_generation :: evidence_generation
  se_event :: "string option"
  se_sources :: "string list"
  se_integrity :: evidence_integrity
  se_supersedes :: bool
  se_original :: "task_outcome option"

definition verification_summary_entry :: "string \<Rightarrow> string \<Rightarrow> current_evidence \<Rightarrow> summary_entry" where
  "verification_summary_entry s tid ev =
     \<lparr>se_slice = s, se_task = tid, se_outcome = ce_outcome ev, se_state = ce_state ev, se_commands = evidence_command_results ev,
      se_generation = ce_generation ev, se_event = map_option er_type (ce_event ev), se_sources = ce_sources ev,
      se_integrity = ce_integrity ev, se_supersedes = ce_supersedes ev, se_original = ce_original ev\<rparr>"

record plan_delivery =
  dl_plan :: string
  dl_version :: int
  dl_commit :: string
  dl_branch :: string
  dl_path :: path
  dl_slices :: "string list"
  dl_tasks :: "string list"
  dl_files :: "path list"
  dl_summary :: "summary_entry list"
  dl_final :: final_verification
  dl_operability :: delivered_operability
  dl_archive :: digest

record 'w delivery_env =
  de_env :: "'w plan_env"
  de_final :: "'w final_env"
  de_reader :: json_reader
  de_files :: "'w \<Rightarrow> string \<Rightarrow> task_files"
  de_load :: "'w \<Rightarrow> string \<Rightarrow> string + plan_delivery option"
  de_tree :: "'w \<Rightarrow> path \<Rightarrow> string \<Rightarrow> string + path list"
  de_archive :: "path \<Rightarrow> string \<Rightarrow> 'w \<Rightarrow> (string + digest) \<times> 'w"
  de_handoff :: "plan_delivery \<Rightarrow> 'w \<Rightarrow> (string + unit) \<times> 'w"
  de_save :: "plan_delivery \<Rightarrow> 'w \<Rightarrow> (string + unit) \<times> 'w"

definition on_world :: "('w \<Rightarrow> (string + 'a) \<times> 'w) \<Rightarrow> ('w, 'a) plan_action" where
  "on_world f = on_repo (\<lambda>g. case f g of (r, g') \<Rightarrow> (on_error Escaping r, g'))"

subsection \<open>The gates\<close>

text \<open>One slice: its task must be complete, and what completed it must still be shown.\<close>

definition slice_delivery ::
  "'w delivery_env \<Rightarrow> string \<Rightarrow> 'w plan_world \<Rightarrow> string \<Rightarrow> service_error + string \<times> current_evidence" where
  "slice_delivery D p w s =
     (case slice_get p s (pw_slices w) of
        Inl _ \<Rightarrow> Inl SlicePackagingError
      | Inr row \<Rightarrow>
          (case sx_task row of
             None \<Rightarrow> Inl SlicePackagingError
           | Some tid \<Rightarrow>
               and_then (on_error FromTaskStore (get_task (pw_tasks w) tid)) (\<lambda>task.
               if tr_state task \<noteq> COMPLETE then Inl SlicePackagingError
               else
                 and_then (on_error FromTaskStore (events (pw_tasks w) tid)) (\<lambda>es.
                   let ev = project_current_task_evidence (de_reader D) (de_files D (pw_repo w) tid)
                              (task_specification.truncate (tr_spec task)) task es
                   in if \<not> is_verified_complete ev then Inl SlicePackagingError else Inr (tid, ev)))))"

fun slice_deliveries ::
  "'w delivery_env \<Rightarrow> string \<Rightarrow> 'w plan_world \<Rightarrow> string list \<Rightarrow> service_error + (string \<times> current_evidence) list" where
  "slice_deliveries D p w [] = Inr []"
| "slice_deliveries D p w (s # ss) =
     and_then (slice_delivery D p w s) (\<lambda>x. and_then (slice_deliveries D p w ss) (\<lambda>xs. Inr (x # xs)))"

text \<open>The first completed worktree whose HEAD is the integrated commit.\<close>

fun locate_final ::
  "'w plan_git \<Rightarrow> 'w \<Rightarrow> string \<Rightarrow> string list \<Rightarrow> service_error + path \<times> string" where
  "locate_final G g commit [] = Inl SlicePackagingError"
| "locate_final G g commit (tid # tids) =
     (case gv_describe G g (slug_of tid) of
        None \<Rightarrow> Inl (Escaping ''WorktreeError'')
      | Some (path, branch) \<Rightarrow>
          and_then (on_error Escaping (gv_head G g path)) (\<lambda>tip.
            if tip = commit then Inr (path, branch) else locate_final G g commit tids))"

definition delivery_of ::
  "plan_row \<Rightarrow> string \<Rightarrow> string \<Rightarrow> path \<times> string \<Rightarrow> string list \<Rightarrow> (string \<times> current_evidence) list \<Rightarrow> path list
    \<Rightarrow> final_verification \<Rightarrow> digest \<Rightarrow> plan_delivery" where
  "delivery_of r p commit tip completed slices files final sha =
     \<lparr>dl_plan = p, dl_version = (if pl_status r = APPROVED_PLAN then pl_version r + 1 else pl_version r), dl_commit = commit,
      dl_branch = snd tip, dl_path = fst tip, dl_slices = completed, dl_tasks = map fst slices, dl_files = files,
      dl_summary = map (\<lambda>(s, t, ev). verification_summary_entry s t ev) (zip (map is_id (ap_slices (pl_plan r))) slices),
      dl_final = final, dl_operability = assess_delivered_operability (pl_plan r) files, dl_archive = sha\<rparr>"

text \<open>\<open>mark_executed\<close> of the plan store, under a fresh event identifier.\<close>

definition mark_plan_executed :: "'w plan_env \<Rightarrow> plan_row \<Rightarrow> string \<Rightarrow> string \<Rightarrow> ('w, plan_row) plan_action" where
  "mark_plan_executed E r p commit w =
     (case mark_executed (pn_event_id E (pw_tick w)) p (pl_version r) commit (p @ ''-finished-project.zip'') (pn_now E (pw_tick w)) (pw_plans w) of
        (db, res) \<Rightarrow> (on_error FromPlanStore res, w\<lparr>pw_plans := db, pw_tick := Suc (pw_tick w)\<rparr>))"

text \<open>From the verified commit to the archive: what must not be shipped, and what must be there.\<close>

definition ship ::
  "'w delivery_env \<Rightarrow> plan_row \<Rightarrow> string \<Rightarrow> string \<Rightarrow> path \<times> string \<Rightarrow> string list \<Rightarrow> (string \<times> current_evidence) list
    \<Rightarrow> final_verification \<Rightarrow> ('w, plan_delivery) plan_action" where
  "ship D r p commit tip completed slices final =
     bnd (asking (\<lambda>w. on_error Escaping (de_tree D (pw_repo w) (fst tip) commit))) (\<lambda>listed.
       let files = sort (filter (\<lambda>f. f \<noteq> []) listed) in
       if forbidden_delivery_paths files \<noteq> [] then raising SlicePackagingError
       else if do_missing (assess_delivered_operability (pl_plan r) files) \<noteq> [] then raising SlicePackagingError
       else
         bnd (on_world (de_archive D (fst tip) commit)) (\<lambda>sha.
           let d = delivery_of r p commit tip completed slices files final sha in
           bnd (on_world (de_handoff D d)) (\<lambda>_.
           bnd (if pl_status r = APPROVED_PLAN
                then bnd (mark_plan_executed (de_env D) r p commit) (\<lambda>executed. pure (d\<lparr>dl_version := pl_version executed\<rparr>))
                else pure d) (\<lambda>final_delivery.
           bnd (on_world (de_save D final_delivery)) (\<lambda>_. pure final_delivery)))))"

definition deliver_finished ::
  "'w delivery_env \<Rightarrow> plan_row \<Rightarrow> string \<Rightarrow> (string \<times> current_evidence) list \<Rightarrow> ('w, plan_delivery) plan_action" where
  "deliver_finished D r p slices =
     (let plan = pl_plan r; G = pn_git (de_env D) in
      bnd (\<lambda>w. on_repo (checkpoint_completed_prior_slices G p plan (is_id (last (ap_slices plan))) True (pw_slices w) (pw_tasks w)) w)
        (\<lambda>(tip, completed).
        case tip of
          None \<Rightarrow> raising SlicePackagingError
        | Some commit \<Rightarrow>
            bnd (asking (\<lambda>w. locate_final G (pw_repo w) commit (map fst slices))) (\<lambda>place.
            bnd (on_world (ensure_final_project_verification (de_final D) plan
                   \<lparr>ft_plan = p, ft_version = pl_version r, ft_commit = commit, ft_branch = snd place, ft_path = fst place,
                    ft_task = fst (last slices)\<rparr>)) (\<lambda>final.
              if \<not> is_sufficient_for_delivery final then raising SlicePackagingError
              else ship D r p commit place completed slices final))))"

definition prepare_plan_delivery :: "'w delivery_env \<Rightarrow> string \<Rightarrow> ('w, plan_delivery) plan_action" where
  "prepare_plan_delivery D p =
     bnd (asking (\<lambda>w. on_error Escaping (de_load D (pw_repo w) p))) (\<lambda>existing.
     case existing of
       Some d \<Rightarrow> pure d
     | None \<Rightarrow>
         bnd (asking (\<lambda>w. on_error FromPlanStore (get_plan (pw_plans w) p))) (\<lambda>r.
         if pl_status r \<notin> set [APPROVED_PLAN, EXECUTED] then raising SlicePackagingError
         else if ap_slices (pl_plan r) = [] then raising SlicePackagingError
         else
           bnd (asking (\<lambda>w. slice_deliveries D p w (map is_id (ap_slices (pl_plan r))))) (\<lambda>slices.
           deliver_finished D r p slices)))"

subsection \<open>What a delivery rests on\<close>

lemma bnd_result:
  "bnd m f w = (y, w') \<longleftrightarrow> (\<exists>e. m w = (Inl e, w') \<and> y = Inl e) \<or> (\<exists>x w1. m w = (Inr x, w1) \<and> f x w1 = (y, w'))"
  by (auto simp: bnd_def split: prod.splits sum.splits)

lemma on_world_Inr:
  "on_world f w = (Inr x, w') \<longleftrightarrow> (\<exists>g. f (pw_repo w) = (Inr x, g) \<and> w' = w\<lparr>pw_repo := g\<rparr>)"
  by (auto simp: on_world_def on_repo_Inr on_error_Inr split: prod.splits)

lemma on_world_Inl: "on_world f w = (Inl e, w') \<Longrightarrow> (\<exists>t. e = Escaping t) \<and> pw_plans w' = pw_plans w"
  by (auto simp: on_world_def on_repo_def on_error_def split: prod.splits sum.splits)

text \<open>A slice whose completion is stored and shown by its newest evidence.\<close>

definition slice_shown :: "'w delivery_env \<Rightarrow> string \<Rightarrow> 'w plan_world \<Rightarrow> string \<Rightarrow> bool" where
  "slice_shown D p w s =
     (\<exists>row tid task es. slice_get p s (pw_slices w) = Inr row \<and> sx_task row = Some tid \<and> get_task (pw_tasks w) tid = Inr task
        \<and> events (pw_tasks w) tid = Inr es \<and> tr_state task = COMPLETE
        \<and> is_verified_complete (project_current_task_evidence (de_reader D) (de_files D (pw_repo w) tid)
             (task_specification.truncate (tr_spec task)) task es))"

lemma slice_delivery_shown: "slice_delivery D p w s = Inr x \<Longrightarrow> slice_shown D p w s"
  by (auto simp: slice_delivery_def slice_shown_def and_then_Inr on_error_Inr Let_def split: sum.splits option.splits if_splits)

lemma slice_deliveries_shown: "slice_deliveries D p w ss = Inr xs \<Longrightarrow> s \<in> set ss \<Longrightarrow> slice_shown D p w s"
  by (induction ss arbitrary: xs) (auto simp: and_then_Inr dest: slice_delivery_shown)

lemma locate_final_Inr:
  "locate_final G g commit tids = Inr place \<Longrightarrow> gv_head G g (fst place) = Inr commit"
  by (induction tids) (auto simp: and_then_Inr on_error_Inr split: option.splits prod.splits if_splits)

lemma operability_complete:
  assumes "do_missing (assess_delivered_operability plan files) = []"
  shows "set (dc_artifacts (ap_delivery plan)) \<subseteq> set files"
    and "dc_documentation (ap_delivery plan) \<noteq> [] \<Longrightarrow> dc_documentation (ap_delivery plan) \<in> set files"
proof -
  let ?c = "ap_delivery plan"
  let ?required = "dc_artifacts ?c @ (if dc_documentation ?c \<noteq> [] then [dc_documentation ?c] else [])"
  from assms have "set (sort (remdups (filter (\<lambda>i. i \<notin> set files) ?required))) = {}"
    by (simp add: assess_delivered_operability_def Let_def del: set_sort set_remdups)
  then have "set (filter (\<lambda>i. i \<notin> set files) ?required) = {}" by simp
  then have all: "i \<in> set files" if "i \<in> set ?required" for i using that by auto
  then show "set (dc_artifacts ?c) \<subseteq> set files" by auto
  show "dc_documentation ?c \<in> set files" if "dc_documentation ?c \<noteq> []" using all that by auto
qed

lemma mark_plan_executed_Inr:
  assumes d: "distinct (map pl_id (pd_plans (pw_plans w)))" and r: "get_plan (pw_plans w) p = Inr r"
    and ok: "mark_plan_executed E r p commit w = (Inr x, w')"
  shows "get_plan (pw_plans w') p = Inr x" "pl_status x = EXECUTED" "pl_version x = pl_version r + 1" "pl_plan x = pl_plan r"
proof -
  from ok obtain db where m: "mark_executed (pn_event_id E (pw_tick w)) p (pl_version r) commit (p @ ''-finished-project.zip'')
      (pn_now E (pw_tick w)) (pw_plans w) = (db, Inr x)" and w': "pw_plans w' = db"
    by (auto simp: mark_plan_executed_def on_error_Inr split: prod.splits)
  let ?u = "plan_update (pn_event_id E (pw_tick w)) p (Some (pl_version r))
      (\<lambda>row. if pl_status row \<noteq> APPROVED_PLAN then Some PlanActionError else None) (\<lambda>r. r\<lparr>pl_status := EXECUTED\<rparr>)
      PLAN_DELIVERY_PREPARED PLAN_USER (\<lambda>_. DeliveredAs commit (p @ ''-finished-project.zip'')) (pn_now E (pw_tick w)) (pw_plans w)"
  have u: "?u = (db, Inr x)" using m by (simp only: mark_executed_def)
  have id: "pl_id (r\<lparr>pl_status := EXECUTED\<rparr>) = pl_id r" for r by simp
  have "get_plan db p = Inr x \<and> pl_status x = EXECUTED \<and> pl_version x = pl_version r + 1 \<and> pl_plan x = pl_plan r"
  proof (rule plan_update_cases [OF d id, of "pn_event_id E (pw_tick w)" p "Some (pl_version r)"
      "\<lambda>row. if pl_status row \<noteq> APPROVED_PLAN then Some PlanActionError else None" PLAN_DELIVERY_PREPARED PLAN_USER
      "\<lambda>_. DeliveredAs commit (p @ ''-finished-project.zip'')" "pn_now E (pw_tick w)"], goal_cases failed updated)
    case (failed e)
    with u show ?thesis by simp
  next
    case (updated row db' e)
    from updated(4) u have eqs: "db' = db" "x = bumped (\<lambda>r. r\<lparr>pl_status := EXECUTED\<rparr>) (pn_now E (pw_tick w)) row" by simp_all
    from updated(1) r have row: "row = r" by (simp add: get_plan_def)
    from updated(5) [of p] show ?thesis by (simp add: get_plan_def bumped_def eqs row)
  qed
  with w' show "get_plan (pw_plans w') p = Inr x" "pl_status x = EXECUTED" "pl_version x = pl_version r + 1" "pl_plan x = pl_plan r"
    by simp_all
qed

lemma ship_Inr:
  assumes ok: "ship D r p commit place completed slices final w = (Inr d, w')"
  shows "forbidden_delivery_paths (dl_files d) = []
 \<and> do_missing (assess_delivered_operability (pl_plan r) (dl_files d)) = []
    \<and> dl_commit d = commit \<and> dl_path d = fst place \<and> dl_final d = final
    \<and> (pl_status r = APPROVED_PLAN \<longrightarrow> (\<exists>w1 w2 x. pw_plans w1 = pw_plans w \<and> pw_plans w' = pw_plans w2
         \<and> mark_plan_executed (de_env D) r p commit w1 = (Inr x, w2) \<and> dl_version d = pl_version x))
    \<and> (pl_status r \<noteq> APPROVED_PLAN \<longrightarrow> pw_plans w' = pw_plans w)"
proof (cases "pl_status r = APPROVED_PLAN")
  case True
  from ok True obtain listed sha g g1 x w2 g2 where run: "mark_plan_executed (de_env D) r p commit (w\<lparr>pw_repo := g1\<rparr>) = (Inr x, w2)"
      and d: "d = (delivery_of r p commit place completed slices (sort (filter (\<lambda>f. f \<noteq> []) listed)) final sha)\<lparr>dl_version := pl_version x\<rparr>"
      and w': "w' = w2\<lparr>pw_repo := g2\<rparr>"
      and gates: "forbidden_delivery_paths (sort (filter (\<lambda>f. f \<noteq> []) listed)) = []"
        "do_missing (assess_delivered_operability (pl_plan r) (sort (filter (\<lambda>f. f \<noteq> []) listed))) = []"
    by (clarsimp simp: ship_def bnd_Inr on_world_Inr on_error_Inr Let_def split: if_splits)
  then show ?thesis using True
    by (intro conjI impI exI [of _ "w\<lparr>pw_repo := g1\<rparr>"] exI [of _ w2] exI [of _ x]) (simp_all add: delivery_of_def)
next
  case False
  with ok show ?thesis
    by (auto simp: ship_def bnd_Inr on_world_Inr on_error_Inr delivery_of_def Let_def split: if_splits)
qed

text \<open>What is shipped is the listing of the commit, and the archive is made of that commit.\<close>

definition ships_commit :: "'w delivery_env \<Rightarrow> plan_delivery \<Rightarrow> bool" where
  "ships_commit D d =
     ((\<exists>g listed. de_tree D g (dl_path d) (dl_commit d) = Inr listed \<and> dl_files d = sort (filter (\<lambda>f. f \<noteq> []) listed))
      \<and> (\<exists>g g'. de_archive D (dl_path d) (dl_commit d) g = (Inr (dl_archive d), g')))"

lemma ship_content:
  assumes ok: "ship D r p commit place completed slices final w = (Inr d, w')"
  shows "ships_commit D d"
proof -
  from ok obtain listed sha g g' where tree: "de_tree D (pw_repo w) (fst place) commit = Inr listed"
    and archive: "de_archive D (fst place) commit g = (Inr sha, g')"
    and d: "dl_path d = fst place" "dl_commit d = commit" "dl_archive d = sha" "dl_files d = sort (filter (\<lambda>f. f \<noteq> []) listed)"
    by (auto simp: ship_def bnd_Inr on_world_Inr on_error_Inr delivery_of_def asking_def Let_def split: if_splits)
  then show ?thesis unfolding ships_commit_def d by blast
qed

text \<open>What may never be delivered, said of the path itself.\<close>

definition name_in_path :: "path \<Rightarrow> string" where
  "name_in_path p = rev (takeWhile (\<lambda>c. c \<noteq> CHR ''/'') (rev p))"

definition never_delivered :: "path \<Rightarrow> bool" where
  "never_delivered p =
     (p = ''.apoapsis'' \<or> p = ''.git'' \<or> prefix ''.apoapsis/'' p \<or> prefix ''.git/'' p
      \<or> name_in_path p \<in> {''.env'', ''.env.local'', ''.env.production'', ''.netrc'', ''credentials.json'', ''id_rsa'', ''id_ed25519''}
      \<or> suffix ''.pem'' (name_in_path p) \<or> suffix ''.key'' (name_in_path p) \<or> suffix ''.pfx'' (name_in_path p)
      \<or> suffix ''.p12'' (name_in_path p))"

lemma last_component: "last (split_on (CHR ''/'') p) = name_in_path p"
proof (cases "CHR ''/'' \<in> set p")
  case True
  then obtain u v where p: "p = u @ CHR ''/'' # v" "CHR ''/'' \<notin> set v" by (metis split_list_last)
  have "takeWhile (\<lambda>c. c \<noteq> CHR ''/'') (rev v @ CHR ''/'' # rev u) = rev v @ takeWhile (\<lambda>c. c \<noteq> CHR ''/'') (CHR ''/'' # rev u)"
    by (rule takeWhile_append2) (use p(2) in auto)
  then have "name_in_path p = v" by (simp add: name_in_path_def p(1))
  moreover have "last (split_on (CHR ''/'') p) = v"
    using p by (simp add: last_split_after split_on_plain)
  ultimately show ?thesis by simp
next
  case False
  have "takeWhile (\<lambda>c. c \<noteq> CHR ''/'') (rev p) = rev p"
    by (subst takeWhile_eq_all_conv) (use False in auto)
  then have "name_in_path p = p" by (simp only: name_in_path_def rev_rev_ident)
  with False show ?thesis by (simp add: split_on_plain)
qed

lemma forbidden_iff: "p \<in> set (forbidden_delivery_paths files) \<longleftrightarrow> p \<in> set files \<and> never_delivered p"
  by (auto simp: forbidden_delivery_paths_def Let_def last_component never_delivered_def starts_with_prefix ends_with_suffix
      forbidden_delivery_path_prefixes_def forbidden_delivery_filenames_def forbidden_delivery_suffixes_def)

lemma none_forbidden: "forbidden_delivery_paths files = [] \<longleftrightarrow> (\<forall>p \<in> set files. \<not> never_delivered p)"
  using forbidden_iff [of _ files] by (cases "forbidden_delivery_paths files") fastforce+

text \<open>
  The verification rests on the commands the plan names, each with a passed result, or it is a stored record of the plan.
\<close>

definition measured_for :: "'w delivery_env \<Rightarrow> string \<Rightarrow> architecture_plan \<Rightarrow> final_verification \<Rightarrow> bool" where
  "measured_for D p plan f =
     ((\<exists>r. fv_result f = Some r \<and> vr_violations r = []
        \<and> (\<forall>n \<in> set (vs_whole_project (ap_strategy plan)). \<exists>c \<in> set (vr_commands r). cr_name c = n \<and> cr_status c = PASSED))
      \<or> (\<exists>g. fe_load (de_final D) g p = Readable f))"

lemma deliver_finished_Inr:
  assumes d: "distinct (map pl_id (pd_plans (pw_plans w)))" and r: "get_plan (pw_plans w) p = Inr r"
    and ok: "deliver_finished D r p slices w = (Inr d, w')"
  shows "\<exists>g. gv_head (pn_git (de_env D)) g (dl_path d) = Inr (dl_commit d)
      \<and> fe_fingerprint (de_final D) g (dl_path d) = Inr (fv_fingerprint (dl_final d))"
    and "is_sufficient_for_delivery (dl_final d)" and "fv_commit (dl_final d) = dl_commit d"
    and "forbidden_delivery_paths (dl_files d) = []"
    and "do_missing (assess_delivered_operability (pl_plan r) (dl_files d)) = []"
    and "ships_commit D d" and "measured_for D p (pl_plan r) (dl_final d)"
    and "pl_status r = APPROVED_PLAN \<Longrightarrow>
      (\<exists>x. get_plan (pw_plans w') p = Inr x \<and> pl_status x = EXECUTED \<and> pl_version x = dl_version d)"
proof -
  from ok obtain commit completed place final g g1 w1 where
      tip: "locate_final (pn_git (de_env D)) g commit (map fst slices) = Inr place"
    and final: "ensure_final_project_verification (de_final D) (pl_plan r)
        \<lparr>ft_plan = p, ft_version = pl_version r, ft_commit = commit, ft_branch = snd place, ft_path = fst place,
         ft_task = fst (last slices)\<rparr> g = (Inr final, g1)" "is_sufficient_for_delivery final"
    and ship: "ship D r p commit place completed slices final w1 = (Inr d, w')" and same: "pw_plans w1 = pw_plans w"
    by (clarsimp simp: deliver_finished_def Let_def bnd_Inr on_repo_Inr on_world_Inr asking_def split: option.splits if_splits)
  note gates = ship_Inr [OF ship]
  note ran = ensured_is_sufficient_at_the_tip [OF final, simplified]
  from locate_final_Inr [OF tip] ran gates
  show "\<exists>g. gv_head (pn_git (de_env D)) g (dl_path d) = Inr (dl_commit d)
      \<and> fe_fingerprint (de_final D) g (dl_path d) = Inr (fv_fingerprint (dl_final d))" by auto
  show "is_sufficient_for_delivery (dl_final d)" "fv_commit (dl_final d) = dl_commit d"
    "forbidden_delivery_paths (dl_files d) = []" "do_missing (assess_delivered_operability (pl_plan r) (dl_files d)) = []"
    using gates ran final(2) by simp_all
  show "ships_commit D d" by (rule ship_content [OF ship])
  show "measured_for D p (pl_plan r) (dl_final d)"
  proof -
    from ran consider (stored) "load_final_project_verification (de_final D) g p = Some final"
      | (fresh) "run_final_project_verification (de_final D) (pl_plan r)
          \<lparr>ft_plan = p, ft_version = pl_version r, ft_commit = commit, ft_branch = snd place, ft_path = fst place,
           ft_task = fst (last slices)\<rparr> g = (Inr final, g1)" by auto
    then have "measured_for D p (pl_plan r) final"
    proof cases
      case stored
      then show ?thesis unfolding measured_for_def load_final_project_verification_def by (auto split: artifact.splits)
    next
      case fresh
      from fresh final(2) show ?thesis
        by (rule fresh_pass_commands) (auto simp: measured_for_def dest!: final_record_Inr)
    qed
    with gates show ?thesis by simp
  qed
  assume "pl_status r = APPROVED_PLAN"
  with gates obtain w2 w3 x where e: "pw_plans w2 = pw_plans w1" "pw_plans w' = pw_plans w3"
    "mark_plan_executed (de_env D) r p commit w2 = (Inr x, w3)" "dl_version d = pl_version x" by blast
  from mark_plan_executed_Inr [OF _ _ e(3)] d r same e(1,2,4)
  show "\<exists>x. get_plan (pw_plans w') p = Inr x \<and> pl_status x = EXECUTED \<and> pl_version x = dl_version d" by simp
qed


subsection \<open>Witness\<close>

definition shipped_row :: plan_row where
  "shipped_row = tiny_row\<lparr>pl_plan := tiny_plan\<lparr>ap_slices := [tiny_slice ''A'' []]\<rparr>\<rparr>"

definition shipped_tasks :: "derived_specification task_db" where
  "shipped_tasks = foldl store_exec empty_db
     [Create ''a'' ''TASK-1'' tiny_specification USER 0, Transition ''b'' ''TASK-1'' HUMAN_REVIEW_REQUIRED SYSTEM ''x'' None None 1,
      Transition ''c'' ''TASK-1'' VERIFYING OPERATOR ''review_verification_retry_started'' None None 2,
      Transition ''d'' ''TASK-1'' COMPLETE VERIFICATION_ENGINE ''review_verification_retry_passed''
        (Some [(''operation_id'', ''OP-1'')]) None 3]"

definition shipped_world :: "unit plan_world" where
  "shipped_world = \<lparr>pw_plans = \<lparr>pd_plans = [shipped_row], pd_events = [], pd_next = 0\<rparr>,
     pw_slices = [(packaged_row ''A'')\<lparr>sx_status := COMPLETE_SLICE, sx_task := Some ''TASK-1''\<rparr>], pw_tasks = shipped_tasks,
     pw_packages = [], pw_repo = (), pw_tick = 1\<rparr>"

definition shipped_final :: final_verification where
  "shipped_final = \<lparr>fv_plan = ''PLAN-1'', fv_version = 3, fv_status = FINAL_PASSED, fv_commit = ''c'', fv_branch = ''b'', fv_path = ''/w'',
     fv_fingerprint = ''f'', fv_task = ''TASK-1'', fv_requested = [''unit''], fv_executed = [''unit''], fv_missing = [],
     fv_result = Some passed_run, fv_coverage = []\<rparr>"

definition shipping_env :: "unit delivery_env" where
  "shipping_env = \<lparr>de_env = still_env\<lparr>pn_git := still_git\<lparr>gv_describe := (\<lambda>_ _. Some (''/w'', ''b''))\<rparr>\<rparr>,
     de_final = final_sample_env\<lparr>fe_load := (\<lambda>_ _. Readable shipped_final)\<rparr>, de_reader = plain_reader,
     de_files = (\<lambda>_ _. retried_files Absent), de_load = (\<lambda>_ _. Inr None), de_tree = (\<lambda>_ _ _. Inr [''README.md'']),
     de_archive = (\<lambda>_ _ w. (Inr ''sha'', w)), de_handoff = (\<lambda>_ w. (Inr (), w)), de_save = (\<lambda>_ w. (Inr (), w))\<rparr>"

lemma shipped_slice: "\<exists>ev. slice_delivery shipping_env ''PLAN-1'' shipped_world ''A'' = Inr (''TASK-1'', ev)"
  by (simp add: slice_delivery_def shipped_world_def shipped_tasks_def shipping_env_def packaged_row_def slice_get_def row_of_def
      sx_key_def events_def task_events_def get_task_def store_eval project_current_task_evidence_def on_error_def and_then_def
      located_evidence_def Let_def outcome_for_state_def decisive_event_def generation_of_def decisive_event_generation_def
      retry_evidence_def payload_operation_def plain_reader_def retried_files_def verification_artifact_prefix_def read_artifact_def
      coverage_from_event_payload_def is_verified_complete_def current_verification_status_def passed_run_def
      build_evidence_def sorted_payload_def)

lemma shipped: "\<exists>d w'. prepare_plan_delivery shipping_env ''PLAN-1'' shipped_world = (Inr d, w')"
proof -
  obtain ev where slice: "slice_delivery shipping_env ''PLAN-1'' shipped_world ''A'' = Inr (''TASK-1'', ev)" using shipped_slice by blast
  have ids: "map is_id (ap_slices (pl_plan shipped_row)) = [''A'']" "pl_status shipped_row = APPROVED_PLAN"
    "is_id (last (ap_slices (pl_plan shipped_row))) = ''A''" "is_sufficient_for_delivery shipped_final"
    by (simp_all add: shipped_final_def is_sufficient_for_delivery_def passed_run_def shipped_row_def tiny_row_def tiny_slice_def)
  have tips: "checkpoint_completed_prior_slices (pn_git (de_env shipping_env)) ''PLAN-1'' (pl_plan shipped_row) ''A'' True
      (pw_slices shipped_world) (pw_tasks shipped_world) () = (Inr (Some ''c'', [''A'']), ())"
    by (simp add: checkpoint_completed_prior_slices_def shipped_row_def tiny_row_def tiny_slice_def shipped_world_def packaged_row_def
        slice_get_def row_of_def sx_key_def shipped_tasks_def get_task_def store_eval checkpoint_worktree_def shipping_env_def still_env_def
        still_git_def integrated_tip_def on_error_def)
  have get: "get_plan (pw_plans shipped_world) ''PLAN-1'' = Inr shipped_row"
    by (simp add: shipped_world_def get_plan_def row_of_def shipped_row_def tiny_row_def)
  have ensured: "ensure_final_project_verification (de_final shipping_env) plan
      \<lparr>ft_plan = ''PLAN-1'', ft_version = v, ft_commit = ''c'', ft_branch = ''b'', ft_path = ''/w'', ft_task = ''TASK-1''\<rparr> () = (Inr shipped_final, ())"
    for plan v
    by (simp add: ensure_final_project_verification_def shipping_env_def final_sample_env_def load_final_project_verification_def
        shipped_final_def is_sufficient_for_delivery_def passed_run_def fv_matches_def bnd_def)
  have place: "locate_final (pn_git (de_env shipping_env)) () ''c'' [''TASK-1''] = Inr (''/w'', ''b'')"
    by (simp add: shipping_env_def still_env_def still_git_def on_error_def and_then_def)
  have marked: "\<exists>x w'. mark_plan_executed (de_env shipping_env) shipped_row ''PLAN-1'' ''c'' shipped_world = (Inr x, w')"
    by (simp add: mark_plan_executed_def mark_executed_def shipped_world_def shipped_row_def tiny_row_def
        insert_plan_event_def on_error_def plan_eval)
  have same: "w\<lparr>pw_repo := ()\<rparr> = w" for w :: "unit plan_world" by (cases w) simp
  have "\<exists>d w'. ship shipping_env shipped_row ''PLAN-1'' ''c'' (''/w'', ''b'') [''A''] [(''TASK-1'', ev)] shipped_final shipped_world = (Inr d, w')"
    using marked ids(2)
    by (auto simp: same ship_def bnd_def on_world_def on_repo_def on_error_def shipping_env_def forbidden_delivery_paths_def split_on.simps
        forbidden_delivery_path_prefixes_def forbidden_delivery_filenames_def forbidden_delivery_suffixes_def starts_with_def ends_with_def
        assess_delivered_operability_def shipped_row_def tiny_row_def tiny_plan_def)
  then have shipped: "\<exists>d w'. deliver_finished shipping_env shipped_row ''PLAN-1'' [(''TASK-1'', ev)] shipped_world = (Inr d, w')"
    using tips ensured place
    by (simp add: same deliver_finished_def Let_def bnd_def on_repo_def ids asking_def on_world_def on_error_def del: locate_final.simps)
  have "slice_deliveries shipping_env ''PLAN-1'' shipped_world [''A''] = Inr [(''TASK-1'', ev)]"
    using slice by (simp add: and_then_def)
  with shipped get ids show ?thesis
    by (auto simp: prepare_plan_delivery_def bnd_def asking_def on_error_def shipping_env_def)
qed


end
