(* ===== verification/Relay_Policy.thy ===== *)
theory Relay_Policy
  imports Agent_Actions
begin

section \<open>What the model relay forwards (workcell/relay_policy.py)\<close>

text \<open>
  The pure decisions of the relay, the only way out of a work cell: which requests cross it, what a body may ask for, which
  headers and redirects pass, and what token counts are read off an answer. \<open>urllib.parse.urlsplit\<close> is written out, the check of
  a bracketed host apart; \<open>json.loads\<close> and \<open>json.dumps\<close> are parameters. Bytes are strings. Detail texts are left out.
\<close>

subsection \<open>Splitting a URL\<close>

record url_parts =
  up_scheme :: string
  up_netloc :: string
  up_path :: string
  up_query :: string
  up_fragment :: string

definition before :: "char \<Rightarrow> string \<Rightarrow> string" where
  "before d s = takeWhile (\<lambda>c. c \<noteq> d) s"

definition after :: "char \<Rightarrow> string \<Rightarrow> string" where
  "after d s = drop 1 (dropWhile (\<lambda>c. c \<noteq> d) s)"

definition after_last :: "char \<Rightarrow> string \<Rightarrow> string" where
  "after_last d s = rev (takeWhile (\<lambda>c. c \<noteq> d) (rev s))"

definition ascii_letter :: "char \<Rightarrow> bool" where
  "ascii_letter c = (let n = (of_char c :: nat) in (65 \<le> n \<and> n \<le> 90) \<or> (97 \<le> n \<and> n \<le> 122))"

definition ascii_digit :: "char \<Rightarrow> bool" where
  "ascii_digit c = (48 \<le> (of_char c :: nat) \<and> (of_char c :: nat) \<le> 57)"

definition split_scheme :: "string \<Rightarrow> string \<times> string" where
  "split_scheme u =
     (let s = before (CHR '':'') u in
      if CHR '':'' \<in> set u \<and> s \<noteq> [] \<and> ascii_letter (hd s) \<and> list_all (\<lambda>c. ascii_letter c \<or> ascii_digit c \<or> c \<in> set ''+-.'') s
      then (lower s, after (CHR '':'') u) else ([], u))"

definition url_cleaned :: "string \<Rightarrow> string" where
  "url_cleaned u = filter (\<lambda>c. (of_char c :: nat) \<notin> set [9, 10, 13]) (dropWhile (\<lambda>c. (of_char c :: nat) \<le> 32) u)"

definition urlsplit :: "(string \<Rightarrow> bool) \<Rightarrow> string \<Rightarrow> string + url_parts" where
  "urlsplit bracketed_ok url =
     (let (scheme, rest) = split_scheme (url_cleaned url);
          ends = (\<lambda>c. c \<in> set ''/?#'');
          netloc = (if starts_with rest ''//'' then takeWhile (\<lambda>c. \<not> ends c) (drop 2 rest) else []);
          rest' = (if starts_with rest ''//'' then dropWhile (\<lambda>c. \<not> ends c) (drop 2 rest) else rest)
      in if (CHR ''['' \<in> set netloc) \<noteq> (CHR '']'' \<in> set netloc) then Inl ''ValueError''
         else if CHR ''['' \<in> set netloc \<and> \<not> bracketed_ok (before (CHR '']'') (after (CHR ''['') netloc)) then Inl ''ValueError''
         else Inr \<lparr>up_scheme = scheme, up_netloc = netloc, up_path = before (CHR ''?'') (before (CHR ''#'') rest'),
                   up_query = after (CHR ''?'') (before (CHR ''#'') rest'), up_fragment = after (CHR ''#'') rest'\<rparr>)"

text \<open>The properties \<open>hostname\<close> and \<open>port\<close> of the result; a bad port raises when it is read.\<close>

definition host_and_port :: "url_parts \<Rightarrow> string \<times> string" where
  "host_and_port u =
     (let h = after_last (CHR ''@'') (up_netloc u) in
      if CHR ''['' \<in> set h then (let b = after (CHR ''['') h in (before (CHR '']'') b, after (CHR '':'') (after (CHR '']'') b)))
      else (before (CHR '':'') h, after (CHR '':'') h))"

definition hostname :: "url_parts \<Rightarrow> string option" where
  "hostname u =
     (let h = fst (host_and_port u); name = before (CHR ''%'') h in
      if h = [] then None else Some (lower name @ drop (length name) h))"

definition port_value :: "string \<Rightarrow> nat" where
  "port_value s = foldl (\<lambda>n c. 10 * n + (of_char c - 48)) 0 s"

definition port_of :: "url_parts \<Rightarrow> string + nat option" where
  "port_of u =
     (let p = snd (host_and_port u) in
      if p = [] then Inr None
      else if \<not> list_all ascii_digit p then Inl ''ValueError''
      else if port_value p > 65535 then Inl ''ValueError''
      else Inr (Some (port_value p)))"

subsection \<open>The policy's tables and configuration\<close>

definition allowed_routes :: "(string \<times> string) list" where
  "allowed_routes = [(''POST'', ''/v1/chat/completions''), (''POST'', ''/v1/completions''), (''GET'', ''/v1/models''), (''GET'', ''/health'')]"

definition hop_by_hop_headers :: "string list" where
  "hop_by_hop_headers =
     [''connection'', ''keep-alive'', ''proxy-authenticate'', ''proxy-authorization'', ''proxy-connection'', ''te'', ''trailer'',
      ''transfer-encoding'', ''upgrade'']"

definition upstream_steering_headers :: "string list" where
  "upstream_steering_headers = [''host'', ''x-forwarded-host'', ''x-forwarded-for'', ''x-forwarded-proto'', ''forwarded'']"

definition output_budget_keys :: "string list" where
  "output_budget_keys = [''max_tokens'', ''max_completion_tokens'', ''max_new_tokens'']"

definition output_budget_routes :: "string list" where
  "output_budget_routes = [''/v1/chat/completions'', ''/v1/completions'']"

datatype relay_rejection =
    CONNECT_METHOD | ABSOLUTE_FORM_URI | METHOD_NOT_ALLOWED | PATH_NOT_ALLOWED | MALFORMED_PATH | BODY_TOO_LARGE
  | RESPONSE_TOO_LARGE | REQUEST_BUDGET_EXHAUSTED | CONCURRENCY_LIMIT | CROSS_ORIGIN_REDIRECT | UPSTREAM_UNAVAILABLE
  | UPSTREAM_DISCONNECT | DROPPED_STREAM | IDLE_TIMEOUT | OUTPUT_BUDGET_ABOVE_CAP

fun rejection_status :: "relay_rejection \<Rightarrow> nat" where
  "rejection_status CONNECT_METHOD = 405"
| "rejection_status ABSOLUTE_FORM_URI = 400"
| "rejection_status METHOD_NOT_ALLOWED = 405"
| "rejection_status PATH_NOT_ALLOWED = 403"
| "rejection_status MALFORMED_PATH = 400"
| "rejection_status BODY_TOO_LARGE = 413"
| "rejection_status RESPONSE_TOO_LARGE = 502"
| "rejection_status REQUEST_BUDGET_EXHAUSTED = 429"
| "rejection_status CONCURRENCY_LIMIT = 429"
| "rejection_status CROSS_ORIGIN_REDIRECT = 502"
| "rejection_status UPSTREAM_UNAVAILABLE = 502"
| "rejection_status UPSTREAM_DISCONNECT = 502"
| "rejection_status DROPPED_STREAM = 502"
| "rejection_status IDLE_TIMEOUT = 504"
| "rejection_status OUTPUT_BUDGET_ABOVE_CAP = 400"

record relay_decision =
  rd_allowed :: bool
  rd_path :: "string option"
  rd_rejection :: "relay_rejection option"
  rd_status :: nat

definition decision_valid :: "relay_decision \<Rightarrow> bool" where
  "decision_valid d =
     ((rd_allowed d \<longrightarrow> rd_rejection d = None \<and> rd_path d \<noteq> None \<and> rd_path d \<noteq> Some []) \<and> (\<not> rd_allowed d \<longrightarrow> rd_rejection d \<noteq> None))"

definition allow :: "string \<Rightarrow> relay_decision" where
  "allow p = \<lparr>rd_allowed = True, rd_path = Some p, rd_rejection = None, rd_status = 200\<rparr>"

definition refuse :: "relay_rejection \<Rightarrow> relay_decision" where
  "refuse r = \<lparr>rd_allowed = False, rd_path = None, rd_rejection = Some r, rd_status = rejection_status r\<rparr>"

record relay_config =
  rl_upstream :: string
  rl_socket :: string
  rl_routes :: "string list"
  rl_max_request :: nat
  rl_max_response :: nat
  rl_max_concurrent :: nat
  rl_max_total :: nat
  rl_max_output :: "nat option"
  rl_inject :: bool

definition upstream_is_origin_only :: "(string \<Rightarrow> bool) \<Rightarrow> relay_config \<Rightarrow> bool" where
  "upstream_is_origin_only B c =
     (case urlsplit B (rl_upstream c) of
        Inl _ \<Rightarrow> False
      | Inr u \<Rightarrow> up_scheme u \<in> set [''http'', ''https''] \<and> hostname u \<noteq> None \<and> up_path u \<in> set ['''', ''/'']
                 \<and> up_query u = [] \<and> up_fragment u = [])"

definition routes_narrow_only :: "relay_config \<Rightarrow> bool" where
  "routes_narrow_only c = list_all (\<lambda>p. p \<in> set (map snd allowed_routes)) (rl_routes c)"

definition default_port :: "string \<Rightarrow> nat option \<Rightarrow> nat" where
  "default_port scheme p = (case p of Some n \<Rightarrow> if n = 0 then (if scheme = ''https'' then 443 else 80) else n
                            | None \<Rightarrow> if scheme = ''https'' then 443 else 80)"

definition upstream_origin :: "(string \<Rightarrow> bool) \<Rightarrow> relay_config \<Rightarrow> string + string \<times> string \<times> nat" where
  "upstream_origin B c =
     (case urlsplit B (rl_upstream c) of
        Inl e \<Rightarrow> Inl e
      | Inr u \<Rightarrow> (case port_of u of
                    Inl e \<Rightarrow> Inl e
                  | Inr p \<Rightarrow> Inr (up_scheme u, (case hostname u of None \<Rightarrow> [] | Some h \<Rightarrow> h), default_port (up_scheme u) p)))"

definition effective_routes :: "relay_config \<Rightarrow> (string \<times> string) list" where
  "effective_routes c = (if rl_routes c = [] then allowed_routes else filter (\<lambda>(m, p). p \<in> set (rl_routes c)) allowed_routes)"

definition socket_directory :: "relay_config \<Rightarrow> string" where
  "socket_directory c =
     (let s = replace_char backslash (CHR ''/'') (rl_socket c);
          d = (if CHR ''/'' \<in> set s then take (length s - Suc (length (after_last (CHR ''/'') s))) s else s)
      in if d = [] then ''/'' else d)"

subsection \<open>Requests\<close>

definition upper_char :: "char \<Rightarrow> char" where
  "upper_char c = (if 97 \<le> (of_char c :: nat) \<and> (of_char c :: nat) \<le> 122 then char_of ((of_char c :: nat) - 32) else c)"

definition upper :: "string \<Rightarrow> string" where
  "upper s = map upper_char s"

definition without_trailing_slashes :: "string \<Rightarrow> string" where
  "without_trailing_slashes p =
     (if length p > 1 then (let q = rev (dropWhile (\<lambda>c. c = CHR ''/'') (rev p)) in if q = [] then ''/'' else q) else p)"

definition classify_request ::
  "(string \<Rightarrow> bool) \<Rightarrow> relay_config \<Rightarrow> string \<Rightarrow> string \<Rightarrow> nat option \<Rightarrow> nat \<Rightarrow> nat \<Rightarrow> string + relay_decision" where
  "classify_request B c method raw content_length served active =
     (let m = upper method in
      if m = ''CONNECT'' then Inr (refuse CONNECT_METHOD)
      else if contains raw ''://'' \<or> starts_with raw ''//'' then Inr (refuse ABSOLUTE_FORM_URI)
      else if \<not> starts_with raw ''/'' then Inr (refuse MALFORMED_PATH)
      else case urlsplit B raw of
        Inl e \<Rightarrow> Inl e
      | Inr u \<Rightarrow>
          if up_fragment u \<noteq> [] then Inr (refuse MALFORMED_PATH)
          else if ''..'' \<in> set (split_on (CHR ''/'') (up_path u)) \<or> contains (up_path u) ''//'' then Inr (refuse MALFORMED_PATH)
          else
            let p = without_trailing_slashes (up_path u); routes = effective_routes c in
            if p \<notin> set (map snd routes) then Inr (refuse PATH_NOT_ALLOWED)
            else if (m, p) \<notin> set routes then Inr (refuse METHOD_NOT_ALLOWED)
            else if (case content_length of None \<Rightarrow> False | Some n \<Rightarrow> n > rl_max_request c) then Inr (refuse BODY_TOO_LARGE)
            else if served \<ge> rl_max_total c then Inr (refuse REQUEST_BUDGET_EXHAUSTED)
            else if active \<ge> rl_max_concurrent c then Inr (refuse CONCURRENCY_LIMIT)
            else Inr (allow (if up_query u = [] then p else p @ ''?'' @ up_query u)))"

subsection \<open>Bodies\<close>

text \<open>What \<open>json.loads\<close> does: a value, a \<open>ValueError\<close>, or a \<open>RecursionError\<close> on deep nesting, which no caller catches.\<close>

datatype loaded = Parsed json | Not_Json | Too_Deep

record json_library =
  jl_loads :: "string \<Rightarrow> loaded"
  jl_dumps :: "json \<Rightarrow> string"

definition loads_or :: "json_library \<Rightarrow> string \<Rightarrow> string + json option" where
  "loads_or J s = (case jl_loads J s of Parsed v \<Rightarrow> Inr (Some v) | Not_Json \<Rightarrow> Inr None | Too_Deep \<Rightarrow> Inl ''RecursionError'')"

definition field :: "string \<Rightarrow> (string \<times> json) list \<Rightarrow> json option" where
  "field k fs = map_of fs k"

definition non_negative_int :: "json option \<Rightarrow> nat option" where
  "non_negative_int v = (case v of Some (JInt i) \<Rightarrow> if i < 0 then None else Some (nat i) | _ \<Rightarrow> None)"

definition larger_budget :: "(string \<times> json) list \<Rightarrow> (nat \<times> string) option \<Rightarrow> string \<Rightarrow> (nat \<times> string) option" where
  "larger_budget fs best key =
     (case non_negative_int (field key fs) of
        None \<Rightarrow> best
      | Some n \<Rightarrow> (case best of None \<Rightarrow> Some (n, key) | Some (b, _) \<Rightarrow> if n > b then Some (n, key) else best))"

text \<open>The path of a forwarded request; it always splits, see \<open>relay_path_splits\<close>.\<close>

definition on_budget_route :: "(string \<Rightarrow> bool) \<Rightarrow> string \<Rightarrow> string + bool" where
  "on_budget_route B upstream_path =
     (case urlsplit B upstream_path of Inl e \<Rightarrow> Inl e | Inr u \<Rightarrow> Inr (up_path u \<in> set output_budget_routes))"

definition observed_output_budget :: "(string \<Rightarrow> bool) \<Rightarrow> json_library \<Rightarrow> string \<Rightarrow> string \<Rightarrow> string + (nat \<times> string) option" where
  "observed_output_budget B J upstream_path body =
     (case on_budget_route B upstream_path of
        Inl e \<Rightarrow> Inl e
      | Inr r \<Rightarrow>
          if \<not> r \<or> body = [] then Inr None
          else (case loads_or J body of
                  Inl e \<Rightarrow> Inl e
                | Inr (Some (JObj fs)) \<Rightarrow> Inr (foldl (larger_budget fs) None output_budget_keys)
                | Inr _ \<Rightarrow> Inr None))"

definition classify_request_body :: "(string \<Rightarrow> bool) \<Rightarrow> json_library \<Rightarrow> relay_config \<Rightarrow> string \<Rightarrow> string \<Rightarrow> string + relay_decision" where
  "classify_request_body B J c upstream_path body =
     (case rl_max_output c of
        None \<Rightarrow> Inr (allow upstream_path)
      | Some cap \<Rightarrow>
          (case observed_output_budget B J upstream_path body of
             Inl e \<Rightarrow> Inl e
           | Inr (Some (n, _)) \<Rightarrow> Inr (if n > cap then refuse OUTPUT_BUDGET_ABOVE_CAP else allow upstream_path)
           | Inr None \<Rightarrow> Inr (allow upstream_path)))"

subsection \<open>Token counts\<close>

record observed_usage =
  ou_input :: "nat option"
  ou_output :: "nat option"
  ou_cached :: "nat option"
  ou_total :: "nat option"
  ou_source :: string

definition usage_reported :: "observed_usage \<Rightarrow> bool" where
  "usage_reported u = (ou_input u \<noteq> None \<or> ou_output u \<noteq> None \<or> ou_cached u \<noteq> None \<or> ou_total u \<noteq> None)"

definition cached_tokens :: "(string \<times> json) list \<Rightarrow> nat option" where
  "cached_tokens usage =
     (case (case field ''prompt_tokens_details'' usage of Some (JObj d) \<Rightarrow> non_negative_int (field ''cached_tokens'' d) | _ \<Rightarrow> None) of
        Some n \<Rightarrow> Some n | None \<Rightarrow> non_negative_int (field ''cached_tokens'' usage))"

definition usage_from_object :: "string \<Rightarrow> json \<Rightarrow> observed_usage option" where
  "usage_from_object source payload =
     (case payload of
        JObj fs \<Rightarrow>
          (case field ''usage'' fs of
             Some (JObj usage) \<Rightarrow>
               (let u = \<lparr>ou_input = non_negative_int (field ''prompt_tokens'' usage),
                         ou_output = non_negative_int (field ''completion_tokens'' usage), ou_cached = cached_tokens usage,
                         ou_total = non_negative_int (field ''total_tokens'' usage), ou_source = source\<rparr>
                in if usage_reported u then Some u else None)
           | _ \<Rightarrow> None)
      | _ \<Rightarrow> None)"

definition usage_from_body :: "json_library \<Rightarrow> string \<Rightarrow> string + observed_usage option" where
  "usage_from_body J body =
     (if body = [] then Inr None
      else (case loads_or J body of Inl e \<Rightarrow> Inl e | Inr None \<Rightarrow> Inr None | Inr (Some v) \<Rightarrow> Inr (usage_from_object ''body'' v)))"

definition is_byte_space :: "char \<Rightarrow> bool" where
  "is_byte_space c = (let n = (of_char c :: nat) in n = 32 \<or> (9 \<le> n \<and> n \<le> 13))"

definition strip_bytes :: "string \<Rightarrow> string" where
  "strip_bytes s = rev (dropWhile is_byte_space (rev (dropWhile is_byte_space s)))"

definition frame_usage :: "json_library \<Rightarrow> string \<Rightarrow> string + observed_usage option" where
  "frame_usage J line =
     (let s = strip_bytes line; data = strip_bytes (drop 5 s) in
      if \<not> starts_with s ''data:'' \<or> data = [] \<or> data = ''[DONE]'' then Inr None
      else (case loads_or J data of Inl e \<Rightarrow> Inl e | Inr None \<Rightarrow> Inr None | Inr (Some v) \<Rightarrow> Inr (usage_from_object ''stream'' v)))"

fun newest_usage :: "json_library \<Rightarrow> string list \<Rightarrow> string + observed_usage option" where
  "newest_usage J [] = Inr None"
| "newest_usage J (line # older) =
     (case frame_usage J line of Inl e \<Rightarrow> Inl e | Inr (Some u) \<Rightarrow> Inr (Some u) | Inr None \<Rightarrow> newest_usage J older)"

definition usage_from_event_stream :: "json_library \<Rightarrow> string \<Rightarrow> string + observed_usage option" where
  "usage_from_event_stream J buffer = (if buffer = [] then Inr None else newest_usage J (rev (split_on newline buffer)))"

text \<open>Assignment to a key of a dictionary: in place, or at the end.\<close>

definition put_field :: "string \<Rightarrow> json \<Rightarrow> (string \<times> json) list \<Rightarrow> (string \<times> json) list" where
  "put_field k v fs = (if k \<in> fst ` set fs then map (\<lambda>(j, x). if j = k then (j, v) else (j, x)) fs else fs @ [(k, v)])"

definition stream_options :: "(string \<times> json) list \<Rightarrow> (string \<times> json) list option" where
  "stream_options fs = (case field ''stream_options'' fs of Some (JObj os) \<Rightarrow> Some os | _ \<Rightarrow> None)"

definition asked_for_usage :: "(string \<times> json) list \<Rightarrow> json" where
  "asked_for_usage fs =
     JObj (put_field ''stream_options''
       (JObj (put_field ''include_usage'' (JBool True) (case stream_options fs of None \<Rightarrow> [] | Some os \<Rightarrow> os))) fs)"

definition usage_probe_body ::
  "(string \<Rightarrow> bool) \<Rightarrow> json_library \<Rightarrow> relay_config \<Rightarrow> string \<Rightarrow> string \<Rightarrow> string + string option" where
  "usage_probe_body B J c upstream_path body =
     (if \<not> rl_inject c then Inr None
      else (case on_budget_route B upstream_path of
        Inl e \<Rightarrow> Inl e
      | Inr r \<Rightarrow>
          if \<not> r \<or> body = [] then Inr None
          else (case loads_or J body of
                  Inl e \<Rightarrow> Inl e
                | Inr (Some (JObj fs)) \<Rightarrow>
                    (if field ''stream'' fs \<noteq> Some (JBool True) then Inr None
                     else if (case stream_options fs of None \<Rightarrow> False | Some os \<Rightarrow> field ''include_usage'' os \<notin> set [None, Some JNull])
                     then Inr None
                     else Inr (Some (jl_dumps J (asked_for_usage fs))))
                | Inr _ \<Rightarrow> Inr None)))"

subsection \<open>Redirects and headers\<close>

definition classify_redirect :: "(string \<Rightarrow> bool) \<Rightarrow> relay_config \<Rightarrow> string \<Rightarrow> string + relay_decision" where
  "classify_redirect B c location =
     (case urlsplit B location of
        Inl e \<Rightarrow> Inl e
      | Inr u \<Rightarrow>
          (let here = allow (if up_path u = [] then ''/'' else up_path u) in
           if up_scheme u = [] \<and> up_netloc u = [] then Inr here
           else (case upstream_origin B c of
                   Inl e \<Rightarrow> Inl e
                 | Inr (scheme, host, port) \<Rightarrow>
                     (case port_of u of
                        Inl e \<Rightarrow> Inl e
                      | Inr p \<Rightarrow>
                          Inr (if up_scheme u = scheme \<and> hostname u = Some host \<and> default_port (up_scheme u) p = port
                               then here else refuse CROSS_ORIGIN_REDIRECT)))))"

definition sanitise_headers :: "(string \<times> string) list \<Rightarrow> (string \<times> string) list" where
  "sanitise_headers hs = filter (\<lambda>(n, _). lower n \<notin> set (hop_by_hop_headers @ upstream_steering_headers)) hs"

end
