(* ===== verification/Relay.thy ===== *)
theory Relay
  imports Relay_Policy Patch_Apply
begin

section \<open>The model relay (workcell/relay.py)\<close>

text \<open>
  One request through the relay, from the socket to the record the controller keeps: the counters, the pump that streams an
  answer and decides whether it is complete, and the handler around them. The client, the upstream and the
  outcome of every write are arguments; a Python exception that no clause catches is the \<open>Escaped\<close> end of a request.
  Durations, detail texts and the usage observer are left out; Unix sockets and threads are outside.
\<close>

subsection \<open>Records and counters\<close>

record relay_record =
  rq_method :: string
  rq_raw :: string
  rq_allowed :: bool
  rq_rejection :: "relay_rejection option"
  rq_status :: nat
  rq_request_bytes :: nat
  rq_response_bytes :: nat
  rq_streamed :: bool
  rq_cancelled :: bool
  rq_complete :: bool
  rq_terminal :: "bool option"
  rq_budget :: "nat option"
  rq_usage :: "observed_usage option"
  rq_probed :: bool

definition new_record :: "string \<Rightarrow> string \<Rightarrow> bool \<Rightarrow> relay_record" where
  "new_record m raw ok =
     \<lparr>rq_method = m, rq_raw = raw, rq_allowed = ok, rq_rejection = None, rq_status = 0, rq_request_bytes = 0, rq_response_bytes = 0,
      rq_streamed = False, rq_cancelled = False, rq_complete = True, rq_terminal = None, rq_budget = None, rq_usage = None,
      rq_probed = False\<rparr>"

definition or_zero :: "nat option \<Rightarrow> nat" where
  "or_zero n = (case n of None \<Rightarrow> 0 | Some k \<Rightarrow> k)"

definition record_input_tokens :: "relay_record \<Rightarrow> nat" where
  "record_input_tokens r = (case rq_usage r of None \<Rightarrow> 0 | Some u \<Rightarrow> or_zero (ou_input u))"

definition record_output_tokens :: "relay_record \<Rightarrow> nat" where
  "record_output_tokens r = (case rq_usage r of None \<Rightarrow> 0 | Some u \<Rightarrow> or_zero (ou_output u))"

definition record_cached_tokens :: "relay_record \<Rightarrow> nat" where
  "record_cached_tokens r = (case rq_usage r of None \<Rightarrow> 0 | Some u \<Rightarrow> or_zero (ou_cached u))"

record relay_stats =
  rs_served :: nat
  rs_refused :: nat
  rs_peak_budget :: "nat option"
  rs_with_budget :: nat
  rs_upstream_failures :: nat
  rs_incomplete :: nat
  rs_to_upstream :: nat
  rs_from_upstream :: nat
  rs_cancellations :: nat
  rs_peak_concurrent :: nat
  rs_with_usage :: nat
  rs_input :: nat
  rs_output :: nat
  rs_cached :: nat
  rs_peak_input :: nat
  rs_records :: "relay_record list"

definition empty_stats :: relay_stats where
  "empty_stats = \<lparr>rs_served = 0, rs_refused = 0, rs_peak_budget = None, rs_with_budget = 0, rs_upstream_failures = 0, rs_incomplete = 0,
     rs_to_upstream = 0, rs_from_upstream = 0, rs_cancellations = 0, rs_peak_concurrent = 0, rs_with_usage = 0, rs_input = 0,
     rs_output = 0, rs_cached = 0, rs_peak_input = 0, rs_records = []\<rparr>"

definition total_requests :: "relay_stats \<Rightarrow> nat" where
  "total_requests s = rs_served s + rs_refused s"

definition usage_series :: "relay_stats \<Rightarrow> (nat \<times> nat \<times> nat) list" where
  "usage_series s =
     (let reporting = filter (\<lambda>r. rq_usage r \<noteq> None) (rs_records s)
      in zip [1..<Suc (length reporting)] (map (\<lambda>r. (record_input_tokens r, record_output_tokens r)) reporting))"

definition incomplete_records :: "relay_stats \<Rightarrow> relay_record list" where
  "incomplete_records s = filter (\<lambda>r. \<not> rq_complete r) (rs_records s)"

definition every_response_complete :: "relay_stats \<Rightarrow> bool" where
  "every_response_complete s = (incomplete_records s = [])"

definition upstream_failures :: "relay_rejection list" where
  "upstream_failures = [UPSTREAM_UNAVAILABLE, UPSTREAM_DISCONNECT, DROPPED_STREAM]"

record relay_state =
  ry_stats :: relay_stats
  ry_active :: nat

definition begin_request :: "relay_state \<Rightarrow> nat \<times> nat" where
  "begin_request st = (total_requests (ry_stats st), ry_active st)"

definition enter_request :: "relay_state \<Rightarrow> relay_state" where
  "enter_request st =
     (let s = ry_stats st; n = Suc (ry_active st)
      in st\<lparr>ry_active := n, ry_stats := s\<lparr>rs_peak_concurrent := max (rs_peak_concurrent s) n\<rparr>\<rparr>)"

definition leave_request :: "relay_state \<Rightarrow> relay_state" where
  "leave_request st = st\<lparr>ry_active := ry_active st - 1\<rparr>"

definition counted :: "bool \<Rightarrow> nat" where
  "counted b = (if b then 1 else 0)"

definition record_stats :: "relay_record \<Rightarrow> relay_stats \<Rightarrow> relay_stats" where
  "record_stats e s =
     (let served = rq_allowed e \<and> rq_rejection e = None; used = rq_usage e \<noteq> None in
      s\<lparr>rs_served := rs_served s + counted served, rs_refused := rs_refused s + counted (\<not> served),
        rs_upstream_failures := rs_upstream_failures s
          + counted (case rq_rejection e of None \<Rightarrow> False | Some r \<Rightarrow> r \<in> set upstream_failures),
        rs_incomplete := rs_incomplete s + counted (\<not> rq_complete e), rs_cancellations := rs_cancellations s + counted (rq_cancelled e),
        rs_to_upstream := rs_to_upstream s + rq_request_bytes e, rs_from_upstream := rs_from_upstream s + rq_response_bytes e,
        rs_with_budget := rs_with_budget s + counted (rq_budget e \<noteq> None),
        rs_peak_budget := (case rq_budget e of None \<Rightarrow> rs_peak_budget s | Some n \<Rightarrow> Some (max (or_zero (rs_peak_budget s)) n)),
        rs_with_usage := rs_with_usage s + counted used, rs_input := rs_input s + record_input_tokens e,
        rs_output := rs_output s + record_output_tokens e, rs_cached := rs_cached s + record_cached_tokens e,
        rs_peak_input := (if used then max (rs_peak_input s) (record_input_tokens e) else rs_peak_input s),
        rs_records := rs_records s @ [e]\<rparr>)"

definition record_request :: "relay_record \<Rightarrow> relay_state \<Rightarrow> relay_state" where
  "record_request e st = st\<lparr>ry_stats := record_stats e (ry_stats st)\<rparr>"

subsection \<open>The pump\<close>

text \<open>One read of the upstream and the outcome of the write that follows it; the end of the list is the end of the file.\<close>

datatype read_event = Chunk string | Read_Failed

datatype write_result = Written | Write_Timeout | Write_Broken

datatype pump_end = Eof | At_Ceiling | Upstream_Failed | Client_Timeout | Client_Gone

definition sse_terminal :: string where
  "sse_terminal = ''data: [DONE]''"

definition usage_tail_bytes :: nat where
  "usage_tail_bytes = 65536"

definition usage_body_bytes :: nat where
  "usage_body_bytes = 2097152"

record pump_state =
  ps_total :: nat
  ps_chunks :: nat
  ps_seen :: bool
  ps_tail :: string
  ps_usage :: string
  ps_overflowed :: bool
  ps_delivered :: string

definition empty_pump :: pump_state where
  "empty_pump = \<lparr>ps_total = 0, ps_chunks = 0, ps_seen = False, ps_tail = [], ps_usage = [], ps_overflowed = False, ps_delivered = []\<rparr>"

definition last_bytes :: "nat \<Rightarrow> string \<Rightarrow> string" where
  "last_bytes n s = drop (length s - n) s"

definition absorb :: "bool \<Rightarrow> string \<Rightarrow> pump_state \<Rightarrow> pump_state" where
  "absorb stream chunk s =
     (let grown = ps_usage s @ chunk;
          overflow = \<not> stream \<and> \<not> ps_overflowed s \<and> length grown > usage_body_bytes;
          tail = last_bytes (4 * length sse_terminal) (ps_tail s @ chunk);
          looking = stream \<and> \<not> ps_seen s
      in s\<lparr>ps_total := ps_total s + length chunk, ps_chunks := Suc (ps_chunks s),
           ps_usage := (if stream then last_bytes usage_tail_bytes grown else if ps_overflowed s then ps_usage s
                        else if overflow then [] else grown),
           ps_overflowed := (ps_overflowed s \<or> overflow),
           ps_tail := (if looking then tail else ps_tail s),
           ps_seen := (if looking then contains tail sse_terminal else ps_seen s),
           ps_delivered := ps_delivered s @ chunk\<rparr>)"

fun pump_loop :: "bool \<Rightarrow> nat \<Rightarrow> (read_event \<times> write_result) list \<Rightarrow> pump_state \<Rightarrow> pump_state \<times> pump_end" where
  "pump_loop stream limit [] s = (s, Eof)"
| "pump_loop stream limit ((Read_Failed, _) # es) s = (s, Upstream_Failed)"
| "pump_loop stream limit ((Chunk chunk, written) # es) s =
     (if chunk = [] then (s, Eof)
      else if limit \<le> ps_total s then (s, At_Ceiling)
      else (case written of
              Write_Timeout \<Rightarrow> (s, Client_Timeout)
            | Write_Broken \<Rightarrow> (s, Client_Gone)
            | Written \<Rightarrow>
                (let s' = absorb stream (take (limit - ps_total s) chunk) s in
                 if limit \<le> ps_total s' then (s', At_Ceiling) else pump_loop stream limit es s')))"

record relay_completion =
  cm_total :: nat
  cm_streamed :: bool
  cm_cancelled :: bool
  cm_complete :: bool
  cm_terminal :: "bool option"
  cm_rejection :: "relay_rejection option"
  cm_usage :: "observed_usage option"

definition pump_usage :: "json_library \<Rightarrow> bool \<Rightarrow> pump_state \<Rightarrow> string + observed_usage option" where
  "pump_usage J stream s =
     (if ps_overflowed s then Inr None else if stream then usage_from_event_stream J (ps_usage s) else usage_from_body J (ps_usage s))"

definition completion_of :: "bool \<Rightarrow> nat option \<Rightarrow> pump_state \<Rightarrow> pump_end \<Rightarrow> observed_usage option \<Rightarrow> relay_completion" where
  "completion_of stream declared s ending usage =
     (let seen = (if stream then Some (ps_seen s) else None);
          c = \<lparr>cm_total = ps_total s, cm_streamed = (ps_chunks s > 1), cm_cancelled = False, cm_complete = False, cm_terminal = seen,
               cm_rejection = None, cm_usage = usage\<rparr>
      in case ending of
           Upstream_Failed \<Rightarrow> c\<lparr>cm_rejection := Some (if stream then DROPPED_STREAM else UPSTREAM_DISCONNECT)\<rparr>
         | Client_Timeout \<Rightarrow> c\<lparr>cm_cancelled := True\<rparr>
         | Client_Gone \<Rightarrow> c\<lparr>cm_cancelled := True\<rparr>
         | At_Ceiling \<Rightarrow> c
         | Eof \<Rightarrow>
             if stream \<and> \<not> ps_seen s then c\<lparr>cm_terminal := Some False, cm_rejection := Some DROPPED_STREAM\<rparr>
             else if (case declared of None \<Rightarrow> False | Some n \<Rightarrow> ps_total s < n)
             then c\<lparr>cm_terminal := None, cm_rejection := Some UPSTREAM_DISCONNECT\<rparr>
             else c\<lparr>cm_complete := True, cm_terminal := (if stream then Some True else None)\<rparr>)"

text \<open>\<open>_content_length\<close>; the conversion \<open>int(raw)\<close> is a parameter.\<close>

definition content_length :: "(string \<Rightarrow> int option) \<Rightarrow> string option \<Rightarrow> nat option" where
  "content_length py_int raw =
     (case Option.bind raw py_int of None \<Rightarrow> None | Some n \<Rightarrow> if 0 \<le> n then Some (nat n) else None)"

record upstream_answer =
  ua_status :: nat
  ua_location :: "string option"
  ua_type :: "string option"
  ua_length :: "string option"
  ua_headers :: "(string \<times> string) list"
  ua_reads :: "(read_event \<times> write_result) list"

definition is_event_stream :: "upstream_answer \<Rightarrow> bool" where
  "is_event_stream a = (case ua_type a of None \<Rightarrow> False | Some t \<Rightarrow> contains (lower t) ''text/event-stream'')"

definition pump ::
  "json_library \<Rightarrow> (string \<Rightarrow> int option) \<Rightarrow> upstream_answer \<Rightarrow> nat \<Rightarrow> string \<times> (string + relay_completion)" where
  "pump J py_int a limit =
     (let stream = is_event_stream a; (s, ending) = pump_loop stream limit (ua_reads a) empty_pump in
      (ps_delivered s,
       case pump_usage J stream s of
         Inl e \<Rightarrow> Inl e
       | Inr usage \<Rightarrow> Inr (completion_of stream (content_length py_int (ua_length a)) s ending usage)))"

subsection \<open>One request\<close>

record relay_request =
  rr_method :: string
  rr_path :: string
  rr_headers :: "(string \<times> string) list"
  rr_length :: "string option"
  rr_body :: "string option"
  rr_head_written :: bool

record outgoing =
  og_origin :: "string \<times> string \<times> nat"
  og_method :: string
  og_path :: string
  og_headers :: "(string \<times> string) list"
  og_body :: string

datatype send_result = Answered upstream_answer | No_Answer | Send_Raised string

record relay_env =
  rn_brackets :: "string \<Rightarrow> bool"
  rn_json :: json_library
  rn_int :: "string \<Rightarrow> int option"
  rn_upstream :: "outgoing \<Rightarrow> send_result"

datatype relay_end =
    Refused_With nat
  | Streamed nat "(string \<times> string) list" string
  | Escaped string

record relay_outcome =
  ro_sent :: "outgoing option"
  ro_end :: relay_end
  ro_state :: relay_state

text \<open>The body: nothing without a length, at most the length otherwise; \<open>None\<close> when reading it fails.\<close>

definition request_body :: "relay_request \<Rightarrow> nat option \<Rightarrow> string option" where
  "request_body r len =
     (case len of None \<Rightarrow> Some [] | Some n \<Rightarrow> if n = 0 then Some [] else map_option (take n) (rr_body r))"

definition forwarded_headers :: "relay_request \<Rightarrow> bool \<Rightarrow> string \<Rightarrow> (string \<times> string) list" where
  "forwarded_headers r probed body =
     (let hs = filter (\<lambda>(n, _). n \<noteq> ''Host'') (sanitise_headers (rr_headers r)) in
      if probed then filter (\<lambda>(n, _). lower n \<noteq> ''content-length'') hs @ [(''Content-Length'', decimal (length body))] else hs)"

definition response_headers :: "upstream_answer \<Rightarrow> (string \<times> string) list" where
  "response_headers a = filter (\<lambda>(n, _). n \<noteq> ''Content-Length'') (sanitise_headers (ua_headers a)) @ [(''Connection'', ''close'')]"

definition refused_end :: "outgoing option \<Rightarrow> nat \<Rightarrow> relay_record \<Rightarrow> relay_state \<Rightarrow> relay_outcome" where
  "refused_end sent status e st = \<lparr>ro_sent = sent, ro_end = Refused_With status, ro_state = record_request e st\<rparr>"

definition escaped_end :: "outgoing option \<Rightarrow> string \<Rightarrow> relay_state \<Rightarrow> relay_outcome" where
  "escaped_end sent e st = \<lparr>ro_sent = sent, ro_end = Escaped e, ro_state = st\<rparr>"

text \<open>The record of an answer that was streamed.\<close>

definition completed_record :: "relay_config \<Rightarrow> upstream_answer \<Rightarrow> relay_completion \<Rightarrow> relay_record \<Rightarrow> relay_record" where
  "completed_record c a m e =
     e\<lparr>rq_status := ua_status a, rq_response_bytes := cm_total m, rq_usage := cm_usage m, rq_streamed := cm_streamed m,
       rq_cancelled := cm_cancelled m, rq_complete := cm_complete m, rq_terminal := cm_terminal m,
       rq_rejection := (if rl_max_response c \<le> cm_total m then Some RESPONSE_TOO_LARGE
                        else case cm_rejection m of None \<Rightarrow> rq_rejection e | Some x \<Rightarrow> Some x)\<rparr>"

definition stream_answer ::
  "relay_env \<Rightarrow> relay_config \<Rightarrow> relay_request \<Rightarrow> outgoing \<Rightarrow> upstream_answer \<Rightarrow> relay_record \<Rightarrow> relay_state \<Rightarrow> relay_outcome" where
  "stream_answer E c r og a e st =
     (if \<not> rr_head_written r then escaped_end (Some og) ''OSError'' st
      else (case pump (rn_json E) (rn_int E) a (rl_max_response c) of
              (delivered, Inl x) \<Rightarrow> escaped_end (Some og) x st
            | (delivered, Inr m) \<Rightarrow>
                \<lparr>ro_sent = Some og, ro_end = Streamed (ua_status a) (response_headers a) delivered,
                 ro_state = record_request (completed_record c a m e) st\<rparr>))"

definition receive_answer ::
  "relay_env \<Rightarrow> relay_config \<Rightarrow> relay_request \<Rightarrow> outgoing \<Rightarrow> relay_record \<Rightarrow> relay_state \<Rightarrow> relay_outcome" where
  "receive_answer E c r og e st =
     (case rn_upstream E og of
        Send_Raised x \<Rightarrow> escaped_end (Some og) x st
      | No_Answer \<Rightarrow> refused_end (Some og) 502 (e\<lparr>rq_rejection := Some UPSTREAM_UNAVAILABLE, rq_status := 502\<rparr>) st
      | Answered a \<Rightarrow>
          (case ua_location a of
             None \<Rightarrow> stream_answer E c r og a e st
           | Some location \<Rightarrow>
               if location \<noteq> [] \<and> 300 \<le> ua_status a \<and> ua_status a < 400
               then (case classify_redirect (rn_brackets E) c location of
                       Inl x \<Rightarrow> escaped_end (Some og) x st
                     | Inr d \<Rightarrow>
                         if rd_allowed d then stream_answer E c r og a e st
                         else refused_end (Some og) (rd_status d)
                                (e\<lparr>rq_rejection := Some CROSS_ORIGIN_REDIRECT, rq_status := rd_status d\<rparr>) st)
               else stream_answer E c r og a e st))"

text \<open>The body that crosses, and whether the relay asked for the token counts itself.\<close>

definition body_to_send :: "relay_config \<Rightarrow> string \<Rightarrow> string option \<Rightarrow> string \<times> bool" where
  "body_to_send c body probed =
     (case probed of None \<Rightarrow> (body, False) | Some b \<Rightarrow> if length b \<le> rl_max_request c then (b, True) else (body, False))"

definition send_request ::
  "relay_env \<Rightarrow> relay_config \<Rightarrow> relay_request \<Rightarrow> string \<Rightarrow> string \<Rightarrow> relay_record \<Rightarrow> relay_state \<Rightarrow> relay_outcome" where
  "send_request E c r upstream_path body e st =
     (case usage_probe_body (rn_brackets E) (rn_json E) c upstream_path body of
        Inl x \<Rightarrow> escaped_end None x st
      | Inr probed \<Rightarrow>
          (case upstream_origin (rn_brackets E) c of
             Inl x \<Rightarrow> escaped_end None x st
           | Inr origin \<Rightarrow>
               (let (b, injected) = body_to_send c body probed in
                receive_answer E c r
                  \<lparr>og_origin = origin, og_method = rr_method r, og_path = upstream_path,
                   og_headers = forwarded_headers r injected b, og_body = b\<rparr>
                  (e\<lparr>rq_request_bytes := length b, rq_probed := injected\<rparr>) st)))"

definition forward_request ::
  "relay_env \<Rightarrow> relay_config \<Rightarrow> relay_request \<Rightarrow> string \<Rightarrow> nat option \<Rightarrow> relay_state \<Rightarrow> relay_outcome" where
  "forward_request E c r upstream_path len st =
     (let e = new_record (rr_method r) (rr_path r) True in
      case request_body r len of
        None \<Rightarrow> escaped_end None ''OSError'' st
      | Some body \<Rightarrow>
          if length body > rl_max_request c
          then refused_end None 413 (e\<lparr>rq_rejection := Some BODY_TOO_LARGE, rq_status := 413\<rparr>) st
          else (case observed_output_budget (rn_brackets E) (rn_json E) upstream_path body of
                  Inl x \<Rightarrow> escaped_end None x st
                | Inr budget \<Rightarrow>
                    (let e1 = e\<lparr>rq_request_bytes := length body, rq_budget := map_option fst budget\<rparr> in
                     case classify_request_body (rn_brackets E) (rn_json E) c upstream_path body of
                       Inl x \<Rightarrow> escaped_end None x st
                     | Inr d \<Rightarrow>
                         if rd_allowed d then send_request E c r upstream_path body e1 st
                         else refused_end None (rd_status d)
                                (e1\<lparr>rq_allowed := False, rq_rejection := rd_rejection d, rq_status := rd_status d\<rparr>) st)))"

definition after_request :: "relay_outcome \<Rightarrow> relay_outcome" where
  "after_request o' = o'\<lparr>ro_state := leave_request (ro_state o')\<rparr>"

definition handle_request :: "relay_env \<Rightarrow> relay_config \<Rightarrow> relay_request \<Rightarrow> relay_state \<Rightarrow> relay_outcome" where
  "handle_request E c r st =
     (let (served, active) = begin_request st; len = content_length (rn_int E) (rr_length r) in
      case classify_request (rn_brackets E) c (rr_method r) (rr_path r) len served active of
        Inl x \<Rightarrow> escaped_end None x st
      | Inr d \<Rightarrow>
          if \<not> rd_allowed d
          then refused_end None (rd_status d)
                 ((new_record (rr_method r) (rr_path r) False)\<lparr>rq_rejection := rd_rejection d, rq_status := rd_status d\<rparr>) st
          else after_request (forward_request E c r (case rd_path d of None \<Rightarrow> ''/'' | Some p \<Rightarrow> p) len (enter_request st)))"

end
