(* ===== verification/Relay_Facts.thy ===== *)
theory Relay_Facts
  imports Relay
begin

section \<open>What crosses the relay\<close>

text \<open>
  That only listed requests within the session's limits reach the upstream, what a complete response is, that every request that
  ends normally is recorded once, and what the counters mean.
\<close>

subsection \<open>The path that is forwarded\<close>

lemma split_scheme_slash: "split_scheme (CHR ''/'' # u) = ([], CHR ''/'' # u)"
  by (simp add: split_scheme_def before_def ascii_letter_def Let_def)

lemma url_cleaned_slash: "url_cleaned (CHR ''/'' # u) = CHR ''/'' # filter (\<lambda>c. (of_char c :: nat) \<notin> set [9, 10, 13]) u"
  by (simp add: url_cleaned_def)

definition plain_query :: "string \<Rightarrow> bool" where
  "plain_query q = (\<forall>c \<in> set q. c \<noteq> CHR ''#'' \<and> (of_char c :: nat) \<notin> set [9, 10, 13])"

definition path_and_query :: "string \<Rightarrow> string \<Rightarrow> string" where
  "path_and_query p q = (if q = [] then p else p @ ''?'' @ q)"

definition plain_path :: "string \<Rightarrow> bool" where
  "plain_path p = (starts_with p ''/'' \<and> \<not> contains p ''//'' \<and> plain_query p \<and> CHR ''?'' \<notin> set p
     \<and> ''..'' \<notin> set (split_on (CHR ''/'') p) \<and> without_trailing_slashes p = p)"

lemma listed_paths_plain: "p \<in> set (map snd allowed_routes) \<Longrightarrow> plain_path p"
proof -
  have "list_all plain_path (map snd allowed_routes)" by code_simp
  then show "p \<in> set (map snd allowed_routes) \<Longrightarrow> plain_path p" by (auto simp: list_all_iff)
qed

lemma plain_pathE:
  assumes "plain_path p"
  obtains t where "p = CHR ''/'' # t" "t = [] \<or> hd t \<noteq> CHR ''/''" "plain_query p" "CHR ''?'' \<notin> set p"
proof -
  from assms obtain t where t: "p = CHR ''/'' # t" by (cases p) (auto simp: plain_path_def starts_with_def)
  have "t = [] \<or> hd t \<noteq> CHR ''/''"
    using assms by (cases t) (auto simp: t plain_path_def starts_with_def)
  with t that assms show ?thesis by (simp add: plain_path_def)
qed

lemma before_after_first: "d \<notin> set p \<Longrightarrow> before d (p @ d # q) = p \<and> after d (p @ d # q) = q"
  by (induction p) (auto simp: before_def after_def)

lemma before_after_absent: "d \<notin> set p \<Longrightarrow> before d p = p \<and> after d p = []"
  by (induction p) (auto simp: before_def after_def)

lemma plain_before: "plain_query s \<Longrightarrow> before (CHR ''#'') s = s \<and> after (CHR ''#'') s = []"
  by (rule before_after_absent) (auto simp: plain_query_def)

lemma path_and_query_split:
  "CHR ''?'' \<notin> set p \<Longrightarrow> before (CHR ''?'') (path_and_query p q) = p \<and> after (CHR ''?'') (path_and_query p q) = q"
  using before_after_first [of "CHR ''?''" p q] before_after_absent [of "CHR ''?''" p] by (simp add: path_and_query_def)

lemma plain_path_splits:
  assumes p: "plain_path p" and q: "plain_query q"
  shows "urlsplit B (path_and_query p q)
    = Inr \<lparr>up_scheme = [], up_netloc = [], up_path = p, up_query = q, up_fragment = []\<rparr>"
proof -
  from plain_pathE [OF p] obtain t where t: "p = CHR ''/'' # t" "t = [] \<or> hd t \<noteq> CHR ''/''" "plain_query p" "CHR ''?'' \<notin> set p" .
  let ?s = "path_and_query p q"
  have plain: "plain_query ?s" using q t(3) by (auto simp: path_and_query_def plain_query_def)
  obtain r where r: "?s = CHR ''/'' # r" using t(1) by (cases "q = []") (auto simp: path_and_query_def)
  have "url_cleaned ?s = ?s" using plain unfolding r url_cleaned_slash by (simp add: plain_query_def filter_id_conv)
  moreover have "split_scheme ?s = ([], ?s)" unfolding r by (rule split_scheme_slash)
  moreover have "\<not> starts_with ?s ''//''"
    using t(1,2) by (cases t) (auto simp: path_and_query_def starts_with_def)
  ultimately show ?thesis
    using plain_before [OF plain] path_and_query_split [OF t(4)] by (simp add: urlsplit_def)
qed

lemmas relay_path_splits = plain_path_splits [OF listed_paths_plain]

lemma urlsplit_query: "urlsplit B raw = Inr u \<Longrightarrow> plain_query (up_query u)"
proof -
  assume u: "urlsplit B raw = Inr u"
  have cleaned: "c \<in> set (url_cleaned raw) \<Longrightarrow> (of_char c :: nat) \<notin> set [9, 10, 13]" for c
    by (simp add: url_cleaned_def)
  obtain s rest where s: "split_scheme (url_cleaned raw) = (s, rest)" by fastforce
  have rest: "set rest \<subseteq> set (url_cleaned raw)"
    using s by (auto simp: split_scheme_def after_def Let_def split: if_splits dest!: in_set_dropD set_dropWhileD)
  have query: "set (after (CHR ''?'') (before (CHR ''#'') v)) \<subseteq> set v - {CHR ''#''}" for v
    by (auto simp: after_def before_def dest!: in_set_dropD set_dropWhileD dest: set_takeWhileD)
  let ?v = "if starts_with rest ''//'' then dropWhile (\<lambda>c. \<not> c \<in> set ''/?#'') (drop 2 rest) else rest"
  have v: "set ?v \<subseteq> set rest" by (auto dest!: set_dropWhileD in_set_dropD)
  have "up_query u = after (CHR ''?'') (before (CHR ''#'') ?v)"
    using u s by (auto simp: urlsplit_def Let_def split: if_splits)
  moreover have "set ?v - {CHR ''#''} \<subseteq> set rest - {CHR ''#''}" using v by (rule Diff_mono) simp
  ultimately have "set (up_query u) \<subseteq> set rest - {CHR ''#''}" using query [of ?v] by (simp only: subset_trans)
  then show ?thesis using rest cleaned by (auto simp: plain_query_def)
qed

lemma effective_listed: "r \<in> set (effective_routes c) \<Longrightarrow> r \<in> set allowed_routes \<and> (rl_routes c \<noteq> [] \<longrightarrow> snd r \<in> set (rl_routes c))"
  by (auto simp: effective_routes_def split: if_splits)

lemma admitted_request:
  assumes ok: "classify_request B c m raw len served active = Inr d" and allowed: "rd_allowed d"
  obtains p q where "(upper m, p) \<in> set (effective_routes c)" "p \<in> set (map snd allowed_routes)" "plain_query q"
    "rd_path d = Some (path_and_query p q)" "case len of None \<Rightarrow> True | Some n \<Rightarrow> n \<le> rl_max_request c"
    "served < rl_max_total c" "active < rl_max_concurrent c"
proof -
  from ok allowed obtain u where u: "urlsplit B raw = Inr u"
    and d: "d = allow (path_and_query (without_trailing_slashes (up_path u)) (up_query u))"
    and listed: "(upper m, without_trailing_slashes (up_path u)) \<in> set (effective_routes c)"
    and limits: "case len of None \<Rightarrow> True | Some n \<Rightarrow> n \<le> rl_max_request c" "served < rl_max_total c" "active < rl_max_concurrent c"
    by (auto simp: classify_request_def Let_def refuse_def path_and_query_def split: if_splits sum.splits option.splits)
  from effective_listed [OF listed] have "without_trailing_slashes (up_path u) \<in> set (map snd allowed_routes)" by force
  with that [OF listed _ urlsplit_query [OF u]] d limits show ?thesis by (simp add: allow_def)
qed

text \<open>A listed route in plain form is admitted while the session's limits last.\<close>

lemma listed_request_is_admitted:
  assumes route: "(upper m, p) \<in> set (effective_routes c)" and q: "plain_query q" "\<not> contains (path_and_query p q) ''://''"
    and limits: "case len of None \<Rightarrow> True | Some n \<Rightarrow> n \<le> rl_max_request c" "served < rl_max_total c" "active < rl_max_concurrent c"
  shows "classify_request B c m (path_and_query p q) len served active = Inr (allow (path_and_query p q))"
proof -
  from effective_listed [OF route] have r: "(upper m, p) \<in> set allowed_routes" by simp
  then have p: "p \<in> set (map snd allowed_routes)" by force
  have pp: "plain_path p" by (rule listed_paths_plain [OF p])
  from plain_pathE [OF pp] obtain t where t: "p = CHR ''/'' # t" "t = [] \<or> hd t \<noteq> CHR ''/''" .
  have forms: "starts_with (path_and_query p q) ''/''" "\<not> starts_with (path_and_query p q) ''//''"
    using t by (cases t; auto simp: path_and_query_def starts_with_def)+
  have clean: "''..'' \<notin> set (split_on (CHR ''/'') p)" "\<not> contains p ''//''" "without_trailing_slashes p = p"
    using pp by (simp_all add: plain_path_def)
  have "upper m \<noteq> ''CONNECT''" using r by (auto simp: allowed_routes_def)
  moreover have "p \<in> set (map snd (effective_routes c))" using route by force
  ultimately show ?thesis
    using forms clean relay_path_splits [OF p q(1), of B] q(2) route limits
    by (cases "q = []") (simp_all add: classify_request_def Let_def path_and_query_def split: option.splits)
qed

subsection \<open>Output budgets\<close>

definition budget_covers :: "(nat \<times> string) option \<Rightarrow> nat \<Rightarrow> bool" where
  "budget_covers best n = (case best of None \<Rightarrow> False | Some (b, _) \<Rightarrow> n \<le> b)"

lemma larger_budget_covers:
  "budget_covers best n \<Longrightarrow> budget_covers (larger_budget fs best k) n"
  "non_negative_int (field k fs) = Some n \<Longrightarrow> budget_covers (larger_budget fs best k) n"
  by (auto simp: budget_covers_def larger_budget_def split: option.splits)

lemma budget_fold_covers:
  "budget_covers best n \<or> (\<exists>k \<in> set ks. non_negative_int (field k fs) = Some n) \<Longrightarrow> budget_covers (foldl (larger_budget fs) best ks) n"
  by (induction ks arbitrary: best) (auto intro: larger_budget_covers)

lemma observed_budget_covers:
  assumes "observed_output_budget B J up body = Inr b" "on_budget_route B up = Inr True" "body \<noteq> []"
    "jl_loads J body = Parsed (JObj fs)" "k \<in> set output_budget_keys" "field k fs = Some (JInt i)" "0 \<le> i"
  shows "budget_covers b (nat i)"
proof -
  have "non_negative_int (field k fs) = Some (nat i)" using assms(6,7) by (simp add: non_negative_int_def)
  then have "budget_covers (foldl (larger_budget fs) None output_budget_keys) (nat i)" using assms(5) by (blast intro: budget_fold_covers)
  with assms(1-4) show ?thesis by (simp add: observed_output_budget_def loads_or_def)
qed

lemma admitted_body_within_cap:
  assumes ok: "classify_request_body B J c up body = Inr d" "rd_allowed d" and cap: "rl_max_output c = Some cap"
    and route: "on_budget_route B up = Inr True" and body: "body \<noteq> []" "jl_loads J body = Parsed (JObj fs)"
    and key: "k \<in> set output_budget_keys" "field k fs = Some (JInt i)"
  shows "i \<le> int cap"
proof (cases "0 \<le> i")
  case True
  from ok cap obtain b where b: "observed_output_budget B J up body = Inr b" "\<And>n k'. b = Some (n, k') \<Longrightarrow> n \<le> cap"
    by (auto simp: classify_request_body_def refuse_def split: sum.splits option.splits if_splits)
  from observed_budget_covers [OF b(1) route body key True] b(2) show ?thesis
    by (auto simp: budget_covers_def split: option.splits prod.splits)
qed simp

lemma field_put: "field j (put_field k v fs) = (if j = k then Some v else field j fs)"
proof (cases "k \<in> fst ` set fs")
  case True
  have mapped: "map_of (map (\<lambda>(i, x). (i, h i x)) fs) j = map_option (h j) (map_of fs j)" for h by (induction fs) auto
  have eq: "(\<lambda>(i, x). if i = k then (i, v) else (i, x)) = (\<lambda>(i, x). (i, if i = k then v else x))" by auto
  from True have "map_of fs k \<noteq> None" by (simp add: map_of_eq_None_iff)
  then have "field j (map (\<lambda>(i, x). if i = k then (i, v) else (i, x)) fs) = (if j = k then Some v else field j fs)"
    unfolding field_def eq mapped by (auto simp: option.map_id option.map_ident)
  with True show ?thesis by (simp add: put_field_def)
next
  case False
  then have "field j (fs @ [(k, v)]) = (if j = k then Some v else field j fs)"
    unfolding field_def by (induction fs) auto
  with False show ?thesis by (simp add: put_field_def)
qed

text \<open>The relay's own rewriting of a body changes \<open>stream_options\<close> alone, and only when it is switched on.\<close>

lemma probe_changes_stream_options:
  assumes "usage_probe_body B J c up body = Inr (Some b)"
  obtains fs where "rl_inject c" "jl_loads J body = Parsed (JObj fs)" "body \<noteq> []" "field ''stream'' fs = Some (JBool True)"
    "b = jl_dumps J (asked_for_usage fs)"
proof -
  from assms have on: "rl_inject c" "body \<noteq> []"
    by (auto simp: usage_probe_body_def split: sum.splits if_splits)
  from assms on obtain fs where fs: "jl_loads J body = Parsed (JObj fs)"
    by (auto simp: usage_probe_body_def loads_or_def split: sum.splits if_splits loaded.splits option.splits json.splits)
  with assms on have "field ''stream'' fs = Some (JBool True)" "b = jl_dumps J (asked_for_usage fs)"
    by (auto simp: usage_probe_body_def loads_or_def split: sum.splits if_splits)
  with that on fs show ?thesis by blast
qed

text \<open>JSON objects that were read survive being written and read again.\<close>

definition json_rereads :: "json_library \<Rightarrow> bool" where
  "json_rereads J = (\<forall>s fs. jl_loads J s = Parsed (JObj fs) \<longrightarrow> jl_loads J (jl_dumps J (asked_for_usage fs)) = Parsed (asked_for_usage fs))"

subsection \<open>What reaches the upstream\<close>

lemma receive_answer_sent: "ro_sent (receive_answer E c r og e st) = Some og"
  by (auto simp: receive_answer_def stream_answer_def escaped_end_def refused_end_def split: send_result.splits option.splits sum.splits
      prod.splits)

lemma forward_sent:
  assumes sent: "ro_sent (forward_request E c r up len st) = Some og"
  obtains body d e s where "request_body r len = Some body" "length body \<le> rl_max_request c"
    "classify_request_body (rn_brackets E) (rn_json E) c up body = Inr d" "rd_allowed d"
    "ro_sent (send_request E c r up body e s) = Some og"
proof -
  note [simp] = forward_request_def escaped_end_def refused_end_def Let_def
  from sent obtain body where body: "request_body r len = Some body" by (cases "request_body r len") simp_all
  with sent have small: "length body \<le> rl_max_request c" by (cases "length body > rl_max_request c") simp_all
  from sent body small obtain b where b: "observed_output_budget (rn_brackets E) (rn_json E) up body = Inr b"
    by (cases "observed_output_budget (rn_brackets E) (rn_json E) up body") simp_all
  from sent body small b obtain d where d: "classify_request_body (rn_brackets E) (rn_json E) c up body = Inr d"
    by (cases "classify_request_body (rn_brackets E) (rn_json E) c up body") simp_all
  from sent body small b d have "rd_allowed d" by (cases "rd_allowed d") simp_all
  with sent body small b d that show ?thesis by simp
qed

lemma sent_stages:
  assumes sent: "ro_sent (handle_request E c r st) = Some og"
  obtains d p q body d' probed where
    "(upper (og_method og), p) \<in> set (effective_routes c)" "p \<in> set (map snd allowed_routes)" "plain_query q"
    "og_path og = path_and_query p q" "total_requests (ry_stats st) < rl_max_total c" "ry_active st < rl_max_concurrent c"
    "request_body r (content_length (rn_int E) (rr_length r)) = Some body" "length body \<le> rl_max_request c"
    "classify_request_body (rn_brackets E) (rn_json E) c (og_path og) body = Inr d'" "rd_allowed d'"
    "usage_probe_body (rn_brackets E) (rn_json E) c (og_path og) body = Inr probed"
    "upstream_origin (rn_brackets E) c = Inr (og_origin og)"
    "og_body og = fst (body_to_send c body probed)"
    "og_headers og = forwarded_headers r (snd (body_to_send c body probed)) (og_body og)"
proof -
  let ?len = "content_length (rn_int E) (rr_length r)"
  from sent obtain d where d: "classify_request (rn_brackets E) c (rr_method r) (rr_path r) ?len (total_requests (ry_stats st)) (ry_active st) = Inr d"
      "rd_allowed d"
    and fwd: "ro_sent (forward_request E c r (case rd_path d of None \<Rightarrow> ''/'' | Some p \<Rightarrow> p) ?len (enter_request st)) = Some og"
    by (auto simp: handle_request_def begin_request_def escaped_end_def refused_end_def after_request_def Let_def split: sum.splits if_splits)
  from admitted_request [OF d] obtain p q where p: "(upper (rr_method r), p) \<in> set (effective_routes c)" "p \<in> set (map snd allowed_routes)"
    "plain_query q" "rd_path d = Some (path_and_query p q)" "total_requests (ry_stats st) < rl_max_total c" "ry_active st < rl_max_concurrent c"
    by blast
  have fwd': "ro_sent (forward_request E c r (path_and_query p q) ?len (enter_request st)) = Some og" using fwd p(4) by simp
  obtain body d' e s where body: "request_body r ?len = Some body" "length body \<le> rl_max_request c"
      "classify_request_body (rn_brackets E) (rn_json E) c (path_and_query p q) body = Inr d'" "rd_allowed d'"
    and send: "ro_sent (send_request E c r (path_and_query p q) body e s) = Some og"
    by (rule forward_sent [OF fwd'])
  from send obtain probed origin where probed: "usage_probe_body (rn_brackets E) (rn_json E) c (path_and_query p q) body = Inr probed"
      "upstream_origin (rn_brackets E) c = Inr origin"
    and og: "og = \<lparr>og_origin = origin, og_method = rr_method r, og_path = path_and_query p q,
      og_headers = forwarded_headers r (snd (body_to_send c body probed)) (fst (body_to_send c body probed)),
      og_body = fst (body_to_send c body probed)\<rparr>"
    by (auto simp: send_request_def escaped_end_def Let_def receive_answer_sent split: sum.splits prod.splits)
  show ?thesis
    by (rule that [of p q body d' probed]) (use p body probed og in simp_all)
qed

lemma headers_crossing:
  "(n, v) \<in> set (forwarded_headers r probed b) \<Longrightarrow> lower n \<notin> set (hop_by_hop_headers @ upstream_steering_headers)"
proof -
  have own: "lower ''Content-Length'' \<notin> set (hop_by_hop_headers @ upstream_steering_headers)" by code_simp
  assume "(n, v) \<in> set (forwarded_headers r probed b)"
  then have "(n, v) \<in> set (sanitise_headers (rr_headers r)) \<or> n = ''Content-Length''"
    by (auto simp: forwarded_headers_def Let_def split: if_splits)
  with own show ?thesis by (auto simp: sanitise_headers_def)
qed

lemma crossing_body_within_cap:
  assumes law: "json_rereads J" and cap: "rl_max_output c = Some cap"
    and ok: "classify_request_body B J c up body = Inr d" "rd_allowed d" and probed: "usage_probe_body B J c up body = Inr probed"
    and route: "on_budget_route B up = Inr True"
    and sent: "b = fst (body_to_send c body probed)" "b \<noteq> []" "jl_loads J b = Parsed (JObj fs)"
    and key: "k \<in> set output_budget_keys" "field k fs = Some (JInt i)"
  shows "i \<le> int cap"
proof (cases "b = body")
  case True
  with sent admitted_body_within_cap [OF ok cap route _ _ key] show ?thesis by simp
next
  case False
  with sent(1) probed have "usage_probe_body B J c up body = Inr (Some b)"
    by (auto simp: body_to_send_def split: option.splits if_splits)
  then obtain gs where gs: "jl_loads J body = Parsed (JObj gs)" "body \<noteq> []" "b = jl_dumps J (asked_for_usage gs)"
    by (rule probe_changes_stream_options)
  with sent(3) law have "asked_for_usage gs = JObj fs" unfolding json_rereads_def by auto
  then obtain v where fs: "fs = put_field ''stream_options'' v gs" by (auto simp: asked_for_usage_def)
  have "k \<noteq> ''stream_options''" using key(1) by (auto simp: output_budget_keys_def)
  with key(2) have "field k gs = Some (JInt i)" by (simp add: fs field_put)
  with admitted_body_within_cap [OF ok cap route gs(2,1) key(1)] show ?thesis by simp
qed

text \<open>
  C10: only listed requests within the session's limits reach the upstream. Whatever one request makes the relay send, its method and
  path are one of the four listed routes (and of the configured ones), it goes to the configured origin, the session's request
  budget and the concurrency limit were not reached, the body is within the size ceiling and is the client's own unless
  the usage switch is on, no hop-by-hop or steering header is left, and a body sent to a completions route names no
  integer output budget above the cap.
\<close>

theorem only_listed_requests_reach_upstream:
  assumes law: "json_rereads (rn_json E)"
    and sent: "ro_sent (handle_request E c r st) = Some og"
  shows "\<exists>p q. (upper (og_method og), p) \<in> set allowed_routes \<and> (rl_routes c \<noteq> [] \<longrightarrow> p \<in> set (rl_routes c))
     \<and> og_path og = path_and_query p q \<and> upstream_origin (rn_brackets E) c = Inr (og_origin og)
     \<and> total_requests (ry_stats st) < rl_max_total c \<and> ry_active st < rl_max_concurrent c
     \<and> length (og_body og) \<le> rl_max_request c
     \<and> (og_body og \<noteq> [] \<longrightarrow> rl_inject c \<or> (\<exists>rest. rr_body r = Some (og_body og @ rest)))
     \<and> (\<forall>(n, v) \<in> set (og_headers og). lower n \<notin> set (hop_by_hop_headers @ upstream_steering_headers))
     \<and> (\<forall>cap fs k i. rl_max_output c = Some cap \<and> p \<in> set output_budget_routes \<and> og_body og \<noteq> []
          \<and> jl_loads (rn_json E) (og_body og) = Parsed (JObj fs) \<and> k \<in> set output_budget_keys \<and> field k fs = Some (JInt i)
          \<longrightarrow> i \<le> int cap)"
proof -
  obtain p q body d' probed where route: "(upper (og_method og), p) \<in> set (effective_routes c)" "p \<in> set (map snd allowed_routes)"
      "plain_query q" "og_path og = path_and_query p q"
    and limits: "total_requests (ry_stats st) < rl_max_total c" "ry_active st < rl_max_concurrent c"
    and body: "request_body r (content_length (rn_int E) (rr_length r)) = Some body" "length body \<le> rl_max_request c"
    and ok: "classify_request_body (rn_brackets E) (rn_json E) c (og_path og) body = Inr d'" "rd_allowed d'"
    and probed: "usage_probe_body (rn_brackets E) (rn_json E) c (og_path og) body = Inr probed"
    and origin: "upstream_origin (rn_brackets E) c = Inr (og_origin og)"
    and b: "og_body og = fst (body_to_send c body probed)"
    and h: "og_headers og = forwarded_headers r (snd (body_to_send c body probed)) (og_body og)"
    by (rule sent_stages [OF sent])
  have listed: "(upper (og_method og), p) \<in> set allowed_routes" "rl_routes c \<noteq> [] \<Longrightarrow> p \<in> set (rl_routes c)"
    using effective_listed [OF route(1)] by simp_all
  have size: "length (og_body og) \<le> rl_max_request c"
    using b body(2) by (auto simp: body_to_send_def split: option.splits)
  have own: "rl_inject c \<or> (\<exists>rest. rr_body r = Some (og_body og @ rest))" if "og_body og \<noteq> []"
  proof (cases "rl_inject c")
    case False
    with probed have "probed = None" by (simp add: usage_probe_body_def)
    with b have "og_body og = body" by (simp add: body_to_send_def)
    with that body(1) show ?thesis
      by (auto simp: request_body_def split: option.splits if_splits) (metis append_take_drop_id)
  qed simp
  have on: "on_budget_route (rn_brackets E) (og_path og) = Inr True" if "p \<in> set output_budget_routes"
    using relay_path_splits [OF route(2,3)] that by (simp add: on_budget_route_def route(4))
  have caps: "i \<le> int cap" if "rl_max_output c = Some cap" "p \<in> set output_budget_routes" "og_body og \<noteq> []"
      "jl_loads (rn_json E) (og_body og) = Parsed (JObj fs)" "k \<in> set output_budget_keys" "field k fs = Some (JInt i)" for cap fs k i
    by (rule crossing_body_within_cap [OF law that(1) ok probed on [OF that(2)] b that(3-6)])
  show ?thesis
    using listed route(4) origin limits size own headers_crossing caps unfolding h
    by (intro exI [of _ p] exI [of _ q]) blast
qed

subsection \<open>What a complete response is\<close>

text \<open>The bytes the upstream delivered up to its end, and that nothing interrupted them.\<close>

fun arrived :: "(read_event \<times> write_result) list \<Rightarrow> string" where
  "arrived [] = []"
| "arrived ((Read_Failed, _) # es) = []"
| "arrived ((Chunk chunk, _) # es) = (if chunk = [] then [] else chunk @ arrived es)"

fun unbroken :: "(read_event \<times> write_result) list \<Rightarrow> bool" where
  "unbroken [] = True"
| "unbroken ((Read_Failed, _) # es) = False"
| "unbroken ((Chunk chunk, written) # es) = (chunk = [] \<or> written = Written \<and> unbroken es)"

definition pump_ok :: "bool \<Rightarrow> pump_state \<Rightarrow> bool" where
  "pump_ok stream s = (ps_total s = length (ps_delivered s) \<and> (stream \<and> \<not> ps_seen s \<longrightarrow> suffix (ps_tail s) (ps_delivered s))
     \<and> (ps_seen s \<longrightarrow> stream \<and> contains (ps_delivered s) sse_terminal) \<and> (ps_chunks s = 0 \<longrightarrow> ps_delivered s = []))"

lemma contains_trans: "contains s t \<Longrightarrow> contains t p \<Longrightarrow> contains s p"
  unfolding contains_iff by (metis append.assoc)

lemma contains_suffix: "suffix t s \<Longrightarrow> contains s t"
  unfolding contains_iff suffix_def by (metis append_Nil2)

lemma absorb_ok:
  assumes ok: "pump_ok stream s"
  shows "pump_ok stream (absorb stream chunk s)"
    and "ps_delivered (absorb stream chunk s) = ps_delivered s @ chunk" "ps_total (absorb stream chunk s) = ps_total s + length chunk"
proof -
  show d: "ps_delivered (absorb stream chunk s) = ps_delivered s @ chunk" "ps_total (absorb stream chunk s) = ps_total s + length chunk"
    by (simp_all add: absorb_def Let_def)
  have window: "suffix (last_bytes n (ps_tail s @ chunk)) (ps_delivered s @ chunk)" if "stream" "\<not> ps_seen s" for n
  proof -
    have "suffix (ps_tail s @ chunk) (ps_delivered s @ chunk)" using ok that by (auto simp: pump_ok_def suffix_def)
    then show ?thesis unfolding last_bytes_def by (rule suffix_order.trans [OF suffix_drop])
  qed
  from ok have old: "contains (ps_delivered s @ chunk) sse_terminal" if "ps_seen s"
    using that unfolding pump_ok_def contains_iff by (metis append.assoc)
  show "pump_ok stream (absorb stream chunk s)"
    using ok old window contains_trans [OF contains_suffix [OF window]]
    by (cases "stream \<and> \<not> ps_seen s") (auto simp: pump_ok_def absorb_def Let_def)
qed

lemma pump_ok_empty: "pump_ok stream empty_pump"
  by (simp add: pump_ok_def empty_pump_def)

lemma pump_loop_ok: "pump_ok stream s \<Longrightarrow> pump_loop stream limit es s = (s', ending) \<Longrightarrow> pump_ok stream s'"
proof (induction stream limit es s arbitrary: s' ending rule: pump_loop.induct)
  case (3 stream limit chunk written es s)
  note ok = absorb_ok(1) [OF 3(2), of "take (limit - ps_total s) chunk"]
  show ?case
    using 3 ok by (auto simp: Let_def split: if_splits write_result.splits)
qed auto

lemma pump_loop_eof:
  "pump_ok stream s \<Longrightarrow> ps_total s < limit \<Longrightarrow> pump_loop stream limit es s = (s', Eof) \<Longrightarrow>
     unbroken es \<and> ps_delivered s' = ps_delivered s @ arrived es \<and> ps_total s' < limit"
proof (induction stream limit es s arbitrary: s' rule: pump_loop.induct)
  case (3 stream limit chunk written es s)
  show ?case
  proof (cases "chunk = []")
    case False
    let ?s = "absorb stream (take (limit - ps_total s) chunk) s"
    have go: "written = Written" "ps_total ?s < limit" "pump_loop stream limit es ?s = (s', Eof)"
      using 3(3,4) False by (auto simp: Let_def split: write_result.splits if_splits)
    then have "length chunk < limit - ps_total s"
      using 3(3) by (simp add: absorb_ok(3) [OF 3(2)])
    then have whole: "take (limit - ps_total s) chunk = chunk" by simp
    from 3(1) [OF False _ go(1) refl] go 3(3) absorb_ok [OF 3(2), of chunk] False show ?thesis
      by (simp add: whole)
  qed (use 3 in auto)
qed auto

text \<open>
  C11: a response that is called complete is whole. When \<open>pump\<close> reports a complete response, no read failed and every write
  succeeded, the client received exactly the bytes the upstream delivered up to its end, below the ceiling, at least as
  many as were declared, and those of an event stream hold the terminal.
\<close>

theorem response_called_complete_is_whole:
  assumes pump: "pump J py_int a limit = (delivered, Inr m)" and complete: "cm_complete m" and limit: "0 < limit"
  shows "unbroken (ua_reads a) \<and> delivered = arrived (ua_reads a) \<and> cm_total m = length delivered \<and> length delivered < limit
     \<and> (\<forall>n. content_length py_int (ua_length a) = Some n \<longrightarrow> n \<le> length delivered)
     \<and> (is_event_stream a \<longrightarrow> contains delivered sse_terminal) \<and> cm_rejection m = None \<and> \<not> cm_cancelled m"
proof -
  obtain s ending where loop: "pump_loop (is_event_stream a) limit (ua_reads a) empty_pump = (s, ending)" by fastforce
  with pump obtain usage where m: "m = completion_of (is_event_stream a) (content_length py_int (ua_length a)) s ending usage"
    and d: "delivered = ps_delivered s"
    by (auto simp: pump_def Let_def split: sum.splits)
  have eof: "ending = Eof" using complete by (cases ending) (simp_all add: m completion_of_def Let_def)
  note ok = pump_loop_ok [OF pump_ok_empty loop]
  have start: "ps_total empty_pump < limit" using limit by (simp add: empty_pump_def)
  have whole: "unbroken (ua_reads a)" "ps_delivered s = arrived (ua_reads a)" "ps_total s < limit"
    using pump_loop_eof [OF pump_ok_empty start loop [unfolded eof]] by (simp_all add: empty_pump_def)
  show ?thesis
    using complete whole ok unfolding m eof completion_of_def d
    by (auto simp: pump_ok_def Let_def split: if_splits option.splits)
qed

subsection \<open>The audit trail\<close>

lemma record_stats_simps [simp]:
  "rs_records (record_stats e s) = rs_records s @ [e]"
  "rs_served (record_stats e s) = rs_served s + counted (rq_allowed e \<and> rq_rejection e = None)"
  "rs_refused (record_stats e s) = rs_refused s + counted (\<not> (rq_allowed e \<and> rq_rejection e = None))"
  by (simp_all add: record_stats_def Let_def)

text \<open>How a request ends, relative to the state in which it was handed over.\<close>

definition settled :: "relay_state \<Rightarrow> relay_outcome \<Rightarrow> bool" where
  "settled st x = (ry_active (ro_state x) = ry_active st \<and>
     (case ro_end x of
        Escaped _ \<Rightarrow> rs_records (ry_stats (ro_state x)) = rs_records (ry_stats st)
      | Refused_With n \<Rightarrow>
          \<exists>e. rs_records (ry_stats (ro_state x)) = rs_records (ry_stats st) @ [e] \<and> rq_rejection e \<noteq> None \<and> rq_status e = n
      | Streamed n hs b \<Rightarrow>
          ro_sent x \<noteq> None \<and> (\<exists>e. rs_records (ry_stats (ro_state x)) = rs_records (ry_stats st) @ [e] \<and> rq_allowed e \<and> rq_status e = n)))"

lemma settled_ends:
  "settled st (escaped_end sent e st)"
  "rq_rejection e' \<noteq> None \<Longrightarrow> rq_status e' = n \<Longrightarrow> settled st (refused_end sent n e' st)"
  by (simp_all add: settled_def escaped_end_def refused_end_def record_request_def)

lemma stream_answer_settled: "rq_allowed e \<Longrightarrow> settled st (stream_answer E c r og a e st)"
  by (auto simp: stream_answer_def settled_def escaped_end_def record_request_def completed_record_def split: prod.splits sum.splits)

lemma classify_redirect_refused: "classify_redirect B c l = Inr d \<Longrightarrow> \<not> rd_allowed d \<Longrightarrow> rd_rejection d \<noteq> None"
  by (auto simp: classify_redirect_def Let_def allow_def refuse_def split: sum.splits prod.splits if_splits)

lemma classify_body_refused: "classify_request_body B J c up body = Inr d \<Longrightarrow> \<not> rd_allowed d \<Longrightarrow> rd_rejection d \<noteq> None"
  by (auto simp: classify_request_body_def allow_def refuse_def split: sum.splits option.splits prod.splits if_splits)

lemma classify_refused: "classify_request B c m raw len served active = Inr d \<Longrightarrow> \<not> rd_allowed d \<Longrightarrow> rd_rejection d \<noteq> None"
  by (auto simp: classify_request_def Let_def allow_def refuse_def split: sum.splits option.splits if_splits)

lemma receive_answer_settled: "rq_allowed e \<Longrightarrow> settled st (receive_answer E c r og e st)"
  by (auto simp: receive_answer_def split: send_result.splits option.splits sum.splits
      intro!: settled_ends stream_answer_settled)

lemma send_request_settled: "rq_allowed e \<Longrightarrow> settled st (send_request E c r up body e st)"
  by (auto simp: send_request_def Let_def split: sum.splits prod.splits intro!: settled_ends receive_answer_settled)

lemma forward_request_settled: "settled st (forward_request E c r up len st)"
  by (auto simp: forward_request_def Let_def new_record_def split: option.splits sum.splits
      intro!: settled_ends send_request_settled dest: classify_body_refused)

lemma enter_request_simps [simp]:
  "ry_active (enter_request st) = Suc (ry_active st)" "rs_records (ry_stats (enter_request st)) = rs_records (ry_stats st)"
  by (simp_all add: enter_request_def Let_def)

lemma after_request_settled: "settled (enter_request st) x \<Longrightarrow> settled st (after_request x)"
  by (auto simp: settled_def after_request_def leave_request_def split: relay_end.splits)

text \<open>
  C33: every request that ends normally is in the audit trail, once. After \<open>handle_request\<close> the number of active requests is what
  it was; a refused or streamed request has added exactly one record, with the status that was sent and, when refused,
  the reason; only a request that ends in an exception no clause catches has added none.
\<close>

theorem normal_end_leaves_one_record:
  "let x = handle_request E c r st; old = rs_records (ry_stats st); new = rs_records (ry_stats (ro_state x)) in
     ry_active (ro_state x) = ry_active st \<and>
     (case ro_end x of
        Escaped _ \<Rightarrow> new = old
      | Refused_With n \<Rightarrow> \<exists>e. new = old @ [e] \<and> rq_rejection e \<noteq> None \<and> rq_status e = n
      | Streamed n hs b \<Rightarrow> ro_sent x \<noteq> None \<and> (\<exists>e. new = old @ [e] \<and> rq_allowed e \<and> rq_status e = n))"
proof -
  have "settled st (handle_request E c r st)"
    by (auto simp: handle_request_def Let_def split: sum.splits prod.splits
        intro!: settled_ends after_request_settled forward_request_settled dest: classify_refused)
  then show ?thesis unfolding settled_def by (simp add: Let_def)
qed

subsection \<open>The counters\<close>

datatype relay_step = Enter | Leave | Recorded relay_record

fun relay_exec :: "relay_state \<Rightarrow> relay_step \<Rightarrow> relay_state" where
  "relay_exec st Enter = enter_request st"
| "relay_exec st Leave = leave_request st"
| "relay_exec st (Recorded e) = record_request e st"

definition fresh_relay :: relay_state where
  "fresh_relay = \<lparr>ry_stats = empty_stats, ry_active = 0\<rparr>"

definition summarises :: "relay_state \<Rightarrow> bool" where
  "summarises st = (let s = ry_stats st; rs = rs_records s in
     rs_served s = length (filter (\<lambda>e. rq_allowed e \<and> rq_rejection e = None) rs) \<and> total_requests s = length rs
     \<and> rs_incomplete s = length (filter (\<lambda>e. \<not> rq_complete e) rs) \<and> rs_cancellations s = length (filter rq_cancelled rs)
     \<and> rs_with_usage s = length (filter (\<lambda>e. rq_usage e \<noteq> None) rs) \<and> rs_input s = sum_list (map record_input_tokens rs)
     \<and> rs_output s = sum_list (map record_output_tokens rs) \<and> rs_to_upstream s = sum_list (map rq_request_bytes rs)
     \<and> rs_from_upstream s = sum_list (map rq_response_bytes rs) \<and> rs_peak_input s = fold max (map record_input_tokens rs) 0
     \<and> ry_active st \<le> rs_peak_concurrent s)"

lemma summarises_fresh: "summarises fresh_relay"
  by (simp add: summarises_def fresh_relay_def empty_stats_def total_requests_def)

lemma summarises_step: "summarises st \<Longrightarrow> summarises (relay_exec st x)"
proof (cases x)
  case (Recorded e)
  assume "summarises st"
  with Recorded show ?thesis
    by (auto simp: summarises_def record_request_def record_stats_def total_requests_def counted_def record_input_tokens_def Let_def)
qed (auto simp: summarises_def enter_request_def leave_request_def total_requests_def Let_def)

interpretation relay_counters: invariant_system fresh_relay "\<lambda>_ _. True" relay_exec summarises
  by unfold_locales (auto intro: summarises_fresh summarises_step)

lemma relay_counters_summarise_records: "summarises (foldl relay_exec fresh_relay xs)"
  by (rule relay_counters.inv_reachable) (simp add: permitted_always)

subsection \<open>Witnesses\<close>

definition sample_fields :: "(string \<times> json) list" where
  "sample_fields = [(''max_tokens'', JInt 5), (''stream'', JBool True)]"

definition sample_json :: json_library where
  "sample_json = \<lparr>jl_loads = (\<lambda>s. if s = ''abc'' then Parsed (JObj sample_fields)
                                  else if s = ''abcd'' then Parsed (asked_for_usage sample_fields) else Not_Json),
     jl_dumps = (\<lambda>_. ''abcd'')\<rparr>"

definition sample_relay_config :: relay_config where
  "sample_relay_config = \<lparr>rl_upstream = ''http://h'', rl_socket = ''/s/relay.sock'', rl_routes = [], rl_max_request = 1024,
     rl_max_response = 1024, rl_max_concurrent = 1, rl_max_total = 2, rl_max_output = Some 10, rl_inject = True\<rparr>"

definition sample_answer :: upstream_answer where
  "sample_answer = \<lparr>ua_status = 200, ua_location = None, ua_type = Some ''text/event-stream'', ua_length = None, ua_headers = [],
     ua_reads = [(Chunk ''data: {}'', Written), (Chunk ''data: [DONE]'', Written)]\<rparr>"

definition sample_relay_env :: "upstream_answer \<Rightarrow> relay_env" where
  "sample_relay_env a = \<lparr>rn_brackets = (\<lambda>_. True), rn_json = sample_json, rn_int = (\<lambda>s. if s = ''3'' then Some 3 else None),
     rn_upstream = (\<lambda>_. Answered a)\<rparr>"

definition sample_request :: relay_request where
  "sample_request = \<lparr>rr_method = ''POST'', rr_path = ''/v1/completions'', rr_headers = [(''Host'', ''evil''), (''Accept'', ''x'')],
     rr_length = Some ''3'', rr_body = Some ''abc'', rr_head_written = True\<rparr>"

lemma lower_examples [simp]:
  "lower ''http'' = ''http''" "lower ''h'' = ''h''" "lower ''Host'' = ''host''" "lower ''Accept'' = ''accept''"
  "lower ''text/event-stream'' = ''text/event-stream''" "lower [] = []"
  by code_simp+

lemma newline_char: "newline = CHR 0x0A"
  by code_simp

lemma decimal_four: "decimal (Suc (Suc (Suc (Suc 0)))) = ''4''"
  by code_simp

lemmas relay_eval = receive_answer_sent decimal_four handle_request_def begin_request_def fresh_relay_def empty_stats_def total_requests_def content_length_def classify_request_def
  Let_def upper_def upper_char_def starts_with_def urlsplit_def split_scheme_def url_cleaned_def before_def after_def after_last_def
  without_trailing_slashes_def effective_routes_def allowed_routes_def allow_def refuse_def forward_request_def enter_request_def
  request_body_def observed_output_budget_def on_budget_route_def loads_or_def larger_budget_def field_def non_negative_int_def
  output_budget_routes_def output_budget_keys_def classify_request_body_def send_request_def usage_probe_body_def stream_options_def
  asked_for_usage_def put_field_def upstream_origin_def port_of_def host_and_port_def hostname_def default_port_def body_to_send_def forwarded_headers_def sanitise_headers_def hop_by_hop_headers_def upstream_steering_headers_def
  after_request_def leave_request_def escaped_end_def refused_end_def new_record_def
  ascii_letter_def ascii_digit_def classify_redirect_def
  sample_fields_def sample_json_def sample_relay_config_def sample_answer_def sample_relay_env_def sample_request_def

lemmas pump_eval = pump_def Let_def is_event_stream_def starts_with_def sample_answer_def absorb_def empty_pump_def
  sse_terminal_def last_bytes_def usage_tail_bytes_def usage_body_bytes_def pump_usage_def usage_from_event_stream_def newline_char
  frame_usage_def strip_bytes_def is_byte_space_def loads_or_def sample_json_def completion_of_def content_length_def

lemma sample_json_rereads: "json_rereads sample_json"
proof -
  have again: "asked_for_usage [(''max_tokens'', JInt 5), (''stream'', JBool True), (''stream_options'', JObj [(''include_usage'', JBool True)])]
      = asked_for_usage sample_fields"
    by code_simp
  have "asked_for_usage sample_fields
      = JObj [(''max_tokens'', JInt 5), (''stream'', JBool True), (''stream_options'', JObj [(''include_usage'', JBool True)])]"
    by code_simp
  with again show ?thesis unfolding json_rereads_def by (auto simp: sample_json_def split: if_splits)
qed

theorem only_listed_requests_reach_upstream_witness:
  "\<exists>og p q. ro_sent (handle_request (sample_relay_env sample_answer) sample_relay_config sample_request fresh_relay) = Some og
     \<and> og_body og = ''abcd'' \<and> og_headers og = [(''Accept'', ''x''), (''Content-Length'', ''4'')]
     \<and> (upper (og_method og), p) \<in> set allowed_routes \<and> og_path og = path_and_query p q"
proof -
  let ?x = "handle_request (sample_relay_env sample_answer) sample_relay_config sample_request fresh_relay"
  let ?og = "\<lparr>og_origin = (''http'', ''h'', 80), og_method = ''POST'', og_path = ''/v1/completions'',
    og_headers = [(''Accept'', ''x''), (''Content-Length'', ''4'')], og_body = ''abcd''\<rparr>"
  have sent: "ro_sent ?x = Some ?og" by (simp add: relay_eval)
  have law: "json_rereads (rn_json (sample_relay_env sample_answer))" by (simp add: sample_relay_env_def sample_json_rereads)
  obtain p q where "(upper (og_method ?og), p) \<in> set allowed_routes" "og_path ?og = path_and_query p q"
    using only_listed_requests_reach_upstream [OF law sent] by blast
  with sent show ?thesis by (intro exI [of _ ?og] exI [of _ p] exI [of _ q]) simp
qed

theorem response_called_complete_is_whole_witness:
  "\<exists>m. pump sample_json (\<lambda>_. None) sample_answer 1024 = (''data: {}data: [DONE]'', Inr m) \<and> cm_total m = 20 \<and> cm_rejection m = None"
proof -
  have "case pump sample_json (\<lambda>_. None) sample_answer 1024 of (d, Inr m) \<Rightarrow> d = ''data: {}data: [DONE]'' \<and> cm_complete m | _ \<Rightarrow> False"
    by (simp add: pump_eval)
  then obtain m where m: "pump sample_json (\<lambda>_. None) sample_answer 1024 = (''data: {}data: [DONE]'', Inr m)" "cm_complete m"
    by (auto split: prod.splits sum.splits)
  from response_called_complete_is_whole [OF m] m(1) show ?thesis by simp
qed

subsection \<open>Shortcomings, on concrete requests\<close>

text \<open>A terminal inside the text of an answer is taken for the end of the stream, and one followed by more bytes is not found.\<close>

lemma quoted_terminal_is_taken_for_the_end:
  "case pump sample_json (\<lambda>_. None) (sample_answer\<lparr>ua_reads := [(Chunk ''data: {text: write data: [DONE] at the'', Written)]\<rparr>) 1024 of
     (d, Inr m) \<Rightarrow> cm_complete m | _ \<Rightarrow> False"
  by (simp add: pump_eval)

lemma terminal_leaves_the_window:
  "case pump sample_json (\<lambda>_. None)
      (sample_answer\<lparr>ua_reads := [(Chunk ''data: [DONE]                                        '', Written)]\<rparr>) 1024 of
     (d, Inr m) \<Rightarrow> \<not> cm_complete m \<and> cm_rejection m = Some DROPPED_STREAM | _ \<Rightarrow> False"
  by (simp add: pump_eval)

text \<open>An unreadable \<open>Location\<close> raises out of the handler: the request was sent and no record is left.\<close>

lemma bad_redirect_leaves_no_record:
  "let x = handle_request (sample_relay_env (sample_answer\<lparr>ua_status := 302, ua_location := Some ''http://h:port/''\<rparr>))
       sample_relay_config sample_request fresh_relay
   in ro_sent x \<noteq> None \<and> ro_end x = Escaped ''ValueError'' \<and> rs_records (ry_stats (ro_state x)) = []"
  by (simp add: relay_eval receive_answer_def classify_redirect_def)

text \<open>A negative budget and one written as a fraction are not compared with the cap.\<close>

lemma other_budgets_cross:
  assumes "v = JInt (- 1) \<or> v = JFloat t" and "jl_loads J body = Parsed (JObj [(''max_tokens'', v)])"
  shows "classify_request_body B J c ''/v1/completions'' body = Inr (allow ''/v1/completions'')"
proof -
  have route: "on_budget_route B ''/v1/completions'' = Inr True"
    using relay_path_splits [of "''/v1/completions''" "[]" B]
    by (simp add: on_budget_route_def path_and_query_def plain_query_def allowed_routes_def output_budget_routes_def)
  have "foldl (larger_budget [(''max_tokens'', v)]) None output_budget_keys = None"
    using assms(1) by (auto simp: output_budget_keys_def larger_budget_def non_negative_int_def field_def)
  with route assms(2) show ?thesis
    by (auto simp: classify_request_body_def observed_output_budget_def loads_or_def split: option.splits)
qed

text \<open>The limit on concurrent requests is read before it is taken: two requests that both begin pass one free slot.\<close>

lemma two_requests_pass_one_slot:
  assumes "classify_request B c m raw len (fst (begin_request st)) (snd (begin_request st)) = Inr d" "rd_allowed d"
    and "rl_max_concurrent c = Suc (ry_active st)"
  shows "ry_active (enter_request (enter_request st)) > rl_max_concurrent c"
  using assms by simp

end
